(* ===== verification/Prelude.thy ===== *)
theory Prelude
  imports Main "HOL-Library.Word"
begin

section \<open>Prelude\<close>

text \<open>
  What every component shares: the collections of facts the proofs name, Rust's fixed-width
  integers as \<open>nat\<close> and \<open>int\<close> with their saturation or wrap-around written out,
  \<open>Result\<close> as a sum type with its sequencing operator \<open>?\<close>, and generic lemmas on lists
  searched by key (\<open>iter().find\<close>) and replaced in place (\<open>iter_mut().find\<close>).

  Collections: \<open>f64_simps\<close> unfolds floating-point operations, \<open>int_simps\<close> the integer ones,
  \<open>result_simps\<close> the sequencing of fallible code, \<open>const_simps\<close> the program's constants.
\<close>

named_theorems f64_simps
named_theorems int_simps
named_theorems result_simps
named_theorems const_simps

subsection \<open>Fixed-width integers\<close>

definition u64_max :: nat where "u64_max = 2 ^ 64 - 1"
definition u32_max :: nat where "u32_max = 2 ^ 32 - 1"

text \<open>\<open>saturating_add\<close>, \<open>saturating_sub\<close> on \<open>u64\<close> and \<open>u32\<close>.\<close>

definition sat_add64 :: "nat \<Rightarrow> nat \<Rightarrow> nat" where
  "sat_add64 a b = min u64_max (a + b)"

definition sat_sub :: "nat \<Rightarrow> nat \<Rightarrow> nat" where
  "sat_sub a b = a - b"

text \<open>\<open>i64\<close>: two's complement wrap-around for \<open>+\<close> and \<open>as i64\<close>, saturation otherwise.\<close>

definition wrap_i64 :: "int \<Rightarrow> int" where
  "wrap_i64 n = (n + 2 ^ 63) mod 2 ^ 64 - 2 ^ 63"

definition sat_i64 :: "int \<Rightarrow> int" where
  "sat_i64 n = max (- (2 ^ 63)) (min (2 ^ 63 - 1) n)"

definition is_i64 :: "int \<Rightarrow> bool" where
  "is_i64 n \<longleftrightarrow> - (2 ^ 63) \<le> n \<and> n < 2 ^ 63"

text \<open>\<open>u32\<close> addition in a release build wraps around.\<close>

definition wrap_u32 :: "nat \<Rightarrow> nat" where
  "wrap_u32 n = n mod 2 ^ 32"

lemma sat_add64_le [simp]: "sat_add64 a b \<le> u64_max"
  by (simp add: sat_add64_def)

lemma sat_add64_ge: "a \<le> u64_max \<Longrightarrow> a \<le> sat_add64 a b"
  by (simp add: sat_add64_def)

lemma sat_add64_exact: "a + b \<le> u64_max \<Longrightarrow> sat_add64 a b = a + b"
  by (simp add: sat_add64_def)

lemma wrap_i64_id: "is_i64 n \<Longrightarrow> wrap_i64 n = n"
  by (simp add: wrap_i64_def is_i64_def mod_pos_pos_trivial)

lemma wrap_i64_range: "is_i64 (wrap_i64 n)"
  using pos_mod_sign [of "2 ^ 64 :: int" "n + 2 ^ 63"] pos_mod_bound [of "2 ^ 64 :: int" "n + 2 ^ 63"]
  by (simp add: wrap_i64_def is_i64_def)

lemma sat_i64_id: "is_i64 n \<Longrightarrow> sat_i64 n = n"
  by (auto simp: sat_i64_def is_i64_def)

lemma sat_i64_range: "is_i64 (sat_i64 n)"
  by (auto simp: sat_i64_def is_i64_def)

lemma sat_i64_mono: "a \<le> b \<Longrightarrow> sat_i64 a \<le> sat_i64 b"
  by (auto simp: sat_i64_def)

lemmas [int_simps] = sat_add64_def sat_sub_def u64_max_def u32_max_def

subsection \<open>Fallible code\<close>

text \<open>\<open>Result<T, E>\<close> is \<open>'e + 'a\<close>; \<open>x?\<close> continues with the value or returns the error.\<close>

fun and_then :: "'e + 'a \<Rightarrow> ('a \<Rightarrow> 'e + 'b) \<Rightarrow> 'e + 'b" where
  "and_then (Inl e) k = Inl e"
| "and_then (Inr x) k = k x"

definition ok_or :: "'e \<Rightarrow> 'a option \<Rightarrow> 'e + 'a" where
  "ok_or e x = (case x of None \<Rightarrow> Inl e | Some v \<Rightarrow> Inr v)"

definition ensure :: "bool \<Rightarrow> 'e \<Rightarrow> 'e + unit" where
  "ensure b e = (if b then Inr () else Inl e)"

definition is_ok :: "'e + 'a \<Rightarrow> bool" where
  "is_ok r = (case r of Inl _ \<Rightarrow> False | Inr _ \<Rightarrow> True)"

lemma is_ok_simps [simp]: "is_ok (Inr x)" "\<not> is_ok (Inl e)"
  by (simp_all add: is_ok_def)

lemma is_ok_iff: "is_ok r \<longleftrightarrow> (\<exists>x. r = Inr x)"
  by (cases r) simp_all

lemma and_then_Inr_iff [result_simps]:
  "and_then r k = Inr y \<longleftrightarrow> (\<exists>x. r = Inr x \<and> k x = Inr y)"
  by (cases r) auto

lemma and_then_Inl_iff [result_simps]:
  "and_then r k = Inl e \<longleftrightarrow> r = Inl e \<or> (\<exists>x. r = Inr x \<and> k x = Inl e)"
  by (cases r) auto

lemma ensure_Inr [result_simps]: "ensure b e = Inr u \<longleftrightarrow> b"
  by (simp add: ensure_def)

lemma ensure_Inl [result_simps]: "ensure b e = Inl e' \<longleftrightarrow> \<not> b \<and> e' = e"
  by (auto simp: ensure_def)

lemma ok_or_Inr [result_simps]: "ok_or e x = Inr v \<longleftrightarrow> x = Some v"
  by (auto simp: ok_or_def split: option.splits)

lemma ok_or_Inl [result_simps]: "ok_or e x = Inl e' \<longleftrightarrow> x = None \<and> e' = e"
  by (auto simp: ok_or_def split: option.splits)

text \<open>A \<open>for\<close> loop whose body may return an error: the first error ends it.\<close>

fun for_each :: "('a \<Rightarrow> 'e + unit) \<Rightarrow> 'a list \<Rightarrow> 'e + unit" where
  "for_each f [] = Inr ()"
| "for_each f (x # xs) = and_then (f x) (\<lambda>_. for_each f xs)"

lemma for_each_ok: "for_each f xs = Inr u \<longleftrightarrow> (\<forall>x \<in> set xs. f x = Inr ())"
  by (induction xs) (auto simp: result_simps)

text \<open>\<open>slice.windows(2)\<close>: the consecutive pairs of a list.\<close>

fun windows2 :: "'a list \<Rightarrow> ('a \<times> 'a) list" where
  "windows2 (x # y # zs) = (x, y) # windows2 (y # zs)"
| "windows2 _ = []"

lemma windows2_nth: "(a, b) \<in> set (windows2 xs) \<longleftrightarrow> (\<exists>i. Suc i < length xs \<and> a = xs ! i \<and> b = xs ! Suc i)"
proof (induction xs rule: windows2.induct)
  case (1 x y zs)
  show ?case
  proof
    assume "(a, b) \<in> set (windows2 (x # y # zs))"
    then consider "a = x" "b = y" | "(a, b) \<in> set (windows2 (y # zs))" by auto
    then show "\<exists>i. Suc i < length (x # y # zs) \<and> a = (x # y # zs) ! i \<and> b = (x # y # zs) ! Suc i"
    proof cases
      case 1
      then show ?thesis by (intro exI [of _ 0]) simp
    next
      case 2
      then obtain i where "Suc i < length (y # zs)" "a = (y # zs) ! i" "b = (y # zs) ! Suc i"
        using "1.IH" by blast
      then show ?thesis by (intro exI [of _ "Suc i"]) simp
    qed
  next
    assume "\<exists>i. Suc i < length (x # y # zs) \<and> a = (x # y # zs) ! i \<and> b = (x # y # zs) ! Suc i"
    then obtain i where i: "Suc i < length (x # y # zs)" "a = (x # y # zs) ! i"
      "b = (x # y # zs) ! Suc i" by blast
    show "(a, b) \<in> set (windows2 (x # y # zs))"
    proof (cases i)
      case 0
      with i show ?thesis by simp
    next
      case (Suc j)
      with i have "(a, b) \<in> set (windows2 (y # zs))"
        unfolding "1.IH" by (intro exI [of _ j]) simp
      then show ?thesis by simp
    qed
  qed
qed simp_all

subsection \<open>Lists searched by key\<close>

text \<open>
  \<open>upsert key v xs\<close>: replace the first element with \<open>v\<close>'s key by \<open>v\<close>, append \<open>v\<close> if there is
  none (\<open>match xs.iter_mut().find(..) { Some(slot) => *slot = v, None => xs.push(v) }\<close>).
\<close>

fun upsert :: "('v \<Rightarrow> 'k) \<Rightarrow> 'v \<Rightarrow> 'v list \<Rightarrow> 'v list" where
  "upsert key v [] = [v]"
| "upsert key v (x # xs) = (if key x = key v then v # xs else x # upsert key v xs)"

lemma find_upsert_same: "List.find (\<lambda>x. key x = key v) (upsert key v xs) = Some v"
  by (induction xs) auto

lemma find_upsert_other:
  "k \<noteq> key v \<Longrightarrow> List.find (\<lambda>x. key x = k) (upsert key v xs) = List.find (\<lambda>x. key x = k) xs"
  by (induction xs) auto

lemma set_keys_upsert: "key ` set (upsert key v xs) = insert (key v) (key ` set xs)"
  by (induction xs) auto

lemma distinct_keys_upsert: "distinct (map key xs) \<Longrightarrow> distinct (map key (upsert key v xs))"
proof (induction xs)
  case (Cons x xs)
  have "key ` set (upsert key v xs) = insert (key v) (key ` set xs)" by (rule set_keys_upsert)
  with Cons show ?case by auto
qed simp

lemma length_upsert: "length (upsert key v xs) =
    (if key v \<in> key ` set xs then length xs else Suc (length xs))"
  by (induction xs) auto

lemma find_key_Some: "List.find (\<lambda>x. key x = k) xs = Some v \<Longrightarrow> v \<in> set xs \<and> key v = k"
  by (auto simp: find_Some_iff)

lemma find_key_None: "List.find (\<lambda>x. key x = k) xs = None \<longleftrightarrow> k \<notin> key ` set xs"
  by (auto simp: find_None_iff)

lemma find_distinct_key:
  "distinct (map key xs) \<Longrightarrow> v \<in> set xs \<Longrightarrow> List.find (\<lambda>x. key x = key v) xs = Some v"
  by (induction xs) (auto simp: image_iff)

lemma sorted_wrt_unique:
  assumes "sorted_wrt R xs" "sorted_wrt R ys" "set xs = set ys" "\<And>a b. R a b \<Longrightarrow> \<not> R b a"
  shows "xs = ys"
  using assms(1-3)
proof (induction xs arbitrary: ys)
  case (Cons x xs)
  then obtain y ys' where ys: "ys = y # ys'" by (cases ys) auto
  have "x = y"
  proof (rule ccontr)
    assume "x \<noteq> y"
    with Cons.prems ys have "R x y" "R y x" by auto
    then show False using assms(4) by blast
  qed
  moreover have "x \<notin> set xs" "y \<notin> set ys'"
    using Cons.prems assms(4) [of x x] assms(4) [of y y] ys by auto
  ultimately have "set xs = set ys'" using Cons.prems(3) ys by (simp add: insert_ident)
  then show ?case using Cons.IH [of ys'] Cons.prems ys \<open>x = y\<close> by simp
qed simp

text \<open>
  \<open>BTreeMap\<close>: its values in key order. \<open>sorted_put\<close> is \<open>insert\<close> under the value's own key,
  \<open>update_key\<close> is \<open>get_mut\<close>, \<open>remove_key\<close> is \<open>remove\<close>, \<open>List.find\<close> is \<open>get\<close>.
\<close>

fun sorted_put :: "('v \<Rightarrow> 'k::linorder) \<Rightarrow> 'v \<Rightarrow> 'v list \<Rightarrow> 'v list" where
  "sorted_put key v [] = [v]"
| "sorted_put key v (x # xs) =
    (if key x = key v then v # xs else if key v < key x then v # x # xs
     else x # sorted_put key v xs)"

definition update_key :: "('v \<Rightarrow> 'k) \<Rightarrow> 'k \<Rightarrow> ('v \<Rightarrow> 'v) \<Rightarrow> 'v list \<Rightarrow> 'v list" where
  "update_key key k f xs = map (\<lambda>x. if key x = k then f x else x) xs"

definition remove_key :: "('v \<Rightarrow> 'k) \<Rightarrow> 'k \<Rightarrow> 'v list \<Rightarrow> 'v list" where
  "remove_key key k xs = filter (\<lambda>x. key x \<noteq> k) xs"

definition sorted_keys :: "('v \<Rightarrow> 'k::linorder) \<Rightarrow> 'v list \<Rightarrow> bool" where
  "sorted_keys key xs \<longleftrightarrow> sorted_wrt (\<lambda>x y. key x < key y) xs"

lemma find_sorted_put:
  "List.find (\<lambda>x. key x = k) (sorted_put key v xs) =
     (if k = key v then Some v else List.find (\<lambda>x. key x = k) xs)"
  by (induction xs) auto

lemma set_keys_sorted_put: "key ` set (sorted_put key v xs) = insert (key v) (key ` set xs)"
  by (induction xs) auto

lemma in_sorted_put: "x \<in> set (sorted_put key v xs) \<Longrightarrow> x = v \<or> x \<in> set xs"
  by (induction xs) (auto split: if_splits)

lemma sorted_keys_put: "sorted_keys key xs \<Longrightarrow> sorted_keys key (sorted_put key v xs)"
proof (induction xs)
  case (Cons x xs)
  then show ?case
    by (auto simp: sorted_keys_def dest!: in_sorted_put intro: less_trans)
qed (simp add: sorted_keys_def)

lemma sorted_keys_distinct: "sorted_keys key xs \<Longrightarrow> distinct (map key xs)"
  by (induction xs) (auto simp: sorted_keys_def)

lemma map_key_update: "(\<And>x. key (f x) = key x) \<Longrightarrow> map key (update_key key k f xs) = map key xs"
  by (simp add: update_key_def)

lemma find_update_key:
  "(\<And>x. key (f x) = key x) \<Longrightarrow> List.find (\<lambda>x. key x = j) (update_key key k f xs) =
     map_option (\<lambda>x. if j = k then f x else x) (List.find (\<lambda>x. key x = j) xs)"
  by (induction xs) (auto simp: update_key_def)

lemma sorted_keys_iff_map: "sorted_keys key xs \<longleftrightarrow> sorted_wrt (<) (map key xs)"
  by (simp add: sorted_keys_def sorted_wrt_map)

lemma sorted_keys_update:
  "(\<And>x. key (f x) = key x) \<Longrightarrow> sorted_keys key (update_key key k f xs) = sorted_keys key xs"
  by (simp add: sorted_keys_iff_map map_key_update)

lemma find_remove_key:
  "List.find (\<lambda>x. key x = j) (remove_key key k xs) =
     (if j = k then None else List.find (\<lambda>x. key x = j) xs)"
  by (induction xs) (auto simp: remove_key_def)

lemma sorted_keys_remove: "sorted_keys key xs \<Longrightarrow> sorted_keys key (remove_key key k xs)"
  by (simp add: sorted_keys_def remove_key_def sorted_wrt_filter)

lemma in_update_key:
  "y \<in> set (update_key key k f xs) \<longleftrightarrow>
     (\<exists>x \<in> set xs. y = (if key x = k then f x else x))"
  by (simp only: update_key_def set_map image_iff)

text \<open>A loop keeps what each of its steps keeps.\<close>

lemma fold_keeps_in: "(\<And>x r. x \<in> set xs \<Longrightarrow> P r \<Longrightarrow> P (f x r)) \<Longrightarrow> P r \<Longrightarrow> P (fold f xs r)"
  by (induction xs arbitrary: r) auto

end
