(* ===== verification/F64.thy ===== *)
theory F64
  imports Prelude "HOL-Library.Log_Nat"
begin

section \<open>IEEE-754 binary64\<close>

text \<open>
  The program computes with Rust's \<open>f64\<close> everywhere: duties, temperatures, curve points,
  hysteresis. This theory models it: a NaN, two infinities and the finite values as
  rationals. Each arithmetic operation computes the exact rational result and rounds it to
  53 significant bits, ties to even, with gradual underflow at \<open>2 ^ -1074\<close> and overflow to
  an infinity at \<open>2 ^ 1024\<close>, as the hardware does. Comparisons with NaN are false.

  Two points of the format are left out, and no result below depends on them: the two
  zeros are one value (the sign of a zero shows only in rendered text and in a division by
  zero, neither of which the modelled code has), and all NaNs are one value.
  The datatype also holds rationals that no double represents; a statement that
  quantifies over \<open>f64\<close> therefore says more than needed, and \<open>is_f64\<close> names the
  representable ones where a statement needs it.
\<close>

subsection \<open>Powers of two\<close>

definition pow2 :: "int \<Rightarrow> rat" where
  "pow2 e = (if 0 \<le> e then 2 ^ nat e else 1 / 2 ^ nat (- e))"

lemma pow2_powi: "pow2 e = 2 powi e"
  by (simp add: pow2_def power_int_def field_simps)

lemma pow2_pos [simp]: "0 < pow2 e"
  by (simp add: pow2_def)

lemma pow2_nonneg [simp]: "0 \<le> pow2 e"
  using pow2_pos [of e] by linarith

lemma pow2_neq_0 [simp]: "pow2 e \<noteq> 0"
  using pow2_pos [of e] by linarith

lemma pow2_add: "pow2 (a + b) = pow2 a * pow2 b"
  by (simp add: pow2_powi power_int_add)

lemma pow2_diff: "pow2 (a - b) = pow2 a / pow2 b"
  by (simp add: pow2_powi power_int_diff)

lemma pow2_mono: "a \<le> b \<Longrightarrow> pow2 a \<le> pow2 b"
  by (simp add: pow2_powi power_int_increasing)

lemma pow2_strict_mono: "a < b \<Longrightarrow> pow2 a < pow2 b"
  by (simp add: pow2_powi power_int_strict_increasing)

lemma pow2_less_cancel: "pow2 a < pow2 b \<Longrightarrow> a < b"
  using pow2_mono [of b a] by linarith

lemma pow2_nat: "0 \<le> e \<Longrightarrow> pow2 e = of_int (2 ^ nat e)"
  by (simp add: pow2_def)

subsection \<open>The binary exponent of a positive rational\<close>

definition ilog2 :: "rat \<Rightarrow> int" where
  "ilog2 q = (case quotient_of q of (n, d) \<Rightarrow>
     (let k = bitlen n - bitlen d in if of_int n < of_int d * pow2 k then k - 1 else k))"

lemma bitlen_pow2:
  assumes "0 < n"
  shows "pow2 (bitlen n - 1) \<le> of_int n" and "of_int n < pow2 (bitlen n)"
proof -
  have b: "2 ^ nat (bitlen n - 1) \<le> n" "n < 2 ^ nat (bitlen n)"
    using bitlen_bounds [OF assms] by auto
  have pos: "0 < bitlen n"
  proof (rule ccontr)
    assume "\<not> ?thesis"
    with b(2) have "n < 1" by simp
    with assms show False by simp
  qed
  from b(1) have "(of_int (2 ^ nat (bitlen n - 1)) :: rat) \<le> of_int n"
    by (simp only: of_int_le_iff)
  then show "pow2 (bitlen n - 1) \<le> of_int n"
    using pos by (simp add: pow2_def)
  from b(2) have "(of_int n :: rat) < of_int (2 ^ nat (bitlen n))"
    by (simp only: of_int_less_iff)
  then show "of_int n < pow2 (bitlen n)"
    using pos by (simp add: pow2_def)
qed

lemma ilog2_bounds:
  assumes "0 < q"
  shows "pow2 (ilog2 q) \<le> q \<and> q < pow2 (ilog2 q + 1)"
proof -
  obtain n d where nd: "quotient_of q = (n, d)" by force
  have d: "0 < d" using nd by (rule quotient_of_denom_pos)
  have q: "q = of_int n / of_int d" using nd by (rule quotient_of_div)
  have n: "0 < n" using assms d q by (simp add: zero_less_divide_iff)
  define k where "k = bitlen n - bitlen d"
  note bn = bitlen_pow2 [OF n] and bd = bitlen_pow2 [OF d]
  have up: "q < pow2 (k + 1)"
  proof -
    have "q \<le> of_int n / pow2 (bitlen d - 1)"
      unfolding q using bd(1) n d by (intro divide_left_mono) auto
    also have "\<dots> < pow2 (bitlen n) / pow2 (bitlen d - 1)"
      using bn(2) by (simp add: divide_strict_right_mono)
    finally show ?thesis by (simp add: k_def flip: pow2_diff) (simp add: algebra_simps)
  qed
  have lo: "pow2 (k - 1) \<le> q"
  proof -
    have "pow2 (bitlen n - 1) / pow2 (bitlen d) \<le> of_int n / pow2 (bitlen d)"
      using bn(1) by (simp add: divide_right_mono)
    also have "\<dots> \<le> q"
      unfolding q using bd(2) n d by (intro divide_left_mono) auto
    finally show ?thesis by (simp add: k_def flip: pow2_diff) (simp add: algebra_simps)
  qed
  have iff: "of_int n < of_int d * pow2 k \<longleftrightarrow> q < pow2 k"
    using d by (simp add: q field_simps)
  have "ilog2 q = (if q < pow2 k then k - 1 else k)"
    by (simp add: ilog2_def nd iff flip: k_def)
  with up lo show ?thesis by auto
qed

lemma ilog2_unique:
  assumes "pow2 k \<le> q" and "q < pow2 (k + 1)"
  shows "ilog2 q = k"
proof -
  have "0 < q" using assms(1) pow2_pos [of k] by linarith
  note b = ilog2_bounds [OF this]
  have "pow2 k < pow2 (ilog2 q + 1)" and "pow2 (ilog2 q) < pow2 (k + 1)"
    using assms b by linarith+
  then show ?thesis by (auto dest!: pow2_less_cancel)
qed

lemma ilog2_mono:
  assumes "0 < p" and "p \<le> q"
  shows "ilog2 p \<le> ilog2 q"
proof -
  have "0 < q" using assms by linarith
  then have "pow2 (ilog2 p) < pow2 (ilog2 q + 1)"
    using ilog2_bounds [OF assms(1)] ilog2_bounds [of q] assms(2) by linarith
  then show ?thesis by (auto dest!: pow2_less_cancel)
qed

subsection \<open>Rounding\<close>

text \<open>
  \<open>rne\<close> rounds a rational to the nearest integer, ties to even; \<open>ulp_exp\<close> is the binary
  exponent of the last place of the double nearest to a rational; \<open>rndq\<close> is that double's
  value before the overflow test, and \<open>rnd\<close> the double.
\<close>

datatype f64 = NaN | PInf | NInf | Fin rat

definition rne :: "rat \<Rightarrow> int" where
  "rne q = (let f = \<lfloor>q\<rfloor>; r = q - of_int f in
     if r < 1 / 2 then f else if 1 / 2 < r then f + 1 else if even f then f else f + 1)"

definition ulp_exp :: "rat \<Rightarrow> int" where
  "ulp_exp q = max (- 1074) (ilog2 \<bar>q\<bar> - 52)"

definition rndq :: "rat \<Rightarrow> rat" where
  "rndq q = (if q = 0 then 0 else of_int (rne (q / pow2 (ulp_exp q))) * pow2 (ulp_exp q))"

definition rnd :: "rat \<Rightarrow> f64" where
  "rnd q = (let v = rndq q in
     if pow2 1024 \<le> v then PInf else if v \<le> - pow2 1024 then NInf else Fin v)"

text \<open>The finite doubles: a 53 bit integer times a power of two not below \<open>2 ^ -1074\<close>.\<close>

definition is_dbl :: "rat \<Rightarrow> bool" where
  "is_dbl q \<longleftrightarrow> (\<exists>m e. q = of_int m * pow2 e \<and> \<bar>m\<bar> \<le> 2 ^ 53 \<and> - 1074 \<le> e) \<and> \<bar>q\<bar> < pow2 1024"

lemma rne_int [simp]: "rne (of_int n) = n"
  by (simp add: rne_def)

lemma rne_near: "\<bar>of_int (rne q) - q\<bar> \<le> 1 / 2"
proof -
  define r where "r = q - of_int \<lfloor>q\<rfloor>"
  have "q = of_int \<lfloor>q\<rfloor> + r" and "0 \<le> r" and "r < 1"
    by (auto simp: r_def) linarith+
  then show ?thesis
    unfolding rne_def Let_def by (auto simp flip: r_def)
qed

lemma rne_mono:
  assumes "p \<le> q"
  shows "rne p \<le> rne q"
proof (cases "\<lfloor>p\<rfloor> = \<lfloor>q\<rfloor>")
  case True
  with assms show ?thesis unfolding rne_def Let_def by auto
next
  case False
  with assms have "\<lfloor>p\<rfloor> + 1 \<le> \<lfloor>q\<rfloor>"
    using floor_mono [OF assms] by linarith
  moreover have "rne p \<le> \<lfloor>p\<rfloor> + 1" and "\<lfloor>q\<rfloor> \<le> rne q"
    unfolding rne_def Let_def by auto
  ultimately show ?thesis by linarith
qed

lemma rne_uminus: "rne (- q) = - rne q"
proof (cases "of_int \<lfloor>q\<rfloor> = q")
  case True
  then obtain n where q: "q = of_int n" by metis
  then have "rne (- q) = rne (of_int (- n))" by simp
  then show ?thesis using q by (simp only: rne_int)
next
  case False
  define r where "r = q - of_int \<lfloor>q\<rfloor>"
  have r: "0 < r" "r < 1" using False by (auto simp: r_def less_le) linarith+
  have fl: "\<lfloor>- q\<rfloor> = - \<lfloor>q\<rfloor> - 1"
    using r unfolding r_def by linarith
  have "- q - of_int \<lfloor>- q\<rfloor> = 1 - r" by (simp add: fl r_def)
  then show ?thesis
    unfolding rne_def Let_def by (auto simp: fl simp flip: r_def)
qed

lemma rne_le_int: "q \<le> of_int n \<Longrightarrow> rne q \<le> n"
  using rne_mono [of q "of_int n"] by simp

lemma rne_ge_int: "of_int n \<le> q \<Longrightarrow> n \<le> rne q"
  using rne_mono [of "of_int n" q] by simp

lemma ulp_exp_ge: "- 1074 \<le> ulp_exp q"
  by (simp add: ulp_exp_def)

lemma ulp_exp_mono: "0 < p \<Longrightarrow> p \<le> q \<Longrightarrow> ulp_exp p \<le> ulp_exp q"
  unfolding ulp_exp_def using ilog2_mono [of p q] by auto

lemma ulp_exp_less: "0 < q \<Longrightarrow> q < pow2 (ulp_exp q + 53)"
proof -
  assume "0 < q"
  then have "q < pow2 (ilog2 q + 1)" by (simp add: ilog2_bounds)
  also have "\<dots> \<le> pow2 (ulp_exp q + 53)"
    using \<open>0 < q\<close> by (intro pow2_mono) (simp add: ulp_exp_def)
  finally show ?thesis .
qed

lemma rndq_0 [simp]: "rndq 0 = 0"
  by (simp add: rndq_def)

lemma rndq_uminus: "rndq (- q) = - rndq q"
  by (simp add: rndq_def ulp_exp_def rne_uminus flip: minus_divide_left)

lemma rndq_scaled_le:
  assumes "0 < q"
  shows "rne (q / pow2 (ulp_exp q)) \<le> 2 ^ 53"
proof (rule rne_le_int)
  have "q / pow2 (ulp_exp q) < pow2 (ulp_exp q + 53) / pow2 (ulp_exp q)"
    using ulp_exp_less [OF assms] by (simp add: divide_strict_right_mono)
  also have "\<dots> = pow2 53" by (simp flip: pow2_diff)
  finally show "q / pow2 (ulp_exp q) \<le> of_int (2 ^ 53)"
    by (simp add: pow2_def)
qed

lemma rndq_upper:
  assumes "0 < q"
  shows "rndq q \<le> pow2 (ulp_exp q + 53)"
proof -
  have "(of_int (rne (q / pow2 (ulp_exp q))) :: rat) \<le> of_int (2 ^ 53)"
    using rndq_scaled_le [OF assms] by (simp only: of_int_le_iff)
  then have "(of_int (rne (q / pow2 (ulp_exp q))) :: rat) \<le> pow2 53"
    by (simp add: pow2_def)
  then have "of_int (rne (q / pow2 (ulp_exp q))) * pow2 (ulp_exp q) \<le> pow2 53 * pow2 (ulp_exp q)"
    by (rule mult_right_mono) simp
  with assms show ?thesis
    by (simp add: rndq_def pow2_add mult.commute)
qed

lemma rndq_nonneg: "0 \<le> q \<Longrightarrow> 0 \<le> rndq q"
  unfolding rndq_def by (auto intro!: mult_nonneg_nonneg rne_ge_int)

lemma rndq_mono_pos:
  assumes p: "0 < p" and pq: "p \<le> q"
  shows "rndq p \<le> rndq q"
proof (cases "ulp_exp p = ulp_exp q")
  case True
  have "rne (p / pow2 (ulp_exp q)) \<le> rne (q / pow2 (ulp_exp q))"
    using pq by (intro rne_mono) (simp add: divide_right_mono)
  then show ?thesis
    using assms True by (simp add: rndq_def mult_right_mono)
next
  case False
  have q: "0 < q" using assms by linarith
  have lt: "ulp_exp p + 1 \<le> ulp_exp q"
    using False ulp_exp_mono [OF p pq] by linarith
  then have uq: "ulp_exp q = ilog2 q - 52"
    using ulp_exp_ge [of p] q by (auto simp: ulp_exp_def)
  have "pow2 (ulp_exp q + 52) / pow2 (ulp_exp q) \<le> q / pow2 (ulp_exp q)"
    using ilog2_bounds [OF q] uq by (simp add: divide_right_mono)
  then have "of_int (2 ^ 52) \<le> q / pow2 (ulp_exp q)"
    by (simp flip: pow2_diff) (simp add: pow2_def)
  then have "2 ^ 52 \<le> rne (q / pow2 (ulp_exp q))"
    by (rule rne_ge_int)
  then have "(of_int (2 ^ 52) :: rat) \<le> of_int (rne (q / pow2 (ulp_exp q)))"
    by (simp only: of_int_le_iff)
  then have "pow2 52 * pow2 (ulp_exp q) \<le> of_int (rne (q / pow2 (ulp_exp q))) * pow2 (ulp_exp q)"
    by (intro mult_right_mono) (simp_all add: pow2_def)
  then have "pow2 (ulp_exp q + 52) \<le> rndq q"
    using q by (simp add: rndq_def pow2_add mult.commute)
  moreover have "rndq p \<le> pow2 (ulp_exp p + 53)" by (rule rndq_upper [OF p])
  moreover have "pow2 (ulp_exp p + 53) \<le> pow2 (ulp_exp q + 52)"
    using lt by (intro pow2_mono) simp
  ultimately show ?thesis by linarith
qed

lemma rndq_mono:
  assumes "p \<le> q"
  shows "rndq p \<le> rndq q"
proof -
  consider "0 < p" | "p \<le> 0" "0 \<le> q" | "q < 0" using assms by linarith
  then show ?thesis
  proof cases
    case 1
    then show ?thesis using assms by (rule rndq_mono_pos)
  next
    case 2
    then have "0 \<le> rndq (- p)" and "0 \<le> rndq q" by (auto intro: rndq_nonneg)
    then show ?thesis by (simp add: rndq_uminus)
  next
    case 3
    then have "rndq (- q) \<le> rndq (- p)" using assms by (intro rndq_mono_pos) auto
    then show ?thesis by (simp add: rndq_uminus)
  qed
qed

lemma rndq_exact_pos:
  assumes q: "0 < q" and d: "is_dbl q"
  shows "rndq q = q"
proof -
  obtain m e where me: "q = of_int m * pow2 e" "\<bar>m\<bar> \<le> 2 ^ 53" "- 1074 \<le> e"
    using d unfolding is_dbl_def by blast
  have "\<exists>n. q = of_int n * pow2 (ulp_exp q)"
  proof (cases "ulp_exp q \<le> e")
    case True
    then have "q = of_int (m * 2 ^ nat (e - ulp_exp q)) * pow2 (ulp_exp q)"
      using me(1) by (simp add: pow2_nat flip: pow2_add)
        (metis add.commute diff_add_cancel le_add_same_cancel1 mult.assoc of_int_numeral
          of_int_power pow2_add pow2_nat diff_ge_0_iff_ge)
    then show ?thesis by blast
  next
    case False
    then have u: "ulp_exp q = ilog2 q - 52"
      using me(3) q by (auto simp: ulp_exp_def)
    have "q \<le> of_int (2 ^ 53) * pow2 e"
      unfolding me(1) using me(2) by (intro mult_right_mono) (simp_all only: of_int_le_iff pow2_nonneg abs_le_iff)
    then have le: "q \<le> pow2 (53 + e)" by (simp add: pow2_add) (simp add: pow2_def)
    have "pow2 (ilog2 q) \<le> pow2 (53 + e)" using ilog2_bounds [OF q] le by linarith
    then have "ilog2 q \<le> 53 + e"
      using pow2_strict_mono [of "53 + e" "ilog2 q"] by linarith
    with False u have "ilog2 q = 53 + e" by linarith
    with le ilog2_bounds [OF q] have "q = pow2 (53 + e)" by auto
    moreover have "ulp_exp q = 1 + e" using u \<open>ilog2 q = 53 + e\<close> by linarith
    moreover have "pow2 (53 + e) = pow2 52 * pow2 (1 + e)" by (simp flip: pow2_add)
    moreover have "pow2 52 = of_int (2 ^ 52)" by (simp add: pow2_def)
    ultimately have "q = of_int (2 ^ 52) * pow2 (ulp_exp q)" by metis
    then show ?thesis by blast
  qed
  then obtain n where n: "q = of_int n * pow2 (ulp_exp q)" by blast
  then have "q / pow2 (ulp_exp q) = of_int n" by (metis nonzero_mult_div_cancel_right pow2_neq_0)
  then show ?thesis using q n by (simp add: rndq_def)
qed

lemma is_dbl_uminus: "is_dbl (- q) = is_dbl q"
proof -
  have "is_dbl (- q)" if "is_dbl q" for q
  proof -
    obtain m e where "q = of_int m * pow2 e" "\<bar>m\<bar> \<le> 2 ^ 53" "- 1074 \<le> e"
      using \<open>is_dbl q\<close> unfolding is_dbl_def by blast
    then have "- q = of_int (- m) * pow2 e \<and> \<bar>- m\<bar> \<le> 2 ^ 53 \<and> - 1074 \<le> e" by simp
    then show ?thesis using \<open>is_dbl q\<close> unfolding is_dbl_def by (metis abs_minus_cancel)
  qed
  from this [of q] this [of "- q"] show ?thesis by auto
qed

lemma rndq_exact: "is_dbl q \<Longrightarrow> rndq q = q"
proof -
  assume d: "is_dbl q"
  consider "0 < q" | "q = 0" | "0 < - q" by linarith
  then show ?thesis
  proof cases
    case 1
    then show ?thesis using d by (rule rndq_exact_pos)
  next
    case 2
    then show ?thesis by simp
  next
    case 3
    then have "rndq (- q) = - q" using d by (simp only: rndq_exact_pos is_dbl_uminus)
    then show ?thesis by (simp add: rndq_uminus)
  qed
qed

lemma rnd_exact: "is_dbl q \<Longrightarrow> rnd q = Fin q"
  by (auto simp: rnd_def rndq_exact is_dbl_def)

lemma rndq_small:
  assumes "\<bar>q\<bar> \<le> b" and "is_dbl b"
  shows "\<bar>rndq q\<bar> \<le> b"
proof -
  have "rndq q \<le> rndq b" and "rndq (- b) \<le> rndq q"
    using assms(1) by (auto intro!: rndq_mono)
  then show ?thesis by (simp add: rndq_uminus rndq_exact [OF assms(2)] abs_le_iff)
qed

lemma is_dbl_int: "\<bar>n\<bar> \<le> 2 ^ 53 \<Longrightarrow> is_dbl (of_int n)"
proof -
  assume n: "\<bar>n\<bar> \<le> 2 ^ 53"
  have eq: "(of_int n :: rat) = of_int n * pow2 0" by (simp add: pow2_def)
  have "\<bar>of_int n :: rat\<bar> \<le> of_int (2 ^ 53)"
    using n by (simp only: of_int_abs [symmetric] of_int_le_iff)
  also have "of_int (2 ^ 53) = pow2 53" by (simp add: pow2_def)
  also have "pow2 53 < pow2 1024" by (rule pow2_strict_mono) simp
  finally have "\<bar>of_int n :: rat\<bar> < pow2 1024" .
  with n eq show ?thesis
    unfolding is_dbl_def by (metis zero_le_numeral neg_le_0_iff_le order_trans)
qed

lemma is_dbl_numeral: "(numeral k :: int) \<le> 2 ^ 53 \<Longrightarrow> is_dbl (numeral k)"
  using is_dbl_int [of "numeral k"] by simp

lemma is_dbl_0 [simp]: "is_dbl 0"
  using is_dbl_int [of 0] by simp

lemma is_dbl_1 [simp]: "is_dbl 1"
  using is_dbl_int [of 1] by simp

lemma is_dbl_100 [simp]: "is_dbl 100"
  by (rule is_dbl_numeral) simp

lemma is_dbl_of_nat_mult_pow2: "\<bar>m\<bar> \<le> 2 ^ 53 \<Longrightarrow> - 1074 \<le> e \<Longrightarrow> e \<le> 0 \<Longrightarrow> is_dbl (of_int m * pow2 e)"
proof -
  assume m: "\<bar>m\<bar> \<le> 2 ^ 53" and e: "- 1074 \<le> e" "e \<le> 0"
  have "\<bar>of_int m :: rat\<bar> < pow2 1024" using is_dbl_int [OF m] by (simp add: is_dbl_def)
  moreover have "\<bar>of_int m * pow2 e\<bar> \<le> \<bar>of_int m :: rat\<bar> * 1"
    using e pow2_mono [of e 0] by (simp only: abs_mult) (intro mult_left_mono, simp_all add: pow2_def)
  ultimately have "\<bar>of_int m * pow2 e\<bar> < pow2 1024" by linarith
  with m e show ?thesis unfolding is_dbl_def by blast
qed

subsection \<open>The type and its operations\<close>

fun is_finite :: "f64 \<Rightarrow> bool" where
  "is_finite (Fin q) = True"
| "is_finite _ = False"

fun is_nan :: "f64 \<Rightarrow> bool" where
  "is_nan NaN = True"
| "is_nan _ = False"

fun is_f64 :: "f64 \<Rightarrow> bool" where
  "is_f64 (Fin q) = is_dbl q"
| "is_f64 _ = True"

fun fle :: "f64 \<Rightarrow> f64 \<Rightarrow> bool" where
  "fle NaN y = False"
| "fle x NaN = False"
| "fle NInf y = True"
| "fle x PInf = True"
| "fle PInf y = False"
| "fle x NInf = False"
| "fle (Fin a) (Fin b) = (a \<le> b)"

fun flt :: "f64 \<Rightarrow> f64 \<Rightarrow> bool" where
  "flt NaN y = False"
| "flt x NaN = False"
| "flt PInf y = False"
| "flt x NInf = False"
| "flt NInf y = True"
| "flt x PInf = True"
| "flt (Fin a) (Fin b) = (a < b)"

instantiation f64 :: ord
begin
definition "x \<le> y \<longleftrightarrow> fle x y"
definition "x < y \<longleftrightarrow> flt x y"
instance ..
end

text \<open>\<open>a == b\<close> of the code: structural equality, except that NaN equals nothing.\<close>

definition feq :: "f64 \<Rightarrow> f64 \<Rightarrow> bool" where
  "feq x y \<longleftrightarrow> x = y \<and> \<not> is_nan x"

fun fneg :: "f64 \<Rightarrow> f64" where
  "fneg NaN = NaN"
| "fneg PInf = NInf"
| "fneg NInf = PInf"
| "fneg (Fin a) = Fin (- a)"

fun fadd :: "f64 \<Rightarrow> f64 \<Rightarrow> f64" where
  "fadd NaN y = NaN"
| "fadd x NaN = NaN"
| "fadd PInf NInf = NaN"
| "fadd NInf PInf = NaN"
| "fadd PInf y = PInf"
| "fadd x PInf = PInf"
| "fadd NInf y = NInf"
| "fadd x NInf = NInf"
| "fadd (Fin a) (Fin b) = rnd (a + b)"

definition inf_of_sign :: "rat \<Rightarrow> f64" where
  "inf_of_sign s = (if 0 < s then PInf else if s < 0 then NInf else NaN)"

fun fmul :: "f64 \<Rightarrow> f64 \<Rightarrow> f64" where
  "fmul NaN y = NaN"
| "fmul x NaN = NaN"
| "fmul (Fin a) (Fin b) = rnd (a * b)"
| "fmul (Fin a) PInf = inf_of_sign a"
| "fmul (Fin a) NInf = inf_of_sign (- a)"
| "fmul PInf (Fin b) = inf_of_sign b"
| "fmul NInf (Fin b) = inf_of_sign (- b)"
| "fmul PInf PInf = PInf"
| "fmul NInf NInf = PInf"
| "fmul PInf NInf = NInf"
| "fmul NInf PInf = NInf"

text \<open>Division by zero gives the infinity of the dividend's sign (the zero counted positive).\<close>

fun fdiv :: "f64 \<Rightarrow> f64 \<Rightarrow> f64" where
  "fdiv NaN y = NaN"
| "fdiv x NaN = NaN"
| "fdiv (Fin a) (Fin b) = (if b = 0 then inf_of_sign a else rnd (a / b))"
| "fdiv (Fin a) y = Fin 0"
| "fdiv PInf (Fin b) = (if b < 0 then NInf else PInf)"
| "fdiv NInf (Fin b) = (if b < 0 then PInf else NInf)"
| "fdiv x y = NaN"

fun fabs :: "f64 \<Rightarrow> f64" where
  "fabs NaN = NaN"
| "fabs (Fin a) = Fin \<bar>a\<bar>"
| "fabs _ = PInf"

instantiation f64 :: "{zero, one, plus, minus, uminus, times, abs, divide}"
begin
definition "0 = Fin 0"
definition "1 = Fin 1"
definition "x + y = fadd x y"
definition "- x = fneg x"
definition "x - y = fadd x (fneg y)" for x y :: f64
definition "x * y = fmul x y"
definition "\<bar>x\<bar> = fabs x"
definition "x div y = fdiv x y"
instance ..
end

text \<open>\<open>f64::max\<close>, \<open>f64::min\<close> ignore a NaN operand; \<open>f64::clamp\<close> keeps it.\<close>

definition fmax :: "f64 \<Rightarrow> f64 \<Rightarrow> f64" where
  "fmax x y = (if is_nan x then y else if is_nan y then x else if x < y then y else x)"

definition fmin :: "f64 \<Rightarrow> f64 \<Rightarrow> f64" where
  "fmin x y = (if is_nan x then y else if is_nan y then x else if y < x then y else x)"

definition fclamp :: "f64 \<Rightarrow> f64 \<Rightarrow> f64 \<Rightarrow> f64" where
  "fclamp x lo hi = (if x < lo then lo else if hi < x then hi else x)"

text \<open>\<open>f64::clamp\<close> asserts \<open>lo <= hi\<close>: it panics (\<open>None\<close>) on crossed or NaN bounds.\<close>

definition clamp_checked :: "f64 \<Rightarrow> f64 \<Rightarrow> f64 \<Rightarrow> f64 option" where
  "clamp_checked x lo hi = (if lo \<le> hi then Some (fclamp x lo hi) else None)"

text \<open>\<open>f64::round\<close> (half away from zero), \<open>f64::signum\<close>, and the casts \<open>as f64\<close> and
  \<open>as i64\<close> (saturating, NaN to 0, truncating).\<close>

definition round_away :: "rat \<Rightarrow> int" where
  "round_away q = (if 0 \<le> q then \<lfloor>q + 1 / 2\<rfloor> else - \<lfloor>1 / 2 - q\<rfloor>)"

fun fround :: "f64 \<Rightarrow> f64" where
  "fround (Fin q) = Fin (of_int (round_away q))"
| "fround x = x"

fun fsignum :: "f64 \<Rightarrow> f64" where
  "fsignum NaN = NaN"
| "fsignum PInf = Fin 1"
| "fsignum NInf = Fin (- 1)"
| "fsignum (Fin q) = (if 0 \<le> q then Fin 1 else Fin (- 1))"

definition f64_of_int :: "int \<Rightarrow> f64" where
  "f64_of_int n = rnd (of_int n)"

definition i64_max :: int where "i64_max = 2 ^ 63 - 1"
definition i64_min :: int where "i64_min = - (2 ^ 63)"

definition trunc :: "rat \<Rightarrow> int" where
  "trunc q = (if 0 \<le> q then \<lfloor>q\<rfloor> else - \<lfloor>- q\<rfloor>)"

fun f64_to_i64 :: "f64 \<Rightarrow> int" where
  "f64_to_i64 NaN = 0"
| "f64_to_i64 PInf = i64_max"
| "f64_to_i64 NInf = i64_min"
| "f64_to_i64 (Fin q) = max i64_min (min i64_max (trunc q))"

definition f64_epsilon :: f64 where
  "f64_epsilon = Fin (pow2 (- 52))"

lemmas f64_ord [f64_simps] = less_eq_f64_def less_f64_def
lemmas f64_arith [f64_simps] =
  zero_f64_def one_f64_def plus_f64_def minus_f64_def uminus_f64_def times_f64_def
  divide_f64_def abs_f64_def

subsection \<open>Order\<close>

lemma Fin_le_Fin [simp]: "Fin a \<le> Fin b \<longleftrightarrow> a \<le> b"
  by (simp add: f64_ord)

lemma Fin_less_Fin [simp]: "Fin a < Fin b \<longleftrightarrow> a < b"
  by (simp add: f64_ord)

lemma f64_NaN_ord [simp]: "\<not> NaN \<le> x" "\<not> x \<le> NaN" "\<not> NaN < x" "\<not> x < NaN"
  by (cases x; simp add: f64_ord)+

lemma f64_Inf_ord [simp]:
  "x \<le> PInf \<longleftrightarrow> \<not> is_nan x" "NInf \<le> x \<longleftrightarrow> \<not> is_nan x"
  "\<not> PInf < x" "\<not> x < NInf" "Fin a < PInf" "NInf < Fin a" "\<not> PInf \<le> Fin a" "\<not> Fin a \<le> NInf"
  "NInf < PInf" "\<not> PInf \<le> NInf"
  by (cases x; simp add: f64_ord)+

lemma f64_le_refl [simp]: "x \<le> x \<longleftrightarrow> \<not> is_nan x" for x :: f64
  by (cases x) (simp_all add: f64_ord)

lemma f64_less_irrefl [simp]: "\<not> x < x" for x :: f64
  by (cases x) (simp_all add: f64_ord)

lemma f64_le_trans [trans]: "x \<le> y \<Longrightarrow> y \<le> z \<Longrightarrow> x \<le> z" for x y z :: f64
  by (cases x; cases y; cases z) (auto simp: f64_ord)

lemma f64_le_less_trans [trans]: "x \<le> y \<Longrightarrow> y < z \<Longrightarrow> x < z" for x y z :: f64
  by (cases x; cases y; cases z) (auto simp: f64_ord)

lemma f64_less_le_trans [trans]: "x < y \<Longrightarrow> y \<le> z \<Longrightarrow> x < z" for x y z :: f64
  by (cases x; cases y; cases z) (auto simp: f64_ord)

lemma f64_less_imp_le: "x < y \<Longrightarrow> x \<le> y" for x y :: f64
  by (cases x; cases y) (auto simp: f64_ord)

lemma f64_antisym: "x \<le> y \<Longrightarrow> y \<le> x \<Longrightarrow> x = y" for x y :: f64
  by (cases x; cases y) (auto simp: f64_ord)

lemma f64_not_less: "\<not> is_nan x \<Longrightarrow> \<not> is_nan y \<Longrightarrow> \<not> x < y \<longleftrightarrow> y \<le> x" for x y :: f64
  by (cases x; cases y) (auto simp: f64_ord)

lemma f64_not_le: "\<not> is_nan x \<Longrightarrow> \<not> is_nan y \<Longrightarrow> \<not> x \<le> y \<longleftrightarrow> y < x" for x y :: f64
  by (cases x; cases y) (auto simp: f64_ord)

lemma f64_linear: "\<not> is_nan x \<Longrightarrow> \<not> is_nan y \<Longrightarrow> x \<le> y \<or> y \<le> x" for x y :: f64
  by (cases x; cases y) (auto simp: f64_ord)

lemma f64_le_not_nan: "x \<le> y \<Longrightarrow> \<not> is_nan x \<and> \<not> is_nan y"
  by (cases x; cases y) auto

lemma f64_less_not_nan: "x < y \<Longrightarrow> \<not> is_nan x \<and> \<not> is_nan y"
  by (cases x; cases y) auto

lemma is_finite_iff: "is_finite x \<longleftrightarrow> (\<exists>q. x = Fin q)"
  by (cases x) auto

lemma is_finite_not_nan: "is_finite x \<Longrightarrow> \<not> is_nan x"
  by (cases x) auto

lemma finite_between: "Fin a \<le> x \<Longrightarrow> x \<le> Fin b \<Longrightarrow> is_finite x"
  by (cases x) auto

subsection \<open>Maximum, minimum and clamp\<close>

lemma fmax_Fin [simp]: "fmax (Fin a) (Fin b) = Fin (max a b)"
  by (simp add: fmax_def max_def)

lemma fmin_Fin [simp]: "fmin (Fin a) (Fin b) = Fin (min a b)"
  by (auto simp: fmin_def min_def)

lemma fmax_nan [simp]: "fmax NaN y = y" "fmax x NaN = x"
  by (cases x; simp add: fmax_def)+

lemma fmin_nan [simp]: "fmin NaN y = y" "fmin x NaN = x"
  by (cases x; simp add: fmin_def)+

lemma fmax_inf [simp]: "fmax NInf y = (if is_nan y then NInf else y)" "fmax PInf y = PInf"
  "fmax x NInf = (if is_nan x then NInf else x)" "fmax x PInf = PInf"
  by (cases x; cases y; simp add: fmax_def f64_ord)+

lemma fmin_inf [simp]: "fmin PInf y = (if is_nan y then PInf else y)" "fmin NInf y = NInf"
  "fmin x PInf = (if is_nan x then PInf else x)" "fmin x NInf = NInf"
  by (cases x; cases y; simp add: fmin_def f64_ord)+

lemma fmax_ge1: "\<not> is_nan x \<Longrightarrow> x \<le> fmax x y"
  by (cases x; cases y) (auto simp: fmax_def f64_ord)

lemma fmax_ge2: "\<not> is_nan y \<Longrightarrow> y \<le> fmax x y"
  by (cases x; cases y) (auto simp: fmax_def f64_ord)

lemma fmax_le: "x \<le> z \<Longrightarrow> y \<le> z \<Longrightarrow> fmax x y \<le> z"
  by (simp add: fmax_def)

lemma fmin_le1: "\<not> is_nan x \<Longrightarrow> fmin x y \<le> x"
  by (cases x; cases y) (auto simp: fmin_def f64_ord)

lemma fmin_le2: "\<not> is_nan y \<Longrightarrow> fmin x y \<le> y"
  by (cases x; cases y) (auto simp: fmin_def f64_ord)

lemma fmin_ge: "z \<le> x \<Longrightarrow> z \<le> y \<Longrightarrow> z \<le> fmin x y"
  by (simp add: fmin_def)

lemma fmax_cases: "fmax x y = x \<or> fmax x y = y"
  by (simp add: fmax_def)

lemma fmin_cases: "fmin x y = x \<or> fmin x y = y"
  by (simp add: fmin_def)

lemma fclamp_nan [simp]: "fclamp NaN lo hi = NaN"
  by (simp add: fclamp_def)

lemma fclamp_ge: "lo \<le> hi \<Longrightarrow> \<not> is_nan x \<Longrightarrow> lo \<le> fclamp x lo hi"
  by (cases x; cases lo; cases hi) (auto simp: fclamp_def f64_ord)

lemma fclamp_le: "lo \<le> hi \<Longrightarrow> \<not> is_nan x \<Longrightarrow> fclamp x lo hi \<le> hi"
  by (cases x; cases lo; cases hi) (auto simp: fclamp_def f64_ord)

lemma fclamp_id: "lo \<le> x \<Longrightarrow> x \<le> hi \<Longrightarrow> fclamp x lo hi = x"
  by (cases x; cases lo; cases hi) (auto simp: fclamp_def f64_ord)

lemma fclamp_mono: "lo \<le> hi \<Longrightarrow> x \<le> y \<Longrightarrow> fclamp x lo hi \<le> fclamp y lo hi"
  by (cases x; cases y; cases lo; cases hi) (auto simp: fclamp_def f64_ord)

lemma fclamp_finite: "is_finite x \<Longrightarrow> is_finite lo \<Longrightarrow> is_finite hi \<Longrightarrow> is_finite (fclamp x lo hi)"
  by (simp add: fclamp_def)

lemma fclamp_Fin: "fclamp (Fin x) (Fin a) (Fin b) = Fin (if x < a then a else if b < x then b else x)"
  by (simp add: fclamp_def)

lemma fclamp_is_nan [simp]: "lo \<le> hi \<Longrightarrow> is_nan (fclamp x lo hi) \<longleftrightarrow> is_nan x"
  by (cases x; cases lo; cases hi) (auto simp: fclamp_def f64_ord)

subsection \<open>Rounded arithmetic\<close>

lemma rnd_not_nan [simp]: "\<not> is_nan (rnd q)"
  by (simp add: rnd_def Let_def)

lemma rnd_0 [simp]: "rnd 0 = Fin 0"
  by (simp add: rnd_exact)

lemma rnd_mono:
  assumes "p \<le> q"
  shows "rnd p \<le> rnd q"
proof -
  have "rndq p \<le> rndq q" using assms by (rule rndq_mono)
  moreover have "0 < pow2 1024" by simp
  ultimately show ?thesis unfolding rnd_def Let_def by auto
qed

lemma rnd_le_Fin: "p \<le> b \<Longrightarrow> is_dbl b \<Longrightarrow> rnd p \<le> Fin b"
  using rnd_mono [of p b] by (simp add: rnd_exact)

lemma Fin_le_rnd: "b \<le> p \<Longrightarrow> is_dbl b \<Longrightarrow> Fin b \<le> rnd p"
  using rnd_mono [of b p] by (simp add: rnd_exact)

lemma rnd_between:
  assumes "a \<le> q" "q \<le> b" "is_dbl a" "is_dbl b"
  obtains v where "rnd q = Fin v" "a \<le> v" "v \<le> b"
proof -
  have "Fin a \<le> rnd q" and "rnd q \<le> Fin b"
    using assms by (auto intro: rnd_le_Fin Fin_le_rnd)
  then show thesis using that by (cases "rnd q") auto
qed

lemma Fin_plus: "Fin a + Fin b = rnd (a + b)"
  by (simp add: f64_arith)

lemma Fin_minus: "Fin a - Fin b = rnd (a - b)"
  by (simp add: f64_arith)

lemma Fin_times: "Fin a * Fin b = rnd (a * b)"
  by (simp add: f64_arith)

lemma Fin_divide: "b \<noteq> 0 \<Longrightarrow> Fin a div Fin b = rnd (a / b)"
  by (simp add: f64_arith)

lemma Fin_uminus [simp]: "- Fin a = Fin (- a)"
  by (simp add: f64_arith)

lemma Fin_abs [simp]: "\<bar>Fin a\<bar> = Fin \<bar>a\<bar>"
  by (simp add: f64_arith)

lemma f64_0 [simp]: "(0 :: f64) = Fin 0"
  by (simp add: f64_arith)

lemma rnd_f64: "is_f64 (rnd q)"
proof (cases "q = 0")
  case False
  define e where "e = ulp_exp q"
  have pos: "rne (\<bar>q\<bar> / pow2 (ulp_exp \<bar>q\<bar>)) \<le> 2 ^ 53"
    using False by (intro rndq_scaled_le) simp
  have "\<bar>rne (q / pow2 e)\<bar> \<le> 2 ^ 53"
  proof (cases "0 \<le> q")
    case True
    then have "0 \<le> rne (q / pow2 e)" by (intro rne_ge_int) simp
    with True pos show ?thesis by (simp add: e_def)
  next
    case neg: False
    then have "0 \<le> rne (- q / pow2 e)" by (intro rne_ge_int) (simp add: divide_nonpos_pos)
    with neg pos show ?thesis by (simp add: e_def ulp_exp_def rne_uminus)
  qed
  then have "is_dbl (rndq q)" if "\<bar>rndq q\<bar> < pow2 1024"
    using that False ulp_exp_ge [of q] unfolding is_dbl_def rndq_def e_def by auto
  then show ?thesis by (auto simp: rnd_def Let_def)
qed simp

lemma f64_plus_closed: "is_f64 (x + y)"
  by (cases x; cases y) (simp_all add: f64_arith rnd_f64)

lemma inf_of_sign_f64 [simp]: "is_f64 (inf_of_sign s)"
  by (simp add: inf_of_sign_def)

lemma f64_times_closed: "is_f64 (x * y)"
  by (cases x; cases y) (simp_all add: f64_arith rnd_f64)

lemma f64_divide_closed: "is_f64 (x div y)"
  by (cases x; cases y) (simp_all add: f64_arith rnd_f64)
subsection \<open>Errors of rounding\<close>

text \<open>The difference of two distinct doubles never rounds to zero (gradual underflow).\<close>

lemma dbl_unit_multiple:
  assumes "is_dbl q"
  obtains n where "q = of_int n * pow2 (- 1074)"
proof -
  obtain m e where me: "q = of_int m * pow2 e" "- 1074 \<le> e"
    using assms unfolding is_dbl_def by blast
  have "pow2 e = pow2 (e + 1074) * pow2 (- 1074)" by (simp flip: pow2_add)
  also have "pow2 (e + 1074) = of_int (2 ^ nat (e + 1074))" using me(2) by (simp add: pow2_nat)
  finally have "q = of_int (m * 2 ^ nat (e + 1074)) * pow2 (- 1074)"
    by (simp add: me(1) mult.assoc)
  then show thesis by (rule that)
qed

lemma is_dbl_min: "is_dbl (pow2 (- 1074))"
  using is_dbl_of_nat_mult_pow2 [of 1 "- 1074"] by simp

lemma rnd_diff_pos:
  assumes "is_dbl a" "is_dbl b" "a < b"
  shows "Fin 0 < rnd (b - a)"
proof -
  obtain m n where m: "a = of_int m * pow2 (- 1074)" and n: "b = of_int n * pow2 (- 1074)"
    using assms(1,2) by (metis dbl_unit_multiple)
  have "m < n" using assms(3) m n by simp
  then have "(1 :: rat) \<le> of_int (n - m)" by (simp only: of_int_1_le_iff)
  then have "1 * pow2 (- 1074) \<le> of_int (n - m) * pow2 (- 1074)"
    by (intro mult_right_mono) simp_all
  then have "pow2 (- 1074) \<le> b - a" by (simp add: m n algebra_simps)
  then have "Fin (pow2 (- 1074)) \<le> rnd (b - a)" by (rule Fin_le_rnd) (rule is_dbl_min)
  then show ?thesis by (rule f64_less_le_trans [rotated]) simp
qed

lemma rndq_error:
  assumes "\<bar>q\<bar> < pow2 (k + 1)" "- 1022 \<le> k"
  shows "\<bar>rndq q - q\<bar> \<le> pow2 (k - 53)"
proof (cases "q = 0")
  case False
  have "pow2 (ilog2 \<bar>q\<bar>) < pow2 (k + 1)"
    using ilog2_bounds [of "\<bar>q\<bar>"] False assms(1) by auto
  then have "ulp_exp q \<le> k - 52" using assms(2) by (auto simp: ulp_exp_def dest: pow2_less_cancel)
  have "rndq q - q = (of_int (rne (q / pow2 (ulp_exp q))) - q / pow2 (ulp_exp q)) * pow2 (ulp_exp q)"
    using False by (simp add: rndq_def algebra_simps)
  then have "\<bar>rndq q - q\<bar> = \<bar>of_int (rne (q / pow2 (ulp_exp q))) - q / pow2 (ulp_exp q)\<bar> * pow2 (ulp_exp q)"
    by (simp add: abs_mult)
  also have "\<dots> \<le> 1 / 2 * pow2 (k - 52)"
    using rne_near \<open>ulp_exp q \<le> k - 52\<close> by (intro mult_mono pow2_mono) auto
  also have "\<dots> = pow2 (k - 53)"
    using pow2_add [of 1 "k - 53"] by (simp add: pow2_def [of 1] algebra_simps)
  finally show ?thesis .
qed simp

lemma rnd_100_tie: "rndq (100 + pow2 (- 47)) = 100"
proof -
  let ?q = "100 + pow2 (- 47)"
  have small: "pow2 (- 47) < 1" by (simp add: pow2_def)
  have "ilog2 \<bar>?q\<bar> = 6"
    using small by (intro ilog2_unique) (simp_all add: pow2_def)
  then have u: "ulp_exp ?q = - 46" by (simp add: ulp_exp_def)
  have q: "?q / pow2 (- 46) = of_int (100 * 2 ^ 46) + 1 / 2"
    by (simp add: pow2_def field_simps)
  have "rne (of_int n + 1 / 2) = n" if "even n" for n
  proof -
    have "\<lfloor>of_int n + 1 / 2 :: rat\<rfloor> = n" by (simp add: floor_eq_iff)
    with that show ?thesis by (simp add: rne_def Let_def)
  qed
  then have "rne (?q / pow2 (- 46)) = 100 * 2 ^ 46"
    unfolding q by (metis even_mult_iff even_numeral)
  then show ?thesis by (simp add: rndq_def u) (simp add: pow2_def)
qed

lemma plus_headroom:
  assumes "0 \<le> a" "a \<le> 100" "0 \<le> w" "w \<le> rndq (100 - a)"
  shows "rndq (a + w) \<le> 100"
proof -
  have "\<bar>100 - a\<bar> < pow2 (6 + 1)" using assms(1,2) by (simp add: pow2_def)
  then have "\<bar>rndq (100 - a) - (100 - a)\<bar> \<le> pow2 (6 - 53)" by (rule rndq_error) simp
  with assms(4) have "a + w \<le> 100 + pow2 (- 47)" by simp
  then have "rndq (a + w) \<le> rndq (100 + pow2 (- 47))" by (rule rndq_mono)
  then show ?thesis by (simp add: rnd_100_tie)
qed

lemma rnd_Fin: "\<bar>rndq q\<bar> < pow2 1024 \<Longrightarrow> rnd q = Fin (rndq q)"
  by (auto simp: rnd_def Let_def)

lemma rnd_small: "\<bar>q\<bar> \<le> b \<Longrightarrow> is_dbl b \<Longrightarrow> rnd q = Fin (rndq q)"
proof -
  assume q: "\<bar>q\<bar> \<le> b" and b: "is_dbl b"
  have "\<bar>rndq q\<bar> \<le> b" using q b by (rule rndq_small)
  also have "b \<le> \<bar>b\<bar>" by simp
  also have "\<bar>b\<bar> < pow2 1024" using b by (simp add: is_dbl_def)
  finally show ?thesis by (rule rnd_Fin)
qed

lemma is_dbl_pow2_1001: "is_dbl (pow2 1001)"
proof -
  have "pow2 1001 < pow2 1024" by (rule pow2_strict_mono) simp
  then show ?thesis
    unfolding is_dbl_def by (intro conjI exI [of _ 1] exI [of _ 1001]) simp_all
qed

lemma rndq_dbl: "\<bar>q\<bar> \<le> b \<Longrightarrow> is_dbl b \<Longrightarrow> is_dbl (rndq q)"
  using rnd_f64 [of q] rnd_small [of q b] by simp

lemma rnd_small_1001: "\<bar>q\<bar> \<le> pow2 1001 \<Longrightarrow> rnd q = Fin (rndq q)"
  by (rule rnd_small [OF _ is_dbl_pow2_1001])

lemma f64_less_asym: "x < y \<Longrightarrow> \<not> y < x" for x y :: f64
  using f64_less_imp_le f64_less_le_trans [of x y x] by (cases x) auto

lemma numeral_le_pow2_1000:
  assumes "(numeral n :: rat) \<le> 1000000" shows "(numeral n :: rat) \<le> pow2 1000"
proof -
  have "(1000000 :: rat) \<le> pow2 20" by (simp add: pow2_def)
  also have "\<dots> \<le> pow2 1000" by (rule pow2_mono) simp
  finally show ?thesis using assms by (rule order_trans [rotated])
qed

lemma is_dbl_numeral_le:
  assumes "(numeral k :: rat) \<le> numeral b" "(numeral b :: int) \<le> 2 ^ 53"
  shows "is_dbl (numeral k)"
proof -
  have "(numeral k :: int) \<le> numeral b" using assms(1) by (simp only: numeral_le_iff)
  then show ?thesis using assms(2) by (intro is_dbl_numeral) (rule order_trans)
qed

end
