(* ===== verification/Rust_Std.thy ===== *)
theory Rust_Std
  imports F64
begin

section \<open>What the code uses of Rust's standard library\<close>

text \<open>
  Strings, formatting and the workspace's error type (\<open>crates/ohm-core/src/error.rs\<close>,
  \<open>ids.rs\<close>).

  A Rust \<open>String\<close> is its UTF-8 bytes, one HOL \<open>char\<close> each, so \<open>length\<close> is \<open>str::len\<close>.
  A formatted message (\<open>format!\<close>) is kept as the list of its pieces: the literal text and
  the arguments with their precision, before rendering. The code never inspects a message,
  so no decision depends on the rendered digits. Where the code does compare rendered text
  (\<open>Value::to_string\<close> against a list of allowed values) the rendering is modelled in full.
\<close>

subsection \<open>Formatted messages\<close>

datatype piece =
  Txt string
| Num f64                  \<comment> \<open>\<open>{}\<close> of an \<open>f64\<close>\<close>
| Prec nat f64             \<comment> \<open>\<open>{:.n}\<close> of an \<open>f64\<close>\<close>
| Dec int                  \<comment> \<open>\<open>{}\<close> of an integer\<close>
| Hex2 nat                 \<comment> \<open>\<open>{:02X}\<close> of a byte\<close>

type_synonym message = "piece list"

subsection \<open>Errors\<close>

text \<open>
  \<open>OhmError\<close>, with the source's variants in the source's order. The payload of \<open>Io\<close> and \<open>Serde\<close>
  is the foreign error's text.
\<close>

datatype ohm_error =
  DeviceNotFound string
| CapabilityNotFound string string
| CapabilityNotWritable string string
| ValueOutOfRange string string f64 f64 f64
| InvalidValue string string message
| DeviceDisabled string
| AdapterUnavailable string message
| AdapterError string message
| WriteRejected string string message
| SafetyBlocked string string message
| AutomationError message
| ProtocolError message
| ConfigError message
| InvalidId string message
| IoError string message
| SerdeError message
| OtherError message

type_synonym 'a result = "ohm_error + 'a"

fun error_code :: "ohm_error \<Rightarrow> string" where
  "error_code (DeviceNotFound _) = ''device_not_found''"
| "error_code (CapabilityNotFound _ _) = ''capability_not_found''"
| "error_code (CapabilityNotWritable _ _) = ''capability_read_only''"
| "error_code (ValueOutOfRange _ _ _ _ _) = ''value_out_of_range''"
| "error_code (InvalidValue _ _ _) = ''invalid_value''"
| "error_code (DeviceDisabled _) = ''device_disabled''"
| "error_code (AdapterUnavailable _ _) = ''adapter_unavailable''"
| "error_code (AdapterError _ _) = ''adapter_error''"
| "error_code (WriteRejected _ _ _) = ''write_rejected''"
| "error_code (SafetyBlocked _ _ _) = ''safety_blocked''"
| "error_code (AutomationError _) = ''automation_error''"
| "error_code (ProtocolError _) = ''protocol_error''"
| "error_code (ConfigError _) = ''config_error''"
| "error_code (InvalidId _ _) = ''invalid_id''"
| "error_code (IoError _ _) = ''io_error''"
| "error_code (SerdeError _) = ''serde_error''"
| "error_code (OtherError _) = ''error''"

fun is_unsupported :: "ohm_error \<Rightarrow> bool" where
  "is_unsupported (CapabilityNotWritable _ _) = True"
| "is_unsupported (AdapterUnavailable _ _) = True"
| "is_unsupported (WriteRejected _ _ _) = True"
| "is_unsupported _ = False"

fun error_hint :: "ohm_error \<Rightarrow> string" where
  "error_hint (CapabilityNotWritable _ _) =
     ''This capability is read-only on this machine. Fan control requires a '' @
     ''motherboard SuperIO chip exposed through LibreHardwareMonitor.''"
| "error_hint (ValueOutOfRange _ _ _ _ _) =
     ''The value was clamped or rejected by the device range.''"
| "error_hint (DeviceDisabled _) = ''Enable the device in Devices or Settings to use it.''"
| "error_hint (AdapterUnavailable _ _) =
     ''The provider is not present on this system. Install or start the required '' @
     ''component (for example LibreHardwareMonitor) and rescan.''"
| "error_hint (WriteRejected _ _ _) =
     ''The driver or firmware refused the write. Run as Administrator and make sure '' @
     ''no vendor tool is currently owning the fan controller.''"
| "error_hint (SafetyBlocked _ _ _) =
     ''The safety policy blocked this write to protect the hardware.''"
| "error_hint (DeviceNotFound _) = ''Rescan devices; the device may have been unplugged.''"
| "error_hint _ = ''See the log for details.''"

text \<open>\<open>impl Display for OhmError\<close> (derived by \<open>thiserror\<close> from the \<open>#[error]\<close> attributes).\<close>

fun error_display :: "ohm_error \<Rightarrow> message" where
  "error_display (DeviceNotFound d) = [Txt ''device `'', Txt d, Txt ''` was not found'']"
| "error_display (CapabilityNotFound d c) =
     [Txt ''device `'', Txt d, Txt ''` has no capability `'', Txt c, Txt ''`'']"
| "error_display (CapabilityNotWritable d c) =
     [Txt ''capability `'', Txt d, Txt ''/'', Txt c, Txt ''` is read-only'']"
| "error_display (ValueOutOfRange d c v lo hi) =
     [Txt ''value '', Num v, Txt '' is outside the supported range '', Num lo, Txt ''..='', Num hi,
      Txt '' of `'', Txt d, Txt ''/'', Txt c, Txt ''`'']"
| "error_display (InvalidValue d c m) =
     [Txt ''value for `'', Txt d, Txt ''/'', Txt c, Txt ''` is not a number: ''] @ m"
| "error_display (DeviceDisabled d) = [Txt ''device `'', Txt d, Txt ''` is disabled by the user'']"
| "error_display (AdapterUnavailable a m) = [Txt ''adapter `'', Txt a, Txt ''` is unavailable: ''] @ m"
| "error_display (AdapterError a m) = [Txt ''adapter `'', Txt a, Txt ''` failed: ''] @ m"
| "error_display (WriteRejected d c m) =
     [Txt ''hardware refused the write to `'', Txt d, Txt ''/'', Txt c, Txt ''`: ''] @ m"
| "error_display (SafetyBlocked d c m) =
     [Txt ''safety policy blocked the write to `'', Txt d, Txt ''/'', Txt c, Txt ''`: ''] @ m"
| "error_display (AutomationError m) = Txt ''automation error: '' # m"
| "error_display (ProtocolError m) = Txt ''protocol error: '' # m"
| "error_display (ConfigError m) = Txt ''configuration error: '' # m"
| "error_display (InvalidId v m) = [Txt ''invalid identifier `'', Txt v, Txt ''`: ''] @ m"
| "error_display (IoError p m) = [Txt ''i/o error at `'', Txt p, Txt ''`: ''] @ m"
| "error_display (SerdeError m) = Txt ''failed to (de)serialize data: '' # m"
| "error_display (OtherError m) = m"

text \<open>The machine readable code alone decides the \<open>unsupported\<close> badge.\<close>

lemma is_unsupported_code:
  "is_unsupported e \<longleftrightarrow>
     error_code e \<in> {''capability_read_only'', ''adapter_unavailable'', ''write_rejected''}"
  by (cases e) simp_all

lemma error_hint_nonempty: "error_hint e \<noteq> []"
  by (cases e) simp_all

subsection \<open>ASCII text\<close>

definition byte :: "char \<Rightarrow> nat" where
  "byte c = of_char c"

definition is_ascii_lower :: "char \<Rightarrow> bool" where
  "is_ascii_lower c \<longleftrightarrow> 97 \<le> byte c \<and> byte c \<le> 122"

definition is_ascii_upper :: "char \<Rightarrow> bool" where
  "is_ascii_upper c \<longleftrightarrow> 65 \<le> byte c \<and> byte c \<le> 90"

definition is_ascii_digit :: "char \<Rightarrow> bool" where
  "is_ascii_digit c \<longleftrightarrow> 48 \<le> byte c \<and> byte c \<le> 57"

definition is_ascii_alphanumeric :: "char \<Rightarrow> bool" where
  "is_ascii_alphanumeric c \<longleftrightarrow> is_ascii_lower c \<or> is_ascii_upper c \<or> is_ascii_digit c"

definition ascii_lower :: "char \<Rightarrow> char" where
  "ascii_lower c = (if is_ascii_upper c then char_of (byte c + 32) else c)"

text \<open>A continuation byte of a multi-byte character; the other bytes each start a character.\<close>

definition is_continuation :: "char \<Rightarrow> bool" where
  "is_continuation c \<longleftrightarrow> 128 \<le> byte c \<and> byte c < 192"

text \<open>
  \<open>str::trim\<close> removes Unicode white space; \<open>ws_len s\<close> is the byte length of a white space
  character that starts \<open>s\<close> (0 for none), for the code points U+0009-000D, 0020, 0085,
  00A0, 1680, 2000-200A, 2028, 2029, 202F, 205F and 3000.
\<close>

definition ws1 :: "nat \<Rightarrow> bool" where
  "ws1 a \<longleftrightarrow> 9 \<le> a \<and> a \<le> 13 \<or> a = 32"

definition ws2 :: "nat \<Rightarrow> nat \<Rightarrow> bool" where
  "ws2 a b \<longleftrightarrow> a = 194 \<and> (b = 133 \<or> b = 160)"

definition ws3 :: "nat \<Rightarrow> nat \<Rightarrow> nat \<Rightarrow> bool" where
  "ws3 a b c \<longleftrightarrow>
     a = 225 \<and> b = 154 \<and> c = 128
   \<or> a = 226 \<and> b = 128 \<and> (128 \<le> c \<and> c \<le> 138 \<or> c = 168 \<or> c = 169 \<or> c = 175)
   \<or> a = 226 \<and> b = 129 \<and> c = 159
   \<or> a = 227 \<and> b = 128 \<and> c = 128"

fun ws_len :: "string \<Rightarrow> nat" where
  "ws_len [] = 0"
| "ws_len [a] = (if ws1 (byte a) then 1 else 0)"
| "ws_len [a, b] = (if ws1 (byte a) then 1 else if ws2 (byte a) (byte b) then 2 else 0)"
| "ws_len (a # b # c # s) = (if ws1 (byte a) then 1 else if ws2 (byte a) (byte b) then 2
     else if ws3 (byte a) (byte b) (byte c) then 3 else 0)"

lemma ws_len_le: "ws_len s \<le> length s"
  by (cases s rule: ws_len.cases) auto

function trim_start :: "string \<Rightarrow> string" where
  "trim_start s = (if ws_len s = 0 then s else trim_start (drop (ws_len s) s))"
  by pat_completeness auto
termination
proof (relation "measure length")
  fix s :: string
  assume "ws_len s \<noteq> 0"
  then show "(drop (ws_len s) s, s) \<in> measure length"
    using ws_len_le [of s] by simp
qed simp

declare trim_start.simps [simp del]

text \<open>From the end: the longest suffix that is one white space character goes first.\<close>

definition ws_suffix :: "string \<Rightarrow> nat" where
  "ws_suffix s = (let n = length s in
     if 3 \<le> n \<and> ws_len (drop (n - 3) s) = 3 then 3
     else if 2 \<le> n \<and> ws_len (drop (n - 2) s) = 2 then 2
     else if 1 \<le> n \<and> ws_len (drop (n - 1) s) = 1 then 1 else 0)"

lemma ws_suffix_le: "ws_suffix s \<le> length s"
  by (simp add: ws_suffix_def Let_def)

function trim_end :: "string \<Rightarrow> string" where
  "trim_end s = (if ws_suffix s = 0 then s else trim_end (take (length s - ws_suffix s) s))"
  by pat_completeness auto
termination
proof (relation "measure length")
  fix s :: string
  assume "ws_suffix s \<noteq> 0"
  then show "(take (length s - ws_suffix s) s, s) \<in> measure length"
    using ws_suffix_le [of s] by simp
qed simp

declare trim_end.simps [simp del]

definition trim :: "string \<Rightarrow> string" where
  "trim s = trim_end (trim_start s)"


text \<open>\<open>str::contains\<close>.\<close>

definition str_contains :: "string \<Rightarrow> string \<Rightarrow> bool" where
  "str_contains needle s \<longleftrightarrow>
     list_ex (\<lambda>k. take (length needle) (drop k s) = needle) [0..<Suc (length s - length needle)]"

lemma str_contains_iff: "str_contains n s \<longleftrightarrow> (\<exists>us vs. s = us @ n @ vs)"
proof
  assume "str_contains n s"
  then obtain k where "take (length n) (drop k s) = n" unfolding str_contains_def list_ex_iff by blast
  then have "s = take k s @ n @ drop (length n) (drop k s)" by (metis append_take_drop_id)
  then show "\<exists>us vs. s = us @ n @ vs" by blast
next
  assume "\<exists>us vs. s = us @ n @ vs"
  then obtain us vs where "s = us @ n @ vs" by blast
  then show "str_contains n s"
    unfolding str_contains_def list_ex_iff by (intro bexI [of _ "length us"]) auto
qed

subsection \<open>Rendering numbers\<close>

definition digit :: "nat \<Rightarrow> char" where
  "digit d = char_of (48 + d)"

fun dec_nat :: "nat \<Rightarrow> string" where
  "dec_nat n = (if n < 10 then [digit n] else dec_nat (n div 10) @ [digit (n mod 10)])"

declare dec_nat.simps [simp del]

definition dec_int :: "int \<Rightarrow> string" where
  "dec_int n = (if n < 0 then CHR ''-'' # dec_nat (nat (- n)) else dec_nat (nat n))"

text \<open>\<open>{:.4}\<close> of a finite double: correctly rounded, ties to even, sign kept.\<close>

definition fixed4 :: "rat \<Rightarrow> string" where
  "fixed4 q = (let n = nat (rne (\<bar>q\<bar> * 10000)); f = n mod 10000 in
     (if q < 0 then ''-'' else []) @ dec_nat (n div 10000) @ ''.'' @
     [digit (f div 1000), digit (f div 100 mod 10), digit (f div 10 mod 10), digit (f mod 10)])"

definition trim_end_matches :: "char \<Rightarrow> string \<Rightarrow> string" where
  "trim_end_matches c s = rev (dropWhile (\<lambda>x. x = c) (rev s))"

text \<open>\<open>value.rs\<close>: \<open>trim_float\<close>.\<close>

fun trim_float :: "f64 \<Rightarrow> string" where
  "trim_float NaN = ''NaN''"
| "trim_float PInf = ''inf''"
| "trim_float NInf = ''-inf''"
| "trim_float (Fin q) =
    (if \<bar>Fin q - fround (Fin q)\<bar> < f64_epsilon \<and> \<bar>Fin q\<bar> < Fin (10 ^ 15)
     then dec_int (f64_to_i64 (fround (Fin q)))
     else trim_end_matches (CHR ''.'') (trim_end_matches (CHR ''0'') (fixed4 q)))"

lemma dec_nat_nonempty [simp]: "dec_nat n \<noteq> []"
  by (subst dec_nat.simps) simp

lemma byte_digit: "d < 10 \<Longrightarrow> byte (digit d) = 48 + d"
  by (simp add: byte_def digit_def of_char_of)

lemma dec_nat_digits: "c \<in> set (dec_nat n) \<Longrightarrow> is_ascii_digit c"
proof (induction n rule: dec_nat.induct)
  case (1 n)
  have d: "is_ascii_digit (digit k)" if "k < 10" for k
    using that byte_digit [OF that] by (simp add: is_ascii_digit_def)
  show ?case
  proof (cases "n < 10")
    case True
    with 1 d show ?thesis by (simp add: dec_nat.simps [of n])
  next
    case False
    with 1 d [of "n mod 10"] show ?thesis by (auto simp: dec_nat.simps [of n])
  qed
qed

text \<open>Reading the digits back gives the number: rendering is injective.\<close>

fun read_dec :: "nat \<Rightarrow> string \<Rightarrow> nat" where
  "read_dec acc [] = acc"
| "read_dec acc (c # cs) = read_dec (10 * acc + (byte c - 48)) cs"

lemma read_dec_append: "read_dec acc (xs @ ys) = read_dec (read_dec acc xs) ys"
  by (induction xs arbitrary: acc) simp_all

lemma read_dec_nat: "read_dec 0 (dec_nat n) = n"
proof (induction n rule: dec_nat.induct)
  case (1 n)
  show ?case
  proof (cases "n < 10")
    case True
    then show ?thesis by (simp add: dec_nat.simps [of n] byte_digit)
  next
    case False
    with 1 have "read_dec 0 (dec_nat (n div 10)) = n div 10" by simp
    with False show ?thesis
      by (simp add: dec_nat.simps [of n] read_dec_append byte_digit mult.commute)
  qed
qed

lemma dec_nat_inj: "dec_nat m = dec_nat n \<longleftrightarrow> m = n"
  by (metis read_dec_nat)

end
