(* ===== verification/Ids.thy ===== *)
theory Ids
  imports Rust_Std
begin

section \<open>Identifiers\<close>

text \<open>
  \<open>crates/ohm-core/src/ids.rs\<close>: device, capability, adapter and rule ids are one shape of
  validated string; \<open>string_id!\<close> generates the four types from one body, so one group of
  definitions models them, with the kind's name as an argument.
\<close>

definition max_id_len :: nat where "max_id_len = 96"

definition id_char :: "char \<Rightarrow> bool" where
  "id_char c \<longleftrightarrow> is_ascii_lower c \<or> is_ascii_digit c
     \<or> c \<in> {CHR ''.'', CHR ''_'', CHR ''-'', CHR '':''}"

definition validate_id :: "string \<Rightarrow> string \<Rightarrow> unit result" where
  "validate_id value kind =
    (if value = [] then Inl (InvalidId value [Txt kind, Txt '' must not be empty''])
     else if max_id_len < length value then
       Inl (InvalidId value
         [Txt kind, Txt '' must be at most '', Dec (int max_id_len), Txt '' characters''])
     else if \<not> list_all id_char value then
       Inl (InvalidId value
         [Txt kind, Txt '' may only contain lowercase ascii letters, digits and `.`, `_`, `-`, `:`''])
     else Inr ())"

definition new_id :: "string \<Rightarrow> string \<Rightarrow> string result" where
  "new_id kind value = and_then (validate_id value kind) (\<lambda>_. Inr value)"

text \<open>
  \<open>DeviceId::compose\<close> maps each character of the qualifier; a multi-byte character becomes
  one underscore, so its continuation bytes are dropped first.
\<close>

definition normalise_char :: "char \<Rightarrow> char" where
  "normalise_char c = (if is_ascii_alphanumeric c then ascii_lower c else CHR ''_'')"

definition normalise :: "string \<Rightarrow> string" where
  "normalise s = map normalise_char (filter (\<lambda>c. \<not> is_continuation c) s)"

definition compose_id :: "string \<Rightarrow> string \<Rightarrow> nat \<Rightarrow> string" where
  "compose_id namespace qualifier index =
     namespace @ ''.'' @ normalise qualifier @ ''.'' @ dec_nat index"

definition namespaced :: "string \<Rightarrow> string \<Rightarrow> string" where
  "namespaced namespace name = namespace @ ''.'' @ name"

text \<open>The well known capability ids the model refers to.\<close>

definition TEMPERATURE_CORE :: string where "TEMPERATURE_CORE = ''temperature.core''"
definition FAN_RPM :: string where "FAN_RPM = ''fan.rpm''"
definition FAN_SPEED_PERCENT :: string where "FAN_SPEED_PERCENT = ''fan.speed_percent''"
definition STATUS_MESSAGE :: string where "STATUS_MESSAGE = ''status.message''"

lemmas cap_ids [const_simps] =
  TEMPERATURE_CORE_def FAN_RPM_def FAN_SPEED_PERCENT_def STATUS_MESSAGE_def

subsection \<open>Properties\<close>

lemma validate_id_ok:
  "validate_id v k = Inr () \<longleftrightarrow> v \<noteq> [] \<and> length v \<le> max_id_len \<and> list_all id_char v"
  by (auto simp: validate_id_def)

lemma new_id_ok: "new_id k v = Inr w \<longleftrightarrow> w = v \<and> validate_id v k = Inr ()"
  by (auto simp: new_id_def result_simps)

lemma id_char_digit: "is_ascii_digit c \<Longrightarrow> id_char c"
  by (simp add: id_char_def)

lemma byte_char_of: "n < 256 \<Longrightarrow> byte (char_of n) = n"
  by (simp add: byte_def of_char_of)

lemma id_char_lowered: "is_ascii_alphanumeric c \<Longrightarrow> id_char (ascii_lower c)"
  by (auto simp: is_ascii_alphanumeric_def id_char_def ascii_lower_def is_ascii_upper_def
      is_ascii_lower_def byte_char_of)

lemma id_char_normalise: "id_char (normalise_char c)"
  by (simp add: normalise_char_def id_char_lowered) (simp add: id_char_def)

lemma normalise_ids: "list_all id_char (normalise s)"
  by (simp add: normalise_def list_all_iff id_char_normalise)

lemma dec_nat_ids: "list_all id_char (dec_nat n)"
  by (auto simp: list_all_iff intro: id_char_digit dec_nat_digits)

lemma compose_id_chars:
  "list_all id_char namespace \<Longrightarrow> list_all id_char (compose_id namespace q i)"
  by (simp add: compose_id_def normalise_ids dec_nat_ids) (simp add: id_char_def)

lemma normalise_char_idem: "normalise_char (normalise_char c) = normalise_char c"
proof (cases "is_ascii_alphanumeric c")
  case True
  then have "\<not> is_ascii_upper (ascii_lower c)" and "is_ascii_alphanumeric (ascii_lower c)"
    by (auto simp: is_ascii_alphanumeric_def ascii_lower_def is_ascii_upper_def
        is_ascii_lower_def is_ascii_digit_def byte_char_of)
  with True show ?thesis by (simp add: normalise_char_def ascii_lower_def)
next
  case False
  moreover have "\<not> is_ascii_alphanumeric (CHR ''_'')"
    by (simp add: is_ascii_alphanumeric_def is_ascii_upper_def is_ascii_lower_def
        is_ascii_digit_def byte_def)
  ultimately show ?thesis by (simp add: normalise_char_def)
qed

text \<open>An id has no white space at its ends.\<close>

lemma id_char_byte: "id_char c \<Longrightarrow> 45 \<le> byte c \<and> byte c \<le> 122 \<and> byte c \<noteq> 47"
  by (auto simp: id_char_def is_ascii_lower_def is_ascii_digit_def byte_def)

lemma ws_first: "ws_len (a # s) \<noteq> 0 \<Longrightarrow> byte a \<le> 32 \<or> 128 \<le> byte a"
  by (cases "a # s" rule: ws_len.cases) (auto simp: ws1_def ws2_def ws3_def split: if_splits)

lemma id_no_space: "list_all id_char s \<Longrightarrow> ws_len s = 0"
  by (cases s) (use ws_first id_char_byte in fastforce)+

lemma trim_id: assumes "list_all id_char s" shows "trim s = s"
proof -
  have d: "list_all id_char (drop k s)" for k
    using assms by (auto simp: list_all_iff dest: in_set_dropD)
  then have "ws_suffix s = 0" by (simp add: ws_suffix_def Let_def id_no_space)
  then show ?thesis
    by (simp add: trim_def trim_start.simps [of s] trim_end.simps [of s] id_no_space assms)
qed

end
