(* ===== verification/Interfaces.thy ===== *)
theory Interfaces
  imports F64
begin

section \<open>Interfaces between the components\<close>

text \<open>
  The contracts one component relies on and another provides, each a locale: the
  operations a client calls are its parameters, what the provider promises its
  assumptions. What follows for every client is proved once, here; each provider
  interprets the locale on its own definitions, in its own theory.
\<close>

subsection \<open>A keyed collection\<close>

text \<open>
  Readings of a device state, channels of a handover book, records of a table: a client
  puts a value under the value's own key and looks it up by key.
\<close>

locale keyed_collection =
  fixes get :: "'s \<Rightarrow> 'k \<Rightarrow> 'v option"
    and put :: "'v \<Rightarrow> 's \<Rightarrow> 's"
    and key :: "'v \<Rightarrow> 'k"
  assumes get_put_same: "get (put v s) (key v) = Some v"
    and get_put_other: "k \<noteq> key v \<Longrightarrow> get (put v s) k = get s k"
begin

lemma get_put: "get (put v s) k = (if k = key v then Some v else get s k)"
  by (simp add: get_put_same get_put_other)

lemma get_put_twice: "key v = key w \<Longrightarrow> get (put w (put v s)) k = get (put w s) k"
  by (simp add: get_put)

lemma get_put_commute: "key v \<noteq> key w \<Longrightarrow> get (put w (put v s)) k = get (put v (put w s)) k"
  by (simp add: get_put)

text \<open>A batch of puts, in order: the last value under a key wins.\<close>

lemma get_fold_put:
  "get (fold put vs s) k = (case List.find (\<lambda>v. key v = k) (rev vs) of
     Some v \<Rightarrow> Some v | None \<Rightarrow> get s k)"
proof (induction vs rule: rev_induct)
  case (snoc v vs)
  then show ?case by (simp add: get_put)
qed simp

lemma get_fold_put_absent: "k \<notin> key ` set vs \<Longrightarrow> get (fold put vs s) k = get s k"
  by (induction vs arbitrary: s) (simp_all add: get_put)

end

subsection \<open>A range limiter\<close>

text \<open>
  A write is forced into the range of its channel at several places (the capability's own
  range, a rule's output limits, the simulated controller's duty). Each limiter has a
  configuration; \<open>ok\<close> says when it is usable, \<open>lo\<close> and \<open>hi\<close> what it promises.
\<close>

locale range_limiter =
  fixes ok :: "'c \<Rightarrow> bool"
    and lo hi :: "'c \<Rightarrow> f64"
    and limit :: "'c \<Rightarrow> f64 \<Rightarrow> f64"
  assumes bounds: "ok c \<Longrightarrow> lo c \<le> hi c"
    and limit_ge: "ok c \<Longrightarrow> \<not> is_nan x \<Longrightarrow> lo c \<le> limit c x"
    and limit_le: "ok c \<Longrightarrow> \<not> is_nan x \<Longrightarrow> limit c x \<le> hi c"
    and limit_id: "ok c \<Longrightarrow> lo c \<le> x \<Longrightarrow> x \<le> hi c \<Longrightarrow> limit c x = x"
    and limit_mono: "ok c \<Longrightarrow> x \<le> y \<Longrightarrow> limit c x \<le> limit c y"
begin

lemma limit_range: "ok c \<Longrightarrow> \<not> is_nan x \<Longrightarrow> lo c \<le> limit c x \<and> limit c x \<le> hi c"
  by (simp add: limit_ge limit_le)

lemma limit_idem: "ok c \<Longrightarrow> \<not> is_nan x \<Longrightarrow> limit c (limit c x) = limit c x"
  by (simp add: limit_id limit_ge limit_le)

lemma limit_below:
  assumes "ok c" and "x \<le> lo c"
  shows "limit c x = lo c"
proof (rule f64_antisym)
  have lo: "limit c (lo c) = lo c"
    using bounds [OF assms(1)] f64_le_not_nan by (auto intro!: limit_id [OF assms(1)])
  then show "limit c x \<le> lo c" using limit_mono [OF assms] by simp
  show "lo c \<le> limit c x" using limit_ge [OF assms(1)] f64_le_not_nan [OF assms(2)] by simp
qed

lemma limit_above:
  assumes "ok c" and "hi c \<le> x"
  shows "limit c x = hi c"
proof (rule f64_antisym)
  have hi: "limit c (hi c) = hi c"
    using bounds [OF assms(1)] f64_le_not_nan by (auto intro!: limit_id [OF assms(1)])
  then show "hi c \<le> limit c x" using limit_mono [OF assms] by simp
  show "limit c x \<le> hi c" using limit_le [OF assms(1)] f64_le_not_nan [OF assms(2)] by simp
qed

lemma limit_finite:
  "ok c \<Longrightarrow> \<not> is_nan x \<Longrightarrow> is_finite (lo c) \<Longrightarrow> is_finite (hi c) \<Longrightarrow> is_finite (limit c x)"
  using limit_range [of c x] by (cases "lo c"; cases "hi c") (auto intro: finite_between)

end

text \<open>\<open>f64::clamp\<close> itself, on every pair of bounds it does not panic on.\<close>

interpretation std_clamp: range_limiter
  "\<lambda>(a, b). a \<le> b" fst snd "\<lambda>(a, b) x. fclamp x a b"
  by unfold_locales (auto simp: fclamp_ge fclamp_le fclamp_id fclamp_mono)

subsection \<open>A framed byte link\<close>

text \<open>
  A transport hands bytes over in whatever pieces they arrive; the receiver wants the
  messages that were framed. \<open>push\<close> is the receiver, \<open>idle\<close> its states with no partial
  message, \<open>frame\<close> the sender's encoding of an acceptable message.
\<close>

fun feed :: "('s \<Rightarrow> 'b list \<Rightarrow> 's \<times> 'p list) \<Rightarrow> 's \<Rightarrow> 'b list list \<Rightarrow> 's \<times> 'p list" where
  "feed push s [] = (s, [])"
| "feed push s (c # cs) = (let (s, ps) = push s c; (s, qs) = feed push s cs in (s, ps @ qs))"

locale frame_link =
  fixes push :: "'s \<Rightarrow> 'b list \<Rightarrow> 's \<times> 'p list"
    and idle :: "'s \<Rightarrow> bool"
    and frame :: "'p \<Rightarrow> 'b list"
    and ok :: "'p \<Rightarrow> bool"
  assumes push_append: "push s (xs @ ys) =
      (let (s1, ps) = push s xs; (s2, qs) = push s1 ys in (s2, ps @ qs))"
    and push_nil: "idle s \<Longrightarrow> push s [] = (s, [])"
    and push_frame: "idle s \<Longrightarrow> ok p \<Longrightarrow> push s (frame p) = (s, [p])"
begin

lemma push_frames: "idle s \<Longrightarrow> list_all ok ps \<Longrightarrow> push s (concat (map frame ps)) = (s, ps)"
  by (induction ps) (simp_all add: push_nil push_append push_frame)

text \<open>Only the bytes matter, not how they were cut into chunks.\<close>

lemma feed_concat: "cs \<noteq> [] \<Longrightarrow> feed push s cs = push s (concat cs)"
proof (induction cs arbitrary: s)
  case (Cons c cs)
  then show ?case
    by (cases "cs = []") (simp_all add: push_append split_def Let_def)
qed simp

lemma feed_frames:
  assumes "idle s" "list_all ok ps" "concat cs = concat (map frame ps)"
  shows "feed push s cs = (s, ps)"
proof (cases "cs = []")
  case True
  with assms have "push s (concat (map frame ps)) = (s, [])" by (simp flip: assms(3) add: push_nil)
  with push_frames [OF assms(1,2)] True show ?thesis by simp
next
  case False
  with feed_concat [OF False] push_frames [OF assms(1,2)] assms(3) show ?thesis by simp
qed

end

subsection \<open>A register of what is owed\<close>

text \<open>
  What a rule stops driving is queued, one thing at a time or in a sweep over everything that was
  held. Queueing one thing forgets no other, so no sweep does.
\<close>

locale owed_register =
  fixes owes :: "'b \<Rightarrow> 'k set"
    and key :: "'h \<Rightarrow> 'k"
    and enqueue :: "'i \<Rightarrow> 'h \<Rightarrow> 'b \<Rightarrow> 'b"
  assumes owes_enqueue: "insert (key h) (owes b) \<subseteq> owes (enqueue i h b)"
begin

lemma sweep_keeps: "owes b \<subseteq> owes (fold (\<lambda>(i, h) b. if P i then b else enqueue i h b) hs b)"
proof (induction hs arbitrary: b)
  case (Cons x hs)
  obtain i h where x: "x = (i, h)" by fastforce
  have "owes b \<subseteq> owes (if P i then b else enqueue i h b)" using owes_enqueue [of h b i] by auto
  with Cons.IH [of "if P i then b else enqueue i h b"] show ?case by (auto simp: x)
qed simp

lemma sweep_queues:
  assumes "(i, h) \<in> set hs" and "\<not> P i"
  shows "key h \<in> owes (fold (\<lambda>(i, h) b. if P i then b else enqueue i h b) hs b)"
  using assms(1)
proof (induction hs arbitrary: b)
  case (Cons x hs)
  show ?case
  proof (cases "x = (i, h)")
    case True
    with assms(2) owes_enqueue [of h b i] sweep_keeps [of "enqueue i h b" P hs] show ?thesis by auto
  qed (use Cons in auto)
qed simp

end

end
