(* ===== verification/Device_Model.thy ===== *)
theory Device_Model
  imports Ids Interfaces
begin

section \<open>The device model\<close>

text \<open>
  \<open>crates/ohm-device-model\<close>: units, values, capabilities with their ranges, readings and
  device states, device descriptions. Everything an adapter declares and everything the
  runtime writes goes through these types. JSON (serde) is not modelled.
\<close>

subsection \<open>Units\<close>

datatype unit_kind =
  Celsius | Fahrenheit | Rpm | Percent | Pwm | Watt | Milliwatt | Volt | Ampere | Hertz
| Megahertz | Byte | Second | Millisecond | Count | Boolean | TextUnit | NoUnit

definition degree :: string where
  "degree = [CHR 0xC2, CHR 0xB0]"

fun unit_suffix :: "unit_kind \<Rightarrow> string" where
  "unit_suffix Celsius = '' '' @ degree @ ''C''"
| "unit_suffix Fahrenheit = '' '' @ degree @ ''F''"
| "unit_suffix Rpm = '' rpm''"
| "unit_suffix Percent = '' %''"
| "unit_suffix Pwm = '' pwm''"
| "unit_suffix Watt = '' W''"
| "unit_suffix Milliwatt = '' mW''"
| "unit_suffix Volt = '' V''"
| "unit_suffix Ampere = '' A''"
| "unit_suffix Hertz = '' Hz''"
| "unit_suffix Megahertz = '' MHz''"
| "unit_suffix Byte = '' B''"
| "unit_suffix Second = '' s''"
| "unit_suffix Millisecond = '' ms''"
| "unit_suffix Count = []"
| "unit_suffix NoUnit = []"
| "unit_suffix Boolean = []"
| "unit_suffix TextUnit = []"

fun unit_str :: "unit_kind \<Rightarrow> string" where
  "unit_str Celsius = ''celsius''"
| "unit_str Fahrenheit = ''fahrenheit''"
| "unit_str Rpm = ''rpm''"
| "unit_str Percent = ''percent''"
| "unit_str Pwm = ''pwm''"
| "unit_str Watt = ''watt''"
| "unit_str Milliwatt = ''milliwatt''"
| "unit_str Volt = ''volt''"
| "unit_str Ampere = ''ampere''"
| "unit_str Hertz = ''hertz''"
| "unit_str Megahertz = ''megahertz''"
| "unit_str Byte = ''byte''"
| "unit_str Second = ''second''"
| "unit_str Millisecond = ''millisecond''"
| "unit_str Count = ''count''"
| "unit_str Boolean = ''boolean''"
| "unit_str TextUnit = ''text''"
| "unit_str NoUnit = ''none''"

definition is_temperature :: "unit_kind \<Rightarrow> bool" where
  "is_temperature u \<longleftrightarrow> u = Celsius \<or> u = Fahrenheit"

definition is_rotational_speed :: "unit_kind \<Rightarrow> bool" where
  "is_rotational_speed u \<longleftrightarrow> u = Rpm \<or> u = Hertz"

definition is_duty_unit :: "unit_kind \<Rightarrow> bool" where
  "is_duty_unit u \<longleftrightarrow> u = Percent \<or> u = Pwm"

fun to_celsius :: "unit_kind \<Rightarrow> f64 \<Rightarrow> f64 option" where
  "to_celsius Celsius v = Some v"
| "to_celsius Fahrenheit v = Some ((v - Fin 32) * Fin 5 div Fin 9)"
| "to_celsius _ v = None"

text \<open>\<open>s.trim().to_ascii_lowercase()\<close>, then a table.\<close>

definition unit_names :: "(string list \<times> unit_kind) list" where
  "unit_names =
    [([''c'', ''celsius'', degree @ ''c'', ''degc''], Celsius),
     ([''f'', ''fahrenheit'', degree @ ''f'', ''degf''], Fahrenheit),
     ([''rpm''], Rpm),
     ([''percent'', ''%'', ''pct''], Percent),
     ([''pwm'', ''duty''], Pwm),
     ([''w'', ''watt'', ''watts''], Watt),
     ([''mw'', ''milliwatt''], Milliwatt),
     ([''v'', ''volt'', ''volts''], Volt),
     ([''a'', ''ampere'', ''amp'', ''amps''], Ampere),
     ([''hz'', ''hertz''], Hertz),
     ([''mhz'', ''megahertz''], Megahertz),
     ([''b'', ''byte'', ''bytes''], Byte),
     ([''s'', ''second'', ''seconds''], Second),
     ([''ms'', ''millisecond''], Millisecond),
     ([''count''], Count),
     ([''bool'', ''boolean''], Boolean),
     ([''text'', ''string''], TextUnit),
     ([''none'', []], NoUnit)]"

text \<open>A string \<open>match\<close> whose arms list alternatives: the first arm that names the string.\<close>

fun match_name :: "(string list \<times> 'a) list \<Rightarrow> string \<Rightarrow> 'a option" where
  "match_name [] s = None"
| "match_name ((names, x) # arms) s = (if s \<in> set names then Some x else match_name arms s)"

definition unit_from_str :: "string \<Rightarrow> unit_kind result" where
  "unit_from_str s = (let other = map ascii_lower (trim s) in
     ok_or (ConfigError [Txt ''unknown unit `'', Txt other, Txt ''`'']) (match_name unit_names other))"

subsection \<open>Values\<close>

datatype val =
  Integer int
| Number f64
| Bool bool
| Text string

fun as_f64 :: "val \<Rightarrow> f64 option" where
  "as_f64 (Integer v) = Some (f64_of_int v)"
| "as_f64 (Number v) = Some v"
| "as_f64 (Bool v) = Some (if v then Fin 1 else Fin 0)"
| "as_f64 (Text _) = None"

fun is_numeric :: "val \<Rightarrow> bool" where
  "is_numeric (Text _) = False"
| "is_numeric _ = True"

fun as_bool :: "val \<Rightarrow> bool option" where
  "as_bool (Bool v) = Some v"
| "as_bool (Integer v) = Some (v \<noteq> 0)"
| "as_bool (Number v) = Some (\<not> feq v (Fin 0))"
| "as_bool (Text _) = None"

fun as_str :: "val \<Rightarrow> string option" where
  "as_str (Text v) = Some v"
| "as_str _ = None"

definition bool_str :: "bool \<Rightarrow> string" where
  "bool_str b = (if b then ''true'' else ''false'')"

text \<open>\<open>impl Display for Value\<close> and \<open>Value::display\<close>.\<close>

fun val_to_string :: "val \<Rightarrow> string" where
  "val_to_string (Integer v) = dec_int v"
| "val_to_string (Number v) = trim_float v"
| "val_to_string (Bool v) = bool_str v"
| "val_to_string (Text v) = v"

fun val_display :: "val \<Rightarrow> unit_kind \<Rightarrow> string" where
  "val_display (Integer v) u = dec_int v @ unit_suffix u"
| "val_display (Number v) u = trim_float v @ unit_suffix u"
| "val_display (Bool v) u = bool_str v"
| "val_display (Text v) u = v"

text \<open>\<open>From<u64>\<close>: a count too large for \<open>i64\<close> becomes a float.\<close>

definition val_of_u64 :: "nat \<Rightarrow> val" where
  "val_of_u64 n = (if int n \<le> i64_max then Integer (int n) else Number (f64_of_int (int n)))"

lemma as_f64_numeric: "is_numeric v \<longleftrightarrow> as_f64 v \<noteq> None"
  by (cases v) auto

lemma as_f64_not_nan: "as_f64 v = Some x \<Longrightarrow> is_nan x \<Longrightarrow> v = Number NaN"
  by (cases v) (auto simp: f64_of_int_def split: if_splits elim: is_nan.elims)

subsection \<open>Capabilities\<close>

datatype cap_kind = Sensor | Actuator | Event | Info

fun cap_kind_str :: "cap_kind \<Rightarrow> string" where
  "cap_kind_str Sensor = ''sensor''"
| "cap_kind_str Actuator = ''actuator''"
| "cap_kind_str Event = ''event''"
| "cap_kind_str Info = ''info''"

definition cap_kind_names :: "(string list \<times> cap_kind) list" where
  "cap_kind_names =
    [([''sensor'', ''measurement''], Sensor),
     ([''actuator'', ''control''], Actuator),
     ([''event''], Event),
     ([''info''], Info)]"

definition cap_kind_from_str :: "string \<Rightarrow> cap_kind result" where
  "cap_kind_from_str s = (let other = map ascii_lower (trim s) in
     ok_or (ConfigError [Txt ''unknown capability kind `'', Txt other,
         Txt ''` (expected sensor, actuator, event or info)''])
       (match_name cap_kind_names other))"

record capability =
  cap_id :: string
  cap_name :: string
  cap_kind :: cap_kind
  cap_unit :: unit_kind
  cap_readable :: bool
  cap_writable :: bool
  cap_min :: "f64 option"
  cap_max :: "f64 option"
  cap_step :: "f64 option"
  cap_values :: "string list"
  cap_description :: "string option"
  cap_poll_interval_ms :: "nat option"
  cap_safety_critical :: bool

definition cap_sensor :: "string \<Rightarrow> string \<Rightarrow> unit_kind \<Rightarrow> capability" where
  "cap_sensor i name u =
     \<lparr>cap_id = i, cap_name = name, cap_kind = Sensor, cap_unit = u, cap_readable = True,
      cap_writable = False, cap_min = None, cap_max = None, cap_step = None, cap_values = [],
      cap_description = None, cap_poll_interval_ms = None, cap_safety_critical = False\<rparr>"

definition cap_actuator :: "string \<Rightarrow> string \<Rightarrow> unit_kind \<Rightarrow> f64 \<Rightarrow> f64 \<Rightarrow> capability" where
  "cap_actuator i name u lo hi =
     \<lparr>cap_id = i, cap_name = name, cap_kind = Actuator, cap_unit = u, cap_readable = True,
      cap_writable = True, cap_min = Some lo, cap_max = Some hi, cap_step = None, cap_values = [],
      cap_description = None, cap_poll_interval_ms = None, cap_safety_critical = False\<rparr>"

definition cap_info :: "string \<Rightarrow> string \<Rightarrow> capability" where
  "cap_info i name =
     \<lparr>cap_id = i, cap_name = name, cap_kind = Info, cap_unit = TextUnit, cap_readable = True,
      cap_writable = False, cap_min = None, cap_max = None, cap_step = None, cap_values = [],
      cap_description = None, cap_poll_interval_ms = None, cap_safety_critical = False\<rparr>"

definition is_duty_control :: "capability \<Rightarrow> bool" where
  "is_duty_control c \<longleftrightarrow> cap_kind c = Actuator \<and> is_duty_unit (cap_unit c)"

text \<open>\<open>slice.join(", ")\<close>.\<close>

fun join :: "string \<Rightarrow> string list \<Rightarrow> string" where
  "join sep [] = []"
| "join sep [x] = x"
| "join sep (x # y # xs) = x @ sep @ join sep (y # xs)"

definition device_hole :: string where "device_hole = ''<device>''"

definition validate_capability :: "capability \<Rightarrow> val \<Rightarrow> unit result" where
  "validate_capability c value =
    (if \<not> cap_writable c then Inl (CapabilityNotWritable device_hole (cap_id c))
     else if cap_values c \<noteq> [] then
       (let text = (case as_str value of Some t \<Rightarrow> t | None \<Rightarrow> val_to_string value) in
        if text \<notin> set (cap_values c) then
          Inl (InvalidValue device_hole (cap_id c)
            [Txt ''`'', Txt text, Txt ''` is not one of '', Txt (join '', '' (cap_values c))])
        else Inr ())
     else case as_f64 value of
       None \<Rightarrow> Inl (InvalidValue device_hole (cap_id c)
         [Txt ''expected a numeric value, got `'', Txt (val_to_string value), Txt ''`''])
     | Some numeric \<Rightarrow>
         if \<not> is_finite numeric then
           Inl (InvalidValue device_hole (cap_id c)
             [Txt ''value `'', Num numeric, Txt ''` is not finite''])
         else
           (let lo = (case cap_min c of Some m \<Rightarrow> m | None \<Rightarrow> NInf);
                hi = (case cap_max c of Some m \<Rightarrow> m | None \<Rightarrow> PInf) in
            if numeric < lo \<or> hi < numeric
            then Inl (ValueOutOfRange device_hole (cap_id c) numeric lo hi)
            else Inr ()))"

definition opt_fmax :: "f64 \<Rightarrow> f64 option \<Rightarrow> f64" where
  "opt_fmax v b = (case b of Some m \<Rightarrow> fmax v m | None \<Rightarrow> v)"

definition opt_fmin :: "f64 \<Rightarrow> f64 option \<Rightarrow> f64" where
  "opt_fmin v b = (case b of Some m \<Rightarrow> fmin v m | None \<Rightarrow> v)"

definition clamp_capability :: "capability \<Rightarrow> f64 \<Rightarrow> f64" where
  "clamp_capability c value =
    (let v = opt_fmin (opt_fmax value (cap_min c)) (cap_max c) in
     case cap_step c of
       Some step \<Rightarrow>
         if Fin 0 < step
         then opt_fmin (opt_fmax (fround (v div step) * step) (cap_min c)) (cap_max c)
         else v
     | None \<Rightarrow> v)"

definition range_label :: "capability \<Rightarrow> string option" where
  "range_label c = (case (cap_min c, cap_max c) of
     (Some lo, Some hi) \<Rightarrow> Some (trim_float lo @ ''-'' @ trim_float hi @ unit_suffix (cap_unit c))
   | _ \<Rightarrow> None)"


subsection \<open>Readings\<close>

datatype unavailable_reason =
  Unsupported | NotPresent | PermissionDenied | HardwareLimitation | VendorLimitation
| DriverMissing | Timeout | Disabled | ReadError | Unknown

fun reason_code :: "unavailable_reason \<Rightarrow> string" where
  "reason_code Unsupported = ''unsupported''"
| "reason_code NotPresent = ''not_present''"
| "reason_code PermissionDenied = ''permission_denied''"
| "reason_code HardwareLimitation = ''hardware_limitation''"
| "reason_code VendorLimitation = ''vendor_limitation''"
| "reason_code DriverMissing = ''driver_missing''"
| "reason_code Timeout = ''timeout''"
| "reason_code Disabled = ''disabled''"
| "reason_code ReadError = ''read_error''"
| "reason_code Unknown = ''unknown''"

definition is_failure :: "unavailable_reason \<Rightarrow> bool" where
  "is_failure r \<longleftrightarrow> r = ReadError \<or> r = Timeout \<or> r = Unknown"

definition reason_names :: "(string list \<times> unavailable_reason) list" where
  "reason_names =
    [([''unsupported''], Unsupported), ([''not_present''], NotPresent),
     ([''permission_denied''], PermissionDenied), ([''hardware_limitation''], HardwareLimitation),
     ([''vendor_limitation''], VendorLimitation), ([''driver_missing''], DriverMissing),
     ([''timeout''], Timeout), ([''disabled''], Disabled), ([''read_error''], ReadError),
     ([''unknown''], Unknown)]"

definition reason_from_str :: "string \<Rightarrow> unavailable_reason result" where
  "reason_from_str s = (let other = map ascii_lower (trim s) in
     ok_or (ConfigError [Txt ''unknown unavailable reason `'', Txt other, Txt ''`''])
       (match_name reason_names other))"

datatype reading_status =
  ReadingOk val
| Unavailable unavailable_reason "string option"

record reading =
  rd_capability :: string
  rd_status :: reading_status

definition reading_ok :: "string \<Rightarrow> val \<Rightarrow> reading" where
  "reading_ok c v = \<lparr>rd_capability = c, rd_status = ReadingOk v\<rparr>"

definition reading_unavailable :: "string \<Rightarrow> unavailable_reason \<Rightarrow> string option \<Rightarrow> reading" where
  "reading_unavailable c r d = \<lparr>rd_capability = c, rd_status = Unavailable r d\<rparr>"

definition reading_is_ok :: "reading \<Rightarrow> bool" where
  "reading_is_ok r = (case rd_status r of ReadingOk _ \<Rightarrow> True | Unavailable _ _ \<Rightarrow> False)"

definition reading_value :: "reading \<Rightarrow> val option" where
  "reading_value r = (case rd_status r of ReadingOk v \<Rightarrow> Some v | Unavailable _ _ \<Rightarrow> None)"

definition reading_number :: "reading \<Rightarrow> f64 option" where
  "reading_number r = Option.bind (reading_value r) as_f64"

definition reading_reason :: "reading \<Rightarrow> unavailable_reason option" where
  "reading_reason r = (case rd_status r of ReadingOk _ \<Rightarrow> None | Unavailable why _ \<Rightarrow> Some why)"

subsection \<open>Device states\<close>

record device_state =
  ds_device :: string
  ds_timestamp_ms :: int
  ds_readings :: "reading list"
  ds_online :: bool
  ds_message :: "string option"

definition new_state :: "string \<Rightarrow> int \<Rightarrow> device_state" where
  "new_state d t = \<lparr>ds_device = d, ds_timestamp_ms = t, ds_readings = [], ds_online = True,
     ds_message = None\<rparr>"

definition with_reading :: "reading \<Rightarrow> device_state \<Rightarrow> device_state" where
  "with_reading r s = s\<lparr>ds_readings := ds_readings s @ [r]\<rparr>"

definition with_readings :: "reading list \<Rightarrow> device_state \<Rightarrow> device_state" where
  "with_readings rs s = s\<lparr>ds_readings := ds_readings s @ rs\<rparr>"

definition offline :: "unavailable_reason \<Rightarrow> string \<Rightarrow> device_state \<Rightarrow> device_state" where
  "offline r d s = s\<lparr>ds_online := False,
     ds_readings := map (\<lambda>x. x\<lparr>rd_status := Unavailable r (Some d)\<rparr>) (ds_readings s)\<rparr>"

definition set_reading :: "reading \<Rightarrow> device_state \<Rightarrow> device_state" where
  "set_reading r s = s\<lparr>ds_readings := upsert rd_capability r (ds_readings s)\<rparr>"

definition get_reading :: "device_state \<Rightarrow> string \<Rightarrow> reading option" where
  "get_reading s c = List.find (\<lambda>r. rd_capability r = c) (ds_readings s)"

definition state_number :: "device_state \<Rightarrow> string \<Rightarrow> f64 option" where
  "state_number s c = Option.bind (get_reading s c) reading_number"

definition state_value :: "device_state \<Rightarrow> string \<Rightarrow> val option" where
  "state_value s c = Option.bind (get_reading s c) reading_value"

definition state_unavailable :: "device_state \<Rightarrow> reading list" where
  "state_unavailable s = filter (\<lambda>r. \<not> reading_is_ok r) (ds_readings s)"

definition has_failure :: "device_state \<Rightarrow> bool" where
  "has_failure s \<longleftrightarrow> list_ex is_failure (List.map_filter reading_reason (ds_readings s))"

text \<open>A device state is a keyed collection of readings.\<close>

interpretation readings: keyed_collection get_reading set_reading rd_capability
  by unfold_locales
    (simp_all add: get_reading_def set_reading_def find_upsert_same find_upsert_other)

subsection \<open>Devices\<close>

datatype device_type =
  Cpu | Gpu | Motherboard | Memory | Storage | Fan | Pump | TemperatureSensor | PowerSupply
| Keyboard | Mouse | Rgb | Display | Hub | UnknownType

fun device_type_str :: "device_type \<Rightarrow> string" where
  "device_type_str Cpu = ''cpu''"
| "device_type_str Gpu = ''gpu''"
| "device_type_str Motherboard = ''motherboard''"
| "device_type_str Memory = ''memory''"
| "device_type_str Storage = ''storage''"
| "device_type_str Fan = ''fan''"
| "device_type_str Pump = ''pump''"
| "device_type_str TemperatureSensor = ''temperature_sensor''"
| "device_type_str PowerSupply = ''power_supply''"
| "device_type_str Keyboard = ''keyboard''"
| "device_type_str Mouse = ''mouse''"
| "device_type_str Rgb = ''rgb''"
| "device_type_str Display = ''display''"
| "device_type_str Hub = ''hub''"
| "device_type_str UnknownType = ''unknown''"

definition is_thermal_source :: "device_type \<Rightarrow> bool" where
  "is_thermal_source t \<longleftrightarrow> t \<in> {Cpu, Gpu, Storage, TemperatureSensor, Motherboard}"

definition is_actuatable :: "device_type \<Rightarrow> bool" where
  "is_actuatable t \<longleftrightarrow> t \<in> {Fan, Pump, Rgb, Display}"

definition requires_safe_floor :: "device_type \<Rightarrow> bool" where
  "requires_safe_floor t \<longleftrightarrow> t \<in> {Fan, Pump}"

definition underscore :: "char \<Rightarrow> char" where
  "underscore c = (if c = CHR ''-'' \<or> c = CHR '' '' then CHR ''_'' else c)"

definition device_type_names :: "(string list \<times> device_type) list" where
  "device_type_names =
    [([''cpu''], Cpu), ([''gpu''], Gpu), ([''motherboard'', ''mainboard''], Motherboard),
     ([''memory'', ''ram''], Memory),
     ([''storage'', ''ssd'', ''nvme'', ''disk'', ''hdd''], Storage),
     ([''fan''], Fan), ([''pump'', ''aio''], Pump),
     ([''temperature_sensor'', ''temperature'', ''temp'', ''sensor''], TemperatureSensor),
     ([''power_supply'', ''psu''], PowerSupply), ([''keyboard''], Keyboard), ([''mouse''], Mouse),
     ([''rgb'', ''lighting''], Rgb), ([''display'', ''screen''], Display),
     ([''hub'', ''usb_hub''], Hub)]"

definition device_type_from_str :: "string \<Rightarrow> device_type result" where
  "device_type_from_str s = (let other = map (underscore \<circ> ascii_lower) (trim s) in
     ok_or (ConfigError [Txt ''unknown device type `'', Txt other, Txt ''`''])
       (match_name device_type_names other))"

datatype transport_kind =
  SystemTransport | Nvidia | Amd | UsbHid | UsbCdc | Serial | Web | Bridge | Mock
| UnknownTransport

fun transport_str :: "transport_kind \<Rightarrow> string" where
  "transport_str SystemTransport = ''system''"
| "transport_str Nvidia = ''nvidia''"
| "transport_str Amd = ''amd''"
| "transport_str UsbHid = ''usb_hid''"
| "transport_str UsbCdc = ''usb_cdc''"
| "transport_str Serial = ''serial''"
| "transport_str Web = ''web''"
| "transport_str Bridge = ''bridge''"
| "transport_str Mock = ''mock''"
| "transport_str UnknownTransport = ''unknown''"

definition needs_elevation_to_write :: "transport_kind \<Rightarrow> bool" where
  "needs_elevation_to_write t \<longleftrightarrow> t \<in> {SystemTransport, Nvidia, Amd, Bridge, Web}"

definition transport_names :: "(string list \<times> transport_kind) list" where
  "transport_names =
    [([''system'', ''os''], SystemTransport), ([''nvidia'', ''nvml''], Nvidia),
     ([''amd'', ''adl''], Amd), ([''usb_hid'', ''hid''], UsbHid), ([''usb_cdc'', ''cdc''], UsbCdc),
     ([''serial'', ''uart''], Serial), ([''web'', ''http''], Web),
     ([''bridge'', ''sidecar''], Bridge), ([''mock'', ''simulated''], Mock)]"

definition transport_from_str :: "string \<Rightarrow> transport_kind result" where
  "transport_from_str s = (let other = map (underscore \<circ> ascii_lower) (trim s) in
     ok_or (ConfigError [Txt ''unknown transport `'', Txt other, Txt ''`''])
       (match_name transport_names other))"

record device =
  dev_id :: string
  dev_name :: string
  dev_type :: device_type
  dev_vendor :: string
  dev_model :: "string option"
  dev_transport :: transport_kind
  dev_adapter :: string
  dev_capabilities :: "capability list"
  dev_metadata :: "string \<rightharpoonup> string"
  dev_tags :: "string list"

definition new_device ::
    "string \<Rightarrow> string \<Rightarrow> device_type \<Rightarrow> transport_kind \<Rightarrow> string \<Rightarrow> device" where
  "new_device i name t tr a =
     \<lparr>dev_id = i, dev_name = name, dev_type = t, dev_vendor = [], dev_model = None,
      dev_transport = tr, dev_adapter = a, dev_capabilities = [], dev_metadata = Map.empty,
      dev_tags = []\<rparr>"

definition with_capability :: "capability \<Rightarrow> device \<Rightarrow> device" where
  "with_capability c d = d\<lparr>dev_capabilities := dev_capabilities d @ [c]\<rparr>"

definition with_metadata :: "string \<Rightarrow> string \<Rightarrow> device \<Rightarrow> device" where
  "with_metadata k v d = d\<lparr>dev_metadata := (dev_metadata d)(k \<mapsto> v)\<rparr>"

definition dev_capability :: "device \<Rightarrow> string \<Rightarrow> capability option" where
  "dev_capability d i = List.find (\<lambda>c. cap_id c = i) (dev_capabilities d)"

definition dev_supports :: "device \<Rightarrow> string \<Rightarrow> bool" where
  "dev_supports d i \<longleftrightarrow> dev_capability d i \<noteq> None"

definition capabilities_of_kind :: "device \<Rightarrow> cap_kind \<Rightarrow> capability list" where
  "capabilities_of_kind d k = filter (\<lambda>c. cap_kind c = k) (dev_capabilities d)"

definition writable_capabilities :: "device \<Rightarrow> capability list" where
  "writable_capabilities d = filter cap_writable (dev_capabilities d)"

definition is_controllable :: "device \<Rightarrow> bool" where
  "is_controllable d \<longleftrightarrow> list_ex cap_writable (dev_capabilities d)"

text \<open>The loop of \<open>Device::validate\<close>, with the ids seen so far.\<close>

fun validate_caps :: "device \<Rightarrow> string list \<Rightarrow> capability list \<Rightarrow> unit result" where
  "validate_caps d seen [] = Inr ()"
| "validate_caps d seen (c # cs) =
    (if cap_id c \<in> set seen then
       Inl (AdapterError (dev_adapter d)
         [Txt ''device `'', Txt (dev_id d), Txt ''` declares `'', Txt (cap_id c), Txt ''` twice''])
     else if cap_writable c \<and> ((cap_min c \<noteq> None) \<noteq> (cap_max c \<noteq> None)) then
       Inl (AdapterError (dev_adapter d)
         [Txt ''device `'', Txt (dev_id d), Txt ''` capability `'', Txt (cap_id c),
          Txt ''` declares only one range bound''])
     else validate_caps d (seen @ [cap_id c]) cs)"

definition validate_device :: "device \<Rightarrow> unit result" where
  "validate_device d =
    (if dev_capabilities d = [] then
       Inl (AdapterError (dev_adapter d)
         [Txt ''device `'', Txt (dev_id d), Txt ''` declares no capabilities''])
     else validate_caps d [] (dev_capabilities d))"

subsection \<open>Properties\<close>

text \<open>Plain text: what \<open>trim\<close> and \<open>to_ascii_lowercase\<close> leave alone.\<close>

definition plain :: "string \<Rightarrow> bool" where
  "plain s \<longleftrightarrow> list_all (\<lambda>c. 32 < byte c \<and> byte c < 128 \<and> \<not> is_ascii_upper c) s"

lemma plain_drop: "plain s \<Longrightarrow> plain (drop n s)"
  unfolding plain_def list_all_iff by (meson in_set_dropD)

lemma plain_ws_len: "plain s \<Longrightarrow> ws_len s = 0"
  by (cases s rule: ws_len.cases) (auto simp: plain_def ws1_def ws2_def ws3_def)

lemma plain_trim: "plain s \<Longrightarrow> trim s = s"
  by (simp add: trim_def trim_start.simps [of s] trim_end.simps [of s] ws_suffix_def
      plain_ws_len plain_drop)

lemma plain_lower: "plain s \<Longrightarrow> map ascii_lower s = s"
  by (auto simp: plain_def list_all_iff ascii_lower_def intro: map_idI)

lemma plain_underscore:
  assumes "plain s" and "CHR ''-'' \<notin> set s"
  shows "map (underscore \<circ> ascii_lower) s = s"
proof (rule map_idI)
  fix c assume c: "c \<in> set s"
  with assms have "32 < byte c" "\<not> is_ascii_upper c" "c \<noteq> CHR ''-''"
    by (auto simp: plain_def list_all_iff)
  then show "(underscore \<circ> ascii_lower) c = c"
    by (auto simp: ascii_lower_def underscore_def byte_def)
qed

lemma unit_str_plain: "plain (unit_str u)"
  by (cases u) (simp_all add: plain_def byte_def is_ascii_upper_def)

lemma unit_roundtrip: "unit_from_str (unit_str u) = Inr u"
  unfolding unit_from_str_def Let_def plain_trim [OF unit_str_plain] plain_lower [OF unit_str_plain]
  by (cases u) (simp_all add: unit_names_def ok_or_def degree_def)

lemma cap_kind_str_plain: "plain (cap_kind_str k)"
  by (cases k) (simp_all add: plain_def byte_def is_ascii_upper_def)

lemma cap_kind_roundtrip: "cap_kind_from_str (cap_kind_str k) = Inr k"
  unfolding cap_kind_from_str_def Let_def plain_trim [OF cap_kind_str_plain]
    plain_lower [OF cap_kind_str_plain]
  by (cases k) (simp_all add: cap_kind_names_def ok_or_def)

lemma reason_code_plain: "plain (reason_code r)"
  by (cases r) (simp_all add: plain_def byte_def is_ascii_upper_def)

lemma reason_roundtrip: "reason_from_str (reason_code r) = Inr r"
  unfolding reason_from_str_def Let_def plain_trim [OF reason_code_plain]
    plain_lower [OF reason_code_plain]
  by (cases r) (simp_all add: reason_names_def ok_or_def)

lemma device_type_str_plain: "plain (device_type_str t)" "CHR ''-'' \<notin> set (device_type_str t)"
  by (cases t; simp add: plain_def byte_def is_ascii_upper_def)+

lemma device_type_roundtrip:
  "device_type_from_str (device_type_str t) = Inr t \<longleftrightarrow> t \<noteq> UnknownType"
  unfolding device_type_from_str_def Let_def plain_trim [OF device_type_str_plain(1)]
    plain_underscore [OF device_type_str_plain]
  by (cases t) (simp_all add: device_type_names_def ok_or_def)

lemma transport_str_plain: "plain (transport_str t)" "CHR ''-'' \<notin> set (transport_str t)"
  by (cases t; simp add: plain_def byte_def is_ascii_upper_def)+

lemma transport_roundtrip:
  "transport_from_str (transport_str t) = Inr t \<longleftrightarrow> t \<noteq> UnknownTransport"
  unfolding transport_from_str_def Let_def plain_trim [OF transport_str_plain(1)]
    plain_underscore [OF transport_str_plain]
  by (cases t) (simp_all add: transport_names_def ok_or_def)

text \<open>The clamp of a two-sided range ends inside it, whatever comes in: a NaN included.\<close>

lemma fmin_fmax_range:
  "lo \<le> hi \<Longrightarrow> lo \<le> fmin (fmax x lo) hi \<and> fmin (fmax x lo) hi \<le> hi"
  by (cases x; cases lo; cases hi) (auto simp: fmin_def fmax_def f64_ord)

lemma fmin_fmax_id: "lo \<le> x \<Longrightarrow> x \<le> hi \<Longrightarrow> fmin (fmax x lo) hi = x"
  by (cases x; cases lo; cases hi) (auto simp: fmin_def fmax_def f64_ord)

lemma fmin_fmax_mono: "lo \<le> hi \<Longrightarrow> x \<le> y \<Longrightarrow> fmin (fmax x lo) hi \<le> fmin (fmax y lo) hi"
  by (cases x; cases y; cases lo; cases hi) (auto simp: fmin_def fmax_def f64_ord)

definition ranged :: "capability \<Rightarrow> bool" where
  "ranged c \<longleftrightarrow> (case (cap_min c, cap_max c) of (Some lo, Some hi) \<Rightarrow> lo \<le> hi | _ \<Rightarrow> False)"

lemma ranged_cases:
  assumes "ranged c"
  obtains lo hi where "cap_min c = Some lo" "cap_max c = Some hi" "lo \<le> hi"
  using assms by (auto simp: ranged_def split: option.splits prod.splits)

lemma clamp_capability_range:
  assumes "cap_min c = Some lo" "cap_max c = Some hi" "lo \<le> hi"
  shows "lo \<le> clamp_capability c v \<and> clamp_capability c v \<le> hi"
  using assms fmin_fmax_range [OF assms(3)]
  by (simp add: clamp_capability_def opt_fmin_def opt_fmax_def Let_def split: option.split)

definition stepless :: "capability \<Rightarrow> bool" where
  "stepless c \<longleftrightarrow> (case cap_step c of Some s \<Rightarrow> \<not> Fin 0 < s | None \<Rightarrow> True)"

lemma clamp_stepless:
  "stepless c \<Longrightarrow> cap_min c = Some lo \<Longrightarrow> cap_max c = Some hi \<Longrightarrow>
     clamp_capability c v = fmin (fmax v lo) hi"
  by (simp add: clamp_capability_def opt_fmin_def opt_fmax_def stepless_def Let_def
      split: option.splits)

text \<open>A continuous two-sided capability is a range limiter.\<close>

interpretation cap_clamp: range_limiter
  "\<lambda>c. ranged c \<and> stepless c" "\<lambda>c. the (cap_min c)" "\<lambda>c. the (cap_max c)" clamp_capability
proof (unfold_locales; elim conjE)
  fix c :: capability assume r: "ranged c" and s: "stepless c"
  obtain lo hi where b: "cap_min c = Some lo" "cap_max c = Some hi" "lo \<le> hi"
    using r by (rule ranged_cases)
  note eq = clamp_stepless [OF s b(1,2)]
  show "the (cap_min c) \<le> the (cap_max c)" using b by simp
  show "the (cap_min c) \<le> clamp_capability c x" for x
    using b fmin_fmax_range [OF b(3)] by (simp add: eq)
  show "clamp_capability c x \<le> the (cap_max c)" for x
    using b fmin_fmax_range [OF b(3)] by (simp add: eq)
  show "clamp_capability c x = x" if "the (cap_min c) \<le> x" "x \<le> the (cap_max c)" for x
    using b that fmin_fmax_id by (simp add: eq)
  show "clamp_capability c x \<le> clamp_capability c y" if "x \<le> y" for x y
    using fmin_fmax_mono [OF b(3) that] by (simp add: eq)
qed

lemma validate_capability_numeric:
  assumes "cap_values c = []"
  shows "validate_capability c v = Inr () \<longleftrightarrow>
    cap_writable c \<and> (\<exists>q. as_f64 v = Some (Fin q)
      \<and> (\<forall>lo. cap_min c = Some lo \<longrightarrow> \<not> Fin q < lo)
      \<and> (\<forall>hi. cap_max c = Some hi \<longrightarrow> \<not> hi < Fin q))"
proof (cases "as_f64 v")
  case (Some x)
  then show ?thesis
    using assms
    by (cases x; cases "cap_min c"; cases "cap_max c") (simp_all add: validate_capability_def Let_def)
qed (simp add: validate_capability_def assms)

text \<open>A value that passes validation is written unchanged by a continuous channel.\<close>

lemma validate_then_clamp:
  assumes "cap_values c = []" "ranged c" "stepless c" "validate_capability c v = Inr ()"
  shows "\<exists>x. as_f64 v = Some x \<and> is_finite x \<and> clamp_capability c x = x"
proof -
  obtain lo hi where b: "cap_min c = Some lo" "cap_max c = Some hi" "lo \<le> hi"
    using assms(2) by (rule ranged_cases)
  obtain q where q: "as_f64 v = Some (Fin q)" "\<not> Fin q < lo" "\<not> hi < Fin q"
    using assms(4) b by (auto simp: validate_capability_numeric [OF assms(1)])
  then have "lo \<le> Fin q" "Fin q \<le> hi"
    using f64_le_not_nan [OF b(3)] by (auto simp: f64_not_less)
  then have "clamp_capability c (Fin q) = Fin q"
    using assms(2,3) b by (intro cap_clamp.limit_id) auto
  with q show ?thesis by auto
qed

text \<open>\<open>Device::validate\<close> accepts exactly the well-formed descriptions.\<close>

definition paired_bounds :: "capability \<Rightarrow> bool" where
  "paired_bounds c \<longleftrightarrow> (cap_writable c \<longrightarrow> (cap_min c = None \<longleftrightarrow> cap_max c = None))"

lemma validate_caps_ok:
  "validate_caps d seen cs = Inr () \<longleftrightarrow>
     distinct (map cap_id cs) \<and> set seen \<inter> cap_id ` set cs = {} \<and> list_all paired_bounds cs"
  by (induction cs arbitrary: seen) (auto simp: paired_bounds_def)

lemma validate_device_ok:
  "validate_device d = Inr () \<longleftrightarrow> dev_capabilities d \<noteq> []
     \<and> distinct (map cap_id (dev_capabilities d)) \<and> list_all paired_bounds (dev_capabilities d)"
  by (simp add: validate_device_def validate_caps_ok)

lemma valid_device_lookup:
  assumes "validate_device d = Inr ()" "c \<in> set (dev_capabilities d)"
  shows "dev_capability d (cap_id c) = Some c"
  using assms by (simp add: validate_device_ok dev_capability_def find_distinct_key)

lemma offline_unavailable: "state_unavailable (offline r d s) = ds_readings (offline r d s)"
  by (simp add: state_unavailable_def offline_def filter_id_conv reading_is_ok_def)

lemma offline_number: "state_number (offline r d s) c = None"
proof (cases "get_reading (offline r d s) c")
  case (Some x)
  then have "x \<in> set (ds_readings (offline r d s))"
    by (auto simp: get_reading_def dest: find_key_Some)
  then have "reading_value x = None"
    by (auto simp: offline_def reading_value_def)
  with Some show ?thesis by (simp add: state_number_def reading_number_def)
qed (simp add: state_number_def)

end
