(* ===== verification/Safety.thy ===== *)
theory Safety
  imports Device_Model
begin

section \<open>The safety policy\<close>

text \<open>
  \<open>crates/ohm-runtime/src/safety.rs\<close>: the mandatory gate on the write path. Every duty a
  manual action or a rule asks for goes through \<open>check_duty\<close> before the adapter sees it.
\<close>

subsection \<open>The policy\<close>

record safety_policy =
  sp_enabled :: bool
  sp_require_min_duty :: bool
  sp_min_duty_percent :: f64
  sp_pump_min_duty_percent :: f64
  sp_emergency_temp_c :: f64
  sp_emergency_duty_percent :: f64
  sp_fail_safe_duty_percent :: f64
  sp_emergency_override_enabled :: bool
  sp_relinquish_on_exit :: bool
  sp_max_write_delta_percent :: f64
  sp_sensor_stale_after_s :: nat

definition default_policy :: safety_policy where
  "default_policy =
     \<lparr>sp_enabled = True, sp_require_min_duty = True, sp_min_duty_percent = Fin 25,
      sp_pump_min_duty_percent = Fin 60, sp_emergency_temp_c = Fin 90,
      sp_emergency_duty_percent = Fin 100, sp_fail_safe_duty_percent = Fin 70,
      sp_emergency_override_enabled = True, sp_relinquish_on_exit = True,
      sp_max_write_delta_percent = Fin 0, sp_sensor_stale_after_s = 5\<rparr>"

text \<open>\<open>sanitise(&mut self)\<close>: one assignment per step, each reading what the ones before wrote.\<close>

definition sanitise :: "safety_policy \<Rightarrow> safety_policy" where
  "sanitise p0 =
    (let p1 = p0\<lparr>sp_min_duty_percent := fclamp (sp_min_duty_percent p0) (Fin 0) (Fin 100)\<rparr>;
         p2 = p1\<lparr>sp_pump_min_duty_percent :=
                   fclamp (sp_pump_min_duty_percent p1) (Fin 10) (Fin 100)\<rparr>;
         p3 = (if sp_pump_min_duty_percent p2 < sp_min_duty_percent p2
               then p2\<lparr>sp_pump_min_duty_percent := fmax (sp_min_duty_percent p2) (Fin 10)\<rparr> else p2);
         p4 = p3\<lparr>sp_emergency_duty_percent :=
                   fclamp (sp_emergency_duty_percent p3) (Fin 50) (Fin 100)\<rparr>;
         p5 = p4\<lparr>sp_fail_safe_duty_percent :=
                   fclamp (sp_fail_safe_duty_percent p4) (Fin 0) (Fin 100)\<rparr>;
         p6 = (if sp_fail_safe_duty_percent p5 < sp_min_duty_percent p5
               then p5\<lparr>sp_fail_safe_duty_percent := sp_min_duty_percent p5\<rparr> else p5);
         p7 = p6\<lparr>sp_emergency_temp_c := fclamp (sp_emergency_temp_c p6) (Fin 50) (Fin 130)\<rparr>;
         p8 = p7\<lparr>sp_max_write_delta_percent :=
                   fclamp (sp_max_write_delta_percent p7) (Fin 0) (Fin 100)\<rparr>
     in p8\<lparr>sp_sensor_stale_after_s := min (sp_sensor_stale_after_s p8) 600\<rparr>)"

definition duty_floor :: "safety_policy \<Rightarrow> device_type \<Rightarrow> f64" where
  "duty_floor p t =
    (if t = Pump then fmax (sp_pump_min_duty_percent p) (sp_min_duty_percent p)
     else if t = Fan \<and> sp_require_min_duty p \<and> sp_enabled p then sp_min_duty_percent p
     else Fin 0)"

definition fail_safe_duty :: "safety_policy \<Rightarrow> device_type \<Rightarrow> f64" where
  "fail_safe_duty p t = fmax (sp_fail_safe_duty_percent p) (duty_floor p t)"

definition emergency_duty :: "safety_policy \<Rightarrow> device_type \<Rightarrow> f64" where
  "emergency_duty p t = fmax (sp_emergency_duty_percent p) (duty_floor p t)"

definition is_emergency :: "safety_policy \<Rightarrow> f64 \<Rightarrow> bool" where
  "is_emergency p celsius \<longleftrightarrow> Fin 0 < sp_emergency_temp_c p \<and> sp_emergency_temp_c p \<le> celsius"

definition emergency_override :: "safety_policy \<Rightarrow> f64 option \<Rightarrow> f64 option" where
  "emergency_override p hottest =
    (if \<not> sp_emergency_override_enabled p then None
     else case hottest of None \<Rightarrow> None
       | Some h \<Rightarrow> if is_emergency p h then Some (sp_emergency_duty_percent p) else None)"

datatype safety_decision =
  Allow f64 "message option"
| Emergency f64 message
| Block message

fun decision_value :: "safety_decision \<Rightarrow> f64 option" where
  "decision_value (Allow v _) = Some v"
| "decision_value (Emergency v _) = Some v"
| "decision_value (Block _) = None"

fun is_blocked :: "safety_decision \<Rightarrow> bool" where
  "is_blocked (Block _) = True"
| "is_blocked _ = False"

fun decision_note :: "safety_decision \<Rightarrow> message option" where
  "decision_note (Allow _ clamped) = clamped"
| "decision_note (Emergency _ reason) = Some reason"
| "decision_note (Block reason) = Some reason"

subsection \<open>The gate\<close>

definition ramp_limit :: "safety_policy \<Rightarrow> f64 \<Rightarrow> f64 \<Rightarrow> f64 \<Rightarrow> safety_decision option" where
  "ramp_limit p flr requested current =
    (if \<not> is_finite current then
       Some (Allow requested (Some [Txt ''ramp limiting skipped: non finite current duty ('',
          Num current, Txt ''); using the validated request'']))
     else
       (let delta = requested - current in
        if sp_max_write_delta_percent p < \<bar>delta\<bar> then
          (let stepped = current + sp_max_write_delta_percent p * fsignum delta;
               allowed = fclamp (fmax stepped flr) (Fin 0) (Fin 100);
               floor_note = (if stepped < flr
                 then [Txt ''; raised to the '', Num flr, Txt '' % safety floor''] else [])
           in Some (Allow allowed (Some ([Txt ''ramp limited to '',
                Num (sp_max_write_delta_percent p), Txt '' % per write''] @ floor_note))))
        else None))"

definition check_duty ::
    "safety_policy \<Rightarrow> device_type \<Rightarrow> f64 \<Rightarrow> f64 option \<Rightarrow> f64 option \<Rightarrow> safety_decision" where
  "check_duty p t requested current hottest =
    (if \<not> is_finite requested then
       Block [Txt ''refusing to write a non finite duty ('', Num requested, Txt '')'']
     else case emergency_override p hottest of
       Some d \<Rightarrow>
         (let duty = fmax (emergency_duty p t) d in
          if requested < duty then
            Emergency duty [Num (case hottest of Some h \<Rightarrow> h | None \<Rightarrow> Fin 0), Txt '' '',
              Txt degree, Txt ''C is at or above the emergency threshold of '',
              Num (sp_emergency_temp_c p), Txt '' '', Txt degree, Txt ''C'']
          else Allow requested None)
     | None \<Rightarrow>
         (let flr = duty_floor p t in
          if requested < flr then
            Allow flr (Some [Txt ''raised to the '', Num flr, Txt '' % '',
              Txt (if t = Pump then ''pump'' else ''minimum fan''), Txt '' floor''])
          else
            case (case current of Some c \<Rightarrow>
                    if Fin 0 < sp_max_write_delta_percent p
                    then ramp_limit p flr requested c else None
                  | None \<Rightarrow> None) of
              Some decision \<Rightarrow> decision
            | None \<Rightarrow> Allow requested None))"

subsection \<open>What sanitising establishes\<close>

definition no_nan :: "safety_policy \<Rightarrow> bool" where
  "no_nan p \<longleftrightarrow> \<not> is_nan (sp_min_duty_percent p) \<and> \<not> is_nan (sp_pump_min_duty_percent p)
     \<and> \<not> is_nan (sp_emergency_temp_c p) \<and> \<not> is_nan (sp_emergency_duty_percent p)
     \<and> \<not> is_nan (sp_fail_safe_duty_percent p) \<and> \<not> is_nan (sp_max_write_delta_percent p)"

text \<open>A usable policy: every limit in its range, the pump and fail-safe duties above the fan floor.\<close>

definition sane :: "safety_policy \<Rightarrow> bool" where
  "sane p \<longleftrightarrow>
     Fin 0 \<le> sp_min_duty_percent p \<and> sp_min_duty_percent p \<le> Fin 100
   \<and> Fin 10 \<le> sp_pump_min_duty_percent p \<and> sp_pump_min_duty_percent p \<le> Fin 100
   \<and> sp_min_duty_percent p \<le> sp_pump_min_duty_percent p
   \<and> Fin 50 \<le> sp_emergency_duty_percent p \<and> sp_emergency_duty_percent p \<le> Fin 100
   \<and> Fin 0 \<le> sp_fail_safe_duty_percent p \<and> sp_fail_safe_duty_percent p \<le> Fin 100
   \<and> sp_min_duty_percent p \<le> sp_fail_safe_duty_percent p
   \<and> Fin 50 \<le> sp_emergency_temp_c p \<and> sp_emergency_temp_c p \<le> Fin 130
   \<and> Fin 0 \<le> sp_max_write_delta_percent p \<and> sp_max_write_delta_percent p \<le> Fin 100
   \<and> sp_sensor_stale_after_s p \<le> 600"

lemma fclamp_range_Fin:
  "a \<le> b \<Longrightarrow> \<not> is_nan x \<Longrightarrow> \<exists>v. fclamp x (Fin a) (Fin b) = Fin v \<and> a \<le> v \<and> v \<le> b"
  by (cases x) (auto simp: fclamp_def)

lemma fclamp_id_Fin: "a \<le> v \<Longrightarrow> v \<le> b \<Longrightarrow> fclamp (Fin v) (Fin a) (Fin b) = Fin v"
  by (simp add: fclamp_id)

lemma sanitise_sane:
  assumes "no_nan p"
  shows "sane (sanitise p)"
proof -
  obtain m where m: "fclamp (sp_min_duty_percent p) (Fin 0) (Fin 100) = Fin m" "0 \<le> m" "m \<le> 100"
    using assms fclamp_range_Fin [of 0 100] by (auto simp: no_nan_def)
  obtain u where u: "fclamp (sp_pump_min_duty_percent p) (Fin 10) (Fin 100) = Fin u" "10 \<le> u" "u \<le> 100"
    using assms fclamp_range_Fin [of 10 100] by (auto simp: no_nan_def)
  obtain e where e: "fclamp (sp_emergency_duty_percent p) (Fin 50) (Fin 100) = Fin e" "50 \<le> e" "e \<le> 100"
    using assms fclamp_range_Fin [of 50 100] by (auto simp: no_nan_def)
  obtain f where f: "fclamp (sp_fail_safe_duty_percent p) (Fin 0) (Fin 100) = Fin f" "0 \<le> f" "f \<le> 100"
    using assms fclamp_range_Fin [of 0 100] by (auto simp: no_nan_def)
  obtain t where t: "fclamp (sp_emergency_temp_c p) (Fin 50) (Fin 130) = Fin t" "50 \<le> t" "t \<le> 130"
    using assms fclamp_range_Fin [of 50 130] by (auto simp: no_nan_def)
  obtain d where d: "fclamp (sp_max_write_delta_percent p) (Fin 0) (Fin 100) = Fin d" "0 \<le> d" "d \<le> 100"
    using assms fclamp_range_Fin [of 0 100] by (auto simp: no_nan_def)
  show ?thesis
    using m(2,3) u(2,3) e(2,3) f(2,3) t(2,3) d(2,3)
    by (simp add: sane_def sanitise_def Let_def m(1) u(1) e(1) f(1) t(1) d(1))
qed

lemma sane_numbers:
  assumes "sane p"
  obtains m u e f t d where
    "sp_min_duty_percent p = Fin m" "sp_pump_min_duty_percent p = Fin u"
    "sp_emergency_duty_percent p = Fin e" "sp_fail_safe_duty_percent p = Fin f"
    "sp_emergency_temp_c p = Fin t" "sp_max_write_delta_percent p = Fin d"
    "0 \<le> m" "m \<le> 100" "10 \<le> u" "u \<le> 100" "m \<le> u" "50 \<le> e" "e \<le> 100"
    "m \<le> f" "f \<le> 100" "50 \<le> t" "t \<le> 130" "0 \<le> d" "d \<le> 100"
proof -
  have "is_finite (sp_min_duty_percent p)" "is_finite (sp_pump_min_duty_percent p)"
    "is_finite (sp_emergency_duty_percent p)" "is_finite (sp_fail_safe_duty_percent p)"
    "is_finite (sp_emergency_temp_c p)" "is_finite (sp_max_write_delta_percent p)"
    using assms by (auto simp: sane_def intro: finite_between)
  with assms that show thesis
    by (auto simp: sane_def is_finite_iff)
qed

lemma sane_no_nan: "sane p \<Longrightarrow> no_nan p"
  by (erule sane_numbers) (simp add: no_nan_def)

lemma sane_stale: "sane p \<Longrightarrow> sp_sensor_stale_after_s p \<le> 600"
  by (simp add: sane_def)

lemma sanitise_id: "sane p \<Longrightarrow> sanitise p = p"
  by (cases p, frule sane_stale, erule sane_numbers) (simp add: sanitise_def Let_def fclamp_id_Fin sane_def)

lemma default_policy_sane: "sane default_policy"
  by (simp add: sane_def default_policy_def)

subsection \<open>Floors\<close>

lemma duty_floor_range:
  assumes "sane p"
  obtains x where "duty_floor p t = Fin x" "0 \<le> x" "x \<le> 100" "t = Pump \<Longrightarrow> 10 \<le> x"
proof -
  obtain m u where m: "sp_min_duty_percent p = Fin m" "0 \<le> m" "m \<le> 100"
    and u: "sp_pump_min_duty_percent p = Fin u" "10 \<le> u" "u \<le> 100"
    using assms by (rule sane_numbers)
  show thesis
  proof (cases "t = Pump")
    case True
    with m u show ?thesis by (intro that [of "max u m"]) (auto simp: duty_floor_def)
  next
    case False
    with m show ?thesis
      by (intro that [of "if t = Fan \<and> sp_require_min_duty p \<and> sp_enabled p then m else 0"])
        (auto simp: duty_floor_def)
  qed
qed

lemma emergency_duty_range:
  assumes "sane p"
  obtains x where "emergency_duty p t = Fin x" "50 \<le> x" "x \<le> 100" "duty_floor p t \<le> Fin x"
    "sp_emergency_duty_percent p \<le> Fin x"
proof -
  obtain y where y: "duty_floor p t = Fin y" "0 \<le> y" "y \<le> 100"
    using assms by (rule duty_floor_range)
  obtain e where e: "sp_emergency_duty_percent p = Fin e" "50 \<le> e" "e \<le> 100"
    using assms by (rule sane_numbers)
  show thesis
    using y e by (intro that [of "max e y"]) (auto simp: emergency_duty_def)
qed

subsection \<open>The decision, branch by branch\<close>

lemma check_duty_not_finite: "\<not> is_finite r \<Longrightarrow> is_blocked (check_duty p t r cur hot)"
  by (simp add: check_duty_def)

lemma check_duty_emergency:
  assumes "sane p" "emergency_override p hot = Some d"
  shows "\<exists>v. decision_value (check_duty p t (Fin r) cur hot) = Some v
    \<and> emergency_duty p t \<le> v \<and> Fin r \<le> v \<and> (v = Fin r \<or> v = emergency_duty p t)"
proof -
  obtain x where x: "emergency_duty p t = Fin x" "sp_emergency_duty_percent p \<le> Fin x"
    using assms(1) by (rule emergency_duty_range)
  have "d = sp_emergency_duty_percent p"
    using assms(2) by (auto simp: emergency_override_def split: if_splits option.splits)
  with x obtain e where "d = Fin e" "e \<le> x"
    using assms(1) by (auto elim: sane_numbers)
  with x assms(2) show ?thesis by (auto simp: check_duty_def Let_def)
qed

lemma ramp_limit_value:
  assumes "sp_max_write_delta_percent p = Fin d"
  shows "ramp_limit p fl (Fin r) cur =
    (case cur of Fin c \<Rightarrow>
       if Fin d < \<bar>Fin r - Fin c\<bar>
       then Some (Allow (fclamp (fmax (Fin c + Fin d * fsignum (Fin r - Fin c)) fl) (Fin 0) (Fin 100))
         (Some ([Txt ''ramp limited to '', Num (Fin d), Txt '' % per write''] @
           (if Fin c + Fin d * fsignum (Fin r - Fin c) < fl
            then [Txt ''; raised to the '', Num fl, Txt '' % safety floor''] else []))))
       else None
     | _ \<Rightarrow> Some (Allow (Fin r) (Some [Txt ''ramp limiting skipped: non finite current duty ('',
          Num cur, Txt ''); using the validated request''])))"
  using assms by (cases cur) (simp_all add: ramp_limit_def Let_def)

lemma fclamp_fmax_floor:
  "0 \<le> x \<Longrightarrow> x \<le> 100 \<Longrightarrow> Fin x \<le> fclamp (fmax v (Fin x)) (Fin 0) (Fin 100)"
  by (cases v) (auto simp: fclamp_def fmax_def)

lemma fclamp_fmax_le_100: "fclamp (fmax v (Fin x)) (Fin 0) (Fin 100) \<le> Fin 100"
  by (cases v) (auto simp: fclamp_def fmax_def)

lemma check_duty_normal:
  assumes s: "sane p" and e: "emergency_override p hot = None"
  shows "\<exists>v. decision_value (check_duty p t (Fin r) cur hot) = Some v \<and> duty_floor p t \<le> v
    \<and> (r \<le> 100 \<longrightarrow> v \<le> Fin 100)"
proof -
  obtain x where x: "duty_floor p t = Fin x" "0 \<le> x" "x \<le> 100"
    using s by (rule duty_floor_range)
  obtain d where d: "sp_max_write_delta_percent p = Fin d" "0 \<le> d" "d \<le> 100"
    using s by (rule sane_numbers)
  have ramp: "\<exists>w n. ramp_limit p (Fin x) (Fin r) c = Some (Allow w n) \<and> Fin x \<le> w \<and> (r \<le> 100 \<longrightarrow> w \<le> Fin 100)"
    if "ramp_limit p (Fin x) (Fin r) c \<noteq> None" "x \<le> r" for c
    using that
    by (auto simp: ramp_limit_value [OF d(1)] fclamp_fmax_floor [OF x(2,3)] fclamp_fmax_le_100
        split: f64.splits if_splits)
  show ?thesis
  proof (cases "r < x")
    case True
    with x show ?thesis by (auto simp: check_duty_def e Let_def)
  next
    case False
    then have "x \<le> r" by simp
    show ?thesis
    proof (cases "\<exists>c. cur = Some c \<and> Fin 0 < Fin d \<and> ramp_limit p (Fin x) (Fin r) c \<noteq> None")
      case True
      then obtain c where c: "cur = Some c" "0 < d" "ramp_limit p (Fin x) (Fin r) c \<noteq> None" by auto
      with ramp [OF c(3) \<open>x \<le> r\<close>] show ?thesis
        using False by (auto simp: check_duty_def e x(1) d(1) Let_def)
    next
      case none: False
      then have "(case cur of Some c \<Rightarrow> if Fin 0 < sp_max_write_delta_percent p
          then ramp_limit p (Fin x) (Fin r) c else None | None \<Rightarrow> None) = None"
        by (auto simp: d(1) split: option.splits)
      with False \<open>x \<le> r\<close> show ?thesis by (simp add: check_duty_def e x(1) Let_def)
    qed
  qed
qed


subsection \<open>Ramp limiting\<close>

text \<open>
  One ramp-limited step goes from the current duty towards the request and never past it:
  the step is taken on the rounded difference, and rounding is monotone.
\<close>

lemma ramp_step_up:
  assumes "is_dbl r" "is_dbl d" "0 \<le> d" "Fin d < rnd (r - c)"
  shows "rnd (c + d) \<le> Fin r"
proof -
  have "d < r - c"
    using assms(2,4) rnd_mono [of "r - c" d] by (cases "rnd (r - c)") (auto simp: rnd_exact not_less [symmetric])
  then show ?thesis using assms(1) by (intro rnd_le_Fin) simp_all
qed

lemma ramp_step_down:
  assumes "is_dbl r" "is_dbl d" "rnd (r - c) < Fin (- d)"
  shows "Fin r \<le> rnd (c - d)"
proof -
  have "r - c < - d"
    using assms(2,3) rnd_mono [of "- d" "r - c"]
    by (cases "rnd (r - c)") (auto simp: rnd_exact is_dbl_uminus not_less [symmetric])
  then show ?thesis using assms(1) by (intro Fin_le_rnd) simp_all
qed

lemma ramp_limit_between:
  assumes d: "sp_max_write_delta_percent p = Fin d" "0 \<le> d" "is_dbl d"
    and r: "is_dbl r" "x \<le> r" "r \<le> 100" and x: "0 \<le> x"
    and c: "is_dbl c" "0 \<le> c" "c \<le> 100"
    and some: "ramp_limit p (Fin x) (Fin r) (Fin c) = Some (Allow v n)"
  shows "Fin (min c r) \<le> v \<and> v \<le> Fin (max c r)"
proof -
  have lim: "Fin d < \<bar>Fin r - Fin c\<bar>"
    and v: "v = fclamp (fmax (Fin c + Fin d * fsignum (Fin r - Fin c)) (Fin x)) (Fin 0) (Fin 100)"
    using some by (auto simp: ramp_limit_value [OF d(1)] split: if_splits)
  have diff: "Fin r - Fin c = rnd (r - c)" by (rule Fin_minus)
  have cmp: "0 \<le> r - c \<Longrightarrow> Fin 0 \<le> rnd (r - c)" "r - c \<le> 0 \<Longrightarrow> rnd (r - c) \<le> Fin 0"
    by (auto intro: Fin_le_rnd rnd_le_Fin)
  show ?thesis
  proof (cases "rnd (r - c) \<le> Fin 0")
    case False
    then have "0 < r - c" using cmp(2) by force
    have up: "Fin d < rnd (r - c)" "fsignum (rnd (r - c)) = Fin 1"
      using False lim diff \<open>0 < r - c\<close> cmp(1) by (cases "rnd (r - c)"; auto simp: abs_f64_def)+
    have lo: "Fin c \<le> rnd (c + d)" and hi: "rnd (c + d) \<le> Fin r"
      using c d ramp_step_up [OF r(1) d(3,2) up(1)] by (auto intro: Fin_le_rnd)
    then obtain w where w: "rnd (c + d) = Fin w" "c \<le> w" "w \<le> r"
      by (cases "rnd (c + d)") auto
    have "v = Fin (max w x)"
      using v w r(2,3) x c
      by (auto simp: diff up(2) Fin_times rnd_exact d(3) Fin_plus fclamp_def split: if_splits)
    with w r(2) \<open>0 < r - c\<close> show ?thesis by auto
  next
    case True
    have neg: "rnd (r - c) < Fin (- d)" "fsignum (rnd (r - c)) = Fin (- 1)"
      using True lim diff d(2) by (cases "rnd (r - c)"; auto simp: abs_f64_def)+
    have "r - c < 0" using cmp(1) neg(1) d(2) by (cases "rnd (r - c)") (auto, force+)
    have lo: "Fin r \<le> rnd (c - d)" and hi: "rnd (c - d) \<le> Fin c"
      using c d ramp_step_down [OF r(1) d(3) neg(1)] by (auto intro: rnd_le_Fin)
    then obtain w where w: "rnd (c - d) = Fin w" "r \<le> w" "w \<le> c"
      by (cases "rnd (c - d)") auto
    have "v = Fin (max w x)"
      using v w r(2,3) x c is_dbl_uminus [of d] d(3)
      by (simp add: diff neg(2) Fin_times rnd_exact Fin_plus fclamp_def)
    with w r(2) \<open>r - c < 0\<close> show ?thesis by auto
  qed
qed


subsection \<open>Properties\<close>

text \<open>C2. A thermal emergency wins over everything: when the override is on and the hottest
  reading is at or above the ceiling, every finite request ends as a write of at least the
  emergency duty (which includes the device's floor) and never lower than the request,
  whatever the current duty and however slow the ramp limit.\<close>
theorem emergency_wins:
  assumes "sane p" and "sp_emergency_override_enabled p" and "sp_emergency_temp_c p \<le> h"
    and "is_finite r"
  shows "\<exists>v. decision_value (check_duty p t r cur (Some h)) = Some v
    \<and> emergency_duty p t \<le> v \<and> r \<le> v \<and> (v = r \<or> v = emergency_duty p t)"
proof -
  obtain q where q: "r = Fin q" using assms(4) by (auto simp: is_finite_iff)
  obtain T where T: "sp_emergency_temp_c p = Fin T" "50 \<le> T"
    using assms(1) by (rule sane_numbers)
  then have "emergency_override p (Some h) = Some (sp_emergency_duty_percent p)"
    using assms(2,3) by (simp add: emergency_override_def is_emergency_def)
  from check_duty_emergency [OF assms(1) this] show ?thesis by (simp add: q)
qed

theorem emergency_wins_witness:
  "\<exists>v. decision_value (check_duty default_policy Fan (Fin 30) (Some (Fin 30)) (Some (Fin 95))) = Some v
    \<and> emergency_duty default_policy Fan \<le> v \<and> Fin 30 \<le> v
    \<and> (v = Fin 30 \<or> v = emergency_duty default_policy Fan)"
  by (rule emergency_wins) (simp_all add: default_policy_sane, simp_all add: default_policy_def)

lemma check_duty_range:
  assumes "sane p" and "decision_value (check_duty p t r cur hot) = Some v"
  shows "duty_floor p t \<le> v \<and> (r \<le> Fin 100 \<longrightarrow> v \<le> Fin 100)"
proof -
  have "is_finite r" using assms(2) by (cases "is_finite r") (simp_all add: check_duty_def)
  then obtain q where q: "r = Fin q" by (auto simp: is_finite_iff)
  show ?thesis
  proof (cases "emergency_override p hot")
    case None
    from check_duty_normal [OF assms(1) this, of t q cur] assms(2) show ?thesis by (auto simp: q)
  next
    case (Some d)
    obtain x where x: "emergency_duty p t = Fin x" "x \<le> 100" "duty_floor p t \<le> Fin x"
      using assms(1) by (rule emergency_duty_range)
    from check_duty_emergency [OF assms(1) Some, of t q cur] assms(2) x
    show ?thesis by (auto simp: q intro: f64_le_trans)
  qed
qed

text \<open>C23. No decision lets a duty through below the device's floor, and no decision raises a
  duty above 100 % unless the request itself was: on every branch (emergency, floor, ramp
  limiting with any current reading, pass-through).\<close>
theorem gate_keeps_floor:
  assumes "sane p" and "decision_value (check_duty p t r cur hot) = Some v"
  shows "duty_floor p t \<le> v \<and> (r \<le> Fin 100 \<longrightarrow> v \<le> Fin 100)"
  using assms by (rule check_duty_range)

theorem gate_keeps_floor_witness:
  "decision_value (check_duty default_policy Fan (Fin 5) (Some (Fin 40)) (Some (Fin 50)))
      = Some (Fin 25)
    \<and> duty_floor default_policy Fan \<le> Fin 25 \<and> Fin 25 \<le> Fin 100"
proof -
  have v: "decision_value (check_duty default_policy Fan (Fin 5) (Some (Fin 40)) (Some (Fin 50)))
      = Some (Fin 25)"
    by (simp add: check_duty_def emergency_override_def is_emergency_def duty_floor_def Let_def
        default_policy_def)
  from gate_keeps_floor [OF default_policy_sane this] v show ?thesis by simp
qed

text \<open>A pump can never be stopped: after sanitising, every duty the gate lets through for a
  pump is at least 10 %, with the safety layer's master switch and the generic fan minimum
  on or off.\<close>
theorem pump_never_stopped:
  assumes "no_nan p" and "decision_value (check_duty (sanitise p) Pump r cur hot) = Some v"
  shows "Fin 10 \<le> v"
proof -
  have s: "sane (sanitise p)" using assms(1) by (rule sanitise_sane)
  obtain x where x: "duty_floor (sanitise p) Pump = Fin x" "10 \<le> x"
    using duty_floor_range [OF s, of Pump] by metis
  have "is_finite r" using assms(2) by (cases "is_finite r") (simp_all add: check_duty_def)
  then obtain q where q: "r = Fin q" by (auto simp: is_finite_iff)
  have "duty_floor (sanitise p) Pump \<le> v"
  proof (cases "emergency_override (sanitise p) hot")
    case None
    from check_duty_normal [OF s this, of Pump q cur] assms(2) show ?thesis by (auto simp: q)
  next
    case (Some d)
    obtain y where "emergency_duty (sanitise p) Pump = Fin y" "duty_floor (sanitise p) Pump \<le> Fin y"
      using s by (rule emergency_duty_range)
    with check_duty_emergency [OF s Some, of Pump q cur] assms(2) show ?thesis
      by (auto simp: q intro: f64_le_trans)
  qed
  with x show ?thesis by (auto intro: f64_le_trans [of "Fin 10" "Fin x"])
qed

definition relaxed_policy :: safety_policy where
  "relaxed_policy = default_policy\<lparr>sp_enabled := False, sp_require_min_duty := False,
     sp_min_duty_percent := Fin 0, sp_pump_min_duty_percent := Fin 0\<rparr>"

theorem pump_never_stopped_witness:
  "decision_value (check_duty (sanitise relaxed_policy) Pump (Fin 0) None None) = Some (Fin 10)
    \<and> Fin 10 \<le> Fin 10"
proof -
  have "no_nan relaxed_policy" by (simp add: no_nan_def relaxed_policy_def default_policy_def)
  moreover have v:
    "decision_value (check_duty (sanitise relaxed_policy) Pump (Fin 0) None None) = Some (Fin 10)"
    by (simp add: check_duty_def emergency_override_def duty_floor_def sanitise_def Let_def
        relaxed_policy_def default_policy_def fclamp_def)
  ultimately have "Fin 10 \<le> Fin 10" by (rule pump_never_stopped)
  with v show ?thesis by blast
qed

text \<open>The gate refuses a write exactly when the requested duty is not a finite number.\<close>
theorem gate_blocks_exactly: "is_blocked (check_duty p t r cur hot) \<longleftrightarrow> \<not> is_finite r"
  by (auto simp: check_duty_def ramp_limit_def Let_def split: option.splits)

text \<open>Sanitising any settings without NaN gives a policy whose limits are all in range, with
  the pump floor and the fail-safe duty above the fan floor; sanitising again changes nothing.\<close>
theorem sanitise_sound:
  assumes "no_nan p"
  shows "sane (sanitise p) \<and> sanitise (sanitise p) = sanitise p"
  using sanitise_sane [OF assms] sanitise_id by blast

theorem sanitise_sound_witness:
  "sane (sanitise relaxed_policy) \<and> sanitise (sanitise relaxed_policy) = sanitise relaxed_policy"
  by (rule sanitise_sound) (simp add: no_nan_def relaxed_policy_def default_policy_def)

text \<open>Ramp limiting never overshoots: outside an emergency, a request at or above the floor is
  written as a duty between the current one and the requested one, in rounded arithmetic.\<close>
theorem ramp_never_overshoots:
  assumes "sane p" and "is_f64 (sp_max_write_delta_percent p)" and "emergency_override p hot = None"
    and "is_dbl r" "r \<le> 100" "duty_floor p t \<le> Fin r" and "is_dbl c" "0 \<le> c" "c \<le> 100"
    and "decision_value (check_duty p t (Fin r) (Some (Fin c)) hot) = Some v"
  shows "Fin (min c r) \<le> v \<and> v \<le> Fin (max c r)"
proof -
  obtain x where x: "duty_floor p t = Fin x" "0 \<le> x"
    using assms(1) by (rule duty_floor_range)
  obtain d where d: "sp_max_write_delta_percent p = Fin d" "0 \<le> d" "is_dbl d"
    using assms(1,2) by (auto elim!: sane_numbers)
  show ?thesis
  proof (cases "0 < d \<and> ramp_limit p (Fin x) (Fin r) (Fin c) \<noteq> None")
    case True
    then obtain n where "ramp_limit p (Fin x) (Fin r) (Fin c) = Some (Allow v n)"
      using assms(3,6,10) x d
      by (auto simp: check_duty_def Let_def ramp_limit_value [OF d(1)] split: if_splits)
    then show ?thesis
      using assms x d by (intro ramp_limit_between [OF d, of r x c]) auto
  next
    case False
    then have "v = Fin r"
      using assms(3,6,10) x d by (auto simp: check_duty_def Let_def split: if_splits)
    then show ?thesis by simp
  qed
qed

definition ramped_policy :: safety_policy where
  "ramped_policy = default_policy\<lparr>sp_max_write_delta_percent := Fin 10\<rparr>"

theorem ramp_never_overshoots_witness:
  "decision_value (check_duty ramped_policy Fan (Fin 90) (Some (Fin 40)) None) = Some (Fin 50)
    \<and> Fin (min 40 90) \<le> Fin 50 \<and> Fin 50 \<le> Fin (max 40 90)"
proof -
  have dbl: "is_dbl 10" "is_dbl 40" "is_dbl 50" "is_dbl 90" by (rule is_dbl_numeral; simp)+
  note defs = ramped_policy_def default_policy_def
  have v: "decision_value (check_duty ramped_policy Fan (Fin 90) (Some (Fin 40)) None) = Some (Fin 50)"
    using dbl by (simp add: check_duty_def emergency_override_def duty_floor_def ramp_limit_def
        Let_def defs Fin_minus Fin_plus Fin_times rnd_exact fclamp_def)
  have "Fin (min 40 90) \<le> Fin 50 \<and> Fin 50 \<le> Fin (max 40 90)"
  proof (rule ramp_never_overshoots [of ramped_policy None 90 Fan 40, OF _ _ _ _ _ _ _ _ _ v])
    show "sane ramped_policy" by (simp add: sane_def defs)
    show "is_f64 (sp_max_write_delta_percent ramped_policy)" "is_dbl 90" "is_dbl 40"
      using dbl by (simp_all add: defs)
    show "duty_floor ramped_policy Fan \<le> Fin 90" by (simp add: duty_floor_def defs)
  qed (simp_all add: emergency_override_def)
  with v show ?thesis by blast
qed

end
