(* ===== verification/Config.thy ===== *)
theory Config
  imports Safety "HOL-Library.Char_ord" "HOL-Library.List_Lexorder"
begin

section \<open>Settings\<close>

text \<open>
  \<open>crates/ohm-runtime/src/config.rs\<close>: what the user can configure, the bounds applied after
  loading a hand-edited file, and the selection of adapters and devices. Ids are compared as
  Rust compares strings, byte by byte. The adapters' private configuration bags are opaque JSON
  that no modelled code reads; they are left out of the record.
\<close>

datatype log_level = LogError | LogWarn | LogInfo | LogDebug | LogTrace

datatype theme = SystemTheme | DarkTheme | LightTheme

record settings =
  st_polling_interval_ms :: nat
  st_discovery_interval_ms :: nat
  st_history_points :: nat
  st_log_level :: log_level
  st_start_with_windows :: bool
  st_minimize_to_tray :: bool
  st_start_minimized :: bool
  st_close_to_tray :: bool
  st_theme :: theme
  st_experimental_features :: bool
  st_developer_mode :: bool
  st_automation_enabled :: bool
  st_dry_run :: bool
  st_enable_mock_protocol_device :: bool
  st_disabled_adapters :: "string list"
  st_disabled_devices :: "string list"
  st_safety :: safety_policy

definition default_settings :: settings where
  "default_settings = \<lparr>st_polling_interval_ms = 1000, st_discovery_interval_ms = 5000,
     st_history_points = 180, st_log_level = LogInfo, st_start_with_windows = False,
     st_minimize_to_tray = True, st_start_minimized = False, st_close_to_tray = True,
     st_theme = DarkTheme, st_experimental_features = False, st_developer_mode = False,
     st_automation_enabled = True, st_dry_run = False, st_enable_mock_protocol_device = False,
     st_disabled_adapters = [], st_disabled_devices = [], st_safety = default_policy\<rparr>"

definition MIN_POLLING_INTERVAL_MS :: nat where "MIN_POLLING_INTERVAL_MS = 100"
definition MAX_POLLING_INTERVAL_MS :: nat where "MAX_POLLING_INTERVAL_MS = 60000"
definition MIN_DISCOVERY_INTERVAL_MS :: nat where "MIN_DISCOVERY_INTERVAL_MS = 500"
definition MAX_DISCOVERY_INTERVAL_MS :: nat where "MAX_DISCOVERY_INTERVAL_MS = 600000"
definition MAX_HISTORY_POINTS :: nat where "MAX_HISTORY_POINTS = 10000"

lemmas setting_bounds [const_simps] =
  MIN_POLLING_INTERVAL_MS_def MAX_POLLING_INTERVAL_MS_def MIN_DISCOVERY_INTERVAL_MS_def
  MAX_DISCOVERY_INTERVAL_MS_def MAX_HISTORY_POINTS_def

text \<open>\<open>u64::clamp\<close> with the constant bounds above, and \<open>sort\<close> followed by \<open>dedup\<close>.\<close>

definition nclamp :: "nat \<Rightarrow> nat \<Rightarrow> nat \<Rightarrow> nat" where
  "nclamp n lo hi = (if n < lo then lo else if hi < n then hi else n)"

definition normalised :: "string list \<Rightarrow> string list" where
  "normalised xs = remdups_adj (sort xs)"

text \<open>\<open>sanitise(&mut self) -> bool\<close>; a NaN limit differs from itself, so it always counts as changed.\<close>

definition sanitise_settings :: "settings \<Rightarrow> settings \<times> bool" where
  "sanitise_settings s0 =
    (let s1 = s0\<lparr>st_polling_interval_ms :=
           nclamp (st_polling_interval_ms s0) MIN_POLLING_INTERVAL_MS MAX_POLLING_INTERVAL_MS\<rparr>;
         s2 = s1\<lparr>st_discovery_interval_ms :=
           nclamp (st_discovery_interval_ms s1) MIN_DISCOVERY_INTERVAL_MS MAX_DISCOVERY_INTERVAL_MS\<rparr>;
         s3 = (if st_discovery_interval_ms s2 < st_polling_interval_ms s2
               then s2\<lparr>st_discovery_interval_ms := st_polling_interval_ms s2\<rparr> else s2);
         s4 = s3\<lparr>st_history_points := nclamp (st_history_points s3) 10 MAX_HISTORY_POINTS\<rparr>;
         s5 = s4\<lparr>st_safety := sanitise (st_safety s4)\<rparr>;
         s6 = s5\<lparr>st_disabled_adapters := normalised (st_disabled_adapters s5)\<rparr>;
         s7 = s6\<lparr>st_disabled_devices := normalised (st_disabled_devices s6)\<rparr>
     in (s7, \<not> (s7 = s0 \<and> no_nan (st_safety s0))))"

definition adapter_enabled :: "settings \<Rightarrow> string \<Rightarrow> bool" where
  "adapter_enabled s i \<longleftrightarrow> \<not> list_ex (\<lambda>a. a = i) (st_disabled_adapters s)"

definition device_enabled :: "settings \<Rightarrow> string \<Rightarrow> bool" where
  "device_enabled s i \<longleftrightarrow> \<not> list_ex (\<lambda>d. d = i) (st_disabled_devices s)"

definition select_id :: "string \<Rightarrow> bool \<Rightarrow> string list \<Rightarrow> string list" where
  "select_id i enabled xs =
    (let ys = filter (\<lambda>d. d \<noteq> i) xs in if enabled then ys else sort (ys @ [i]))"

definition settings_set_device :: "string \<Rightarrow> bool \<Rightarrow> settings \<Rightarrow> settings" where
  "settings_set_device i enabled s =
     s\<lparr>st_disabled_devices := select_id i enabled (st_disabled_devices s)\<rparr>"

definition settings_set_adapter :: "string \<Rightarrow> bool \<Rightarrow> settings \<Rightarrow> settings" where
  "settings_set_adapter i enabled s =
     s\<lparr>st_disabled_adapters := select_id i enabled (st_disabled_adapters s)\<rparr>"

subsection \<open>Properties\<close>

definition sane_settings :: "settings \<Rightarrow> bool" where
  "sane_settings s \<longleftrightarrow> sane (st_safety s)
     \<and> 100 \<le> st_polling_interval_ms s \<and> st_polling_interval_ms s \<le> 60000
     \<and> st_polling_interval_ms s \<le> st_discovery_interval_ms s
     \<and> 500 \<le> st_discovery_interval_ms s \<and> st_discovery_interval_ms s \<le> 600000
     \<and> 10 \<le> st_history_points s \<and> st_history_points s \<le> 10000
     \<and> sorted (st_disabled_devices s) \<and> distinct (st_disabled_devices s)
     \<and> sorted (st_disabled_adapters s) \<and> distinct (st_disabled_adapters s)"

lemma distinct_remdups_adj_sorted: "sorted xs \<Longrightarrow> distinct (remdups_adj xs)" for xs :: "string list"
  by (induction xs rule: remdups_adj.induct) auto

lemma normalised_ok: "sorted (normalised xs) \<and> distinct (normalised xs) \<and> set (normalised xs) = set xs"
  by (simp add: normalised_def sorted_remdups_adj distinct_remdups_adj_sorted)

lemma normalised_id: "sorted xs \<Longrightarrow> distinct xs \<Longrightarrow> normalised xs = xs"
  by (simp add: normalised_def sorted_sort_id remdups_adj_distinct)

lemma select_id_ok:
  "sorted xs \<Longrightarrow> distinct xs \<Longrightarrow> sorted (select_id i en xs) \<and> distinct (select_id i en xs)"
  by (simp add: select_id_def Let_def sorted_wrt_filter)

lemma select_id_set: "set (select_id i en xs) = (if en then set xs - {i} else insert i (set xs))"
  by (auto simp: select_id_def Let_def)

lemma device_enabled_set:
  "device_enabled (settings_set_device i en s) j = (if j = i then en else device_enabled s j)"
  by (auto simp: device_enabled_def settings_set_device_def list_ex_iff select_id_set)

lemma sanitise_settings_sane:
  assumes "no_nan (st_safety s)"
  shows "sane_settings (fst (sanitise_settings s))"
  using normalised_ok [of "st_disabled_devices s"] normalised_ok [of "st_disabled_adapters s"]
  by (simp add: sanitise_settings_def sane_settings_def Let_def sanitise_sane assms nclamp_def
      const_simps)

lemma sane_settings_id: "sane_settings s \<Longrightarrow> sanitise_settings s = (s, False)"
  by (cases s) (auto simp: sanitise_settings_def sane_settings_def Let_def sanitise_id sane_no_nan
      nclamp_def const_simps normalised_id)

lemma sane_settings_set_device:
  "sane_settings s \<Longrightarrow> sane_settings (settings_set_device i en s)"
  by (simp add: sane_settings_def settings_set_device_def select_id_ok)

end
