(* ===== verification/Device_Table.thy ===== *)
theory Device_Table
  imports Config
begin

section \<open>The device table and the capability registry\<close>

text \<open>
  \<open>crates/ohm-runtime/src/device_table.rs\<close>: what is attached, who owns it, whether the user
  enabled it; and \<open>registry.rs\<close>: resolving a \<open>(device, capability)\<close> pair. The table's
  \<open>BTreeMap\<close> is the list of its records in id order, so iteration is the list itself. The
  state projected into views is an argument, \<open>latest\<close>.
\<close>

datatype device_status = Status_Online | Status_Offline | Status_Disabled | Status_Degraded

fun device_status_str :: "device_status \<Rightarrow> string" where
  "device_status_str Status_Online = ''online''"
| "device_status_str Status_Offline = ''offline''"
| "device_status_str Status_Disabled = ''disabled''"
| "device_status_str Status_Degraded = ''degraded''"

record device_record =
  dr_device :: device
  dr_adapter :: string
  dr_enabled :: bool
  dr_status :: device_status
  dr_first_seen_ms :: int
  dr_last_seen_ms :: int
  dr_offline_reason :: "unavailable_reason option"

type_synonym device_table = "device_record list"

definition dr_id :: "device_record \<Rightarrow> string" where
  "dr_id r = dev_id (dr_device r)"

definition is_online :: "device_record \<Rightarrow> bool" where
  "is_online r \<longleftrightarrow> dr_status r = Status_Online \<or> dr_status r = Status_Degraded"

datatype upsert_result = Added | Updated | Unchanged

record reconcile_diff =
  rd_added :: "string list"
  rd_removed :: "(string \<times> string \<times> unavailable_reason) list"
  rd_updated :: "string list"

definition empty_diff :: reconcile_diff where
  "empty_diff = \<lparr>rd_added = [], rd_removed = [], rd_updated = []\<rparr>"

definition diff_is_empty :: "reconcile_diff \<Rightarrow> bool" where
  "diff_is_empty d \<longleftrightarrow> rd_added d = [] \<and> rd_removed d = [] \<and> rd_updated d = []"

subsection \<open>Queries\<close>

definition table_get :: "device_table \<Rightarrow> string \<Rightarrow> device_record option" where
  "table_get t i = List.find (\<lambda>r. dr_id r = i) t"

definition table_ids :: "device_table \<Rightarrow> string list" where
  "table_ids t = map dr_id t"

definition table_contains :: "device_table \<Rightarrow> string \<Rightarrow> bool" where
  "table_contains t i \<longleftrightarrow> table_get t i \<noteq> None"

definition by_adapter :: "device_table \<Rightarrow> string \<Rightarrow> device_record list" where
  "by_adapter t a = filter (\<lambda>r. dr_adapter r = a) t"

definition of_type :: "device_table \<Rightarrow> device_type \<Rightarrow> device_record list" where
  "of_type t ty = filter (\<lambda>r. dev_type (dr_device r) = ty) t"

definition having_capability :: "device_table \<Rightarrow> string \<Rightarrow> bool \<Rightarrow> device_record list" where
  "having_capability t c writable_only = filter (\<lambda>r.
     case dev_capability (dr_device r) c of
       Some cap \<Rightarrow> \<not> writable_only \<or> cap_writable cap | None \<Rightarrow> False) t"

definition controllable :: "device_table \<Rightarrow> device_record list" where
  "controllable t = filter (\<lambda>r. is_controllable (dr_device r)) t"

definition cooling_devices :: "device_table \<Rightarrow> device_record list" where
  "cooling_devices t = filter (\<lambda>r. dev_type (dr_device r) = Fan \<or> dev_type (dr_device r) = Pump) t"

definition releasable_devices :: "device_table \<Rightarrow> device_record list" where
  "releasable_devices t = filter (\<lambda>r.
     list_ex (\<lambda>c. is_duty_control c \<and> cap_writable c) (dev_capabilities (dr_device r))) t"

definition poll_targets :: "device_table \<Rightarrow> device list" where
  "poll_targets t = map dr_device (filter dr_enabled t)"

text \<open>\<open>units_map\<close>: a hash map keyed by the capability id alone, so a later device overwrites an earlier one.\<close>

definition units_map :: "device_table \<Rightarrow> string \<rightharpoonup> unit_kind" where
  "units_map t = fold (\<lambda>r m. fold (\<lambda>c m. m(cap_id c \<mapsto> cap_unit c))
     (dev_capabilities (dr_device r)) m) t Map.empty"

subsection \<open>Updates\<close>

text \<open>\<open>Device\<close>'s derived \<open>==\<close>: equal in every field, where a NaN bound equals nothing.\<close>

definition cap_comparable :: "capability \<Rightarrow> bool" where
  "cap_comparable c \<longleftrightarrow> cap_min c \<noteq> Some NaN \<and> cap_max c \<noteq> Some NaN \<and> cap_step c \<noteq> Some NaN"

definition device_eq :: "device \<Rightarrow> device \<Rightarrow> bool" where
  "device_eq a b \<longleftrightarrow> a = b \<and> list_all cap_comparable (dev_capabilities a)"

definition seen_again :: "device \<Rightarrow> int \<Rightarrow> device_record \<Rightarrow> device_record" where
  "seen_again d now r =
     (let r = r\<lparr>dr_last_seen_ms := now, dr_offline_reason := None\<rparr>;
          r = (if dr_status r = Status_Offline then r\<lparr>dr_status := Status_Online\<rparr> else r)
      in if device_eq (dr_device r) d then r else r\<lparr>dr_device := d\<rparr>)"

definition new_record :: "device \<Rightarrow> bool \<Rightarrow> int \<Rightarrow> device_record" where
  "new_record d enabled now = \<lparr>dr_device = d, dr_adapter = dev_adapter d, dr_enabled = enabled,
     dr_status = (if enabled then Status_Online else Status_Disabled),
     dr_first_seen_ms = now, dr_last_seen_ms = now, dr_offline_reason = None\<rparr>"

definition table_upsert :: "device_table \<Rightarrow> device \<Rightarrow> bool \<Rightarrow> int \<Rightarrow> device_table \<times> upsert_result" where
  "table_upsert t d enabled now =
    (case table_get t (dev_id d) of
       Some existing \<Rightarrow>
         (sorted_put dr_id (seen_again d now existing) t,
          if device_eq (dr_device existing) d then Unchanged else Updated)
     | None \<Rightarrow>
         (sorted_put dr_id (new_record d enabled now) t, Added))"

definition table_remove :: "device_table \<Rightarrow> string \<Rightarrow> device_table" where
  "table_remove t i = remove_key dr_id i t"

definition enable_record :: "bool \<Rightarrow> device_record \<Rightarrow> device_record" where
  "enable_record enabled r =
    (let r = r\<lparr>dr_enabled := enabled\<rparr> in
     if \<not> enabled then r\<lparr>dr_status := Status_Disabled\<rparr>
     else if dr_status r = Status_Disabled then r\<lparr>dr_status := Status_Online\<rparr> else r)"

definition table_set_enabled :: "device_table \<Rightarrow> string \<Rightarrow> bool \<Rightarrow> device_table result" where
  "table_set_enabled t i enabled =
    (case table_get t i of None \<Rightarrow> Inl (DeviceNotFound i)
     | Some _ \<Rightarrow> Inr (update_key dr_id i (enable_record enabled) t))"

definition status_record ::
    "device_status \<Rightarrow> unavailable_reason option \<Rightarrow> int \<Rightarrow> device_record \<Rightarrow> device_record" where
  "status_record st reason now r =
    r\<lparr>dr_status := (if dr_enabled r then st else Status_Disabled), dr_offline_reason := reason,
      dr_last_seen_ms := now\<rparr>"

definition table_set_status :: "device_table \<Rightarrow> string \<Rightarrow> device_status
    \<Rightarrow> unavailable_reason option \<Rightarrow> int \<Rightarrow> device_table" where
  "table_set_status t i st reason now = update_key dr_id i (status_record st reason now) t"

definition mark_offline :: "device_table \<Rightarrow> string \<Rightarrow> unavailable_reason \<Rightarrow> int \<Rightarrow> device_table" where
  "mark_offline t i reason now = table_set_status t i Status_Offline (Some reason) now"

text \<open>\<open>reconcile\<close>: the loop over what was discovered, then the devices that are gone.\<close>

fun upsert_all :: "settings \<Rightarrow> int \<Rightarrow> device list \<Rightarrow> device_table \<times> reconcile_diff
    \<Rightarrow> device_table \<times> reconcile_diff" where
  "upsert_all s now [] td = td"
| "upsert_all s now (d # ds) (t, diff) =
    (case table_upsert t d (device_enabled s (dev_id d)) now of
       (t', Added) \<Rightarrow> upsert_all s now ds (t', diff\<lparr>rd_added := rd_added diff @ [dev_id d]\<rparr>)
     | (t', Updated) \<Rightarrow> upsert_all s now ds (t', diff\<lparr>rd_updated := rd_updated diff @ [dev_id d]\<rparr>)
     | (t', Unchanged) \<Rightarrow> upsert_all s now ds (t', diff))"

definition gone :: "string \<Rightarrow> string list \<Rightarrow> device_table \<Rightarrow> (string \<times> string) list" where
  "gone adapter seen t = map (\<lambda>r. (dr_id r, dev_name (dr_device r)))
     (filter (\<lambda>r. dr_adapter r = adapter \<and> dr_id r \<notin> set seen) t)"

definition reconcile :: "device_table \<Rightarrow> string \<Rightarrow> device list \<Rightarrow> settings \<Rightarrow> int
    \<Rightarrow> device_table \<times> reconcile_diff" where
  "reconcile t adapter discovered s now =
    (let (t, diff) = upsert_all s now discovered (t, empty_diff);
         left = gone adapter (map dev_id discovered) t
     in (fold (\<lambda>(i, _) t. table_remove t i) left t,
         diff\<lparr>rd_removed := rd_removed diff @ map (\<lambda>(i, name). (i, name, NotPresent)) left\<rparr>))"

definition mark_adapter_offline ::
    "device_table \<Rightarrow> string \<Rightarrow> unavailable_reason \<Rightarrow> int \<Rightarrow> device_table" where
  "mark_adapter_offline t adapter reason now =
     fold (\<lambda>i t. mark_offline t i reason now) (map dr_id (by_adapter t adapter)) t"

definition state_status :: "device_state \<Rightarrow> device_status" where
  "state_status s =
    (if \<not> ds_online s then Status_Offline
     else if list_ex (\<lambda>r. \<not> reading_is_ok r) (ds_readings s) then Status_Degraded
     else Status_Online)"

definition apply_state_status :: "device_table \<Rightarrow> device_state \<Rightarrow> int \<Rightarrow> device_table" where
  "apply_state_status t s now = table_set_status t (ds_device s) (state_status s) None now"

subsection \<open>Views\<close>

record device_view =
  dv_device :: device
  dv_enabled :: bool
  dv_status :: device_status
  dv_state :: "device_state option"
  dv_adapter :: string
  dv_first_seen_ms :: int
  dv_last_seen_ms :: int

definition view_of :: "(string \<Rightarrow> device_state option) \<Rightarrow> device_record \<Rightarrow> device_view" where
  "view_of latest r = \<lparr>dv_device = dr_device r, dv_enabled = dr_enabled r, dv_status = dr_status r,
     dv_state = latest (dr_id r), dv_adapter = dr_adapter r,
     dv_first_seen_ms = dr_first_seen_ms r, dv_last_seen_ms = dr_last_seen_ms r\<rparr>"

definition views :: "(string \<Rightarrow> device_state option) \<Rightarrow> device_table \<Rightarrow> device_view list" where
  "views latest t = map (view_of latest) t"

definition view_controllable :: "device_view \<Rightarrow> bool" where
  "view_controllable v \<longleftrightarrow> is_controllable (dv_device v) \<and> dv_enabled v"

subsection \<open>The capability registry\<close>

record capability_ref =
  cr_device_id :: string
  cr_device_name :: string
  cr_device_type :: device_type
  cr_adapter :: string
  cr_capability :: capability

definition cr_qualified_id :: "capability_ref \<Rightarrow> string" where
  "cr_qualified_id r = cr_device_id r @ ''/'' @ cap_id (cr_capability r)"

definition is_source :: "capability \<Rightarrow> bool" where
  "is_source c \<longleftrightarrow> cap_kind c = Sensor \<and> cap_readable c"

definition is_target :: "capability \<Rightarrow> bool" where
  "is_target c \<longleftrightarrow> cap_kind c = Actuator \<and> cap_writable c"

definition is_temperature_source :: "capability \<Rightarrow> bool" where
  "is_temperature_source c \<longleftrightarrow> is_source c \<and> is_temperature (cap_unit c)"

definition is_cooling_target :: "capability \<Rightarrow> bool" where
  "is_cooling_target c \<longleftrightarrow> is_target c \<and> is_duty_unit (cap_unit c)"

definition collect :: "(device_record \<Rightarrow> capability \<Rightarrow> bool) \<Rightarrow> device_table \<Rightarrow> capability_ref list" where
  "collect P t = sort_key cr_qualified_id (concat (map (\<lambda>r.
     map (\<lambda>c. \<lparr>cr_device_id = dr_id r, cr_device_name = dev_name (dr_device r),
        cr_device_type = dev_type (dr_device r), cr_adapter = dr_adapter r, cr_capability = c\<rparr>)
       (filter (P r) (dev_capabilities (dr_device r)))) t))"

definition registry_sources :: "device_table \<Rightarrow> capability_ref list" where
  "registry_sources = collect (\<lambda>r c. dr_enabled r \<and> is_source c \<and> cap_unit c \<noteq> TextUnit)"

definition registry_targets :: "device_table \<Rightarrow> capability_ref list" where
  "registry_targets = collect (\<lambda>r c. dr_enabled r \<and> is_target c)"

definition temperature_sources :: "device_table \<Rightarrow> capability_ref list" where
  "temperature_sources = collect (\<lambda>r c. dr_enabled r \<and> is_temperature_source c)"

definition cooling_targets :: "device_table \<Rightarrow> capability_ref list" where
  "cooling_targets = collect (\<lambda>r c. dr_enabled r \<and> is_cooling_target c)"

definition resolve :: "device_table \<Rightarrow> string \<Rightarrow> string \<Rightarrow> (device_record \<times> capability) result" where
  "resolve t d c =
    and_then (ok_or (DeviceNotFound d) (table_get t d)) (\<lambda>r.
    and_then (ok_or (CapabilityNotFound d c) (dev_capability (dr_device r) c)) (\<lambda>cap.
    Inr (r, cap)))"

definition resolve_source :: "device_table \<Rightarrow> string \<Rightarrow> string \<Rightarrow> (device_record \<times> capability) result" where
  "resolve_source t d c =
    and_then (resolve t d c) (\<lambda>(r, cap).
    if \<not> is_source cap then Inl (AutomationError
      [Txt ''`'', Txt d, Txt ''/'', Txt c, Txt ''` is a '', Txt (cap_kind_str (cap_kind cap)),
       Txt '' capability and cannot be used as a source''])
    else Inr (r, cap))"

definition resolve_target :: "device_table \<Rightarrow> string \<Rightarrow> string \<Rightarrow> (device_record \<times> capability) result" where
  "resolve_target t d c =
    and_then (resolve t d c) (\<lambda>(r, cap).
    if \<not> cap_writable cap then Inl (CapabilityNotWritable d c) else Inr (r, cap))"

datatype binding_role = TemperatureSource | SensorRole | ActuatorRole | CoolingActuator

fun binding_role_str :: "binding_role \<Rightarrow> string" where
  "binding_role_str TemperatureSource = ''temperature_source''"
| "binding_role_str SensorRole = ''sensor''"
| "binding_role_str ActuatorRole = ''actuator''"
| "binding_role_str CoolingActuator = ''cooling_actuator''"

fun validate_binding :: "device_table \<Rightarrow> string \<Rightarrow> string \<Rightarrow> binding_role \<Rightarrow> unit result" where
  "validate_binding t d c TemperatureSource =
    and_then (resolve_source t d c) (\<lambda>(r, cap).
    if \<not> is_temperature (cap_unit cap) then Inl (AutomationError
      [Txt ''`'', Txt d, Txt ''/'', Txt c, Txt ''` is a '', Txt (unit_str (cap_unit cap)),
       Txt '' sensor; a cooling curve needs a temperature''])
    else Inr ())"
| "validate_binding t d c SensorRole = and_then (resolve_source t d c) (\<lambda>_. Inr ())"
| "validate_binding t d c ActuatorRole = and_then (resolve_target t d c) (\<lambda>_. Inr ())"
| "validate_binding t d c CoolingActuator =
    and_then (resolve_target t d c) (\<lambda>(r, cap).
    if \<not> is_duty_unit (cap_unit cap) then Inl (AutomationError
      [Txt ''`'', Txt d, Txt ''/'', Txt c, Txt ''` is not a duty control ('',
       Txt (unit_str (cap_unit cap)), Txt '')''])
    else Inr ())"

definition controllable_cooling_count :: "device_table \<Rightarrow> nat" where
  "controllable_cooling_count t = length (cooling_targets t)"

definition registry_describe :: "device_table \<Rightarrow> message" where
  "registry_describe t = [Dec (int (length (temperature_sources t))), Txt '' temperature sources, '',
     Dec (int (length (cooling_targets t))), Txt '' controllable outputs'']"

definition is_fan_reading :: "capability \<Rightarrow> bool" where
  "is_fan_reading c \<longleftrightarrow> cap_kind c = Sensor \<and> is_rotational_speed (cap_unit c)"


subsection \<open>Properties\<close>

text \<open>The table is a keyed collection of records.\<close>

interpretation table: keyed_collection table_get "sorted_put dr_id" dr_id
  by unfold_locales (simp_all add: table_get_def find_sorted_put)

lemma dr_id_update [simp]:
  "dr_id (enable_record en r) = dr_id r" "dr_id (status_record st w now r) = dr_id r"
  by (simp_all add: dr_id_def enable_record_def status_record_def Let_def)

lemma new_record_simps [simp]: "dr_id (new_record d en now) = dev_id d" "dr_device (new_record d en now) = d"
  by (simp_all add: dr_id_def new_record_def)

lemma dr_id_seen_again [simp]: "dev_id d = dr_id r \<Longrightarrow> dr_id (seen_again d now r) = dr_id r"
  by (simp add: dr_id_def seen_again_def Let_def)

lemma table_get_id: "table_get t i = Some r \<Longrightarrow> r \<in> set t \<and> dr_id r = i"
  unfolding table_get_def by (rule find_key_Some)

lemma table_get_member: "sorted_keys dr_id t \<Longrightarrow> r \<in> set t \<Longrightarrow> table_get t (dr_id r) = Some r"
  unfolding table_get_def by (rule find_distinct_key [OF sorted_keys_distinct])

lemma table_get_remove: "table_get (table_remove t i) j = (if j = i then None else table_get t j)"
  by (simp add: table_get_def table_remove_def find_remove_key)

lemma table_get_status:
  "table_get (table_set_status t i st w now) j =
     map_option (\<lambda>r. if j = i then status_record st w now r else r) (table_get t j)"
  by (simp add: table_get_def table_set_status_def find_update_key)

text \<open>Well-formed: ids in strict order, and a device shows as disabled exactly when it is.\<close>

definition record_ok :: "device_record \<Rightarrow> bool" where
  "record_ok r \<longleftrightarrow> (dr_enabled r \<longleftrightarrow> dr_status r \<noteq> Status_Disabled)"

definition table_ok :: "device_table \<Rightarrow> bool" where
  "table_ok t \<longleftrightarrow> sorted_keys dr_id t \<and> list_all record_ok t"

lemma record_ok_put: "list_all record_ok t \<Longrightarrow> record_ok r \<Longrightarrow> list_all record_ok (sorted_put dr_id r t)"
  by (auto simp: list_all_iff dest: in_sorted_put)

lemma table_ok_put: "table_ok t \<Longrightarrow> record_ok r \<Longrightarrow> table_ok (sorted_put dr_id r t)"
  by (simp add: table_ok_def sorted_keys_put record_ok_put)

lemma table_ok_get: "table_ok t \<Longrightarrow> table_get t i = Some r \<Longrightarrow> record_ok r"
  by (auto simp: table_ok_def list_all_iff dest: table_get_id)

lemma record_ok_seen_again: "record_ok r \<Longrightarrow> record_ok (seen_again d now r)"
  by (auto simp: record_ok_def seen_again_def Let_def)

lemma table_upsert_ok: "table_ok t \<Longrightarrow> table_ok (fst (table_upsert t d en now))"
  by (auto simp: table_upsert_def split: option.split
      intro!: table_ok_put record_ok_seen_again dest: table_ok_get) (simp add: record_ok_def new_record_def)

lemma table_ok_update:
  "table_ok t \<Longrightarrow> (\<And>r. dr_id (f r) = dr_id r) \<Longrightarrow> (\<And>r. record_ok r \<Longrightarrow> record_ok (f r))
     \<Longrightarrow> table_ok (update_key dr_id i f t)"
  by (auto simp: table_ok_def sorted_keys_update list_all_iff in_update_key)

lemma table_set_enabled_ok:
  "table_ok t \<Longrightarrow> table_set_enabled t i en = Inr t' \<Longrightarrow> table_ok t'"
  by (auto simp: table_set_enabled_def record_ok_def enable_record_def Let_def dr_id_def
      split: option.splits intro!: table_ok_update)

lemma table_set_status_ok:
  "table_ok t \<Longrightarrow> st \<noteq> Status_Disabled \<Longrightarrow> table_ok (table_set_status t i st w now)"
  by (auto simp: table_set_status_def record_ok_def status_record_def dr_id_def intro!: table_ok_update)

lemma apply_state_status_ok: "table_ok t \<Longrightarrow> table_ok (apply_state_status t s now)"
  by (simp add: apply_state_status_def state_status_def table_set_status_ok)

lemma mark_offline_ok: "table_ok t \<Longrightarrow> table_ok (mark_offline t i w now)"
  by (simp add: mark_offline_def table_set_status_ok)

lemma fold_table_ok: "(\<And>x t. table_ok t \<Longrightarrow> table_ok (f x t)) \<Longrightarrow> table_ok t \<Longrightarrow> table_ok (fold f xs t)"
  by (induction xs arbitrary: t) auto

lemma mark_adapter_offline_ok: "table_ok t \<Longrightarrow> table_ok (mark_adapter_offline t a w now)"
  by (simp add: mark_adapter_offline_def fold_table_ok mark_offline_ok)

lemma table_remove_ok: "table_ok t \<Longrightarrow> table_ok (table_remove t i)"
  by (simp add: table_ok_def table_remove_def sorted_keys_remove list_all_iff)
    (simp add: remove_key_def)

lemma upsert_all_ok: "table_ok t \<Longrightarrow> table_ok (fst (upsert_all s now ds (t, diff)))"
proof (induction ds arbitrary: t diff)
  case (Cons d ds)
  then show ?case
    using table_upsert_ok [of t d "device_enabled s (dev_id d)" now]
    by (auto split: prod.split upsert_result.split)
qed simp

lemma reconcile_ok: "table_ok t \<Longrightarrow> table_ok (fst (reconcile t a ds s now))"
  using upsert_all_ok [of t s now ds empty_diff]
  by (auto simp: reconcile_def Let_def split_def intro!: fold_table_ok table_remove_ok)

text \<open>What a discovery leaves under an id it reported.\<close>

lemma table_get_upsert_other:
  "i \<noteq> dev_id d \<Longrightarrow> table_get (fst (table_upsert t d en now)) i = table_get t i"
  by (auto simp: table_upsert_def table.get_put_other dest: table_get_id split: option.split)

definition enabled_after :: "settings \<Rightarrow> device_table \<Rightarrow> string \<Rightarrow> bool" where
  "enabled_after s t i = (case table_get t i of Some r \<Rightarrow> dr_enabled r | None \<Rightarrow> device_enabled s i)"

lemma table_get_upsert_same:
  "\<exists>r. table_get (fst (table_upsert t d (device_enabled s (dev_id d)) now)) (dev_id d) = Some r
     \<and> dr_device r = d \<and> dr_enabled r = enabled_after s t (dev_id d)"
proof (cases "table_get t (dev_id d)")
  case None
  then show ?thesis
    by (simp add: table_upsert_def table_get_def find_sorted_put enabled_after_def)
      (simp add: new_record_def)
next
  case (Some r)
  then have "dr_id (seen_again d now r) = dev_id d" using table_get_id [OF Some] by simp
  moreover have "dr_device (seen_again d now r) = d" "dr_enabled (seen_again d now r) = dr_enabled r"
    by (simp_all add: seen_again_def Let_def device_eq_def)
  ultimately show ?thesis
    using Some table.get_put_same [of "seen_again d now r" t]
    by (simp add: table_upsert_def enabled_after_def)
qed

lemma upsert_all_other:
  "i \<notin> dev_id ` set ds \<Longrightarrow> table_get (fst (upsert_all s now ds (t, diff))) i = table_get t i"
proof (induction ds arbitrary: t diff)
  case (Cons d ds)
  then have "table_get (fst (table_upsert t d (device_enabled s (dev_id d)) now)) i = table_get t i"
    by (simp add: table_get_upsert_other)
  with Cons show ?case by (auto split: prod.split upsert_result.split)
qed simp

lemma upsert_all_same:
  assumes "distinct (map dev_id ds)" and "d \<in> set ds"
  shows "\<exists>r. table_get (fst (upsert_all s now ds (t, diff))) (dev_id d) = Some r
    \<and> dr_device r = d \<and> dr_enabled r = enabled_after s t (dev_id d)"
  using assms
proof (induction ds arbitrary: t diff)
  case (Cons e ds)
  show ?case
  proof (cases "d = e")
    case True
    with Cons.prems have d: "dev_id d \<notin> dev_id ` set ds" by auto
    show ?thesis
      using table_get_upsert_same [of t e s now] upsert_all_other [OF d] True
      by (auto split: prod.split upsert_result.split)
  next
    case False
    with Cons.prems have "dev_id d \<noteq> dev_id e"
      by (metis distinct.simps(2) imageI list.simps(9) list.set_map set_ConsD)
    then have *: "enabled_after s (fst (table_upsert t e (device_enabled s (dev_id e)) now)) (dev_id d)
      = enabled_after s t (dev_id d)"
      by (simp add: enabled_after_def table_get_upsert_other)
    obtain t1 u where u: "table_upsert t e (device_enabled s (dev_id e)) now = (t1, u)" by fastforce
    from * False Cons.prems Cons.IH [of t1] show ?thesis
      by (cases u) (simp_all add: u)
  qed
qed simp

lemma upsert_all_removed:
  "rd_removed (snd (upsert_all s now ds (t, diff))) = rd_removed diff"
  by (induction ds arbitrary: t diff) (auto split: prod.split upsert_result.split)

lemma table_get_remove_all:
  "table_get (fold (\<lambda>(i, _) t. table_remove t i) gs t) j =
     (if j \<in> fst ` set gs then None else table_get t j)"
  by (induction gs arbitrary: t) (auto simp: table_get_remove)

lemma gone_ids:
  "sorted_keys dr_id t \<Longrightarrow> i \<in> fst ` set (gone a seen t) \<longleftrightarrow>
     i \<notin> set seen \<and> (\<exists>r. table_get t i = Some r \<and> dr_adapter r = a)"
  by (force simp: gone_def dest: table_get_id table_get_member)


text \<open>C38. Hotplug: after reconciling one adapter's discovery, every discovered device is in the table
  as described, with the user's choice to disable it kept; of the others, exactly that adapter's
  are gone, and each of them, and nothing else, is reported as removed.\<close>
theorem reconcile_exact:
  assumes "table_ok t" and "distinct (map dev_id ds)" and "reconcile t a ds s now = (t', diff)"
  shows "(\<forall>d \<in> set ds. \<exists>r. table_get t' (dev_id d) = Some r \<and> dr_device r = d
      \<and> dr_enabled r = enabled_after s t (dev_id d))
   \<and> (\<forall>i. i \<notin> dev_id ` set ds \<longrightarrow> table_get t' i = (case table_get t i of
        Some r \<Rightarrow> if dr_adapter r = a then None else Some r | None \<Rightarrow> None))
   \<and> fst ` set (rd_removed diff) = {i. i \<notin> dev_id ` set ds
        \<and> (\<exists>r. table_get t i = Some r \<and> dr_adapter r = a)}"
proof -
  obtain t1 diff1 where u: "upsert_all s now ds (t, empty_diff) = (t1, diff1)" by fastforce
  let ?gone = "gone a (map dev_id ds) t1"
  have t': "t' = fold (\<lambda>(i, _) t. table_remove t i) ?gone t1"
    and diff: "rd_removed diff = rd_removed diff1 @ map (\<lambda>(i, name). (i, name, NotPresent)) ?gone"
    using assms(3) by (auto simp: reconcile_def u Let_def)
  have "table_ok t1" using upsert_all_ok [OF assms(1), of s now ds empty_diff] by (simp add: u)
  then have g: "i \<in> fst ` set ?gone \<longleftrightarrow> i \<notin> dev_id ` set ds
      \<and> (\<exists>r. table_get t1 i = Some r \<and> dr_adapter r = a)" for i
    using gone_ids [of t1] by (simp add: table_ok_def)
  have other: "table_get t1 i = table_get t i" if "i \<notin> dev_id ` set ds" for i
    using upsert_all_other [OF that, of s now t empty_diff] by (simp add: u)
  have 1: "\<exists>r. table_get t' (dev_id d) = Some r \<and> dr_device r = d
      \<and> dr_enabled r = enabled_after s t (dev_id d)" if "d \<in> set ds" for d
    using upsert_all_same [OF assms(2) that, of s now t empty_diff] that g
    by (auto simp: u t' table_get_remove_all)
  have 2: "table_get t' i = (case table_get t i of
        Some r \<Rightarrow> if dr_adapter r = a then None else Some r | None \<Rightarrow> None)"
    if "i \<notin> dev_id ` set ds" for i
    using that g [of i] other [OF that] by (auto simp: t' table_get_remove_all split: option.splits)
  have "rd_removed diff1 = []"
    using upsert_all_removed [of s now ds t empty_diff] by (simp add: u) (simp add: empty_diff_def)
  then have "fst ` set (rd_removed diff) = fst ` set ?gone"
    by (simp add: diff image_image split_def)
  then have 3: "fst ` set (rd_removed diff) = {i. i \<notin> dev_id ` set ds
        \<and> (\<exists>r. table_get t i = Some r \<and> dr_adapter r = a)}"
    using other by (simp only: g set_eq_iff mem_Collect_eq) auto
  from 1 2 3 show ?thesis by blast
qed

text \<open>Everything that changes the table, as steps.\<close>

inductive table_reachable :: "device_table \<Rightarrow> bool" where
  empty: "table_reachable []"
| reconciled: "table_reachable t \<Longrightarrow> table_reachable (fst (reconcile t a ds s now))"
| switched: "table_reachable t \<Longrightarrow> table_set_enabled t i en = Inr t' \<Longrightarrow> table_reachable t'"
| polled: "table_reachable t \<Longrightarrow> table_reachable (apply_state_status t state now)"
| poll_failed: "table_reachable t \<Longrightarrow> table_reachable (mark_offline t i w now)"
| adapter_lost: "table_reachable t \<Longrightarrow> table_reachable (mark_adapter_offline t a w now)"

text \<open>In every reachable device table the ids are distinct and in order, and a device shows as
  disabled exactly when the user disabled it, whatever polls and discoveries report.\<close>
theorem table_invariant:
  assumes "table_reachable t"
  shows "sorted_keys dr_id t \<and> distinct (table_ids t)
    \<and> (\<forall>r \<in> set t. dr_status r = Status_Disabled \<longleftrightarrow> \<not> dr_enabled r)"
proof -
  from assms have "table_ok t"
    by induction (auto simp: reconcile_ok table_set_enabled_ok apply_state_status_ok mark_offline_ok
        mark_adapter_offline_ok, simp add: table_ok_def sorted_keys_def)
  then show ?thesis
    by (auto simp: table_ok_def record_ok_def list_all_iff sorted_keys_distinct table_ids_def)
qed

subsection \<open>A table to look at\<close>

definition demo_fan :: device where
  "demo_fan = with_capability (cap_actuator FAN_SPEED_PERCENT ''Speed'' Percent (Fin 0) (Fin 100))
     (new_device ''fan.0'' ''Fan'' Fan SystemTransport ''sys'')"

definition demo_cpu :: device where
  "demo_cpu = with_capability (cap_sensor TEMPERATURE_CORE ''Core'' Celsius)
     (new_device ''cpu.0'' ''CPU'' Cpu SystemTransport ''sys'')"

definition demo_table :: device_table where
  "demo_table = [new_record demo_cpu True 1, new_record demo_fan False 1]"

lemma demo_ids [simp]: "dev_id demo_fan = ''fan.0''" "dev_id demo_cpu = ''cpu.0''"
  by (simp_all add: demo_fan_def demo_cpu_def with_capability_def new_device_def)

lemma demo_table_ok: "table_ok demo_table"
  by (simp add: table_ok_def sorted_keys_def demo_table_def record_ok_def)
    (simp add: new_record_def list_less_def)

lemma demo_table_reconcile:
  "reconcile [] ''sys'' [demo_cpu, demo_fan] default_settings 1
     = ([new_record demo_cpu True 1, new_record demo_fan True 1],
        \<lparr>rd_added = [''cpu.0'', ''fan.0''], rd_removed = [], rd_updated = []\<rparr>)"
  by (simp add: reconcile_def table_upsert_def table_get_def gone_def empty_diff_def
      device_enabled_def default_settings_def list_less_def)

theorem reconcile_exact_witness:
  "\<exists>t' diff. reconcile demo_table ''sys'' [demo_fan] default_settings 2 = (t', diff)
     \<and> table_get t' ''cpu.0'' = None \<and> fst ` set (rd_removed diff) = {''cpu.0''}
     \<and> (\<exists>r. table_get t' ''fan.0'' = Some r \<and> \<not> dr_enabled r)"
proof -
  obtain t' diff where r: "reconcile demo_table ''sys'' [demo_fan] default_settings 2 = (t', diff)"
    by fastforce
  have get: "table_get demo_table i = (if i = ''cpu.0'' then Some (new_record demo_cpu True 1)
      else if i = ''fan.0'' then Some (new_record demo_fan False 1) else None)" for i
    by (simp add: demo_table_def table_get_def)
  have adapter: "dr_adapter (new_record demo_cpu True 1) = ''sys''" "\<not> dr_enabled (new_record demo_fan False 1)"
    by (simp_all add: new_record_def demo_cpu_def with_capability_def new_device_def)
  from reconcile_exact [OF demo_table_ok _ r] r show ?thesis
    by (auto simp: get adapter enabled_after_def split: if_splits)
qed

theorem table_invariant_witness:
  "sorted_keys dr_id (fst (reconcile [] ''sys'' [demo_cpu, demo_fan] default_settings 1))
    \<and> distinct (table_ids (fst (reconcile [] ''sys'' [demo_cpu, demo_fan] default_settings 1)))"
  using table_invariant [OF table_reachable.reconciled [OF table_reachable.empty]] by simp

end
