(* ===== verification/Adapter_Api.thy ===== *)
theory Adapter_Api
  imports Device_Table
begin

section \<open>Adapters and discovery\<close>

text \<open>
  \<open>crates/ohm-adapter-api/src/lib.rs\<close>: the interface every hardware provider implements, and
  \<open>crates/ohm-runtime/src/discovery.rs\<close>: probing and enumerating the registered ones.

  A provider is code the runtime only knows through the trait, so an \<open>adapter\<close> is a record of
  functions over an opaque world \<open>'w\<close> (the hardware): each call returns its result and the
  world after it. Nothing is assumed about them; a theorem that needs a law states it.
\<close>

subsection \<open>Descriptions\<close>

record adapter_capabilities =
  ac_can_write :: bool
  ac_can_control_cooling :: bool
  ac_write_requires_admin :: bool
  ac_hands_back_control_on_shutdown :: bool
  ac_poll_interval_ms :: "nat option"
  ac_discovery_interval_ms :: "nat option"

definition read_only_capabilities :: adapter_capabilities where
  "read_only_capabilities = \<lparr>ac_can_write = False, ac_can_control_cooling = False,
     ac_write_requires_admin = False, ac_hands_back_control_on_shutdown = False,
     ac_poll_interval_ms = None, ac_discovery_interval_ms = None\<rparr>"

definition cooling_control :: adapter_capabilities where
  "cooling_control = \<lparr>ac_can_write = True, ac_can_control_cooling = True,
     ac_write_requires_admin = True, ac_hands_back_control_on_shutdown = False,
     ac_poll_interval_ms = None, ac_discovery_interval_ms = None\<rparr>"

definition hands_back_control :: "adapter_capabilities \<Rightarrow> adapter_capabilities" where
  "hands_back_control c = c\<lparr>ac_hands_back_control_on_shutdown := True\<rparr>"

record adapter_info =
  ai_id :: string
  ai_name :: string
  ai_namespace :: string
  ai_requires_admin :: bool
  ai_supports_hotplug :: bool
  ai_capabilities :: adapter_capabilities
  ai_yields_to :: "string option"

definition adapter_info_new :: "string \<Rightarrow> string \<Rightarrow> string \<Rightarrow> adapter_info" where
  "adapter_info_new i name namespace = \<lparr>ai_id = i, ai_name = name, ai_namespace = namespace,
     ai_requires_admin = False, ai_supports_hotplug = False,
     ai_capabilities = read_only_capabilities, ai_yields_to = None\<rparr>"

datatype adapter_state = NotProbed | Adapter_Available | Adapter_Degraded | Adapter_Unavailable
| Adapter_Failed

fun adapter_state_str :: "adapter_state \<Rightarrow> string" where
  "adapter_state_str NotProbed = ''not_probed''"
| "adapter_state_str Adapter_Available = ''available''"
| "adapter_state_str Adapter_Degraded = ''degraded''"
| "adapter_state_str Adapter_Unavailable = ''unavailable''"
| "adapter_state_str Adapter_Failed = ''error''"

definition state_usable :: "adapter_state \<Rightarrow> bool" where
  "state_usable s \<longleftrightarrow> s = Adapter_Available \<or> s = Adapter_Degraded \<or> s = Adapter_Failed"

record adapter_status =
  as_adapter :: string
  as_state :: adapter_state
  as_reason :: "unavailable_reason option"
  as_detail :: "message option"
  as_checked_at_ms :: int
  as_device_count :: nat

definition status_not_probed :: "string \<Rightarrow> adapter_status" where
  "status_not_probed a = \<lparr>as_adapter = a, as_state = NotProbed, as_reason = None, as_detail = None,
     as_checked_at_ms = 0, as_device_count = 0\<rparr>"

definition status_available :: "string \<Rightarrow> nat \<Rightarrow> int \<Rightarrow> adapter_status" where
  "status_available a n now = \<lparr>as_adapter = a, as_state = Adapter_Available, as_reason = None,
     as_detail = None, as_checked_at_ms = now, as_device_count = n\<rparr>"

definition status_degraded :: "string \<Rightarrow> unavailable_reason \<Rightarrow> message \<Rightarrow> int \<Rightarrow> adapter_status" where
  "status_degraded a r d now = \<lparr>as_adapter = a, as_state = Adapter_Degraded, as_reason = Some r,
     as_detail = Some d, as_checked_at_ms = now, as_device_count = 0\<rparr>"

definition status_unavailable :: "string \<Rightarrow> unavailable_reason \<Rightarrow> message \<Rightarrow> int \<Rightarrow> adapter_status" where
  "status_unavailable a r d now = \<lparr>as_adapter = a, as_state = Adapter_Unavailable,
     as_reason = Some r, as_detail = Some d, as_checked_at_ms = now, as_device_count = 0\<rparr>"

definition status_error :: "string \<Rightarrow> message \<Rightarrow> int \<Rightarrow> adapter_status" where
  "status_error a d now = \<lparr>as_adapter = a, as_state = Adapter_Failed, as_reason = Some ReadError,
     as_detail = Some d, as_checked_at_ms = now, as_device_count = 0\<rparr>"

definition status_usable :: "adapter_status \<Rightarrow> bool" where
  "status_usable s \<longleftrightarrow> state_usable (as_state s)"

subsection \<open>Outcomes of a write\<close>

datatype write_status = Write_Applied | Write_Unconfirmed | Write_Simulated | Write_Rejected

record write_outcome =
  wo_status :: write_status
  wo_applied :: "val option"
  wo_detail :: "message option"

definition outcome_applied :: "val \<Rightarrow> write_outcome" where
  "outcome_applied v = \<lparr>wo_status = Write_Applied, wo_applied = Some v, wo_detail = None\<rparr>"

definition outcome_simulated :: "val \<Rightarrow> message \<Rightarrow> write_outcome" where
  "outcome_simulated v d = \<lparr>wo_status = Write_Simulated, wo_applied = Some v, wo_detail = Some d\<rparr>"

definition outcome_rejected :: "message \<Rightarrow> write_outcome" where
  "outcome_rejected d = \<lparr>wo_status = Write_Rejected, wo_applied = None, wo_detail = Some d\<rparr>"

definition outcome_unconfirmed :: "message \<Rightarrow> write_outcome" where
  "outcome_unconfirmed d = \<lparr>wo_status = Write_Unconfirmed, wo_applied = None, wo_detail = Some d\<rparr>"

definition confirms :: "write_status \<Rightarrow> bool" where
  "confirms s \<longleftrightarrow> s = Write_Applied \<or> s = Write_Simulated"

subsection \<open>Channels taken from their driver\<close>

record taken_control =
  tk_device_id :: string
  tk_original :: "int option"
  tk_original_text :: string

definition is_restorable :: "taken_control \<Rightarrow> bool" where
  "is_restorable t \<longleftrightarrow> tk_original t \<noteq> None"

text \<open>The recorded value is an \<open>i64\<close>.\<close>

definition entry_ok :: "taken_control \<Rightarrow> bool" where
  "entry_ok t \<longleftrightarrow> (case tk_original t of Some v \<Rightarrow> is_i64 v | None \<Rightarrow> True)"

datatype write_access = Permitted | Denied string | Access_Unknown

definition access_permitted :: "write_access \<Rightarrow> bool" where
  "access_permitted a \<longleftrightarrow> a = Permitted"

definition denial :: "write_access \<Rightarrow> string option" where
  "denial a = (case a of Denied why \<Rightarrow> Some why | _ \<Rightarrow> None)"

subsection \<open>The trait\<close>

record 'w adapter =
  ad_info :: adapter_info
  ad_probe :: "'w \<Rightarrow> adapter_status \<times> 'w"
  ad_discover :: "'w \<Rightarrow> device list result \<times> 'w"
  ad_read_all :: "device list \<Rightarrow> 'w \<Rightarrow> (string \<times> device_state result) list \<times> 'w"
  ad_write :: "device \<Rightarrow> capability \<Rightarrow> val \<Rightarrow> 'w \<Rightarrow> write_outcome result \<times> 'w"
  ad_shutdown :: "'w \<Rightarrow> unit result \<times> 'w"
  ad_write_access :: "device \<Rightarrow> capability \<Rightarrow> 'w \<Rightarrow> write_access"
  ad_taken_controls :: "'w \<Rightarrow> taken_control list"
  ad_adopt :: "taken_control list \<Rightarrow> 'w \<Rightarrow> string list \<times> 'w"

definition ad_id :: "'w adapter \<Rightarrow> string" where
  "ad_id a = ai_id (ad_info a)"

text \<open>The trait's defaults: no opinion on permission, nothing taken, nothing adopted; and for
  \<open>read_all\<close> one \<open>read_state\<close> per device, in order.\<close>

definition no_opinion :: "device \<Rightarrow> capability \<Rightarrow> 'w \<Rightarrow> write_access" where
  "no_opinion d c w = Access_Unknown"

definition takes_nothing :: "'w \<Rightarrow> taken_control list" where
  "takes_nothing w = []"

definition adopts_nothing :: "taken_control list \<Rightarrow> 'w \<Rightarrow> string list \<times> 'w" where
  "adopts_nothing ts w = ([], w)"

fun read_serially :: "(device \<Rightarrow> 'w \<Rightarrow> device_state result \<times> 'w) \<Rightarrow> device list \<Rightarrow> 'w
    \<Rightarrow> (string \<times> device_state result) list \<times> 'w" where
  "read_serially read [] w = ([], w)"
| "read_serially read (d # ds) w =
    (let (r, w) = read d w; (rs, w) = read_serially read ds w in ((dev_id d, r) # rs, w))"

subsection \<open>Discovery\<close>

record discovery_outcome =
  do_statuses :: "adapter_status list"
  do_devices :: "(string \<times> device list) list"
  do_errors :: "(string \<times> message) list"

definition outcome_device_count :: "discovery_outcome \<Rightarrow> nat" where
  "outcome_device_count out = sum_list (map (length \<circ> snd) (do_devices out))"

record adapter_shutdown =
  sd_adapter :: string
  sd_controls_cooling :: bool
  sd_hands_back :: bool
  sd_error :: "message option"

text \<open>The manager's health map, in adapter order as the \<open>BTreeMap\<close> keeps it.\<close>

type_synonym health = "adapter_status list"

definition health_get :: "health \<Rightarrow> string \<Rightarrow> adapter_status option" where
  "health_get h a = List.find (\<lambda>s. as_adapter s = a) h"

definition health_put :: "adapter_status \<Rightarrow> health \<Rightarrow> health" where
  "health_put = sorted_put as_adapter"

definition health_new :: "'w adapter list \<Rightarrow> health" where
  "health_new as = fold (\<lambda>a. health_put (status_not_probed (ad_id a))) as []"

definition find_adapter :: "'w adapter list \<Rightarrow> string \<Rightarrow> 'w adapter option" where
  "find_adapter as i = List.find (\<lambda>a. ad_id a = i) as"

definition adapter_views :: "'w adapter list \<Rightarrow> health \<Rightarrow> (adapter_info \<times> adapter_status) list" where
  "adapter_views as h = map (\<lambda>a. (ad_info a, case health_get h (ad_id a) of
     Some s \<Rightarrow> s | None \<Rightarrow> status_not_probed (ad_id a))) as"

definition usable_adapters :: "'w adapter list \<Rightarrow> health \<Rightarrow> 'w adapter list" where
  "usable_adapters as h = filter (\<lambda>a. case health_get h (ad_id a) of
     Some s \<Rightarrow> status_usable s | None \<Rightarrow> False) as"

definition probe_adapter :: "settings \<Rightarrow> int \<Rightarrow> 'w adapter \<Rightarrow> health \<times> 'w
    \<Rightarrow> adapter_status \<times> health \<times> 'w" where
  "probe_adapter s now a = (\<lambda>(h, w).
    if \<not> adapter_enabled s (ad_id a) then
      (let st = \<lparr>as_adapter = ad_id a, as_state = Adapter_Unavailable, as_reason = Some Disabled,
             as_detail = Some [Txt ''disabled in Settings''], as_checked_at_ms = now,
             as_device_count = 0\<rparr>
       in (st, health_put st h, w))
    else (let (st, w) = ad_probe a w in (st, health_put st h, w)))"

fun probe_all :: "settings \<Rightarrow> int \<Rightarrow> 'w adapter list \<Rightarrow> health \<times> 'w
    \<Rightarrow> ('w adapter \<times> adapter_status) list \<times> health \<times> 'w" where
  "probe_all s now [] hw = ([], hw)"
| "probe_all s now (a # as) hw =
    (let (st, hw) = probe_adapter s now a hw; (ps, hw) = probe_all s now as hw
     in ((a, st) # ps, hw))"

text \<open>\<open>validate_devices\<close>: invalid descriptions and repeated ids are dropped.\<close>

fun keep_valid :: "string list \<Rightarrow> device list \<Rightarrow> device list" where
  "keep_valid seen [] = []"
| "keep_valid seen (d # ds) =
    (if \<not> is_ok (validate_device d) then keep_valid seen ds
     else if dev_id d \<in> set seen then keep_valid seen ds
     else d # keep_valid (seen @ [dev_id d]) ds)"

definition validate_devices :: "device list \<Rightarrow> device list" where
  "validate_devices ds = keep_valid [] ds"

text \<open>The status a successful enumeration leaves.\<close>

definition enumerated_status :: "adapter_info \<Rightarrow> nat \<Rightarrow> int \<Rightarrow> adapter_status \<Rightarrow> adapter_status" where
  "enumerated_status info n now st =
    (if n = 0 then st\<lparr>as_state := Adapter_Degraded, as_reason := Some NotPresent,
       as_detail := Some [Txt (ai_name info), Txt '' started but reported no devices''],
       as_device_count := 0, as_checked_at_ms := now\<rparr>
     else st\<lparr>as_state := Adapter_Available, as_reason := None, as_detail := None,
       as_device_count := n, as_checked_at_ms := now\<rparr>)"

definition standing_by :: "adapter_info \<Rightarrow> string \<Rightarrow> int \<Rightarrow> adapter_status \<Rightarrow> adapter_status" where
  "standing_by info primary now st = st\<lparr>as_state := Adapter_Unavailable, as_reason := Some Disabled,
     as_detail := Some [Txt ''standing by: '', Txt primary,
       Txt '' is available and reports the same hardware; set adapter_settings.'', Txt (ai_id info),
       Txt ''.always = true to force this provider''],
     as_device_count := 0, as_checked_at_ms := now\<rparr>"

definition discover_adapter :: "string list \<Rightarrow> int \<Rightarrow> 'w adapter \<times> adapter_status
    \<Rightarrow> discovery_outcome \<times> health \<times> 'w \<Rightarrow> discovery_outcome \<times> health \<times> 'w" where
  "discover_adapter usable now = (\<lambda>(a, st) (out, h, w).
    (let info = ad_info a in
     case (case ai_yields_to info of Some p \<Rightarrow> if p \<in> set usable then Some p else None
           | None \<Rightarrow> None) of
       Some primary \<Rightarrow>
         (let st = standing_by info primary now st
          in (out\<lparr>do_statuses := do_statuses out @ [st]\<rparr>, health_put st h, w))
     | None \<Rightarrow>
         if \<not> status_usable st then (out\<lparr>do_statuses := do_statuses out @ [st]\<rparr>, h, w)
         else (case ad_discover a w of
             (Inr devices, w) \<Rightarrow>
               (let devices = validate_devices devices;
                    st = enumerated_status info (length devices) now st
                in (out\<lparr>do_statuses := do_statuses out @ [st],
                      do_devices := sorted_put fst (ai_id info, devices) (do_devices out)\<rparr>,
                    health_put st h, w))
           | (Inl err, w) \<Rightarrow>
               (let st = st\<lparr>as_state := Adapter_Failed, as_reason := Some ReadError,
                      as_detail := Some (error_display err), as_device_count := 0,
                      as_checked_at_ms := now\<rparr>
                in (out\<lparr>do_statuses := do_statuses out @ [st],
                      do_errors := do_errors out @ [(ai_id info, error_display err)]\<rparr>,
                    health_put st h, w)))))"

definition discover_all :: "settings \<Rightarrow> int \<Rightarrow> 'w adapter list \<Rightarrow> health \<times> 'w
    \<Rightarrow> discovery_outcome \<times> health \<times> 'w" where
  "discover_all s now as hw =
    (let (probed, h, w) = probe_all s now as hw;
         usable = map (\<lambda>(a, _). ad_id a) (filter (\<lambda>(_, st). status_usable st) probed)
     in fold (discover_adapter usable now) probed
          (\<lparr>do_statuses = [], do_devices = [], do_errors = []\<rparr>, h, w))"

fun shutdown_all :: "'w adapter list \<Rightarrow> 'w \<Rightarrow> adapter_shutdown list \<times> 'w" where
  "shutdown_all [] w = ([], w)"
| "shutdown_all (a # as) w =
    (let (r, w) = ad_shutdown a w; (outs, w) = shutdown_all as w;
         caps = ai_capabilities (ad_info a)
     in (\<lparr>sd_adapter = ad_id a, sd_controls_cooling = ac_can_control_cooling caps,
          sd_hands_back = ac_hands_back_control_on_shutdown caps,
          sd_error = (case r of Inl e \<Rightarrow> Some (error_display e) | Inr _ \<Rightarrow> None)\<rparr> # outs, w))"

fun deduplicate :: "string list \<Rightarrow> 'w adapter list \<Rightarrow> 'w adapter list \<times> string list" where
  "deduplicate seen [] = ([], [])"
| "deduplicate seen (a # as) =
    (if ad_id a \<in> set seen
     then (let (kept, dups) = deduplicate seen as in (kept, ad_id a # dups))
     else (let (kept, dups) = deduplicate (seen @ [ad_id a]) as in (a # kept, dups)))"

definition deduplicate_adapters :: "'w adapter list \<Rightarrow> 'w adapter list \<times> string list" where
  "deduplicate_adapters as = deduplicate [] as"

subsection \<open>Properties\<close>

lemma keep_valid_distinct:
  "distinct (map dev_id (keep_valid seen ds)) \<and> set (map dev_id (keep_valid seen ds)) \<inter> set seen = {}"
proof (induction ds arbitrary: seen)
  case (Cons d ds)
  from Cons.IH [of seen] Cons.IH [of "seen @ [dev_id d]"] show ?case by auto
qed simp

lemma keep_valid_in: "d \<in> set (keep_valid seen ds) \<Longrightarrow> d \<in> set ds \<and> validate_device d = Inr ()"
  by (induction ds arbitrary: seen) (auto simp: is_ok_iff split: if_splits)

lemma keep_valid_keeps:
  "d \<in> set ds \<Longrightarrow> validate_device d = Inr () \<Longrightarrow>
     dev_id d \<in> set seen \<or> dev_id d \<in> dev_id ` set (keep_valid seen ds)"
proof (induction ds arbitrary: seen)
  case (Cons e ds)
  show ?case
  proof (cases "d = e")
    case False
    with Cons show ?thesis using Cons.IH [of "seen @ [dev_id e]"] by auto
  qed (use Cons.prems in simp)
qed simp

lemma deduplicate_ok:
  "distinct (map ad_id (fst (deduplicate seen as)))
   \<and> set (map ad_id (fst (deduplicate seen as))) = set (map ad_id as) - set seen"
proof (induction as arbitrary: seen)
  case (Cons a as)
  from Cons.IH [of seen] Cons.IH [of "seen @ [ad_id a]"] show ?case
    by (auto simp: split_def Let_def)
qed simp

end
