(* ===== verification/Curve.thy ===== *)
theory Curve
  imports Rust_Std Interfaces "HOL-Library.Multiset"
begin

section \<open>Fan curves\<close>

text \<open>
  \<open>crates/ohm-automation/src/curve.rs\<close>: the piecewise linear map from a sensor value to an
  output, in binary64. A curve is the list of its control points; the constructor sorts and
  validates them. \<open>None\<close> is the panic of indexing an empty list, which no constructed curve
  can reach (\<open>curve_eval_total\<close>).
\<close>

record control_point =
  cp_input :: f64
  cp_output :: f64

type_synonym curve = "control_point list"

definition point :: "f64 \<times> f64 \<Rightarrow> control_point" where
  "point = (\<lambda>(i, out). \<lparr>cp_input = i, cp_output = out\<rparr>)"

text \<open>
  \<open>sort_by(|a, b| a.input.partial_cmp(&b.input).unwrap_or(Equal))\<close>: a stable sort; a point
  moves before another only if its input is less.
\<close>

fun insert_point :: "control_point \<Rightarrow> curve \<Rightarrow> curve" where
  "insert_point p [] = [p]"
| "insert_point p (q # qs) =
    (if cp_input p < cp_input q then p # q # qs else q # insert_point p qs)"

definition sort_points :: "curve \<Rightarrow> curve" where
  "sort_points ps = fold insert_point ps []"

definition validate_curve :: "curve \<Rightarrow> unit result" where
  "validate_curve ps =
    (if length ps < 2 then Inl (AutomationError [Txt ''a curve needs at least two points''])
     else and_then
       (for_each (\<lambda>p. ensure (is_finite (cp_input p) \<and> is_finite (cp_output p))
          (AutomationError [Txt ''curve points must be finite numbers''])) ps)
       (\<lambda>_. for_each (\<lambda>(a, b). ensure (\<not> cp_input b \<le> cp_input a)
          (AutomationError [Txt ''curve inputs must strictly increase ('', Num (cp_input a),
             Txt '' then '', Num (cp_input b), Txt '')''])) (windows2 ps)))"

definition curve_new :: "(f64 \<times> f64) list \<Rightarrow> curve result" where
  "curve_new points = (let ps = sort_points (map point points) in
     and_then (validate_curve ps) (\<lambda>_. Inr ps))"

definition from_points :: "curve \<Rightarrow> curve result" where
  "from_points ps = curve_new (map (\<lambda>p. (cp_input p, cp_output p)) ps)"

definition flat_curve :: "f64 \<Rightarrow> curve result" where
  "flat_curve out = curve_new [(Fin 0, out), (Fin 100, out)]"

definition as_tuples :: "curve \<Rightarrow> (f64 \<times> f64) list" where
  "as_tuples ps = map (\<lambda>p. (cp_input p, cp_output p)) ps"

definition min_input :: "curve \<Rightarrow> f64" where
  "min_input ps = (case ps of [] \<Rightarrow> Fin 0 | p # _ \<Rightarrow> cp_input p)"

definition max_input :: "curve \<Rightarrow> f64" where
  "max_input ps = (if ps = [] then Fin 0 else cp_input (last ps))"

definition min_output :: "curve \<Rightarrow> f64" where
  "min_output ps = foldl fmin PInf (map cp_output ps)"

definition max_output :: "curve \<Rightarrow> f64" where
  "max_output ps = foldl fmax NInf (map cp_output ps)"

definition segment :: "control_point \<Rightarrow> control_point \<Rightarrow> f64 \<Rightarrow> f64" where
  "segment low high x =
    (let span = cp_input high - cp_input low in
     if span \<le> Fin 0 then cp_output high
     else (let t = (x - cp_input low) div span in
       cp_output low + (cp_output high - cp_output low) * t))"

fun eval_windows :: "(control_point \<times> control_point) list \<Rightarrow> f64 \<Rightarrow> f64 \<Rightarrow> f64" where
  "eval_windows [] x dflt = dflt"
| "eval_windows ((low, high) # pairs) x dflt =
    (if cp_input low \<le> x \<and> x \<le> cp_input high then segment low high x
     else eval_windows pairs x dflt)"

definition curve_eval :: "curve \<Rightarrow> f64 \<Rightarrow> f64 option" where
  "curve_eval ps x =
    (if \<not> is_finite x then Some (min_output ps)
     else case ps of [] \<Rightarrow> None
     | first # _ \<Rightarrow>
         if x \<le> cp_input first then Some (cp_output first)
         else if cp_input (last ps) \<le> x then Some (cp_output (last ps))
         else Some (eval_windows (windows2 ps) x (cp_output (last ps))))"

text \<open>\<open>input_for_output\<close>: the first segment that reaches the output.\<close>

fun find_crossing :: "(control_point \<times> control_point) list \<Rightarrow> f64 \<Rightarrow> f64 option" where
  "find_crossing [] out = None"
| "find_crossing ((low, high) # pairs) out =
    (let lo = cp_output low; hi = cp_output high;
         inside = fmin lo hi \<le> out \<and> out \<le> fmax lo hi in
     if inside \<and> f64_epsilon < \<bar>hi - lo\<bar>
     then (let t = (out - lo) div (hi - lo) in
       Some (cp_input low + (cp_input high - cp_input low) * t))
     else find_crossing pairs out)"

definition input_for_output :: "curve \<Rightarrow> f64 \<Rightarrow> f64 option" where
  "input_for_output ps out = find_crossing (windows2 ps) out"

definition gpu_cooling_curve :: "curve result" where
  "gpu_cooling_curve = curve_new
    [(Fin 40, Fin 20), (Fin 60, Fin 35), (Fin 70, Fin 50), (Fin 80, Fin 80), (Fin 85, Fin 100)]"

subsection \<open>Construction\<close>

lemma mset_insert_point: "mset (insert_point p ps) = add_mset p (mset ps)"
  by (induction ps) auto

lemma mset_fold_insert: "mset (fold insert_point ps acc) = mset ps + mset acc"
  by (induction ps arbitrary: acc) (auto simp: mset_insert_point)

lemma mset_sort_points: "mset (sort_points ps) = mset ps"
  by (simp add: sort_points_def mset_fold_insert)

lemma length_sort_points: "length (sort_points ps) = length ps"
  by (metis mset_sort_points size_mset)

lemma set_sort_points: "set (sort_points ps) = set ps"
  by (metis mset_sort_points set_mset_mset)

definition finite_point :: "control_point \<Rightarrow> bool" where
  "finite_point p \<longleftrightarrow> is_finite (cp_input p) \<and> is_finite (cp_output p)"

text \<open>What \<open>validate\<close> accepts: at least two finite points with strictly increasing inputs.\<close>

fun increasing :: "curve \<Rightarrow> bool" where
  "increasing (p # q # ps) \<longleftrightarrow> \<not> cp_input q \<le> cp_input p \<and> increasing (q # ps)"
| "increasing _ \<longleftrightarrow> True"

definition valid_curve :: "curve \<Rightarrow> bool" where
  "valid_curve ps \<longleftrightarrow> 2 \<le> length ps \<and> list_all finite_point ps \<and> increasing ps"

lemma windows2_increasing:
  "(\<forall>(a, b) \<in> set (windows2 ps). \<not> cp_input b \<le> cp_input a) \<longleftrightarrow> increasing ps"
  by (induction ps rule: increasing.induct) auto

lemma validate_curve_ok: "validate_curve ps = Inr () \<longleftrightarrow> valid_curve ps"
proof -
  have "(\<forall>x\<in>set (windows2 ps). (case x of (a, b) \<Rightarrow> \<not> cp_input b \<le> cp_input a)) \<longleftrightarrow> increasing ps"
    using windows2_increasing [of ps] by simp
  then show ?thesis
    by (auto simp: validate_curve_def result_simps for_each_ok valid_curve_def list_all_iff
        finite_point_def split_def)
qed

lemma insert_point_sorted:
  assumes "list_all finite_point (p # ps)" "sorted_wrt (\<lambda>a b. cp_input a \<le> cp_input b) ps"
  shows "sorted_wrt (\<lambda>a b. cp_input a \<le> cp_input b) (insert_point p ps)"
  using assms
proof (induction ps)
  case (Cons q qs)
  have nn: "\<not> is_nan (cp_input r)" if "r \<in> set (p # q # qs)" for r
    using Cons.prems(1) that by (auto simp: list_all_iff finite_point_def dest: is_finite_not_nan)
  have set: "set (insert_point p qs) = insert p (set qs)"
    using mset_insert_point [of p qs] by (metis set_mset_add_mset_insert set_mset_mset)
  show ?case
  proof (cases "cp_input p < cp_input q")
    case True
    have "cp_input p \<le> cp_input r" if "r \<in> set qs" for r
      using Cons.prems(2) that f64_less_imp_le [OF True] by (auto intro: f64_le_trans)
    with True Cons.prems(2) show ?thesis by (auto intro: f64_less_imp_le)
  next
    case False
    then have "cp_input q \<le> cp_input p" using nn by (simp add: f64_not_less)
    with False Cons set show ?thesis by auto
  qed
qed simp

lemma sort_points_sorted:
  assumes "list_all finite_point ps"
  shows "sorted_wrt (\<lambda>a b. cp_input a \<le> cp_input b) (sort_points ps)"
proof -
  have "sorted_wrt (\<lambda>a b. cp_input a \<le> cp_input b) (fold insert_point ps acc)"
    if "list_all finite_point acc" "sorted_wrt (\<lambda>a b. cp_input a \<le> cp_input b) acc" for acc
    using that assms
  proof (induction ps arbitrary: acc)
    case (Cons p ps)
    have "list_all finite_point (insert_point p acc)"
      using Cons.prems mset_insert_point [of p acc]
      by (metis list.pred_inject(2) list_all_iff set_mset_add_mset_insert set_mset_mset insert_iff)
    with Cons show ?case by (simp add: insert_point_sorted)
  qed simp
  then show ?thesis by (simp add: sort_points_def)
qed

lemma curve_new_ok:
  "curve_new points = Inr ps \<longleftrightarrow> ps = sort_points (map point points) \<and> valid_curve ps"
  by (auto simp: curve_new_def Let_def result_simps validate_curve_ok)

lemma curve_new_valid: "curve_new points = Inr ps \<Longrightarrow> valid_curve ps"
  using curve_new_ok by blast

text \<open>A valid curve is already in the order the constructor puts it in: export and import.\<close>

lemma insert_point_last:
  "list_all (\<lambda>q. \<not> cp_input p < cp_input q) ps \<Longrightarrow> insert_point p ps = ps @ [p]"
  by (induction ps) auto

lemma increasing_sorted_wrt:
  assumes "list_all finite_point ps" "increasing ps"
  shows "sorted_wrt (\<lambda>a b. cp_input a < cp_input b) ps"
  using assms
proof (induction ps rule: increasing.induct)
  case (1 p q ps)
  then have "cp_input p < cp_input q"
    by (simp add: finite_point_def f64_not_le is_finite_not_nan)
  with 1 show ?case
    by (auto intro: f64_le_less_trans f64_less_imp_le)
qed simp_all

lemma sort_points_id:
  assumes "sorted_wrt (\<lambda>a b. cp_input a < cp_input b) ps"
  shows "sort_points ps = ps"
proof -
  have "fold insert_point ps acc = acc @ ps"
    if "sorted_wrt (\<lambda>a b. cp_input a < cp_input b) (acc @ ps)" for acc
    using that
  proof (induction ps arbitrary: acc)
    case (Cons p ps)
    have "\<not> cp_input p < cp_input q" if "q \<in> set acc" for q
      using Cons.prems that f64_less_le_trans [of "cp_input p" "cp_input q" "cp_input p"]
        f64_less_imp_le by (fastforce simp: sorted_wrt_append)
    then have "insert_point p acc = acc @ [p]"
      by (auto intro: insert_point_last simp: list_all_iff)
    with Cons show ?case by simp
  qed simp
  from this [of "[]"] assms show ?thesis by (simp add: sort_points_def)
qed

lemma point_as_tuple: "point (cp_input p, cp_output p) = p"
  by (simp add: point_def)

lemma as_tuples_roundtrip: "valid_curve ps \<Longrightarrow> curve_new (as_tuples ps) = Inr ps"
  by (simp add: curve_new_ok as_tuples_def comp_def point_as_tuple valid_curve_def
      sort_points_id increasing_sorted_wrt)

subsection \<open>Evaluation\<close>

lemma curve_eval_total: "ps \<noteq> [] \<Longrightarrow> \<exists>v. curve_eval ps x = Some v"
  by (cases ps) (simp_all add: curve_eval_def)

lemma foldl_fmin_cases: "foldl fmin a xs = a \<or> foldl fmin a xs \<in> set xs"
proof (induction xs arbitrary: a)
  case (Cons x xs)
  from Cons [of "fmin a x"] fmin_cases [of a x] show ?case by auto
qed simp

text \<open>
  A tame curve: finite doubles, inputs of at most \<open>2 ^ 1000\<close> in size, outputs that are
  percentages. Every curve of percentages over physical sensor values is one.
\<close>

definition tame_point :: "control_point \<Rightarrow> bool" where
  "tame_point p \<longleftrightarrow> (\<exists>i out. cp_input p = Fin i \<and> is_dbl i \<and> \<bar>i\<bar> \<le> pow2 1000
     \<and> cp_output p = Fin out \<and> is_dbl out \<and> 0 \<le> out \<and> out \<le> 100)"

definition tame :: "curve \<Rightarrow> bool" where
  "tame ps \<longleftrightarrow> valid_curve ps \<and> list_all tame_point ps"

definition tval :: "rat \<Rightarrow> rat \<Rightarrow> rat \<Rightarrow> rat" where
  "tval l h q = rndq (rndq (q - l) / rndq (h - l))"

lemma tval_range:
  assumes "l \<le> q" "q \<le> h" "0 < rndq (h - l)"
  shows "0 \<le> tval l h q \<and> tval l h q \<le> 1"
proof -
  have "0 \<le> rndq (q - l)" and "rndq (q - l) \<le> rndq (h - l)"
    using assms by (auto intro: rndq_nonneg rndq_mono)
  then have "0 \<le> rndq (q - l) / rndq (h - l)" and "rndq (q - l) / rndq (h - l) \<le> 1"
    using assms(3) by auto
  then have "0 \<le> tval l h q" and "tval l h q \<le> rndq 1"
    unfolding tval_def by (auto intro: rndq_nonneg rndq_mono)
  then show ?thesis by (simp add: rndq_exact)
qed

lemma tval_mono:
  assumes "q \<le> r" "0 < rndq (h - l)"
  shows "tval l h q \<le> tval l h r"
  using assms unfolding tval_def by (intro rndq_mono divide_right_mono) auto

lemma tval_end: "0 < rndq (h - l) \<Longrightarrow> tval l h h = 1"
  by (simp add: tval_def rndq_exact)

definition lerp :: "rat \<Rightarrow> rat \<Rightarrow> rat \<Rightarrow> rat" where
  "lerp a b t = rndq (a + rndq (rndq (b - a) * t))"

lemma lerp_headroom:
  assumes "is_dbl a" "0 \<le> a" "a \<le> 100" "0 \<le> b" "b \<le> 100" "0 \<le> t" "t \<le> 1"
  shows "0 \<le> lerp a b t \<and> lerp a b t \<le> 100"
proof (cases "a \<le> b")
  case True
  define d where "d = rndq (b - a)"
  have d: "0 \<le> d" "d \<le> rndq (100 - a)"
    using True assms by (auto simp: d_def intro: rndq_nonneg rndq_mono)
  have "rndq (d * t) \<le> rndq d"
    using d assms by (intro rndq_mono) (simp add: mult_left_le)
  also have "rndq d = d"
    unfolding d_def using assms True by (intro rndq_exact rndq_dbl [of _ 100]) auto
  finally have "rndq (d * t) \<le> rndq (100 - a)" using d by linarith
  then have "lerp a b t \<le> 100"
    using plus_headroom [OF assms(2,3)] d assms by (simp add: lerp_def d_def rndq_nonneg)
  moreover have "0 \<le> lerp a b t"
    using d assms unfolding lerp_def d_def by (intro rndq_nonneg add_nonneg_nonneg) auto
  ultimately show ?thesis by simp
next
  case False
  define w where "w = rndq (rndq (b - a) * t)"
  have d: "rndq (b - a) \<le> 0" "- a \<le> rndq (b - a)"
    using False assms rndq_mono [of "b - a" 0] rndq_mono [of "- a" "b - a"]
    by (auto simp: rndq_uminus rndq_exact)
  moreover have "rndq (b - a) * 1 \<le> rndq (b - a) * t"
    using d assms by (intro mult_left_mono_neg) auto
  ultimately have "- a \<le> rndq (b - a) * t" by linarith
  then have "rndq (- a) \<le> w" unfolding w_def by (rule rndq_mono)
  moreover have "w \<le> rndq 0"
    unfolding w_def using d assms by (intro rndq_mono) (simp add: mult_nonpos_nonneg)
  ultimately have w: "- a \<le> w" "w \<le> 0" using assms by (auto simp: rndq_uminus rndq_exact)
  then have "0 \<le> a + w" and "a + w \<le> 100" using assms by auto
  then show ?thesis
    using rndq_mono [of "a + w" 100] by (auto simp: lerp_def rndq_exact simp flip: w_def intro: rndq_nonneg)
qed

text \<open>When the difference of the outputs is itself a double, the segment stays between them.\<close>

lemma lerp_between:
  assumes "is_dbl a" "is_dbl b" "is_dbl (b - a)" "a \<le> b" "0 \<le> t" "t \<le> 1"
  shows "a \<le> lerp a b t \<and> lerp a b t \<le> b"
proof -
  have "0 \<le> rndq ((b - a) * t)" and "rndq ((b - a) * t) \<le> b - a"
    using assms rndq_mono [of "(b - a) * t" "b - a"]
    by (auto simp: rndq_exact mult_left_le intro: rndq_nonneg)
  then have "rndq a \<le> lerp a b t" and "lerp a b t \<le> rndq b"
    unfolding lerp_def using assms(3) by (auto simp: rndq_exact intro!: rndq_mono)
  then show ?thesis using assms by (simp add: rndq_exact)
qed

lemma lerp_mono: "a \<le> b \<Longrightarrow> s \<le> t \<Longrightarrow> lerp a b s \<le> lerp a b t"
  unfolding lerp_def by (intro rndq_mono add_left_mono mult_left_mono rndq_nonneg) auto

lemma lerp_1: "is_dbl b \<Longrightarrow> is_dbl (b - a) \<Longrightarrow> lerp a b 1 = b"
  by (simp add: lerp_def rndq_exact)

lemma segment_lerp:
  assumes p: "cp_input p = Fin l" "is_dbl l" "\<bar>l\<bar> \<le> pow2 1000" "cp_output p = Fin a"
    "is_dbl a" "0 \<le> a" "a \<le> 100"
    and r: "cp_input r = Fin h" "is_dbl h" "\<bar>h\<bar> \<le> pow2 1000" "cp_output r = Fin b"
    "is_dbl b" "0 \<le> b" "b \<le> 100"
    and lt: "l < h" and q: "l \<le> q" "q \<le> h"
  shows "segment p r (Fin q) = Fin (lerp a b (tval l h q)) \<and> 0 < rndq (h - l)"
proof -
  have two: "pow2 1001 = 2 * pow2 1000" using pow2_add [of 1 1000] by (simp add: pow2_def [of 1])
  have s: "rnd (h - l) = Fin (rndq (h - l))" and u: "rnd (q - l) = Fin (rndq (q - l))"
    using p(3) r(3) q by (auto intro!: rnd_small_1001 simp: two abs_le_iff)
  have pos: "0 < rndq (h - l)" using rnd_diff_pos [OF p(2) r(2) lt] by (simp add: s)
  note t = tval_range [OF q pos]
  have frac: "0 \<le> rndq (q - l) / rndq (h - l)" "rndq (q - l) / rndq (h - l) \<le> 1"
    using q pos rndq_mono [of "q - l" "h - l"] rndq_nonneg [of "q - l"] by simp_all
  have tv: "rnd (rndq (q - l) / rndq (h - l)) = Fin (tval l h q)"
    using frac unfolding tval_def by (intro rnd_small [of _ 1]) auto
  have ba: "\<bar>b - a\<bar> \<le> 100" using p r by (auto simp: abs_le_iff)
  then have d: "rnd (b - a) = Fin (rndq (b - a))" "\<bar>rndq (b - a)\<bar> \<le> 100"
    by (auto intro: rnd_small rndq_small)
  have dt: "\<bar>rndq (b - a) * tval l h q\<bar> \<le> 100"
    using d(2) t by (simp add: abs_mult) (metis abs_ge_zero mult_left_le order_trans)
  then have m: "rnd (rndq (b - a) * tval l h q) = Fin (rndq (rndq (b - a) * tval l h q))"
    "\<bar>rndq (rndq (b - a) * tval l h q)\<bar> \<le> 100"
    by (auto intro: rnd_small rndq_small)
  have "\<bar>a + rndq (rndq (b - a) * tval l h q)\<bar> \<le> 200" using m(2) p by (auto simp: abs_le_iff)
  moreover have "is_dbl 200" by (rule is_dbl_numeral) simp
  ultimately have "rnd (a + rndq (rndq (b - a) * tval l h q)) = Fin (lerp a b (tval l h q))"
    unfolding lerp_def by (rule rnd_small)
  then show ?thesis
    using pos by (simp add: segment_def Let_def p(1,4) r(1,4) Fin_minus s u Fin_divide tv d(1)
        Fin_times m(1) Fin_plus)
qed

lemma tame_pointE:
  assumes "tame_point p"
  obtains i out where "cp_input p = Fin i" "is_dbl i" "\<bar>i\<bar> \<le> pow2 1000"
    "cp_output p = Fin out" "is_dbl out" "0 \<le> out" "out \<le> 100"
  using assms unfolding tame_point_def by blast

lemma segment_range:
  assumes "tame_point p" "tame_point r" "cp_input p < cp_input r"
    and "cp_input p \<le> Fin q" "Fin q \<le> cp_input r"
  shows "\<exists>v. segment p r (Fin q) = Fin v \<and> 0 \<le> v \<and> v \<le> 100"
proof -
  obtain l a where p: "cp_input p = Fin l" "is_dbl l" "\<bar>l\<bar> \<le> pow2 1000" "cp_output p = Fin a"
    "is_dbl a" "0 \<le> a" "a \<le> 100" using assms(1) by (rule tame_pointE)
  obtain h b where r: "cp_input r = Fin h" "is_dbl h" "\<bar>h\<bar> \<le> pow2 1000" "cp_output r = Fin b"
    "is_dbl b" "0 \<le> b" "b \<le> 100" using assms(2) by (rule tame_pointE)
  have o: "l < h" "l \<le> q" "q \<le> h" using assms p r by auto
  note s = segment_lerp [OF p r o]
  with tval_range [OF o(2,3)] lerp_headroom [OF p(5-7) r(6,7)] show ?thesis by auto
qed

lemma eval_windows_range:
  assumes "list_all tame_point ps" "increasing ps" "0 \<le> d" "d \<le> 100"
  shows "\<exists>v. eval_windows (windows2 ps) (Fin q) (Fin d) = Fin v \<and> 0 \<le> v \<and> v \<le> 100"
  using assms
proof (induction ps rule: increasing.induct)
  case (1 p r ps)
  then have "cp_input p < cp_input r" by (auto elim!: tame_pointE)
  with 1 segment_range [of p r q] show ?case by auto
qed simp_all

text \<open>Outputs that never fall, in steps that are doubles (whole percentages, for instance).\<close>

fun climbing :: "curve \<Rightarrow> bool" where
  "climbing (p # r # ps) \<longleftrightarrow> (\<exists>a b. cp_output p = Fin a \<and> cp_output r = Fin b \<and> a \<le> b \<and> is_dbl (b - a))
     \<and> climbing (r # ps)"
| "climbing _ \<longleftrightarrow> True"

lemma segment_mono:
  assumes p: "tame_point p" and r: "tame_point r" and lt: "cp_input p < cp_input r"
    and ab: "cp_output p = Fin a" "cp_output r = Fin b" "a \<le> b" "is_dbl (b - a)"
    and x: "cp_input p \<le> Fin x" "x \<le> y" "Fin y \<le> cp_input r"
  shows "\<exists>v w. segment p r (Fin x) = Fin v \<and> segment p r (Fin y) = Fin w \<and> a \<le> v \<and> v \<le> w \<and> w \<le> b"
proof -
  obtain l where p': "cp_input p = Fin l" "is_dbl l" "\<bar>l\<bar> \<le> pow2 1000" "cp_output p = Fin a"
    "is_dbl a" "0 \<le> a" "a \<le> 100" using p ab by (auto elim!: tame_pointE)
  obtain h where r': "cp_input r = Fin h" "is_dbl h" "\<bar>h\<bar> \<le> pow2 1000" "cp_output r = Fin b"
    "is_dbl b" "0 \<le> b" "b \<le> 100" using r ab by (auto elim!: tame_pointE)
  have o: "l < h" "l \<le> x" "x \<le> h" "l \<le> y" "y \<le> h" using lt x p' r' by auto
  note sx = segment_lerp [OF p' r' o(1,2,3)] and sy = segment_lerp [OF p' r' o(1,4,5)]
  have pos: "0 < rndq (h - l)" using sx by simp
  note tx = tval_range [OF o(2,3) pos] and ty = tval_range [OF o(4,5) pos]
  have "lerp a b (tval l h x) \<le> lerp a b (tval l h y)"
    using ab(3) tval_mono [OF x(2) pos] by (rule lerp_mono)
  moreover have "a \<le> lerp a b (tval l h x)" "lerp a b (tval l h y) \<le> b"
    using lerp_between [OF p'(5) r'(5) ab(4,3)] tx ty by auto
  ultimately show ?thesis using sx sy by auto
qed

lemma eval_windows_mono:
  assumes "list_all tame_point (p # ps)" "increasing (p # ps)" "climbing (p # ps)" "ps \<noteq> []"
    and "cp_input p \<le> Fin x" "x \<le> y" "Fin y \<le> cp_input (last ps)"
  shows "\<exists>v w. eval_windows (windows2 (p # ps)) (Fin x) d = Fin v
    \<and> eval_windows (windows2 (p # ps)) (Fin y) d = Fin w
    \<and> cp_output p \<le> Fin v \<and> v \<le> w \<and> Fin w \<le> cp_output (last ps)"
  using assms
proof (induction ps arbitrary: p x y)
  case (Cons r ps)
  obtain a b where ab: "cp_output p = Fin a" "cp_output r = Fin b" "a \<le> b" "is_dbl (b - a)"
    using Cons.prems(3) by auto
  have tp: "tame_point p" "tame_point r" and lt: "cp_input p < cp_input r"
    using Cons.prems(1,2) by (auto elim!: tame_pointE)
  obtain h where h: "cp_input r = Fin h" using tp(2) by (rule tame_pointE)
  have rest: "\<exists>v w. eval_windows (windows2 (r # ps)) (Fin x') d = Fin v
      \<and> eval_windows (windows2 (r # ps)) (Fin y') d = Fin w
      \<and> Fin b \<le> Fin v \<and> v \<le> w \<and> Fin w \<le> cp_output (last (r # ps))"
    if "h \<le> x'" "x' \<le> y'" "Fin y' \<le> cp_input (last (r # ps))" "ps \<noteq> []" for x' y'
    using Cons.IH [of r x' y'] Cons.prems that h ab(2) by auto
  have bl: "Fin b \<le> cp_output (last (r # ps))"
  proof (cases "ps = []")
    case False
    have "last ps \<in> set ps" using False by simp
    then have "tame_point (last ps)" using Cons.prems(1) by (auto simp: list_all_iff)
    then obtain z where z: "cp_input (last ps) = Fin z" by (rule tame_pointE)
    show ?thesis
    proof (cases "h \<le> z")
      case True
      from rest [OF True order_refl _ False] z False obtain v where
        "Fin b \<le> Fin v" "Fin v \<le> cp_output (last ps)" by auto
      then have "Fin b \<le> cp_output (last ps)" by (rule f64_le_trans)
      then show ?thesis using False by simp
    next
      case f: False
      have "sorted_wrt (\<lambda>a b. cp_input a < cp_input b) (r # ps)"
        using Cons.prems(1,2) by (intro increasing_sorted_wrt)
          (auto simp: list_all_iff finite_point_def elim!: tame_pointE)
      with \<open>last ps \<in> set ps\<close> h z f show ?thesis by auto
    qed
  qed (simp add: ab)
  show ?case
  proof (cases "y \<le> h")
    case True
    then have "Fin y \<le> cp_input r" using h by simp
    from segment_mono [OF tp lt ab Cons.prems(5,6) this] obtain v w where
      "segment p r (Fin x) = Fin v" "segment p r (Fin y) = Fin w" "a \<le> v" "v \<le> w" "w \<le> b" by blast
    moreover have "Fin x \<le> cp_input r" "cp_input p \<le> Fin y"
      using True Cons.prems(5,6) h by (auto intro: f64_le_trans)
    ultimately show ?thesis
      using Cons.prems(5) h True ab bl by (auto intro: f64_le_trans [of "Fin w" "Fin b"])
  next
    case False
    then have y: "\<not> Fin y \<le> cp_input r" "h \<le> y" using h by auto
    then have ne: "ps \<noteq> []" using Cons.prems(7) by auto
    show ?thesis
    proof (cases "x \<le> h")
      case True
      from segment_mono [OF tp lt ab Cons.prems(5) order_refl] True h obtain v where
        v: "segment p r (Fin x) = Fin v" "a \<le> v" "v \<le> b" by auto
      from rest [OF y(2) order_refl _ ne] Cons.prems(7) obtain w where
        w: "eval_windows (windows2 (r # ps)) (Fin y) d = Fin w" "b \<le> w"
          "Fin w \<le> cp_output (last (r # ps))" by auto
      show ?thesis using v w True Cons.prems(5) y(1) ab h by auto
    next
      case False
      then have x: "\<not> Fin x \<le> cp_input r" "h \<le> x" using h by auto
      from rest [OF x(2) Cons.prems(6) _ ne] Cons.prems(7) obtain v w where
        "eval_windows (windows2 (r # ps)) (Fin x) d = Fin v"
        "eval_windows (windows2 (r # ps)) (Fin y) d = Fin w"
        "b \<le> v" "v \<le> w" "Fin w \<le> cp_output (last (r # ps))" by auto
      with x y ab show ?thesis by auto
    qed
  qed
qed simp

abbreviation by_input :: "control_point \<Rightarrow> control_point \<Rightarrow> bool" where
  "by_input a b \<equiv> cp_input a < cp_input b"

lemma by_input_distinct: "sorted_wrt by_input ps \<Longrightarrow> distinct (map cp_input ps)"
proof (induction ps)
  case (Cons p ps)
  then have "cp_input p \<noteq> cp_input q" if "q \<in> set ps" for q
    using that f64_less_irrefl by (metis sorted_wrt.simps(2))
  with Cons show ?case by auto
qed simp

lemma by_input_increasing: "sorted_wrt by_input ps \<Longrightarrow> increasing ps"
  by (induction ps rule: increasing.induct) (auto dest: f64_less_le_trans)

lemma sorted_distinct_by_input:
  assumes "sorted_wrt (\<lambda>a b. cp_input a \<le> cp_input b) ps" "distinct (map cp_input ps)"
    "list_all finite_point ps"
  shows "sorted_wrt by_input ps"
  using assms
proof (induction ps)
  case (Cons p ps)
  have "by_input p q" if "q \<in> set ps" for q
  proof -
    have "cp_input p \<le> cp_input q" "cp_input p \<noteq> cp_input q" "finite_point p" "finite_point q"
      using Cons.prems that by (auto simp: list_all_iff)
    then show ?thesis by (auto simp: finite_point_def is_finite_iff)
  qed
  with Cons show ?case by simp
qed simp

lemma tame_increasing:
  "tame ps \<Longrightarrow> list_all tame_point ps \<and> increasing ps \<and> sorted_wrt by_input ps \<and> 2 \<le> length ps"
  by (auto simp: tame_def valid_curve_def increasing_sorted_wrt)

lemma tame_last: "tame ps \<Longrightarrow> tame_point (hd ps) \<and> tame_point (last ps)"
  using tame_increasing [of ps] by (cases ps) (auto simp: list_all_iff)

lemma climbing_sorted:
  assumes "climbing ps" "list_all tame_point ps"
  shows "sorted_wrt (\<lambda>a b. cp_output a \<le> cp_output b) ps"
  using assms
proof (induction ps rule: climbing.induct)
  case (1 q r ps)
  then obtain a b where ab: "cp_output q = Fin a" "cp_output r = Fin b" "a \<le> b" by auto
  then have qr: "cp_output q \<le> cp_output r" by simp
  have s: "sorted_wrt (\<lambda>a b. cp_output a \<le> cp_output b) (r # ps)" using 1 by simp
  then have "cp_output q \<le> cp_output p" if "p \<in> set ps" for p
    using that qr by (auto intro: f64_le_trans)
  with s qr show ?case by simp
qed simp_all

text \<open>The steps between outputs are doubles, so that the interpolation hits every knot exactly.\<close>

fun exact_steps :: "curve \<Rightarrow> bool" where
  "exact_steps (p # r # ps) \<longleftrightarrow> (\<exists>a b. cp_output p = Fin a \<and> cp_output r = Fin b \<and> is_dbl (b - a))
     \<and> exact_steps (r # ps)"
| "exact_steps _ \<longleftrightarrow> True"

lemma segment_end:
  assumes p: "tame_point p" and r: "tame_point r" and lt: "cp_input p < cp_input r"
    and ab: "cp_output p = Fin a" "cp_output r = Fin b" "is_dbl (b - a)"
  shows "segment p r (cp_input r) = cp_output r"
proof -
  obtain l where p': "cp_input p = Fin l" "is_dbl l" "\<bar>l\<bar> \<le> pow2 1000" "cp_output p = Fin a"
    "is_dbl a" "0 \<le> a" "a \<le> 100" using p ab by (auto elim!: tame_pointE)
  obtain h where r': "cp_input r = Fin h" "is_dbl h" "\<bar>h\<bar> \<le> pow2 1000" "cp_output r = Fin b"
    "is_dbl b" "0 \<le> b" "b \<le> 100" using r ab by (auto elim!: tame_pointE)
  have "l < h" using lt p' r' by simp
  with segment_lerp [OF p' r' this, of h] show ?thesis
    using \<open>l < h\<close> by (simp add: r' tval_end lerp_1 ab)
qed

lemma eval_windows_knot:
  assumes "list_all tame_point ps" "sorted_wrt by_input ps" "exact_steps ps" "r \<in> set (tl ps)"
  shows "eval_windows (windows2 ps) (cp_input r) d = cp_output r"
  using assms
proof (induction ps rule: exact_steps.induct)
  case (1 p q ps)
  have tq: "tame_point p" "tame_point q" "by_input p q" using 1 by auto
  show ?case
  proof (cases "r = q")
    case True
    with segment_end [of p q] tq 1(4) show ?thesis
      by (auto simp: f64_less_imp_le elim!: tame_pointE)
  next
    case False
    then have "by_input q r" using 1 by auto
    then have "\<not> cp_input r \<le> cp_input q" by (metis f64_less_irrefl f64_less_le_trans)
    with 1 False show ?thesis by auto
  qed
qed simp_all

lemma tame_point_numeral:
  assumes "(numeral n :: rat) \<le> 1000000" "(numeral m :: rat) \<le> 100"
  shows "tame_point \<lparr>cp_input = Fin (numeral n), cp_output = Fin (numeral m)\<rparr>"
proof -
  have "is_dbl (numeral n)" "is_dbl (numeral m)"
    by (rule is_dbl_numeral_le [OF assms(1)] is_dbl_numeral_le [OF assms(2)]; simp)+
  then show ?thesis
    using numeral_le_pow2_1000 [OF assms(1)] assms(2) by (simp add: tame_point_def)
qed

text \<open>The default GPU curve.\<close>

definition gpu_points :: curve where
  "gpu_points = map point
    [(Fin 40, Fin 20), (Fin 60, Fin 35), (Fin 70, Fin 50), (Fin 80, Fin 80), (Fin 85, Fin 100)]"

lemma gpu_points_valid: "gpu_cooling_curve = Inr gpu_points"
  by (simp add: gpu_cooling_curve_def gpu_points_def curve_new_ok point_def sort_points_def valid_curve_def finite_point_def)

lemma gpu_points_tame: "tame gpu_points" "climbing gpu_points"
proof -
  show "tame gpu_points"
    using gpu_points_valid
    by (simp add: tame_def gpu_cooling_curve_def curve_new_ok)
      (simp add: gpu_points_def point_def tame_point_numeral)
  show "climbing gpu_points"
    by (simp add: gpu_points_def point_def is_dbl_numeral)
qed

lemma climbing_exact_steps: "climbing ps \<Longrightarrow> exact_steps ps"
  by (induction ps rule: climbing.induct) auto

lemma curve_in_percent:
  assumes "tame ps"
  shows "\<exists>v. curve_eval ps x = Some (Fin v) \<and> 0 \<le> v \<and> v \<le> 100"
proof -
  obtain p qs where ps: "ps = p # qs" "qs \<noteq> []"
    using tame_increasing [OF assms] by (cases ps; cases "tl ps") auto
  have pc: "\<exists>v. cp_output r = Fin v \<and> 0 \<le> v \<and> v \<le> 100" if "r \<in> set ps" for r
    using tame_increasing [OF assms] that by (auto simp: list_all_iff elim!: tame_pointE)
  show ?thesis
  proof (cases "is_finite x")
    case False
    have "min_output ps \<in> set (map cp_output ps)"
    proof -
      obtain v where "cp_output p = Fin v" using pc [of p] ps by auto
      then have "min_output ps = foldl fmin (Fin v) (map cp_output qs)"
        by (simp add: min_output_def ps fmin_def)
      then show ?thesis
        using foldl_fmin_cases [of "Fin v" "map cp_output qs"] \<open>cp_output p = Fin v\<close> ps by auto
    qed
    with pc False show ?thesis by (auto simp: curve_eval_def)
  next
    case True
    then obtain q where q: "x = Fin q" by (auto simp: is_finite_iff)
    obtain d where d: "cp_output (last ps) = Fin d" "0 \<le> d" "d \<le> 100"
      using pc [of "last ps"] ps by auto
    have "\<exists>v. eval_windows (windows2 ps) (Fin q) (Fin d) = Fin v \<and> 0 \<le> v \<and> v \<le> 100"
      using tame_increasing [OF assms] d by (intro eval_windows_range) auto
    with pc [of p] d True show ?thesis unfolding curve_eval_def q by (simp add: ps)
  qed
qed

subsection \<open>What a curve promises\<close>

text \<open>The constructor accepts exactly the lists of at least two finite points whose
  inputs are pairwise distinct, and returns those same points in strictly increasing order
  of their inputs: nothing is dropped, merged or changed.\<close>
theorem curve_new_correct:
  "curve_new points = Inr ps \<longleftrightarrow>
     2 \<le> length points \<and> list_all (\<lambda>(i, out). is_finite i \<and> is_finite out) points
   \<and> distinct (map fst points) \<and> mset ps = mset (map point points) \<and> sorted_wrt by_input ps"
proof -
  let ?ps = "map point points" and ?q = "sort_points (map point points)"
  have fin: "list_all finite_point qs
      \<longleftrightarrow> list_all (\<lambda>(i, out). is_finite i \<and> is_finite out) points" if "mset qs = mset ?ps" for qs
  proof -
    have "list_all finite_point qs \<longleftrightarrow> list_all finite_point ?ps"
      using that by (metis list_all_iff mset_eq_setD)
    then show ?thesis by (auto simp: list_all_iff finite_point_def point_def)
  qed
  have inputs: "map cp_input ?ps = map fst points" by (auto simp: point_def)
  have dst: "distinct (map cp_input qs) \<longleftrightarrow> distinct (map fst points)" if "mset qs = mset ?ps" for qs
    using that inputs by (metis mset_eq_imp_distinct_iff mset_map)
  have len: "length qs = length points" if "mset qs = mset ?ps" for qs
    using that by (metis length_map size_mset)
  show ?thesis
  proof (intro iffI)
    assume l: "curve_new points = Inr ps"
    then have m: "mset ps = mset ?ps" and v: "valid_curve ps"
      by (auto simp: curve_new_ok mset_sort_points)
    from v have "sorted_wrt by_input ps" by (simp add: valid_curve_def increasing_sorted_wrt)
    with v m show "2 \<le> length points \<and> list_all (\<lambda>(i, out). is_finite i \<and> is_finite out) points
      \<and> distinct (map fst points) \<and> mset ps = mset ?ps \<and> sorted_wrt by_input ps"
      using fin [OF m] dst [OF m] len [OF m] by (simp add: valid_curve_def by_input_distinct)
  next
    assume r: "2 \<le> length points \<and> list_all (\<lambda>(i, out). is_finite i \<and> is_finite out) points
      \<and> distinct (map fst points) \<and> mset ps = mset ?ps \<and> sorted_wrt by_input ps"
    have q: "mset ?q = mset ?ps" by (rule mset_sort_points)
    have "sorted_wrt by_input ?q"
      using r fin [OF q] fin [OF refl] dst [OF q]
      by (intro sorted_distinct_by_input sort_points_sorted) auto
    moreover have "set ?q = set ps" using r q by (metis mset_eq_setD)
    ultimately have eq: "ps = ?q" using r by (metis sorted_wrt_unique f64_less_asym)
    have "valid_curve ps"
      using r fin [of ps] len [of ps] by (simp add: valid_curve_def by_input_increasing)
    then show "curve_new points = Inr ps" using eq by (simp add: curve_new_ok)
  qed
qed

text \<open>A curve of percentages gives a finite percentage for every sensor value, rounding
  included: not a number and the infinities too (they give the least output).\<close>
theorem curve_output_percent:
  assumes "tame ps"
  shows "\<exists>v. curve_eval ps x = Some (Fin v) \<and> 0 \<le> v \<and> v \<le> 100"
  using assms by (rule curve_in_percent)

theorem curve_output_percent_witness:
  "\<exists>v. curve_eval gpu_points NaN = Some (Fin v) \<and> 0 \<le> v \<and> v \<le> 100"
  by (rule curve_output_percent) (rule gpu_points_tame)

text \<open>A rising curve (in steps that are doubles) never gives less output for a hotter
  sensor: the interpolation is monotone under binary64 rounding, across segments too.\<close>
theorem curve_rises:
  assumes "tame ps" "climbing ps" "x \<le> y"
  shows "\<exists>v w. curve_eval ps (Fin x) = Some (Fin v) \<and> curve_eval ps (Fin y) = Some (Fin w) \<and> v \<le> w"
proof -
  obtain p qs where ps: "ps = p # qs" "qs \<noteq> []"
    using tame_increasing [OF assms(1)] by (cases ps; cases "tl ps") auto
  note t = tame_increasing [OF assms(1)]
  obtain i a where p: "cp_input p = Fin i" "cp_output p = Fin a"
    using t ps by (auto elim!: tame_pointE)
  obtain l b where l: "cp_input (last ps) = Fin l" "cp_output (last ps) = Fin b"
    using tame_last [OF assms(1)] by (auto elim!: tame_pointE)
  have ab: "a \<le> b" using climbing_sorted [of ps] t assms(2) p l ps by (auto dest: bspec [of _ _ "last qs"])
  have mid: "\<exists>v w. eval_windows (windows2 ps) (Fin x') d = Fin v
      \<and> eval_windows (windows2 ps) (Fin y') d = Fin w \<and> a \<le> v \<and> v \<le> w \<and> w \<le> b"
    if "i \<le> x'" "x' \<le> y'" "y' \<le> l" for x' y' d
    using eval_windows_mono [of p qs x' y' d] t assms(2) ps that p l by auto
  show ?thesis
    using mid [of x y "Fin b"] mid [of x x "Fin b"] mid [of y y "Fin b"] ab assms(3) p l ps
    unfolding curve_eval_def by (auto split: if_splits)
qed

theorem curve_rises_witness:
  "\<exists>v w. curve_eval gpu_points (Fin 65) = Some (Fin v) \<and> curve_eval gpu_points (Fin 78) = Some (Fin w)
     \<and> v \<le> w"
  by (rule curve_rises [OF gpu_points_tame]) simp

text \<open>At a control point the curve gives that point's output, exactly.\<close>
theorem curve_hits_points:
  assumes "tame ps" "exact_steps ps" "p \<in> set ps"
  shows "curve_eval ps (cp_input p) = Some (cp_output p)"
proof -
  note t = tame_increasing [OF assms(1)]
  obtain q qs where ps: "ps = q # qs" using assms(3) by (cases ps) auto
  have fin: "is_finite (cp_input p)" "\<not> is_nan (cp_input p)"
    using t assms(3) by (auto simp: list_all_iff elim!: tame_pointE)
  show ?thesis
  proof (cases "p = q")
    case False
    then have q: "by_input q p" "p \<in> set (tl ps)" using t assms(3) ps by auto
    then have nq: "\<not> cp_input p \<le> cp_input q" by (metis f64_less_irrefl f64_less_le_trans)
    have ew: "eval_windows (windows2 ps) (cp_input p) d = cp_output p" for d
      using t assms(2) q by (intro eval_windows_knot) auto
    show ?thesis
    proof (cases "p = last ps")
      case False
      have "qs \<noteq> []" using q ps by auto
      then have "ps = butlast ps @ [last ps]" "p \<in> set (butlast ps)"
        using False assms(3) ps by (auto simp: append_butlast_last_id in_set_butlast_appendI
          dest: in_set_butlastD) (metis append_butlast_last_id in_set_conv_decomp set_ConsD rotate1.simps(2) set_rotate1)
      then have "by_input p (last ps)" using t by (metis sorted_wrt_append list.set_intros(1))
      then have "\<not> cp_input (last ps) \<le> cp_input p" by (metis f64_less_irrefl f64_less_le_trans)
      with nq ew fin ps show ?thesis by (simp add: curve_eval_def)
    qed (use nq fin ps in \<open>auto simp: curve_eval_def\<close>)
  qed (use fin ps in \<open>simp add: curve_eval_def\<close>)
qed

theorem curve_hits_points_witness:
  "curve_eval gpu_points (Fin 70) = Some (Fin 50)"
  using curve_hits_points [OF gpu_points_tame(1) climbing_exact_steps [OF gpu_points_tame(2)],
      of "\<lparr>cp_input = Fin 70, cp_output = Fin 50\<rparr>"]
  by (simp add: gpu_points_def point_def)

text \<open>Exporting a curve as tuples and importing it again gives the same curve.\<close>
lemma curve_export_import:
  assumes "curve_new points = Inr ps"
  shows "curve_new (as_tuples ps) = Inr ps"
  using curve_new_valid [OF assms] by (rule as_tuples_roundtrip)

end
