(* ===== verification/Rule.thy ===== *)
theory Rule
  imports Curve Ids
begin

section \<open>Automation rules\<close>

text \<open>
  \<open>crates/ohm-automation/src/rule.rs\<close>: a rule is data, \<open>source -> curve -> target\<close>, with an
  optional gate and its failure policy. This theory holds the types, the constructors, the
  id derivation (\<open>slugify\<close>), the reduction of several sensors to one value, and the
  validation every save goes through. Decoding YAML is serde's work and is not modelled;
  what the code adds to it (\<open>impl Deserialize for Rule\<close>: defaults, then the id) is
  \<open>rule_of_def\<close>. The clock is an argument.
\<close>

definition DEFAULT_UPDATE_INTERVAL_MS :: nat where "DEFAULT_UPDATE_INTERVAL_MS = 1000"
definition MIN_UPDATE_INTERVAL_MS :: nat where "MIN_UPDATE_INTERVAL_MS = 100"
definition DEFAULT_HYSTERESIS :: f64 where "DEFAULT_HYSTERESIS = Fin 2"
definition DEFAULT_DEADBAND :: f64 where "DEFAULT_DEADBAND = Fin (1 / 2)"

lemmas rule_consts [const_simps] =
  DEFAULT_UPDATE_INTERVAL_MS_def MIN_UPDATE_INTERVAL_MS_def DEFAULT_HYSTERESIS_def
  DEFAULT_DEADBAND_def

subsection \<open>Sensors\<close>

record sensor_ref =
  sr_device :: string
  sr_capability :: string

definition sensor_ref_id :: "sensor_ref \<Rightarrow> string" where
  "sensor_ref_id s = sr_device s @ ''/'' @ sr_capability s"

datatype aggregate = Agg_Max | Agg_Min | Agg_Avg

fun aggregate_str :: "aggregate \<Rightarrow> string" where
  "aggregate_str Agg_Max = ''max''"
| "aggregate_str Agg_Min = ''min''"
| "aggregate_str Agg_Avg = ''avg''"

definition reduce :: "aggregate \<Rightarrow> f64 list \<Rightarrow> f64 option" where
  "reduce agg vs = (let values = filter is_finite vs in
     if values = [] then None
     else Some (case agg of
       Agg_Max \<Rightarrow> foldl fmax NInf values
     | Agg_Min \<Rightarrow> foldl fmin PInf values
     | Agg_Avg \<Rightarrow> foldl (+) (Fin 0) values div f64_of_int (int (length values))))"

datatype source =
  Single string string
| Combined aggregate "sensor_ref list"

fun source_sensors :: "source \<Rightarrow> sensor_ref list" where
  "source_sensors (Single d c) = [\<lparr>sr_device = d, sr_capability = c\<rparr>]"
| "source_sensors (Combined _ ss) = ss"

fun source_aggregate :: "source \<Rightarrow> aggregate option" where
  "source_aggregate (Single _ _) = None"
| "source_aggregate (Combined a _) = Some a"

fun join_with :: "string \<Rightarrow> string list \<Rightarrow> string" where
  "join_with sep [] = []"
| "join_with sep [s] = s"
| "join_with sep (s # t # ts) = s @ sep @ join_with sep (t # ts)"

definition ascii_upper :: "char \<Rightarrow> char" where
  "ascii_upper c = (if is_ascii_lower c then char_of (byte c - 32) else c)"

fun source_label :: "source \<Rightarrow> string" where
  "source_label (Single d c) = d @ ''/'' @ c"
| "source_label (Combined a ss) =
     map ascii_upper (aggregate_str a) @ ''('' @ join_with '', '' (map sensor_ref_id ss) @ '')''"

record target =
  tg_device :: string
  tg_capability :: string

definition target_id :: "target \<Rightarrow> string" where
  "target_id t = tg_device t @ ''/'' @ tg_capability t"

subsection \<open>The failure policy\<close>

datatype fallback_action = Hold | SafeDefault | Fixed f64 | Release

fun fallback_action_str :: "fallback_action \<Rightarrow> string" where
  "fallback_action_str Hold = ''hold''"
| "fallback_action_str SafeDefault = ''safe_default''"
| "fallback_action_str (Fixed _) = ''fixed''"
| "fallback_action_str Release = ''release''"

fun fallback_duty :: "fallback_action \<Rightarrow> f64 \<Rightarrow> f64 option" where
  "fallback_duty Hold _ = None"
| "fallback_duty Release _ = None"
| "fallback_duty SafeDefault safe = Some safe"
| "fallback_duty (Fixed percent) _ = Some percent"

fun action_unsupported :: "fallback_action \<Rightarrow> bool" where
  "action_unsupported Release = True"
| "action_unsupported _ = False"

record fallback =
  on_sensor_missing :: fallback_action
  on_write_failure :: fallback_action
  sensor_timeout_s :: nat

definition default_fallback :: fallback where
  "default_fallback = \<lparr>on_sensor_missing = SafeDefault, on_write_failure = SafeDefault,
     sensor_timeout_s = 0\<rparr>"

subsection \<open>The gate\<close>

datatype comparator = Gt | Gte | Lt | Lte | Eq | Ne

text \<open>The literal \<open>1e-6\<close> is the double next to it.\<close>

definition EQUALITY_TOLERANCE :: f64 where
  "EQUALITY_TOLERANCE = rnd (1 / 10 ^ 6)"

definition all_comparators :: "comparator list" where
  "all_comparators = [Gt, Gte, Lt, Lte, Eq, Ne]"

fun comparator_str :: "comparator \<Rightarrow> string" where
  "comparator_str Gt = ''gt''"
| "comparator_str Gte = ''gte''"
| "comparator_str Lt = ''lt''"
| "comparator_str Lte = ''lte''"
| "comparator_str Eq = ''eq''"
| "comparator_str Ne = ''ne''"

text \<open>The mathematical signs are three UTF-8 bytes each.\<close>

fun comparator_symbol :: "comparator \<Rightarrow> string" where
  "comparator_symbol Gt = ''>''"
| "comparator_symbol Gte = [CHR 0xE2, CHR 0x89, CHR 0xA5]"
| "comparator_symbol Lt = ''<''"
| "comparator_symbol Lte = [CHR 0xE2, CHR 0x89, CHR 0xA4]"
| "comparator_symbol Eq = ''=''"
| "comparator_symbol Ne = [CHR 0xE2, CHR 0x89, CHR 0xA0]"

definition satisfied_by :: "comparator \<Rightarrow> f64 \<Rightarrow> f64 \<Rightarrow> bool" where
  "satisfied_by op reading threshold =
    (if \<not> is_finite reading \<or> \<not> is_finite threshold then False
     else (case op of
       Gt \<Rightarrow> threshold < reading
     | Gte \<Rightarrow> threshold \<le> reading
     | Lt \<Rightarrow> reading < threshold
     | Lte \<Rightarrow> reading \<le> threshold
     | Eq \<Rightarrow> \<bar>reading - threshold\<bar> \<le> EQUALITY_TOLERANCE
     | Ne \<Rightarrow> EQUALITY_TOLERANCE < \<bar>reading - threshold\<bar>))"

fun is_equality :: "comparator \<Rightarrow> bool" where
  "is_equality Eq = True"
| "is_equality Ne = True"
| "is_equality _ = False"

datatype otherwise_action = OtherwiseSafeDefault | OtherwiseFixed f64

fun otherwise_action_str :: "otherwise_action \<Rightarrow> string" where
  "otherwise_action_str OtherwiseSafeDefault = ''safe_default''"
| "otherwise_action_str (OtherwiseFixed _) = ''fixed''"

fun otherwise_duty :: "otherwise_action \<Rightarrow> f64 \<Rightarrow> f64 option" where
  "otherwise_duty OtherwiseSafeDefault safe = Some safe"
| "otherwise_duty (OtherwiseFixed percent) _ = Some percent"

record condition =
  cd_source :: sensor_ref
  cd_op :: comparator
  cd_value :: f64
  cd_otherwise :: otherwise_action

definition condition_new :: "string \<Rightarrow> string \<Rightarrow> comparator \<Rightarrow> f64 \<Rightarrow> condition" where
  "condition_new dev cap op value =
    \<lparr>cd_source = \<lparr>sr_device = dev, sr_capability = cap\<rparr>, cd_op = op, cd_value = value,
     cd_otherwise = OtherwiseSafeDefault\<rparr>"

definition condition_label :: "condition \<Rightarrow> message" where
  "condition_label c = [Txt (sensor_ref_id (cd_source c)), Txt '' '', Txt (comparator_symbol (cd_op c)),
     Txt '' '', Num (cp_output (point (Fin 0, cd_value c)))]"

text \<open>\<open>(0.0..=100.0).contains(&x)\<close>\<close>

definition in_percent :: "f64 \<Rightarrow> bool" where
  "in_percent x \<longleftrightarrow> Fin 0 \<le> x \<and> x \<le> Fin 100"

definition validate_condition :: "condition \<Rightarrow> unit result" where
  "validate_condition c =
    (if \<not> is_finite (cd_value c)
     then Inl (AutomationError [Txt ''a condition threshold must be a finite number''])
     else case cd_otherwise c of
       OtherwiseFixed percent \<Rightarrow> ensure (in_percent percent)
         (AutomationError [Txt ''when.otherwise.fixed percentage must be between 0 and 100''])
     | OtherwiseSafeDefault \<Rightarrow> Inr ())"

subsection \<open>A complete rule\<close>

record rule =
  rl_id :: string
  rl_name :: string
  rl_enabled :: bool
  rl_description :: "string option"
  rl_source :: source
  rl_when :: "condition option"
  rl_target :: target
  rl_curve :: curve
  rl_hysteresis :: f64
  rl_deadband :: f64
  rl_update_interval_ms :: nat
  rl_min_output :: "f64 option"
  rl_max_output :: "f64 option"
  rl_fallback :: fallback
  rl_priority :: nat
  rl_created_at_ms :: "int option"
  rl_updated_at_ms :: "int option"

text \<open>
  \<open>RuleDef\<close>, the decoded document: the fields with a serde default are options here, \<open>None\<close>
  when the document leaves them out.
\<close>

record rule_def =
  df_id :: "string option"
  df_name :: string
  df_enabled :: "bool option"
  df_description :: "string option"
  df_source :: source
  df_when :: "condition option"
  df_target :: target
  df_curve :: curve
  df_hysteresis :: "f64 option"
  df_deadband :: "f64 option"
  df_update_interval_ms :: "nat option"
  df_min_output :: "f64 option"
  df_max_output :: "f64 option"
  df_fallback :: "fallback option"
  df_priority :: "nat option"
  df_created_at_ms :: "int option"
  df_updated_at_ms :: "int option"

definition or_default :: "'a \<Rightarrow> 'a option \<Rightarrow> 'a" where
  "or_default d x = (case x of None \<Rightarrow> d | Some v \<Rightarrow> v)"

text \<open>\<open>slugify\<close>: the loop carries \<open>last_dash\<close>; the bytes of a non-ASCII character are handled
  like the character itself, since only the first of a run of other characters gives a dash.\<close>

fun slug_chars :: "bool \<Rightarrow> string \<Rightarrow> string" where
  "slug_chars last_dash [] = []"
| "slug_chars last_dash (c # cs) =
    (if is_ascii_alphanumeric c then ascii_lower c # slug_chars False cs
     else if \<not> last_dash then CHR ''-'' # slug_chars True cs
     else slug_chars last_dash cs)"

definition drop_end_dashes :: "string \<Rightarrow> string" where
  "drop_end_dashes s = rev (dropWhile (\<lambda>c. c = CHR ''-'') (rev s))"

definition slugify :: "string \<Rightarrow> string" where
  "slugify name = (let out = drop_end_dashes (slug_chars True name) in
     if out = [] then ''rule'' else out)"

definition rule_of_def :: "rule_def \<Rightarrow> rule result" where
  "rule_of_def df =
    and_then (case df_id df of Some i \<Rightarrow> new_id ''rule id'' i | None \<Rightarrow> Inr (slugify (df_name df)))
    (\<lambda>i. Inr \<lparr>rl_id = i, rl_name = df_name df, rl_enabled = or_default True (df_enabled df),
       rl_description = df_description df, rl_source = df_source df, rl_when = df_when df,
       rl_target = df_target df, rl_curve = df_curve df,
       rl_hysteresis = or_default DEFAULT_HYSTERESIS (df_hysteresis df),
       rl_deadband = or_default DEFAULT_DEADBAND (df_deadband df),
       rl_update_interval_ms = or_default DEFAULT_UPDATE_INTERVAL_MS (df_update_interval_ms df),
       rl_min_output = df_min_output df, rl_max_output = df_max_output df,
       rl_fallback = or_default default_fallback (df_fallback df),
       rl_priority = or_default 0 (df_priority df),
       rl_created_at_ms = df_created_at_ms df, rl_updated_at_ms = df_updated_at_ms df\<rparr>)"

definition is_conditional :: "rule \<Rightarrow> bool" where
  "is_conditional r \<longleftrightarrow> rl_when r \<noteq> None"

definition condition_source :: "rule \<Rightarrow> sensor_ref option" where
  "condition_source r = map_option cd_source (rl_when r)"

definition push_new :: "'a \<Rightarrow> 'a list \<Rightarrow> 'a list" where
  "push_new x xs = (if x \<in> set xs then xs else xs @ [x])"

definition rule_devices :: "rule \<Rightarrow> string list" where
  "rule_devices r =
    (let ds = map sr_device (source_sensors (rl_source r));
         ds = (case rl_when r of None \<Rightarrow> ds | Some c \<Rightarrow> push_new (sr_device (cd_source c)) ds)
     in push_new (tg_device (rl_target r)) ds)"

definition effective_output_range :: "rule \<Rightarrow> f64 \<times> f64" where
  "effective_output_range r =
    (or_default NInf (rl_min_output r), or_default PInf (rl_max_output r))"

definition target_as_sensor :: "rule \<Rightarrow> sensor_ref" where
  "target_as_sensor r =
    \<lparr>sr_device = tg_device (rl_target r), sr_capability = tg_capability (rl_target r)\<rparr>"

definition validate_limits :: "f64 option \<Rightarrow> f64 option \<Rightarrow> unit result" where
  "validate_limits lo hi =
    (case (lo, hi) of
       (Some a, Some b) \<Rightarrow>
         if b < a then Inl (AutomationError
             [Txt ''min_output ('', Num a, Txt '') is above max_output ('', Num b, Txt '')''])
         else if \<not> in_percent a
           then Inl (AutomationError [Txt ''min_output must be between 0 and 100''])
         else if \<not> in_percent b
           then Inl (AutomationError [Txt ''max_output must be between 0 and 100''])
         else Inr ()
     | (Some a, None) \<Rightarrow> ensure (in_percent a)
         (AutomationError [Txt ''min_output must be between 0 and 100''])
     | (None, Some b) \<Rightarrow> ensure (in_percent b)
         (AutomationError [Txt ''max_output must be between 0 and 100''])
     | (None, None) \<Rightarrow> Inr ())"

definition validate_percent :: "string \<Rightarrow> fallback_action \<Rightarrow> unit result" where
  "validate_percent name action = (case action of
     Fixed percent \<Rightarrow> ensure (in_percent percent)
       (AutomationError [Txt name, Txt '' percentage must be between 0 and 100''])
   | _ \<Rightarrow> Inr ())"

definition em_dash :: string where
  "em_dash = [CHR 0xE2, CHR 0x80, CHR 0x94]"

definition is_combined_empty :: "source \<Rightarrow> bool" where
  "is_combined_empty s = (case s of Combined _ ss \<Rightarrow> ss = [] | Single _ _ \<Rightarrow> False)"

definition validate_rule :: "rule \<Rightarrow> unit result" where
  "validate_rule r =
    (if trim (rl_name r) = [] then Inl (AutomationError [Txt ''a rule needs a name''])
     else and_then (validate_curve (rl_curve r)) (\<lambda>_.
     if source_sensors (rl_source r) = []
       then Inl (AutomationError [Txt ''a rule needs at least one source sensor''])
     else if is_combined_empty (rl_source r)
       then Inl (AutomationError [Txt ''a combined source needs at least one sensor''])
     else and_then (case rl_when r of None \<Rightarrow> Inr () | Some c \<Rightarrow>
         and_then (validate_condition c) (\<lambda>_.
           ensure (cd_source c \<noteq> target_as_sensor r) (AutomationError
             [Txt ''a condition may not read the capability the rule writes'']))) (\<lambda>_.
     if \<not> is_finite (rl_hysteresis r) \<or> rl_hysteresis r < Fin 0
       then Inl (AutomationError [Txt ''hysteresis must be zero or a positive number''])
     else if \<not> is_finite (rl_deadband r) \<or> rl_deadband r < Fin 0
       then Inl (AutomationError [Txt ''deadband must be zero or a positive number''])
     else if rl_update_interval_ms r < MIN_UPDATE_INTERVAL_MS
       then Inl (AutomationError [Txt ''update_interval_ms must be at least '',
              Dec (int MIN_UPDATE_INTERVAL_MS)])
     else and_then (validate_limits (rl_min_output r) (rl_max_output r)) (\<lambda>_.
     and_then (for_each (\<lambda>(name, action). ensure (\<not> action_unsupported action)
         (AutomationError [Txt name, Txt ('': `release` is not supported '' @ em_dash @
            '' no adapter in this build can hand a channel back while the app runs. Use '' @
            ''`safe_default` (the runtime's fail-safe duty) or `fixed: { percent: N }`.'')]))
       [(''fallback.on_sensor_missing'', on_sensor_missing (rl_fallback r)),
        (''fallback.on_write_failure'', on_write_failure (rl_fallback r))]) (\<lambda>_.
     and_then (validate_percent ''fallback.on_sensor_missing'' (on_sensor_missing (rl_fallback r))) (\<lambda>_.
       validate_percent ''fallback.on_write_failure'' (on_write_failure (rl_fallback r))))))))"

definition rule_new :: "int \<Rightarrow> string \<Rightarrow> string \<Rightarrow> source \<Rightarrow> target \<Rightarrow> curve \<Rightarrow> rule result" where
  "rule_new now_ms i name src tgt crv =
    and_then (new_id ''rule id'' i) (\<lambda>i.
     let r = \<lparr>rl_id = i, rl_name = name, rl_enabled = True, rl_description = None,
       rl_source = src, rl_when = None, rl_target = tgt, rl_curve = crv,
       rl_hysteresis = DEFAULT_HYSTERESIS, rl_deadband = DEFAULT_DEADBAND,
       rl_update_interval_ms = DEFAULT_UPDATE_INTERVAL_MS, rl_min_output = None,
       rl_max_output = None, rl_fallback = default_fallback, rl_priority = 0,
       rl_created_at_ms = Some now_ms, rl_updated_at_ms = None\<rparr>
     in and_then (validate_rule r) (\<lambda>_. Inr r))"

definition clamp_output :: "rule \<Rightarrow> f64 \<Rightarrow> f64 option" where
  "clamp_output r out = (let (low, high) = effective_output_range r in clamp_checked out low high)"

definition rule_summary :: "rule \<Rightarrow> message" where
  "rule_summary r = [Txt (rl_name r), Txt '': '', Txt (source_label (rl_source r)), Txt '' -> '',
     Txt (target_id (rl_target r)), Txt '' ('', Dec (int (length (rl_curve r))),
     Txt '' points, hysteresis '', Prec 1 (rl_hysteresis r), Txt '', every '',
     Dec (int (rl_update_interval_ms r)), Txt '' ms)''] @
     (case rl_when r of Some c \<Rightarrow> Txt '' when '' # condition_label c | None \<Rightarrow> [Txt []])"

definition gpu_cooling_example :: "int \<Rightarrow> rule result" where
  "gpu_cooling_example now_ms = and_then gpu_cooling_curve (\<lambda>crv.
     rule_new now_ms ''gpu-cooling'' ''GPU Cooling'' (Single ''gpu.mock.0'' ''temperature.core'')
       \<lparr>tg_device = ''fan.mock.0'', tg_capability = ''fan.speed_percent''\<rparr> crv)"

text \<open>The builders: each replaces one field, without validation.\<close>

definition with_description :: "rule \<Rightarrow> string \<Rightarrow> rule" where
  "with_description r s = r\<lparr>rl_description := Some s\<rparr>"
definition with_condition :: "rule \<Rightarrow> condition \<Rightarrow> rule" where
  "with_condition r c = r\<lparr>rl_when := Some c\<rparr>"
definition with_hysteresis :: "rule \<Rightarrow> f64 \<Rightarrow> rule" where
  "with_hysteresis r h = r\<lparr>rl_hysteresis := h\<rparr>"
definition with_deadband :: "rule \<Rightarrow> f64 \<Rightarrow> rule" where
  "with_deadband r d = r\<lparr>rl_deadband := d\<rparr>"
definition with_update_interval_ms :: "rule \<Rightarrow> nat \<Rightarrow> rule" where
  "with_update_interval_ms r ms = r\<lparr>rl_update_interval_ms := ms\<rparr>"
definition with_output_limits :: "rule \<Rightarrow> f64 \<Rightarrow> f64 \<Rightarrow> rule" where
  "with_output_limits r lo hi = r\<lparr>rl_min_output := Some lo, rl_max_output := Some hi\<rparr>"
definition with_fallback :: "rule \<Rightarrow> fallback \<Rightarrow> rule" where
  "with_fallback r fb = r\<lparr>rl_fallback := fb\<rparr>"

subsection \<open>What validation establishes\<close>

lemma validate_condition_ok:
  "validate_condition c = Inr () \<longleftrightarrow> is_finite (cd_value c)
     \<and> (\<forall>p. cd_otherwise c = OtherwiseFixed p \<longrightarrow> in_percent p)"
  by (auto simp: validate_condition_def result_simps split: otherwise_action.splits)

lemma validate_limits_ok:
  "validate_limits lo hi = Inr () \<longleftrightarrow>
     (\<forall>a. lo = Some a \<longrightarrow> in_percent a) \<and> (\<forall>b. hi = Some b \<longrightarrow> in_percent b)
   \<and> (\<forall>a b. lo = Some a \<longrightarrow> hi = Some b \<longrightarrow> \<not> b < a)"
  by (auto simp: validate_limits_def result_simps split: option.splits)

lemma validate_percent_ok:
  "validate_percent n a = Inr () \<longleftrightarrow> (\<forall>p. a = Fixed p \<longrightarrow> in_percent p)"
  by (auto simp: validate_percent_def result_simps split: fallback_action.splits)

definition action_ok :: "fallback_action \<Rightarrow> bool" where
  "action_ok a \<longleftrightarrow> a \<noteq> Release \<and> (\<forall>p. a = Fixed p \<longrightarrow> in_percent p)"

lemma action_unsupported_iff: "action_unsupported a \<longleftrightarrow> a = Release"
  by (cases a) simp_all

definition fallback_ok :: "fallback \<Rightarrow> bool" where
  "fallback_ok fb \<longleftrightarrow> action_ok (on_sensor_missing fb) \<and> action_ok (on_write_failure fb)"

text \<open>The specification of \<open>validate\<close>: everything a saved rule can be relied on for.\<close>

definition valid_rule :: "rule \<Rightarrow> bool" where
  "valid_rule r \<longleftrightarrow> trim (rl_name r) \<noteq> [] \<and> valid_curve (rl_curve r)
     \<and> source_sensors (rl_source r) \<noteq> []
     \<and> (\<forall>c. rl_when r = Some c \<longrightarrow> is_finite (cd_value c)
          \<and> (\<forall>p. cd_otherwise c = OtherwiseFixed p \<longrightarrow> in_percent p)
          \<and> cd_source c \<noteq> target_as_sensor r)
     \<and> is_finite (rl_hysteresis r) \<and> Fin 0 \<le> rl_hysteresis r
     \<and> is_finite (rl_deadband r) \<and> Fin 0 \<le> rl_deadband r
     \<and> 100 \<le> rl_update_interval_ms r
     \<and> (\<forall>a. rl_min_output r = Some a \<longrightarrow> in_percent a)
     \<and> (\<forall>b. rl_max_output r = Some b \<longrightarrow> in_percent b)
     \<and> (\<forall>a b. rl_min_output r = Some a \<longrightarrow> rl_max_output r = Some b \<longrightarrow> a \<le> b)
     \<and> fallback_ok (rl_fallback r)"

lemma in_percent_cases: "in_percent p \<Longrightarrow> \<exists>q. p = Fin q \<and> 0 \<le> q \<and> q \<le> 100"
  by (cases p) (auto simp: in_percent_def)

lemma finite_not_less: "is_finite h \<Longrightarrow> \<not> h < Fin 0 \<longleftrightarrow> Fin 0 \<le> h"
  by (auto simp: is_finite_iff)

lemma percent_not_less: "in_percent a \<Longrightarrow> in_percent b \<Longrightarrow> \<not> b < a \<longleftrightarrow> a \<le> b"
  by (auto dest!: in_percent_cases)

lemma nonempty_not_combined_empty:
  "source_sensors s \<noteq> [] \<Longrightarrow> \<not> is_combined_empty s"
  by (cases s) (auto simp: is_combined_empty_def)

lemma validate_limits_order:
  "validate_limits lo hi = Inr () \<longleftrightarrow>
     (\<forall>a. lo = Some a \<longrightarrow> in_percent a) \<and> (\<forall>b. hi = Some b \<longrightarrow> in_percent b)
   \<and> (\<forall>a b. lo = Some a \<longrightarrow> hi = Some b \<longrightarrow> a \<le> b)"
  unfolding validate_limits_ok using percent_not_less by (cases lo; cases hi) auto

lemma validate_gate_ok:
  "(case w of None \<Rightarrow> Inr () | Some c \<Rightarrow>
      and_then (validate_condition c) (\<lambda>_. ensure (cd_source c \<noteq> t) e)) = Inr () \<longleftrightarrow>
   (\<forall>c. w = Some c \<longrightarrow> is_finite (cd_value c)
      \<and> (\<forall>p. cd_otherwise c = OtherwiseFixed p \<longrightarrow> in_percent p) \<and> cd_source c \<noteq> t)"
  by (auto simp: result_simps validate_condition_ok split: option.splits)

lemma validate_actions_ok:
  "for_each (\<lambda>(name, action). ensure (\<not> action_unsupported action) (e name)) [(m, a), (n, b)] = Inr ()
     \<longleftrightarrow> a \<noteq> Release \<and> b \<noteq> Release"
  by (auto simp: result_simps action_unsupported_iff)

lemma finite_nonneg: "\<not> (\<not> is_finite h \<or> h < Fin 0) \<longleftrightarrow> is_finite h \<and> Fin 0 \<le> h"
  using finite_not_less by blast

lemma validate_rule_ok: "validate_rule r = Inr () \<longleftrightarrow> valid_rule r"
proof -
  have imp: "(if b then Inl e else k) = Inr () \<longleftrightarrow> \<not> b \<and> k = Inr ()" for b e and k :: "unit result"
    by simp
  have src: "ss \<noteq> [] \<and> \<not> is_combined_empty s \<and> p \<longleftrightarrow> ss \<noteq> [] \<and> p"
    if "ss = source_sensors s" for ss s p using nonempty_not_combined_empty that by blast
  have unit: "(\<exists>x. k = Inr x \<and> p) \<longleftrightarrow> k = Inr () \<and> p" for k :: "unit result" and p
    by auto
  show ?thesis
    unfolding validate_rule_def valid_rule_def imp and_then_Inr_iff unit validate_curve_ok
      validate_gate_ok validate_limits_order validate_percent_ok validate_actions_ok
      fallback_ok_def action_ok_def finite_nonneg src [OF refl] const_simps not_less
    by blast
qed


subsection \<open>The rule's output limits are a range limiter\<close>

lemma effective_range_ok: "valid_rule r \<Longrightarrow> fst (effective_output_range r) \<le> snd (effective_output_range r)"
  by (cases "rl_min_output r"; cases "rl_max_output r")
    (auto simp: effective_output_range_def or_default_def valid_rule_def dest!: in_percent_cases)

lemma clamp_output_total:
  "valid_rule r \<Longrightarrow> clamp_output r x =
     Some (fclamp x (fst (effective_output_range r)) (snd (effective_output_range r)))"
  using effective_range_ok [of r] by (simp add: clamp_output_def clamp_checked_def split_def Let_def)

interpretation rule_clamp: range_limiter
  valid_rule "\<lambda>r. fst (effective_output_range r)" "\<lambda>r. snd (effective_output_range r)"
  "\<lambda>r x. the (clamp_output r x)"
  by unfold_locales
    (auto simp: clamp_output_total effective_range_ok fclamp_ge fclamp_le fclamp_id fclamp_mono)

subsection \<open>Ids from names\<close>

text \<open>A slug: letters and digits in runs, one dash between two runs.\<close>

fun slug_ok :: "bool \<Rightarrow> string \<Rightarrow> bool" where
  "slug_ok last_dash [] \<longleftrightarrow> True"
| "slug_ok last_dash (c # cs) \<longleftrightarrow>
    (if is_ascii_lower c \<or> is_ascii_digit c then slug_ok False cs
     else c = CHR ''-'' \<and> \<not> last_dash \<and> slug_ok True cs)"

lemma lowered: "is_ascii_alphanumeric c \<Longrightarrow> is_ascii_lower (ascii_lower c) \<or> is_ascii_digit (ascii_lower c)"
  by (auto simp: is_ascii_alphanumeric_def ascii_lower_def is_ascii_upper_def is_ascii_lower_def
      byte_char_of)

lemma dash_not_alphanumeric:
  "\<not> is_ascii_lower CHR ''-''" "\<not> is_ascii_digit CHR ''-''" "\<not> is_ascii_alphanumeric CHR ''-''"
  by (simp_all add: is_ascii_lower_def is_ascii_digit_def is_ascii_alphanumeric_def
      is_ascii_upper_def byte_def)

lemma slug_ok_slug_chars: "slug_ok b (slug_chars b s)"
  by (induction b s rule: slug_chars.induct) (auto simp: lowered dash_not_alphanumeric)

lemma lower_fixed: "is_ascii_lower c \<or> is_ascii_digit c \<Longrightarrow> is_ascii_alphanumeric c \<and> ascii_lower c = c"
  by (auto simp: is_ascii_alphanumeric_def ascii_lower_def is_ascii_upper_def is_ascii_lower_def
      is_ascii_digit_def)

lemma slug_chars_id: "slug_ok b s \<Longrightarrow> slug_chars b s = s"
  by (induction b s rule: slug_ok.induct)
    (auto simp: lower_fixed dash_not_alphanumeric split: if_splits)

lemma slug_ok_append: "slug_ok b (s @ t) \<Longrightarrow> slug_ok b s"
  by (induction b s rule: slug_ok.induct) (auto split: if_splits)

lemma drop_end_dashes_prefix: "\<exists>t. s = drop_end_dashes s @ t"
proof -
  have "rev s = takeWhile (\<lambda>c. c = CHR ''-'') (rev s) @ dropWhile (\<lambda>c. c = CHR ''-'') (rev s)"
    by simp
  then have "s = rev (takeWhile (\<lambda>c. c = CHR ''-'') (rev s) @ dropWhile (\<lambda>c. c = CHR ''-'') (rev s))"
    by (metis rev_rev_ident)
  then show ?thesis unfolding drop_end_dashes_def rev_append by blast
qed

lemma drop_end_dashes_idem [simp]: "drop_end_dashes (drop_end_dashes s) = drop_end_dashes s"
  by (simp add: drop_end_dashes_def dropWhile_idem)

lemma slug_ok_drop: "slug_ok b s \<Longrightarrow> slug_ok b (drop_end_dashes s)"
  using drop_end_dashes_prefix [of s] slug_ok_append by metis

lemma slug_rule: "slug_ok True ''rule'' \<and> drop_end_dashes ''rule'' = ''rule''"
  by (simp add: is_ascii_lower_def byte_def drop_end_dashes_def)

lemma slugify_slug:
  "slug_ok True (slugify n) \<and> drop_end_dashes (slugify n) = slugify n \<and> slugify n \<noteq> []"
proof (cases "drop_end_dashes (slug_chars True n) = []")
  case True
  then have "slugify n = ''rule''" by (simp add: slugify_def)
  then show ?thesis by (simp only: slug_rule) simp
next
  case False
  then have "slugify n = drop_end_dashes (slug_chars True n)" by (simp add: slugify_def)
  then show ?thesis using slug_ok_drop [OF slug_ok_slug_chars, of True n] False by (simp only:) simp
qed

lemma slug_ok_id_chars: "slug_ok b s \<Longrightarrow> list_all id_char s"
  by (induction b s rule: slug_ok.induct) (auto simp: id_char_def split: if_splits)

lemma length_slug_chars: "length (slug_chars b s) \<le> length s"
  by (induction b s rule: slug_chars.induct) auto

lemma length_slugify: "length (slugify n) \<le> max 4 (length n)"
proof -
  have "length (drop_end_dashes s) \<le> length s" for s
    using drop_end_dashes_prefix [of s] by (metis le_add1 length_append)
  from this [of "slug_chars True n"] length_slug_chars [of True n] show ?thesis
    by (auto simp: slugify_def Let_def)
qed

subsection \<open>Several sensors, one value\<close>

lemma foldl_fmax_cases: "foldl fmax a xs = a \<or> foldl fmax a xs \<in> set xs"
proof (induction xs arbitrary: a)
  case (Cons x xs)
  from Cons [of "fmax a x"] fmax_cases [of a x] show ?case by auto
qed simp

lemma foldl_fmax_ge: "\<not> is_nan a \<Longrightarrow> list_all is_finite xs \<Longrightarrow>
    a \<le> foldl fmax a xs \<and> (\<forall>x \<in> set xs. x \<le> foldl fmax a xs)"
proof (induction xs arbitrary: a)
  case (Cons x xs)
  then have n: "\<not> is_nan x" "\<not> is_nan (fmax a x)" "a \<le> fmax a x" "x \<le> fmax a x"
    using fmax_cases [of a x] by (auto simp: is_finite_not_nan intro: fmax_ge1 fmax_ge2)
  with Cons.IH [of "fmax a x"] Cons.prems show ?case by (auto intro: f64_le_trans)
qed simp


lemma foldl_fmin_le: "\<not> is_nan a \<Longrightarrow> list_all is_finite xs \<Longrightarrow>
    foldl fmin a xs \<le> a \<and> (\<forall>x \<in> set xs. foldl fmin a xs \<le> x)"
proof (induction xs arbitrary: a)
  case (Cons x xs)
  then have n: "\<not> is_nan x" "\<not> is_nan (fmin a x)" "fmin a x \<le> a" "fmin a x \<le> x"
    using fmin_cases [of a x] by (auto simp: is_finite_not_nan intro: fmin_le1 fmin_le2)
  with Cons.IH [of "fmin a x"] Cons.prems show ?case by (auto intro: f64_le_trans)
qed simp

lemma list_all_filter: "list_all P (filter P xs)"
  by (simp add: list_all_iff)

lemma foldl_fmax_mem:
  assumes "xs \<noteq> []" "list_all is_finite xs" shows "foldl fmax NInf xs \<in> set xs"
proof -
  obtain x ys where xs: "xs = x # ys" using assms(1) by (cases xs) auto
  then have "foldl fmax NInf xs = foldl fmax x ys"
    using assms(2) by (auto simp: is_finite_not_nan)
  with foldl_fmax_cases [of x ys] xs show ?thesis by auto
qed

lemma foldl_fmin_mem:
  assumes "xs \<noteq> []" "list_all is_finite xs" shows "foldl fmin PInf xs \<in> set xs"
proof -
  obtain x ys where xs: "xs = x # ys" using assms(1) by (cases xs) auto
  then have "foldl fmin PInf xs = foldl fmin x ys"
    using assms(2) by (auto simp: is_finite_not_nan)
  with foldl_fmin_cases [of x ys] xs show ?thesis by auto
qed

text \<open>The greatest and the least of the finite readings; anything else is ignored.\<close>

definition hottest :: "f64 list \<Rightarrow> f64 \<Rightarrow> bool" where
  "hottest vs m \<longleftrightarrow> m \<in> set vs \<and> is_finite m \<and> (\<forall>v \<in> set vs. is_finite v \<longrightarrow> v \<le> m)"

definition coolest :: "f64 list \<Rightarrow> f64 \<Rightarrow> bool" where
  "coolest vs m \<longleftrightarrow> m \<in> set vs \<and> is_finite m \<and> (\<forall>v \<in> set vs. is_finite v \<longrightarrow> m \<le> v)"

lemma hottest_unique: "hottest vs m \<Longrightarrow> hottest vs n \<Longrightarrow> m = n"
  by (auto simp: hottest_def intro: f64_antisym)

lemma coolest_unique: "coolest vs m \<Longrightarrow> coolest vs n \<Longrightarrow> m = n"
  by (auto simp: coolest_def intro: f64_antisym)

lemma reduce_max: "filter is_finite vs \<noteq> [] \<Longrightarrow> \<exists>m. reduce Agg_Max vs = Some m \<and> hottest vs m"
  using foldl_fmax_mem [of "filter is_finite vs"] foldl_fmax_ge [of NInf "filter is_finite vs"]
  by (auto simp: reduce_def hottest_def list_all_filter)

lemma reduce_min: "filter is_finite vs \<noteq> [] \<Longrightarrow> \<exists>m. reduce Agg_Min vs = Some m \<and> coolest vs m"
  using foldl_fmin_mem [of "filter is_finite vs"] foldl_fmin_le [of PInf "filter is_finite vs"]
  by (auto simp: reduce_def coolest_def list_all_filter)

lemma reduce_none: "reduce agg vs = None \<longleftrightarrow> filter is_finite vs = []"
  by (simp add: reduce_def Let_def)

subsection \<open>The documented example\<close>

definition example_rule :: rule where
  "example_rule = \<lparr>rl_id = ''gpu-cooling'', rl_name = ''GPU Cooling'', rl_enabled = True,
     rl_description = None, rl_source = Single ''gpu.mock.0'' ''temperature.core'', rl_when = None,
     rl_target = \<lparr>tg_device = ''fan.mock.0'', tg_capability = ''fan.speed_percent''\<rparr>,
     rl_curve = gpu_points, rl_hysteresis = Fin 2, rl_deadband = Fin (1 / 2),
     rl_update_interval_ms = 1000, rl_min_output = None, rl_max_output = None,
     rl_fallback = default_fallback, rl_priority = 0, rl_created_at_ms = Some 0,
     rl_updated_at_ms = None\<rparr>"

lemma example_name: "trim ''GPU Cooling'' \<noteq> []"
  by code_simp

lemma example_rule_valid: "valid_rule example_rule"
  using gpu_points_valid example_name
  by (auto simp: valid_rule_def example_rule_def gpu_cooling_curve_def curve_new_ok
      default_fallback_def fallback_ok_def action_ok_def)

lemma example_id: "validate_id ''gpu-cooling'' k = Inr ()"
  by (simp add: validate_id_ok max_id_len_def id_char_def is_ascii_lower_def byte_def)

lemma gpu_cooling_example_ok: "gpu_cooling_example 0 = Inr example_rule"
proof -
  have "rule_new 0 ''gpu-cooling'' ''GPU Cooling'' (Single ''gpu.mock.0'' ''temperature.core'')
      \<lparr>tg_device = ''fan.mock.0'', tg_capability = ''fan.speed_percent''\<rparr> gpu_points = Inr example_rule"
    using example_rule_valid [folded validate_rule_ok]
    by (simp add: rule_new_def new_id_def example_id Let_def const_simps
        flip: example_rule_def)
  then show ?thesis by (simp add: gpu_cooling_example_def gpu_points_valid)
qed

definition limited_rule :: rule where
  "limited_rule = with_output_limits example_rule (Fin 25) (Fin 90)"

lemma limited_rule_valid: "valid_rule limited_rule"
  using example_rule_valid
  by (simp add: limited_rule_def with_output_limits_def valid_rule_def in_percent_def
      target_as_sensor_def)

subsection \<open>Properties of rules\<close>

text \<open>Combining sensors picks the hottest finite reading (\<open>max\<close>) or the coolest
  (\<open>min\<close>), whatever broken sensors report beside it, and gives nothing exactly when no
  reading is finite.\<close>
theorem reduce_picks:
  "(reduce Agg_Max vs = Some m \<longleftrightarrow> hottest vs m) \<and> (reduce Agg_Min vs = Some m \<longleftrightarrow> coolest vs m)
   \<and> (reduce agg vs = None \<longleftrightarrow> (\<nexists>v. v \<in> set vs \<and> is_finite v))"
proof (cases "filter is_finite vs = []")
  case True
  then show ?thesis
    by (auto simp: reduce_none hottest_def coolest_def reduce_def filter_empty_conv)
next
  case False
  from reduce_max [OF this] reduce_min [OF this] obtain m1 m2 where
    "reduce Agg_Max vs = Some m1" "hottest vs m1" "reduce Agg_Min vs = Some m2" "coolest vs m2"
    by blast
  then show ?thesis
    using hottest_unique coolest_unique reduce_none [of agg vs] False
    by (auto simp: filter_empty_conv)
qed

text \<open>Clamping to the limits of a validated rule never panics and keeps a number within
  them; a value within them is unchanged.\<close>
theorem clamp_output_in_limits:
  assumes "validate_rule r = Inr ()" "\<not> is_nan x"
  shows "\<exists>v. clamp_output r x = Some v
     \<and> fst (effective_output_range r) \<le> v \<and> v \<le> snd (effective_output_range r)
     \<and> (fst (effective_output_range r) \<le> x \<and> x \<le> snd (effective_output_range r) \<longrightarrow> v = x)"
proof -
  have "valid_rule r" using assms(1) by (simp add: validate_rule_ok)
  with rule_clamp.limit_range [OF this assms(2)] rule_clamp.limit_id [OF this, of x] show ?thesis
    by (auto simp: clamp_output_total)
qed

theorem clamp_output_in_limits_witness:
  "\<exists>v. clamp_output limited_rule (Fin 7) = Some v
     \<and> fst (effective_output_range limited_rule) \<le> v \<and> v \<le> snd (effective_output_range limited_rule)"
  using clamp_output_in_limits [of limited_rule "Fin 7"]
  by (auto simp: validate_rule_ok limited_rule_valid)

text \<open>The id derived from a name of at most 96 bytes is always a valid id, and deriving it
  again from itself changes nothing (so a rule file's id is stable).\<close>
theorem slugify_valid_id:
  assumes "length name \<le> max_id_len"
  shows "validate_id (slugify name) kind = Inr () \<and> slugify (slugify name) = slugify name"
proof -
  note s = slugify_slug [of name]
  have "slugify (slugify name) = slugify name"
    using s slug_chars_id [of True "slugify name"] by (simp add: slugify_def [of "slugify name"])
  moreover have "length (slugify name) \<le> max_id_len"
    using assms length_slugify [of name] by (simp add: max_id_len_def)
  ultimately show ?thesis using s by (auto simp: validate_id_ok slug_ok_id_chars)
qed

theorem slugify_valid_id_witness:
  "validate_id (slugify ''GPU Cooling!'') ''rule id'' = Inr () \<and> slugify (slugify ''GPU Cooling!'') = slugify ''GPU Cooling!''"
  by (rule slugify_valid_id) (simp add: max_id_len_def)

end
