(* ===== verification/Hwmon.thy ===== *)
theory Hwmon
  imports Adapter_Api Rule
begin

section \<open>hwmon fan channels\<close>

text \<open>
  \<open>adapters/system/src/hwmon.rs\<close>: the fan channels that Linux shows as files, who owns each one's
  duty, and how control of a channel is taken and given back. The file system is modelled by
  what the code observes of it: the text of a file, the error a read or a write of it gives, and the
  names in a directory. A write that is accepted is what the next read returns.
\<close>

subsection \<open>Parsing\<close>

definition parse_digits :: "string \<Rightarrow> nat option" where
  "parse_digits s = (if s = [] \<or> \<not> list_all is_ascii_digit s then None else Some (read_dec 0 s))"

definition parse_i64 :: "string \<Rightarrow> int option" where
  "parse_i64 s = (case s of
     [] \<Rightarrow> None
   | c # r \<Rightarrow>
       (let v = (if c = CHR ''-'' then map_option (\<lambda>n. - int n) (parse_digits r)
                 else if c = CHR ''+'' then map_option int (parse_digits r)
                 else map_option int (parse_digits s))
        in Option.bind v (\<lambda>n. if i64_min \<le> n \<and> n \<le> i64_max then Some n else None)))"

definition parse_nat :: "nat \<Rightarrow> string \<Rightarrow> nat option" where
  "parse_nat limit s = (let digits = (case s of c # r \<Rightarrow> if c = CHR ''+'' then r else s | [] \<Rightarrow> [])
     in Option.bind (parse_digits digits) (\<lambda>n. if n \<le> limit then Some n else None))"

definition parse_u32 :: "string \<Rightarrow> nat option" where
  "parse_u32 = parse_nat u32_max"

text \<open>
  \<open>f64::from_str\<close>: a sign, then a name or decimal digits with a point and an exponent, rounded once.
  Nothing is in it that is not ASCII, so the text is split at bytes.
\<close>

definition split_at :: "(char \<Rightarrow> bool) \<Rightarrow> string \<Rightarrow> string \<times> string option" where
  "split_at p s = (takeWhile (\<lambda>c. \<not> p c) s,
     case dropWhile (\<lambda>c. \<not> p c) s of [] \<Rightarrow> None | _ # r \<Rightarrow> Some r)"

definition parse_exponent :: "string \<Rightarrow> int option" where
  "parse_exponent s = (case s of
     [] \<Rightarrow> None
   | c # r \<Rightarrow> if c = CHR ''-'' then map_option (\<lambda>n. - int n) (parse_digits r)
             else if c = CHR ''+'' then map_option int (parse_digits r)
             else map_option int (parse_digits s))"

definition parse_magnitude :: "string \<Rightarrow> rat option" where
  "parse_magnitude s =
    (let (mantissa, expo) = split_at (\<lambda>c. c = CHR ''e'' \<or> c = CHR ''E'') s;
         (whole, frac) = split_at (\<lambda>c. c = CHR ''.'') mantissa;
         digits = whole @ (case frac of None \<Rightarrow> [] | Some f \<Rightarrow> f)
     in if digits = [] \<or> \<not> list_all is_ascii_digit digits then None
        else Option.bind (case expo of None \<Rightarrow> Some 0 | Some x \<Rightarrow> parse_exponent x) (\<lambda>e.
          Some (of_nat (read_dec 0 digits)
            * 10 powi (e - int (case frac of None \<Rightarrow> 0 | Some f \<Rightarrow> length f)))))"

definition parse_unsigned :: "string \<Rightarrow> f64 option" where
  "parse_unsigned s =
    (let word = map ascii_lower s in
     if word = ''inf'' \<or> word = ''infinity'' then Some PInf
     else if word = ''nan'' then Some NaN
     else map_option rnd (parse_magnitude s))"

definition parse_f64 :: "string \<Rightarrow> f64 option" where
  "parse_f64 s = (case s of
     [] \<Rightarrow> None
   | c # r \<Rightarrow> if c = CHR ''-'' then map_option fneg (parse_unsigned r)
             else if c = CHR ''+'' then parse_unsigned r else parse_unsigned s)"

text \<open>\<open>{:?}\<close> of a string, for the text a platform file may hold. Beyond ASCII Rust also escapes the
  characters it deems unprintable; here they stay as they are.\<close>

definition hex_lower :: "nat \<Rightarrow> char" where
  "hex_lower d = (if d < 10 then char_of (48 + d) else char_of (87 + d))"

definition debug_char :: "char \<Rightarrow> string" where
  "debug_char c = (let b = byte c in
     if b = 34 \<or> b = 92 then [char_of (92::nat), c]
     else if b = 10 then [char_of (92::nat), CHR ''n'']
     else if b = 13 then [char_of (92::nat), CHR ''r'']
     else if b = 9 then [char_of (92::nat), CHR ''t'']
     else if b = 0 then [char_of (92::nat), CHR ''0'']
     else if b < 16 then [char_of (92::nat), CHR ''u'', CHR ''{'', hex_lower b, CHR ''}'']
     else if b < 32 \<or> b = 127 then [char_of (92::nat), CHR ''u'', CHR ''{'', hex_lower (b div 16), hex_lower (b mod 16), CHR ''}'']
     else [c])"

definition debug_str :: "string \<Rightarrow> string" where
  "debug_str s = [char_of (34::nat)] @ concat (map debug_char s) @ [char_of (34::nat)]"

subsection \<open>The file system\<close>

datatype io_kind = IO_NotFound | IO_PermissionDenied | IO_Other

record io_error =
  io_kind :: io_kind
  io_text :: string

record fs_file =
  fl_text :: string
  fl_regular :: bool
  fl_read_error :: "io_error option"
  fl_write_error :: "io_error option"

record filesystem =
  fs_files :: "string \<rightharpoonup> fs_file"
  fs_dirs :: "string \<Rightarrow> io_error + string list"
  fs_create_error :: "io_error option"

definition not_found :: io_error where
  "not_found = \<lparr>io_kind = IO_NotFound, io_text = ''No such file or directory (os error 2)''\<rparr>"

definition read_to_string :: "filesystem \<Rightarrow> string \<Rightarrow> io_error + string" where
  "read_to_string fs p = (case fs_files fs p of None \<Rightarrow> Inl not_found
     | Some f \<Rightarrow> (case fl_read_error f of Some e \<Rightarrow> Inl e | None \<Rightarrow> Inr (fl_text f)))"

definition put_text :: "string \<Rightarrow> string \<Rightarrow> filesystem \<Rightarrow> filesystem" where
  "put_text p s fs = fs\<lparr>fs_files := (fs_files fs)(p \<mapsto>
     (case fs_files fs p of Some f \<Rightarrow> f\<lparr>fl_text := s\<rparr>
      | None \<Rightarrow> \<lparr>fl_text = s, fl_regular = True, fl_read_error = None, fl_write_error = None\<rparr>))\<rparr>"

text \<open>\<open>fs::write\<close> creates a missing file where the directory allows it.\<close>

definition open_error :: "filesystem \<Rightarrow> string \<Rightarrow> io_error option" where
  "open_error fs p = (case fs_files fs p of None \<Rightarrow> Some not_found | Some f \<Rightarrow> fl_write_error f)"

definition write_file :: "string \<Rightarrow> string \<Rightarrow> filesystem \<Rightarrow> (io_error + unit) \<times> filesystem" where
  "write_file p s fs =
    (case (case fs_files fs p of None \<Rightarrow> fs_create_error fs | Some f \<Rightarrow> fl_write_error f) of
       Some e \<Rightarrow> (Inl e, fs) | None \<Rightarrow> (Inr (), put_text p s fs))"

definition is_file :: "filesystem \<Rightarrow> string \<Rightarrow> bool" where
  "is_file fs p = (case fs_files fs p of None \<Rightarrow> False | Some f \<Rightarrow> fl_regular f)"

definition path_join :: "string \<Rightarrow> string \<Rightarrow> string" where
  "path_join d n = (if d = [] \<or> last d = CHR ''/'' then d @ n else d @ ''/'' @ n)"

type_synonym problem = "unavailable_reason \<times> string"

definition classify :: "io_error \<Rightarrow> string \<Rightarrow> problem" where
  "classify e p = (let detail = p @ '': '' @ io_text e in
     case io_kind e of IO_NotFound \<Rightarrow> (NotPresent, detail)
     | IO_PermissionDenied \<Rightarrow> (PermissionDenied, detail)
     | IO_Other \<Rightarrow> (ReadError, detail))"

definition read_number :: "filesystem \<Rightarrow> string \<Rightarrow> problem + f64" where
  "read_number fs p = (case read_to_string fs p of Inl e \<Rightarrow> Inl (classify e p)
     | Inr raw \<Rightarrow> (case parse_f64 (trim raw) of Some x \<Rightarrow> Inr x
         | None \<Rightarrow> Inl (ReadError, ''not a number: '' @ debug_str (trim raw))))"

subsection \<open>Control modes\<close>

datatype control_mode =
  Automatic int
| Manual_Mode
| Other_Mode int
| Unknown_Mode unavailable_reason string

definition from_restored :: "int \<Rightarrow> control_mode" where
  "from_restored v = (if v = 1 then Manual_Mode else if v = 2 \<or> v = 3 then Automatic v else Other_Mode v)"

definition from_sysfs :: "string \<Rightarrow> control_mode" where
  "from_sysfs raw = (case parse_i64 (trim raw) of
     Some v \<Rightarrow> (if v = 1 then Manual_Mode else if v = 2 \<or> v = 3 then Automatic v else Other_Mode v)
   | None \<Rightarrow> Unknown_Mode ReadError (''pwm_enable is not a number ('' @ debug_str (trim raw) @ '')''))"

fun restorable_value :: "control_mode \<Rightarrow> int option" where
  "restorable_value Manual_Mode = Some 1"
| "restorable_value (Automatic v) = Some v"
| "restorable_value (Other_Mode v) = Some v"
| "restorable_value (Unknown_Mode _ _) = None"

fun describe_mode :: "control_mode \<Rightarrow> string" where
  "describe_mode (Automatic v) = (if v = 3 then ''the driver controls this channel with its own curve''
     else ''the driver controls this channel'')"
| "describe_mode Manual_Mode = ''software is expected to set this channel''"
| "describe_mode (Other_Mode v) = (if v = 0 then ''no control; the channel runs at full speed''
     else ''unrecognised control mode '' @ dec_int v)"
| "describe_mode (Unknown_Mode r d) = ''control mode unreadable ('' @ reason_code r @ ''): '' @ d"

subsection \<open>Fan channels\<close>

record fan_channel =
  fc_chip :: string
  fc_channel :: nat
  fc_label :: "string option"
  fc_rpm :: "string option"
  fc_pwm :: "string option"
  fc_mode :: "(string \<times> control_mode) option"

definition slug :: "string \<Rightarrow> string" where
  "slug s = (let out = normalise s in if out = [] then ''hwmon'' else out)"

definition channel_device_id :: "fan_channel \<Rightarrow> string" where
  "channel_device_id f = ''fan.system.'' @ slug (fc_chip f) @ ''_fan'' @ dec_nat (fc_channel f)"

definition display_name :: "fan_channel \<Rightarrow> string" where
  "display_name f = (case fc_label f of
     Some l \<Rightarrow> (if trim l \<noteq> [] then trim l @ '' '' @ em_dash @ '' '' @ fc_chip f
               else fc_chip f @ '' fan '' @ dec_nat (fc_channel f))
   | None \<Rightarrow> fc_chip f @ '' fan '' @ dec_nat (fc_channel f))"

definition PWM_FULL_SCALE :: f64 where "PWM_FULL_SCALE = Fin 255"

definition read_pwm :: "filesystem \<Rightarrow> fan_channel \<Rightarrow> (problem + f64 \<times> int) option" where
  "read_pwm fs f = map_option (\<lambda>p. case read_number fs p of
     Inr raw \<Rightarrow> Inr (fclamp (raw div PWM_FULL_SCALE * Fin 100) (Fin 0) (Fin 100), f64_to_i64 raw)
   | Inl e \<Rightarrow> Inl e) (fc_pwm f)"

definition read_rpm :: "filesystem \<Rightarrow> fan_channel \<Rightarrow> (problem + f64) option" where
  "read_rpm fs f = map_option (read_number fs) (fc_rpm f)"

definition channel_words :: "fan_channel \<Rightarrow> string" where
  "channel_words f = fc_chip f @ '' channel '' @ dec_nat (fc_channel f)"

definition pwm_byte :: "f64 \<Rightarrow> int" where
  "pwm_byte percent = f64_to_i64 (fround (fclamp percent (Fin 0) (Fin 100) div Fin 100 * PWM_FULL_SCALE))"

definition set_pwm :: "fan_channel \<Rightarrow> f64 \<Rightarrow> filesystem \<Rightarrow> (problem + int) \<times> filesystem" where
  "set_pwm f percent fs = (case fc_pwm f of
     None \<Rightarrow> (Inl (Unsupported,
       channel_words f @ '' exposes no pwm file, so this build cannot set its duty''), fs)
   | Some p \<Rightarrow>
       if \<not> is_finite percent then
         (Inl (ReadError, ''refusing to write a non-finite duty ('' @ trim_float percent @ '')''), fs)
       else (let raw = pwm_byte percent in
         (case write_file p (dec_int raw @ [CHR 0x0A]) fs of
            (Inl e, fs) \<Rightarrow> (Inl (classify e p), fs) | (Inr _, fs) \<Rightarrow> (Inr raw, fs))))"

definition mode_at :: "filesystem \<Rightarrow> string \<Rightarrow> control_mode" where
  "mode_at fs p = (case read_to_string fs p of
     Inr raw \<Rightarrow> from_sysfs raw
   | Inl e \<Rightarrow> (let (r, d) = classify e p in Unknown_Mode r d))"

definition current_mode :: "filesystem \<Rightarrow> fan_channel \<Rightarrow> control_mode option" where
  "current_mode fs f = map_option (\<lambda>(p, _). mode_at fs p) (fc_mode f)"

definition read_mode :: "filesystem \<Rightarrow> fan_channel \<Rightarrow> problem option" where
  "read_mode fs f = Option.bind (fc_mode f) (\<lambda>(p, _). case read_to_string fs p of
     Inr raw \<Rightarrow> (case from_sysfs raw of Unknown_Mode r d \<Rightarrow> Some (r, d) | _ \<Rightarrow> None)
   | Inl e \<Rightarrow> Some (classify e p))"

definition take_control :: "fan_channel \<Rightarrow> filesystem
    \<Rightarrow> (problem + control_mode option) \<times> filesystem" where
  "take_control f fs = (case fc_mode f of
     None \<Rightarrow> (Inr None, fs)
   | Some (p, _) \<Rightarrow> (case current_mode fs f of
       None \<Rightarrow> (Inr None, fs)
     | Some mode \<Rightarrow> (case mode of
         Manual_Mode \<Rightarrow> (Inr None, fs)
       | Unknown_Mode reason detail \<Rightarrow> (Inl (reason, ''refusing to write '' @ channel_words f
           @ '': its ownership could not be read ('' @ detail @ '')''), fs)
       | _ \<Rightarrow> if restorable_value mode = None then
             (Inl (Unsupported, ''refusing to take control of '' @ channel_words f @ '': ''
               @ describe_mode mode), fs)
           else (case write_file p [CHR ''1'', CHR 0x0A] fs of
               (Inl e, fs) \<Rightarrow> (Inl (classify e p), fs)
             | (Inr _, fs) \<Rightarrow> (Inr (Some mode), fs)))))"

definition restore_control :: "fan_channel \<Rightarrow> control_mode option \<Rightarrow> filesystem
    \<Rightarrow> (string + unit) \<times> filesystem" where
  "restore_control f original fs = (case original of
     None \<Rightarrow> (Inr (), fs)
   | Some mode \<Rightarrow> (case fc_mode f of
       None \<Rightarrow> (Inr (), fs)
     | Some (p, _) \<Rightarrow> (case restorable_value mode of
         Some v \<Rightarrow> (case write_file p (dec_int v @ [CHR 0x0A]) fs of
             (Inl e, fs) \<Rightarrow> (Inl (''could not restore '' @ p @ '': '' @ io_text e), fs)
           | (Inr _, fs) \<Rightarrow> (Inr (), fs))
       | None \<Rightarrow> (Inl (''not restoring '' @ channel_words f @ '': the mode it had could not be read, ''
           @ ''and writing a guess would decide who owns this fan''), fs))))"

subsection \<open>Scanning the tree\<close>

record hwmon_chip =
  hc_directory :: string
  hc_name :: string
  hc_fans :: "fan_channel list"

record hwmon_tree =
  ht_chips :: "hwmon_chip list"
  ht_notes :: "string list"

definition channels :: "hwmon_tree \<Rightarrow> (hwmon_chip \<times> fan_channel) list" where
  "channels t = concat (map (\<lambda>c. map (Pair c) (hc_fans c)) (ht_chips t))"

definition tree_is_empty :: "hwmon_tree \<Rightarrow> bool" where
  "tree_is_empty t = list_all (\<lambda>c. hc_fans c = []) (ht_chips t)"

definition channel_by_device_id :: "hwmon_tree \<Rightarrow> string \<Rightarrow> fan_channel option" where
  "channel_by_device_id t i = List.find (\<lambda>f. channel_device_id f = i) (map snd (channels t))"

definition strip_prefix :: "string \<Rightarrow> string \<Rightarrow> string option" where
  "strip_prefix p s = (if take (length p) s = p then Some (drop (length p) s) else None)"

definition strip_suffix :: "string \<Rightarrow> string \<Rightarrow> string option" where
  "strip_suffix p s = map_option rev (strip_prefix (rev p) (rev s))"

definition fan_number :: "string \<Rightarrow> nat option" where
  "fan_number name =
    (let digits = (case Option.bind (strip_prefix ''fan'' name) (strip_suffix ''_input'') of
         Some r \<Rightarrow> Some r
       | None \<Rightarrow> (case strip_prefix ''pwm'' name of
           Some r \<Rightarrow> if list_all is_ascii_digit r then Some r else None | None \<Rightarrow> None))
     in Option.bind digits parse_u32)"

definition fan_numbers :: "filesystem \<Rightarrow> string \<Rightarrow> nat list" where
  "fan_numbers fs dir = (case fs_dirs fs dir of Inl _ \<Rightarrow> []
     | Inr names \<Rightarrow> remdups_adj (sort (List.map_filter fan_number names)))"

definition readable_file :: "filesystem \<Rightarrow> string \<Rightarrow> string \<Rightarrow> string option" where
  "readable_file fs dir name = (let p = path_join dir name in if is_file fs p then Some p else None)"

definition scan_channel :: "filesystem \<Rightarrow> string \<Rightarrow> string \<Rightarrow> nat \<Rightarrow> fan_channel option" where
  "scan_channel fs chip dir n =
    (let rpm = readable_file fs dir (''fan'' @ dec_nat n @ ''_input'');
         pwm = readable_file fs dir (''pwm'' @ dec_nat n);
         text = (\<lambda>p. case read_to_string fs p of Inr s \<Rightarrow> Some s | Inl _ \<Rightarrow> None);
         enable = path_join dir (''pwm'' @ dec_nat n @ ''_enable'')
     in if rpm = None \<and> pwm = None then None
        else Some \<lparr>fc_chip = chip, fc_channel = n,
          fc_label = Option.bind (text (path_join dir (''fan'' @ dec_nat n @ ''_label'')))
            (\<lambda>l. if trim l = [] then None else Some (trim l)),
          fc_rpm = rpm, fc_pwm = pwm,
          fc_mode = map_option (\<lambda>raw. (enable, from_sysfs raw)) (text enable)\<rparr>)"

definition scan_chip :: "filesystem \<Rightarrow> nat \<times> string \<times> string \<Rightarrow> hwmon_tree \<Rightarrow> hwmon_tree" where
  "scan_chip fs = (\<lambda>(_, dir, directory) t. case read_to_string fs (path_join dir ''name'') of
     Inl e \<Rightarrow> t\<lparr>ht_notes := ht_notes t @ [directory @ '' has no readable `name`: '' @ io_text e]\<rparr>
   | Inr raw \<Rightarrow> (let name = trim raw in
       if name = [] then t\<lparr>ht_notes := ht_notes t @ [directory @ '' has an empty `name`'']\<rparr>
       else t\<lparr>ht_chips := ht_chips t @ [\<lparr>hc_directory = directory, hc_name = name,
         hc_fans = List.map_filter (scan_channel fs name dir) (fan_numbers fs dir)\<rparr>]\<rparr>))"

definition discover_hwmon :: "filesystem \<Rightarrow> string \<Rightarrow> hwmon_tree" where
  "discover_hwmon fs dir = (case fs_dirs fs dir of
     Inl e \<Rightarrow> \<lparr>ht_chips = [], ht_notes = (if io_kind e = IO_NotFound then []
       else [''cannot read '' @ dir @ '': '' @ io_text e])\<rparr>
   | Inr names \<Rightarrow>
       fold (scan_chip fs)
         (sort_key fst (List.map_filter (\<lambda>name. map_option (\<lambda>n. (n, path_join dir name, name))
            (Option.bind (strip_prefix ''hwmon'' name) parse_u32)) names))
         \<lparr>ht_chips = [], ht_notes = []\<rparr>)"

subsection \<open>Text that is written is read back\<close>

definition visible :: "char \<Rightarrow> bool" where
  "visible c \<longleftrightarrow> 32 < byte c \<and> byte c < 128"

lemma visible_start: "list_all visible s \<Longrightarrow> s \<noteq> [] \<Longrightarrow> ws_len (s @ r) = 0"
  by (cases s) (use ws_first in \<open>fastforce simp: visible_def\<close>)+

lemma ws_len_visible: "list_all visible s \<Longrightarrow> ws_len s = 0"
  by (cases "s = []") (use visible_start [of s "[]"] in simp_all)

lemma trim_line:
  assumes "list_all visible s" "s \<noteq> []" shows "trim (s @ [CHR 0x0A]) = s"
proof -
  have d: "list_all visible (drop k s)" for k
    using assms by (auto simp: list_all_iff dest: in_set_dropD)
  then have s: "ws_suffix s = 0" by (simp add: ws_suffix_def Let_def ws_len_visible)
  have "ws_len (drop k (s @ [CHR 0x0A])) = 0" if "k < length s" for k
    using that d [of k] by (simp add: visible_start)
  then have "ws_suffix (s @ [CHR 0x0A]) = 1"
    using assms by (simp add: ws_suffix_def Let_def ws1_def byte_def)
  then show ?thesis
    using assms s by (simp add: trim_def trim_start.simps [of "s @ _"] visible_start
        trim_end.simps [of "s @ _"] trim_end.simps [of s])
qed

lemma digits_visible: "list_all visible (dec_nat n)"
  by (auto simp: list_all_iff visible_def is_ascii_digit_def dest!: dec_nat_digits)

lemma dec_int_visible: "list_all visible (dec_int v)" "dec_int v \<noteq> []"
  using digits_visible by (simp_all add: dec_int_def visible_def byte_def)

lemma parse_digits_dec: "parse_digits (dec_nat n) = Some n"
  by (auto simp: parse_digits_def list_all_iff read_dec_nat dest: dec_nat_digits)

lemma parse_i64_dec: "is_i64 v \<Longrightarrow> parse_i64 (dec_int v) = Some v"
proof -
  assume v: "is_i64 v"
  have "\<not> is_ascii_digit CHR ''-''" "\<not> is_ascii_digit CHR ''+''" by (simp_all add: is_ascii_digit_def byte_def)
  then have "hd (dec_nat n) \<noteq> CHR ''-''" "hd (dec_nat n) \<noteq> CHR ''+''" for n
    using dec_nat_digits [OF hd_in_set [OF dec_nat_nonempty]] by metis+
  then obtain c r where "dec_nat (nat v) = c # r" "c \<noteq> CHR ''-''" "c \<noteq> CHR ''+''"
    by (metis dec_nat_nonempty list.collapse)
  with v parse_digits_dec [of "nat v"] parse_digits_dec [of "nat (- v)"] show ?thesis
    by (simp add: parse_i64_def dec_int_def is_i64_def i64_min_def i64_max_def)
qed

lemma parse_i64_range: "parse_i64 s = Some v \<Longrightarrow> is_i64 v"
  by (auto simp: parse_i64_def is_i64_def i64_min_def i64_max_def Let_def bind_eq_Some_conv split: list.splits if_splits)

text \<open>A mode that was read comes back from the value that restores it.\<close>

lemma from_restored_value: "restorable_value (from_restored v) = Some v"
  by (simp add: from_restored_def)

lemma from_sysfs_value:
  "restorable_value (from_sysfs raw) = Some v \<Longrightarrow> is_i64 v \<and> from_restored v = from_sysfs raw"
  by (auto simp: from_sysfs_def from_restored_def parse_i64_range split: option.splits if_splits)

lemma sysfs_of_value: "is_i64 v \<Longrightarrow> from_sysfs (dec_int v @ [CHR 0x0A]) = from_restored v"
  by (simp add: from_sysfs_def trim_line dec_int_visible parse_i64_dec from_restored_def)

subsection \<open>Taking a channel, and giving it back\<close>

definition readable :: "filesystem \<Rightarrow> string \<Rightarrow> bool" where
  "readable fs p \<longleftrightarrow> (case fs_files fs p of Some f \<Rightarrow> fl_read_error f = None | None \<Rightarrow> True)"

lemma readable_write: "readable (snd (write_file p s fs)) q \<longleftrightarrow> readable fs q"
  by (auto simp: readable_def write_file_def put_text_def split: option.splits)

lemma write_read: "write_file p s fs = (Inr (), fs') \<Longrightarrow> readable fs p \<Longrightarrow> read_to_string fs' p = Inr s"
  by (auto simp: write_file_def put_text_def read_to_string_def readable_def split: option.splits)

lemma current_mode_Some:
  "current_mode fs f = Some m \<longleftrightarrow> (\<exists>p m0. fc_mode f = Some (p, m0) \<and> m = mode_at fs p)"
  by (auto simp: current_mode_def)

lemma mode_after_write:
  "write_file p s fs = (Inr (), fs') \<Longrightarrow> readable fs p \<Longrightarrow> mode_at fs' p = from_sysfs s"
  by (simp add: mode_at_def write_read)

lemma mode_readable: "restorable_value (mode_at fs p) = Some v \<Longrightarrow> is_i64 v \<and> from_restored v = mode_at fs p \<and> readable fs p"
  using from_sysfs_value
  by (auto simp: mode_at_def readable_def read_to_string_def split_def Let_def split: sum.splits option.splits)

lemma take_control_refused:
  "take_control f fs = (Inl e, fs') \<Longrightarrow> fs' = fs"
  "take_control f fs = (Inr None, fs') \<Longrightarrow> fs' = fs"
  by (auto simp: take_control_def write_file_def split: option.splits control_mode.splits prod.splits if_splits)

lemma take_control_taken:
  assumes "take_control f fs = (Inr (Some m), fs')"
  obtains p m0 v where "fc_mode f = Some (p, m0)" "current_mode fs f = Some m" "m \<noteq> Manual_Mode"
    "restorable_value m = Some v" "write_file p [CHR ''1'', CHR 0x0A] fs = (Inr (), fs')"
  using assms
  by (auto simp: take_control_def split: option.splits control_mode.splits prod.splits sum.splits if_splits)

lemma restore_control_mode:
  assumes "restore_control f (Some m) fs = (Inr (), fs')" "fc_mode f = Some (p, m0)"
    "restorable_value m = Some v" "is_i64 v" "from_restored v = m" "readable fs p"
  shows "current_mode fs' f = Some m"
proof -
  have "write_file p (dec_int v @ [CHR 0x0A]) fs = (Inr (), fs')"
    using assms by (auto simp: restore_control_def split: prod.splits sum.splits)
  then show ?thesis
    using assms by (simp add: current_mode_def mode_after_write sysfs_of_value)
qed

theorem restored_exactly:
  assumes "take_control f fs = (Inr (Some m), fs1)"
    and "\<forall>p. readable fs1 p \<longrightarrow> readable fs2 p"
    and "restore_control f (Some m) fs2 = (Inr (), fs3)"
  shows "current_mode fs1 f = Some Manual_Mode \<and> current_mode fs3 f = current_mode fs f"
proof -
  obtain p m0 v where t: "fc_mode f = Some (p, m0)" "current_mode fs f = Some m" "restorable_value m = Some v"
    "write_file p [CHR ''1'', CHR 0x0A] fs = (Inr (), fs1)"
    using assms(1) by (rule take_control_taken)
  have r: "is_i64 v" "from_restored v = m" "readable fs p"
    using mode_readable [of fs p v] t by (auto simp: current_mode_Some)
  have "from_sysfs [CHR ''1'', CHR 0x0A] = Manual_Mode" by code_simp
  then have "current_mode fs1 f = Some Manual_Mode"
    using mode_after_write [OF t(4)] r t(1) by (simp add: current_mode_def)
  moreover have "readable fs2 p" using assms(2) r readable_write [of p _ fs p] t(4) by (metis snd_conv)
  then have "current_mode fs3 f = Some m"
    using restore_control_mode [OF assms(3) t(1,3)] r by simp
  ultimately show ?thesis by (simp add: t(2))
qed

subsection \<open>The byte\<close>

lemma round_away_int: "round_away (of_int n) = n"
proof -
  have "\<lfloor>of_int n + 1 / 2 :: rat\<rfloor> = n" "\<lfloor>1 / 2 - of_int n :: rat\<rfloor> = - n" by (rule floor_unique; simp)+
  then show ?thesis by (simp add: round_away_def)
qed

lemmas round_away_num = round_away_int [of 0, simplified] round_away_int [of "numeral k" for k, simplified]

lemma round_away_mono: "p \<le> q \<Longrightarrow> round_away p \<le> round_away q"
proof -
  assume "p \<le> q"
  then have "\<lfloor>p + 1 / 2\<rfloor> \<le> \<lfloor>q + 1 / 2\<rfloor>" "\<lfloor>1 / 2 - q\<rfloor> \<le> \<lfloor>1 / 2 - p\<rfloor>" by (intro floor_mono; simp)+
  moreover have "- \<lfloor>1 / 2 - p\<rfloor> \<le> \<lfloor>q + 1 / 2\<rfloor>" if "p < 0" "0 \<le> q"
    by (rule order_trans [of _ 0]) (use that in simp_all)
  ultimately show ?thesis using \<open>p \<le> q\<close> by (auto simp: round_away_def)
qed

definition byte_of :: "rat \<Rightarrow> int" where
  "byte_of q = round_away (rndq (rndq (q / 100) * 255))"

lemma byte_of_bounds:
  assumes "0 \<le> q" "q \<le> 100"
  shows "pwm_byte (Fin q) = byte_of q" "0 \<le> byte_of q" "byte_of q \<le> 255"
proof -
  let ?a = "rndq (q / 100)" and ?b = "rndq (rndq (q / 100) * 255)"
  have a: "0 \<le> ?a" "?a \<le> 1" "rnd (q / 100) = Fin ?a"
    using assms rnd_between [of 0 "q / 100" 1] rnd_small [of "q / 100" 1] by simp_all
  have d: "is_dbl 255" by (rule is_dbl_numeral) simp
  have b: "0 \<le> ?b" "?b \<le> 255" "rnd (?a * 255) = Fin ?b"
    using a rnd_between [of 0 "?a * 255" 255] rnd_small [of "?a * 255" 255] d by simp_all
  have r: "0 \<le> round_away ?b" "round_away ?b \<le> 255"
    using round_away_mono [OF b(1)] round_away_mono [OF b(2)] by (simp_all add: round_away_num)
  then show "0 \<le> byte_of q" "byte_of q \<le> 255" by (simp_all add: byte_of_def)
  show "pwm_byte (Fin q) = byte_of q"
    using assms r by (simp add: pwm_byte_def PWM_FULL_SCALE_def fclamp_Fin Fin_divide Fin_times a(3) b(3)
        byte_of_def trunc_def i64_min_def i64_max_def)
qed

lemma byte_of_mono: "p \<le> q \<Longrightarrow> byte_of p \<le> byte_of q"
  unfolding byte_of_def by (intro round_away_mono rndq_mono mult_right_mono divide_right_mono) simp_all

text \<open>C32. The duty that reaches the kernel is the one asked for: the byte of a finite percentage lies within
  0 and 255, a higher percentage never gives a lower byte, 0 % or less gives 0 and 100 % or more 255.\<close>
theorem duty_byte_faithful:
  assumes "is_finite x"
  shows "0 \<le> pwm_byte x \<and> pwm_byte x \<le> 255 \<and> (\<forall>y. x \<le> y \<and> is_finite y \<longrightarrow> pwm_byte x \<le> pwm_byte y)
    \<and> (x \<le> Fin 0 \<longrightarrow> pwm_byte x = 0) \<and> (Fin 100 \<le> x \<longrightarrow> pwm_byte x = 255)"
proof -
  obtain q where x: "x = Fin q" using assms by (auto simp: is_finite_iff)
  define cl :: "rat \<Rightarrow> rat" where "cl q = (if q < 0 then 0 else if 100 < q then 100 else q)" for q
  have b: "pwm_byte (Fin r) = byte_of (cl r)" "0 \<le> cl r" "cl r \<le> 100" for r
  proof -
    show "0 \<le> cl r" "cl r \<le> 100" by (simp_all add: cl_def)
    moreover have "pwm_byte (Fin r) = pwm_byte (Fin (cl r))" by (simp add: pwm_byte_def fclamp_Fin cl_def)
    ultimately show "pwm_byte (Fin r) = byte_of (cl r)" using byte_of_bounds(1) by simp
  qed
  have e: "byte_of 0 = 0" "byte_of 100 = 255"
    by (simp_all add: byte_of_def round_away_num rndq_exact is_dbl_numeral)
  have "byte_of (cl q) \<le> byte_of (cl r)" if "q \<le> r" for r
    by (rule byte_of_mono) (use that in \<open>simp add: cl_def\<close>)
  moreover have "q \<le> 0 \<Longrightarrow> cl q = 0" "100 \<le> q \<Longrightarrow> cl q = 100" by (simp_all add: cl_def)
  ultimately show ?thesis
    using byte_of_bounds(2,3) b e by (auto simp: x is_finite_iff)
qed

theorem duty_byte_faithful_witness:
  "0 \<le> pwm_byte (Fin 50) \<and> pwm_byte (Fin 50) \<le> pwm_byte (Fin 75) \<and> pwm_byte (Fin 120) = 255"
  using duty_byte_faithful [of "Fin 50"] duty_byte_faithful [of "Fin 120"] by simp

end
