(* ===== verification/Os_Sensors.thy ===== *)
theory Os_Sensors
  imports Hwmon
begin

section \<open>What the operating system reports\<close>

text \<open>
  \<open>adapters/system/src/devices.rs\<close> and the sensor half of \<open>adapters/system/src/lib.rs\<close>, as built for
  Linux. The crates \<open>sysinfo\<close> and \<open>rustix\<close> are not in the repository: an \<open>os_view\<close> is what they
  return at one refresh, and \<open>statvfs\<close> is a parameter.
\<close>

record os_cpu =
  oc_brand :: string
  oc_usage :: f64          \<comment> \<open>an \<open>f32\<close>\<close>
  oc_frequency :: nat

record os_component =
  cp_label :: string
  cp_temperature :: "f64 option"

record os_disk =
  dk_name :: string
  dk_mount :: string
  dk_file_system :: string
  dk_removable :: bool
  dk_total :: nat
  dk_available :: nat

record os_view =
  ov_cpus :: "os_cpu list"
  ov_global_usage :: f64
  ov_total_memory :: nat
  ov_used_memory :: nat
  ov_components :: "os_component list"
  ov_disks :: "os_disk list"

subsection \<open>Single precision\<close>

text \<open>An \<open>f32\<close> is kept as the double it converts to; its sum is rounded to 24 bits.\<close>

definition ulp_exp32 :: "rat \<Rightarrow> int" where
  "ulp_exp32 q = max (- 149) (ilog2 \<bar>q\<bar> - 23)"

definition rnd32 :: "rat \<Rightarrow> f64" where
  "rnd32 q = (let v = (if q = 0 then 0 else of_int (rne (q / pow2 (ulp_exp32 q))) * pow2 (ulp_exp32 q)) in
     if pow2 128 \<le> v then PInf else if v \<le> - pow2 128 then NInf else Fin v)"

fun fadd32 :: "f64 \<Rightarrow> f64 \<Rightarrow> f64" where
  "fadd32 (Fin a) (Fin b) = rnd32 (a + b)"
| "fadd32 x y = x + y"

subsection \<open>Names and scores\<close>

definition CPU_LOAD :: string where "CPU_LOAD = ''load.cpu''"
definition CLOCK_MHZ :: string where "CLOCK_MHZ = ''clock.mhz''"
definition TEMPERATURE_SYSTEM :: string where "TEMPERATURE_SYSTEM = ''temperature.system''"
definition MEMORY_USED :: string where "MEMORY_USED = ''memory.used''"
definition MEMORY_TOTAL :: string where "MEMORY_TOTAL = ''memory.total''"
definition DISK_FREE :: string where "DISK_FREE = ''storage.free''"
definition FAN_PWM :: string where "FAN_PWM = ''fan.pwm''"
definition PUMP_SPEED_PERCENT :: string where "PUMP_SPEED_PERCENT = ''pump.speed_percent''"

definition SYSTEM_ID :: string where "SYSTEM_ID = ''system''"
definition SYSTEM_NAME :: string where "SYSTEM_NAME = ''Operating System''"
definition PRODUCT_NAME :: string where "PRODUCT_NAME = ''OpenHardwareOS''"

definition cpu_device_id :: string where
  "cpu_device_id = compose_id (device_type_str Cpu) SYSTEM_ID 0"

definition component_device_id :: "nat \<Rightarrow> string" where
  "component_device_id = compose_id ''temperature'' SYSTEM_ID"

definition memory_device_id :: string where
  "memory_device_id = ''memory.system.0''"

definition disk_device_id :: "nat \<Rightarrow> string" where
  "disk_device_id = compose_id ''storage'' SYSTEM_ID"

text \<open>The first needle of a table that the lowered text contains.\<close>

definition first_match :: "(string \<times> 'a) list \<Rightarrow> string \<Rightarrow> 'a option" where
  "first_match table lower = map_option snd (List.find (\<lambda>(n, _). str_contains n lower) table)"

definition vendor_table :: "(string \<times> string) list" where
  "vendor_table = [(''amd'', ''AMD''), (''ryzen'', ''AMD''), (''athlon'', ''AMD''), (''epyc'', ''AMD''),
     (''intel'', ''Intel''), (''core'', ''Intel''), (''xeon'', ''Intel''), (''pentium'', ''Intel''),
     (''celeron'', ''Intel''), (''apple'', ''Apple''), (''qualcomm'', ''Qualcomm''),
     (''snapdragon'', ''Qualcomm''), (''arm'', ''Arm'')]"

definition vendor_from_brand :: "string \<Rightarrow> string" where
  "vendor_from_brand brand = (case first_match vendor_table (map ascii_lower brand) of
     Some v \<Rightarrow> v | None \<Rightarrow> if trim brand = [] then [] else ''Unknown'')"

definition score_table :: "(string \<times> nat) list" where
  "score_table = [(''package'', 100), (''tctl'', 95), (''tdie'', 95), (''cpu'', 90), (''coretemp'', 90),
     (''k10temp'', 90), (''zenpower'', 90), (''core temperature'', 85), (''processor'', 70), (''core'', 70),
     (''soc'', 40), (''apu'', 40), (''acpi'', 20)]"

definition cpu_component_score :: "string \<Rightarrow> nat" where
  "cpu_component_score label = (let lower = map ascii_lower label in
     if list_ex (\<lambda>n. str_contains n lower) [''gpu'', ''nvme'', ''ssd'', ''drive'', ''battery'', ''ambient'']
     then 0
     else (case first_match score_table lower of Some s \<Rightarrow> s | None \<Rightarrow> 0))"

definition is_derived_zone :: "string \<Rightarrow> bool" where
  "is_derived_zone label = (let lower = map ascii_lower label in
     list_ex (\<lambda>n. str_contains n lower) [''battery'', ''ac adapter'', ''tcal'', ''tdev''])"

definition MAX_THERMAL_ZONE_DEVICES :: nat where "MAX_THERMAL_ZONE_DEVICES = 6"

definition zone_score :: "os_component \<Rightarrow> nat" where
  "zone_score c =
    (if list_ex (\<lambda>n. str_contains n (map ascii_lower (cp_label c)))
          [''cpu'', ''package'', ''soc'', ''gpu'', ''ssd'', ''nvme'', ''nand'', ''battery'', ''ambient'',
           ''enclosure'', ''board'', ''system'']
     then min 255 (200 + cpu_component_score (cp_label c)) else 100)"

text \<open>The indices are distinct, so sorting by score and then index is one stable sort by score.\<close>

definition select_thermal_zones :: "os_component list \<Rightarrow> (nat \<times> os_component) list" where
  "select_thermal_zones cs =
     sort_key fst (take MAX_THERMAL_ZONE_DEVICES (sort_key (\<lambda>(_, c). - int (zone_score c))
       (filter (\<lambda>(_, c). cp_temperature c \<noteq> None \<and> \<not> is_derived_zone (cp_label c))
         (zip [0..<length cs] cs))))"

subsection \<open>Sensors\<close>

definition cpu_load :: "os_view \<Rightarrow> f64" where
  "cpu_load v = (if ov_cpus v = [] then ov_global_usage v
     else fold (\<lambda>c total. fadd32 total (oc_usage c)) (ov_cpus v) (Fin 0)
       div f64_of_int (int (length (ov_cpus v))))"

definition cpu_clock_mhz :: "os_view \<Rightarrow> f64" where
  "cpu_clock_mhz v = (case ov_cpus v of [] \<Rightarrow> Fin 0 | c # _ \<Rightarrow> f64_of_int (int (oc_frequency c)))"

definition better_zone :: "os_component \<Rightarrow> (nat \<times> string \<times> f64) option \<Rightarrow> (nat \<times> string \<times> f64) option" where
  "better_zone c best =
    (if is_derived_zone (cp_label c) then best
     else (case cp_temperature c of None \<Rightarrow> best
       | Some t \<Rightarrow>
         if \<not> (Fin (- 40) \<le> t \<and> t \<le> Fin 150) then best
         else (let score = cpu_component_score (cp_label c) in
           if score = 0 then best
           else (case best of
               Some (s, _) \<Rightarrow> if s < score then Some (score, cp_label c, t) else best
             | None \<Rightarrow> Some (score, cp_label c, t)))))"

definition cpu_component_temperature :: "os_view \<Rightarrow> (string \<times> f64) option" where
  "cpu_component_temperature v = map_option snd (fold better_zone (ov_components v) None)"

definition cpu_temperature_unavailable :: "os_view \<Rightarrow> problem" where
  "cpu_temperature_unavailable v =
    (if ov_components v = [] then
       (Unsupported, ''this operating system exposes no thermal zones to user space'')
     else (HardwareLimitation, dec_nat (length (ov_components v))
       @ '' thermal zone(s) reported, but none is a CPU package sensor''))"

definition disk_temperature_unavailable :: problem where
  "disk_temperature_unavailable = (Unsupported,
     ''this platform does not expose NVMe/SATA drive temperatures to user space; ''
     @ ''LibreHardwareMonitor (Windows) or smartctl can provide them'')"

text \<open>\<open>statvfs\<close> gives the fragment size, the block size and the blocks a user may use.\<close>

type_synonym statvfs = "string \<Rightarrow> (nat \<times> nat \<times> nat) option"

definition available_bytes :: "statvfs \<Rightarrow> string \<Rightarrow> nat option" where
  "available_bytes st mount = map_option (\<lambda>(frsize, bsize, bavail).
     min u64_max (bavail * (if 0 < frsize then frsize else bsize))) (st mount)"

text \<open>\<open>(x * 10.0).round() / 10.0\<close>, and a \<open>u64\<close> shown as an \<open>i64\<close>.\<close>

definition tenths :: "f64 \<Rightarrow> f64" where
  "tenths x = fround (x * Fin 10) div Fin 10"

definition u64_reading :: "nat \<Rightarrow> val" where
  "u64_reading n = Integer (min (int n) i64_max)"

definition problem_reading :: "string \<Rightarrow> problem \<Rightarrow> reading" where
  "problem_reading c p = reading_unavailable c (fst p) (Some (snd p))"

subsection \<open>Devices\<close>

definition with_vendor :: "string \<Rightarrow> device \<Rightarrow> device" where
  "with_vendor v d = d\<lparr>dev_vendor := v\<rparr>"

definition first_brand :: "os_view \<Rightarrow> string" where
  "first_brand v = (case ov_cpus v of [] \<Rightarrow> [] | c # _ \<Rightarrow> trim (oc_brand c))"

definition zones_total :: "os_view \<Rightarrow> nat" where
  "zones_total v = length (filter (\<lambda>c. cp_temperature c \<noteq> None) (ov_components v))"

definition cpu_device :: "os_view \<Rightarrow> string \<Rightarrow> device" where
  "cpu_device v brand =
    (let shown = length (select_thermal_zones (ov_components v));
         d = with_metadata ''source'' ''operating system''
           (with_metadata ''cores'' (dec_nat (length (ov_cpus v)))
           (with_capability (cap_sensor CLOCK_MHZ ''Core Clock'' Megahertz)
           (with_capability (cap_sensor CPU_LOAD ''CPU Load'' Percent)
           (with_capability (cap_sensor TEMPERATURE_CORE ''CPU Temperature'' Celsius)
           (with_vendor (vendor_from_brand brand)
             (new_device cpu_device_id (if brand = [] then ''Processor'' else brand) Cpu
               SystemTransport SYSTEM_ID))))));
         d = (if brand = [] then d else d\<lparr>dev_model := Some brand\<rparr>)
     in if shown < zones_total v
        then with_metadata ''thermal_zones_shown'' (dec_nat shown)
          (with_metadata ''thermal_zones_total'' (dec_nat (zones_total v)) d)
        else d)"

definition zone_device :: "nat \<times> os_component \<Rightarrow> device" where
  "zone_device = (\<lambda>(i, c). with_metadata ''zone'' (cp_label c)
     (with_capability (cap_sensor TEMPERATURE_SYSTEM ''Temperature'' Celsius)
     (with_vendor PRODUCT_NAME
       (new_device (component_device_id i) (''Thermal Zone: '' @ cp_label c) TemperatureSensor
         SystemTransport SYSTEM_ID))))"

definition disk_device :: "nat \<Rightarrow> os_disk \<Rightarrow> device" where
  "disk_device i k = with_metadata ''disk_name'' (dk_name k)
     (with_metadata ''total_bytes'' (dec_nat (dk_total k))
     (with_metadata ''file_system'' (dk_file_system k)
     (with_metadata ''mount_point'' (dk_mount k)
     (with_capability (cap_sensor DISK_FREE ''Free Space'' Byte)
     (with_capability (cap_sensor TEMPERATURE_CORE ''Drive Temperature'' Celsius)
     (with_vendor PRODUCT_NAME
       (new_device (disk_device_id i) (''Storage: '' @ (if dk_name k = [] then dk_mount k else dk_name k))
         Storage SystemTransport SYSTEM_ID)))))))"

text \<open>One device per name and capacity; removable volumes do not count.\<close>

fun disk_devices :: "(string \<times> nat) list \<Rightarrow> nat \<Rightarrow> os_disk list \<Rightarrow> device list" where
  "disk_devices seen i [] = []"
| "disk_devices seen i (k # ks) =
    (if dk_removable k \<or> (dk_name k, dk_total k) \<in> set seen then disk_devices seen i ks
     else disk_device i k # disk_devices (seen @ [(dk_name k, dk_total k)]) (i + 1) ks)"

definition memory_devices :: "os_view \<Rightarrow> device list" where
  "memory_devices v = (if 0 < ov_total_memory v then
     [with_metadata ''source'' ''operating system''
       (with_metadata ''total_bytes'' (dec_nat (ov_total_memory v))
       (with_metadata ''used_bytes'' (dec_nat (ov_used_memory v))
       (with_capability (cap_sensor MEMORY_TOTAL ''Memory Total'' Byte)
       (with_capability (cap_sensor MEMORY_USED ''Memory Used'' Byte)
       (with_vendor PRODUCT_NAME
         (new_device memory_device_id ''Memory'' Memory SystemTransport SYSTEM_ID))))))]
     else [])"

subsection \<open>Readings\<close>

definition cpu_readings :: "os_view \<Rightarrow> reading list" where
  "cpu_readings v =
    [case cpu_component_temperature v of
       Some (_, t) \<Rightarrow> reading_ok TEMPERATURE_CORE (Number (tenths t))
     | None \<Rightarrow> problem_reading TEMPERATURE_CORE (cpu_temperature_unavailable v),
     reading_ok CPU_LOAD (Number (tenths (cpu_load v))),
     if Fin 0 < cpu_clock_mhz v then reading_ok CLOCK_MHZ (Integer (f64_to_i64 (fround (cpu_clock_mhz v))))
     else problem_reading CLOCK_MHZ (Unsupported, ''the operating system does not report a CPU clock'')]"

definition zone_reading :: "os_view \<Rightarrow> nat \<Rightarrow> reading" where
  "zone_reading v i =
    (case (if i < length (ov_components v) then cp_temperature (ov_components v ! i) else None) of
       Some t \<Rightarrow> reading_ok TEMPERATURE_SYSTEM (Number (tenths t))
     | None \<Rightarrow> problem_reading TEMPERATURE_SYSTEM (ReadError, ''the thermal zone stopped reporting''))"

definition memory_readings :: "os_view \<Rightarrow> reading list" where
  "memory_readings v = [reading_ok MEMORY_USED (u64_reading (ov_used_memory v)),
     reading_ok MEMORY_TOTAL (u64_reading (ov_total_memory v))]"

text \<open>The index in a disk's id is counted over the devices built, and read as a position in the list of
  all disks, where removable and repeated ones count too. \<open>None\<close>: the drive is gone.\<close>

definition disk_readings :: "statvfs \<Rightarrow> os_view \<Rightarrow> nat \<Rightarrow> reading list option" where
  "disk_readings st v i =
    (let (library, mount) = (if i < length (ov_disks v)
           then (Some (dk_available (ov_disks v ! i)), dk_mount (ov_disks v ! i)) else (None, []))
     in case (case available_bytes st mount of Some n \<Rightarrow> Some n | None \<Rightarrow> library) of
          None \<Rightarrow> None
        | Some free \<Rightarrow> Some [reading_ok DISK_FREE (u64_reading free),
            problem_reading TEMPERATURE_CORE disk_temperature_unavailable])"

definition index_of :: "string \<Rightarrow> device \<Rightarrow> nat option" where
  "index_of namespace d = Option.bind (strip_prefix namespace (dev_id d)) (parse_nat u64_max)"

end
