(* ===== verification/System_Adapter.thy ===== *)
theory System_Adapter
  imports Os_Sensors
begin

section \<open>The operating system adapter\<close>

text \<open>
  \<open>adapters/system/src/lib.rs\<close>: sensors of the operating system, and hwmon fan channels that the
  settings allow to be written. The adapter's own state, the files and what \<open>sysinfo\<close> reports at each
  refresh are one record, the adapter's world.
\<close>

record system_adapter =
  sy_polls :: nat
  sy_brand :: string
  sy_root :: "string option"
  sy_tree :: "hwmon_tree option"
  sy_allow :: "string list"
  sy_taken :: "(string \<times> control_mode) list"
  sy_fs :: filesystem
  sy_feed :: "nat \<Rightarrow> os_view"
  sy_statvfs :: statvfs
  sy_clock :: int

definition sy_view :: "system_adapter \<Rightarrow> os_view" where
  "sy_view w = sy_feed w (sy_polls w)"

text \<open>\<open>blank\<close>, with the tree's place and the allowed channels of \<open>with_hwmon_root\<close> and \<open>with_pwm_allow\<close>.\<close>

definition system_new :: "string option \<Rightarrow> string list \<Rightarrow> filesystem \<Rightarrow> (nat \<Rightarrow> os_view) \<Rightarrow> statvfs \<Rightarrow> int
    \<Rightarrow> system_adapter" where
  "system_new dir allow fs observed st now = \<lparr>sy_polls = 0, sy_brand = first_brand (observed 0), sy_root = dir,
     sy_tree = None, sy_allow = allow, sy_taken = [], sy_fs = fs, sy_feed = observed, sy_statvfs = st, sy_clock = now\<rparr>"

definition pwm_writable :: "system_adapter \<Rightarrow> string \<Rightarrow> bool" where
  "pwm_writable w i \<longleftrightarrow> i \<in> set (sy_allow w)"

definition sy_refresh :: "system_adapter \<Rightarrow> system_adapter" where
  "sy_refresh w = w\<lparr>sy_polls := sy_polls w + 1\<rparr>"

definition scan_hwmon :: "system_adapter \<Rightarrow> system_adapter" where
  "scan_hwmon w = (case sy_root w of None \<Rightarrow> w
     | Some dir \<Rightarrow> w\<lparr>sy_tree := Some (discover_hwmon (sy_fs w) dir)\<rparr>)"

definition hwmon_channel :: "system_adapter \<Rightarrow> string \<Rightarrow> fan_channel option" where
  "hwmon_channel w i = Option.bind (sy_tree w) (\<lambda>t. channel_by_device_id t i)"

subsection \<open>Devices\<close>

definition fan_capabilities :: "bool \<Rightarrow> fan_channel \<Rightarrow> capability list" where
  "fan_capabilities writable f =
     (if fc_rpm f \<noteq> None then [cap_sensor FAN_RPM ''Fan RPM'' Rpm] else [])
   @ (if fc_pwm f \<noteq> None then [cap_sensor FAN_PWM ''PWM Duty'' Percent] else [])
   @ (if writable then [cap_actuator FAN_SPEED_PERCENT ''Fan Duty'' Percent (Fin 0) (Fin 100)] else [])"

definition optional_metadata :: "string \<Rightarrow> string option \<Rightarrow> device \<Rightarrow> device" where
  "optional_metadata k v d = (case v of Some x \<Rightarrow> with_metadata k x d | None \<Rightarrow> d)"

definition channel_writable :: "system_adapter \<Rightarrow> fan_channel \<Rightarrow> bool" where
  "channel_writable w f \<longleftrightarrow> pwm_writable w (channel_device_id f) \<and> fc_pwm f \<noteq> None"

definition fan_device :: "system_adapter \<Rightarrow> hwmon_chip \<times> fan_channel \<Rightarrow> device option" where
  "fan_device w = (\<lambda>(chip, f).
    (let writable = channel_writable w f; caps = fan_capabilities writable f in
     if caps = [] then None
     else Some
       (optional_metadata ''control_mode'' (map_option describe_mode (current_mode (sy_fs w) f))
       (optional_metadata ''pwm_path'' (fc_pwm f)
       (optional_metadata ''fan_input'' (fc_rpm f)
       (with_metadata ''source''
          (if writable then ''linux hwmon (writable: this channel was allowed in settings)''
           else ''linux hwmon (read-only)'')
       (with_metadata ''hwmon_channel'' (dec_nat (fc_channel f))
       (with_metadata ''hwmon_chip'' (hc_name chip)
         ((with_vendor PRODUCT_NAME
           (new_device (channel_device_id f) (display_name f) Fan SystemTransport SYSTEM_ID))
             \<lparr>dev_capabilities := caps\<rparr>)))))))))"

definition cached_brand :: "system_adapter \<Rightarrow> string" where
  "cached_brand w = (if sy_brand w = [] then first_brand (sy_view w) else sy_brand w)"

definition build_devices :: "system_adapter \<Rightarrow> device list \<times> system_adapter" where
  "build_devices w =
    (let v = sy_view w; brand = cached_brand w in
     ([cpu_device v brand] @ map zone_device (select_thermal_zones (ov_components v))
        @ disk_devices [] 0 (ov_disks v) @ memory_devices v
        @ (case sy_tree w of None \<Rightarrow> [] | Some t \<Rightarrow> List.map_filter (fan_device w) (channels t)),
      w\<lparr>sy_brand := brand\<rparr>))"

definition system_info :: "system_adapter \<Rightarrow> adapter_info" where
  "system_info w = (adapter_info_new SYSTEM_ID SYSTEM_NAME SYSTEM_ID)
     \<lparr>ai_capabilities := (if sy_allow w = [] then read_only_capabilities
        else hands_back_control cooling_control)\<rparr>"

definition system_probe :: "system_adapter \<Rightarrow> adapter_status \<times> system_adapter" where
  "system_probe w =
    (let (devices, w) = build_devices (sy_refresh w);
         (st, reason, detail) = (case cpu_component_temperature (sy_view w) of
             Some _ \<Rightarrow> (Adapter_Available, None, None)
           | None \<Rightarrow> (let (r, d) = cpu_temperature_unavailable (sy_view w)
               in (Adapter_Degraded, Some r, Some [Txt d])))
     in (\<lparr>as_adapter = SYSTEM_ID, as_state = st, as_reason = reason, as_detail = detail,
          as_checked_at_ms = sy_clock w, as_device_count = length devices\<rparr>, w))"

definition system_discover :: "system_adapter \<Rightarrow> device list result \<times> system_adapter" where
  "system_discover w =
    (let (devices, w) = build_devices (scan_hwmon w) in
     if devices = [] then (Inl (AdapterUnavailable SYSTEM_ID
       [Txt ''the operating system reported no usable sensors'']), w)
     else (and_then (for_each validate_device devices) (\<lambda>_. Inr devices), w))"

subsection \<open>Reading\<close>

definition fan_readings :: "filesystem \<Rightarrow> fan_channel \<Rightarrow> reading list" where
  "fan_readings fs f =
     (case read_rpm fs f of None \<Rightarrow> []
      | Some (Inr rpm) \<Rightarrow> [reading_ok FAN_RPM (Integer (f64_to_i64 (fround rpm)))]
      | Some (Inl p) \<Rightarrow> [problem_reading FAN_RPM p])
   @ (case read_pwm fs f of None \<Rightarrow> []
      | Some (Inr (percent, _)) \<Rightarrow> [reading_ok FAN_PWM (Number (tenths percent))]
      | Some (Inl p) \<Rightarrow> [problem_reading FAN_PWM p])
   @ (case read_mode fs f of None \<Rightarrow> []
      | Some (r, d) \<Rightarrow> [problem_reading STATUS_MESSAGE (r, ''pwm control mode unreadable: '' @ d)])"

definition read_one :: "system_adapter \<Rightarrow> device \<Rightarrow> device_state" where
  "read_one w d =
    (let st = new_state (dev_id d) (sy_clock w); v = sy_view w; sets = (\<lambda>rs. fold set_reading rs st) in
     if dev_id d = cpu_device_id then sets (cpu_readings v)
     else (case index_of ''temperature.system.'' d of Some i \<Rightarrow> sets [zone_reading v i]
     | None \<Rightarrow>
       if dev_id d = memory_device_id then sets (memory_readings v)
       else if strip_prefix ''fan.system.'' (dev_id d) \<noteq> None then
         (case hwmon_channel w (dev_id d) of
            None \<Rightarrow> offline NotPresent ''the kernel no longer exposes this fan channel'' st
          | Some f \<Rightarrow> sets (fan_readings (sy_fs w) f))
       else (case index_of ''storage.system.'' d of None \<Rightarrow> st
         | Some i \<Rightarrow> (case disk_readings (sy_statvfs w) v i of
             None \<Rightarrow> offline NotPresent ''the drive is no longer present'' st
           | Some rs \<Rightarrow> sets rs))))"

definition system_read_state :: "device \<Rightarrow> system_adapter \<Rightarrow> device_state result \<times> system_adapter" where
  "system_read_state d w = (let w = sy_refresh w in (Inr (read_one w d), w))"

definition system_read_all :: "device list \<Rightarrow> system_adapter
    \<Rightarrow> (string \<times> device_state result) list \<times> system_adapter" where
  "system_read_all ds w = (let w = sy_refresh w in (map (\<lambda>d. (dev_id d, Inr (read_one w d))) ds, w))"

subsection \<open>Writing\<close>

definition is_fan_id :: "string \<Rightarrow> bool" where
  "is_fan_id i \<longleftrightarrow> strip_prefix ''fan.system.'' i \<noteq> None"

definition taken_put :: "string \<Rightarrow> control_mode \<Rightarrow> system_adapter \<Rightarrow> system_adapter" where
  "taken_put i m w = w\<lparr>sy_taken := sorted_put fst (i, m) (sy_taken w)\<rparr>"

definition wrote_text :: "int \<Rightarrow> fan_channel \<Rightarrow> f64 \<Rightarrow> message" where
  "wrote_text raw f percent = [Txt ''wrote '', Dec raw, Txt '' to '',
     Txt (case fc_pwm f of Some p \<Rightarrow> p | None \<Rightarrow> ''pwm''), Txt '' ('', Num (fround percent),
     Txt '' % of the interface's 255)'']"

text \<open>A failed duty write puts a channel it had taken back, and forgets it.\<close>

definition undo_take :: "string \<Rightarrow> fan_channel \<Rightarrow> system_adapter \<Rightarrow> system_adapter" where
  "undo_take i f w = (case map_of (sy_taken w) i of None \<Rightarrow> w
     | Some m \<Rightarrow> w\<lparr>sy_taken := remove_key fst i (sy_taken w),
                 sy_fs := snd (restore_control f (Some m) (sy_fs w))\<rparr>)"

definition drive_channel :: "string \<Rightarrow> fan_channel \<Rightarrow> f64 \<Rightarrow> system_adapter
    \<Rightarrow> write_outcome result \<times> system_adapter" where
  "drive_channel i f percent w =
    (case set_pwm f percent (sy_fs w) of
       (Inr raw, fs) \<Rightarrow> (Inr ((outcome_applied (Number (tenths percent)))
           \<lparr>wo_detail := Some (wrote_text raw f percent)\<rparr>), w\<lparr>sy_fs := fs\<rparr>)
     | (Inl (reason, detail), fs) \<Rightarrow>
         (Inr (outcome_rejected [Txt (reason_code reason), Txt '': '', Txt detail]),
          undo_take i f (w\<lparr>sy_fs := fs\<rparr>)))"

definition system_write :: "device \<Rightarrow> capability \<Rightarrow> val \<Rightarrow> system_adapter
    \<Rightarrow> write_outcome result \<times> system_adapter" where
  "system_write d cap v w =
    (let i = dev_id d in
     if \<not> is_fan_id i \<or> cap_id cap \<noteq> FAN_SPEED_PERCENT then
       (Inl (CapabilityNotWritable i (cap_id cap)), w)
     else if \<not> pwm_writable w i then
       (Inr (outcome_rejected [Txt i, Txt '' is not in adapter_settings.system.pwm_write_allow, so this build does not write it'']), w)
     else (case as_f64 v of
       None \<Rightarrow> (Inr (outcome_rejected [Txt ''a fan duty has to be a number, not '', Txt (val_to_string v)]), w)
     | Some percent \<Rightarrow>
       (case hwmon_channel w i of
          None \<Rightarrow> (Inr (outcome_rejected [Txt ''the kernel no longer exposes this fan channel'']), w)
        | Some f \<Rightarrow>
          (case take_control f (sy_fs w) of
             (Inl (_, detail), fs) \<Rightarrow> (Inr (outcome_rejected [Txt detail]), w\<lparr>sy_fs := fs\<rparr>)
           | (Inr (Some m), fs) \<Rightarrow> drive_channel i f percent (taken_put i m (w\<lparr>sy_fs := fs\<rparr>))
           | (Inr None, fs) \<Rightarrow> drive_channel i f percent (w\<lparr>sy_fs := fs\<rparr>)))))"

definition system_write_access :: "device \<Rightarrow> capability \<Rightarrow> system_adapter \<Rightarrow> write_access" where
  "system_write_access d cap w =
    (let i = dev_id d in
     if \<not> is_fan_id i \<or> \<not> (cap_id cap = FAN_SPEED_PERCENT \<or> cap_id cap = PUMP_SPEED_PERCENT) then Access_Unknown
     else if \<not> pwm_writable w i then
       Denied (i @ '' is not in adapter_settings.system.pwm_write_allow, so this build does not write it'')
     else (case hwmon_channel w i of
       None \<Rightarrow> Denied ''the kernel no longer exposes this fan channel''
     | Some f \<Rightarrow> (case fc_pwm f of
         None \<Rightarrow> Denied (i @ '' has no pwm file, so there is nothing to write'')
       | Some p \<Rightarrow> (case open_error (sy_fs w) p of None \<Rightarrow> Permitted
           | Some e \<Rightarrow> Denied (''the platform refuses to open '' @ p @ '' for writing: '' @ io_text e)))))"

subsection \<open>Handing control back\<close>

definition system_taken :: "system_adapter \<Rightarrow> taken_control list" where
  "system_taken w = map (\<lambda>(i, m). \<lparr>tk_device_id = i, tk_original = restorable_value m,
     tk_original_text = describe_mode m\<rparr>) (sy_taken w)"

definition adopt_entry :: "taken_control \<Rightarrow> string list \<times> system_adapter \<Rightarrow> string list \<times> system_adapter" where
  "adopt_entry entry = (\<lambda>(problems, w).
    (let i = tk_device_id entry in
     if i \<notin> set (sy_allow w) then
       (problems @ [i @ '': left in manual mode by a previous owner, but it is not in ''
         @ ''`adapter_settings.system.pwm_write_allow`, so this process may not put it back (''
         @ tk_original_text entry @ '')''], w)
     else (case tk_original entry of
       None \<Rightarrow> (problems @ [i @ '': the previous owner did not record a value it could write back (''
         @ tk_original_text entry @ ''), so this channel is left exactly as it is rather than guessed at''], w)
     | Some v \<Rightarrow>
       (let m = from_restored v; w = taken_put i m w in
        (case hwmon_channel w i of
           None \<Rightarrow> (problems @ [i @ '': adopted, but the channel is not in this hwmon tree, so it cannot be ''
             @ ''written back until it returns''], w)
         | Some f \<Rightarrow> (case restore_control f (Some m) (sy_fs w) of
             (Inr _, fs) \<Rightarrow> (problems, w\<lparr>sy_fs := fs\<rparr>)
           | (Inl detail, fs) \<Rightarrow> (problems @ [i @ '': '' @ detail], w\<lparr>sy_fs := fs\<rparr>)))))))"

definition system_adopt :: "taken_control list \<Rightarrow> system_adapter \<Rightarrow> string list \<times> system_adapter" where
  "system_adopt taken w = fold adopt_entry taken ([], w)"

definition give_back :: "string \<times> control_mode \<Rightarrow> string list \<times> system_adapter \<Rightarrow> string list \<times> system_adapter" where
  "give_back = (\<lambda>(i, m) (failures, w).
    (case hwmon_channel w i of
       None \<Rightarrow> (failures @ [i @ '': the channel is gone, so its owner cannot be restored''], w)
     | Some f \<Rightarrow> (case restore_control f (Some m) (sy_fs w) of
         (Inr _, fs) \<Rightarrow> (failures, w\<lparr>sy_fs := fs\<rparr>)
       | (Inl detail, fs) \<Rightarrow> (failures @ [detail], w\<lparr>sy_fs := fs\<rparr>))))"

definition system_shutdown :: "system_adapter \<Rightarrow> unit result \<times> system_adapter" where
  "system_shutdown w =
    (let taken = sy_taken w; w = w\<lparr>sy_taken := []\<rparr> in
     if taken = [] then (Inr (), w)
     else (let (failures, w) = fold give_back taken ([], w) in
       (if failures = [] then Inr ()
        else Inl (AdapterError SYSTEM_ID [Txt ''could not hand every hwmon channel back: '',
          Txt (join ''; '' failures)]), w)))"

definition system_adapter_of :: "system_adapter \<Rightarrow> system_adapter adapter" where
  "system_adapter_of w0 = \<lparr>ad_info = system_info w0, ad_probe = system_probe, ad_discover = system_discover,
     ad_read_all = system_read_all, ad_write = system_write, ad_shutdown = system_shutdown,
     ad_write_access = system_write_access, ad_taken_controls = system_taken, ad_adopt = system_adopt\<rparr>"

end
