(* ===== verification/System_Safety.thy ===== *)
theory System_Safety
  imports System_Adapter
begin

section \<open>The operating system adapter, proved\<close>

text \<open>
  Which files the adapter touches, what it holds and how it gives it back: the frame of every call, the
  paths a scan finds, the restoring loops of shutdown and adoption, and the life of the adapter over
  files that change as they like.
\<close>

subsection \<open>Which files an operation touches\<close>

definition chan_paths :: "fan_channel \<Rightarrow> string set" where
  "chan_paths f = set_option (fc_pwm f) \<union> fst ` set_option (fc_mode f)"

lemma write_elsewhere: "q \<noteq> p \<Longrightarrow> fs_files (snd (write_file p s fs)) q = fs_files fs q"
  by (auto simp: write_file_def put_text_def split: option.splits)

lemma snd_case_result:
  "snd (case x of (r, y) \<Rightarrow> (case r of Inl e \<Rightarrow> (g e, y) | Inr u \<Rightarrow> (h u, y))) = snd x"
  by (cases x) (auto split: sum.split)

lemma channel_ops_elsewhere:
  assumes "q \<notin> chan_paths f"
  shows "fs_files (snd (take_control f fs)) q = fs_files fs q"
    "fs_files (snd (set_pwm f x fs)) q = fs_files fs q"
    "fs_files (snd (restore_control f m fs)) q = fs_files fs q"
proof -
  have p: "fs_files (snd (write_file p s fs)) q = fs_files fs q"
    if "fc_pwm f = Some p \<or> (\<exists>m0. fc_mode f = Some (p, m0))" for p s
    using that assms by (intro write_elsewhere) (auto simp: chan_paths_def)
  show "fs_files (snd (take_control f fs)) q = fs_files fs q"
    using p by (auto simp: take_control_def snd_case_result split: option.split control_mode.split)
  show "fs_files (snd (set_pwm f x fs)) q = fs_files fs q"
    using p by (auto simp: set_pwm_def Let_def snd_case_result split: option.split)
  show "fs_files (snd (restore_control f m fs)) q = fs_files fs q"
    using p by (auto simp: restore_control_def snd_case_result split: option.split)
qed

lemma write_dirs [simp]: "fs_dirs (snd (write_file p s fs)) = fs_dirs fs"
  by (auto simp: write_file_def put_text_def split: option.splits)

lemma channel_ops_dirs [simp]:
  "fs_dirs (snd (take_control f fs)) = fs_dirs fs" "fs_dirs (snd (set_pwm f x fs)) = fs_dirs fs"
  "fs_dirs (snd (restore_control f m fs)) = fs_dirs fs"
  by (auto simp: take_control_def set_pwm_def restore_control_def Let_def snd_case_result
      split: option.split control_mode.split)

text \<open>The files of the channels that the settings allow, as the last scan found them.\<close>

definition touchable :: "system_adapter \<Rightarrow> string \<Rightarrow> bool" where
  "touchable w p \<longleftrightarrow> (\<exists>i f. pwm_writable w i \<and> hwmon_channel w i = Some f \<and> p \<in> chan_paths f)"

definition same_setup :: "system_adapter \<Rightarrow> system_adapter \<Rightarrow> bool" where
  "same_setup w w' \<longleftrightarrow> sy_allow w' = sy_allow w \<and> sy_tree w' = sy_tree w \<and> sy_root w' = sy_root w"

definition taken_allowed :: "system_adapter \<Rightarrow> bool" where
  "taken_allowed w \<longleftrightarrow> (\<forall>x \<in> set (sy_taken w). pwm_writable w (fst x))"

text \<open>What every operation keeps: only allowed channels are held, and other files stay as they were.\<close>

definition stays_within :: "system_adapter \<Rightarrow> system_adapter \<Rightarrow> bool" where
  "stays_within w w' \<longleftrightarrow> same_setup w w' \<and> taken_allowed w' \<and> fs_dirs (sy_fs w') = fs_dirs (sy_fs w)
     \<and> (\<forall>p. \<not> touchable w p \<longrightarrow> fs_files (sy_fs w') p = fs_files (sy_fs w) p)"

lemma stays_within_refl: "taken_allowed w \<Longrightarrow> stays_within w w"
  by (simp add: stays_within_def same_setup_def)

lemma stays_within_keeps:
  assumes "stays_within w w'"
  shows "taken_allowed w'" "pwm_writable w' = pwm_writable w" "hwmon_channel w' = hwmon_channel w"
    "touchable w' = touchable w"
  using assms by (auto simp: stays_within_def same_setup_def pwm_writable_def hwmon_channel_def touchable_def fun_eq_iff)

lemma stays_within_trans:
  assumes "stays_within w w'" "stays_within w' w''" shows "stays_within w w''"
  using assms stays_within_keeps(4) [OF assms(1)] by (auto simp: stays_within_def same_setup_def)

lemma within_fs:
  assumes "taken_allowed w" "pwm_writable w i" "hwmon_channel w i = Some f"
    and "\<And>q. q \<notin> chan_paths f \<Longrightarrow> fs_files fs q = fs_files (sy_fs w) q" "fs_dirs fs = fs_dirs (sy_fs w)"
  shows "stays_within w (w\<lparr>sy_fs := fs\<rparr>)"
  using assms by (auto simp: stays_within_def same_setup_def taken_allowed_def touchable_def pwm_writable_def)

lemma within_taken:
  assumes "taken_allowed w" "\<And>x. x \<in> set ts \<Longrightarrow> pwm_writable w (fst x)"
  shows "stays_within w (w\<lparr>sy_taken := ts\<rparr>)"
  using assms by (auto simp: stays_within_def same_setup_def taken_allowed_def pwm_writable_def)

lemma taken_put_within:
  assumes "taken_allowed w" "pwm_writable w i" shows "stays_within w (taken_put i m w)"
  unfolding taken_put_def
  by (rule within_taken) (use assms in \<open>auto simp: taken_allowed_def dest!: in_sorted_put\<close>)

lemma undo_take_within:
  assumes "taken_allowed w" "pwm_writable w i" "hwmon_channel w i = Some f"
  shows "stays_within w (undo_take i f w)"
proof (cases "map_of (sy_taken w) i")
  case None
  then show ?thesis using assms by (simp add: undo_take_def stays_within_refl)
next
  case (Some m)
  let ?w = "w\<lparr>sy_taken := remove_key fst i (sy_taken w)\<rparr>"
  have 1: "stays_within w ?w"
    by (rule within_taken) (use assms in \<open>auto simp: taken_allowed_def remove_key_def\<close>)
  have "stays_within ?w (?w\<lparr>sy_fs := snd (restore_control f (Some m) (sy_fs w))\<rparr>)"
    by (rule within_fs) (use stays_within_keeps [OF 1] assms channel_ops_elsewhere(3) in simp_all)
  with 1 have "stays_within w (?w\<lparr>sy_fs := snd (restore_control f (Some m) (sy_fs w))\<rparr>)" by (rule stays_within_trans)
  then show ?thesis by (simp add: undo_take_def Some)
qed

lemma drive_channel_within:
  assumes "taken_allowed w" "pwm_writable w i" "hwmon_channel w i = Some f"
  shows "stays_within w (snd (drive_channel i f x w))"
proof -
  let ?w = "w\<lparr>sy_fs := snd (set_pwm f x (sy_fs w))\<rparr>"
  have 1: "stays_within w ?w"
    by (rule within_fs) (use assms channel_ops_elsewhere(2) in simp_all)
  then have "stays_within ?w (undo_take i f ?w)"
    using assms by (intro undo_take_within) (simp_all add: stays_within_keeps)
  then have 2: "stays_within w (undo_take i f ?w)" by (rule stays_within_trans [OF 1])
  obtain r fs where "set_pwm f x (sy_fs w) = (r, fs)" by fastforce
  with 1 2 show ?thesis by (simp add: drive_channel_def split: sum.split prod.split)
qed

lemma system_write_within:
  assumes "taken_allowed w" shows "stays_within w (snd (system_write d cap v w))"
proof -
  let ?i = "dev_id d"
  have "stays_within w (snd (case take_control f (sy_fs w) of
             (Inl (_, detail), fs) \<Rightarrow> (Inr (outcome_rejected [Txt detail]), w\<lparr>sy_fs := fs\<rparr>)
           | (Inr (Some m), fs) \<Rightarrow> drive_channel ?i f x (taken_put ?i m (w\<lparr>sy_fs := fs\<rparr>))
           | (Inr None, fs) \<Rightarrow> drive_channel ?i f x (w\<lparr>sy_fs := fs\<rparr>)))"
    if w: "pwm_writable w ?i" "hwmon_channel w ?i = Some f" for f x
  proof -
    obtain r fs where t: "take_control f (sy_fs w) = (r, fs)" by fastforce
    have 1: "stays_within w (w\<lparr>sy_fs := fs\<rparr>)"
      by (rule within_fs [OF assms w]) (metis channel_ops_elsewhere(1) channel_ops_dirs(1) snd_conv t)+
    have d: "stays_within w (snd (drive_channel ?i f x w'))" if "stays_within w w'" for w'
      using that w stays_within_trans [OF that] drive_channel_within by (simp add: stays_within_keeps)
    have "stays_within w (taken_put ?i m (w\<lparr>sy_fs := fs\<rparr>))" for m
      using 1 w stays_within_trans [OF 1] taken_put_within by (simp add: stays_within_keeps)
    with 1 d show ?thesis by (simp add: t split: sum.split option.split prod.split)
  qed
  with assms show ?thesis
    by (simp add: system_write_def Let_def stays_within_refl split: option.split)
qed

lemma adopt_entry_within:
  assumes "taken_allowed (snd x)" shows "stays_within (snd x) (snd (adopt_entry entry x))"
proof -
  obtain ps w where x: "x = (ps, w)" by fastforce
  let ?i = "tk_device_id entry" and ?w = "\<lambda>m. taken_put (tk_device_id entry) m w"
  have "stays_within w (snd (adopt_entry entry (ps, w)))" if w: "taken_allowed w"
  proof (cases "pwm_writable w ?i \<and> tk_original entry \<noteq> None")
    case False
    with w show ?thesis by (auto simp: adopt_entry_def Let_def pwm_writable_def stays_within_refl)
  next
    case True
    then have 1: "stays_within w (?w m)" for m using w by (intro taken_put_within) simp_all
    have "stays_within (?w m) ((?w m)\<lparr>sy_fs := snd (restore_control f n (sy_fs w))\<rparr>)"
      if "hwmon_channel w ?i = Some f" for f m n
    proof (rule within_fs)
      show "fs_files (snd (restore_control f n (sy_fs w))) q = fs_files (sy_fs (?w m)) q" if "q \<notin> chan_paths f" for q
        using channel_ops_elsewhere(3) [OF that] by (simp add: taken_put_def)
      show "fs_dirs (snd (restore_control f n (sy_fs w))) = fs_dirs (sy_fs (?w m))" by (simp add: taken_put_def)
    qed (use True that in \<open>simp_all add: stays_within_keeps [OF 1]\<close>)
    with 1 have 2: "stays_within w ((?w m)\<lparr>sy_fs := snd (restore_control f n (sy_fs w))\<rparr>)"
      if "hwmon_channel w ?i = Some f" for f m n using that stays_within_trans by blast
    have "hwmon_channel (?w m) = hwmon_channel w" "sy_fs (?w m) = sy_fs w" for m
      using stays_within_keeps [OF 1] by (simp_all add: taken_put_def)
    then show ?thesis using True 1 2
      by (auto simp: adopt_entry_def Let_def pwm_writable_def split: option.split prod.split sum.split) (metis snd_conv)+
  qed
  with assms show ?thesis by (simp add: x)
qed

lemma give_back_within:
  assumes "taken_allowed (snd x)" "pwm_writable (snd x) (fst c)"
  shows "stays_within (snd x) (snd (give_back c x))"
proof -
  obtain ps w i m where x: "x = (ps, w)" "c = (i, m)" by (metis surj_pair)
  have "stays_within w (w\<lparr>sy_fs := snd (restore_control f n (sy_fs w))\<rparr>)" if "hwmon_channel w i = Some f" for f n
    by (rule within_fs) (use that assms x channel_ops_elsewhere(3) in auto)
  with assms show ?thesis
    by (auto simp: x give_back_def stays_within_refl split: option.split prod.split sum.split) (metis snd_conv)+
qed

lemma fold_within:
  assumes "taken_allowed (snd x)" "\<And>c y. c \<in> set cs \<Longrightarrow> stays_within (snd x) (snd y) \<Longrightarrow> stays_within (snd y) (snd (g c y))"
  shows "stays_within (snd x) (snd (fold g cs x))"
proof -
  have "stays_within (snd x) (snd (fold g ds y))" if "set ds \<subseteq> set cs" "stays_within (snd x) (snd y)" for ds y
    using that
  proof (induction ds arbitrary: y)
    case (Cons d ds)
    then show ?case using assms(2) stays_within_trans by (metis fold_simps(2) insert_subset list.simps(15))
  qed simp
  with assms(1) show ?thesis by (simp add: stays_within_refl)
qed

lemma system_adopt_within:
  assumes "taken_allowed w" shows "stays_within w (snd (system_adopt taken w))"
  using fold_within [of "([], w)" taken adopt_entry] adopt_entry_within stays_within_keeps(1) assms
  by (simp add: system_adopt_def)

lemma system_shutdown_within:
  assumes "taken_allowed w" shows "stays_within w (snd (system_shutdown w))"
proof -
  let ?w = "w\<lparr>sy_taken := []\<rparr>"
  have 1: "stays_within w ?w" by (rule within_taken) (use assms in simp_all)
  have "stays_within (snd y) (snd (give_back c y))" if "c \<in> set (sy_taken w)" "stays_within ?w (snd y)" for c y
  proof (rule give_back_within)
    show "pwm_writable (snd y) (fst c)"
      using that(1) assms by (simp add: stays_within_keeps [OF that(2)] stays_within_keeps [OF 1] taken_allowed_def)
  qed (rule stays_within_keeps [OF that(2)])
  then have "stays_within ?w (snd (fold give_back (sy_taken w) ([], ?w)))"
    using fold_within [of "([], ?w)" "sy_taken w" give_back] 1 by (simp add: stays_within_keeps)
  with 1 have "stays_within w (snd (fold give_back (sy_taken w) ([], ?w)))" by (rule stays_within_trans)
  with 1 show ?thesis by (simp add: system_shutdown_def Let_def split_def)
qed


text \<open>Probing, enumerating and reading leave the files and what is held alone.\<close>

lemma build_devices_world: "snd (build_devices w) = w\<lparr>sy_brand := cached_brand w\<rparr>"
  by (simp add: build_devices_def Let_def)

lemma system_views:
  "sy_fs (snd (system_probe w)) = sy_fs w" "sy_fs (snd (system_discover w)) = sy_fs w"
  "sy_fs (snd (system_read_all ds w)) = sy_fs w" "sy_taken (snd (system_probe w)) = sy_taken w"
  "sy_taken (snd (system_discover w)) = sy_taken w" "sy_taken (snd (system_read_all ds w)) = sy_taken w"
  "sy_allow (snd (system_probe w)) = sy_allow w" "sy_allow (snd (system_discover w)) = sy_allow w"
  "sy_allow (snd (system_read_all ds w)) = sy_allow w"
proof -
  have s: "sy_fs (scan_hwmon w) = sy_fs w \<and> sy_taken (scan_hwmon w) = sy_taken w \<and> sy_allow (scan_hwmon w) = sy_allow w"
    by (simp add: scan_hwmon_def split: option.split)
  show "sy_fs (snd (system_probe w)) = sy_fs w" "sy_taken (snd (system_probe w)) = sy_taken w"
    "sy_allow (snd (system_probe w)) = sy_allow w"
    by (simp_all add: system_probe_def split_def Let_def build_devices_world sy_refresh_def)
  show "sy_fs (snd (system_discover w)) = sy_fs w" "sy_taken (snd (system_discover w)) = sy_taken w"
    "sy_allow (snd (system_discover w)) = sy_allow w"
    using s by (simp_all add: system_discover_def split_def Let_def build_devices_world)
  show "sy_fs (snd (system_read_all ds w)) = sy_fs w" "sy_taken (snd (system_read_all ds w)) = sy_taken w"
    "sy_allow (snd (system_read_all ds w)) = sy_allow w"
    by (simp_all add: system_read_all_def Let_def sy_refresh_def)
qed

text \<open>One call of the adapter.\<close>

inductive sy_step :: "system_adapter \<Rightarrow> system_adapter \<Rightarrow> bool" where
  probed: "sy_step w (snd (system_probe w))"
| enumerated: "sy_step w (snd (system_discover w))"
| read: "sy_step w (snd (system_read_all ds w))"
| wrote: "sy_step w (snd (system_write d cap v w))"
| adopted: "list_all entry_ok taken \<Longrightarrow> sy_step w (snd (system_adopt taken w))"
| stopped: "sy_step w (snd (system_shutdown w))"

text \<open>C5. Only listed channels are touched: whatever the adapter is asked, to probe, enumerate, read,
  write, adopt or shut down, every file that is not the duty or the ownership file of a channel listed
  in the settings stays as it was, and only listed channels are ever held.\<close>
theorem only_listed_channels_touched:
  assumes "taken_allowed w" and "sy_step w w'"
  shows "taken_allowed w' \<and> sy_allow w' = sy_allow w
    \<and> (\<forall>p. \<not> touchable w p \<longrightarrow> fs_files (sy_fs w') p = fs_files (sy_fs w) p)"
proof -
  have k: ?thesis if "stays_within w w'" using that by (simp add: stays_within_def same_setup_def)
  have v: ?thesis if "sy_fs w' = sy_fs w" "sy_taken w' = sy_taken w" "sy_allow w' = sy_allow w"
    using that assms(1) by (simp add: taken_allowed_def pwm_writable_def)
  note within = system_write_within system_adopt_within system_shutdown_within
  from assms(2) show ?thesis
  proof cases
    case probed show ?thesis unfolding probed by (intro v [unfolded probed]) (simp_all add: system_views)
  next
    case enumerated show ?thesis unfolding enumerated by (intro v [unfolded enumerated]) (simp_all add: system_views)
  next
    case (read ds) show ?thesis unfolding read by (intro v [unfolded read]) (simp_all add: system_views)
  next
    case (wrote d cap x) then show ?thesis using assms(1) by (intro k) (simp add: within)
  next
    case (adopted taken) then show ?thesis using assms(1) by (intro k) (simp add: within)
  next
    case stopped then show ?thesis using assms(1) by (intro k) (simp add: within)
  qed
qed

subsection \<open>What a scan finds\<close>

definition dirs_ok :: "filesystem \<Rightarrow> bool" where
  "dirs_ok fs \<longleftrightarrow> (\<forall>d names n. fs_dirs fs d = Inr names \<and> n \<in> set names \<longrightarrow> CHR ''/'' \<notin> set n)"

definition enable_name :: "nat \<Rightarrow> string" where
  "enable_name n = ''pwm'' @ dec_nat n @ ''_enable''"

definition hwmon_dir :: "string \<Rightarrow> bool" where
  "hwmon_dir name \<longleftrightarrow> strip_prefix ''hwmon'' name \<noteq> None"

lemma hwmon_dir_nonempty: "hwmon_dir name \<Longrightarrow> name \<noteq> []"
  by (auto simp: hwmon_dir_def strip_prefix_def)

definition scanned :: "filesystem \<Rightarrow> string \<Rightarrow> string \<Rightarrow> fan_channel \<Rightarrow> bool" where
  "scanned fs dir name f \<longleftrightarrow> hwmon_dir name
     \<and> (\<exists>raw. read_to_string fs (path_join (path_join dir name) ''name'') = Inr raw \<and> fc_chip f = trim raw)
     \<and> (\<forall>p m. fc_mode f = Some (p, m) \<longrightarrow> p = path_join (path_join dir name) (enable_name (fc_channel f)))
     \<and> (\<forall>p. fc_pwm f = Some p \<longrightarrow> p = path_join (path_join dir name) (''pwm'' @ dec_nat (fc_channel f)))"

lemma scan_channel_scanned:
  assumes "scan_channel fs chip (path_join dir name) n = Some f" "hwmon_dir name"
    "read_to_string fs (path_join (path_join dir name) ''name'') = Inr raw" "chip = trim raw"
  shows "scanned fs dir name f"
  using assms by (auto simp: scan_channel_def scanned_def Let_def readable_file_def enable_name_def split: if_splits)

lemma in_map_filter: "y \<in> set (List.map_filter g xs) \<longleftrightarrow> (\<exists>x \<in> set xs. g x = Some y)"
  by (auto simp: List.map_filter_def image_iff)

lemma channels_iff: "f \<in> snd ` set (channels t) \<longleftrightarrow> (\<exists>c \<in> set (ht_chips t). f \<in> set (hc_fans c))"
  by (force simp: channels_def)

definition tree_scanned :: "filesystem \<Rightarrow> string \<Rightarrow> hwmon_tree \<Rightarrow> bool" where
  "tree_scanned fs dir t \<longleftrightarrow> (\<forall>c \<in> set (ht_chips t). \<forall>f \<in> set (hc_fans c).
     \<exists>n. CHR ''/'' \<notin> set n \<and> scanned fs dir n f)"

lemma scan_chip_scanned:
  assumes "tree_scanned fs dir t" "hwmon_dir name" "CHR ''/'' \<notin> set name"
  shows "tree_scanned fs dir (scan_chip fs (k, path_join dir name, name) t)"
proof (cases "read_to_string fs (path_join (path_join dir name) ''name'')")
  case (Inl e)
  with assms(1) show ?thesis by (simp add: scan_chip_def tree_scanned_def)
next
  case (Inr raw)
  have "scanned fs dir name f" if "scan_channel fs (trim raw) (path_join dir name) n = Some f" for n f
    using scan_channel_scanned [OF that assms(2) Inr] by simp
  then have "\<exists>a. CHR ''/'' \<notin> set a \<and> scanned fs dir a f"
    if "scan_channel fs (trim raw) (path_join dir name) n = Some f" for n f using that assms(3) by blast
  with assms(1) Inr show ?thesis by (auto simp: scan_chip_def tree_scanned_def Let_def in_map_filter)
qed

lemma discover_scanned:
  assumes "dirs_ok fs" shows "tree_scanned fs dir (discover_hwmon fs dir)"
proof (cases "fs_dirs fs dir")
  case (Inr names)
  define xs where "xs = sort_key fst (List.map_filter (\<lambda>name. map_option (\<lambda>n. (n, path_join dir name, name))
    (Option.bind (strip_prefix ''hwmon'' name) parse_u32)) names)"
  have xs: "\<exists>k name. x = (k, path_join dir name, name) \<and> hwmon_dir name \<and> CHR ''/'' \<notin> set name"
    if "x \<in> set xs" for x
    using that assms Inr by (auto simp: xs_def in_map_filter hwmon_dir_def dirs_ok_def bind_eq_Some_conv)
  have "tree_scanned fs dir (fold (scan_chip fs) xs \<lparr>ht_chips = [], ht_notes = []\<rparr>)"
  proof (rule fold_keeps_in)
    fix x t assume "x \<in> set xs" and t: "tree_scanned fs dir t"
    then obtain k name where "x = (k, path_join dir name, name)" "hwmon_dir name" "CHR ''/'' \<notin> set name"
      using xs by blast
    with scan_chip_scanned [OF t] show "tree_scanned fs dir (scan_chip fs x t)" by simp
  qed (simp add: tree_scanned_def)
  then show ?thesis by (simp add: discover_hwmon_def Inr xs_def)
qed (simp add: discover_hwmon_def tree_scanned_def)

text \<open>A path names its directory and its file.\<close>

lemma slash_split:
  assumes "a @ ''/'' @ m = b @ ''/'' @ n" "CHR ''/'' \<notin> set m" "CHR ''/'' \<notin> set n"
  shows "a = b \<and> m = n"
proof -
  have r: "rev m @ CHR ''/'' # rev a = rev n @ CHR ''/'' # rev b" using arg_cong [OF assms(1), of rev] by simp
  have t: "takeWhile (\<lambda>c. c \<noteq> CHR ''/'') (rev x @ CHR ''/'' # y) = rev x" if "CHR ''/'' \<notin> set x" for x y
    using that by (induction x rule: rev_induct) (auto simp: takeWhile_append)
  have "rev m = rev n" using arg_cong [OF r, of "takeWhile (\<lambda>c. c \<noteq> CHR ''/'')"] assms(2,3) by (simp add: t)
  with r show ?thesis by simp
qed

lemma channel_file_inj:
  assumes "path_join (path_join dir a) m = path_join (path_join dir b) n"
    and "hwmon_dir a" "hwmon_dir b" "CHR ''/'' \<notin> set a" "CHR ''/'' \<notin> set b"
    and "CHR ''/'' \<notin> set m" "CHR ''/'' \<notin> set n"
  shows "a = b \<and> m = n"
proof -
  have d: "path_join (path_join dir x) k = path_join dir x @ ''/'' @ k"
    if "hwmon_dir x" "CHR ''/'' \<notin> set x" for x k
  proof -
    have "x \<noteq> []" using that by (simp add: hwmon_dir_nonempty)
    moreover have "last x \<noteq> CHR ''/''" using that \<open>x \<noteq> []\<close> last_in_set by metis
    ultimately show ?thesis by (simp add: path_join_def)
  qed
  with assms slash_split have "path_join dir a = path_join dir b \<and> m = n" by metis
  then show ?thesis by (auto simp: path_join_def split: if_splits)
qed

lemma enable_name_inj: "enable_name m = enable_name n \<longleftrightarrow> m = n"
  by (simp add: enable_name_def dec_nat_inj)

lemma no_slash: "CHR ''/'' \<notin> set (enable_name n)" "CHR ''/'' \<notin> set (dec_nat n)"
proof -
  have "\<not> is_ascii_digit CHR ''/''" by (simp add: is_ascii_digit_def byte_def)
  then show "CHR ''/'' \<notin> set (dec_nat n)" using dec_nat_digits by metis
  then show "CHR ''/'' \<notin> set (enable_name n)" by (simp add: enable_name_def)
qed

lemma same_chip: "scanned fs dir n f \<Longrightarrow> scanned fs dir n g \<Longrightarrow> fc_chip f = fc_chip g"
  by (auto simp: scanned_def)

text \<open>So channels with different ids have different ownership files.\<close>

definition modes_apart :: "system_adapter \<Rightarrow> bool" where
  "modes_apart w \<longleftrightarrow> (\<forall>i j f g p m n. hwmon_channel w i = Some f \<and> hwmon_channel w j = Some g
     \<and> fc_mode f = Some (p, m) \<and> fc_mode g = Some (p, n) \<longrightarrow> i = j)"

lemma hwmon_channel_Some:
  assumes "hwmon_channel w i = Some f"
  obtains t c where "sy_tree w = Some t" "c \<in> set (ht_chips t)" "f \<in> set (hc_fans c)" "channel_device_id f = i"
proof -
  obtain t where t: "sy_tree w = Some t" "List.find (\<lambda>f. channel_device_id f = i) (map snd (channels t)) = Some f"
    using assms by (auto simp: hwmon_channel_def channel_by_device_id_def bind_eq_Some_conv)
  from t(2) have "f \<in> snd ` set (channels t)" "channel_device_id f = i"
    unfolding find_Some_iff by (metis nth_mem length_map set_map)+
  with t(1) that show ?thesis by (auto simp: channels_iff)
qed

lemma scan_modes_apart:
  assumes "dirs_ok (sy_fs w)" "sy_tree w = Some (discover_hwmon (sy_fs w) dir)"
  shows "modes_apart w"
  unfolding modes_apart_def
proof (intro allI impI, elim conjE)
  fix i j f g p m n
  assume f: "hwmon_channel w i = Some f" "fc_mode f = Some (p, m)"
    and g: "hwmon_channel w j = Some g" "fc_mode g = Some (p, n)"
  have "\<exists>a. CHR ''/'' \<notin> set a \<and> scanned (sy_fs w) dir a h \<and> channel_device_id h = k" if "hwmon_channel w k = Some h" for h k
    using that by (rule hwmon_channel_Some)
      (use assms discover_scanned [OF assms(1), of dir] in \<open>auto simp: channels_iff tree_scanned_def\<close>)
  then obtain a b where a: "CHR ''/'' \<notin> set a" "scanned (sy_fs w) dir a f" "channel_device_id f = i"
    and b: "CHR ''/'' \<notin> set b" "scanned (sy_fs w) dir b g" "channel_device_id g = j" using f g by metis
  have "p = path_join (path_join dir a) (enable_name (fc_channel f))"
    "p = path_join (path_join dir b) (enable_name (fc_channel g))"
    using f(2) g(2) a(2) b(2) by (simp_all add: scanned_def)
  then have e: "path_join (path_join dir a) (enable_name (fc_channel f))
      = path_join (path_join dir b) (enable_name (fc_channel g))" by simp
  have "hwmon_dir a" "hwmon_dir b" using a(2) b(2) by (simp_all add: scanned_def)
  then have "a = b" "fc_channel f = fc_channel g"
    using channel_file_inj [OF e _ _ a(1) b(1) no_slash(1) no_slash(1)] by (simp_all add: enable_name_inj)
  moreover have "fc_chip f = fc_chip g" using same_chip a(2) b(2) \<open>a = b\<close> by blast
  ultimately show "i = j" using a(3) b(3) by (simp add: channel_device_id_def)
qed

subsection \<open>Restoring many channels\<close>

text \<open>A mode that can be written back as it was.\<close>

definition exact :: "control_mode \<Rightarrow> bool" where
  "exact m \<longleftrightarrow> (case restorable_value m of None \<Rightarrow> False | Some v \<Rightarrow> is_i64 v \<and> from_restored v = m)"

lemma exact_restored: "is_i64 v \<Longrightarrow> exact (from_restored v)"
  by (simp add: exact_def from_restored_value)

lemma taken_exact: "take_control f fs = (Inr (Some m), fs') \<Longrightarrow> exact m"
  by (erule take_control_taken) (use mode_readable in \<open>auto simp: exact_def current_mode_Some\<close>)

fun restore_each :: "system_adapter \<Rightarrow> (string \<times> control_mode) list \<Rightarrow> filesystem \<Rightarrow> filesystem option" where
  "restore_each w [] fs = Some fs"
| "restore_each w ((i, m) # xs) fs =
    (case hwmon_channel w i of None \<Rightarrow> None
     | Some f \<Rightarrow> (case restore_control f (Some m) fs of (Inl _, _) \<Rightarrow> None | (Inr _, fs) \<Rightarrow> restore_each w xs fs))"

lemma restore_readable: "readable (snd (restore_control f m fs)) p = readable fs p"
  by (auto simp: restore_control_def snd_case_result readable_write split: option.split)

lemma mode_unless_written:
  assumes "fs_files fs' p = fs_files fs p" shows "mode_at fs' p = mode_at fs p"
  using assms by (simp add: mode_at_def read_to_string_def)

lemma restore_only_mode:
  "fc_mode f = None \<or> (\<exists>q m0. fc_mode f = Some (q, m0) \<and> q \<noteq> p)
    \<Longrightarrow> fs_files (snd (restore_control f m fs)) p = fs_files fs p"
  by (auto simp: restore_control_def snd_case_result write_elsewhere split: option.split)

lemma restore_each_other:
  assumes "restore_each w xs fs = Some fs'" "modes_apart w" "i \<notin> fst ` set xs"
    "hwmon_channel w i = Some f" "fc_mode f = Some (p, m0)"
  shows "mode_at fs' p = mode_at fs p"
  using assms(1,3)
proof (induction xs arbitrary: fs)
  case (Cons x xs)
  obtain j m where x: "x = (j, m)" by fastforce
  from Cons.prems x obtain g fs1 where g: "hwmon_channel w j = Some g" "restore_control g (Some m) fs = (Inr (), fs1)"
    "restore_each w xs fs1 = Some fs'" by (auto split: option.splits prod.splits sum.splits)
  have "fc_mode g = None \<or> (\<exists>q m0. fc_mode g = Some (q, m0) \<and> q \<noteq> p)"
    using assms(2,4,5) g(1) Cons.prems(2) x by (cases "fc_mode g") (force simp: modes_apart_def)+
  then have "mode_at fs1 p = mode_at fs p"
    using restore_only_mode [of g p "Some m" fs] g(2) by (intro mode_unless_written) simp
  with Cons g(3) x show ?case by auto
qed simp

lemma restore_each_mode:
  assumes "restore_each w xs fs = Some fs'" "modes_apart w" "distinct (map fst xs)" "(i, m) \<in> set xs" "exact m"
    "hwmon_channel w i = Some f" "fc_mode f = Some (p, m0)" "readable fs p"
  shows "mode_at fs' p = m"
  using assms(1,3,4,8)
proof (induction xs arbitrary: fs)
  case (Cons x xs)
  obtain j n where x: "x = (j, n)" by fastforce
  from Cons.prems x obtain g fs1 where g: "hwmon_channel w j = Some g" "restore_control g (Some n) fs = (Inr (), fs1)"
    "restore_each w xs fs1 = Some fs'" by (auto split: option.splits prod.splits sum.splits)
  have r: "readable fs1 p" using restore_readable [of g "Some n" fs p] g(2) Cons.prems(4) by simp
  show ?case
  proof (cases "i = j")
    case False
    with Cons x g r show ?thesis by auto
  next
    case True
    then have "n = m" "i \<notin> fst ` set xs" "g = f" using Cons.prems x g(1) assms(6) by force+
    moreover have "current_mode fs1 f = Some m"
      using restore_control_mode [of f m fs fs1 p m0] g(2) assms(5,7) Cons.prems(4) \<open>n = m\<close> \<open>g = f\<close>
      by (auto simp: exact_def split: option.splits)
    ultimately show ?thesis
      using restore_each_other [OF g(3) assms(2) _ assms(6,7)] assms(7) by (simp add: current_mode_def)
  qed
qed simp

lemma restore_each_found: "restore_each w xs fs = Some fs' \<Longrightarrow> (i, m) \<in> set xs \<Longrightarrow> hwmon_channel w i \<noteq> None"
  by (induction xs arbitrary: fs) (auto split: option.splits prod.splits sum.splits)

subsection \<open>Shutdown\<close>

lemma give_back_grows: "\<exists>zs. fst (fold give_back xs y) = fst y @ zs"
proof (induction xs arbitrary: y)
  case (Cons x xs)
  have "\<exists>zs. fst (give_back x y) = fst y @ zs"
    by (cases x; cases y) (simp add: give_back_def split: option.split prod.split sum.split)
  with Cons [of "give_back x y"] show ?case by (metis append.assoc fold_simps(2))
qed simp

lemma give_back_each:
  "fold give_back xs ([], w) = ([], w') \<Longrightarrow> restore_each w xs (sy_fs w) = Some (sy_fs w')"
proof (induction xs arbitrary: w)
  case (Cons x xs)
  obtain i m where x: "x = (i, m)" by fastforce
  have "fst (give_back x ([], w)) = []"
    using give_back_grows [of xs "give_back x ([], w)"] Cons.prems by (metis append_is_Nil_conv fold_simps(2) fst_conv)
  then obtain f fs where f: "hwmon_channel w i = Some f" "restore_control f (Some m) (sy_fs w) = (Inr (), fs)"
    "give_back x ([], w) = ([], w\<lparr>sy_fs := fs\<rparr>)"
    by (auto simp: give_back_def x split: option.splits prod.splits sum.splits)
  have "restore_each (w\<lparr>sy_fs := fs\<rparr>) ys = restore_each w ys" for ys
    by (rule ext, induction ys) (auto simp: hwmon_channel_def split: option.split prod.split sum.split)
  with Cons.IH [of "w\<lparr>sy_fs := fs\<rparr>"] Cons.prems f show ?case by (simp add: x)
qed simp

text \<open>The record of what is held: distinct channels, each with the exact mode it had.\<close>

definition holdings_ok :: "system_adapter \<Rightarrow> bool" where
  "holdings_ok w \<longleftrightarrow> sorted_keys fst (sy_taken w) \<and> (\<forall>x \<in> set (sy_taken w). exact (snd x))"

lemma shutdown_restores:
  assumes "holdings_ok w" "modes_apart w" and "system_shutdown w = (Inr (), w')" and "(i, m) \<in> set (sy_taken w)"
  shows "\<exists>f. hwmon_channel w i = Some f \<and>
    (\<forall>p m0. fc_mode f = Some (p, m0) \<and> readable (sy_fs w) p \<longrightarrow> mode_at (sy_fs w') p = m)"
proof -
  have "fold give_back (sy_taken w) ([], w\<lparr>sy_taken := []\<rparr>) = ([], w')"
    using assms(3,4) by (auto simp: system_shutdown_def Let_def split: prod.splits if_splits)
  from give_back_each [OF this] have r: "restore_each (w\<lparr>sy_taken := []\<rparr>) (sy_taken w) (sy_fs w) = Some (sy_fs w')"
    by simp
  have ch: "hwmon_channel (w\<lparr>sy_taken := []\<rparr>) = hwmon_channel w" by (simp add: hwmon_channel_def fun_eq_iff)
  then obtain f where f: "hwmon_channel w i = Some f" using restore_each_found [OF r assms(4)] by auto
  have "modes_apart (w\<lparr>sy_taken := []\<rparr>)" using assms(2) by (simp add: modes_apart_def ch)
  moreover have "distinct (map fst (sy_taken w))" "exact m"
    using assms(1,4) by (auto simp: holdings_ok_def sorted_keys_distinct)
  ultimately have "mode_at (sy_fs w') p = m" if "fc_mode f = Some (p, m0)" "readable (sy_fs w) p" for p m0
    using restore_each_mode [OF r _ _ assms(4) _ _ that] by (simp add: ch f)
  with f show ?thesis by blast
qed

text \<open>Every call keeps the record of what is held exact.\<close>

lemma holdings_put: "holdings_ok w \<Longrightarrow> exact m \<Longrightarrow> holdings_ok (taken_put i m w)"
  by (auto simp: holdings_ok_def taken_put_def sorted_keys_put dest!: in_sorted_put)

lemma holdings_fs [simp]: "holdings_ok (w\<lparr>sy_fs := fs\<rparr>) = holdings_ok w"
  by (simp add: holdings_ok_def)

lemma holdings_undo: "holdings_ok w \<Longrightarrow> holdings_ok (undo_take i f w)"
  using sorted_keys_remove [of fst "sy_taken w" i]
  by (auto simp: holdings_ok_def undo_take_def remove_key_def split: option.split)

lemma holdings_drive: "holdings_ok w \<Longrightarrow> holdings_ok (snd (drive_channel i f x w))"
  by (simp add: drive_channel_def holdings_undo split: prod.split sum.split)

lemma holdings_write: "holdings_ok w \<Longrightarrow> holdings_ok (snd (system_write d cap v w))"
  using holdings_drive holdings_put taken_exact
  by (simp add: system_write_def Let_def split: option.split prod.split sum.split)

lemma holdings_adopt_entry:
  "holdings_ok (snd x) \<Longrightarrow> entry_ok t \<Longrightarrow> holdings_ok (snd (adopt_entry t x))"
  by (cases x) (auto simp: adopt_entry_def Let_def entry_ok_def holdings_put exact_restored
      split: option.split prod.split sum.split)

lemma holdings_adopt: "holdings_ok w \<Longrightarrow> list_all entry_ok ts \<Longrightarrow> holdings_ok (snd (system_adopt ts w))"
  unfolding system_adopt_def
  by (rule fold_keeps_in [where P = "\<lambda>y. holdings_ok (snd y)"])
    (auto simp: list_all_iff intro: holdings_adopt_entry)

lemma taken_shutdown: "sy_taken (snd (system_shutdown w)) = []"
proof -
  have "sy_taken (snd (fold give_back xs y)) = sy_taken (snd y)" for xs y
    by (induction xs arbitrary: y)
      (auto simp: give_back_def split: option.split prod.split sum.split)
  then show ?thesis by (simp add: system_shutdown_def Let_def split_def)
qed

subsection \<open>The adapter in operation\<close>

text \<open>Any calls in any order, and between them the files change as they like.\<close>

inductive sy_life :: "system_adapter \<Rightarrow> bool" where
  booted: "dirs_ok fs \<Longrightarrow> sy_life (system_new dir allow fs views st now)" for views
| called: "sy_life w \<Longrightarrow> sy_step w w' \<Longrightarrow> sy_life w'"
| changed: "sy_life w \<Longrightarrow> dirs_ok fs \<Longrightarrow> sy_life (w\<lparr>sy_fs := fs, sy_clock := k\<rparr>)"

definition life_ok :: "system_adapter \<Rightarrow> bool" where
  "life_ok w \<longleftrightarrow> holdings_ok w \<and> taken_allowed w \<and> modes_apart w \<and> dirs_ok (sy_fs w)"

lemma modes_apart_cong: "sy_tree w' = sy_tree w \<Longrightarrow> modes_apart w' = modes_apart w"
  by (simp add: modes_apart_def hwmon_channel_def)

lemma stays_within_life:
  assumes "stays_within w w'" "life_ok w" "holdings_ok w'" shows "life_ok w'"
  using assms modes_apart_cong [of w' w] by (simp add: life_ok_def stays_within_def same_setup_def dirs_ok_def)

lemma views_holdings:
  "sy_tree (snd (system_probe w)) = sy_tree w" "sy_tree (snd (system_read_all ds w)) = sy_tree w"
  "sy_tree (snd (system_discover w)) = sy_tree (scan_hwmon w)"
  by (simp_all add: system_probe_def system_read_all_def system_discover_def split_def Let_def
      build_devices_world sy_refresh_def)

lemma scan_life: "modes_apart w \<Longrightarrow> dirs_ok (sy_fs w) \<Longrightarrow> modes_apart (scan_hwmon w)"
  using scan_modes_apart [of "w\<lparr>sy_tree := Some (discover_hwmon (sy_fs w) dir)\<rparr>" dir for dir]
  by (cases "sy_root w") (simp_all add: scan_hwmon_def)

lemma step_life:
  assumes "sy_step w w'" "life_ok w" shows "life_ok w'"
proof -
  have v: ?thesis if "sy_fs w' = sy_fs w" "sy_taken w' = sy_taken w" "sy_allow w' = sy_allow w" "modes_apart w'"
    using that assms(2) by (simp add: life_ok_def holdings_ok_def taken_allowed_def pwm_writable_def)
  have w: "holdings_ok w" "taken_allowed w" "modes_apart w" "dirs_ok (sy_fs w)"
    using assms(2) by (simp_all add: life_ok_def)
  have k: ?thesis if "stays_within w w'" "holdings_ok w'" by (rule stays_within_life [OF that(1) assms(2) that(2)])
  from assms(1) show ?thesis
  proof cases
    case probed show ?thesis unfolding probed
      by (intro v [unfolded probed]) (use w in \<open>simp_all add: system_views modes_apart_cong [OF views_holdings(1)]\<close>)
  next
    case enumerated show ?thesis unfolding enumerated
      by (intro v [unfolded enumerated]) (use w scan_life in \<open>simp_all add: system_views modes_apart_cong [OF views_holdings(3)]\<close>)
  next
    case (read ds) show ?thesis unfolding read
      by (intro v [unfolded read]) (use w in \<open>simp_all add: system_views modes_apart_cong [OF views_holdings(2)]\<close>)
  next
    case (wrote d cap x) then show ?thesis using w by (intro k) (simp_all add: system_write_within holdings_write)
  next
    case (adopted taken) then show ?thesis using w by (intro k) (simp_all add: system_adopt_within holdings_adopt)
  next
    case stopped then show ?thesis using w
      by (intro k) (simp_all add: system_shutdown_within holdings_ok_def taken_shutdown sorted_keys_def)
  qed
qed

lemma life_life_ok: "sy_life w \<Longrightarrow> life_ok w"
proof (induction rule: sy_life.induct)
  case (booted fs dir allow views st now)
  then show ?case
    by (simp add: life_ok_def system_new_def holdings_ok_def taken_allowed_def modes_apart_def hwmon_channel_def sorted_keys_def)
next
  case (changed w fs k)
  have "modes_apart (w\<lparr>sy_fs := fs, sy_clock := k\<rparr>) = modes_apart w" by (rule modes_apart_cong) simp
  with changed show ?case by (simp add: life_ok_def holdings_ok_def taken_allowed_def pwm_writable_def)
qed (rule step_life)

text \<open>Control is handed back exactly: whatever the adapter did before, when its shutdown reports
  success then every channel it held is still in the tree, and its ownership file, where the last scan
  could read it, says again the very mode the channel had when it was taken.\<close>
theorem shutdown_hands_back:
  assumes "sy_life w" and "system_shutdown w = (Inr (), w')" and "(i, m) \<in> set (sy_taken w)"
  shows "sy_taken w' = [] \<and> (\<exists>f. hwmon_channel w i = Some f \<and>
    (\<forall>p m0. fc_mode f = Some (p, m0) \<and> readable (sy_fs w) p \<longrightarrow> mode_at (sy_fs w') p = m))"
  using shutdown_restores [OF _ _ assms(2,3)] life_life_ok [OF assms(1)] taken_shutdown [of w] assms(2)
  by (simp add: life_ok_def)

subsection \<open>Adoption\<close>

lemma adopt_entry_grows: "\<exists>zs. fst (adopt_entry t y) = fst y @ zs"
  by (cases y) (simp add: adopt_entry_def Let_def split: option.split prod.split sum.split)

lemma adopt_grows: "\<exists>zs. fst (fold adopt_entry ts y) = fst y @ zs"
proof (induction ts arbitrary: y)
  case (Cons t ts)
  then show ?case using adopt_entry_grows [of t y] Cons [of "adopt_entry t y"] by (metis append.assoc fold_simps(2))
qed simp

definition owed_mode :: "taken_control \<Rightarrow> string \<times> control_mode" where
  "owed_mode t = (tk_device_id t, from_restored (the (tk_original t)))"

lemma restore_each_world: "sy_tree w' = sy_tree w \<Longrightarrow> restore_each w' xs fs = restore_each w xs fs"
  by (induction xs arbitrary: fs) (auto simp: hwmon_channel_def split: option.split prod.split sum.split)

lemma adopt_restores:
  assumes "fold adopt_entry ts ([], w) = ([], w')"
  shows "restore_each w (map owed_mode ts) (sy_fs w) = Some (sy_fs w')
    \<and> sy_taken w' = fold (sorted_put fst) (map owed_mode ts) (sy_taken w)
    \<and> (\<forall>t \<in> set ts. tk_device_id t \<in> set (sy_allow w) \<and> tk_original t \<noteq> None)"
  using assms
proof (induction ts arbitrary: w)
  case (Cons t ts)
  have "fst (adopt_entry t ([], w)) = []"
    using adopt_grows [of ts "adopt_entry t ([], w)"] Cons.prems by (metis append_is_Nil_conv fold_simps(2) fst_conv)
  then obtain f fs v where f: "tk_device_id t \<in> set (sy_allow w)" "tk_original t = Some v"
    "hwmon_channel (taken_put (tk_device_id t) (from_restored v) w) (tk_device_id t) = Some f"
    "restore_control f (Some (from_restored v)) (sy_fs w) = (Inr (), fs)"
    "adopt_entry t ([], w) = ([], (taken_put (tk_device_id t) (from_restored v) w)\<lparr>sy_fs := fs\<rparr>)"
    by (auto simp: adopt_entry_def Let_def taken_put_def split: option.splits prod.splits sum.splits if_splits)
  let ?w = "(taken_put (tk_device_id t) (from_restored v) w)\<lparr>sy_fs := fs\<rparr>"
  have ow: "owed_mode t = (tk_device_id t, from_restored v)" using f(2) by (simp add: owed_mode_def)
  have "hwmon_channel w (tk_device_id t) = Some f" using f(3) by (simp add: hwmon_channel_def taken_put_def)
  moreover have "restore_each ?w xs k = restore_each w xs k" for xs k
    by (rule restore_each_world) (simp add: taken_put_def)
  moreover have "fold adopt_entry ts ([], ?w) = ([], w')" using Cons.prems f(5) by simp
  from Cons.IH [OF this] have "restore_each ?w (map owed_mode ts) fs = Some (sy_fs w')"
    "sy_taken w' = fold (sorted_put fst) (map owed_mode ts) (sorted_put fst (owed_mode t) (sy_taken w))"
    "\<forall>t \<in> set ts. tk_device_id t \<in> set (sy_allow w) \<and> tk_original t \<noteq> None"
    by (simp_all add: taken_put_def ow)
  ultimately show ?case using f(1,2,4) by (simp add: ow)
qed simp

lemma map_of_find: "map_of xs k = map_option snd (List.find (\<lambda>x. fst x = k) xs)"
  by (induction xs) auto

lemma map_of_sorted_put: "map_of (sorted_put fst (i, m) xs) j = (if j = i then Some m else map_of xs j)"
  by (simp add: map_of_find find_sorted_put)

lemma map_of_fold_put:
  "distinct (map fst xs) \<Longrightarrow> (i, m) \<in> set xs \<Longrightarrow> map_of (fold (sorted_put fst) xs ts) i = Some m"
proof (induction xs arbitrary: ts)
  case (Cons x xs)
  have other: "i \<notin> fst ` set xs \<Longrightarrow> map_of (fold (sorted_put fst) xs ts) i = map_of ts i" for ts
    by (induction xs arbitrary: ts) (auto simp: map_of_sorted_put simp del: sorted_put.simps)
  show ?case
  proof (cases "x = (i, m)")
    case True
    with Cons.prems other [of "sorted_put fst (i, m) ts"] show ?thesis by (simp add: map_of_sorted_put)
  next
    case False
    with Cons show ?thesis by simp
  qed
qed simp

text \<open>Responsibility passes to the next process: what one process publishes as held, and the next
  adopts without a complaint, the next holds with the original mode, not the one the channel has now,
  and every ownership file that can be read says that mode again.\<close>
lemma adopted_from:
  assumes "sy_life a" "sy_life b" and "system_adopt (system_taken a) b = ([], b')" and "(i, m) \<in> set (sy_taken a)"
  shows "pwm_writable b i \<and> map_of (sy_taken b') i = Some m \<and> (\<exists>f. hwmon_channel b i = Some f \<and>
    (\<forall>p m0. fc_mode f = Some (p, m0) \<and> readable (sy_fs b) p \<longrightarrow> mode_at (sy_fs b') p = m))"
proof -
  let ?ts = "system_taken a"
  have a: "holdings_ok a" and b: "modes_apart b" using life_life_ok assms(1,2) by (simp_all add: life_ok_def)
  have "owed_mode \<lparr>tk_device_id = i, tk_original = restorable_value m, tk_original_text = describe_mode m\<rparr> = (i, m)"
    if "(i, m) \<in> set (sy_taken a)" for i m
  proof -
    have "exact m" using a that by (force simp: holdings_ok_def)
    then show ?thesis by (auto simp: owed_mode_def exact_def split: option.splits)
  qed
  then have o: "map owed_mode ?ts = sy_taken a" by (auto simp: system_taken_def intro!: map_idI)
  note e = adopt_restores [OF assms(3) [unfolded system_adopt_def], unfolded o]
  have d: "distinct (map fst (sy_taken a))" "exact m" using a assms(4) by (auto simp: holdings_ok_def sorted_keys_distinct)
  have "i \<in> tk_device_id ` set ?ts" using assms(4) by (force simp: system_taken_def)
  then have "pwm_writable b i" using e by (auto simp: pwm_writable_def)
  moreover have "map_of (sy_taken b') i = Some m" using e map_of_fold_put [OF d(1) assms(4)] by simp
  moreover obtain f where f: "hwmon_channel b i = Some f" using restore_each_found [OF _ assms(4)] e by blast
  moreover have "mode_at (sy_fs b') p = m" if "fc_mode f = Some (p, m0)" "readable (sy_fs b) p" for p m0
    using restore_each_mode [OF _ b d(1) assms(4) d(2) f that] e by blast
  ultimately show ?thesis by blast
qed

subsection \<open>What an accepted write did\<close>

lemma set_pwm_ok:
  assumes "set_pwm f x fs = (Inr raw, fs')"
  obtains p where "fc_pwm f = Some p" "is_finite x" "raw = pwm_byte x"
    "write_file p (dec_int raw @ [CHR 0x0A]) fs = (Inr (), fs')"
  using assms by (auto simp: set_pwm_def Let_def split: option.splits prod.splits sum.splits if_splits)

lemma write_text: "write_file p s fs = (Inr (), fs') \<Longrightarrow> map_option fl_text (fs_files fs' p) = Some s"
  by (auto simp: write_file_def put_text_def split: option.splits)

lemma taken_mode:
  assumes "take_control f fs = (Inr r, fs')" "fc_mode f = Some (q, m0)"
  shows "(case r of None \<Rightarrow> fs' = fs \<and> mode_at fs q = Manual_Mode
    | Some m \<Rightarrow> m = mode_at fs q \<and> m \<noteq> Manual_Mode \<and> mode_at fs' q = Manual_Mode)"
proof (cases r)
  case None
  with assms show ?thesis
    by (auto simp: take_control_def current_mode_def split: control_mode.splits prod.splits sum.splits if_splits)
next
  case (Some m)
  then obtain v where t: "mode_at fs q = m" "m \<noteq> Manual_Mode" "restorable_value m = Some v"
    "write_file q [CHR ''1'', CHR 0x0A] fs = (Inr (), fs')"
    using take_control_taken [of f fs m fs'] assms by (auto simp: current_mode_def)
  have "from_sysfs [CHR ''1'', CHR 0x0A] = Manual_Mode" by code_simp
  then show ?thesis using mode_after_write [OF t(4)] mode_readable [of fs q v] t Some by simp
qed

lemma accepted_write_cases:
  assumes "system_write d cap v w = (Inr out, w')" "confirms (wo_status out)"
  obtains f x r fs fs' where "is_fan_id (dev_id d)" "cap_id cap = FAN_SPEED_PERCENT" "pwm_writable w (dev_id d)"
    "as_f64 v = Some x" "hwmon_channel w (dev_id d) = Some f" "take_control f (sy_fs w) = (Inr r, fs)"
    "set_pwm f x fs = (Inr (pwm_byte x), fs')" "sy_fs w' = fs'"
    "sy_taken w' = (case r of None \<Rightarrow> sy_taken w | Some m \<Rightarrow> sorted_put fst (dev_id d, m) (sy_taken w))"
proof -
  have rej: "\<not> confirms (wo_status (outcome_rejected m))" for m by (simp add: confirms_def outcome_rejected_def)
  have dr: "drive_channel i f x u = (Inr out, w') \<Longrightarrow> \<exists>fs'. set_pwm f x (sy_fs u) = (Inr (pwm_byte x), fs') \<and> w' = u\<lparr>sy_fs := fs'\<rparr>" for i f x u
    using assms(2) rej set_pwm_ok [of f x "sy_fs u"]
    by (auto simp: drive_channel_def split: prod.splits sum.splits)
  show thesis
    using assms(1,2) rej
    by (auto simp: system_write_def Let_def taken_put_def split: if_splits option.splits prod.splits sum.splits
        dest!: dr intro!: that)
qed

text \<open>A channel's duty file and its ownership file are two files.\<close>

definition files_apart :: "system_adapter \<Rightarrow> bool" where
  "files_apart w \<longleftrightarrow> (\<forall>i f q m. hwmon_channel w i = Some f \<and> fc_mode f = Some (q, m) \<longrightarrow> fc_pwm f \<noteq> Some q)"

lemma files_apart_cong: "sy_tree w' = sy_tree w \<Longrightarrow> files_apart w' = files_apart w"
  by (simp add: files_apart_def hwmon_channel_def)

lemma scan_files_apart:
  assumes "dirs_ok (sy_fs w)" "files_apart w" shows "files_apart (scan_hwmon w)"
proof (cases "sy_root w")
  case None
  then show ?thesis using assms(2) by (simp add: scan_hwmon_def files_apart_def hwmon_channel_def)
next
  case (Some dir)
  then have t: "sy_tree (scan_hwmon w) = Some (discover_hwmon (sy_fs w) dir)" by (simp add: scan_hwmon_def)
  have "fc_pwm f \<noteq> Some q" if "hwmon_channel (scan_hwmon w) i = Some f" "fc_mode f = Some (q, m)" for i f q m
  proof
    assume p: "fc_pwm f = Some q"
    have "\<exists>a. CHR ''/'' \<notin> set a \<and> scanned (sy_fs w) dir a f"
      using that(1) by (rule hwmon_channel_Some)
        (use t discover_scanned [OF assms(1), of dir] in \<open>auto simp: tree_scanned_def\<close>)
    then obtain a where a: "CHR ''/'' \<notin> set a" "scanned (sy_fs w) dir a f" by blast
    have n: "CHR ''/'' \<notin> set (''pwm'' @ dec_nat (fc_channel f))" using no_slash(2) by simp
    have e: "path_join (path_join dir a) (''pwm'' @ dec_nat (fc_channel f))
        = path_join (path_join dir a) (enable_name (fc_channel f))"
      using a(2) that(2) p unfolding scanned_def by metis
    have "hwmon_dir a" using a(2) by (simp add: scanned_def)
    from channel_file_inj [OF e this this a(1) a(1) n no_slash(1)] show False by (simp add: enable_name_def)
  qed
  then show ?thesis unfolding files_apart_def by blast
qed

lemma life_files_apart: "sy_life w \<Longrightarrow> files_apart w"
proof (induction rule: sy_life.induct)
  case booted
  then show ?case by (simp add: system_new_def files_apart_def hwmon_channel_def)
next
  case (called w w')
  have d: "dirs_ok (sy_fs w)" "taken_allowed w" using life_life_ok [OF called(1)] by (simp_all add: life_ok_def)
  have k: "files_apart w'" if "sy_tree w' = sy_tree w" using called(3) files_apart_cong [OF that] by simp
  have s: "files_apart w'" if "stays_within w w'" using that by (intro k) (simp add: stays_within_def same_setup_def)
  from called(2) show ?case
  proof cases
    case probed then show ?thesis using k views_holdings(1) by simp
  next
    case enumerated
    then show ?thesis
      using scan_files_apart [OF d(1) called(3)] files_apart_cong [of w' "scan_hwmon w"] views_holdings(3) by simp
  next
    case (read ds) then show ?thesis using k views_holdings(2) by simp
  next
    case (wrote d cap x) then show ?thesis using s d(2) by (simp add: system_write_within)
  next
    case (adopted taken) then show ?thesis using s d(2) by (simp add: system_adopt_within)
  next
    case stopped then show ?thesis using s d(2) by (simp add: system_shutdown_within)
  qed
next
  case (changed w fs k)
  then show ?case using files_apart_cong [of "w\<lparr>sy_fs := fs, sy_clock := k\<rparr>" w] by simp
qed

text \<open>C29. An accepted duty is in force: whatever the adapter and its files did before, when it reports a write as applied or simulated, the
  channel was listed in the settings and is in the last scan, and its duty file holds exactly the byte of the
  requested percentage. Where that scan found an ownership file and read it, the file now says manual, so
  that no driver curve overrides the duty, and the mode that was replaced, unless it was manual already, is
  remembered for the hand back. Where it did not, no mode is taken or set: the duty file is all that the
  write changed.\<close>
theorem applied_write_is_in_force:
  assumes "sy_life w" and "system_write d cap v w = (Inr out, w')" and "confirms (wo_status out)"
  shows "pwm_writable w (dev_id d) \<and> (\<exists>f p x. hwmon_channel w (dev_id d) = Some f \<and> fc_pwm f = Some p
      \<and> as_f64 v = Some x \<and> is_finite x
      \<and> map_option fl_text (fs_files (sy_fs w') p) = Some (dec_int (pwm_byte x) @ [CHR 0x0A])
      \<and> (case fc_mode f of
           Some (q, _) \<Rightarrow> mode_at (sy_fs w') q = Manual_Mode
             \<and> (if mode_at (sy_fs w) q = Manual_Mode then sy_taken w' = sy_taken w
                else map_of (sy_taken w') (dev_id d) = Some (mode_at (sy_fs w) q))
         | None \<Rightarrow> sy_taken w' = sy_taken w \<and> (\<forall>q. q \<noteq> p \<longrightarrow> fs_files (sy_fs w') q = fs_files (sy_fs w) q)))"
  using assms(2,3)
proof (rule accepted_write_cases)
  fix f x r fs fs'
  assume c: "pwm_writable w (dev_id d)" "as_f64 v = Some x" "hwmon_channel w (dev_id d) = Some f"
    "take_control f (sy_fs w) = (Inr r, fs)" "set_pwm f x fs = (Inr (pwm_byte x), fs')" "sy_fs w' = fs'"
    "sy_taken w' = (case r of None \<Rightarrow> sy_taken w | Some m \<Rightarrow> sorted_put fst (dev_id d, m) (sy_taken w))"
  obtain p where p: "fc_pwm f = Some p" "is_finite x" "write_file p (dec_int (pwm_byte x) @ [CHR 0x0A]) fs = (Inr (), fs')"
    using set_pwm_ok [OF c(5)] by metis
  have other: "fs_files fs' q = fs_files fs q" if "q \<noteq> p" for q
    using write_elsewhere [of q p _ fs] p(3) that by (metis snd_conv)
  have "case fc_mode f of
      Some (q, _) \<Rightarrow> mode_at fs' q = Manual_Mode \<and> (if mode_at (sy_fs w) q = Manual_Mode then sy_taken w' = sy_taken w
        else map_of (sy_taken w') (dev_id d) = Some (mode_at (sy_fs w) q))
    | None \<Rightarrow> sy_taken w' = sy_taken w \<and> (\<forall>q. q \<noteq> p \<longrightarrow> fs_files fs' q = fs_files (sy_fs w) q)"
  proof (cases "fc_mode f")
    case None
    then have "r = None" "fs = sy_fs w" using c(4) by (simp_all add: take_control_def)
    then show ?thesis using None c(7) other by simp
  next
    case (Some m)
    then obtain q m0 where m: "fc_mode f = Some (q, m0)" by (cases m) auto
    then have "q \<noteq> p" using life_files_apart [OF assms(1)] c(3) p(1) unfolding files_apart_def by metis
    then have "mode_at fs' q = mode_at fs q" using other by (intro mode_unless_written) simp
    then show ?thesis
      using taken_mode [OF c(4) m] c(7) m by (auto simp: map_of_sorted_put split: option.splits)
  qed
  then show ?thesis using c(1-3,6) p write_text [OF p(3)] by blast
qed

end
