(* ===== verification/Release.thy ===== *)
theory Release
  imports Adapter_Api
begin

section \<open>Write reports and control release\<close>

text \<open>
  \<open>crates/ohm-runtime/src/audit.rs\<close>: who asked for a write and what came of it (the audit file
  itself is I/O; the runtime model keeps its entries). \<open>release.rs\<close>: what the exit path
  managed to hand back, kept apart by what is actually known.
\<close>

subsection \<open>Reports\<close>

datatype write_origin =
  Manual
| Automation string
| SafetyOrigin message
| Startup
| Shutdown
| Api

fun origin_str :: "write_origin \<Rightarrow> string" where
  "origin_str Manual = ''manual''"
| "origin_str (Automation _) = ''automation''"
| "origin_str (SafetyOrigin _) = ''safety''"
| "origin_str Startup = ''startup''"
| "origin_str Shutdown = ''shutdown''"
| "origin_str Api = ''api''"

fun origin_rule :: "write_origin \<Rightarrow> string option" where
  "origin_rule (Automation r) = Some r"
| "origin_rule _ = None"

record write_report =
  wr_at_ms :: int
  wr_device_id :: string
  wr_device_name :: string
  wr_device_type :: device_type
  wr_capability :: string
  wr_capability_name :: string
  wr_requested :: val
  wr_applied :: "val option"
  wr_status :: write_status
  wr_clamped :: bool
  wr_error_code :: "string option"
  wr_detail :: "message option"
  wr_origin :: write_origin
  wr_simulated :: bool

definition no_reason :: message where
  "no_reason = [Txt ''no reason given'']"

definition detail_or :: "message option \<Rightarrow> message" where
  "detail_or d = (case d of Some m \<Rightarrow> m | None \<Rightarrow> no_reason)"

definition report_summary :: "write_report \<Rightarrow> message" where
  "report_summary r =
    (let value = (case wr_applied r of Some v \<Rightarrow> val_to_string v
           | None \<Rightarrow> val_to_string (wr_requested r)) in
     case wr_status r of
       Write_Applied \<Rightarrow> [Txt (wr_device_name r), Txt '' set '', Txt (wr_capability_name r),
         Txt '' to '', Txt value, Txt (if wr_clamped r then '' (clamped)'' else [])]
     | Write_Simulated \<Rightarrow> [Txt (wr_device_name r), Txt '' simulated '',
         Txt (wr_capability_name r), Txt '' = '', Txt value]
     | Write_Unconfirmed \<Rightarrow> [Txt (wr_device_name r), Txt '' accepted '',
         Txt (wr_capability_name r), Txt '' = '', Txt (val_to_string (wr_requested r)),
         Txt '' but the value is unconfirmed'']
     | Write_Rejected \<Rightarrow> [Txt (wr_device_name r), Txt '' rejected '', Txt (wr_capability_name r),
         Txt '' = '', Txt (val_to_string (wr_requested r)), Txt '' ('']
         @ detail_or (wr_detail r) @ [Txt '')''])"

definition changed_hardware :: "write_report \<Rightarrow> bool" where
  "changed_hardware r \<longleftrightarrow> confirms (wr_status r)"

subsection \<open>Released channels\<close>

record released_channel =
  rl_ch_device_id :: string
  rl_ch_device_name :: string
  rl_ch_capability :: string
  rl_ch_duty :: f64
  rl_ch_applied :: "val option"
  rl_ch_status :: write_status
  rl_ch_detail :: "message option"

definition channel_confirmed :: "released_channel \<Rightarrow> bool" where
  "channel_confirmed c \<longleftrightarrow> rl_ch_status c = Write_Applied"

record control_release =
  cl_confirmed :: "released_channel list"
  cl_unconfirmed :: "released_channel list"
  cl_rejected :: "released_channel list"
  cl_failed :: "released_channel list"
  cl_simulated :: "released_channel list"
  cl_relinquished :: "string list"
  cl_without_hand_back :: "string list"
  cl_shutdown_failed :: "(string \<times> message) list"
  cl_skipped_by_config :: bool

definition default_release :: control_release where
  "default_release = \<lparr>cl_confirmed = [], cl_unconfirmed = [], cl_rejected = [], cl_failed = [],
     cl_simulated = [], cl_relinquished = [], cl_without_hand_back = [], cl_shutdown_failed = [],
     cl_skipped_by_config = False\<rparr>"

definition attempted :: "control_release \<Rightarrow> nat" where
  "attempted r = length (cl_confirmed r) + length (cl_unconfirmed r) + length (cl_rejected r)
     + length (cl_failed r) + length (cl_simulated r)"

definition release_clean :: "control_release \<Rightarrow> bool" where
  "release_clean r \<longleftrightarrow> cl_unconfirmed r = [] \<and> cl_rejected r = [] \<and> cl_failed r = []
     \<and> cl_shutdown_failed r = []"

definition push_channel :: "control_release \<Rightarrow> released_channel \<Rightarrow> control_release" where
  "push_channel r c = (case rl_ch_status c of
     Write_Applied \<Rightarrow> r\<lparr>cl_confirmed := cl_confirmed r @ [c]\<rparr>
   | Write_Unconfirmed \<Rightarrow> r\<lparr>cl_unconfirmed := cl_unconfirmed r @ [c]\<rparr>
   | Write_Rejected \<Rightarrow> r\<lparr>cl_rejected := cl_rejected r @ [c]\<rparr>
   | Write_Simulated \<Rightarrow> r\<lparr>cl_simulated := cl_simulated r @ [c]\<rparr>)"

definition is_refusal :: "string \<Rightarrow> bool" where
  "is_refusal code \<longleftrightarrow> code \<in> {''safety_blocked'', ''value_out_of_range'', ''invalid_value'',
     ''capability_read_only'', ''device_not_found'', ''capability_not_found'', ''device_disabled'',
     ''invalid_id'', ''write_rejected''}"

definition push_failure :: "control_release \<Rightarrow> released_channel \<Rightarrow> string \<Rightarrow> control_release" where
  "push_failure r c code =
    (if is_refusal code then r\<lparr>cl_rejected := cl_rejected r @ [c]\<rparr>
     else r\<lparr>cl_failed := cl_failed r @ [c]\<rparr>)"

text \<open>\<open>parts.join("; ")\<close> on formatted parts.\<close>

fun join_messages :: "string \<Rightarrow> message list \<Rightarrow> message" where
  "join_messages sep [] = []"
| "join_messages sep [m] = m"
| "join_messages sep (m # n # ms) = m @ [Txt sep] @ join_messages sep (n # ms)"

definition count_part :: "'a list \<Rightarrow> string \<Rightarrow> message list" where
  "count_part xs label = (if xs = [] then [] else [[Dec (int (length xs)), Txt label]])"

definition release_summary :: "control_release \<Rightarrow> message" where
  "release_summary r =
    (if cl_skipped_by_config r then
       [Txt ''control release skipped: relinquish_on_exit is off, so nothing was written'']
     else join_messages ''; '' (
       [[Dec (int (length (cl_confirmed r))), Txt '' of '', Dec (int (attempted r)),
         Txt '' output(s) confirmed at the fail-safe duty'']]
       @ count_part (cl_unconfirmed r) '' written but not read back (value unknown)''
       @ count_part (cl_rejected r) '' refused''
       @ count_part (cl_failed r) '' failed''
       @ count_part (cl_simulated r) '' simulated''
       @ count_part (cl_relinquished r) '' cooling adapter(s) reported handing control back''
       @ count_part (cl_without_hand_back r) '' cooling adapter(s) do not hand control back on shutdown''
       @ count_part (cl_shutdown_failed r) '' adapter shutdown(s) failed''))"

definition channel_problem :: "string \<Rightarrow> released_channel \<Rightarrow> message" where
  "channel_problem label c = [Txt (rl_ch_device_id c), Txt ''/'', Txt (rl_ch_capability c), Txt label]
     @ detail_or (rl_ch_detail c)"

definition release_problems :: "control_release \<Rightarrow> message list" where
  "release_problems r =
     map (channel_problem '' was written at the fail-safe duty but not read back: '') (cl_unconfirmed r)
   @ map (channel_problem '' refused the fail-safe duty: '') (cl_rejected r)
   @ map (channel_problem '' could not be written: '') (cl_failed r)
   @ map (\<lambda>(a, d). [Txt ''adapter '', Txt a, Txt '' did not shut down cleanly: ''] @ d)
       (cl_shutdown_failed r)"

definition release_caveats :: "control_release \<Rightarrow> message list" where
  "release_caveats r = map (\<lambda>a. [Txt ''adapter '', Txt a,
     Txt '' does not hand control back on shutdown: its channels keep the duty we wrote''])
     (cl_without_hand_back r)"

subsection \<open>Properties\<close>

lemma attempted_push [simp]: "attempted (push_channel r c) = Suc (attempted r)"
  by (simp add: attempted_def push_channel_def split: write_status.split)

lemma attempted_push_failure [simp]: "attempted (push_failure r c code) = Suc (attempted r)"
  by (simp add: attempted_def push_failure_def)

lemma release_problems_clean: "release_problems r = [] \<longleftrightarrow> release_clean r"
  by (auto simp: release_problems_def release_clean_def)

text \<open>What each bucket may hold.\<close>

definition buckets_ok :: "control_release \<Rightarrow> bool" where
  "buckets_ok r \<longleftrightarrow> list_all (\<lambda>c. rl_ch_status c = Write_Applied) (cl_confirmed r)
     \<and> list_all (\<lambda>c. rl_ch_status c = Write_Unconfirmed) (cl_unconfirmed r)
     \<and> list_all (\<lambda>c. rl_ch_status c = Write_Rejected) (cl_rejected r)
     \<and> list_all (\<lambda>c. rl_ch_status c = Write_Rejected) (cl_failed r)
     \<and> list_all (\<lambda>c. rl_ch_status c = Write_Simulated) (cl_simulated r)"

lemma buckets_ok_push: "buckets_ok r \<Longrightarrow> buckets_ok (push_channel r c)"
  by (simp add: buckets_ok_def push_channel_def split: write_status.split)

lemma buckets_ok_push_failure:
  "buckets_ok r \<Longrightarrow> rl_ch_status c = Write_Rejected \<Longrightarrow> buckets_ok (push_failure r c code)"
  by (simp add: buckets_ok_def push_failure_def)

end
