(* ===== verification/State_Store.thy ===== *)
theory State_Store
  imports Device_Table
begin

section \<open>The state store\<close>

text \<open>
  \<open>crates/ohm-runtime/src/store.rs\<close>: the latest state per device and a bounded history of
  numeric samples per capability. The hash map of latest states is kept in id order, which is
  the order of \<open>all\<close>, the only operation that exposes one.
\<close>

record sample =
  sm_at_ms :: int
  sm_value :: f64

record reading_change =
  rc_device_id :: string
  rc_capability :: string
  rc_previous :: "val option"
  rc_current :: "val option"
  rc_transition :: bool

fun reading_epsilon :: "unit_kind \<Rightarrow> f64" where
  "reading_epsilon Celsius = rnd (1 / 10)"
| "reading_epsilon Fahrenheit = rnd (1 / 10)"
| "reading_epsilon Percent = Fin (1 / 2)"
| "reading_epsilon Pwm = Fin (1 / 2)"
| "reading_epsilon Rpm = Fin 1"
| "reading_epsilon Watt = Fin (1 / 2)"
| "reading_epsilon Milliwatt = Fin (1 / 2)"
| "reading_epsilon Volt = rnd (1 / 100)"
| "reading_epsilon Ampere = rnd (1 / 100)"
| "reading_epsilon Hertz = Fin 1"
| "reading_epsilon Megahertz = Fin 1"
| "reading_epsilon Byte = Fin 1"
| "reading_epsilon Second = rnd (1 / 1000)"
| "reading_epsilon Millisecond = rnd (1 / 1000)"
| "reading_epsilon _ = Fin 0"

fun value_changed :: "val option \<Rightarrow> val option \<Rightarrow> unit_kind \<Rightarrow> bool" where
  "value_changed None None u = False"
| "value_changed (Some _) None u = True"
| "value_changed None (Some _) u = True"
| "value_changed (Some a) (Some b) u =
    (case (as_f64 a, as_f64 b) of
       (Some x, Some y) \<Rightarrow> fmax (reading_epsilon u) f64_epsilon \<le> \<bar>x - y\<bar>
     | _ \<Rightarrow> a \<noteq> b)"

record state_store =
  ss_latest :: "device_state list"
  ss_history :: "string \<times> string \<rightharpoonup> sample list"
  ss_history_limit :: nat

definition store_new :: "nat \<Rightarrow> state_store" where
  "store_new limit = \<lparr>ss_latest = [], ss_history = Map.empty, ss_history_limit = max limit 1\<rparr>"

definition set_history_limit :: "nat \<Rightarrow> state_store \<Rightarrow> state_store" where
  "set_history_limit limit s = s\<lparr>ss_history_limit := max limit 1\<rparr>"

definition store_latest :: "state_store \<Rightarrow> string \<Rightarrow> device_state option" where
  "store_latest s d = List.find (\<lambda>x. ds_device x = d) (ss_latest s)"

definition store_all :: "state_store \<Rightarrow> device_state list" where
  "store_all s = ss_latest s"

definition store_number :: "state_store \<Rightarrow> string \<Rightarrow> string \<Rightarrow> f64 option" where
  "store_number s d c = Option.bind (store_latest s d) (\<lambda>st. state_number st c)"

text \<open>\<open>push_back\<close>, then \<open>pop_front\<close> while the ring is over its limit.\<close>

definition push_sample :: "nat \<Rightarrow> sample \<Rightarrow> sample list \<Rightarrow> sample list" where
  "push_sample limit x xs = (let ys = xs @ [x] in drop (length ys - limit) ys)"

definition record_sample :: "nat \<Rightarrow> device_state \<Rightarrow> reading
    \<Rightarrow> (string \<times> string \<rightharpoonup> sample list) \<Rightarrow> (string \<times> string \<rightharpoonup> sample list)" where
  "record_sample limit st r h =
    (case reading_number r of None \<Rightarrow> h
     | Some v \<Rightarrow>
       (let k = (ds_device st, rd_capability r) in
        h(k \<mapsto> push_sample limit \<lparr>sm_at_ms = ds_timestamp_ms st, sm_value = v\<rparr>
               (case h k of Some xs \<Rightarrow> xs | None \<Rightarrow> []))))"

definition reading_changes :: "state_store \<Rightarrow> (string \<rightharpoonup> unit_kind) \<Rightarrow> device_state \<Rightarrow> reading
    \<Rightarrow> reading_change list" where
  "reading_changes s units st r =
    (let unit = (case units (rd_capability r) of Some u \<Rightarrow> u | None \<Rightarrow> NoUnit);
         previous = Option.bind (store_latest s (ds_device st)) (\<lambda>p. get_reading p (rd_capability r));
         previous_value = Option.bind previous reading_value;
         current_value = reading_value r;
         transition = (case previous of None \<Rightarrow> False
           | Some p \<Rightarrow> reading_is_ok p \<noteq> reading_is_ok r)
     in if value_changed previous_value current_value unit \<or> transition
        then [\<lparr>rc_device_id = ds_device st, rc_capability = rd_capability r,
               rc_previous = previous_value, rc_current = current_value,
               rc_transition = transition\<rparr>] else [])"

text \<open>\<open>update\<close>: the loop over the readings compares with the state before the update throughout.\<close>

definition store_update :: "state_store \<Rightarrow> device_state \<Rightarrow> (string \<rightharpoonup> unit_kind)
    \<Rightarrow> state_store \<times> reading_change list" where
  "store_update s st units =
    (s\<lparr>ss_history := fold (record_sample (ss_history_limit s) st) (ds_readings st) (ss_history s),
       ss_latest := sorted_put ds_device st (ss_latest s)\<rparr>,
     concat (map (reading_changes s units st) (ds_readings st)))"

definition store_history :: "state_store \<Rightarrow> string \<Rightarrow> string \<Rightarrow> nat \<Rightarrow> sample list" where
  "store_history s d c limit =
    (case ss_history s (d, c) of None \<Rightarrow> []
     | Some samples \<Rightarrow> drop (length samples - limit) samples)"

definition store_remove :: "state_store \<Rightarrow> string \<Rightarrow> state_store" where
  "store_remove s d = s\<lparr>ss_history := (\<lambda>k. if fst k = d then None else ss_history s k),
     ss_latest := remove_key ds_device d (ss_latest s)\<rparr>"

definition store_clear :: "state_store \<Rightarrow> state_store" where
  "store_clear s = s\<lparr>ss_latest := [], ss_history := Map.empty\<rparr>"

definition store_device_count :: "state_store \<Rightarrow> nat" where
  "store_device_count s = length (ss_latest s)"

subsection \<open>Properties\<close>

text \<open>The latest states are a keyed collection under \<open>update\<close>.\<close>

interpretation states: keyed_collection store_latest "\<lambda>st s. fst (store_update s st units)" ds_device
  for units
  by unfold_locales (simp_all add: store_latest_def store_update_def find_sorted_put)

lemma store_number_update:
  "store_number (fst (store_update s st units)) d c =
     (if d = ds_device st then state_number st c else store_number s d c)"
  by (simp add: store_number_def states.get_put)

lemma store_latest_remove:
  "store_latest (store_remove s d) e = (if e = d then None else store_latest s e)"
  by (simp add: store_latest_def store_remove_def find_remove_key)

text \<open>The last \<open>n\<close> samples of everything recorded: what the ring stands for.\<close>

definition last_n :: "nat \<Rightarrow> 'a list \<Rightarrow> 'a list" where
  "last_n n xs = drop (length xs - n) xs"

lemma last_n_snoc: "0 < n \<Longrightarrow> last_n n (last_n n xs @ [x]) = last_n n (xs @ [x])"
  by (cases "length xs < n") (auto simp: last_n_def Suc_diff_le)

lemma last_n_last_n: "last_n m (last_n n xs) = last_n (min m n) xs"
  by (cases "n \<le> m") (auto simp: last_n_def min_def intro: arg_cong2 [where f = drop])

definition sample_of :: "int \<Rightarrow> string \<Rightarrow> reading \<Rightarrow> sample option" where
  "sample_of t c r = (if rd_capability r = c
     then map_option (\<lambda>v. \<lparr>sm_at_ms = t, sm_value = v\<rparr>) (reading_number r) else None)"

definition samples_in :: "string \<Rightarrow> string \<Rightarrow> device_state \<Rightarrow> sample list" where
  "samples_in d c st = (if ds_device st = d then
     List.map_filter (sample_of (ds_timestamp_ms st) c) (ds_readings st) else [])"

definition holds_last :: "nat \<Rightarrow> sample list option \<Rightarrow> sample list \<Rightarrow> bool" where
  "holds_last n h xs \<longleftrightarrow> (case h of None \<Rightarrow> [] | Some ys \<Rightarrow> ys) = last_n n xs"

lemma samples_in_Cons: "samples_in d c (st\<lparr>ds_readings := r # rs\<rparr>) =
    samples_in d c (st\<lparr>ds_readings := [r]\<rparr>) @ samples_in d c (st\<lparr>ds_readings := rs\<rparr>)"
  by (simp add: samples_in_def map_filter_simps split: option.split)

lemma record_sample_holds:
  assumes "0 < n" and "holds_last n (h (d, c)) xs"
  shows "holds_last n (fold (record_sample n st) rs h (d, c))
    (xs @ samples_in d c (st\<lparr>ds_readings := rs\<rparr>))"
  using assms(2)
proof (induction rs arbitrary: h xs)
  case Nil
  then show ?case by (simp add: samples_in_def map_filter_simps)
next
  case (Cons r rs)
  let ?s = "samples_in d c (st\<lparr>ds_readings := [r]\<rparr>)"
  have "holds_last n (record_sample n st r h (d, c)) (xs @ ?s)"
    using Cons.prems last_n_snoc [OF assms(1), of xs]
    by (auto simp: holds_last_def record_sample_def samples_in_def sample_of_def map_filter_simps push_sample_def
        Let_def last_n_def [symmetric] split: option.splits)
  from Cons.IH [where h = "record_sample n st r h" and xs = "xs @ ?s", OF this] samples_in_Cons [of d c r rs st]
  show ?case by simp
qed

definition store_updates :: "(string \<rightharpoonup> unit_kind) \<Rightarrow> device_state list \<Rightarrow> state_store \<Rightarrow> state_store" where
  "store_updates units sts s = fold (\<lambda>st s. fst (store_update s st units)) sts s"

lemma store_updates_holds:
  assumes "0 < ss_history_limit s" and "holds_last (ss_history_limit s) (ss_history s (d, c)) xs"
  shows "holds_last (ss_history_limit s) (ss_history (store_updates units sts s) (d, c))
    (xs @ concat (map (samples_in d c) sts))
   \<and> ss_history_limit (store_updates units sts s) = ss_history_limit s"
  using assms
proof (induction sts arbitrary: s xs)
  case Nil
  then show ?case by (simp add: store_updates_def)
next
  case (Cons st sts)
  let ?s = "fst (store_update s st units)"
  have "holds_last (ss_history_limit s) (ss_history ?s (d, c)) (xs @ samples_in d c st)"
    using record_sample_holds [where h = "ss_history s" and rs = "ds_readings st" and st = st,
        OF Cons.prems] by (simp add: store_update_def)
  moreover have "ss_history_limit ?s = ss_history_limit s" by (simp add: store_update_def)
  ultimately show ?case
    using Cons.IH [of ?s "xs @ samples_in d c st"] Cons.prems(1)
    by (simp add: store_updates_def del: append_assoc) simp
qed

text \<open>C39. The history ring refines the list of everything recorded: after any sequence of polls, the
  history of a capability is exactly its last samples, oldest first, as many as the configured
  depth and the caller's limit allow.\<close>
theorem history_refines:
  "store_history (store_updates units sts (store_new n)) d c m
     = last_n (min m (max n 1)) (concat (map (samples_in d c) sts))"
proof -
  have "holds_last (max n 1) (ss_history (store_updates units sts (store_new n)) (d, c))
      (concat (map (samples_in d c) sts))"
    using store_updates_holds [of "store_new n" d c "[]" units sts]
    by (simp add: store_new_def holds_last_def last_n_def)
  then show ?thesis
    by (auto simp: store_history_def holds_last_def last_n_def [symmetric] last_n_last_n min.commute
        split: option.splits) (simp add: last_n_def)
qed

end
