(* ===== verification/Runtime.thy ===== *)
theory Runtime
  imports Release State_Store Rule
begin

section \<open>The runtime\<close>

text \<open>
  \<open>crates/ohm-runtime/src/runtime.rs\<close>: polling, the emergency supervisor, the one write path
  to the hardware, discovery, and the exit path. The runtime's shared state is one record;
  each operation returns the state after it. \<open>rt_clock\<close> is what \<open>now_ms\<close> reads: the
  environment advances it between operations. The event bus is the list of everything
  published, the audit file the list of its entries. Saving the settings is file I/O; its
  outcome is an argument.
\<close>

subsection \<open>State\<close>

datatype runtime_event =
  RuntimeStarted int nat
| RuntimeStopped int
| AdapterStatusChanged adapter_info adapter_status
| DeviceAdded device
| DeviceRemoved string string unavailable_reason
| DeviceStatusChanged string device_status
| DeviceEnabledChanged string bool
| StateChanged device_state
| ReadingChanged string string "val option" "val option"
| WritePerformed write_report
| WriteRefused string string string message
| SafetyTriggered string message int
| AutomationNews "string option" string message int
| LogLine string message int

fun event_kind :: "runtime_event \<Rightarrow> string" where
  "event_kind (RuntimeStarted _ _) = ''runtime_started''"
| "event_kind (RuntimeStopped _) = ''runtime_stopped''"
| "event_kind (AdapterStatusChanged _ _) = ''adapter_status_changed''"
| "event_kind (DeviceAdded _) = ''device_added''"
| "event_kind (DeviceRemoved _ _ _) = ''device_removed''"
| "event_kind (DeviceStatusChanged _ _) = ''device_status_changed''"
| "event_kind (DeviceEnabledChanged _ _) = ''device_enabled_changed''"
| "event_kind (StateChanged _) = ''state_changed''"
| "event_kind (ReadingChanged _ _ _ _) = ''reading_changed''"
| "event_kind (WritePerformed _) = ''write_performed''"
| "event_kind (WriteRefused _ _ _ _) = ''write_rejected''"
| "event_kind (SafetyTriggered _ _ _) = ''safety_triggered''"
| "event_kind (AutomationNews _ _ _ _) = ''automation''"
| "event_kind (LogLine _ _ _) = ''log''"

datatype audit_entry = Audit_Write write_report | Audit_Lifecycle string message

record runtime_stats =
  sx_poll_cycles :: nat
  sx_discovery_cycles :: nat
  sx_writes_attempted :: nat
  sx_writes_applied :: nat
  sx_writes_rejected :: nat
  sx_safety_interventions :: nat
  sx_last_poll_ms :: int
  sx_last_poll_errors :: nat

definition default_stats :: runtime_stats where
  "default_stats = \<lparr>sx_poll_cycles = 0, sx_discovery_cycles = 0, sx_writes_attempted = 0,
     sx_writes_applied = 0, sx_writes_rejected = 0, sx_safety_interventions = 0,
     sx_last_poll_ms = 0, sx_last_poll_errors = 0\<rparr>"

text \<open>\<open>fetch_add(1)\<close> on an \<open>AtomicU64\<close> wraps around.\<close>

definition bump :: "nat \<Rightarrow> nat" where
  "bump n = (n + 1) mod 2 ^ 64"

record 'w runtime =
  rt_settings :: settings
  rt_adapters :: "'w adapter list"
  rt_health :: health
  rt_table :: device_table
  rt_store :: state_store
  rt_events :: "runtime_event list"
  rt_audit :: "audit_entry list"
  rt_stats :: runtime_stats
  rt_started_at_ms :: int
  rt_running :: bool
  rt_emergency_active :: bool
  rt_adapter_last_poll :: "string \<rightharpoonup> int"
  rt_clock :: int
  rt_world :: 'w

definition runtime_new :: "settings \<Rightarrow> 'w adapter list \<Rightarrow> int \<Rightarrow> 'w \<Rightarrow> 'w runtime" where
  "runtime_new settings adapters clock w =
    (let s = fst (sanitise_settings settings); as = fst (deduplicate_adapters adapters) in
     \<lparr>rt_settings = s, rt_adapters = as, rt_health = health_new as, rt_table = [],
      rt_store = store_new (st_history_points s), rt_events = [], rt_audit = [],
      rt_stats = default_stats, rt_started_at_ms = 0, rt_running = False,
      rt_emergency_active = False, rt_adapter_last_poll = Map.empty, rt_clock = clock,
      rt_world = w\<rparr>)"

definition publish :: "runtime_event \<Rightarrow> 'w runtime \<Rightarrow> 'w runtime" where
  "publish e rt = rt\<lparr>rt_events := rt_events rt @ [e]\<rparr>"

definition record_audit :: "audit_entry \<Rightarrow> 'w runtime \<Rightarrow> 'w runtime" where
  "record_audit e rt = rt\<lparr>rt_audit := rt_audit rt @ [e]\<rparr>"

definition record_lifecycle :: "string \<Rightarrow> message \<Rightarrow> 'w runtime \<Rightarrow> 'w runtime" where
  "record_lifecycle action detail = record_audit (Audit_Lifecycle action detail)"

definition upd_stats :: "(runtime_stats \<Rightarrow> runtime_stats) \<Rightarrow> 'w runtime \<Rightarrow> 'w runtime" where
  "upd_stats f rt = rt\<lparr>rt_stats := f (rt_stats rt)\<rparr>"

definition count_attempt :: "'w runtime \<Rightarrow> 'w runtime" where
  "count_attempt = upd_stats (\<lambda>s. s\<lparr>sx_writes_attempted := bump (sx_writes_attempted s)\<rparr>)"

definition count_intervention :: "'w runtime \<Rightarrow> 'w runtime" where
  "count_intervention = upd_stats (\<lambda>s. s\<lparr>sx_safety_interventions := bump (sx_safety_interventions s)\<rparr>)"

definition rt_log :: "string \<Rightarrow> message \<Rightarrow> 'w runtime \<Rightarrow> 'w runtime" where
  "rt_log level m rt = publish (LogLine level m (rt_clock rt)) rt"

definition publish_automation :: "string option \<Rightarrow> string \<Rightarrow> message \<Rightarrow> 'w runtime \<Rightarrow> 'w runtime" where
  "publish_automation rule kind detail rt =
     publish (AutomationNews rule kind detail (rt_clock rt)) rt"

subsection \<open>Reads\<close>

definition reading_celsius :: "(string \<rightharpoonup> unit_kind) \<Rightarrow> reading \<Rightarrow> f64 option" where
  "reading_celsius units r = (case units (rd_capability r) of
     None \<Rightarrow> None
   | Some u \<Rightarrow> if \<not> is_temperature u then None
       else Option.bind (reading_number r) (to_celsius u))"

definition hotter :: "f64 \<Rightarrow> f64 option \<Rightarrow> f64 option" where
  "hotter c h = Some (case h of Some current \<Rightarrow> fmax current c | None \<Rightarrow> c)"

definition hottest_temperature :: "'w runtime \<Rightarrow> f64 option" where
  "hottest_temperature rt =
    (let units = units_map (rt_table rt) in
     fold hotter (concat (map (\<lambda>st. List.map_filter (reading_celsius units) (ds_readings st))
       (store_all (rt_store rt)))) None)"

definition rt_resolve :: "'w runtime \<Rightarrow> string \<Rightarrow> string \<Rightarrow> (device \<times> capability) result" where
  "rt_resolve rt d c = and_then (resolve (rt_table rt) d c) (\<lambda>(r, cap). Inr (dr_device r, cap))"

definition rt_reading :: "'w runtime \<Rightarrow> string \<Rightarrow> string \<Rightarrow> f64 option" where
  "rt_reading rt d c = store_number (rt_store rt) d c"

text \<open>\<open>is_stale\<close>: \<open>u64\<close> and \<open>i64\<close> arithmetic wraps.\<close>

definition rt_is_stale :: "'w runtime \<Rightarrow> nat \<Rightarrow> bool" where
  "rt_is_stale rt tolerance =
    (let last = sx_last_poll_ms (rt_stats rt) in
     if last = 0 then True
     else wrap_i64 (int (st_polling_interval_ms (rt_settings rt) * max tolerance 1))
       < wrap_i64 (rt_clock rt - last))"

subsection \<open>The write path\<close>

definition write_report_for :: "'w runtime \<Rightarrow> device \<Rightarrow> capability \<Rightarrow> val \<Rightarrow> write_origin \<Rightarrow> write_report" where
  "write_report_for rt d c requested origin =
    \<lparr>wr_at_ms = rt_clock rt, wr_device_id = dev_id d, wr_device_name = dev_name d,
     wr_device_type = dev_type d, wr_capability = cap_id c, wr_capability_name = cap_name c,
     wr_requested = requested, wr_applied = None, wr_status = Write_Rejected, wr_clamped = False,
     wr_error_code = None, wr_detail = None, wr_origin = origin, wr_simulated = False\<rparr>"

definition finish :: "write_report \<Rightarrow> 'w runtime \<Rightarrow> 'w runtime" where
  "finish report rt =
    publish (WritePerformed report) (record_audit (Audit_Write report)
      (upd_stats (\<lambda>s. case wr_status report of
           Write_Rejected \<Rightarrow> s\<lparr>sx_writes_rejected := bump (sx_writes_rejected s)\<rparr>
         | _ \<Rightarrow> s\<lparr>sx_writes_applied := bump (sx_writes_applied s)\<rparr>) rt))"

definition reject :: "device \<Rightarrow> capability \<Rightarrow> val \<Rightarrow> write_origin \<Rightarrow> ohm_error \<Rightarrow> 'w runtime \<Rightarrow> 'w runtime" where
  "reject d c requested origin error rt =
    (let report = (write_report_for rt d c requested origin)
           \<lparr>wr_error_code := Some (error_code error), wr_detail := Some (error_display error)\<rparr>
     in publish (WriteRefused (dev_id d) (cap_id c) (error_code error) (error_display error))
          (record_audit (Audit_Write report)
            (upd_stats (\<lambda>s. s\<lparr>sx_writes_rejected := bump (sx_writes_rejected s)\<rparr>) rt)))"

text \<open>Step 1: the target, as it is now.\<close>

definition lookup_target :: "'w runtime \<Rightarrow> string \<Rightarrow> string \<Rightarrow> (device \<times> capability \<times> bool) result" where
  "lookup_target rt d c =
    and_then (ok_or (DeviceNotFound d) (table_get (rt_table rt) d)) (\<lambda>r.
    and_then (ok_or (CapabilityNotFound d c) (dev_capability (dr_device r) c)) (\<lambda>cap.
    Inr (dr_device r, cap, dr_enabled r)))"

text \<open>Step 2: refusals that never reach the hardware.\<close>

definition refusal :: "device \<Rightarrow> capability \<Rightarrow> bool \<Rightarrow> val \<Rightarrow> ohm_error option" where
  "refusal d c enabled requested =
    (if \<not> enabled then Some (DeviceDisabled (dev_id d))
     else if \<not> cap_writable c then Some (CapabilityNotWritable (dev_id d) (cap_id c))
     else case validate_capability c requested of Inl e \<Rightarrow> Some e | Inr _ \<Rightarrow> None)"

text \<open>Step 3: the declared range, then the safety gate. The result is the reason of a block, or the
  value to write, whether it was changed, and the note.\<close>

definition vet :: "'w runtime \<Rightarrow> device \<Rightarrow> capability \<Rightarrow> val
    \<Rightarrow> 'w runtime \<times> (message + val \<times> bool \<times> message option)" where
  "vet rt d c requested =
    (let numeric = or_default (Fin 0) (as_f64 requested);
         limited = clamp_capability c numeric;
         (value, clamped) = (if cap_values c = []
           then (Number limited, f64_epsilon < \<bar>limited - numeric\<bar>) else (requested, False))
     in if is_duty_control c \<and> cap_values c = [] then
          (case check_duty (st_safety (rt_settings rt)) (dev_type d)
                  (or_default (Fin 0) (as_f64 value))
                  (store_number (rt_store rt) (dev_id d) (cap_id c)) (hottest_temperature rt) of
             Block reason \<Rightarrow> (count_intervention rt, Inl reason)
           | Emergency forced reason \<Rightarrow>
               (publish (SafetyTriggered ''emergency_write'' reason (rt_clock rt)) (count_intervention rt),
                Inr (Number forced, True, Some reason))
           | Allow allowed note \<Rightarrow>
               (case note of Some n \<Rightarrow> (rt, Inr (Number allowed, True, Some n))
                | None \<Rightarrow> (rt, Inr (value, clamped, None))))
        else (rt, Inr (value, clamped, None)))"

definition val_differs :: "val option \<Rightarrow> val \<Rightarrow> bool" where
  "val_differs applied value =
    (case applied of None \<Rightarrow> False | Some a \<Rightarrow> \<not> (a = value \<and> a \<noteq> Number NaN))"

text \<open>
  The whole attempt. The third result says that the adapter failed on a duty control of this
  device type, which is when the caller may owe a fail-safe write.
\<close>

definition write_attempt :: "'w runtime \<Rightarrow> string \<Rightarrow> string \<Rightarrow> val \<Rightarrow> write_origin
    \<Rightarrow> 'w runtime \<times> write_report result \<times> device_type option" where
  "write_attempt rt device_id capability_id requested origin =
    (let rt = count_attempt rt in
     case lookup_target rt device_id capability_id of Inl e \<Rightarrow> (rt, Inl e, None)
     | Inr (d, c, enabled) \<Rightarrow>
       (case refusal d c enabled requested of
          Some e \<Rightarrow> (reject d c requested origin e rt, Inl e, None)
        | None \<Rightarrow>
          (case vet rt d c requested of
             (rt, Inl reason) \<Rightarrow>
               (let e = SafetyBlocked (dev_id d) (cap_id c) reason
                in (reject d c requested origin e rt, Inl e, None))
           | (rt, Inr (value, clamped, note)) \<Rightarrow>
             (let report = write_report_for rt d c requested origin in
              if st_dry_run (rt_settings rt) then
                (let report = report\<lparr>wr_applied := Some value, wr_status := Write_Simulated,
                       wr_clamped := clamped, wr_simulated := True,
                       wr_detail := Some [Txt ''dry run: hardware was not touched'']\<rparr>
                 in (finish report rt, Inr report, None))
              else case find_adapter (rt_adapters rt) (dev_adapter d) of
                None \<Rightarrow>
                  (let e = AdapterUnavailable (dev_adapter d) [Txt ''adapter is not registered'']
                   in (reject d c requested origin e rt, Inl e, None))
              | Some a \<Rightarrow>
                (case ad_write a d c value (rt_world rt) of
                   (Inr out, w) \<Rightarrow>
                     (let applied = (if confirms (wo_status out) then wo_applied out else None);
                          report = report\<lparr>wr_applied := applied, wr_status := wo_status out,
                            wr_clamped := clamped \<or> val_differs applied value,
                            wr_detail := (case wo_detail out of Some m \<Rightarrow> Some m | None \<Rightarrow> note),
                            wr_simulated := (wo_status out = Write_Simulated)\<rparr>
                      in (finish report (rt\<lparr>rt_world := w\<rparr>), Inr report, None))
                 | (Inl e, w) \<Rightarrow>
                     (reject d c requested origin e (rt\<lparr>rt_world := w\<rparr>), Inl e,
                      if is_duty_control c then Some (dev_type d) else None))))))"

definition write_with_origin :: "bool \<Rightarrow> 'w runtime \<Rightarrow> string \<Rightarrow> string \<Rightarrow> val \<Rightarrow> write_origin
    \<Rightarrow> 'w runtime \<times> write_report result" where
  "write_with_origin allow_fail_safe rt d c requested origin =
    (case write_attempt rt d c requested origin of
       (rt', Inl rejected, Some ty) \<Rightarrow>
         if allow_fail_safe then
           (fst (write_attempt rt' d c (Number (fail_safe_duty (st_safety (rt_settings rt)) ty))
              (SafetyOrigin ([Txt ''fallback after a failed write: ''] @ error_display rejected))),
            Inl rejected)
         else (rt', Inl rejected)
     | (rt', res, _) \<Rightarrow> (rt', res))"

definition write_value :: "'w runtime \<Rightarrow> string \<Rightarrow> string \<Rightarrow> val \<Rightarrow> write_origin
    \<Rightarrow> 'w runtime \<times> write_report result" where
  "write_value = write_with_origin True"

definition set_duty_percent :: "'w runtime \<Rightarrow> string \<Rightarrow> string \<Rightarrow> f64 \<Rightarrow> 'w runtime \<times> write_report result" where
  "set_duty_percent rt d c percent = write_value rt d c (Number percent) Manual"

subsection \<open>Polling and the emergency supervisor\<close>

definition cooling_channels :: "device_record \<Rightarrow> (string \<times> string) list" where
  "cooling_channels r = map (\<lambda>c. (dr_id r, cap_id c))
     (filter (\<lambda>c. is_duty_control c \<and> cap_writable c) (dev_capabilities (dr_device r)))"

definition emergency_targets :: "'w runtime \<Rightarrow> (string \<times> string) list" where
  "emergency_targets rt =
     concat (map cooling_channels (filter dr_enabled (cooling_devices (rt_table rt))))"

definition emergency_write :: "f64 \<Rightarrow> string \<times> string \<Rightarrow> 'w runtime \<Rightarrow> 'w runtime" where
  "emergency_write duty = (\<lambda>(d, c) rt.
    (case store_number (rt_store rt) d c of
       Some current \<Rightarrow> if duty \<le> current then rt
         else fst (write_with_origin False rt d c (Number duty)
                (SafetyOrigin [Txt ''emergency temperature threshold'']))
     | None \<Rightarrow> fst (write_with_origin False rt d c (Number duty)
                (SafetyOrigin [Txt ''emergency temperature threshold'']))))"

definition supervise_safety :: "'w runtime \<Rightarrow> 'w runtime" where
  "supervise_safety rt =
    (let p = st_safety (rt_settings rt); h = hottest_temperature rt in
     if \<not> st_automation_enabled (rt_settings rt) then rt\<lparr>rt_emergency_active := False\<rparr>
     else case emergency_override p h of
       None \<Rightarrow>
         (if rt_emergency_active rt then
            record_lifecycle ''emergency_cleared'' [Txt ''temperatures back to normal'']
              (publish (SafetyTriggered ''emergency_cleared''
                  [Txt ''hottest temperature back below '', Num (sp_emergency_temp_c p), Txt '' '',
                   Txt degree, Txt ''C''] (rt_clock rt))
                (rt\<lparr>rt_emergency_active := False\<rparr>))
          else rt\<lparr>rt_emergency_active := False\<rparr>)
     | Some duty \<Rightarrow>
         (let targets = emergency_targets rt in
          if targets = [] then rt
          else
            (let detail = [Num (or_default (Fin 0) h), Txt '' '', Txt degree,
                   Txt ''C is at or above the '', Num (sp_emergency_temp_c p), Txt '' '', Txt degree,
                   Txt ''C emergency threshold''];
                 first_time = \<not> rt_emergency_active rt;
                 rt = rt\<lparr>rt_emergency_active := True\<rparr>;
                 rt = (if first_time then
                     record_lifecycle ''emergency_override'' detail
                       (publish (SafetyTriggered ''emergency'' detail (rt_clock rt))
                         (count_intervention rt))
                   else rt)
             in fold (emergency_write duty) targets rt)))"

text \<open>One device's result within a poll; the second component counts errors, the third successes.\<close>

definition poll_result :: "(string \<rightharpoonup> unit_kind) \<Rightarrow> string \<times> device_state result
    \<Rightarrow> 'w runtime \<times> nat \<times> nat \<Rightarrow> 'w runtime \<times> nat \<times> nat" where
  "poll_result units = (\<lambda>(device_id, result) (rt, errors, polled).
    (case result of
       Inr state \<Rightarrow>
         (let (store, changes) = store_update (rt_store rt) state units;
              rt = rt\<lparr>rt_store := store,
                rt_table := apply_state_status (rt_table rt) state (rt_clock rt)\<rparr>;
              rt = fold (\<lambda>ch. publish (ReadingChanged (rc_device_id ch) (rc_capability ch)
                     (rc_current ch) (rc_previous ch))) changes rt
          in (publish (StateChanged state) rt, errors, polled + 1))
     | Inl err \<Rightarrow>
         (let rt = rt\<lparr>rt_table := mark_offline (rt_table rt) device_id ReadError (rt_clock rt)\<rparr>
          in (publish (LogLine ''warn'' ([Txt device_id, Txt '': ''] @ error_display err) (rt_clock rt)) rt,
              errors + 1, polled))))"

text \<open>An adapter that asked for its own cadence and is not due yet.\<close>

definition not_due :: "'w runtime \<Rightarrow> 'w adapter \<Rightarrow> bool" where
  "not_due rt a =
    (case ac_poll_interval_ms (ai_capabilities (ad_info a)) of None \<Rightarrow> False
     | Some hint \<Rightarrow>
       (let last = or_default 0 (rt_adapter_last_poll rt (ad_id a)) in
        0 < last \<and> sat_i64 (rt_clock rt - last) < wrap_i64 (int hint)))"

definition poll_adapter :: "device list \<Rightarrow> (string \<rightharpoonup> unit_kind) \<Rightarrow> 'w adapter
    \<Rightarrow> 'w runtime \<times> nat \<times> nat \<Rightarrow> 'w runtime \<times> nat \<times> nat" where
  "poll_adapter targets units a = (\<lambda>(rt, errors, polled).
    (let batch = filter (\<lambda>d. dev_adapter d = ad_id a) targets in
     if batch = [] then (rt, errors, polled)
     else if not_due rt a then (rt, errors, polled)
     else
       (let rt = rt\<lparr>rt_adapter_last_poll := (rt_adapter_last_poll rt)(ad_id a \<mapsto> rt_clock rt)\<rparr>;
            (results, w) = ad_read_all a batch (rt_world rt)
        in fold (poll_result units) results (rt\<lparr>rt_world := w\<rparr>, errors, polled))))"

definition poll_once :: "'w runtime \<Rightarrow> 'w runtime \<times> nat" where
  "poll_once rt =
    (let targets = poll_targets (rt_table rt); units = units_map (rt_table rt);
         (rt, errors, polled) = fold (poll_adapter targets units) (rt_adapters rt) (rt, 0, 0);
         rt = upd_stats (\<lambda>s. s\<lparr>sx_poll_cycles := bump (sx_poll_cycles s),
                sx_last_poll_ms := rt_clock rt, sx_last_poll_errors := errors\<rparr>) rt
     in (supervise_safety rt, polled))"

subsection \<open>Discovery\<close>

definition offline_unusable :: "adapter_status \<Rightarrow> 'w runtime \<Rightarrow> 'w runtime" where
  "offline_unusable st rt =
    (if status_usable st then rt
     else rt\<lparr>rt_table := mark_adapter_offline (rt_table rt) (as_adapter st)
        (or_default Unknown (as_reason st)) (rt_clock rt)\<rparr>)"

text \<open>The accumulated difference carries the added devices' descriptions to seed the store with.\<close>

definition reconcile_adapter :: "string \<times> device list
    \<Rightarrow> 'w runtime \<times> reconcile_diff \<times> device list \<Rightarrow> 'w runtime \<times> reconcile_diff \<times> device list" where
  "reconcile_adapter = (\<lambda>(adapter, devices) (rt, total, seeds).
    (let (t, diff) = reconcile (rt_table rt) adapter devices (rt_settings rt) (rt_clock rt);
         fresh = map dr_device (List.map_filter (table_get t) (rd_added diff))
     in (rt\<lparr>rt_table := t\<rparr>,
         \<lparr>rd_added = rd_added total @ rd_added diff, rd_removed = rd_removed total @ rd_removed diff,
          rd_updated = rd_updated total @ rd_updated diff\<rparr>,
         seeds @ fresh)))"

definition seed_state :: "device \<Rightarrow> 'w runtime \<Rightarrow> 'w runtime" where
  "seed_state d rt = rt\<lparr>rt_store := fst (store_update (rt_store rt)
     (new_state (dev_id d) (rt_clock rt)) (units_map (rt_table rt)))\<rparr>"

definition announce_added :: "string \<Rightarrow> 'w runtime \<Rightarrow> 'w runtime" where
  "announce_added i rt = (case table_get (rt_table rt) i of
     Some r \<Rightarrow> publish (DeviceAdded (dr_device r)) rt | None \<Rightarrow> rt)"

definition forget_removed :: "string \<times> string \<times> unavailable_reason \<Rightarrow> 'w runtime \<Rightarrow> 'w runtime" where
  "forget_removed = (\<lambda>(i, name, reason) rt.
     publish (DeviceRemoved i name reason) (rt\<lparr>rt_store := store_remove (rt_store rt) i\<rparr>))"

definition refresh_devices :: "'w runtime \<Rightarrow> 'w runtime \<times> discovery_outcome" where
  "refresh_devices rt =
    (let (out, h, w) = discover_all (rt_settings rt) (rt_clock rt) (rt_adapters rt)
           (rt_health rt, rt_world rt);
         rt = rt\<lparr>rt_health := h, rt_world := w\<rparr>;
         rt = fold offline_unusable (do_statuses out) rt;
         (rt, diff, seeds) = fold reconcile_adapter (do_devices out) (rt, empty_diff, []);
         rt = fold seed_state seeds rt;
         rt = fold announce_added (rd_added diff) rt;
         rt = fold forget_removed (rd_removed diff) rt;
         rt = fold (\<lambda>(info, st). publish (AdapterStatusChanged info st))
                (adapter_views (rt_adapters rt) (rt_health rt)) rt
     in (upd_stats (\<lambda>s. s\<lparr>sx_discovery_cycles := bump (sx_discovery_cycles s)\<rparr>) rt, out))"

definition runtime_start :: "'w runtime \<Rightarrow> 'w runtime" where
  "runtime_start rt =
    (if rt_running rt then rt
     else
       (let rt = rt\<lparr>rt_running := True, rt_started_at_ms := rt_clock rt\<rparr>;
            (rt, out) = refresh_devices rt;
            rt = fst (poll_once rt);
            n = outcome_device_count out;
            rt = record_lifecycle ''runtime_started'' [Dec (int (length (rt_adapters rt))),
                   Txt '' adapters, '', Dec (int n), Txt '' devices''] rt
        in publish (RuntimeStarted (rt_started_at_ms rt) n) rt))"

subsection \<open>The exit path\<close>

definition release_targets :: "'w runtime \<Rightarrow> (string \<times> string \<times> string \<times> f64) list" where
  "release_targets rt = concat (map (\<lambda>r.
     map (\<lambda>c. (dr_id r, dev_name (dr_device r), cap_id c,
            fail_safe_duty (st_safety (rt_settings rt)) (dev_type (dr_device r))))
       (filter (\<lambda>c. is_duty_control c \<and> cap_writable c) (dev_capabilities (dr_device r))))
     (filter dr_enabled (releasable_devices (rt_table rt))))"

definition release_channel :: "string \<times> string \<times> string \<times> f64
    \<Rightarrow> 'w runtime \<times> control_release \<Rightarrow> 'w runtime \<times> control_release" where
  "release_channel = (\<lambda>(d, name, c, duty) (rt, rel).
    (case write_with_origin False rt d c (Number duty) Shutdown of
       (rt, Inr rep) \<Rightarrow> (rt, push_channel rel
          \<lparr>rl_ch_device_id = wr_device_id rep, rl_ch_device_name = wr_device_name rep,
           rl_ch_capability = wr_capability rep, rl_ch_duty = duty, rl_ch_applied = wr_applied rep,
           rl_ch_status = wr_status rep, rl_ch_detail = wr_detail rep\<rparr>)
     | (rt, Inl e) \<Rightarrow> (rt, push_failure rel
          \<lparr>rl_ch_device_id = d, rl_ch_device_name = name, rl_ch_capability = c, rl_ch_duty = duty,
           rl_ch_applied = None, rl_ch_status = Write_Rejected,
           rl_ch_detail = Some (error_display e)\<rparr> (error_code e))))"

definition release_control :: "'w runtime \<Rightarrow> 'w runtime \<times> control_release" where
  "release_control rt =
    (if \<not> sp_relinquish_on_exit (st_safety (rt_settings rt))
     then (rt, default_release\<lparr>cl_skipped_by_config := True\<rparr>)
     else fold release_channel (release_targets rt) (rt, default_release))"

definition shutdown_outcome :: "adapter_shutdown \<Rightarrow> 'w runtime \<times> control_release
    \<Rightarrow> 'w runtime \<times> control_release" where
  "shutdown_outcome out = (\<lambda>(rt, rel).
    (case sd_error out of
       Some detail \<Rightarrow>
         (record_lifecycle ''adapter_shutdown_failed'' ([Txt (sd_adapter out), Txt '': ''] @ detail) rt,
          rel\<lparr>cl_shutdown_failed := cl_shutdown_failed rel @ [(sd_adapter out, detail)]\<rparr>)
     | None \<Rightarrow>
         (rt, if sd_controls_cooling out then
                (if sd_hands_back out
                 then rel\<lparr>cl_relinquished := cl_relinquished rel @ [sd_adapter out]\<rparr>
                 else rel\<lparr>cl_without_hand_back := cl_without_hand_back rel @ [sd_adapter out]\<rparr>)
              else rel)))"

definition audit_if :: "bool \<Rightarrow> string \<Rightarrow> message \<Rightarrow> 'w runtime \<Rightarrow> 'w runtime" where
  "audit_if b action detail rt = (if b then record_lifecycle action detail rt else rt)"

definition count_of :: "'a list \<Rightarrow> piece" where
  "count_of xs = Dec (int (length xs))"

definition runtime_shutdown :: "'w runtime \<Rightarrow> 'w runtime \<times> control_release" where
  "runtime_shutdown rt =
    (if \<not> rt_running rt then (rt, default_release)
     else
       (let (rt, rel) = release_control (rt\<lparr>rt_running := False\<rparr>);
            rt = audit_if (cl_skipped_by_config rel) ''control_release_skipped''
              [Txt ''relinquish_on_exit is off: the exit path wrote nothing and claims nothing''] rt;
            rt = audit_if (cl_confirmed rel \<noteq> []) ''control_released''
              [count_of (cl_confirmed rel), Txt '' output(s) confirmed at the fail-safe duty''] rt;
            rt = audit_if (cl_unconfirmed rel \<noteq> []) ''control_release_unconfirmed''
              [count_of (cl_unconfirmed rel), Txt '' output(s) accepted the fail-safe duty but could not be read back; '',
               Txt ''their value is unknown and this is not a confirmed release''] rt;
            rt = audit_if (cl_rejected rel \<noteq> [] \<or> cl_failed rel \<noteq> []) ''control_release_failed''
              ([count_of (cl_rejected rel), Txt '' output(s) refused the fail-safe duty and '',
                count_of (cl_failed rel), Txt '' failed: ''] @ join_messages '' | '' (release_problems rel)) rt;
            (outs, w) = shutdown_all (rt_adapters rt) (rt_world rt);
            (rt, rel) = fold shutdown_outcome outs (rt\<lparr>rt_world := w\<rparr>, rel);
            rt = audit_if (cl_relinquished rel \<noteq> []) ''control_relinquished''
              [count_of (cl_relinquished rel),
               Txt '' cooling adapter(s) reported handing control back to the firmware: '',
               Txt (join '', '' (cl_relinquished rel))] rt;
            rt = audit_if (cl_without_hand_back rel \<noteq> []) ''control_not_handed_back''
              [count_of (cl_without_hand_back rel),
               Txt '' cooling adapter(s) do not hand control back on shutdown: '',
               Txt (join '', '' (cl_without_hand_back rel)),
               Txt ''. The fail-safe write above is the only release for their channels''] rt;
            rt = record_lifecycle ''runtime_stopped''
              (if release_clean rel then [Txt ''clean shutdown'']
               else [Txt ''shutdown with control problems: ''] @ release_summary rel) rt
        in (publish (RuntimeStopped (rt_clock rt)) rt, rel)))"

subsection \<open>Permission, and channels taken by a previous process\<close>

definition rt_write_access :: "'w runtime \<Rightarrow> device \<Rightarrow> capability \<Rightarrow> write_access option" where
  "rt_write_access rt d c =
     map_option (\<lambda>a. ad_write_access a d c (rt_world rt)) (find_adapter (rt_adapters rt) (dev_adapter d))"

definition rt_taken_controls :: "'w runtime \<Rightarrow> taken_control list" where
  "rt_taken_controls rt = concat (map (\<lambda>a. ad_taken_controls a (rt_world rt)) (rt_adapters rt))"

fun adopt_each :: "'w adapter list \<Rightarrow> taken_control list \<Rightarrow> 'w \<Rightarrow> string list \<times> 'w" where
  "adopt_each [] taken w = ([], w)"
| "adopt_each (a # as) taken w =
    (let (ps, w) = ad_adopt a taken w; (qs, w) = adopt_each as taken w in (ps @ qs, w))"

definition unheld_problem :: "string list \<Rightarrow> taken_control \<Rightarrow> string list \<Rightarrow> string list" where
  "unheld_problem held entry problems =
    (if tk_device_id entry \<in> set held then problems
     else if list_ex (str_contains (tk_device_id entry)) problems then problems
     else problems @ [tk_device_id entry @ '': no adapter took responsibility for this channel, so ''
       @ ''nothing will put it back ('' @ tk_original_text entry @ '')''])"

definition adopt_taken_controls :: "taken_control list \<Rightarrow> 'w runtime \<Rightarrow> 'w runtime \<times> string list" where
  "adopt_taken_controls taken rt =
    (if taken = [] then (rt, [])
     else (let (problems, w) = adopt_each (rt_adapters rt) taken (rt_world rt);
               rt = rt\<lparr>rt_world := w\<rparr>;
               held = map tk_device_id (rt_taken_controls rt)
           in (rt, fold (unheld_problem held) taken problems)))"

subsection \<open>Settings\<close>

text \<open>\<open>saved\<close> is what \<open>SettingsStore::save\<close> returns; the new settings are in force either way.\<close>

definition update_settings :: "unit result \<Rightarrow> (settings \<Rightarrow> settings) \<Rightarrow> 'w runtime
    \<Rightarrow> 'w runtime \<times> settings result" where
  "update_settings saved mutate rt =
    (let updated = fst (sanitise_settings (mutate (rt_settings rt)));
         rt = rt\<lparr>rt_settings := updated,
                 rt_store := set_history_limit (st_history_points updated) (rt_store rt)\<rparr>
     in case saved of Inl e \<Rightarrow> (rt, Inl e)
        | Inr _ \<Rightarrow> (publish (LogLine ''info'' [Txt ''settings saved''] (rt_clock rt)) rt, Inr updated))"

definition set_device_enabled :: "unit result \<Rightarrow> string \<Rightarrow> bool \<Rightarrow> 'w runtime \<Rightarrow> 'w runtime \<times> unit result" where
  "set_device_enabled saved i enabled rt =
    (case new_id ''device id'' i of Inl e \<Rightarrow> (rt, Inl e)
     | Inr d \<Rightarrow>
       (case table_set_enabled (rt_table rt) d enabled of Inl e \<Rightarrow> (rt, Inl e)
        | Inr t \<Rightarrow>
          (case update_settings saved (settings_set_device d enabled) (rt\<lparr>rt_table := t\<rparr>) of
             (rt, Inl e) \<Rightarrow> (rt, Inl e)
           | (rt, Inr _) \<Rightarrow>
             (let rt = publish (DeviceEnabledChanged d enabled) rt
              in (case table_get (rt_table rt) d of
                    Some r \<Rightarrow> publish (DeviceStatusChanged d (dr_status r)) rt | None \<Rightarrow> rt,
                  Inr ())))))"

definition set_adapter_enabled :: "unit result \<Rightarrow> string \<Rightarrow> bool \<Rightarrow> 'w runtime \<Rightarrow> 'w runtime \<times> settings result" where
  "set_adapter_enabled saved i enabled rt =
    (case new_id ''adapter id'' i of Inl e \<Rightarrow> (rt, Inl e)
     | Inr a \<Rightarrow> update_settings saved (settings_set_adapter a enabled) rt)"

end
