(* ===== verification/Runtime_Correct.thy ===== *)
theory Runtime_Correct
  imports Runtime
begin

section \<open>The runtime: what its operations guarantee\<close>

text \<open>
  Facts about the write path, the emergency supervisor, polling and the exit path of
  \<open>Runtime\<close>. A write attempt ends in one of seven ways (\<open>write_attempt_cases\<close>); everything
  about writes follows from that split.
\<close>

subsection \<open>What a write leaves alone\<close>

definition same_config :: "'w runtime \<Rightarrow> 'w runtime \<Rightarrow> bool" where
  "same_config rt rt' \<longleftrightarrow> rt_settings rt' = rt_settings rt \<and> rt_adapters rt' = rt_adapters rt
     \<and> rt_health rt' = rt_health rt \<and> rt_table rt' = rt_table rt \<and> rt_store rt' = rt_store rt
     \<and> rt_started_at_ms rt' = rt_started_at_ms rt \<and> rt_running rt' = rt_running rt
     \<and> rt_emergency_active rt' = rt_emergency_active rt
     \<and> rt_adapter_last_poll rt' = rt_adapter_last_poll rt \<and> rt_clock rt' = rt_clock rt"

lemma same_config_refl [simp]: "same_config rt rt"
  by (simp add: same_config_def)

lemma same_config_trans: "same_config a b \<Longrightarrow> same_config b c \<Longrightarrow> same_config a c"
  by (simp add: same_config_def)

lemma same_config_primitives [simp]:
  "same_config rt (publish ev rt') = same_config rt rt'"
  "same_config rt (record_audit a rt') = same_config rt rt'"
  "same_config rt (upd_stats f rt') = same_config rt rt'"
  "same_config rt (rt'\<lparr>rt_world := w\<rparr>) = same_config rt rt'"
  by (simp_all add: same_config_def publish_def record_audit_def upd_stats_def)

lemma same_config_steps [simp]:
  "same_config rt (count_attempt rt') = same_config rt rt'"
  "same_config rt (count_intervention rt') = same_config rt rt'"
  "same_config rt (finish rep rt') = same_config rt rt'"
  "same_config rt (reject d c v org e rt') = same_config rt rt'"
  by (simp_all add: count_attempt_def count_intervention_def finish_def reject_def Let_def)

lemma same_config_hottest: "same_config rt rt' \<Longrightarrow> hottest_temperature rt' = hottest_temperature rt"
  by (simp add: same_config_def hottest_temperature_def)

text \<open>World and audit under the primitives.\<close>

lemma world_primitives [simp]:
  "rt_world (publish ev rt) = rt_world rt" "rt_world (record_audit a rt) = rt_world rt"
  "rt_world (upd_stats f rt) = rt_world rt" "rt_world (count_attempt rt) = rt_world rt"
  "rt_world (count_intervention rt) = rt_world rt" "rt_world (finish rep rt) = rt_world rt"
  "rt_world (reject d c v org e rt) = rt_world rt"
  by (simp_all add: publish_def record_audit_def upd_stats_def count_attempt_def
      count_intervention_def finish_def reject_def Let_def)

lemma audit_primitives [simp]:
  "rt_audit (publish ev rt) = rt_audit rt" "rt_audit (record_audit a rt) = rt_audit rt @ [a]"
  "rt_audit (upd_stats f rt) = rt_audit rt" "rt_audit (count_attempt rt) = rt_audit rt"
  "rt_audit (count_intervention rt) = rt_audit rt"
  "rt_audit (finish rep rt) = rt_audit rt @ [Audit_Write rep]"
  by (simp_all add: publish_def record_audit_def upd_stats_def count_attempt_def
      count_intervention_def finish_def)

definition rejection :: "'w runtime \<Rightarrow> device \<Rightarrow> capability \<Rightarrow> val \<Rightarrow> write_origin \<Rightarrow> ohm_error \<Rightarrow> write_report" where
  "rejection rt d c v org e = (write_report_for rt d c v org)
     \<lparr>wr_error_code := Some (error_code e), wr_detail := Some (error_display e)\<rparr>"

lemma audit_reject [simp]:
  "rt_audit (reject d c v org e rt) = rt_audit rt @ [Audit_Write (rejection rt d c v org e)]"
  by (simp add: reject_def rejection_def Let_def)

lemma write_report_for_clock:
  "same_config rt rt' \<Longrightarrow> write_report_for rt' d c v org = write_report_for rt d c v org"
  by (simp add: same_config_def write_report_for_def)

lemma rejection_clock: "same_config rt rt' \<Longrightarrow> rejection rt' d c v org e = rejection rt d c v org e"
  by (simp add: rejection_def write_report_for_clock)

subsection \<open>How an attempt ends\<close>

lemma vet_frame:
  "same_config rt (fst (vet rt d c v)) \<and> rt_world (fst (vet rt d c v)) = rt_world rt
     \<and> rt_audit (fst (vet rt d c v)) = rt_audit rt"
  by (auto simp: vet_def Let_def split: safety_decision.split option.split)

lemma lookup_count [simp]: "lookup_target (count_attempt rt) d c = lookup_target rt d c"
  by (simp add: lookup_target_def count_attempt_def upd_stats_def)

lemma vet_count: "snd (vet (count_attempt rt) d c v) = snd (vet rt d c v)"
  by (simp add: vet_def Let_def hottest_temperature_def count_attempt_def upd_stats_def
      split: safety_decision.split option.split)

lemma write_attempt_cases:
  assumes "write_attempt rt did cid v org = (rt', res, lost)"
  obtains
    (missing) e where "lookup_target rt did cid = Inl e" "res = Inl e" "lost = None"
      "same_config rt rt'" "rt_world rt' = rt_world rt" "rt_audit rt' = rt_audit rt"
  | (refused) d c en e where "lookup_target rt did cid = Inr (d, c, en)" "res = Inl e" "lost = None"
      "same_config rt rt'" "rt_world rt' = rt_world rt"
      "rt_audit rt' = rt_audit rt @ [Audit_Write (rejection rt d c v org e)]"
  | (simulated) d c en rep where "lookup_target rt did cid = Inr (d, c, en)" "res = Inr rep" "lost = None"
      "st_dry_run (rt_settings rt)" "same_config rt rt'" "rt_world rt' = rt_world rt"
      "rt_audit rt' = rt_audit rt @ [Audit_Write rep]" "wr_status rep = Write_Simulated"
      "\<exists>u cl n. rep = (write_report_for rt d c v org)\<lparr>wr_applied := Some u, wr_status := Write_Simulated,
         wr_clamped := cl, wr_simulated := True, wr_detail := Some n\<rparr>"
  | (written) d c a u cl n out w rep where "lookup_target rt did cid = Inr (d, c, True)"
      "refusal d c True v = None" "snd (vet rt d c v) = Inr (u, cl, n)"
      "\<not> st_dry_run (rt_settings rt)" "find_adapter (rt_adapters rt) (dev_adapter d) = Some a"
      "ad_write a d c u (rt_world rt) = (Inr out, w)"
      "res = Inr rep" "lost = None" "same_config rt rt'" "rt_world rt' = w"
      "rt_audit rt' = rt_audit rt @ [Audit_Write rep]"
      "rep = (write_report_for rt d c v org)
         \<lparr>wr_applied := (if confirms (wo_status out) then wo_applied out else None),
          wr_status := wo_status out,
          wr_clamped := cl \<or> val_differs (if confirms (wo_status out) then wo_applied out else None) u,
          wr_detail := (case wo_detail out of Some m \<Rightarrow> Some m | None \<Rightarrow> n),
          wr_simulated := (wo_status out = Write_Simulated)\<rparr>"
  | (failed) d c a u cl n e w where "lookup_target rt did cid = Inr (d, c, True)"
      "refusal d c True v = None" "snd (vet rt d c v) = Inr (u, cl, n)"
      "\<not> st_dry_run (rt_settings rt)" "find_adapter (rt_adapters rt) (dev_adapter d) = Some a"
      "ad_write a d c u (rt_world rt) = (Inl e, w)"
      "res = Inl e" "lost = (if is_duty_control c then Some (dev_type d) else None)"
      "same_config rt rt'" "rt_world rt' = w"
      "rt_audit rt' = rt_audit rt @ [Audit_Write (rejection rt d c v org e)]"
proof (cases "lookup_target rt did cid")
  case (Inl e)
  with assms show ?thesis by (intro missing [of e]) (auto simp: write_attempt_def Let_def)
next
  case (Inr t)
  then obtain d c en where t: "lookup_target rt did cid = Inr (d, c, en)" by (cases t) auto
  let ?rt = "count_attempt rt"
  show ?thesis
  proof (cases "refusal d c en v")
    case (Some e)
    with assms t show ?thesis
      by (intro refused [of d c en e]) (auto simp: write_attempt_def Let_def rejection_clock)
  next
    case None
    obtain rt2 r where v: "vet ?rt d c v = (rt2, r)" by fastforce
    then have r: "snd (vet rt d c v) = r" using vet_count [of rt d c v] by simp
    have f: "same_config rt rt2" "rt_world rt2 = rt_world rt" "rt_audit rt2 = rt_audit rt"
      using vet_frame [of ?rt d c v] by (auto simp: v intro: same_config_trans [rotated])
    then have cfg: "rt_settings rt2 = rt_settings rt" "rt_adapters rt2 = rt_adapters rt"
      by (simp_all add: same_config_def)
    show ?thesis
    proof (cases r)
      case (Inl reason)
      with assms t None v f show ?thesis
        by (intro refused [of d c en "SafetyBlocked (dev_id d) (cap_id c) reason"])
          (auto simp: write_attempt_def Let_def rejection_clock)
    next
      case (Inr q)
      then obtain u cl n where q: "r = Inr (u, cl, n)" by (cases q) auto
      show ?thesis
      proof (cases "st_dry_run (rt_settings rt)")
        case True
        with assms t None v f cfg q show ?thesis
          by (intro simulated [of d c en]) (auto simp: write_attempt_def Let_def write_report_for_clock)
      next
        case live: False
        show ?thesis
        proof (cases "find_adapter (rt_adapters rt) (dev_adapter d)")
          case lost: None
          with assms t None v f cfg q live show ?thesis
            by (intro refused [of d c en "AdapterUnavailable (dev_adapter d) [Txt ''adapter is not registered'']"])
              (auto simp: write_attempt_def Let_def rejection_clock)
        next
          case (Some a)
          have en: "en" using None by (auto simp: refusal_def split: if_splits)
          obtain ro w where w: "ad_write a d c u (rt_world rt) = (ro, w)" by fastforce
          show ?thesis
          proof (cases ro)
            case (Inl e)
            with assms t None v f cfg q live Some w en r show ?thesis
              by (intro failed [of d c u cl n a e w])
                (auto simp: write_attempt_def Let_def rejection_clock)
          next
            case (Inr out)
            with assms t None v f cfg q live Some w en r show ?thesis
              by (intro written [of d c u cl n a out w])
                (auto simp: write_attempt_def Let_def write_report_for_clock)
          qed
        qed
      qed
    qed
  qed
qed


subsection \<open>Only vetted values reach the hardware\<close>

text \<open>
  What the runtime promises about every value it hands to an adapter: the target is in the
  table, enabled and writable, it is not a dry run, and for a duty control the value is a
  number no lower than the device's floor, no lower than the emergency duty during an
  emergency, and no higher than 100 when the channel's own maximum is not.
\<close>

definition vetted :: "'w runtime \<Rightarrow> device \<Rightarrow> capability \<Rightarrow> val \<Rightarrow> bool" where
  "vetted rt d c v \<longleftrightarrow> \<not> st_dry_run (rt_settings rt)
     \<and> (\<exists>r. table_get (rt_table rt) (dev_id d) = Some r \<and> dr_device r = d \<and> dr_enabled r)
     \<and> dev_capability d (cap_id c) = Some c \<and> cap_writable c
     \<and> (is_duty_control c \<and> cap_values c = [] \<longrightarrow>
          (\<exists>x. v = Number x \<and> duty_floor (st_safety (rt_settings rt)) (dev_type d) \<le> x
             \<and> (emergency_override (st_safety (rt_settings rt)) (hottest_temperature rt) \<noteq> None
                 \<longrightarrow> emergency_duty (st_safety (rt_settings rt)) (dev_type d) \<le> x)
             \<and> (\<forall>m. cap_max c = Some m \<and> m \<le> Fin 100 \<longrightarrow> x \<le> Fin 100)))"

lemma vetted_same: "same_config rt rt' \<Longrightarrow> vetted rt' d c v = vetted rt d c v"
  by (simp add: vetted_def same_config_hottest) (simp add: same_config_def)

lemma fmin_le_bound: "m \<le> b \<Longrightarrow> fmin x m \<le> b"
  by (cases x; cases m; cases b) (auto simp: fmin_def split: if_splits)

lemma clamp_capability_le: "cap_max c = Some m \<Longrightarrow> m \<le> b \<Longrightarrow> clamp_capability c x \<le> b"
  by (auto simp: clamp_capability_def opt_fmin_def Let_def fmin_le_bound split: option.split)

lemma check_duty_hot:
  assumes "sane p" and "emergency_override p hot \<noteq> None"
    and "decision_value (check_duty p t r cur hot) = Some v"
  shows "emergency_duty p t \<le> v"
proof -
  have "is_finite r" using assms(3) by (cases "is_finite r") (simp_all add: check_duty_def)
  then obtain q where "r = Fin q" by (auto simp: is_finite_iff)
  with assms check_duty_emergency [OF assms(1), of hot _ t q cur] show ?thesis by auto
qed

lemma check_duty_silent: "check_duty p t r cur hot = Allow a None \<Longrightarrow> a = r"
  by (auto simp: check_duty_def ramp_limit_def Let_def split: if_splits option.splits)

lemma vet_duty:
  assumes v: "snd (vet rt d c v) = Inr (u, cl, n)" and c: "is_duty_control c" "cap_values c = []"
  shows "\<exists>x. u = Number x \<and> decision_value (check_duty (st_safety (rt_settings rt)) (dev_type d)
      (clamp_capability c (or_default (Fin 0) (as_f64 v)))
      (store_number (rt_store rt) (dev_id d) (cap_id c)) (hottest_temperature rt)) = Some x"
proof (cases "check_duty (st_safety (rt_settings rt)) (dev_type d)
      (clamp_capability c (or_default (Fin 0) (as_f64 v)))
      (store_number (rt_store rt) (dev_id d) (cap_id c)) (hottest_temperature rt)")
  case (Allow a nt)
  then show ?thesis
    using v c by (cases nt) (auto simp: vet_def Let_def or_default_def dest: check_duty_silent)
qed (use v c in \<open>auto simp: vet_def Let_def or_default_def\<close>)

lemma lookup_target_found:
  assumes "lookup_target rt did cid = Inr (d, c, en)"
  obtains r where "table_get (rt_table rt) did = Some r" "dr_device r = d" "dr_enabled r = en"
    "dev_id d = did" "dev_capability d cid = Some c" "cap_id c = cid"
proof -
  obtain r where r: "table_get (rt_table rt) did = Some r" "dr_device r = d" "dr_enabled r = en"
    "dev_capability d cid = Some c"
    using assms by (auto simp: lookup_target_def result_simps)
  moreover have "dev_id d = did" using table_get_id [OF r(1)] r(2) by (simp add: dr_id_def)
  moreover have "cap_id c = cid"
    using find_key_Some [where key = cap_id and k = cid and v = c] r(4) by (auto simp: dev_capability_def)
  ultimately show thesis using that by blast
qed

lemma vet_vetted:
  assumes "sane (st_safety (rt_settings rt))" and "\<not> st_dry_run (rt_settings rt)"
    and "lookup_target rt did cid = Inr (d, c, True)" and "refusal d c True v = None"
    and "snd (vet rt d c v) = Inr (u, cl, n)"
  shows "vetted rt d c u"
proof -
  have w: "cap_writable c" using assms(4) by (auto simp: refusal_def split: if_splits)
  have duty: "\<exists>x. u = Number x \<and> duty_floor (st_safety (rt_settings rt)) (dev_type d) \<le> x
      \<and> (emergency_override (st_safety (rt_settings rt)) (hottest_temperature rt) \<noteq> None
          \<longrightarrow> emergency_duty (st_safety (rt_settings rt)) (dev_type d) \<le> x)
      \<and> (\<forall>m. cap_max c = Some m \<and> m \<le> Fin 100 \<longrightarrow> x \<le> Fin 100)"
    if "is_duty_control c" "cap_values c = []"
    using vet_duty [OF assms(5) that] check_duty_range [OF assms(1)] check_duty_hot [OF assms(1)]
      clamp_capability_le [of c _ "Fin 100"] by blast
  from assms(3) show ?thesis
    by (rule lookup_target_found) (use w duty assms(2) in \<open>auto simp: vetted_def\<close>)
qed

definition adapters_keep :: "'w runtime \<Rightarrow> ('w \<Rightarrow> bool) \<Rightarrow> bool" where
  "adapters_keep rt I \<longleftrightarrow> (\<forall>a \<in> set (rt_adapters rt). \<forall>d c u w.
     vetted rt d c u \<longrightarrow> ad_id a = dev_adapter d \<longrightarrow> I w \<longrightarrow> I (snd (ad_write a d c u w)))"

lemma adapters_keep_same: "same_config rt rt' \<Longrightarrow> adapters_keep rt' I = adapters_keep rt I"
  by (simp add: adapters_keep_def vetted_same) (simp add: same_config_def)

lemma find_adapter_in: "find_adapter as i = Some a \<Longrightarrow> a \<in> set as \<and> ad_id a = i"
  unfolding find_adapter_def by (rule find_key_Some)

lemma write_attempt_frame: "write_attempt rt d c v org = (rt', res, lost) \<Longrightarrow> same_config rt rt'"
  by (erule write_attempt_cases)

lemma write_attempt_keeps:
  assumes "write_attempt rt did cid v org = (rt', res, lost)"
    and "sane (st_safety (rt_settings rt))" and "adapters_keep rt I" and "I (rt_world rt)"
  shows "I (rt_world rt')"
  using assms(1)
proof (cases rule: write_attempt_cases)
  case (written d c a u cl n out w rep)
  with assms vet_vetted [OF assms(2) written(4,1,2,3)] find_adapter_in [OF written(5)] show ?thesis
    unfolding adapters_keep_def by (metis snd_conv)
next
  case (failed d c a u cl n e w)
  with assms vet_vetted [OF assms(2) failed(4,1,2,3)] find_adapter_in [OF failed(5)] show ?thesis
    unfolding adapters_keep_def by (metis snd_conv)
qed (use assms in simp_all)

lemma write_with_origin_split:
  assumes "write_with_origin allow rt d c v org = (rt', res)"
  obtains rt1 lost where "write_attempt rt d c v org = (rt1, res, lost)"
    and "rt' = rt1 \<or> (\<exists>e ty. allow \<and> res = Inl e \<and> lost = Some ty \<and> rt' = fst (write_attempt rt1 d c
        (Number (fail_safe_duty (st_safety (rt_settings rt)) ty))
        (SafetyOrigin ([Txt ''fallback after a failed write: ''] @ error_display e))))"
  using assms
  by (auto simp: write_with_origin_def split: prod.splits sum.splits option.splits if_splits)

lemma write_with_origin_frame: "same_config rt (fst (write_with_origin allow rt d c v org))"
proof -
  obtain rt' res where w: "write_with_origin allow rt d c v org = (rt', res)" by fastforce
  then obtain rt1 lost where a: "write_attempt rt d c v org = (rt1, res, lost)"
    and r: "rt' = rt1 \<or> (\<exists>v' org'. rt' = fst (write_attempt rt1 d c v' org'))"
    by (elim write_with_origin_split) blast
  have "same_config rt1 rt'" using r by (metis fst_conv prod_cases3 same_config_refl write_attempt_frame)
  with write_attempt_frame [OF a] w show ?thesis by (auto intro: same_config_trans)
qed

lemma write_keeps:
  assumes "sane (st_safety (rt_settings rt))" and "adapters_keep rt I" and "I (rt_world rt)"
  shows "I (rt_world (fst (write_with_origin allow rt d c v org)))"
proof -
  obtain rt' res where w: "write_with_origin allow rt d c v org = (rt', res)" by fastforce
  then obtain rt1 lost where a: "write_attempt rt d c v org = (rt1, res, lost)"
    and r: "rt' = rt1 \<or> (\<exists>v' org'. rt' = fst (write_attempt rt1 d c v' org'))"
    by (elim write_with_origin_split) blast
  have I1: "I (rt_world rt1)" using write_attempt_keeps [OF a assms] .
  have f: "same_config rt rt1" using a by (rule write_attempt_frame)
  then have "sane (st_safety (rt_settings rt1))" "adapters_keep rt1 I"
    using assms by (simp_all add: adapters_keep_same) (simp add: same_config_def)
  with I1 r w show ?thesis by (metis fst_conv prod_cases3 write_attempt_keeps)
qed

text \<open>C3. Whatever is asked of the runtime, by whom, and whether or not the adapter fails, an adapter
  is only ever handed a vetted value: a property of the hardware that vetted writes preserve
  survives every write, the fail-safe one after a failure included.\<close>
theorem only_vetted_writes:
  assumes "sane (st_safety (rt_settings rt))" and "I (rt_world rt)"
    and "\<And>a d c u w. a \<in> set (rt_adapters rt) \<Longrightarrow> ad_id a = dev_adapter d \<Longrightarrow> vetted rt d c u
      \<Longrightarrow> I w \<Longrightarrow> I (snd (ad_write a d c u w))"
  shows "I (rt_world (fst (write_with_origin allow rt device capability value origin)))"
  by (rule write_keeps) (use assms in \<open>auto simp: adapters_keep_def\<close>)

subsection \<open>Dry run, reports and the audit\<close>

lemma fold_keeps: "(\<And>x r. P r \<Longrightarrow> P (f x r)) \<Longrightarrow> P r \<Longrightarrow> P (fold f xs r)"
  by (induction xs arbitrary: r) auto

lemma dry_attempt:
  assumes "write_attempt rt d c v org = (rt', res, lost)" and "st_dry_run (rt_settings rt)"
  shows "rt_world rt' = rt_world rt \<and> lost = None"
  using assms by (cases rule: write_attempt_cases) auto

lemma dry_write:
  assumes "st_dry_run (rt_settings rt)"
  shows "rt_world (fst (write_with_origin allow rt d c v org)) = rt_world rt"
proof -
  obtain rt' res lost where a: "write_attempt rt d c v org = (rt', res, lost)" by (metis prod_cases3)
  with dry_attempt [OF a assms] show ?thesis by (auto simp: write_with_origin_def split: sum.split)
qed

text \<open>A report says what happened: no value unless the adapter confirmed one.\<close>

definition report_honest :: "write_report \<Rightarrow> bool" where
  "report_honest rep \<longleftrightarrow> (wr_applied rep \<noteq> None \<longrightarrow> confirms (wr_status rep))
     \<and> (wr_simulated rep \<longleftrightarrow> wr_status rep = Write_Simulated)"

lemma report_of_attempt:
  assumes "write_attempt rt did cid v org = (rt', Inr rep, lost)"
  shows "report_honest rep \<and> wr_device_id rep = did \<and> wr_capability rep = cid \<and> wr_requested rep = v
    \<and> wr_origin rep = org \<and> rt_audit rt' = rt_audit rt @ [Audit_Write rep] \<and> lost = None"
  using assms
proof (cases rule: write_attempt_cases)
  case (simulated d c en rep')
  then show ?thesis
    by (elim lookup_target_found) (auto simp: report_honest_def write_report_for_def confirms_def)
next
  case (written d c a u cl n out w rep')
  then show ?thesis
    by (elim lookup_target_found) (auto simp: report_honest_def write_report_for_def)
qed simp_all

lemma error_of_attempt:
  assumes "write_attempt rt did cid v org = (rt', Inl e, lost)"
  shows "(lookup_target rt did cid = Inl e \<and> rt_audit rt' = rt_audit rt)
    \<or> (\<exists>rep. rt_audit rt' = rt_audit rt @ [Audit_Write rep] \<and> wr_device_id rep = did
         \<and> wr_capability rep = cid \<and> wr_requested rep = v \<and> wr_origin rep = org
         \<and> wr_status rep = Write_Rejected \<and> wr_applied rep = None
         \<and> wr_error_code rep = Some (error_code e))"
  using assms
proof (cases rule: write_attempt_cases)
  case (refused d c en e')
  then show ?thesis
    by (elim lookup_target_found) (auto simp: rejection_def write_report_for_def)
next
  case (failed d c a u cl n e' w)
  then show ?thesis
    by (elim lookup_target_found) (auto simp: rejection_def write_report_for_def)
qed simp_all

text \<open>Where a report's status comes from: in a dry run nothing was asked of the hardware; otherwise the device's
  own adapter was given what the gate made of the request, in the world as it was, and the report says what
  the adapter said.\<close>

definition vouched :: "'w runtime \<Rightarrow> write_report \<Rightarrow> bool" where
  "vouched rt rep \<longleftrightarrow> (st_dry_run (rt_settings rt) \<and> wr_status rep = Write_Simulated)
     \<or> (\<not> st_dry_run (rt_settings rt) \<and> (\<exists>d c a u cl n out. lookup_target rt (wr_device_id rep) (wr_capability rep) = Inr (d, c, True)
          \<and> snd (vet rt d c (wr_requested rep)) = Inr (u, cl, n)
          \<and> find_adapter (rt_adapters rt) (dev_adapter d) = Some a \<and> fst (ad_write a d c u (rt_world rt)) = Inr out
          \<and> wr_status rep = wo_status out \<and> wr_applied rep = (if confirms (wo_status out) then wo_applied out else None)))"

lemma attempt_vouched:
  assumes "write_attempt rt did cid v org = (rt', Inr rep, lost)" shows "vouched rt rep"
  using assms
proof (cases rule: write_attempt_cases)
  case (simulated d c en rep') then show ?thesis by (auto simp: vouched_def)
next
  case (written d c a u cl n out w rep')
  then have "wr_device_id rep = did" "wr_capability rep = cid" "wr_requested rep = v"
    using report_of_attempt [OF assms] by simp_all
  with written show ?thesis
    unfolding vouched_def
    by (intro disjI2 conjI exI [of _ d] exI [of _ c] exI [of _ a] exI [of _ u] exI [of _ cl] exI [of _ n] exI [of _ out]) simp_all
qed simp_all

lemma write_vouched: "write_with_origin allow rt d c v org = (rt', Inr rep) \<Longrightarrow> vouched rt rep"
  by (elim write_with_origin_split) (auto dest: attempt_vouched)

text \<open>One write, one entry: what a caller is told is what the audit file holds.\<close>

definition audit_write_of :: "string \<Rightarrow> string \<Rightarrow> val \<Rightarrow> write_origin \<Rightarrow> audit_entry \<Rightarrow> bool" where
  "audit_write_of d c v org en \<longleftrightarrow> (\<exists>rep. en = Audit_Write rep \<and> wr_device_id rep = d
     \<and> wr_capability rep = c \<and> wr_requested rep = v \<and> wr_origin rep = org)"

lemma attempt_audits:
  assumes "write_attempt rt d c v org = (rt', res, lost)" and "lookup_target rt d c = Inr t"
  shows "\<exists>en. rt_audit rt' = rt_audit rt @ [en] \<and> audit_write_of d c v org en"
proof (cases res)
  case (Inl e)
  with assms error_of_attempt [of rt d c v org rt' e lost] show ?thesis
    by (auto simp: audit_write_of_def)
next
  case (Inr rep)
  with assms report_of_attempt [of rt d c v org rt' rep lost] show ?thesis
    by (auto simp: audit_write_of_def)
qed

lemma attempt_audit_grows:
  assumes "write_attempt rt d c v org = (rt', res, lost)"
  shows "\<exists>new. rt_audit rt' = rt_audit rt @ new"
  using assms by (cases rule: write_attempt_cases) auto

lemma write_audit_grows: "\<exists>new. rt_audit (fst (write_with_origin allow rt d c v org)) = rt_audit rt @ new"
proof -
  obtain rt' res where w: "write_with_origin allow rt d c v org = (rt', res)" by fastforce
  then obtain rt1 lost where a: "write_attempt rt d c v org = (rt1, res, lost)"
    and r: "rt' = rt1 \<or> (\<exists>v' org'. rt' = fst (write_attempt rt1 d c v' org'))"
    by (elim write_with_origin_split) blast
  obtain n1 where n1: "rt_audit rt1 = rt_audit rt @ n1" using attempt_audit_grows [OF a] by blast
  have "\<exists>n2. rt_audit rt' = rt_audit rt1 @ n2"
    using r by (metis append_Nil2 attempt_audit_grows fst_conv prod_cases3)
  with n1 w show ?thesis by auto
qed

text \<open>C21. A write either returns a report, which the audit holds as its only new entry and which names
  a value only when the adapter confirmed one (or nothing was touched), or returns an error. An error about
  a device or a capability the table does not have leaves the audit as it was; after any other one the new
  entries are a rejected one with that error's code and, after a failed duty write by a caller that
  allows it, nothing but the fail-safe write that followed it.\<close>
theorem writes_are_accounted:
  "case write_with_origin allow rt d c v org of
     (rt', Inr rep) \<Rightarrow> rt_audit rt' = rt_audit rt @ [Audit_Write rep] \<and> report_honest rep
        \<and> wr_device_id rep = d \<and> wr_capability rep = c \<and> wr_requested rep = v \<and> wr_origin rep = org
   | (rt', Inl e) \<Rightarrow> (lookup_target rt d c = Inl e \<and> rt_audit rt' = rt_audit rt)
        \<or> (\<exists>rep after. rt_audit rt' = rt_audit rt @ Audit_Write rep # after
            \<and> wr_status rep = Write_Rejected \<and> wr_applied rep = None
            \<and> wr_error_code rep = Some (error_code e)
            \<and> (after = [] \<or> allow \<and> (\<exists>duty why. list_all
                 (audit_write_of d c (Number duty) (SafetyOrigin why)) after)))"
proof -
  obtain rt' res where w: "write_with_origin allow rt d c v org = (rt', res)" by fastforce
  then obtain rt1 lost where a: "write_attempt rt d c v org = (rt1, res, lost)"
    and r: "rt' = rt1 \<or> (\<exists>e ty. allow \<and> res = Inl e \<and> lost = Some ty \<and> rt' = fst (write_attempt rt1 d c
        (Number (fail_safe_duty (st_safety (rt_settings rt)) ty))
        (SafetyOrigin ([Txt ''fallback after a failed write: ''] @ error_display e))))"
    by (rule write_with_origin_split)
  show ?thesis
  proof (cases res)
    case (Inr rep)
    with a r report_of_attempt [of rt d c v org rt1 rep lost] w show ?thesis by auto
  next
    case (Inl e)
    show ?thesis
    proof (cases "rt' = rt1")
      case True
      with Inl a w error_of_attempt [of rt d c v org rt1 e lost] show ?thesis by auto
    next
      case False
      then obtain duty why where al: allow "lost \<noteq> None"
        and rt': "rt' = fst (write_attempt rt1 d c (Number duty) (SafetyOrigin why))"
        using r by auto
      obtain rt2 res2 lost2 where a2: "write_attempt rt1 d c (Number duty) (SafetyOrigin why) = (rt2, res2, lost2)"
        by (metis prod_cases3)
      have "\<exists>x. lookup_target rt d c = Inr x" using a al(2) by (cases rule: write_attempt_cases) auto
      moreover have "lookup_target rt1 d c = lookup_target rt d c"
        using write_attempt_frame [OF a] by (simp add: same_config_def lookup_target_def)
      ultimately obtain x where x: "lookup_target rt1 d c = Inr x" "lookup_target rt d c = Inr x" by auto
      obtain en where "rt_audit rt' = rt_audit rt1 @ [en]" "audit_write_of d c (Number duty) (SafetyOrigin why) en"
        using attempt_audits [OF a2 x(1)] rt' a2 by auto
      with Inl a w al x error_of_attempt [of rt d c v org rt1 e lost] show ?thesis by fastforce
    qed
  qed
qed

subsection \<open>A runtime to look at\<close>

text \<open>An adapter whose hardware is the log of what it was asked to write.\<close>

definition demo_adapter :: "(string \<times> string \<times> val) list adapter" where
  "demo_adapter =
    \<lparr>ad_info = (adapter_info_new ''sys'' ''System'' ''system'')\<lparr>ai_capabilities := cooling_control\<rparr>,
     ad_probe = (\<lambda>w. (status_available ''sys'' 1 0, w)),
     ad_discover = (\<lambda>w. (Inr [demo_fan], w)),
     ad_read_all = read_serially (\<lambda>d w. (Inr (new_state (dev_id d) 0), w)),
     ad_write = (\<lambda>d c v w. (Inr (outcome_applied v), w @ [(dev_id d, cap_id c, v)])),
     ad_shutdown = (\<lambda>w. (Inr (), w)),
     ad_write_access = no_opinion, ad_taken_controls = takes_nothing, ad_adopt = adopts_nothing\<rparr>"

definition demo_runtime :: "(string \<times> string \<times> val) list runtime" where
  "demo_runtime = (runtime_new default_settings [demo_adapter] 1 [])
     \<lparr>rt_table := [new_record demo_fan True 1]\<rparr>"

lemma demo_sane: "sane_settings default_settings"
  by (simp add: sane_settings_def default_settings_def sane_def default_policy_def)

lemma demo_settings: "fst (sanitise_settings default_settings) = default_settings"
  by (simp add: sane_settings_id [OF demo_sane])

lemma demo_runtime_simps:
  "rt_settings demo_runtime = default_settings" "rt_adapters demo_runtime = [demo_adapter]"
  "rt_table demo_runtime = [new_record demo_fan True 1]" "rt_store demo_runtime = store_new 180"
  "rt_world demo_runtime = []" "rt_audit demo_runtime = []" "rt_emergency_active demo_runtime = False"
  by (simp_all add: demo_runtime_def runtime_new_def Let_def demo_settings deduplicate_adapters_def)
    (simp add: default_settings_def)

lemmas demo_device_simps = demo_fan_def with_capability_def new_device_def cap_actuator_def
  new_record_def dev_capability_def dr_id_def

lemma demo_duty_cap:
  "table_get [new_record demo_fan True 1] i = Some r \<Longrightarrow> r = new_record demo_fan True 1 \<and> i = ''fan.0''"
  by (auto simp: table_get_def split: if_splits)

theorem only_vetted_writes_witness:
  "list_all (\<lambda>e. \<exists>x. snd (snd e) = Number x \<and> Fin 25 \<le> x)
     (rt_world (fst (write_with_origin True demo_runtime ''fan.0'' FAN_SPEED_PERCENT
       (Number (Fin 5)) Manual)))"
proof (rule only_vetted_writes [where I = "list_all (\<lambda>e. \<exists>x. snd (snd e) = Number x \<and> Fin 25 \<le> x)"])
  show "sane (st_safety (rt_settings demo_runtime))"
    using demo_sane by (simp add: demo_runtime_simps sane_settings_def)
  show "list_all (\<lambda>e. \<exists>x. snd (snd e) = Number x \<and> Fin 25 \<le> x) (rt_world demo_runtime)"
    by (simp add: demo_runtime_simps)
next
  fix a d c u and w :: "(string \<times> string \<times> val) list"
  assume a: "a \<in> set (rt_adapters demo_runtime)" and v: "vetted demo_runtime d c u"
    and w: "list_all (\<lambda>e. \<exists>x. snd (snd e) = Number x \<and> Fin 25 \<le> x) w"
  from v have d: "d = demo_fan" and c: "dev_capability d (cap_id c) = Some c"
    by (auto simp: vetted_def demo_runtime_simps dest: demo_duty_cap)
  have "is_duty_control c \<and> cap_values c = []"
    using c by (auto simp: d demo_device_simps is_duty_control_def is_duty_unit_def split: if_splits)
  moreover have "duty_floor (st_safety (rt_settings demo_runtime)) (dev_type d) = Fin 25"
    by (simp add: demo_runtime_simps d demo_device_simps duty_floor_def default_settings_def default_policy_def)
  ultimately have "\<exists>x. u = Number x \<and> Fin 25 \<le> x"
    using v by (auto simp: vetted_def)
  with a w show "list_all (\<lambda>e. \<exists>x. snd (snd e) = Number x \<and> Fin 25 \<le> x) (snd (ad_write a d c u w))"
    by (auto simp: demo_runtime_simps demo_adapter_def)
qed

subsection \<open>Taking over from an earlier process\<close>

lemma unheld_keeps: "set ps \<subseteq> set (fold (unheld_problem held) es ps)"
proof (induction es arbitrary: ps)
  case (Cons e es)
  have "set ps \<subseteq> set (unheld_problem held e ps)" by (auto simp: unheld_problem_def)
  then show ?case using Cons [of "unheld_problem held e ps"] by simp
qed simp

definition unheld_note :: "taken_control \<Rightarrow> string" where
  "unheld_note e = tk_device_id e @ '': no adapter took responsibility for this channel, so ''
     @ ''nothing will put it back ('' @ tk_original_text e @ '')''"

lemma unheld_problem_note: "unheld_problem held e ps = (if tk_device_id e \<in> set held \<or> list_ex (str_contains (tk_device_id e)) ps
    then ps else ps @ [unheld_note e])"
  by (simp add: unheld_problem_def unheld_note_def)

text \<open>The runtime's notes come after what was said, each about a channel nobody holds; and every such channel is
  contained in some text.\<close>

lemma unheld_notes:
  "\<exists>ns. fold (unheld_problem held) es ps = ps @ ns
     \<and> (\<forall>n \<in> set ns. \<exists>e \<in> set es. tk_device_id e \<notin> set held \<and> n = unheld_note e)
     \<and> (\<forall>e \<in> set es. tk_device_id e \<notin> set held \<longrightarrow> list_ex (str_contains (tk_device_id e)) (ps @ ns))"
proof (induction es arbitrary: ps)
  case (Cons x es)
  have "str_contains i (i @ z)" for i z unfolding str_contains_iff by (rule exI [of _ "[]"]) simp
  then have i: "str_contains (tk_device_id x) (unheld_note x)" by (simp add: unheld_note_def)
  show ?case
  proof (cases "tk_device_id x \<in> set held \<or> list_ex (str_contains (tk_device_id x)) ps")
    case True
    then show ?thesis using Cons [of ps] by (fastforce simp: unheld_problem_note [of held x ps])
  next
    case False
    obtain ns where "fold (unheld_problem held) es (ps @ [unheld_note x]) = (ps @ [unheld_note x]) @ ns"
      "\<forall>n \<in> set ns. \<exists>e \<in> set es. tk_device_id e \<notin> set held \<and> n = unheld_note e"
      "\<forall>e \<in> set es. tk_device_id e \<notin> set held \<longrightarrow> list_ex (str_contains (tk_device_id e)) ((ps @ [unheld_note x]) @ ns)"
      using Cons [of "ps @ [unheld_note x]"] by blast
    with False i show ?thesis by (intro exI [of _ "unheld_note x # ns"]) (auto simp: unheld_problem_note [of held x ps])
  qed
qed simp

text \<open>C30. What a previous process left behind is accounted for. After an adoption the caller is given what the
  adapters said, followed by notes, each about a channel of the handed-over list that no adapter holds. And
  every channel of that list is held by some adapter, which owes it its mode, or has such a note of its own,
  or else its id stands in another text given to the caller: one of an adapter's, or the note about another
  channel. (The test is whether the id is contained in the text, so a note about fan 10 stands for fan 1.)\<close>
theorem adoption_accounted:
  assumes "entry \<in> set taken" and "adopt_taken_controls taken rt = (rt', problems)"
  defines "held \<equiv> set (map tk_device_id (rt_taken_controls rt'))"
    and "said \<equiv> fst (adopt_each (rt_adapters rt) taken (rt_world rt))"
  shows "(\<exists>ns. problems = said @ ns
      \<and> (\<forall>n \<in> set ns. \<exists>e \<in> set taken. tk_device_id e \<notin> held \<and> n = unheld_note e))
    \<and> (tk_device_id entry \<in> held
      \<or> (\<exists>e \<in> set taken. tk_device_id e = tk_device_id entry \<and> unheld_note e \<in> set problems)
      \<or> (\<exists>x \<in> set said. str_contains (tk_device_id entry) x)
      \<or> (\<exists>e \<in> set taken. tk_device_id e \<noteq> tk_device_id entry \<and> unheld_note e \<in> set problems
           \<and> str_contains (tk_device_id entry) (unheld_note e)))"
proof -
  have "taken \<noteq> []" using assms(1) by auto
  then have p: "problems = fold (unheld_problem (map tk_device_id (rt_taken_controls rt'))) taken said"
    using assms(2) by (auto simp: adopt_taken_controls_def Let_def said_def split: prod.splits)
  obtain ns where n: "problems = said @ ns"
    "\<forall>n \<in> set ns. \<exists>e \<in> set taken. tk_device_id e \<notin> held \<and> n = unheld_note e"
    "tk_device_id entry \<notin> held \<longrightarrow> list_ex (str_contains (tk_device_id entry)) (said @ ns)"
    using unheld_notes [of "map tk_device_id (rt_taken_controls rt')" taken said] assms(1) by (auto simp: p held_def)
  have "tk_device_id entry \<in> held
      \<or> (\<exists>x \<in> set said. str_contains (tk_device_id entry) x)
      \<or> (\<exists>e \<in> set taken. unheld_note e \<in> set problems \<and> str_contains (tk_device_id entry) (unheld_note e))"
    using n by (auto simp: list_ex_iff)
  with n show ?thesis by blast
qed

theorem adoption_accounted_witness:
  "unheld_note \<lparr>tk_device_id = ''fan.0'', tk_original = Some 2, tk_original_text = ''auto''\<rparr> \<in> set (snd (adopt_taken_controls
     [\<lparr>tk_device_id = ''fan.0'', tk_original = Some 2, tk_original_text = ''auto''\<rparr>] demo_runtime))"
proof -
  let ?e = "\<lparr>tk_device_id = ''fan.0'', tk_original = Some 2, tk_original_text = ''auto''\<rparr>"
  obtain rt' problems where a: "adopt_taken_controls [?e] demo_runtime = (rt', problems)" by fastforce
  then have "rt_taken_controls rt' = []"
    by (auto simp: adopt_taken_controls_def Let_def rt_taken_controls_def demo_runtime_simps demo_adapter_def
        takes_nothing_def adopts_nothing_def)
  then have "unheld_note ?e \<in> set problems"
    using adoption_accounted [of ?e, OF _ a] a by (auto simp: demo_runtime_simps demo_adapter_def adopts_nothing_def)
  with a show ?thesis by simp
qed

text \<open>A channel counts as named when its id stands inside a longer one: a problem about fan 10 keeps the missing
  fan 1 out of the report.\<close>

lemma problem_of_another_channel:
  "unheld_problem [] \<lparr>tk_device_id = ''fan.system.nct_fan1'', tk_original = Some 2, tk_original_text = ''auto''\<rparr>
     [''fan.system.nct_fan10: the channel is gone''] = [''fan.system.nct_fan10: the channel is gone'']"
  by code_simp

end
