(* ===== verification/Runtime_Safety.thy ===== *)
theory Runtime_Safety
  imports Runtime_Correct "HOL-Library.Multiset"
begin

section \<open>The runtime: supervision, the exit path and the state invariant\<close>

text \<open>
  What holds of the runtime as a whole: the emergency supervisor reaches every cooling channel,
  the exit path accounts for every channel it owes a fail-safe write, a dry run leaves the
  hardware alone whatever runs, and the invariant of every reachable runtime.
\<close>

subsection \<open>Sequences of writes\<close>

lemma emergency_write_frame: "same_config rt (emergency_write duty x rt)"
  by (auto simp: emergency_write_def write_with_origin_frame split: prod.split option.split)

lemma emergency_write_grows: "\<exists>new. rt_audit (emergency_write duty x rt) = rt_audit rt @ new"
  using write_audit_grows by (auto simp: emergency_write_def split: prod.split option.split)

lemma emergency_writes_frame: "same_config rt (fold (emergency_write duty) xs rt)"
  by (rule fold_keeps) (auto intro: same_config_trans emergency_write_frame)

lemma emergency_writes_grow: "\<exists>new. rt_audit (fold (emergency_write duty) xs rt) = rt_audit rt @ new"
proof (induction xs arbitrary: rt)
  case (Cons x xs)
  from Cons [of "emergency_write duty x rt"] emergency_write_grows [of duty x rt] show ?case by auto
qed simp

text \<open>A channel below the emergency duty, or of unknown duty.\<close>

definition below :: "'w runtime \<Rightarrow> f64 \<Rightarrow> string \<times> string \<Rightarrow> bool" where
  "below rt duty = (\<lambda>(d, c). case store_number (rt_store rt) d c of
     Some current \<Rightarrow> \<not> duty \<le> current | None \<Rightarrow> True)"

lemma lookup_same: "same_config rt rt' \<Longrightarrow> lookup_target rt' d c = lookup_target rt d c"
  by (simp add: same_config_def lookup_target_def)

lemma below_same: "same_config rt rt' \<Longrightarrow> below rt' duty x = below rt duty x"
  by (simp add: same_config_def below_def)

lemma emergency_write_audits:
  assumes "below rt duty (d, c)" and "lookup_target rt d c = Inr t"
  shows "\<exists>en. rt_audit (emergency_write duty (d, c) rt) = rt_audit rt @ [en]
    \<and> audit_write_of d c (Number duty) (SafetyOrigin [Txt ''emergency temperature threshold'']) en"
proof -
  let ?w = "write_attempt rt d c (Number duty) (SafetyOrigin [Txt ''emergency temperature threshold''])"
  obtain rt' res lost where a: "?w = (rt', res, lost)" by (metis prod_cases3)
  have "emergency_write duty (d, c) rt = rt'"
    using assms(1) a by (auto simp: emergency_write_def below_def write_with_origin_def
        split: option.splits sum.split)
  with attempt_audits [OF a assms(2)] show ?thesis by simp
qed

lemma emergency_writes_reach:
  assumes "(d, c) \<in> set xs" and "below rt duty (d, c)" and "lookup_target rt d c = Inr t"
  shows "\<exists>new en. rt_audit (fold (emergency_write duty) xs rt) = rt_audit rt @ new \<and> en \<in> set new
    \<and> audit_write_of d c (Number duty) (SafetyOrigin [Txt ''emergency temperature threshold'']) en"
proof -
  obtain ys zs where xs: "xs = ys @ (d, c) # zs" using assms(1) by (meson split_list)
  let ?r = "fold (emergency_write duty) ys rt"
  have f: "same_config rt ?r" by (rule emergency_writes_frame)
  obtain n1 where n1: "rt_audit ?r = rt_audit rt @ n1" using emergency_writes_grow by blast
  obtain en where "rt_audit (emergency_write duty (d, c) ?r) = rt_audit ?r @ [en]"
    "audit_write_of d c (Number duty) (SafetyOrigin [Txt ''emergency temperature threshold'']) en"
    using emergency_write_audits [of ?r duty d c t] assms f by (auto simp: below_same lookup_same)
  moreover obtain n2 where "rt_audit (fold (emergency_write duty) zs (emergency_write duty (d, c) ?r))
      = rt_audit (emergency_write duty (d, c) ?r) @ n2" using emergency_writes_grow by blast
  ultimately show ?thesis using n1 by (intro exI [of _ "n1 @ [en] @ n2"] exI [of _ en]) (simp add: xs)
qed

lemma channel_known:
  assumes "sorted_keys dr_id t" and "r \<in> set t" and "c \<in> set (dev_capabilities (dr_device r))"
  shows "\<exists>c'. table_get t (dr_id r) = Some r \<and> dev_capability (dr_device r) (cap_id c) = Some c'"
  using table_get_member [OF assms(1,2)] assms(3)
    find_key_None [of cap_id "cap_id c" "dev_capabilities (dr_device r)"]
  by (auto simp: dev_capability_def)

lemma emergency_targets_known:
  assumes "table_ok (rt_table rt)" and "(d, c) \<in> set (emergency_targets rt)"
  shows "\<exists>t. lookup_target rt d c = Inr t"
proof -
  obtain r cap where "r \<in> set (rt_table rt)" "cap \<in> set (dev_capabilities (dr_device r))"
    "d = dr_id r" "c = cap_id cap"
    using assms(2) by (auto simp: emergency_targets_def cooling_channels_def cooling_devices_def)
  with channel_known [of "rt_table rt" r cap] assms(1) show ?thesis
    by (auto simp: table_ok_def lookup_target_def result_simps)
qed

lemma supervise_emergency:
  assumes "st_automation_enabled (rt_settings rt)"
    and "emergency_override (st_safety (rt_settings rt)) (hottest_temperature rt) = Some duty"
    and "emergency_targets rt \<noteq> []"
  obtains rt1 pre where "supervise_safety rt = fold (emergency_write duty) (emergency_targets rt) rt1"
    and "rt_emergency_active rt1" "rt_audit rt1 = rt_audit rt @ pre"
      "rt_store rt1 = rt_store rt" "rt_table rt1 = rt_table rt"
proof -
  let ?detail = "[Num (or_default (Fin 0) (hottest_temperature rt)), Txt '' '', Txt degree,
    Txt ''C is at or above the '', Num (sp_emergency_temp_c (st_safety (rt_settings rt))), Txt '' '',
    Txt degree, Txt ''C emergency threshold'']"
  let ?up = "rt\<lparr>rt_emergency_active := True\<rparr>"
  let ?told = "record_lifecycle ''emergency_override'' ?detail
    (publish (SafetyTriggered ''emergency'' ?detail (rt_clock rt)) (count_intervention ?up))"
  show ?thesis
  proof (cases "rt_emergency_active rt")
    case True
    then show ?thesis
      by (intro that [of ?up "[]"]) (simp_all add: supervise_safety_def Let_def assms)
  next
    case False
    then show ?thesis
      by (intro that [of ?told "[Audit_Lifecycle ''emergency_override'' ?detail]"])
        (simp_all add: supervise_safety_def Let_def assms record_lifecycle_def publish_def
          record_audit_def count_intervention_def upd_stats_def)
  qed
qed

text \<open>C11. In an emergency, while automation is switched on, each supervisor pass raises the flag and writes every
  writable duty control of an enabled device of the type fan or pump that is below the emergency duty or of
  unknown duty: each such write is in the audit under the safety origin, whether the hardware took it or not.
  (With automation off a pass does nothing, \<open>no_supervision_without_automation\<close>.)\<close>
theorem emergency_reaches_every_channel:
  assumes "table_ok (rt_table rt)" and "st_automation_enabled (rt_settings rt)"
    and "emergency_override (st_safety (rt_settings rt)) (hottest_temperature rt) = Some duty"
    and "r \<in> set (rt_table rt)" "dr_enabled r" "dev_type (dr_device r) \<in> {Fan, Pump}"
    and "c \<in> set (dev_capabilities (dr_device r))" "is_duty_control c" "cap_writable c"
    and "below rt duty (dr_id r, cap_id c)"
  shows "rt_emergency_active (supervise_safety rt)
    \<and> (\<exists>new en. rt_audit (supervise_safety rt) = rt_audit rt @ new \<and> en \<in> set new
        \<and> audit_write_of (dr_id r) (cap_id c) (Number duty)
            (SafetyOrigin [Txt ''emergency temperature threshold'']) en)"
proof -
  have t: "(dr_id r, cap_id c) \<in> set (emergency_targets rt)"
    using assms(4-9) by (auto simp: emergency_targets_def cooling_channels_def cooling_devices_def of_type_def)
  then obtain x where x: "lookup_target rt (dr_id r) (cap_id c) = Inr x"
    using emergency_targets_known [OF assms(1)] by blast
  have "emergency_targets rt \<noteq> []" using t by auto
  from assms(2,3) this obtain rt1 pre where
    s: "supervise_safety rt = fold (emergency_write duty) (emergency_targets rt) rt1"
    and rt1: "rt_emergency_active rt1" "rt_audit rt1 = rt_audit rt @ pre"
      "rt_store rt1 = rt_store rt" "rt_table rt1 = rt_table rt"
    by (rule supervise_emergency)
  have "below rt1 duty (dr_id r, cap_id c)" "lookup_target rt1 (dr_id r) (cap_id c) = Inr x"
    using assms(10) x rt1 by (simp_all add: below_def lookup_target_def)
  from emergency_writes_reach [OF t this] rt1(2) have
    "\<exists>new en. rt_audit (supervise_safety rt) = rt_audit rt @ new \<and> en \<in> set new
      \<and> audit_write_of (dr_id r) (cap_id c) (Number duty)
            (SafetyOrigin [Txt ''emergency temperature threshold'']) en"
    by (fastforce simp: s)
  moreover have "rt_emergency_active (supervise_safety rt)"
    using emergency_writes_frame [of rt1 duty "emergency_targets rt"] rt1(1)
    by (simp add: s same_config_def)
  ultimately show ?thesis by blast
qed

subsection \<open>The exit path\<close>

definition all_channels :: "control_release \<Rightarrow> released_channel list" where
  "all_channels r = cl_confirmed r @ cl_unconfirmed r @ cl_rejected r @ cl_failed r @ cl_simulated r"

definition channel_key :: "released_channel \<Rightarrow> string \<times> string" where
  "channel_key c = (rl_ch_device_id c, rl_ch_capability c)"

definition target_key :: "string \<times> string \<times> string \<times> f64 \<Rightarrow> string \<times> string" where
  "target_key = (\<lambda>(d, _, c, _). (d, c))"

lemma attempted_all: "attempted r = length (all_channels r)"
  by (simp add: attempted_def all_channels_def)

lemma all_channels_push:
  "mset (all_channels (push_channel r c)) = add_mset c (mset (all_channels r))"
  by (simp add: all_channels_def push_channel_def split: write_status.split)

lemma all_channels_push_failure:
  "mset (all_channels (push_failure r c code)) = add_mset c (mset (all_channels r))"
  by (simp add: all_channels_def push_failure_def)

lemma release_report:
  assumes "write_with_origin allow rt d c v org = (rt', Inr rep)"
  shows "wr_device_id rep = d \<and> wr_capability rep = c"
  using assms by (elim write_with_origin_split) (auto dest: report_of_attempt)

lemma release_channel_step:
  assumes "release_channel (d, name, c, duty) (rt, rel) = (rt', rel')" and "buckets_ok rel"
  shows "same_config rt rt' \<and> buckets_ok rel'
    \<and> image_mset channel_key (mset (all_channels rel'))
        = add_mset (d, c) (image_mset channel_key (mset (all_channels rel)))
    \<and> (st_dry_run (rt_settings rt) \<longrightarrow> rt_world rt' = rt_world rt)"
proof -
  obtain rt1 res where w: "write_with_origin False rt d c (Number duty) Shutdown = (rt1, res)" by fastforce
  have f: "same_config rt rt1"
    using write_with_origin_frame [of rt False d c "Number duty" Shutdown] by (simp add: w)
  have dry: "st_dry_run (rt_settings rt) \<longrightarrow> rt_world rt1 = rt_world rt"
    using dry_write [of rt False d c "Number duty" Shutdown] by (simp add: w)
  show ?thesis
  proof (cases res)
    case (Inl e)
    with assms w f dry show ?thesis
      by (auto simp: release_channel_def all_channels_push_failure channel_key_def
          intro!: buckets_ok_push_failure)
  next
    case (Inr rep)
    then have "wr_device_id rep = d" "wr_capability rep = c"
      using release_report [OF w [unfolded Inr]] by simp_all
    with Inr assms w f dry show ?thesis
      by (auto simp: release_channel_def all_channels_push channel_key_def intro!: buckets_ok_push)
  qed
qed

lemma release_channels:
  assumes "fold release_channel xs (rt, rel) = (rt', rel')" and "buckets_ok rel"
  shows "same_config rt rt' \<and> buckets_ok rel'
    \<and> image_mset channel_key (mset (all_channels rel'))
        = mset (map target_key xs) + image_mset channel_key (mset (all_channels rel))
    \<and> (st_dry_run (rt_settings rt) \<longrightarrow> rt_world rt' = rt_world rt)"
  using assms
proof (induction xs arbitrary: rt rel)
  case (Cons x xs)
  obtain d name c duty where x: "x = (d, name, c, duty)" by (cases x) auto
  obtain rt1 rel1 where s: "release_channel x (rt, rel) = (rt1, rel1)" by fastforce
  have 1: "same_config rt rt1" "buckets_ok rel1"
    "image_mset channel_key (mset (all_channels rel1))
        = add_mset (d, c) (image_mset channel_key (mset (all_channels rel)))"
    "st_dry_run (rt_settings rt) \<longrightarrow> rt_world rt1 = rt_world rt"
    using release_channel_step [OF s [unfolded x] Cons.prems(2)] by auto
  moreover have "fold release_channel xs (rt1, rel1) = (rt', rel')" using Cons.prems(1) s by simp
  note Cons.IH [OF this 1(2)]
  ultimately show ?case
    by (auto simp: x target_key_def same_config_def)
qed simp

lemma buckets_ok_default [simp]: "buckets_ok default_release"
  by (simp add: buckets_ok_def default_release_def)

text \<open>The channels of a table that the exit path owes a fail-safe write, read off the table alone.\<close>

definition duty_channels :: "device_table \<Rightarrow> (string \<times> string) set" where
  "duty_channels t = {(dr_id r, cap_id c) | r c. r \<in> set t \<and> dr_enabled r \<and> c \<in> set (dev_capabilities (dr_device r))
     \<and> is_duty_control c \<and> cap_writable c}"

definition table_valid :: "device_table \<Rightarrow> bool" where
  "table_valid t \<longleftrightarrow> table_ok t \<and> (\<forall>r \<in> set t. validate_device (dr_device r) = Inr ())"

lemma targets_once:
  assumes "table_valid (rt_table rt)"
  shows "set (map target_key (release_targets rt)) = duty_channels (rt_table rt)"
    and "distinct (map target_key (release_targets rt))"
proof -
  let ?keys = "\<lambda>r. map (\<lambda>c. (dr_id r, cap_id c)) (filter (\<lambda>c. is_duty_control c \<and> cap_writable c) (dev_capabilities (dr_device r)))"
  have k: "map target_key (release_targets rt) = concat (map ?keys (filter dr_enabled (releasable_devices (rt_table rt))))"
    by (simp add: release_targets_def map_concat target_key_def comp_def)
  show "set (map target_key (release_targets rt)) = duty_channels (rt_table rt)"
    unfolding k by (auto simp: duty_channels_def releasable_devices_def list_ex_iff)
  have one: "distinct (?keys r)" if "distinct (map cap_id (dev_capabilities (dr_device r)))" for r
  proof -
    have "distinct (map (Pair (dr_id r)) (map cap_id (filter (\<lambda>c. is_duty_control c \<and> cap_writable c) (dev_capabilities (dr_device r)))))"
      using distinct_map_filter [OF that] by (subst distinct_map) (simp add: inj_on_def)
    then show ?thesis by (simp add: comp_def)
  qed
  have "distinct (concat (map ?keys (filter P (filter Q t))))"
    if "distinct (map dr_id t)" "\<forall>r \<in> set t. distinct (map cap_id (dev_capabilities (dr_device r)))" for P Q t
    using that
  proof (induction t)
    case (Cons r t)
    then have "(i, x) \<notin> set (concat (map ?keys (filter P (filter Q t))))" if "i = dr_id r" for i x
      using that by auto
    then have "set (?keys r) \<inter> set (concat (map ?keys (filter P (filter Q t)))) = {}" by auto
    then show ?case using Cons one [of r] by simp
  qed simp
  then show "distinct (map target_key (release_targets rt))"
    using assms unfolding k releasable_devices_def
    by (simp add: table_valid_def table_ok_def sorted_keys_distinct validate_device_ok)
qed

text \<open>The runtime after the first \<open>k\<close> of the exit writes, and what stands behind an entry of the outcome: a
  report, which is in the audit and says what the adapter said then, or an error, which names no value.\<close>

definition exit_state :: "'w runtime \<Rightarrow> nat \<Rightarrow> 'w runtime" where
  "exit_state rt k = fst (fold release_channel (take k (release_targets rt)) (rt, default_release))"

definition accounted :: "'w runtime \<Rightarrow> audit_entry list \<Rightarrow> released_channel \<Rightarrow> bool" where
  "accounted r new ch \<longleftrightarrow> (case snd (write_with_origin False r (rl_ch_device_id ch) (rl_ch_capability ch) (Number (rl_ch_duty ch)) Shutdown) of
     Inr rep \<Rightarrow> vouched r rep \<and> Audit_Write rep \<in> set new \<and> wr_origin rep = Shutdown
       \<and> rl_ch_status ch = wr_status rep \<and> rl_ch_applied ch = wr_applied rep
   | Inl e \<Rightarrow> rl_ch_status ch = Write_Rejected \<and> rl_ch_applied ch = None \<and> rl_ch_detail ch = Some (error_display e))"

lemma release_channel_entry:
  assumes "release_channel (d, name, c, duty) (rt, rel) = (rt', rel')"
  shows "\<exists>ch new. mset (all_channels rel') = add_mset ch (mset (all_channels rel)) \<and> rt_audit rt' = rt_audit rt @ new
    \<and> accounted rt new ch \<and> channel_key ch = (d, c) \<and> rl_ch_duty ch = duty"
proof -
  obtain r res where w: "write_with_origin False rt d c (Number duty) Shutdown = (r, res)" by fastforce
  obtain new where new: "rt_audit r = rt_audit rt @ new"
    using write_audit_grows [where allow = False and rt = rt and d = d and c = c and v = "Number duty" and org = Shutdown]
    by (auto simp: w)
  show ?thesis
  proof (cases res)
    case (Inl e)
    with assms w new show ?thesis
      by (auto simp: release_channel_def all_channels_push_failure channel_key_def accounted_def)
  next
    case (Inr rep)
    have a: "rt_audit r = rt_audit rt @ [Audit_Write rep]" "wr_device_id rep = d" "wr_capability rep = c" "wr_origin rep = Shutdown"
      using writes_are_accounted [where allow = False and rt = rt and d = d and c = c and v = "Number duty" and org = Shutdown]
      by (simp_all add: w Inr)
    with assms w Inr write_vouched [OF w [unfolded Inr]] show ?thesis
      by (auto simp: release_channel_def all_channels_push channel_key_def accounted_def)
  qed
qed

lemma release_entries:
  assumes "fold release_channel (take n (release_targets rt)) (rt, default_release) = (rt', rel)" "n \<le> length (release_targets rt)"
  shows "\<exists>new. rt_audit rt' = rt_audit rt @ new \<and> (\<forall>ch \<in> set (all_channels rel). (\<exists>k < n. accounted (exit_state rt k) new ch)
    \<and> (\<exists>name. (rl_ch_device_id ch, name, rl_ch_capability ch, rl_ch_duty ch) \<in> set (release_targets rt)))"
  using assms
proof (induction n arbitrary: rt' rel)
  case 0
  then show ?case by (auto simp: all_channels_def default_release_def)
next
  case (Suc n)
  let ?xs = "release_targets rt"
  obtain r rel0 where p: "fold release_channel (take n ?xs) (rt, default_release) = (r, rel0)" by fastforce
  then have e: "exit_state rt n = r" by (simp add: exit_state_def)
  obtain d name c duty where x: "?xs ! n = (d, name, c, duty)" by (cases "?xs ! n") auto
  then have m: "(d, name, c, duty) \<in> set ?xs" using Suc.prems(2) by (metis Suc_le_eq nth_mem)
  have "release_channel (d, name, c, duty) (r, rel0) = (rt', rel)"
    using Suc.prems x p by (simp add: take_Suc_conv_app_nth)
  from release_channel_entry [OF this] obtain ch n2 where ch: "mset (all_channels rel) = add_mset ch (mset (all_channels rel0))"
    "rt_audit rt' = rt_audit r @ n2" "accounted r n2 ch" "channel_key ch = (d, c)" "rl_ch_duty ch = duty" by blast
  obtain n1 where n1: "rt_audit r = rt_audit rt @ n1" "\<forall>ch \<in> set (all_channels rel0). (\<exists>k < n. accounted (exit_state rt k) n1 ch)
    \<and> (\<exists>name. (rl_ch_device_id ch, name, rl_ch_capability ch, rl_ch_duty ch) \<in> set ?xs)"
    using Suc.IH [OF p] Suc.prems(2) by auto
  have mono: "accounted q n1 y \<Longrightarrow> accounted q (n1 @ n2) y" "accounted q n2 y \<Longrightarrow> accounted q (n1 @ n2) y" for q y
    by (auto simp: accounted_def split: sum.splits)
  have "set (all_channels rel) = insert ch (set (all_channels rel0))" using ch(1) by (metis set_mset_add_mset_insert set_mset_mset)
  moreover have "\<exists>k < Suc n. accounted (exit_state rt k) (n1 @ n2) y" if "y \<in> set (all_channels rel0)" for y
    using n1(2) that mono(1) less_SucI by blast
  moreover have "\<exists>k < Suc n. accounted (exit_state rt k) (n1 @ n2) ch" using mono(2) [OF ch(3)] e by blast
  moreover have "\<exists>name. (rl_ch_device_id ch, name, rl_ch_capability ch, rl_ch_duty ch) \<in> set ?xs"
    using ch(4,5) m by (auto simp: channel_key_def)
  ultimately show ?case using n1 ch(2) by (intro exI [of _ "n1 @ n2"]) auto
qed

text \<open>C22. The exit path accounts for every channel it owes a fail-safe write: each writable duty control of an
  enabled device of the table (valid, as every reachable runtime's is) stands in the outcome's buckets
  exactly once, with the fail-safe duty of its device's type. What is said of it is what its write came to
  when its turn was: the status and the value the adapter reported then, which the audit has as an entry
  of the shutdown, \<open>simulated\<close> in a dry run, or a refusal or failure without a value; and it stands in the
  bucket that status names. So nothing is called confirmed that the adapter did not report as applied.\<close>
theorem release_accounts_for_every_channel:
  assumes "sp_relinquish_on_exit (st_safety (rt_settings rt))" and "table_valid (rt_table rt)"
    and "release_control rt = (rt', rel)"
  shows "set (map channel_key (all_channels rel)) = duty_channels (rt_table rt)
    \<and> distinct (map channel_key (all_channels rel))
    \<and> (\<forall>ch \<in> set (all_channels rel). \<exists>r \<in> set (rt_table rt). dr_id r = rl_ch_device_id ch
         \<and> rl_ch_duty ch = fail_safe_duty (st_safety (rt_settings rt)) (dev_type (dr_device r)))
    \<and> (\<exists>new. rt_audit rt' = rt_audit rt @ new \<and> (\<forall>ch \<in> set (all_channels rel). \<exists>k. accounted (exit_state rt k) new ch))
    \<and> buckets_ok rel"
proof -
  have f: "fold release_channel (release_targets rt) (rt, default_release) = (rt', rel)"
    using assms by (simp add: release_control_def)
  have d: "all_channels default_release = []" by (simp add: all_channels_def default_release_def)
  from release_channels [OF f] have
    m: "mset (map channel_key (all_channels rel)) = mset (map target_key (release_targets rt))"
    and b: "buckets_ok rel" by (simp_all add: d)
  obtain new where new: "rt_audit rt' = rt_audit rt @ new" "\<forall>ch \<in> set (all_channels rel). (\<exists>k. accounted (exit_state rt k) new ch)
    \<and> (\<exists>name. (rl_ch_device_id ch, name, rl_ch_capability ch, rl_ch_duty ch) \<in> set (release_targets rt))"
    using release_entries [of "length (release_targets rt)" rt rt' rel] f by auto blast
  have "\<exists>r \<in> set (rt_table rt). dr_id r = i \<and> duty = fail_safe_duty (st_safety (rt_settings rt)) (dev_type (dr_device r))"
    if "(i, name, c, duty) \<in> set (release_targets rt)" for i name c duty
    using that by (auto simp: release_targets_def releasable_devices_def)
  then show ?thesis using new b targets_once [OF assms(2)] mset_eq_setD [OF m] mset_eq_imp_distinct_iff [OF m] by blast
qed

lemma supervise_dry:
  assumes "st_dry_run (rt_settings rt)"
  shows "rt_world (supervise_safety rt) = rt_world rt"
proof -
  have step: "rt_world (fold (emergency_write duty) xs r) = rt_world r"
    if "st_dry_run (rt_settings r)" for r :: "'a runtime" and duty xs
    using that
  proof (induction xs arbitrary: r)
    case (Cons x xs)
    have "rt_world (emergency_write duty x r) = rt_world r"
      using dry_write [OF Cons.prems] by (auto simp: emergency_write_def split: prod.split option.split)
    moreover have "rt_settings (emergency_write duty x r) = rt_settings r"
      using emergency_write_frame [of r duty x] by (simp add: same_config_def)
    ultimately show ?case using Cons by simp
  qed simp
  show ?thesis using assms
    by (auto simp: supervise_safety_def Let_def record_lifecycle_def count_intervention_def upd_stats_def
        step publish_def record_audit_def split: option.split)
qed

text \<open>In a dry run nothing reaches the hardware: not a manual or automatic write, not the fail-safe
  write after a failure, not the emergency supervisor, and not the exit path's release.\<close>
theorem dry_run_touches_nothing:
  assumes "st_dry_run (rt_settings rt)"
  shows "rt_world (fst (write_with_origin allow rt d c v org)) = rt_world rt
    \<and> rt_world (supervise_safety rt) = rt_world rt
    \<and> rt_world (fst (release_control rt)) = rt_world rt"
proof -
  obtain rt' rel where "fold release_channel (release_targets rt) (rt, default_release) = (rt', rel)"
    by fastforce
  with release_channels [OF this] assms have "rt_world (fst (release_control rt)) = rt_world rt"
    by (simp add: release_control_def)
  with dry_write [OF assms] supervise_dry [OF assms] show ?thesis by blast
qed

subsection \<open>The invariant of the runtime\<close>

definition runtime_ok :: "'w runtime \<Rightarrow> bool" where
  "runtime_ok rt \<longleftrightarrow> sane_settings (rt_settings rt) \<and> table_valid (rt_table rt)
     \<and> distinct (map ad_id (rt_adapters rt))
     \<and> ss_history_limit (rt_store rt) = st_history_points (rt_settings rt)"

lemma runtime_ok_primitives [simp]:
  "runtime_ok (publish ev rt) = runtime_ok rt" "runtime_ok (record_audit a rt) = runtime_ok rt"
  "runtime_ok (record_lifecycle x y rt) = runtime_ok rt" "runtime_ok (upd_stats f rt) = runtime_ok rt"
  "runtime_ok (audit_if b x y rt) = runtime_ok rt"
  "runtime_ok (rt\<lparr>rt_world := w\<rparr>) = runtime_ok rt" "runtime_ok (rt\<lparr>rt_health := h\<rparr>) = runtime_ok rt"
  "runtime_ok (rt\<lparr>rt_clock := k\<rparr>) = runtime_ok rt" "runtime_ok (rt\<lparr>rt_running := b\<rparr>) = runtime_ok rt"
  "runtime_ok (rt\<lparr>rt_started_at_ms := k\<rparr>) = runtime_ok rt"
  "runtime_ok (rt\<lparr>rt_emergency_active := b\<rparr>) = runtime_ok rt"
  "runtime_ok (rt\<lparr>rt_adapter_last_poll := m\<rparr>) = runtime_ok rt"
  by (simp_all add: runtime_ok_def publish_def record_audit_def record_lifecycle_def upd_stats_def
      audit_if_def)

lemma runtime_ok_same: "same_config rt rt' \<Longrightarrow> runtime_ok rt' = runtime_ok rt"
  by (simp add: runtime_ok_def same_config_def)

lemma runtime_ok_table:
  "runtime_ok rt \<Longrightarrow> table_valid t \<Longrightarrow> runtime_ok (rt\<lparr>rt_table := t\<rparr>)"
  by (simp add: runtime_ok_def)

lemma runtime_ok_store:
  "runtime_ok rt \<Longrightarrow> ss_history_limit st = ss_history_limit (rt_store rt) \<Longrightarrow> runtime_ok (rt\<lparr>rt_store := st\<rparr>)"
  by (simp add: runtime_ok_def)

lemma runtime_ok_publishes [simp]: "runtime_ok (fold (\<lambda>x. publish (f x)) xs rt) = runtime_ok rt"
  by (induction xs arbitrary: rt) auto

lemma store_limit_update [simp]: "ss_history_limit (fst (store_update st s units)) = ss_history_limit st"
  by (simp add: store_update_def)

text \<open>The table.\<close>

lemma table_valid_status: "table_valid t \<Longrightarrow> st \<noteq> Status_Disabled \<Longrightarrow> table_valid (table_set_status t i st w now)"
  by (auto simp: table_valid_def table_set_status_ok) (auto simp: table_set_status_def status_record_def Let_def
      dest!: in_update_key [THEN iffD1])

lemma table_valid_steps:
  assumes "table_valid t"
  shows "table_valid (apply_state_status t s now)" "table_valid (mark_offline t i w now)"
    "table_valid (mark_adapter_offline t a w now)"
proof -
  have off: "table_valid (mark_offline t i w now)" if "table_valid t" for t i
    using that by (simp add: mark_offline_def table_valid_status)
  then show "table_valid (mark_offline t i w now)" using assms .
  show "table_valid (apply_state_status t s now)"
    using assms by (simp add: apply_state_status_def state_status_def table_valid_status)
  show "table_valid (mark_adapter_offline t a w now)"
    unfolding mark_adapter_offline_def by (rule fold_keeps) (use assms off in auto)
qed

lemma upsert_devices: "dr_device ` set (fst (table_upsert t d en now)) \<subseteq> insert d (dr_device ` set t)"
  by (auto simp: table_upsert_def seen_again_def Let_def device_eq_def split: option.split
      dest!: in_sorted_put)

lemma upsert_all_devices:
  "dr_device ` set (fst (upsert_all s now ds (t, diff))) \<subseteq> set ds \<union> dr_device ` set t"
proof (induction ds arbitrary: t diff)
  case (Cons d ds)
  obtain t1 u where u: "table_upsert t d (device_enabled s (dev_id d)) now = (t1, u)" by fastforce
  have t1: "dr_device ` set t1 \<subseteq> insert d (dr_device ` set t)"
    using upsert_devices [of t d "device_enabled s (dev_id d)" now] by (simp add: u)
  have "dr_device ` set (fst (upsert_all s now ds (t1, diff'))) \<subseteq> set (d # ds) \<union> dr_device ` set t" for diff'
    by (rule subset_trans [OF Cons.IH]) (use t1 in auto)
  then show ?case by (cases u) (simp_all add: u)
qed simp

lemma table_valid_reconcile:
  assumes "table_valid t" and "\<forall>d \<in> set ds. validate_device d = Inr ()"
  shows "table_valid (fst (reconcile t a ds s now))"
proof -
  obtain t1 diff1 where u: "upsert_all s now ds (t, empty_diff) = (t1, diff1)" by fastforce
  have "\<forall>r \<in> set t1. validate_device (dr_device r) = Inr ()"
    using upsert_all_devices [of s now ds t empty_diff] assms by (fastforce simp: u table_valid_def)
  then have "\<forall>r \<in> set (fold (\<lambda>(i, _) t. table_remove t i) gs t1). validate_device (dr_device r) = Inr ()" for gs
    by (rule fold_keeps [rotated]) (auto simp: table_remove_def remove_key_def)
  then show ?thesis
    using assms(1) reconcile_ok [of t a ds s now]
    by (simp add: table_valid_def) (simp add: reconcile_def u Let_def)
qed

text \<open>Discovery hands on valid devices only.\<close>

definition devices_valid :: "discovery_outcome \<Rightarrow> bool" where
  "devices_valid out \<longleftrightarrow> (\<forall>(a, ds) \<in> set (do_devices out). \<forall>d \<in> set ds. validate_device d = Inr ())"

lemma devices_valid_simps [simp]:
  "devices_valid (out\<lparr>do_statuses := x\<rparr>) = devices_valid out"
  "devices_valid (out\<lparr>do_errors := e\<rparr>) = devices_valid out"
  "devices_valid (out\<lparr>do_statuses := x, do_errors := e\<rparr>) = devices_valid out"
  "devices_valid \<lparr>do_statuses = [], do_devices = [], do_errors = []\<rparr>"
  by (simp_all add: devices_valid_def)

lemma devices_valid_put:
  "devices_valid out \<Longrightarrow> devices_valid (out\<lparr>do_statuses := x,
     do_devices := sorted_put fst (i, validate_devices ds) (do_devices out)\<rparr>)"
  by (auto simp: devices_valid_def validate_devices_def dest!: in_sorted_put dest: keep_valid_in)

lemma discover_adapter_valid:
  "devices_valid out \<Longrightarrow> devices_valid (fst (discover_adapter usable now (a, st) (out, h, w)))"
  by (simp add: discover_adapter_def Let_def devices_valid_put split: option.split prod.split sum.split)

lemma discover_all_valid:
  assumes "discover_all s now as hw = (out, h, w)"
  shows "devices_valid out"
proof -
  obtain ps h1 w1 where p: "probe_all s now as hw = (ps, h1, w1)" by (metis prod_cases3)
  have "devices_valid (fst (fold (discover_adapter usable now) ps
      (\<lparr>do_statuses = [], do_devices = [], do_errors = []\<rparr>, h1, w1)))" for usable
    by (rule fold_keeps [where P = "\<lambda>oh. devices_valid (fst oh)"])
      (auto simp: discover_adapter_valid split_paired_all)
  then show ?thesis using assms by (simp add: discover_all_def p Let_def) (metis fst_conv)
qed

text \<open>The operations.\<close>

lemma write_ok: "runtime_ok rt \<Longrightarrow> runtime_ok (fst (write_with_origin allow rt d c v org))"
  using runtime_ok_same [OF write_with_origin_frame] by blast

lemma supervise_ok: "runtime_ok rt \<Longrightarrow> runtime_ok (supervise_safety rt)"
  by (auto simp: supervise_safety_def Let_def runtime_ok_same [OF emergency_writes_frame]
      count_intervention_def split: option.split)

lemma poll_result_ok:
  "runtime_ok (fst x) \<Longrightarrow> runtime_ok (fst (poll_result units y x))"
  by (auto simp: poll_result_def Let_def split_def split: sum.split
      intro!: runtime_ok_table runtime_ok_store table_valid_steps)
    (auto simp: runtime_ok_def)

lemma poll_adapter_ok:
  "runtime_ok (fst x) \<Longrightarrow> runtime_ok (fst (poll_adapter targets units a x))"
  by (auto simp: poll_adapter_def Let_def split_def
      intro!: fold_keeps [where P = "\<lambda>x. runtime_ok (fst x)"] poll_result_ok)

lemma poll_once_ok: "runtime_ok rt \<Longrightarrow> runtime_ok (fst (poll_once rt))"
  by (auto simp: poll_once_def Let_def split_def
      intro!: supervise_ok fold_keeps [where P = "\<lambda>x. runtime_ok (fst x)"] poll_adapter_ok)

lemma reconcile_adapter_ok:
  assumes "runtime_ok (fst x)" and "\<forall>d \<in> set (snd ads). validate_device d = Inr ()"
  shows "runtime_ok (fst (reconcile_adapter ads x))"
  using assms table_valid_reconcile [of "rt_table (fst x)" "snd ads" "fst ads" "rt_settings (fst x)" "rt_clock (fst x)"]
  by (cases x; cases ads) (auto simp: reconcile_adapter_def split_def Let_def runtime_ok_def)

lemma reconcile_adapters_ok:
  "runtime_ok (fst x) \<Longrightarrow> \<forall>ads \<in> set xs. \<forall>d \<in> set (snd ads). validate_device d = Inr ()
     \<Longrightarrow> runtime_ok (fst (fold reconcile_adapter xs x))"
  by (induction xs arbitrary: x) (auto simp: reconcile_adapter_ok)

lemma discovery_steps_ok:
  "runtime_ok rt \<Longrightarrow> runtime_ok (offline_unusable st rt)"
  "runtime_ok rt \<Longrightarrow> runtime_ok (seed_state d rt)"
  "runtime_ok rt \<Longrightarrow> runtime_ok (announce_added i rt)"
  "runtime_ok rt \<Longrightarrow> runtime_ok (forget_removed g rt)"
  by (auto simp: offline_unusable_def seed_state_def announce_added_def forget_removed_def split_def
      store_remove_def intro!: runtime_ok_table runtime_ok_store table_valid_steps split: option.split)
    (simp add: runtime_ok_def)

lemma fold_runtime_ok:
  "(\<And>x r. runtime_ok r \<Longrightarrow> runtime_ok (f x r)) \<Longrightarrow> runtime_ok r \<Longrightarrow> runtime_ok (fold f xs r)"
  by (rule fold_keeps)

lemma refresh_ok:
  assumes "runtime_ok rt"
  shows "runtime_ok (fst (refresh_devices rt))"
proof -
  obtain out h w where d: "discover_all (rt_settings rt) (rt_clock rt) (rt_adapters rt) (rt_health rt, rt_world rt)
    = (out, h, w)" by (metis prod_cases3)
  have valid: "\<forall>ads \<in> set (do_devices out). \<forall>d \<in> set (snd ads). validate_device d = Inr ()"
    using discover_all_valid [OF d] by (auto simp: devices_valid_def)
  let ?rt1 = "fold offline_unusable (do_statuses out) (rt\<lparr>rt_health := h, rt_world := w\<rparr>)"
  have "runtime_ok ?rt1" using assms by (intro fold_runtime_ok discovery_steps_ok) simp_all
  moreover obtain rt2 diff seeds where
    r: "fold reconcile_adapter (do_devices out) (?rt1, empty_diff, []) = (rt2, diff, seeds)" by (metis prod_cases3)
  ultimately have "runtime_ok rt2" using reconcile_adapters_ok [OF _ valid, of "(?rt1, empty_diff, [])"] by simp
  then have "runtime_ok (fold forget_removed (rd_removed diff) (fold announce_added (rd_added diff)
      (fold seed_state seeds rt2)))"
    by (intro fold_runtime_ok discovery_steps_ok)
  then show ?thesis by (simp add: refresh_devices_def d r Let_def split_def)
qed

lemma start_ok: "runtime_ok rt \<Longrightarrow> runtime_ok (runtime_start rt)"
  by (auto simp: runtime_start_def Let_def split_def intro!: poll_once_ok refresh_ok)

lemma shutdown_outcomes_ok:
  "fold shutdown_outcome outs x = (rt', rel) \<Longrightarrow> runtime_ok (fst x) \<Longrightarrow> runtime_ok rt'"
proof (induction outs arbitrary: x)
  case (Cons out outs)
  have "runtime_ok (fst (shutdown_outcome out x))"
    using Cons.prems(2) by (cases x) (auto simp: shutdown_outcome_def split: option.split)
  with Cons show ?case by auto
qed simp

lemma release_ok: "runtime_ok rt \<Longrightarrow> runtime_ok (fst (release_control rt))"
  using release_channels [of "release_targets rt" rt default_release]
  by (cases "fold release_channel (release_targets rt) (rt, default_release)")
    (auto simp: release_control_def runtime_ok_same)

lemma shutdown_ok:
  assumes "runtime_ok rt"
  shows "runtime_ok (fst (runtime_shutdown rt))"
proof -
  obtain rt1 rel1 where r: "release_control (rt\<lparr>rt_running := False\<rparr>) = (rt1, rel1)" by fastforce
  then have 1: "runtime_ok rt1" using release_ok [of "rt\<lparr>rt_running := False\<rparr>"] assms by simp
  show ?thesis
    by (simp add: runtime_shutdown_def Let_def r assms split: prod.split)
      (intro allI impI, elim exE, erule shutdown_outcomes_ok, simp add: 1)
qed

lemma update_settings_ok:
  assumes "runtime_ok rt" and "no_nan (st_safety (mutate (rt_settings rt)))"
  shows "runtime_ok (fst (update_settings saved mutate rt))"
  using assms(1) sanitise_settings_sane [OF assms(2)]
  by (auto simp: update_settings_def Let_def set_history_limit_def split: sum.split)
    (auto simp: runtime_ok_def sane_settings_def)

lemma runtime_new_ok:
  assumes "no_nan (st_safety s)"
  shows "runtime_ok (runtime_new s as clock w)"
  using sanitise_settings_sane [OF assms] deduplicate_ok [of "[]" as]
  by (auto simp: runtime_ok_def runtime_new_def Let_def deduplicate_adapters_def store_new_def
      table_valid_def table_ok_def sorted_keys_def) (auto simp: sane_settings_def)

lemma set_device_enabled_ok:
  assumes "runtime_ok rt"
  shows "runtime_ok (fst (set_device_enabled saved i en rt))"
proof -
  have t: "table_valid t" if e: "table_set_enabled (rt_table rt) d en = Inr t" for d t
  proof -
    have v: "table_valid (rt_table rt)" using assms by (simp add: runtime_ok_def)
    have u: "t = update_key dr_id d (enable_record en) (rt_table rt)"
      using e by (auto simp: table_set_enabled_def split: option.splits)
    have "dr_device (enable_record en r) = dr_device r" for r by (simp add: enable_record_def Let_def)
    with v table_set_enabled_ok [OF _ e] show ?thesis
      by (auto simp: table_valid_def u in_update_key)
  qed
  have "no_nan (st_safety (settings_set_device d en (rt_settings rt)))" for d
    using assms by (simp add: runtime_ok_def sane_settings_def settings_set_device_def sane_no_nan)
  then have "runtime_ok (fst (update_settings saved (settings_set_device d en) (rt\<lparr>rt_table := t\<rparr>)))"
    if "table_valid t" for d t
    using update_settings_ok [of "rt\<lparr>rt_table := t\<rparr>" "settings_set_device d en" saved]
      runtime_ok_table [OF assms that] by simp
  with t assms show ?thesis
    by (auto simp: set_device_enabled_def Let_def split: sum.split prod.split option.split)
       (metis fst_conv)+
qed

lemma set_adapter_enabled_ok:
  assumes "runtime_ok rt"
  shows "runtime_ok (fst (set_adapter_enabled saved i en rt))"
proof -
  have "no_nan (st_safety (settings_set_adapter a en (rt_settings rt)))" for a
    using assms by (simp add: runtime_ok_def sane_settings_def settings_set_adapter_def sane_no_nan)
  with assms show ?thesis
    by (auto simp: set_adapter_enabled_def update_settings_ok split: sum.split)
qed

text \<open>The runtime's life: operations in any order, while the clock and the hardware move on their own.\<close>

inductive runtime_reachable :: "'w runtime \<Rightarrow> bool" where
  boot: "no_nan (st_safety s) \<Longrightarrow> runtime_reachable (runtime_new s as clock w)"
| tick: "runtime_reachable rt \<Longrightarrow> runtime_reachable (rt\<lparr>rt_clock := k\<rparr>)"
| hardware: "runtime_reachable rt \<Longrightarrow> runtime_reachable (rt\<lparr>rt_world := w\<rparr>)"
| started: "runtime_reachable rt \<Longrightarrow> runtime_reachable (runtime_start rt)"
| discovered: "runtime_reachable rt \<Longrightarrow> runtime_reachable (fst (refresh_devices rt))"
| polled: "runtime_reachable rt \<Longrightarrow> runtime_reachable (fst (poll_once rt))"
| wrote: "runtime_reachable rt \<Longrightarrow> runtime_reachable (fst (write_with_origin allow rt d c v org))"
| configured: "runtime_reachable rt \<Longrightarrow> no_nan (st_safety (mutate (rt_settings rt)))
    \<Longrightarrow> runtime_reachable (fst (update_settings saved mutate rt))"
| device_switched: "runtime_reachable rt \<Longrightarrow> runtime_reachable (fst (set_device_enabled saved i en rt))"
| adapter_switched: "runtime_reachable rt \<Longrightarrow> runtime_reachable (fst (set_adapter_enabled saved i en rt))"
| stopped: "runtime_reachable rt \<Longrightarrow> runtime_reachable (fst (runtime_shutdown rt))"

text \<open>C15. In every reachable runtime the settings are within their bounds and the safety policy is
  usable, adapter ids are distinct, device ids are distinct and in order, every listed device is
  valid, and a device shows as disabled exactly when the user disabled it.\<close>
theorem runtime_invariant:
  assumes "runtime_reachable rt"
  shows "sane_settings (rt_settings rt) \<and> distinct (map ad_id (rt_adapters rt))
    \<and> sorted_keys dr_id (rt_table rt)
    \<and> (\<forall>r \<in> set (rt_table rt). validate_device (dr_device r) = Inr ()
        \<and> (dr_status r = Status_Disabled \<longleftrightarrow> \<not> dr_enabled r))"
proof -
  from assms have "runtime_ok rt"
    by induction (simp_all add: runtime_new_ok start_ok refresh_ok poll_once_ok write_ok update_settings_ok
        set_device_enabled_ok set_adapter_enabled_ok shutdown_ok)
  then show ?thesis
    by (auto simp: runtime_ok_def table_valid_def table_ok_def record_ok_def list_all_iff)
qed

subsection \<open>What supervision does not cover\<close>

text \<open>With automation switched off the supervisor writes nothing, however hot it gets.\<close>

lemma no_supervision_without_automation:
  "\<not> st_automation_enabled (rt_settings rt) \<Longrightarrow> supervise_safety rt = rt\<lparr>rt_emergency_active := False\<rparr>"
  by (simp add: supervise_safety_def Let_def)

text \<open>A cooling output of a device that is neither a fan nor a pump, such as a GPU's fan, is never forced.\<close>

lemma supervisor_skips_other_types:
  assumes "(d, c) \<in> set (emergency_targets rt)" and "table_ok (rt_table rt)"
    and "table_get (rt_table rt) d = Some r"
  shows "dev_type (dr_device r) = Fan \<or> dev_type (dr_device r) = Pump"
  using assms table_get_member [of "rt_table rt"]
  by (auto simp: emergency_targets_def cooling_channels_def cooling_devices_def table_ok_def)

text \<open>The hottest temperature ignores which devices are enabled.\<close>

lemma units_map_enable: "units_map (map (enable_record en) t) = units_map t"
proof -
  have "dr_device (enable_record en r) = dr_device r" for r by (simp add: enable_record_def Let_def)
  then show ?thesis by (simp add: units_map_def fold_map o_def)
qed

lemma disabled_devices_still_count:
  "hottest_temperature (rt\<lparr>rt_table := map (enable_record False) (rt_table rt)\<rparr>) = hottest_temperature rt"
  by (simp add: hottest_temperature_def units_map_enable)

subsection \<open>Witnesses\<close>

definition demo_hot :: "(string \<times> string \<times> val) list runtime" where
  "demo_hot = demo_runtime\<lparr>rt_table := [new_record demo_cpu True 1, new_record demo_fan True 1],
     rt_store := (store_new 180)\<lparr>ss_latest :=
       [with_reading (reading_ok TEMPERATURE_CORE (Number (Fin 95))) (new_state ''cpu.0'' 1)]\<rparr>\<rparr>"

lemmas demo_hot_simps = demo_runtime_simps default_settings_def default_policy_def

lemma demo_hot_temperature: "hottest_temperature demo_hot = Some (Fin 95)"
  by (simp add: hottest_temperature_def demo_hot_def store_all_def store_new_def with_reading_def new_state_def
      reading_celsius_def reading_ok_def reading_number_def reading_value_def units_map_def hotter_def
      demo_cpu_def demo_fan_def demo_device_simps cap_sensor_def is_temperature_def
      const_simps List.map_filter_simps)

theorem emergency_reaches_every_channel_witness:
  "rt_emergency_active (supervise_safety demo_hot)
   \<and> (\<exists>en \<in> set (rt_audit (supervise_safety demo_hot)). audit_write_of ''fan.0'' FAN_SPEED_PERCENT
        (Number (Fin 100)) (SafetyOrigin [Txt ''emergency temperature threshold'']) en)"
proof -
  have t: "rt_table demo_hot = [new_record demo_cpu True 1, new_record demo_fan True 1]"
    by (simp add: demo_hot_def)
  let ?r = "new_record demo_fan True 1"
  let ?c = "cap_actuator FAN_SPEED_PERCENT ''Speed'' Percent (Fin 0) (Fin 100)"
  have "rt_emergency_active (supervise_safety demo_hot)
    \<and> (\<exists>new en. rt_audit (supervise_safety demo_hot) = rt_audit demo_hot @ new \<and> en \<in> set new
        \<and> audit_write_of (dr_id ?r) (cap_id ?c) (Number (Fin 100))
            (SafetyOrigin [Txt ''emergency temperature threshold'']) en)"
  proof (rule emergency_reaches_every_channel)
    show "table_ok (rt_table demo_hot)"
      by (simp add: t table_ok_def sorted_keys_def record_ok_def) (simp add: new_record_def list_less_def)
    show "emergency_override (st_safety (rt_settings demo_hot)) (hottest_temperature demo_hot) = Some (Fin 100)"
      by (simp add: demo_hot_temperature) (simp add: demo_hot_def demo_hot_simps emergency_override_def is_emergency_def)
    show "below demo_hot (Fin 100) (dr_id ?r, cap_id ?c)"
      by (simp add: below_def demo_hot_def store_number_def store_latest_def store_new_def with_reading_def new_state_def)
  qed (simp_all add: t demo_hot_def demo_hot_simps demo_device_simps is_duty_control_def is_duty_unit_def)
  then show ?thesis by (auto simp: demo_device_simps)
qed

theorem release_accounts_for_every_channel_witness:
  "map channel_key (all_channels (snd (release_control demo_runtime))) = [(''fan.0'', FAN_SPEED_PERCENT)]
    \<and> map rl_ch_duty (all_channels (snd (release_control demo_runtime))) = [Fin 70]"
proof -
  obtain rt' rel where r: "release_control demo_runtime = (rt', rel)" by fastforce
  have t: "rt_table demo_runtime = [new_record demo_fan True 1]" by (simp add: demo_runtime_simps)
  have v: "table_valid (rt_table demo_runtime)"
    by (simp add: t table_valid_def table_ok_def sorted_keys_def record_ok_def)
      (simp add: new_record_def demo_device_simps validate_device_def)
  have c: "duty_channels (rt_table demo_runtime) = {(''fan.0'', FAN_SPEED_PERCENT)}"
    by (auto simp: t duty_channels_def demo_device_simps is_duty_control_def is_duty_unit_def)
  have s: "sp_relinquish_on_exit (st_safety (rt_settings demo_runtime))" by (simp add: demo_hot_simps)
  have k: "set (map channel_key (all_channels rel)) = {(''fan.0'', FAN_SPEED_PERCENT)}" "distinct (map channel_key (all_channels rel))"
    and dt: "\<forall>ch \<in> set (all_channels rel). rl_ch_duty ch = fail_safe_duty (st_safety (rt_settings demo_runtime)) Fan"
    using release_accounts_for_every_channel [OF s v r] c by (auto simp: t demo_device_simps)
  have one: "distinct xs \<Longrightarrow> set xs = {x} \<Longrightarrow> xs = [x]" for xs and x :: "string \<times> string"
    by (cases xs) (auto simp: subset_singleton_iff)
  have "map channel_key (all_channels rel) = [(''fan.0'', FAN_SPEED_PERCENT)]" using one k by blast
  moreover have "fail_safe_duty (st_safety (rt_settings demo_runtime)) Fan = Fin 70"
    by (simp add: demo_hot_simps fail_safe_duty_def duty_floor_def)
  ultimately show ?thesis using dt by (auto simp: r)
qed

theorem dry_run_touches_nothing_witness:
  "rt_world (fst (release_control (demo_runtime\<lparr>rt_settings := default_settings\<lparr>st_dry_run := True\<rparr>\<rparr>))) = []"
  using dry_run_touches_nothing [of "demo_runtime\<lparr>rt_settings := default_settings\<lparr>st_dry_run := True\<rparr>\<rparr>"]
  by (simp add: demo_runtime_simps)

theorem runtime_invariant_witness:
  "sane_settings (rt_settings (runtime_start (runtime_new default_settings [demo_adapter] 1 [])))"
  using runtime_invariant [OF runtime_reachable.started [OF runtime_reachable.boot
    [of default_settings "[demo_adapter]" 1 "[]"]]] demo_sane
  by (simp add: sane_settings_def sane_no_nan)

text \<open>
  A fail-safe write on exit goes through the ramp limit like any other, and is counted as confirmed
  at the fail-safe duty although the adapter was asked for less.
\<close>

definition demo_ramped :: "(string \<times> string \<times> val) list runtime" where
  "demo_ramped = demo_runtime\<lparr>rt_settings := default_settings\<lparr>st_safety := ramped_policy\<rparr>,
     rt_store := (store_new 180)\<lparr>ss_latest :=
       [with_reading (reading_ok FAN_SPEED_PERCENT (Number (Fin 40))) (new_state ''fan.0'' 1)]\<rparr>\<rparr>"

lemmas demo_ramped_simps = demo_ramped_def demo_hot_simps demo_device_simps with_reading_def new_state_def
  reading_ok_def store_new_def

lemma ramped_release_is_confirmed:
  "map (\<lambda>c. (rl_ch_duty c, rl_ch_applied c)) (cl_confirmed (snd (release_control demo_ramped)))
     = [(Fin 70, Some (Number (Fin 50)))]"
proof -
  have dbl: "is_dbl 10" "is_dbl 40" "is_dbl 50" "is_dbl 70" "is_dbl 30" by (rule is_dbl_numeral; simp)+
  have t: "release_targets demo_ramped = [(''fan.0'', ''Fan'', FAN_SPEED_PERCENT, Fin 70)]"
    by (simp add: release_targets_def demo_ramped_def demo_hot_simps releasable_devices_def demo_device_simps
        is_duty_control_def is_duty_unit_def fail_safe_duty_def duty_floor_def ramped_policy_def)
  have hot: "hottest_temperature (count_attempt demo_ramped) = None"
    by (simp add: hottest_temperature_def demo_ramped_simps count_attempt_def upd_stats_def store_all_def
        units_map_def reading_celsius_def is_temperature_def List.map_filter_simps)
  have current: "store_number (rt_store demo_ramped) ''fan.0'' FAN_SPEED_PERCENT = Some (Fin 40)"
    by (simp add: demo_ramped_simps store_number_def store_latest_def state_number_def get_reading_def
        reading_number_def reading_value_def)
  have gate: "\<exists>n. check_duty ramped_policy Fan (Fin 70) (Some (Fin 40)) None = Allow (Fin 50) (Some n)"
    using dbl by (simp add: ramped_policy_def default_policy_def check_duty_def emergency_override_def
        duty_floor_def ramp_limit_def Let_def Fin_minus Fin_plus Fin_times rnd_exact fclamp_def)
  then obtain n where n: "check_duty ramped_policy Fan (Fin 70) (Some (Fin 40)) None = Allow (Fin 50) (Some n)" ..
  have vet: "vet (count_attempt demo_ramped) demo_fan (hd (dev_capabilities demo_fan)) (Number (Fin 70))
      = (count_attempt demo_ramped, Inr (Number (Fin 50), True, Some n))"
    using n current
    by (simp add: vet_def hot demo_device_simps clamp_capability_def opt_fmin_def opt_fmax_def or_default_def
        is_duty_control_def is_duty_unit_def)
       (simp add: count_attempt_def upd_stats_def demo_ramped_simps or_default_def)
  have lookup: "lookup_target demo_ramped ''fan.0'' FAN_SPEED_PERCENT
      = Inr (demo_fan, hd (dev_capabilities demo_fan), True)"
    and ok: "refusal demo_fan (hd (dev_capabilities demo_fan)) True (Number (Fin 70)) = None"
    by (simp_all add: lookup_target_def demo_ramped_simps table_get_def ok_or_def refusal_def
        validate_capability_def)
  have live: "\<not> st_dry_run (rt_settings demo_ramped)"
    and adapter: "find_adapter (rt_adapters demo_ramped) (dev_adapter demo_fan) = Some demo_adapter"
    by (simp_all add: demo_ramped_simps find_adapter_def ad_id_def demo_adapter_def adapter_info_new_def)
  have same: "rt_settings (count_attempt demo_ramped) = rt_settings demo_ramped"
    "rt_adapters (count_attempt demo_ramped) = rt_adapters demo_ramped"
    by (simp_all add: count_attempt_def upd_stats_def)
  have "\<exists>rt' rep. write_with_origin False demo_ramped ''fan.0'' FAN_SPEED_PERCENT (Number (Fin 70)) Shutdown
      = (rt', Inr rep) \<and> wr_status rep = Write_Applied \<and> wr_applied rep = Some (Number (Fin 50))"
    by (simp add: write_with_origin_def write_attempt_def lookup ok vet live adapter same Let_def)
      (simp add: demo_adapter_def outcome_applied_def confirms_def Let_def)
  then show ?thesis
    by (auto simp: release_control_def t release_channel_def push_channel_def default_release_def)
      (simp add: demo_ramped_simps ramped_policy_def)
qed

end
