(* ===== verification/Runtime_World.thy ===== *)
theory Runtime_World
  imports Runtime_Safety
begin

section \<open>What the runtime does to the hardware over its whole life\<close>

text \<open>
  The runtime knows a provider only through the adapter trait. The locale \<open>sound_hardware\<close> is
  the contract a set of adapters keeps under one safety policy: a property \<open>I\<close> of the hardware
  that probing, enumerating, reading and shutting down keep, and that a write keeps when the
  value is no lower than the floor of the device's type; and a property \<open>P\<close> of every device it
  reports. Then no operation of the runtime, in any order, breaks \<open>I\<close>. The proof goes through
  the write path, the emergency supervisor, polling, discovery and the exit path.
\<close>

text \<open>A value the runtime may hand to an adapter.\<close>

definition floored :: "safety_policy \<Rightarrow> device \<Rightarrow> capability \<Rightarrow> val \<Rightarrow> bool" where
  "floored p d c u \<longleftrightarrow> cap_writable c \<and> dev_capability d (cap_id c) = Some c
     \<and> (is_duty_control c \<and> cap_values c = [] \<longrightarrow> (\<exists>x. u = Number x \<and> duty_floor p (dev_type d) \<le> x))"

definition known_devices :: "(device \<Rightarrow> bool) \<Rightarrow> device_table \<Rightarrow> bool" where
  "known_devices P t \<longleftrightarrow> (\<forall>r \<in> set t. P (dr_device r))"

definition under_control :: "'w adapter list \<Rightarrow> safety_policy \<Rightarrow> ('w \<Rightarrow> bool) \<Rightarrow> (device \<Rightarrow> bool)
    \<Rightarrow> 'w runtime \<Rightarrow> bool" where
  "under_control as p I P rt \<longleftrightarrow> runtime_ok rt \<and> rt_adapters rt = as \<and> st_safety (rt_settings rt) = p
     \<and> I (rt_world rt) \<and> known_devices P (rt_table rt)"

lemma under_control_primitives [simp]:
  "under_control as p I P (publish ev rt) = under_control as p I P rt"
  "under_control as p I P (record_audit a rt) = under_control as p I P rt"
  "under_control as p I P (record_lifecycle x y rt) = under_control as p I P rt"
  "under_control as p I P (upd_stats f rt) = under_control as p I P rt"
  "under_control as p I P (audit_if b x y rt) = under_control as p I P rt"
  "under_control as p I P (count_intervention rt) = under_control as p I P rt"
  "under_control as p I P (rt\<lparr>rt_health := h\<rparr>) = under_control as p I P rt"
  "under_control as p I P (rt\<lparr>rt_clock := k\<rparr>) = under_control as p I P rt"
  "under_control as p I P (rt\<lparr>rt_running := b\<rparr>) = under_control as p I P rt"
  "under_control as p I P (rt\<lparr>rt_started_at_ms := k\<rparr>) = under_control as p I P rt"
  "under_control as p I P (rt\<lparr>rt_emergency_active := b\<rparr>) = under_control as p I P rt"
  "under_control as p I P (rt\<lparr>rt_adapter_last_poll := m\<rparr>) = under_control as p I P rt"
  by (simp_all add: under_control_def count_intervention_def)
    (simp_all add: publish_def record_audit_def record_lifecycle_def upd_stats_def audit_if_def)

lemma under_control_world:
  "under_control as p I P rt \<Longrightarrow> I w \<Longrightarrow> under_control as p I P (rt\<lparr>rt_world := w\<rparr>)"
  by (simp add: under_control_def)

lemma under_control_table:
  "under_control as p I P rt \<Longrightarrow> table_valid t \<Longrightarrow> known_devices P t
     \<Longrightarrow> under_control as p I P (rt\<lparr>rt_table := t\<rparr>)"
  by (simp add: under_control_def runtime_ok_table)

lemma under_control_store:
  "under_control as p I P rt \<Longrightarrow> ss_history_limit st = ss_history_limit (rt_store rt)
     \<Longrightarrow> under_control as p I P (rt\<lparr>rt_store := st\<rparr>)"
  by (simp add: under_control_def runtime_ok_store)

lemma under_control_same:
  "same_config rt rt' \<Longrightarrow> I (rt_world rt') \<Longrightarrow> under_control as p I P rt \<Longrightarrow> under_control as p I P rt'"
  by (simp add: under_control_def runtime_ok_same) (simp add: same_config_def)

lemma under_control_publishes [simp]:
  "under_control as p I P (fold (\<lambda>x. publish (f x)) xs rt) = under_control as p I P rt"
  by (induction xs arbitrary: rt) auto

lemma known_devices_status:
  "known_devices P t \<Longrightarrow> known_devices P (table_set_status t i st w now)"
  by (auto simp: known_devices_def table_set_status_def status_record_def Let_def
      dest!: in_update_key [THEN iffD1])

lemma known_devices_steps:
  assumes "known_devices P t"
  shows "known_devices P (apply_state_status t s now)" "known_devices P (mark_offline t i w now)"
    "known_devices P (mark_adapter_offline t a w now)"
proof -
  have off: "known_devices P (mark_offline t i w now)" if "known_devices P t" for t i
    using that by (simp add: mark_offline_def known_devices_status)
  then show "known_devices P (mark_offline t i w now)" using assms .
  show "known_devices P (apply_state_status t s now)"
    using assms by (simp add: apply_state_status_def known_devices_status)
  show "known_devices P (mark_adapter_offline t a w now)"
    unfolding mark_adapter_offline_def by (rule fold_keeps) (use assms off in auto)
qed

lemma known_devices_reconcile:
  assumes "known_devices P t" and "\<forall>d \<in> set ds. P d"
  shows "known_devices P (fst (reconcile t a ds s now))"
proof -
  obtain t1 diff1 where u: "upsert_all s now ds (t, empty_diff) = (t1, diff1)" by fastforce
  have "known_devices P t1"
    using upsert_all_devices [of s now ds t empty_diff] assms by (fastforce simp: u known_devices_def)
  then have "known_devices P (fold (\<lambda>(i, _) t. table_remove t i) gs t1)" for gs
    by (rule fold_keeps [rotated]) (auto simp: known_devices_def table_remove_def remove_key_def)
  then show ?thesis by (simp add: reconcile_def u Let_def)
qed

lemma sanitised_safety: "st_safety (fst (sanitise_settings s)) = sanitise (st_safety s)"
  by (simp add: sanitise_settings_def Let_def)

text \<open>The runtime in operation: its operations in any order, and between them the clock and whatever
  the hardware does on its own. A new safety policy starts a new life.\<close>

inductive operated :: "('w \<Rightarrow> 'w \<Rightarrow> bool) \<Rightarrow> 'w runtime \<Rightarrow> 'w runtime \<Rightarrow> bool" for env where
  idle: "operated env rt rt"
| clock: "operated env rt r \<Longrightarrow> operated env rt (r\<lparr>rt_clock := k\<rparr>)"
| hardware: "operated env rt r \<Longrightarrow> env (rt_world r) w \<Longrightarrow> operated env rt (r\<lparr>rt_world := w\<rparr>)"
| started: "operated env rt r \<Longrightarrow> operated env rt (runtime_start r)"
| discovered: "operated env rt r \<Longrightarrow> operated env rt (fst (refresh_devices r))"
| polled: "operated env rt r \<Longrightarrow> operated env rt (fst (poll_once r))"
| wrote: "operated env rt r \<Longrightarrow> operated env rt (fst (write_with_origin allow r d c v org))"
| configured: "operated env rt r \<Longrightarrow> st_safety (mutate (rt_settings r)) = st_safety (rt_settings r)
    \<Longrightarrow> operated env rt (fst (update_settings saved mutate r))"
| device_switched: "operated env rt r \<Longrightarrow> operated env rt (fst (set_device_enabled saved i en r))"
| adapter_switched: "operated env rt r \<Longrightarrow> operated env rt (fst (set_adapter_enabled saved i en r))"
| stopped: "operated env rt r \<Longrightarrow> operated env rt (fst (runtime_shutdown r))"
| adopted: "operated env rt r \<Longrightarrow> list_all entry_ok taken \<Longrightarrow> operated env rt (fst (adopt_taken_controls taken r))"

locale sound_hardware =
  fixes adapters :: "'w adapter list" and p :: safety_policy
    and I :: "'w \<Rightarrow> bool" and P :: "device \<Rightarrow> bool"
  assumes probe_law: "a \<in> set adapters \<Longrightarrow> I w \<Longrightarrow> I (snd (ad_probe a w))"
    and discover_law: "a \<in> set adapters \<Longrightarrow> I w \<Longrightarrow> I (snd (ad_discover a w))"
    and discovered: "a \<in> set adapters \<Longrightarrow> I w \<Longrightarrow> fst (ad_discover a w) = Inr ds \<Longrightarrow> d \<in> set ds \<Longrightarrow> P d"
    and read_law: "a \<in> set adapters \<Longrightarrow> I w \<Longrightarrow> I (snd (ad_read_all a ds w))"
    and write_law: "a \<in> set adapters \<Longrightarrow> P d \<Longrightarrow> ad_id a = dev_adapter d \<Longrightarrow> floored p d c u
      \<Longrightarrow> I w \<Longrightarrow> I (snd (ad_write a d c u w))"
    and shutdown_law: "a \<in> set adapters \<Longrightarrow> I w \<Longrightarrow> I (snd (ad_shutdown a w))"
    and adopt_law: "a \<in> set adapters \<Longrightarrow> list_all entry_ok taken \<Longrightarrow> I w \<Longrightarrow> I (snd (ad_adopt a taken w))"
begin

abbreviation controlled :: "'w runtime \<Rightarrow> bool" where
  "controlled rt \<equiv> under_control adapters p I P rt"

lemma keeps_vetted:
  assumes "controlled rt" shows "adapters_keep rt I"
proof -
  have p: "st_safety (rt_settings rt) = p" and k: "known_devices P (rt_table rt)"
    using assms by (simp_all add: under_control_def)
  have "floored p d c u \<and> P d" if v: "vetted rt d c u" for d c u
  proof -
    obtain r where "table_get (rt_table rt) (dev_id d) = Some r" "dr_device r = d"
      using v by (auto simp: vetted_def)
    then have "r \<in> set (rt_table rt)" "dr_device r = d"
      using find_key_Some [where key = dr_id] unfolding table_get_def by blast+
    with k have "P d" by (auto simp: known_devices_def)
    with v show ?thesis by (auto simp: vetted_def floored_def p)
  qed
  with assms write_law show ?thesis by (auto simp: adapters_keep_def under_control_def)
qed

lemma write_controlled:
  assumes "controlled rt" shows "controlled (fst (write_with_origin allow rt d c v org))"
proof -
  have "I (rt_world (fst (write_with_origin allow rt d c v org)))"
    by (rule write_keeps) (use assms keeps_vetted in \<open>auto simp: runtime_ok_def sane_settings_def under_control_def\<close>)
  with assms under_control_same [OF write_with_origin_frame] show ?thesis by blast
qed

lemma emergency_controlled: "controlled rt \<Longrightarrow> controlled (emergency_write duty x rt)"
  using write_controlled by (simp add: emergency_write_def split: prod.split option.split)

lemma supervise_controlled: "controlled rt \<Longrightarrow> controlled (supervise_safety rt)"
  by (auto simp: supervise_safety_def Let_def split: option.split
      intro!: fold_keeps [where P = controlled] emergency_controlled)

lemma poll_result_controlled:
  assumes "controlled (fst x)" shows "controlled (fst (poll_result units y x))"
proof -
  have t: "table_valid (rt_table (fst x))" "known_devices P (rt_table (fst x))"
    using assms by (auto simp: under_control_def runtime_ok_def)
  then show ?thesis
    using assms by (auto simp: poll_result_def Let_def split_def split: sum.split
      intro!: under_control_table under_control_store table_valid_steps known_devices_steps)
qed

lemma poll_adapter_controlled:
  assumes "a \<in> set adapters" and "controlled (fst x)"
  shows "controlled (fst (poll_adapter targets units a x))"
proof -
  have "I (snd (ad_read_all a ds (rt_world (fst x))))" for ds
    using assms read_law by (simp add: under_control_def)
  with assms(2) show ?thesis
    by (auto simp: poll_adapter_def Let_def split_def
      intro!: fold_keeps [where P = "\<lambda>x. controlled (fst x)"] poll_result_controlled under_control_world)
qed

lemma poll_once_controlled: "controlled rt \<Longrightarrow> controlled (fst (poll_once rt))"
proof -
  assume rt: "controlled rt"
  have "controlled (fst (fold (poll_adapter targets units) as x))"
    if "set as \<subseteq> set adapters" "controlled (fst x)" for as targets units x
    using that by (induction as arbitrary: x) (auto simp: poll_adapter_controlled)
  then have "controlled (fst (fold (poll_adapter targets units) (rt_adapters rt) (rt, 0, 0)))" for targets units
    using rt by (simp add: under_control_def [of adapters p I P rt])
  then show ?thesis by (simp add: poll_once_def Let_def split_def supervise_controlled)
qed

text \<open>Discovery: the hardware it probes and enumerates, and the devices it hands on.\<close>

lemma probe_all_keeps:
  "set as \<subseteq> set adapters \<Longrightarrow> I w \<Longrightarrow> probe_all s now as (h, w) = (ps, h', w')
     \<Longrightarrow> I w' \<and> (\<forall>q \<in> set ps. fst q \<in> set adapters)"
proof (induction as arbitrary: h w ps h' w')
  case (Cons a as)
  obtain st h1 w1 where p: "probe_adapter s now a (h, w) = (st, h1, w1)" by (metis prod_cases3)
  have "I w1" using Cons.prems probe_law [of a w] p
    by (auto simp: probe_adapter_def Let_def split: if_splits prod.splits)
  obtain ps1 h2 w2 where r: "probe_all s now as (h1, w1) = (ps1, h2, w2)" by (metis prod_cases3)
  with Cons.IH [OF _ \<open>I w1\<close> r] Cons.prems p show ?case by (auto simp: Let_def)
qed simp

definition outcome_known :: "discovery_outcome \<Rightarrow> bool" where
  "outcome_known out \<longleftrightarrow> (\<forall>(i, ds) \<in> set (do_devices out). \<forall>d \<in> set ds. P d)"

lemma discover_adapter_keeps:
  assumes "a \<in> set adapters" "outcome_known out" "I w"
    "discover_adapter usable now (a, st) (out, h, w) = (out', h', w')"
  shows "outcome_known out' \<and> I w'"
proof -
  obtain r w1 where d: "ad_discover a w = (r, w1)" by fastforce
  then have w1: "I w1" using assms discover_law [of a w] by simp
  have new: "outcome_known (out\<lparr>do_statuses := x, do_devices := sorted_put fst (i, validate_devices ds) (do_devices out)\<rparr>)"
    if "r = Inr ds" for ds i x
    using assms(2) discovered [OF assms(1,3), of ds] d that
    by (auto simp: outcome_known_def validate_devices_def dest!: in_sorted_put dest: keep_valid_in)
  have old: "outcome_known (out\<lparr>do_statuses := x\<rparr>)" "outcome_known (out\<lparr>do_statuses := x, do_errors := e\<rparr>)" for x e
    using assms(2) by (simp_all add: outcome_known_def)
  show ?thesis
    using assms(3,4) w1 new old
    by (auto simp: discover_adapter_def Let_def d split: option.splits sum.splits if_splits)
qed

lemma discover_all_keeps:
  assumes "I w" and "discover_all s now adapters (h, w) = (out, h', w')"
  shows "outcome_known out \<and> I w'"
proof -
  obtain ps h1 w1 where p: "probe_all s now adapters (h, w) = (ps, h1, w1)" by (metis prod_cases3)
  with probe_all_keeps [OF order_refl assms(1)] have ps: "I w1" "(\<forall>q \<in> set ps. fst q \<in> set adapters)" by auto
  have "outcome_known out2 \<and> I w2"
    if "fold (discover_adapter usable now) ps x = (out2, h2, w2)" "(\<forall>q \<in> set ps. fst q \<in> set adapters)"
      "outcome_known (fst x)" "I (snd (snd x))" for usable ps x out2 h2 w2
    using that
  proof (induction ps arbitrary: x)
    case (Cons q ps)
    obtain a st where q: "q = (a, st)" by fastforce
    obtain o1 hh ww where x: "x = (o1, hh, ww)" by (metis prod_cases3)
    obtain o2 hh2 ww2 where d: "discover_adapter usable now (a, st) (o1, hh, ww) = (o2, hh2, ww2)" by (metis prod_cases3)
    have "outcome_known o2 \<and> I ww2"
      by (rule discover_adapter_keeps [OF _ _ _ d]) (use Cons.prems q x in auto)
    with Cons.IH [of "(o2, hh2, ww2)"] Cons.prems show ?case by (simp add: q x d)
  qed simp
  from this [where x = "(\<lparr>do_statuses = [], do_devices = [], do_errors = []\<rparr>, h1, w1)"] ps assms(2)
  show ?thesis by (auto simp: discover_all_def p Let_def outcome_known_def)
qed

lemma reconcile_adapter_controlled:
  assumes "controlled (fst x)" "\<forall>d \<in> set (snd ads). validate_device d = Inr ()" "\<forall>d \<in> set (snd ads). P d"
  shows "controlled (fst (reconcile_adapter ads x))"
proof -
  obtain rt total seeds i ds where x: "x = (rt, total, seeds)" "ads = (i, ds)" by (metis prod_cases3 surj_pair)
  have "table_valid (fst (reconcile (rt_table rt) i ds (rt_settings rt) (rt_clock rt)))"
    "known_devices P (fst (reconcile (rt_table rt) i ds (rt_settings rt) (rt_clock rt)))"
    using assms by (auto simp: x under_control_def runtime_ok_def
        intro!: table_valid_reconcile known_devices_reconcile)
  with assms(1) show ?thesis by (simp add: x reconcile_adapter_def split_def Let_def under_control_table)
qed

lemma discovery_steps_controlled:
  assumes "controlled rt"
  shows "controlled (offline_unusable st rt)" "controlled (seed_state d rt)"
    "controlled (announce_added i rt)" "controlled (forget_removed g rt)"
proof -
  have "table_valid (rt_table rt)" "known_devices P (rt_table rt)"
    using assms by (auto simp: under_control_def runtime_ok_def)
  with assms show "controlled (offline_unusable st rt)" "controlled (seed_state d rt)"
    "controlled (announce_added i rt)" "controlled (forget_removed g rt)"
    by (auto simp: offline_unusable_def seed_state_def announce_added_def forget_removed_def split_def
        store_remove_def intro!: under_control_table under_control_store table_valid_steps
        known_devices_steps split: option.split)
qed

lemma refresh_controlled:
  assumes "controlled rt" shows "controlled (fst (refresh_devices rt))"
proof -
  obtain out h w where d: "discover_all (rt_settings rt) (rt_clock rt) (rt_adapters rt) (rt_health rt, rt_world rt)
    = (out, h, w)" by (metis prod_cases3)
  have k: "outcome_known out \<and> I w"
    by (rule discover_all_keeps [of "rt_world rt"]) (use assms d in \<open>auto simp: under_control_def\<close>)
  have fold_c: "(\<And>x r. controlled r \<Longrightarrow> controlled (f x r)) \<Longrightarrow> controlled r \<Longrightarrow> controlled (fold f xs r)"
    for f :: "'x \<Rightarrow> 'w runtime \<Rightarrow> 'w runtime" and xs r by (rule fold_keeps)
  let ?rt1 = "fold offline_unusable (do_statuses out) (rt\<lparr>rt_health := h, rt_world := w\<rparr>)"
  have "controlled ?rt1"
    by (rule fold_keeps) (use assms k in \<open>auto intro: discovery_steps_controlled under_control_world\<close>)
  moreover obtain rt2 diff seeds where
    r: "fold reconcile_adapter (do_devices out) (?rt1, empty_diff, []) = (rt2, diff, seeds)" by (metis prod_cases3)
  moreover have "controlled (fst (fold reconcile_adapter xs x))"
    if "set xs \<subseteq> set (do_devices out)" "controlled (fst x)" for xs x
    using that
  proof (induction xs arbitrary: x)
    case (Cons ads xs)
    have "controlled (fst (reconcile_adapter ads x))"
      by (rule reconcile_adapter_controlled)
        (use Cons.prems k discover_all_valid [OF d] in \<open>auto simp: outcome_known_def devices_valid_def\<close>)
    with Cons show ?case by auto
  qed simp
  ultimately have "controlled rt2" by (metis fst_conv order_refl)
  then have "controlled (fold seed_state seeds rt2)"
    by (rule fold_keeps [rotated]) (rule discovery_steps_controlled)
  then have "controlled (fold announce_added (rd_added diff) (fold seed_state seeds rt2))"
    by (rule fold_keeps [rotated]) (rule discovery_steps_controlled)
  then have "controlled (fold forget_removed (rd_removed diff) (fold announce_added (rd_added diff)
      (fold seed_state seeds rt2)))"
    by (rule fold_keeps [rotated]) (rule discovery_steps_controlled)
  then show ?thesis by (simp add: refresh_devices_def d r Let_def split_def)
qed

lemma start_controlled: "controlled rt \<Longrightarrow> controlled (runtime_start rt)"
  by (auto simp: runtime_start_def Let_def split_def intro!: poll_once_controlled refresh_controlled)

text \<open>The exit path.\<close>

lemma release_controlled: "controlled rt \<Longrightarrow> controlled (fst (release_control rt))"
proof -
  assume rt: "controlled rt"
  have "controlled (fst (release_channel x y))" if "controlled (fst y)" for x y
    using that write_controlled
    by (auto simp: release_channel_def split_def split: sum.split prod.split)
  then have "controlled (fst (fold release_channel xs y))" if "controlled (fst y)" for xs y
    using that by (rule fold_keeps [where P = "\<lambda>y. controlled (fst y)"])
  with rt show ?thesis by (simp add: release_control_def)
qed

lemma shutdown_all_keeps:
  "set as \<subseteq> set adapters \<Longrightarrow> I w \<Longrightarrow> I (snd (shutdown_all as w))"
  by (induction as arbitrary: w) (use shutdown_law in \<open>auto simp: Let_def split_def\<close>)

lemma shutdown_outcomes_controlled:
  "controlled (fst x) \<Longrightarrow> controlled (fst (fold shutdown_outcome outs x))"
  by (rule fold_keeps [where P = "\<lambda>y. controlled (fst y)"])
    (auto simp: shutdown_outcome_def split: option.split)

lemma shutdown_controlled:
  assumes "controlled rt" shows "controlled (fst (runtime_shutdown rt))"
proof -
  obtain rt1 rel1 where r: "release_control (rt\<lparr>rt_running := False\<rparr>) = (rt1, rel1)" by fastforce
  then have 1: "controlled rt1" using release_controlled [of "rt\<lparr>rt_running := False\<rparr>"] assms by simp
  have w: "I (snd (shutdown_all (rt_adapters rt') (rt_world rt')))" if "controlled rt'" for rt'
    using that shutdown_all_keeps by (simp add: under_control_def)
  have out: "controlled rt3" if "shutdown_all (rt_adapters rt') (rt_world rt') = (outs, w')" "controlled rt'"
      "fold shutdown_outcome outs (rt'\<lparr>rt_world := w'\<rparr>, rel) = (rt3, rel3)" for rt' outs w' rel rt3 rel3
    using shutdown_outcomes_controlled [of "(rt'\<lparr>rt_world := w'\<rparr>, rel)" outs] w [OF that(2)] that
    by (simp add: under_control_world)
  show ?thesis
    by (simp add: runtime_shutdown_def Let_def r assms split: prod.split)
      (intro allI impI, elim exE, erule out, simp_all add: 1)
qed

text \<open>Adoption.\<close>

lemma adopt_each_keeps:
  "list_all entry_ok taken \<Longrightarrow> set as \<subseteq> set adapters \<Longrightarrow> I w \<Longrightarrow> I (snd (adopt_each as taken w))"
  by (induction as arbitrary: w) (use adopt_law in \<open>auto simp: Let_def split_def\<close>)

lemma adopt_controlled:
  assumes "controlled rt" "list_all entry_ok taken" shows "controlled (fst (adopt_taken_controls taken rt))"
proof -
  have "I (snd (adopt_each (rt_adapters rt) taken (rt_world rt)))"
    using assms adopt_each_keeps by (simp add: under_control_def)
  with assms show ?thesis by (simp add: adopt_taken_controls_def Let_def split_def under_control_world)
qed

text \<open>Settings: switching a device or an adapter keeps the policy in force.\<close>

lemma update_controlled:
  assumes "controlled rt" and "st_safety (mutate (rt_settings rt)) = p"
  shows "controlled (fst (update_settings saved mutate rt))"
proof -
  have "sane p" using assms(1) by (auto simp: under_control_def runtime_ok_def sane_settings_def)
  then have "runtime_ok (fst (update_settings saved mutate rt))"
    by (intro update_settings_ok) (use assms in \<open>auto simp: under_control_def sane_no_nan\<close>)
  with assms \<open>sane p\<close> show ?thesis
    by (auto simp: under_control_def update_settings_def Let_def publish_def sanitised_safety sanitise_id
        split: sum.split)
qed

lemma device_switch_controlled:
  assumes "controlled rt" shows "controlled (fst (set_device_enabled saved i en rt))"
proof -
  have k: "known_devices P (rt_table rt)" and sf: "st_safety (rt_settings rt) = p"
    and s: "sane p" using assms by (auto simp: under_control_def runtime_ok_def sane_settings_def)
  have "known_devices P t" if e: "table_set_enabled (rt_table rt) d en = Inr t" for d t
  proof -
    have u: "t = update_key dr_id d (enable_record en) (rt_table rt)"
      using e by (auto simp: table_set_enabled_def split: option.splits)
    have "dr_device (enable_record en r) = dr_device r" for r by (simp add: enable_record_def Let_def)
    with k show ?thesis by (auto simp: known_devices_def u in_update_key)
  qed
  moreover have "runtime_ok (fst (set_device_enabled saved i en rt))"
    by (rule set_device_enabled_ok) (use assms in \<open>simp add: under_control_def\<close>)
  ultimately show ?thesis
    using assms s sf unfolding under_control_def
    by (auto simp: set_device_enabled_def update_settings_def settings_set_device_def publish_def
        sanitised_safety sanitise_id Let_def split: sum.splits option.splits)
qed

lemma adapter_switch_controlled:
  assumes "controlled rt" shows "controlled (fst (set_adapter_enabled saved i en rt))"
  using assms update_controlled [OF assms]
  by (auto simp: set_adapter_enabled_def settings_set_adapter_def under_control_def [of _ _ _ _ rt]
      split: sum.split)

lemma boot_controlled:
  assumes "no_nan (st_safety s)" "sanitise (st_safety s) = p" "distinct (map ad_id adapters)" "I w"
  shows "controlled (runtime_new s adapters k w)"
proof -
  have "fst (deduplicate seen as) = as" if "distinct (map ad_id as)" "set (map ad_id as) \<inter> set seen = {}"
    for seen and as :: "'w adapter list"
    using that by (induction as arbitrary: seen) (auto simp: Let_def split_def)
  from this [of adapters "[]"] assms runtime_new_ok [OF assms(1), of adapters k w] show ?thesis
    by (simp add: under_control_def known_devices_def)
      (simp add: runtime_new_def Let_def deduplicate_adapters_def sanitised_safety)
qed

text \<open>So the hardware keeps \<open>I\<close> for as long as the policy stays in force.\<close>

lemma operated_controlled:
  assumes "operated env rt rt'" and "controlled rt" and "\<And>w w'. env w w' \<Longrightarrow> I w \<Longrightarrow> I w'"
  shows "controlled rt'"
  using assms(1,2)
proof induction
  case (configured rt r mutate saved)
  then show ?case by (intro update_controlled) (auto simp: under_control_def)
next
  case (hardware rt r w)
  then show ?case using assms(3) by (auto simp: under_control_def intro!: under_control_world)
qed (auto intro: start_controlled refresh_controlled poll_once_controlled write_controlled
    device_switch_controlled adapter_switch_controlled shutdown_controlled adopt_controlled)

end

end
