(* ===== verification/System_Bench.thy ===== *)
theory System_Bench
  imports System_Safety Runtime_World
begin

section \<open>The operating system adapter on a board\<close>

text \<open>A board to evaluate the theorems of \<open>System_Safety\<close> on.\<close>

subsection \<open>A board to look at\<close>

text \<open>One chip, one fan, driven by its driver.\<close>

definition demo_file :: "string \<Rightarrow> fs_file" where
  "demo_file s = \<lparr>fl_text = s, fl_regular = True, fl_read_error = None, fl_write_error = None\<rparr>"

definition demo_fs :: filesystem where
  "demo_fs = \<lparr>fs_files = [''/h/hwmon0/name'' \<mapsto> demo_file ''nct'', ''/h/hwmon0/pwm1'' \<mapsto> demo_file ''128'',
       ''/h/hwmon0/pwm1_enable'' \<mapsto> demo_file ''2''],
     fs_dirs = (\<lambda>d. if d = ''/h'' then Inr [''hwmon0''] else if d = ''/h/hwmon0''
       then Inr [''name'', ''pwm1'', ''pwm1_enable''] else Inl not_found),
     fs_create_error = Some not_found\<rparr>"

definition demo_channel :: fan_channel where
  "demo_channel = \<lparr>fc_chip = ''nct'', fc_channel = 1, fc_label = None, fc_rpm = None,
     fc_pwm = Some ''/h/hwmon0/pwm1'', fc_mode = Some (''/h/hwmon0/pwm1_enable'', Automatic 2)\<rparr>"

lemma trim_visible: "list_all visible s \<Longrightarrow> trim s = s"
proof -
  assume v: "list_all visible s"
  have "list_all visible (drop k s)" for k using v by (auto simp: list_all_iff dest: in_set_dropD)
  then have "ws_suffix s = 0" by (simp add: ws_suffix_def Let_def ws_len_visible)
  with v show ?thesis by (simp add: trim_def trim_start.simps [of s] trim_end.simps [of s] ws_len_visible)
qed

lemma demo_pieces:
  "trim ''nct'' = ''nct''" "dec_nat (Suc 0) = ''1''" "from_sysfs ''2'' = Automatic 2"
  "List.map_filter fan_number [''name'', ''pwm1'', ''pwm1_enable''] = [1]"
  "Option.bind (strip_prefix ''hwmon'' ''hwmon0'') parse_u32 = Some 0"
proof -
  show "trim ''nct'' = ''nct''" by (rule trim_visible) (simp add: visible_def byte_def)
  have "dec_nat 1 = ''1''" by code_simp
  then show "dec_nat (Suc 0) = ''1''" by simp
  show "from_sysfs ''2'' = Automatic 2" by code_simp
  have v: "parse_digits ''1'' = Some 1" "parse_digits ''0'' = Some 0" by code_simp+
  then show "List.map_filter fan_number [''name'', ''pwm1'', ''pwm1_enable''] = [1]"
    by (simp add: List.map_filter_def fan_number_def strip_prefix_def strip_suffix_def parse_u32_def parse_nat_def u32_max_def
        is_ascii_digit_def byte_def)
  show "Option.bind (strip_prefix ''hwmon'' ''hwmon0'') parse_u32 = Some 0"
    using v by (simp add: strip_prefix_def parse_u32_def parse_nat_def u32_max_def)
qed

lemma demo_scan: "discover_hwmon demo_fs ''/h'' =
    \<lparr>ht_chips = [\<lparr>hc_directory = ''hwmon0'', hc_name = ''nct'', hc_fans = [demo_channel]\<rparr>], ht_notes = []\<rparr>"
proof -
  have "scan_channel demo_fs ''nct'' ''/h/hwmon0'' 1 = Some demo_channel" 
    by (simp add: scan_channel_def Let_def demo_pieces readable_file_def is_file_def path_join_def read_to_string_def
        demo_fs_def demo_file_def demo_channel_def not_found_def)
  moreover have d: "fs_dirs demo_fs ''/h/hwmon0'' = Inr [''name'', ''pwm1'', ''pwm1_enable'']"
    "fs_dirs demo_fs ''/h'' = Inr [''hwmon0'']" "read_to_string demo_fs ''/h/hwmon0/name'' = Inr ''nct''"
    by (simp_all add: demo_fs_def read_to_string_def demo_file_def)
  moreover have "fan_numbers demo_fs ''/h/hwmon0'' = [1]" by (simp only: fan_numbers_def d(1) sum.case demo_pieces(4)) simp
  ultimately show ?thesis
    by (simp add: discover_hwmon_def List.map_filter_def demo_pieces(1,5) scan_chip_def path_join_def Let_def)
qed

definition demo_view :: os_view where
  "demo_view = \<lparr>ov_cpus = [], ov_global_usage = Fin 0, ov_total_memory = 0, ov_used_memory = 0,
     ov_components = [], ov_disks = []\<rparr>"

definition demo_system :: system_adapter where
  "demo_system = system_new (Some ''/h'') [''fan.system.nct_fan1''] demo_fs (\<lambda>_. demo_view) (\<lambda>_. None) 0"


text \<open>Scanned, and driven at full speed by a rule.\<close>

definition demo_scanned :: system_adapter where
  "demo_scanned = snd (system_discover demo_system)"

definition demo_fan_device :: device where
  "demo_fan_device = new_device ''fan.system.nct_fan1'' ''nct fan 1'' Fan SystemTransport SYSTEM_ID"

definition demo_taken :: system_adapter where
  "demo_taken = snd (system_write demo_fan_device (cap_actuator FAN_SPEED_PERCENT ''Fan Duty'' Percent (Fin 0) (Fin 100))
     (Number (Fin 100)) demo_scanned)"

lemma demo_dirs: "dirs_ok demo_fs"
  by (simp add: dirs_ok_def demo_fs_def)

lemma demo_life: "sy_life demo_scanned" "sy_life demo_taken"
proof -
  have "sy_life demo_system" unfolding demo_system_def by (rule sy_life.booted [OF demo_dirs])
  then show "sy_life demo_scanned" unfolding demo_scanned_def by (rule sy_life.called) (rule sy_step.enumerated)
  then show "sy_life demo_taken" unfolding demo_taken_def by (rule sy_life.called) (rule sy_step.wrote)
qed

lemma demo_channel_id: "channel_device_id demo_channel = ''fan.system.nct_fan1''"
proof -
  have "slug ''nct'' = ''nct''" by code_simp
  then show ?thesis by (simp add: channel_device_id_def demo_channel_def demo_pieces)
qed

lemma demo_scanned_channel:
  "hwmon_channel demo_scanned i = (if i = ''fan.system.nct_fan1'' then Some demo_channel else None)"
  "sy_fs demo_scanned = demo_fs" "sy_taken demo_scanned = []" "sy_allow demo_scanned = [''fan.system.nct_fan1'']"
proof -
  have s: "sy_tree (scan_hwmon demo_system) = Some (discover_hwmon demo_fs ''/h'')"
    by (simp add: scan_hwmon_def demo_system_def system_new_def)
  have "sy_tree demo_scanned = Some (discover_hwmon demo_fs ''/h'')"
    by (simp add: demo_scanned_def views_holdings s)
  then show "hwmon_channel demo_scanned i = (if i = ''fan.system.nct_fan1'' then Some demo_channel else None)"
    by (simp add: hwmon_channel_def demo_scan channel_by_device_id_def channels_def demo_channel_id)
  show "sy_fs demo_scanned = demo_fs" "sy_taken demo_scanned = []" "sy_allow demo_scanned = [''fan.system.nct_fan1'']"
    by (simp_all add: demo_scanned_def system_views) (simp_all add: demo_system_def system_new_def)
qed

lemma pwm_byte_full: "pwm_byte (Fin 100) = 255"
  using byte_of_bounds(1) [of 100] by (simp add: byte_of_def round_away_num rndq_exact is_dbl_numeral)

definition demo_driven :: filesystem where
  "demo_driven = put_text ''/h/hwmon0/pwm1'' (dec_int 255 @ [CHR 0x0A])
     (put_text ''/h/hwmon0/pwm1_enable'' [CHR ''1'', CHR 0x0A] demo_fs)"

lemma demo_drive:
  "system_write demo_fan_device (cap_actuator FAN_SPEED_PERCENT ''Fan Duty'' Percent (Fin 0) (Fin 100))
     (Number (Fin 100)) demo_scanned = (Inr ((outcome_applied (Number (tenths (Fin 100))))
       \<lparr>wo_detail := Some (wrote_text 255 demo_channel (Fin 100))\<rparr>),
     demo_scanned\<lparr>sy_taken := [(''fan.system.nct_fan1'', Automatic 2)], sy_fs := demo_driven\<rparr>)"
proof -
  let ?fs = "put_text ''/h/hwmon0/pwm1_enable'' [CHR ''1'', CHR 0x0A] demo_fs"
  have t: "take_control demo_channel demo_fs = (Inr (Some (Automatic 2)), ?fs)"
    by (simp add: take_control_def current_mode_def mode_at_def read_to_string_def write_file_def
        demo_channel_def demo_fs_def demo_file_def demo_pieces)
  have "fs_files ?fs ''/h/hwmon0/pwm1'' = Some (demo_file ''128'')"
    by (simp add: put_text_def demo_fs_def)
  then have "set_pwm demo_channel (Fin 100) ?fs = (Inr 255, demo_driven)"
    by (simp add: set_pwm_def demo_channel_def Let_def write_file_def demo_file_def pwm_byte_full demo_driven_def)
  then show ?thesis
    by (simp add: system_write_def demo_fan_device_def new_device_def is_fan_id_def strip_prefix_def cap_actuator_def
        pwm_writable_def demo_scanned_channel t drive_channel_def taken_put_def)
qed

lemma hwmon_channel_updates [simp]:
  "hwmon_channel (w\<lparr>sy_fs := fs\<rparr>) = hwmon_channel w" "hwmon_channel (w\<lparr>sy_taken := ts\<rparr>) = hwmon_channel w"
  "hwmon_channel (w\<lparr>sy_clock := k\<rparr>) = hwmon_channel w"
  by (simp_all add: hwmon_channel_def fun_eq_iff)

lemma demo_taken_is: "demo_taken = demo_scanned\<lparr>sy_taken := [(''fan.system.nct_fan1'', Automatic 2)], sy_fs := demo_driven\<rparr>"
  by (simp add: demo_taken_def demo_drive)

lemma demo_restore: "\<exists>fs. restore_control demo_channel (Some (Automatic 2)) demo_driven = (Inr (), fs)"
proof -
  have "\<exists>f. fs_files demo_driven ''/h/hwmon0/pwm1_enable'' = Some f \<and> fl_write_error f = None"
    by (simp add: demo_driven_def put_text_def demo_fs_def demo_file_def)
  then show ?thesis by (auto simp: restore_control_def demo_channel_def write_file_def)
qed

lemma demo_readable: "readable demo_driven ''/h/hwmon0/pwm1_enable''"
  by (simp add: readable_def demo_driven_def put_text_def demo_fs_def demo_file_def)

text \<open>The next process, on the board as the first one left it.\<close>

definition demo_next :: system_adapter where
  "demo_next = demo_scanned\<lparr>sy_fs := demo_driven, sy_clock := 1\<rparr>"

lemma demo_next_life: "sy_life demo_next"
  unfolding demo_next_def by (rule sy_life.changed [OF demo_life(1)]) (simp add: dirs_ok_def demo_driven_def put_text_def demo_fs_def)

theorem only_listed_channels_touched_witness:
  "sy_step demo_scanned demo_taken
     \<and> fs_files (sy_fs demo_taken) ''/h/hwmon0/name'' = fs_files demo_fs ''/h/hwmon0/name''"
proof -
  have s: "sy_step demo_scanned demo_taken" unfolding demo_taken_def by (rule sy_step.wrote)
  have "\<not> touchable demo_scanned ''/h/hwmon0/name''"
    by (simp add: touchable_def demo_scanned_channel chan_paths_def demo_channel_def split: if_splits)
  moreover have "taken_allowed demo_scanned" by (simp add: taken_allowed_def demo_scanned_channel)
  ultimately show ?thesis using only_listed_channels_touched [OF _ s] s by (simp add: demo_scanned_channel)
qed

theorem applied_write_is_in_force_witness:
  "mode_at demo_driven ''/h/hwmon0/pwm1_enable'' = Manual_Mode
     \<and> map_of (sy_taken demo_taken) ''fan.system.nct_fan1'' = Some (Automatic 2)"
proof -
  have d: "dev_id demo_fan_device = ''fan.system.nct_fan1''" by (simp add: demo_fan_device_def new_device_def)
  have "mode_at demo_fs ''/h/hwmon0/pwm1_enable'' = Automatic 2"
    by (simp add: mode_at_def read_to_string_def demo_fs_def demo_file_def demo_pieces)
  then show ?thesis
    using applied_write_is_in_force [OF demo_life(1) demo_drive]
    by (simp add: d demo_scanned_channel demo_taken_is demo_channel_def outcome_applied_def confirms_def)
qed

theorem shutdown_hands_back_witness:
  "\<exists>w'. system_shutdown demo_taken = (Inr (), w') \<and> mode_at (sy_fs w') ''/h/hwmon0/pwm1_enable'' = Automatic 2"
proof -
  have "hwmon_channel demo_taken ''fan.system.nct_fan1'' = Some demo_channel"
    by (simp add: demo_taken_is demo_scanned_channel)
  moreover from demo_restore obtain w' where "system_shutdown demo_taken = (Inr (), w')"
    by (auto simp: system_shutdown_def Let_def demo_taken_is give_back_def demo_scanned_channel)
  ultimately show ?thesis
    using shutdown_hands_back [OF demo_life(2), of w' "''fan.system.nct_fan1''" "Automatic 2"] demo_readable
    by (auto simp: demo_taken_is demo_channel_def)
qed

lemma demo_next_adopts:
  "\<exists>b'. system_adopt (system_taken demo_taken) demo_next = ([], b')
     \<and> mode_at (sy_fs b') ''/h/hwmon0/pwm1_enable'' = Automatic 2"
proof -
  have c: "hwmon_channel demo_next ''fan.system.nct_fan1'' = Some demo_channel"
    by (simp add: demo_next_def demo_scanned_channel)
  have "from_restored 2 = Automatic 2" by (simp add: from_restored_def)
  then obtain b' where "system_adopt (system_taken demo_taken) demo_next = ([], b')"
    using demo_restore c
    by (auto simp: system_adopt_def system_taken_def demo_taken_is adopt_entry_def Let_def demo_next_def
        demo_scanned_channel taken_put_def)
  with adopted_from [OF demo_life(2) demo_next_life, of b' "''fan.system.nct_fan1''" "Automatic 2"] demo_readable c
  show ?thesis by (auto simp: demo_taken_is demo_channel_def demo_next_def)
qed

end
