(* ===== verification/System_Runtime.thy ===== *)
theory System_Runtime
  imports System_Bench
begin

section \<open>A runtime over the operating system adapter\<close>

text \<open>
  The adapter of \<open>System_Adapter\<close> meets the contract the runtime's lemmas are proved under
  (\<open>sound_hardware\<close> of \<open>Runtime_World\<close>), so what a runtime over it does in operation, writes, adoption
  and the exit included, follows from the two: which files it can change, and that its exit hands the
  channels back.\<close>

subsection \<open>The adapter as hardware of the runtime\<close>

text \<open>Duty and ownership files: the only ones a scan gives a channel.\<close>

definition duty_file :: "string \<Rightarrow> bool" where
  "duty_file p \<longleftrightarrow> (\<exists>d n. p = path_join d (''pwm'' @ dec_nat n) \<or> p = path_join d (enable_name n))"

definition tree_duty :: "system_adapter \<Rightarrow> bool" where
  "tree_duty w \<longleftrightarrow> (\<forall>i f p. hwmon_channel w i = Some f \<and> p \<in> chan_paths f \<longrightarrow> duty_file p)"

lemma scanned_duty: "scanned fs dir n f \<Longrightarrow> p \<in> chan_paths f \<Longrightarrow> duty_file p"
proof -
  assume s: "scanned fs dir n f" and p: "p \<in> chan_paths f"
  then have "p = path_join (path_join dir n) (''pwm'' @ dec_nat (fc_channel f))
      \<or> p = path_join (path_join dir n) (enable_name (fc_channel f))"
    by (auto simp: scanned_def chan_paths_def)
  then show ?thesis unfolding duty_file_def by blast
qed

lemma scan_duty:
  assumes "dirs_ok (sy_fs w)" "tree_duty w" shows "tree_duty (scan_hwmon w)"
proof (cases "sy_root w")
  case None
  with assms show ?thesis by (simp add: scan_hwmon_def)
next
  case (Some dir)
  let ?w = "w\<lparr>sy_tree := Some (discover_hwmon (sy_fs w) dir)\<rparr>"
  have "duty_file p" if c: "hwmon_channel ?w i = Some f" and p: "p \<in> chan_paths f" for i f p
  proof -
    from c obtain ch where "ch \<in> set (ht_chips (discover_hwmon (sy_fs w) dir))" "f \<in> set (hc_fans ch)"
      by (rule hwmon_channel_Some) auto
    then obtain n where "scanned (sy_fs w) dir n f"
      using discover_scanned [OF assms(1), of dir] unfolding tree_scanned_def by blast
    then show ?thesis using p by (rule scanned_duty)
  qed
  then show ?thesis unfolding tree_duty_def scan_hwmon_def by (simp add: Some) blast
qed

text \<open>What the adapter keeps for as long as the files do not change by themselves.\<close>

definition quiet :: "(string \<rightharpoonup> fs_file) \<Rightarrow> string list \<Rightarrow> system_adapter \<Rightarrow> bool" where
  "quiet files allow w \<longleftrightarrow> sy_life w \<and> tree_duty w \<and> sy_allow w = allow
     \<and> (\<forall>p. fs_files (sy_fs w) p \<noteq> files p \<longrightarrow> allow \<noteq> [] \<and> duty_file p)"

lemma tree_duty_cong: "sy_tree w' = sy_tree w \<Longrightarrow> tree_duty w' = tree_duty w"
  by (simp add: tree_duty_def hwmon_channel_def)

lemma quiet_within:
  assumes "quiet files allow w" "stays_within w w'" "sy_step w w'" shows "quiet files allow w'"
proof -
  have t: "sy_tree w' = sy_tree w" "sy_allow w' = sy_allow w" using assms(2) by (simp_all add: stays_within_def same_setup_def)
  have "allow \<noteq> [] \<and> duty_file p" if p: "touchable w p" for p
    using p assms(1) by (auto simp: touchable_def pwm_writable_def quiet_def tree_duty_def)
  then show ?thesis
    using assms tree_duty_cong [OF t(1)] sy_life.called t(2) unfolding quiet_def stays_within_def by metis
qed

lemma quiet_view:
  assumes "quiet files allow w" "sy_step w w'" "sy_fs w' = sy_fs w" "sy_allow w' = sy_allow w" "tree_duty w'"
  shows "quiet files allow w'"
  using assms sy_life.called [of w w'] by (simp add: quiet_def)

lemma quiet_facts: "quiet files allow w \<Longrightarrow> taken_allowed w \<and> dirs_ok (sy_fs w) \<and> tree_duty w"
  using life_life_ok by (auto simp: quiet_def life_ok_def)

lemma quiet_steps:
  assumes "quiet files allow w"
  shows "quiet files allow (snd (system_probe w))" "quiet files allow (snd (system_discover w))"
    "quiet files allow (snd (system_read_all ds w))" "quiet files allow (snd (system_write d cap v w))"
    "list_all entry_ok taken \<Longrightarrow> quiet files allow (snd (system_adopt taken w))"
    "quiet files allow (snd (system_shutdown w))"
proof -
  note f = quiet_facts [OF assms]
  note v = quiet_view [OF assms] and t = tree_duty_cong
  show "quiet files allow (snd (system_probe w))"
    by (rule v [OF sy_step.probed]) (use f t [OF views_holdings(1)] in \<open>simp_all add: system_views\<close>)
  show "quiet files allow (snd (system_read_all ds w))"
    by (rule v [OF sy_step.read]) (use f t [OF views_holdings(2)] in \<open>simp_all add: system_views\<close>)
  show "quiet files allow (snd (system_discover w))"
    by (rule v [OF sy_step.enumerated]) (use f scan_duty t [OF views_holdings(3)] in \<open>simp_all add: system_views\<close>)
  show "quiet files allow (snd (system_write d cap v w))"
    using f by (intro quiet_within [OF assms _ sy_step.wrote] system_write_within) simp
  show "quiet files allow (snd (system_adopt taken w))" if "list_all entry_ok taken"
    using f that by (intro quiet_within [OF assms _ sy_step.adopted] system_adopt_within) simp_all
  show "quiet files allow (snd (system_shutdown w))"
    using f by (intro quiet_within [OF assms _ sy_step.stopped] system_shutdown_within) simp
qed

lemma life_steps:
  assumes "sy_life w"
  shows "sy_life (snd (system_probe w))" "sy_life (snd (system_discover w))"
    "sy_life (snd (system_read_all ds w))" "sy_life (snd (system_write d cap v w))"
    "list_all entry_ok taken \<Longrightarrow> sy_life (snd (system_adopt taken w))" "sy_life (snd (system_shutdown w))"
  using assms by (blast intro: sy_life.called sy_step.intros)+

subsection \<open>A session: this adapter among others\<close>

text \<open>An adapter over one part of a larger world. The others of a session have a world of their own, of any
  type, which this adapter neither reads nor changes.\<close>

definition on_part :: "('v \<Rightarrow> 'w) \<Rightarrow> ('w \<Rightarrow> 'v \<Rightarrow> 'v) \<Rightarrow> ('w \<Rightarrow> 'r \<times> 'w) \<Rightarrow> 'v \<Rightarrow> 'r \<times> 'v" where
  "on_part get put f v = (case f (get v) of (r, w) \<Rightarrow> (r, put w v))"

definition through :: "('v \<Rightarrow> 'w) \<Rightarrow> ('w \<Rightarrow> 'v \<Rightarrow> 'v) \<Rightarrow> 'w adapter \<Rightarrow> 'v adapter" where
  "through get put a = \<lparr>ad_info = ad_info a, ad_probe = on_part get put (ad_probe a),
     ad_discover = on_part get put (ad_discover a), ad_read_all = (\<lambda>ds. on_part get put (ad_read_all a ds)),
     ad_write = (\<lambda>d c v. on_part get put (ad_write a d c v)), ad_shutdown = on_part get put (ad_shutdown a),
     ad_write_access = (\<lambda>d c v. ad_write_access a d c (get v)), ad_taken_controls = (\<lambda>v. ad_taken_controls a (get v)),
     ad_adopt = (\<lambda>taken. on_part get put (ad_adopt a taken))\<rparr>"

definition at_system :: "system_adapter adapter \<Rightarrow> (system_adapter \<times> 'o) adapter" where
  "at_system = through fst (\<lambda>w v. (w, snd v))"

definition beside :: "'o adapter \<Rightarrow> (system_adapter \<times> 'o) adapter" where
  "beside = through snd (\<lambda>x v. (fst v, x))"

lemma on_part_results [simp]:
  "fst (on_part get put f v) = fst (f (get v))" "snd (on_part get put f v) = put (snd (f (get v))) v"
  by (simp_all add: on_part_def split: prod.split)

lemma ad_id_parts [simp]: "ad_id (at_system a) = ad_id a" "ad_id (beside b) = ad_id b"
  by (simp_all add: ad_id_def at_system_def beside_def through_def)

lemma parts:
  "ad_info (at_system a) = ad_info a" "ad_probe (at_system a) = on_part fst (\<lambda>w v. (w, snd v)) (ad_probe a)"
  "ad_discover (at_system a) = on_part fst (\<lambda>w v. (w, snd v)) (ad_discover a)"
  "ad_shutdown (at_system a) = on_part fst (\<lambda>w v. (w, snd v)) (ad_shutdown a)"
  "ad_adopt (at_system a) taken = on_part fst (\<lambda>w v. (w, snd v)) (ad_adopt a taken)"
  "ad_taken_controls (at_system a) v = ad_taken_controls a (fst v)"
  "ad_info (beside b) = ad_info b" "ad_shutdown (beside b) = on_part snd (\<lambda>x v. (fst v, x)) (ad_shutdown b)"
  "ad_adopt (beside b) taken = on_part snd (\<lambda>x v. (fst v, x)) (ad_adopt b taken)"
  "ad_taken_controls (beside b) v = ad_taken_controls b (snd v)"
  by (simp_all add: at_system_def beside_def through_def)

text \<open>The adapters of a session in the order they are registered.\<close>

definition session_adapters :: "system_adapter \<Rightarrow> 'o adapter list \<Rightarrow> 'o adapter list \<Rightarrow> (system_adapter \<times> 'o) adapter list" where
  "session_adapters w0 before after = map beside before @ [at_system (system_adapter_of w0)] @ map beside after"

definition session_runtime :: "settings \<Rightarrow> system_adapter \<Rightarrow> 'o adapter list \<Rightarrow> 'o adapter list \<Rightarrow> 'o \<Rightarrow> int
    \<Rightarrow> (system_adapter \<times> 'o) runtime" where
  "session_runtime s w before after x k = runtime_new s (session_adapters w before after) k (w, x)"

lemma session_in:
  "a \<in> set (session_adapters w0 before after) \<Longrightarrow> a = at_system (system_adapter_of w0) \<or> (\<exists>b. a = beside b)"
  by (auto simp: session_adapters_def)

text \<open>What the system's adapter keeps of its own part, the session keeps.\<close>

lemma session_keeps:
  fixes J :: "system_adapter \<Rightarrow> bool"
  assumes "\<And>w. J w \<Longrightarrow> J (snd (system_probe w))" "\<And>w. J w \<Longrightarrow> J (snd (system_discover w))"
    "\<And>w ds. J w \<Longrightarrow> J (snd (system_read_all ds w))" "\<And>w d cap v. J w \<Longrightarrow> J (snd (system_write d cap v w))"
    "\<And>w taken. list_all entry_ok taken \<Longrightarrow> J w \<Longrightarrow> J (snd (system_adopt taken w))"
    "\<And>w. J w \<Longrightarrow> J (snd (system_shutdown w))"
  shows "sound_hardware (session_adapters w0 before after) p (\<lambda>v. J (fst v)) (\<lambda>d. True)"
  by unfold_locales (use assms in \<open>auto dest!: session_in simp: at_system_def beside_def through_def system_adapter_of_def\<close>)

interpretation quiet_bench: sound_hardware "session_adapters w0 before after" p "\<lambda>v. quiet files allow (fst v)" "\<lambda>d. True"
  for w0 before after p files allow
  by (rule session_keeps [of "quiet files allow"]) (simp_all add: quiet_steps)

interpretation system_bench: sound_hardware "session_adapters w0 before after" p "\<lambda>v. sy_life (fst v)" "\<lambda>d. True"
  for w0 before after p
  by (rule session_keeps [of sy_life]) (simp_all add: life_steps)

text \<open>What happens beside the program: the files are replaced by any others, sensors, modes and channels that
  come and go included, the clock is set, and the hardware of the other adapters does anything.\<close>

inductive session_change :: "system_adapter \<times> 'o \<Rightarrow> system_adapter \<times> 'o \<Rightarrow> bool" where
  "dirs_ok fs \<Longrightarrow> session_change (w, x) (w\<lparr>sy_fs := fs, sy_clock := k\<rparr>, y)"

text \<open>\<dots> or the files stay what they are.\<close>

inductive host_time :: "system_adapter \<times> 'o \<Rightarrow> system_adapter \<times> 'o \<Rightarrow> bool" where
  "host_time (w, x) (w\<lparr>sy_clock := k\<rparr>, y)"

lemma life_change: "session_change v v' \<Longrightarrow> sy_life (fst v) \<Longrightarrow> sy_life (fst v')"
  by (induction rule: session_change.induct) (simp add: sy_life.changed)

lemma quiet_time: "host_time v v' \<Longrightarrow> quiet files allow (fst v) \<Longrightarrow> quiet files allow (fst v')"
proof (induction rule: host_time.induct)
  case (1 w x k y)
  have "sy_life (w\<lparr>sy_fs := sy_fs w, sy_clock := k\<rparr>)"
    using sy_life.changed [of w "sy_fs w" k] 1 quiet_facts by (auto simp: quiet_def)
  then show ?case using 1 tree_duty_cong [of "w\<lparr>sy_clock := k\<rparr>" w] by (simp add: quiet_def)
qed

lemma quiet_new: "dirs_ok fs \<Longrightarrow> quiet (fs_files fs) allow (system_new dir allow fs observed st t)"
  using sy_life.booted by (auto simp: quiet_def tree_duty_def hwmon_channel_def) (auto simp: system_new_def)

lemma operated_quiet:
  assumes "dirs_ok fs" "no_nan (st_safety s)" "w = system_new dir allow fs observed st t"
    and "distinct (map ad_id (session_adapters w before after))"
    and "operated host_time (session_runtime s w before after x k) rt"
  shows "quiet (fs_files fs) allow (fst (rt_world rt))"
proof -
  have "quiet_bench.controlled w before after (sanitise (st_safety s)) (fs_files fs) allow (session_runtime s w before after x k)"
    unfolding session_runtime_def by (rule quiet_bench.boot_controlled) (use assms quiet_new in simp_all)
  with assms(5) have "quiet_bench.controlled w before after (sanitise (st_safety s)) (fs_files fs) allow rt"
    by (rule quiet_bench.operated_controlled) (use quiet_time in blast)
  then show ?thesis by (simp add: under_control_def)
qed

lemma operated_life:
  assumes "dirs_ok fs" "no_nan (st_safety s)" "w = system_new dir allow fs observed st t"
    and "distinct (map ad_id (session_adapters w before after))"
    and "operated session_change (session_runtime s w before after x k) rt"
  shows "under_control (session_adapters w before after) (sanitise (st_safety s)) (\<lambda>v. sy_life (fst v)) (\<lambda>d. True) rt"
proof -
  have "system_bench.controlled w before after (sanitise (st_safety s)) (session_runtime s w before after x k)"
    unfolding session_runtime_def by (rule system_bench.boot_controlled) (use assms sy_life.booted in simp_all)
  with assms(5) show ?thesis
    by (rule system_bench.operated_controlled) (use life_change in blast)
qed

text \<open>Read only unless somebody lists a channel: a session with the operating system's adapter, in operation
  for as long as its safety policy stays, changes no file but the duty and ownership files of
  fan channels, and with an empty list, as shipped, none at all, whatever is written, adopted, scanned
  or shut down, when nothing else changes a file meanwhile.\<close>
theorem read_only_unless_listed:
  assumes "dirs_ok fs" "no_nan (st_safety s)" "w = system_new dir allow fs observed st t"
    and "distinct (map ad_id (session_adapters w before after))"
    and "operated host_time (session_runtime s w before after x k) rt"
    and "fs_files (sy_fs (fst (rt_world rt))) p \<noteq> fs_files fs p"
  shows "allow \<noteq> [] \<and> duty_file p"
  using operated_quiet [OF assms(1-5)] assms(6) by (simp add: quiet_def)

theorem read_only_unless_listed_witness:
  "fs_files (sy_fs (fst (rt_world (fst (poll_once (session_runtime default_settings
      (system_new (Some ''/h'') [] demo_fs (\<lambda>_. demo_view) (\<lambda>_. None) 0) [] [] () 0)))))) = fs_files demo_fs"
proof -
  let ?w = "system_new (Some ''/h'') [] demo_fs (\<lambda>_. demo_view) (\<lambda>_. None) 0"
  let ?rt = "session_runtime default_settings ?w [] [] () 0"
  have n: "no_nan (st_safety default_settings)" using demo_sane unfolding sane_settings_def by (blast intro: sane_no_nan)
  have op: "operated host_time ?rt (fst (poll_once ?rt))" by (intro operated.polled operated.idle)
  have d: "distinct (map ad_id (session_adapters ?w [] []))" by (simp add: session_adapters_def)
  show ?thesis by (rule ext, rule ccontr) (drule read_only_unless_listed [OF demo_dirs n refl d op], simp)
qed

text \<open>The exit path: what the runtime reports as relinquished.\<close>

lemma release_relinquishes_nothing: "cl_relinquished (snd (release_control rt)) = []"
proof -
  have k: "cl_relinquished (snd (release_channel x y)) = cl_relinquished (snd y)" for x y
    by (cases y) (auto simp: release_channel_def push_channel_def push_failure_def split_def split: sum.split prod.split write_status.split)
  have g: "cl_relinquished (snd (fold release_channel xs y)) = cl_relinquished (snd y)" for xs y
    by (induction xs arbitrary: y) (simp_all only: fold_simps k)
  show ?thesis unfolding release_control_def by (simp add: g) (simp add: default_release_def)
qed

lemma logged_world [simp]:
  "rt_world (record_lifecycle x m rt) = rt_world rt" "rt_adapters (record_lifecycle x m rt) = rt_adapters rt"
  "rt_settings (record_lifecycle x m rt) = rt_settings rt" "rt_running (record_lifecycle x m rt) = rt_running rt"
  "rt_world (audit_if b x m rt) = rt_world rt" "rt_adapters (audit_if b x m rt) = rt_adapters rt"
  "rt_world (publish ev rt) = rt_world rt" "rt_adapters (publish ev rt) = rt_adapters rt"
  "rt_settings (publish ev rt) = rt_settings rt" "rt_running (publish ev rt) = rt_running rt"
  by (simp_all add: audit_if_def record_lifecycle_def record_audit_def publish_def)

lemma published_world [simp]:
  "rt_world (fold (\<lambda>x. publish (f x)) xs rt) = rt_world rt" "rt_adapters (fold (\<lambda>x. publish (f x)) xs rt) = rt_adapters rt"
  "rt_settings (fold (\<lambda>x. publish (f x)) xs rt) = rt_settings rt"
  "rt_running (fold (\<lambda>x. publish (f x)) xs rt) = rt_running rt"
  by (induction xs arbitrary: rt) simp_all

lemma shutdown_outcomes_world: "rt_world (fst (fold shutdown_outcome outs x)) = rt_world (fst x)"
proof (induction outs arbitrary: x)
  case (Cons out outs)
  have "rt_world (fst (shutdown_outcome out x)) = rt_world (fst x)"
    by (cases x) (simp add: shutdown_outcome_def split: option.split)
  with Cons show ?case by simp
qed simp

lemma shutdown_reported:
  "i \<in> set (cl_relinquished (snd (fold shutdown_outcome outs x)))
    \<Longrightarrow> i \<in> set (cl_relinquished (snd x)) \<or> (\<exists>o1 \<in> set outs. sd_adapter o1 = i \<and> sd_error o1 = None)"
proof (induction outs arbitrary: x)
  case (Cons out outs)
  have "i \<in> set (cl_relinquished (snd (shutdown_outcome out x)))
    \<Longrightarrow> i \<in> set (cl_relinquished (snd x)) \<or> sd_adapter out = i \<and> sd_error out = None"
    by (cases x) (auto simp: shutdown_outcome_def split: option.splits if_splits)
  with Cons show ?case by fastforce
qed simp

lemma shutdown_parts:
  assumes "rt_running rt" "release_control (rt\<lparr>rt_running := False\<rparr>) = (rt1, rel1)"
    and "shutdown_all (rt_adapters rt1) (rt_world rt1) = (outs, v)"
    and "i \<in> set (cl_relinquished (snd (runtime_shutdown rt)))"
  shows "(i \<in> set (cl_relinquished rel1) \<or> (\<exists>out \<in> set outs. sd_adapter out = i \<and> sd_error out = None))
    \<and> rt_world (fst (runtime_shutdown rt)) = v"
proof -
  let ?a = "audit_if (cl_rejected rel1 \<noteq> [] \<or> cl_failed rel1 \<noteq> []) ''control_release_failed''
      ([count_of (cl_rejected rel1), Txt '' output(s) refused the fail-safe duty and '',
        count_of (cl_failed rel1), Txt '' failed: ''] @ join_messages '' | '' (release_problems rel1))
    (audit_if (cl_unconfirmed rel1 \<noteq> []) ''control_release_unconfirmed''
      [count_of (cl_unconfirmed rel1), Txt '' output(s) accepted the fail-safe duty but could not be read back; '',
       Txt ''their value is unknown and this is not a confirmed release'']
    (audit_if (cl_confirmed rel1 \<noteq> []) ''control_released''
      [count_of (cl_confirmed rel1), Txt '' output(s) confirmed at the fail-safe duty'']
    (audit_if (cl_skipped_by_config rel1) ''control_release_skipped''
      [Txt ''relinquish_on_exit is off: the exit path wrote nothing and claims nothing''] rt1)))"
  obtain rt3 rel3 where f: "fold shutdown_outcome outs (?a\<lparr>rt_world := v\<rparr>, rel1) = (rt3, rel3)"
    using prod.exhaust by blast
  have "rt_world rt3 = v" using shutdown_outcomes_world [of outs "(?a\<lparr>rt_world := v\<rparr>, rel1)"] unfolding f by simp
  moreover have "snd (runtime_shutdown rt) = rel3 \<and> rt_world (fst (runtime_shutdown rt)) = rt_world rt3"
    by (simp only: runtime_shutdown_def assms(1) not_True_eq_False if_False Let_def assms(2) prod.case logged_world
        assms(3) f fst_conv snd_conv)
  ultimately show ?thesis using shutdown_reported [of i outs "(?a\<lparr>rt_world := v\<rparr>, rel1)"] assms(4) unfolding f by simp
qed

text \<open>In a session the shutdowns of the others leave the system's part alone.\<close>

lemma shutdown_all_append:
  "shutdown_all (as @ bs) v = (let (o1, v) = shutdown_all as v; (o2, v) = shutdown_all bs v in (o1 @ o2, v))"
  by (induction as arbitrary: v) (simp_all add: Let_def split_def)

lemma shutdown_beside:
  "fst (snd (shutdown_all (map beside bs) v)) = fst v
    \<and> map sd_adapter (fst (shutdown_all (map beside bs) v)) = map ad_id bs"
  by (induction bs arbitrary: v)
    (simp_all add: Let_def split_def beside_def through_def ad_id_def)

lemma shutdown_session:
  assumes "distinct (map ad_id (session_adapters w0 before after))"
    and "shutdown_all (session_adapters w0 before after) v = (outs, v')" and "out \<in> set outs"
    and "sd_adapter out = SYSTEM_ID" "sd_error out = None"
  shows "system_shutdown (fst v) = (Inr (), fst v')"
proof -
  obtain o1 v1 where 1: "shutdown_all (map beside before) v = (o1, v1)" using prod.exhaust by blast
  obtain q w1 where 2: "system_shutdown (fst v1) = (q, w1)" using prod.exhaust by blast
  obtain o3 v3 where 3: "shutdown_all (map beside after) (w1, snd v1) = (o3, v3)" using prod.exhaust by blast
  note b = shutdown_beside [of before v, unfolded 1] and c = shutdown_beside [of after "(w1, snd v1)", unfolded 3]
  let ?e = "\<lparr>sd_adapter = SYSTEM_ID, sd_controls_cooling = ac_can_control_cooling (ai_capabilities (system_info w0)),
    sd_hands_back = ac_hands_back_control_on_shutdown (ai_capabilities (system_info w0)),
    sd_error = (case q of Inl e \<Rightarrow> Some (error_display e) | Inr _ \<Rightarrow> None)\<rparr>"
  have i: "ad_id (system_adapter_of w0) = SYSTEM_ID"
    by (simp add: ad_id_def system_adapter_of_def system_info_def adapter_info_new_def)
  have os: "outs = o1 @ [?e] @ o3" "v' = v3"
    using assms(2) i
    by (auto simp: session_adapters_def shutdown_all_append 1 3 at_system_def through_def system_adapter_of_def on_part_def 2
        Let_def ad_id_def system_info_def adapter_info_new_def)
  have "SYSTEM_ID \<notin> ad_id ` set before" "SYSTEM_ID \<notin> ad_id ` set after"
    using assms(1) i by (auto simp: session_adapters_def comp_def)
  then have "SYSTEM_ID \<notin> sd_adapter ` set o1" "SYSTEM_ID \<notin> sd_adapter ` set o3"
    using b c by (metis fst_conv list.set_map)+
  then have "out \<notin> set o1" "out \<notin> set o3" using assms(4) by (metis image_eqI)+
  then have "out = ?e" using assms(3) os(1) by auto
  then have "q = Inr ()" using assms(5) by (cases q) simp_all
  then show ?thesis using 2 b c os(2) by simp
qed

text \<open>C6. The exit hands control back: in a session with any other adapters under ids of their own, run under one
  safety policy (its numbers no NaN), over files that may change by themselves in any way between two
  operations, when the runtime's shutdown reports the operating system's adapter among those that
  relinquished control, the adapter holds no channel any more. Every channel it held after the fail-safe
  writes is still in its last scan, and where that scan found an ownership file, and the file can be read,
  it says the mode the channel was held for. A channel for which the scan found no ownership file is given
  up without a write.\<close>
theorem exit_hands_control_back:
  assumes "dirs_ok fs" "no_nan (st_safety s)" "w = system_new dir allow fs observed st t"
    and "distinct (map ad_id (session_adapters w before after))"
    and "operated session_change (session_runtime s w before after x k) rt" and "rt_running rt"
    and "runtime_shutdown rt = (rt', rel)" and "SYSTEM_ID \<in> set (cl_relinquished rel)"
    and "held = fst (rt_world (fst (release_control (rt\<lparr>rt_running := False\<rparr>))))" and "(i, m) \<in> set (sy_taken held)"
  shows "sy_taken (fst (rt_world rt')) = [] \<and> (\<exists>f. hwmon_channel held i = Some f \<and>
    (\<forall>p m0. fc_mode f = Some (p, m0) \<and> readable (sy_fs held) p \<longrightarrow> mode_at (sy_fs (fst (rt_world rt'))) p = m))"
proof -
  obtain rt1 rel1 where r: "release_control (rt\<lparr>rt_running := False\<rparr>) = (rt1, rel1)" by fastforce
  have "system_bench.controlled w before after (sanitise (st_safety s)) (rt\<lparr>rt_running := False\<rparr>)"
    using operated_life [OF assms(1-5)] by simp
  then have "system_bench.controlled w before after (sanitise (st_safety s)) rt1"
    using system_bench.release_controlled [of w before after _ "rt\<lparr>rt_running := False\<rparr>"] by (simp add: r)
  then have a: "rt_adapters rt1 = session_adapters w before after" and life: "sy_life held"
    by (simp_all add: under_control_def assms(9) r)
  obtain outs v where sh: "shutdown_all (session_adapters w before after) (rt_world rt1) = (outs, v)"
    using prod.exhaust by blast
  have "rt' = fst (runtime_shutdown rt)" "rel = snd (runtime_shutdown rt)" using assms(7) by simp_all
  then have w: "(\<exists>out \<in> set outs. sd_adapter out = SYSTEM_ID \<and> sd_error out = None)" "rt_world rt' = v"
    using shutdown_parts [OF assms(6) r sh [folded a]] assms(8) release_relinquishes_nothing [of "rt\<lparr>rt_running := False\<rparr>"]
    by (simp_all add: r)
  from w(1) obtain out where "out \<in> set outs" "sd_adapter out = SYSTEM_ID" "sd_error out = None" by blast
  from shutdown_session [OF assms(4) sh this] have "system_shutdown held = (Inr (), fst (rt_world rt'))"
    by (simp add: assms(9) r w(2))
  with life assms(10) show ?thesis
    using shutdown_restores [of held "fst (rt_world rt')" i m] life_life_ok taken_shutdown [of held]
    by (simp add: life_ok_def)
qed

text \<open>Where a run's world comes from.\<close>

lemma refresh_keeps:
  "rt_world (fst (refresh_devices rt))
    = snd (snd (discover_all (rt_settings rt) (rt_clock rt) (rt_adapters rt) (rt_health rt, rt_world rt)))"
  "rt_settings (fst (refresh_devices rt)) = rt_settings rt" "rt_adapters (fst (refresh_devices rt)) = rt_adapters rt"
  "rt_running (fst (refresh_devices rt)) = rt_running rt"
proof -
  define same where "same q r \<longleftrightarrow> rt_world q = rt_world r \<and> rt_settings q = rt_settings r \<and> rt_adapters q = rt_adapters r
    \<and> rt_running q = rt_running r" for q r :: "'a runtime"
  have "same (fold offline_unusable xs r) r" "same (fold seed_state ys r) r"
    "same (fold announce_added zs r) r" "same (fold forget_removed us r) r"
    "same (fold (\<lambda>(info, st). publish (AdapterStatusChanged info st)) vs r) r" for xs ys zs us vs and r :: "'a runtime"
    by (rule fold_keeps [where P = "\<lambda>q. same q r"];
      auto simp: same_def offline_unusable_def seed_state_def announce_added_def forget_removed_def publish_def split: option.split)+
  moreover have "same (fst (fold reconcile_adapter xs r)) (fst r)" for xs and r :: "'a runtime \<times> reconcile_diff \<times> device list"
    by (rule fold_keeps [where P = "\<lambda>q. same (fst q) (fst r)"])
      (auto simp: same_def reconcile_adapter_def Let_def split: prod.split)
  ultimately show
    "rt_world (fst (refresh_devices rt))
      = snd (snd (discover_all (rt_settings rt) (rt_clock rt) (rt_adapters rt) (rt_health rt, rt_world rt)))"
    "rt_settings (fst (refresh_devices rt)) = rt_settings rt" "rt_adapters (fst (refresh_devices rt)) = rt_adapters rt"
    "rt_running (fst (refresh_devices rt)) = rt_running rt"
    by (simp_all add: refresh_devices_def split_def Let_def upd_stats_def same_def)
qed

lemma quiet_poll:
  assumes "\<not> st_automation_enabled (rt_settings rt)"
    and "\<And>a ds w. a \<in> set (rt_adapters rt) \<Longrightarrow> K w \<Longrightarrow> K (snd (ad_read_all a ds w))" and "K (rt_world rt)"
  shows "K (rt_world (fst (poll_once rt))) \<and> rt_settings (fst (poll_once rt)) = rt_settings rt
    \<and> rt_adapters (fst (poll_once rt)) = rt_adapters rt \<and> rt_running (fst (poll_once rt)) = rt_running rt"
proof -
  let ?P = "\<lambda>y. rt_settings (fst y) = rt_settings rt \<and> rt_adapters (fst y) = rt_adapters rt
    \<and> rt_running (fst y) = rt_running rt \<and> K (rt_world (fst y))"
  have r: "?P (fold (poll_result units) rs y)" if "?P y" for units rs y
    by (rule fold_keeps [where P = ?P])
      (use that in \<open>auto simp: poll_result_def Let_def split: sum.split prod.split\<close>)
  have a: "?P (poll_adapter ts units a y)" if m: "a \<in> set (rt_adapters rt)" and y: "?P y" for ts units a y
  proof -
    obtain x q where x: "y = (x, q)" by (cases y)
    let ?b = "filter (\<lambda>d. dev_adapter d = ad_id a) ts"
    let ?x = "x\<lparr>rt_adapter_last_poll := (rt_adapter_last_poll x)(ad_id a \<mapsto> rt_clock x),
      rt_world := snd (ad_read_all a ?b (rt_world x))\<rparr>"
    have "K (snd (ad_read_all a ?b (rt_world x)))" using assms(2) [OF m] y x by simp
    then have "?P (?x, q)" using y x by simp
    then have "?P (fold (poll_result units) (fst (ad_read_all a ?b (rt_world x))) (?x, q))" by (rule r)
    then show ?thesis using y by (cases q) (simp add: x poll_adapter_def Let_def split_def)
  qed
  have "?P (fold (poll_adapter ts units) (rt_adapters rt) (rt, 0, 0))" for ts units
    by (rule fold_keeps_in [where P = ?P]) (use a assms(3) in simp_all)
  then show ?thesis
    using assms(1) by (simp add: poll_once_def Let_def split_def upd_stats_def supervise_safety_def)
qed

text \<open>A session of this adapter alone scans once when it starts.\<close>

lemma discover_all_system:
  assumes "adapter_enabled s SYSTEM_ID"
  shows "snd (snd (discover_all s now [at_system (system_adapter_of w0)] (h, v)))
    = (snd (system_discover (snd (system_probe (fst v)))), snd v)"
proof -
  obtain w x where v: "v = (w, x)" by fastforce
  have i: "ad_id (system_adapter_of w0) = SYSTEM_ID" "ai_yields_to (system_info w0) = None"
    by (simp_all add: ad_id_def system_adapter_of_def system_info_def adapter_info_new_def)
  have "status_usable (fst (system_probe w))"
    by (auto simp: system_probe_def Let_def split_def status_usable_def state_usable_def split: option.split)
  then show ?thesis
    using assms i
    by (auto simp: discover_all_def probe_adapter_def discover_adapter_def Let_def split_def parts v
        split: sum.split prod.split) (auto simp: system_adapter_of_def on_part_def Let_def split: prod.splits)
qed

text \<open>A run over the board that leaves fans alone by itself, and adopts what an earlier process held.\<close>

definition calm_settings :: settings where
  "calm_settings = default_settings\<lparr>st_automation_enabled := False,
     st_safety := (st_safety default_settings)\<lparr>sp_relinquish_on_exit := False\<rparr>\<rparr>"

definition demo_held :: taken_control where
  "demo_held = \<lparr>tk_device_id = ''fan.system.nct_fan1'', tk_original = Some 2, tk_original_text = ''auto''\<rparr>"

definition demo_started :: "(system_adapter \<times> unit) runtime" where
  "demo_started = runtime_start (session_runtime calm_settings demo_system [] [] () 0)"

definition demo_run :: "(system_adapter \<times> unit) runtime" where
  "demo_run = fst (adopt_taken_controls [demo_held] demo_started)"

definition demo_ready :: "system_adapter \<Rightarrow> bool" where
  "demo_ready w \<longleftrightarrow> sy_allow w = [''fan.system.nct_fan1''] \<and> hwmon_channel w ''fan.system.nct_fan1'' = Some demo_channel
     \<and> sy_fs w = demo_fs \<and> sy_taken w = []"

lemma demo_ready_read: "demo_ready w \<Longrightarrow> demo_ready (snd (system_read_all ds w))"
  by (simp add: demo_ready_def system_views hwmon_channel_def views_holdings)

lemma calm_sane: "sane_settings calm_settings"
  using demo_sane by (simp add: calm_settings_def sane_settings_def sane_def)

lemma calm_runtime:
  "fst (sanitise_settings calm_settings) = calm_settings"
  "session_runtime calm_settings w [] [] () 0 = runtime_new calm_settings [at_system (system_adapter_of w)] 0 (w, ())"
  "rt_settings (session_runtime calm_settings w [] [] () 0) = calm_settings"
  "rt_adapters (session_runtime calm_settings w [] [] () 0) = [at_system (system_adapter_of w)]"
  "rt_world (session_runtime calm_settings w [] [] () 0) = (w, ())" "\<not> rt_running (session_runtime calm_settings w [] [] () 0)"
proof -
  show e: "fst (sanitise_settings calm_settings) = calm_settings" by (simp add: sane_settings_id calm_sane)
  show "session_runtime calm_settings w [] [] () 0 = runtime_new calm_settings [at_system (system_adapter_of w)] 0 (w, ())"
    "rt_settings (session_runtime calm_settings w [] [] () 0) = calm_settings"
    "rt_adapters (session_runtime calm_settings w [] [] () 0) = [at_system (system_adapter_of w)]"
    "rt_world (session_runtime calm_settings w [] [] () 0) = (w, ())" "\<not> rt_running (session_runtime calm_settings w [] [] () 0)"
    by (simp_all add: session_runtime_def session_adapters_def runtime_new_def Let_def e deduplicate_adapters_def)
qed

lemma demo_probed:
  "sy_root (snd (system_probe w)) = sy_root w"
  by (simp add: system_probe_def split_def Let_def build_devices_world sy_refresh_def)

lemma demo_scan_ready:
  assumes "w = snd (system_probe demo_system)" shows "demo_ready (snd (system_discover w))"
proof -
  have r: "sy_root w = Some ''/h''" "sy_fs w = demo_fs" "sy_allow w = [''fan.system.nct_fan1'']" "sy_taken w = []"
    by (simp_all add: assms demo_probed system_views) (simp_all add: demo_system_def system_new_def)
  have "sy_tree (scan_hwmon w) = Some (discover_hwmon demo_fs ''/h'')" by (simp add: scan_hwmon_def r)
  then have "sy_tree (snd (system_discover w)) = Some (discover_hwmon demo_fs ''/h'')" by (simp add: views_holdings)
  then show ?thesis
    by (simp add: demo_ready_def system_views r hwmon_channel_def demo_scan channel_by_device_id_def channels_def demo_channel_id)
qed

lemma demo_started:
  "demo_ready (fst (rt_world demo_started))" "rt_settings demo_started = calm_settings" "rt_running demo_started"
  "rt_adapters demo_started = [at_system (system_adapter_of demo_system)]"
proof -
  let ?r = "session_runtime calm_settings demo_system [] [] () 0"
  let ?r1 = "?r\<lparr>rt_running := True, rt_started_at_ms := rt_clock ?r\<rparr>"
  let ?r2 = "fst (refresh_devices ?r1)"
  have e: "adapter_enabled calm_settings SYSTEM_ID"
    by (simp add: adapter_enabled_def calm_settings_def default_settings_def)
  have w: "demo_ready (fst (rt_world ?r2))"
    using demo_scan_ready [OF refl] by (simp add: refresh_keeps(1) calm_runtime(3-5) discover_all_system [OF e])
  have k: "rt_settings ?r2 = calm_settings" "rt_adapters ?r2 = [at_system (system_adapter_of demo_system)]" "rt_running ?r2"
    by (simp_all add: refresh_keeps(2-4) calm_runtime(3,4))
  have q: "\<not> st_automation_enabled (rt_settings ?r2)" unfolding k by (simp add: calm_settings_def)
  have a: "demo_ready (fst (snd (ad_read_all a ds v)))" if "a \<in> set (rt_adapters ?r2)" "demo_ready (fst v)" for a ds v
    using that k(2) demo_ready_read by (simp add: system_adapter_of_def at_system_def through_def)
  have p: "demo_ready (fst (rt_world (fst (poll_once ?r2)))) \<and> rt_settings (fst (poll_once ?r2)) = rt_settings ?r2
    \<and> rt_adapters (fst (poll_once ?r2)) = rt_adapters ?r2 \<and> rt_running (fst (poll_once ?r2)) = rt_running ?r2"
    by (rule quiet_poll [where K = "\<lambda>v. demo_ready (fst v)", OF q a w])
  obtain x m ev where s: "demo_started = publish ev (record_lifecycle x m (fst (poll_once ?r2)))"
    unfolding demo_started_def runtime_start_def
    by (simp only: calm_runtime(6) if_False Let_def split_def prod.sel)
  show "demo_ready (fst (rt_world demo_started))" "rt_settings demo_started = calm_settings" "rt_running demo_started"
    "rt_adapters demo_started = [at_system (system_adapter_of demo_system)]"
    unfolding s using p k by simp_all
qed

lemma demo_run_world:
  "\<exists>fs. restore_control demo_channel (Some (Automatic 2)) demo_fs = (Inr (), fs) \<and> readable fs ''/h/hwmon0/pwm1_enable''
     \<and> fst (rt_world demo_run) = (fst (rt_world demo_started))\<lparr>sy_taken := [(''fan.system.nct_fan1'', Automatic 2)], sy_fs := fs\<rparr>"
proof -
  have r: "sy_allow (fst (rt_world demo_started)) = [''fan.system.nct_fan1'']"
    "hwmon_channel (fst (rt_world demo_started)) ''fan.system.nct_fan1'' = Some demo_channel"
    "sy_fs (fst (rt_world demo_started)) = demo_fs" "sy_taken (fst (rt_world demo_started)) = []"
    using demo_started(1) by (simp_all add: demo_ready_def)
  obtain fs where fs: "restore_control demo_channel (Some (Automatic 2)) demo_fs = (Inr (), fs)"
    "readable fs ''/h/hwmon0/pwm1_enable''"
    by (auto simp: restore_control_def demo_channel_def write_file_def demo_fs_def demo_file_def put_text_def readable_def)
  have m: "from_restored 2 = Automatic 2" by (simp add: from_restored_def)
  have "snd (system_adopt [demo_held] (fst (rt_world demo_started)))
      = (fst (rt_world demo_started))\<lparr>sy_taken := [(''fan.system.nct_fan1'', Automatic 2)], sy_fs := fs\<rparr>"
    by (simp add: system_adopt_def adopt_entry_def demo_held_def Let_def r m fs(1) taken_put_def)
  then show ?thesis using fs
    by (auto simp: demo_run_def adopt_taken_controls_def demo_started(4) system_adapter_of_def at_system_def through_def
        Let_def split_def)
qed

lemma system_shutdown_row: "shutdown_all [at_system (system_adapter_of w0)] v
    = ([\<lparr>sd_adapter = SYSTEM_ID, sd_controls_cooling = ac_can_control_cooling (ai_capabilities (system_info w0)),
         sd_hands_back = ac_hands_back_control_on_shutdown (ai_capabilities (system_info w0)),
         sd_error = (case fst (system_shutdown (fst v)) of Inl e \<Rightarrow> Some (error_display e) | Inr _ \<Rightarrow> None)\<rparr>],
       (snd (system_shutdown (fst v)), snd v))"
  by (simp add: system_adapter_of_def at_system_def through_def Let_def split_def ad_id_def system_info_def adapter_info_new_def)

lemma demo_controls: "ac_can_control_cooling (ai_capabilities (system_info demo_system))"
  "ac_hands_back_control_on_shutdown (ai_capabilities (system_info demo_system))"
  by (simp_all add: system_info_def demo_system_def system_new_def adapter_info_new_def hands_back_control_def cooling_control_def)

theorem exit_hands_control_back_witness:
  "\<exists>rt' rel. runtime_shutdown demo_run = (rt', rel) \<and> cl_relinquished rel = [SYSTEM_ID]
     \<and> sy_taken (fst (rt_world demo_run)) = [(''fan.system.nct_fan1'', Automatic 2)]
     \<and> mode_at (sy_fs (fst (rt_world rt'))) ''/h/hwmon0/pwm1_enable'' = Automatic 2"
proof -
  obtain fs where fs: "restore_control demo_channel (Some (Automatic 2)) demo_fs = (Inr (), fs)" "readable fs ''/h/hwmon0/pwm1_enable''"
    and w: "fst (rt_world demo_run) = (fst (rt_world demo_started))\<lparr>sy_taken := [(''fan.system.nct_fan1'', Automatic 2)], sy_fs := fs\<rparr>"
    using demo_run_world by blast
  have k: "rt_settings demo_run = calm_settings" "rt_adapters demo_run = [at_system (system_adapter_of demo_system)]" "rt_running demo_run"
    using demo_started by (simp_all add: demo_run_def adopt_taken_controls_def Let_def split_def)
  have rel: "release_control (demo_run\<lparr>rt_running := False\<rparr>)
      = (demo_run\<lparr>rt_running := False\<rparr>, default_release\<lparr>cl_skipped_by_config := True\<rparr>)"
    by (simp add: release_control_def k calm_settings_def)
  have c: "hwmon_channel (fst (rt_world demo_run)) ''fan.system.nct_fan1'' = Some demo_channel"
    using demo_started(1) by (simp add: w demo_ready_def)
  obtain w2 where sd: "system_shutdown (fst (rt_world demo_run)) = (Inr (), w2)"
  proof -
    have "\<exists>fs'. restore_control demo_channel (Some (Automatic 2)) fs = (Inr (), fs')"
      using fs by (auto simp: restore_control_def demo_channel_def write_file_def demo_fs_def demo_file_def put_text_def
          split: if_splits)
    then show ?thesis using that c by (auto simp: system_shutdown_def Let_def w give_back_def)
  qed
  obtain rt' rl where e: "runtime_shutdown demo_run = (rt', rl)" by fastforce
  then have "rl = snd (runtime_shutdown demo_run)" by simp
  then have r: "cl_relinquished rl = [SYSTEM_ID]"
    by (simp add: runtime_shutdown_def k(3) rel Let_def split_def k(2) system_shutdown_row sd shutdown_outcome_def
        default_release_def demo_controls del: shutdown_all.simps)
  have "operated session_change (session_runtime calm_settings demo_system [] [] () 0) demo_run"
    unfolding demo_run_def demo_started_def
    by (intro operated.adopted operated.started operated.idle) (simp add: demo_held_def entry_ok_def is_i64_def)
  moreover have "no_nan (st_safety calm_settings)"
    using calm_sane unfolding sane_settings_def by (blast intro: sane_no_nan)
  ultimately have "sy_taken (fst (rt_world rt')) = [] \<and> (\<exists>f. hwmon_channel (fst (rt_world demo_run)) ''fan.system.nct_fan1'' = Some f \<and>
      (\<forall>p m0. fc_mode f = Some (p, m0) \<and> readable (sy_fs (fst (rt_world demo_run))) p \<longrightarrow> mode_at (sy_fs (fst (rt_world rt'))) p = Automatic 2))"
    by (intro exit_hands_control_back [OF demo_dirs _ demo_system_def _ _ k(3) e]) (simp_all add: r rel w session_adapters_def)
  then have "mode_at (sy_fs (fst (rt_world rt'))) ''/h/hwmon0/pwm1_enable'' = Automatic 2"
    using fs(2) unfolding c by (auto simp: w demo_channel_def)
  with e r show ?thesis by (simp add: w)
qed

end
