(* ===== verification/Evaluator.thy ===== *)
theory Evaluator
  imports Rule
begin

section \<open>Rule evaluation\<close>

text \<open>
  \<open>crates/ohm-automation/src/evaluator.rs\<close>: one evaluation of one rule, from its state and
  the current readings to a decision and the next state. \<open>None\<close> is a panic of the code
  (\<open>f64::clamp\<close> on crossed bounds, the index of an empty curve); \<open>evaluate_total\<close> shows that
  a validated rule on a channel with ordered bounds never gets there. The millisecond clock
  is an \<open>i64\<close>: the sum \<open>now + interval\<close> wraps as in a release build, the differences saturate.
\<close>

datatype rule_status =
  Disabled | Idle | Applied | Held | Fallback | Gated | Unconfirmed | Released | Error

fun rule_status_str :: "rule_status \<Rightarrow> string" where
  "rule_status_str Disabled = ''disabled''"
| "rule_status_str Idle = ''idle''"
| "rule_status_str Applied = ''applied''"
| "rule_status_str Held = ''held''"
| "rule_status_str Fallback = ''fallback''"
| "rule_status_str Gated = ''gated''"
| "rule_status_str Unconfirmed = ''unconfirmed''"
| "rule_status_str Released = ''released''"
| "rule_status_str Error = ''error''"

definition is_active :: "rule_status \<Rightarrow> bool" where
  "is_active s \<longleftrightarrow> s = Applied \<or> s = Held"

definition is_standing_down :: "rule_status \<Rightarrow> bool" where
  "is_standing_down s \<longleftrightarrow> s = Gated \<or> s = Fallback \<or> s = Released"

definition is_unconfirmed :: "rule_status \<Rightarrow> bool" where
  "is_unconfirmed s \<longleftrightarrow> s = Unconfirmed"

record control_hold =
  ch_device :: string
  ch_capability :: string
  ch_confirmed :: "f64 option"
  ch_last_write_ms :: int

definition hold_is :: "control_hold \<Rightarrow> string \<Rightarrow> string \<Rightarrow> bool" where
  "hold_is h dev cap \<longleftrightarrow> ch_device h = dev \<and> ch_capability h = cap"

definition hold_id :: "control_hold \<Rightarrow> string" where
  "hold_id h = ch_device h @ ''/'' @ ch_capability h"

record rule_state =
  rs_rule_id :: string
  rs_applied_output :: "f64 option"
  rs_control :: "control_hold option"
  rs_armed_input :: f64
  rs_last_input :: "f64 option"
  rs_last_input_ms :: int
  rs_last_condition :: "f64 option"
  rs_last_condition_ms :: int
  rs_gate_open :: bool
  rs_gate_announced :: bool
  rs_last_write_ms :: int
  rs_next_due_ms :: int
  rs_last_status :: rule_status
  rs_last_message :: message
  rs_evaluations :: nat
  rs_writes :: nat
  rs_skipped :: nat
  rs_fallbacks :: nat
  rs_released :: bool
  rs_unconfirmed_writes :: nat
  rs_consecutive_unconfirmed :: nat

definition rule_state_new :: "string \<Rightarrow> rule_state" where
  "rule_state_new i = \<lparr>rs_rule_id = i, rs_applied_output = None, rs_control = None,
     rs_armed_input = NaN, rs_last_input = None, rs_last_input_ms = 0, rs_last_condition = None,
     rs_last_condition_ms = 0, rs_gate_open = False, rs_gate_announced = False,
     rs_last_write_ms = 0, rs_next_due_ms = 0, rs_last_status = Idle,
     rs_last_message = [Txt ''not evaluated yet''], rs_evaluations = 0, rs_writes = 0,
     rs_skipped = 0, rs_fallbacks = 0, rs_released = False, rs_unconfirmed_writes = 0,
     rs_consecutive_unconfirmed = 0\<rparr>"

definition rule_state_reset :: "rule_state \<Rightarrow> rule_state" where
  "rule_state_reset st = st\<lparr>rs_applied_output := None, rs_armed_input := NaN,
     rs_released := False, rs_gate_open := False, rs_gate_announced := False,
     rs_consecutive_unconfirmed := 0\<rparr>"

record evaluation_input =
  ei_source_value :: "f64 option"
  ei_condition_value :: "f64 option"
  ei_now_ms :: int
  ei_target_min :: f64
  ei_target_max :: f64
  ei_safe_default_duty :: f64
  ei_source_label :: string
  ei_source_stale :: bool

definition evaluation_input_new :: "f64 option \<Rightarrow> int \<Rightarrow> evaluation_input" where
  "evaluation_input_new v now = \<lparr>ei_source_value = v, ei_condition_value = None, ei_now_ms = now,
     ei_target_min = Fin 0, ei_target_max = Fin 100, ei_safe_default_duty = Fin 70,
     ei_source_label = ''source'', ei_source_stale = False\<rparr>"

record evaluation =
  ev_status :: rule_status
  ev_output :: "f64 option"
  ev_should_write :: bool
  ev_message :: message
  ev_next_due_ms :: int
  ev_release :: bool

definition is_noop :: "evaluation \<Rightarrow> bool" where
  "is_noop ev \<longleftrightarrow> \<not> ev_should_write ev"

subsection \<open>Grace periods\<close>

text \<open>\<open>filter(|v| v.is_finite())\<close> on an optional reading.\<close>

definition finite_only :: "f64 option \<Rightarrow> f64 option" where
  "finite_only v = (case v of Some x \<Rightarrow> if is_finite x then Some x else None | None \<Rightarrow> None)"

definition grace_ms :: "rule \<Rightarrow> int" where
  "grace_ms r = sat_i64 (min i64_max (int (sensor_timeout_s (rl_fallback r))) * 1000)"

definition silence :: "int \<Rightarrow> int \<Rightarrow> int" where
  "silence now_ms since = sat_i64 (now_ms - since)"

definition stale_value_within_grace :: "rule \<Rightarrow> rule_state \<Rightarrow> evaluation_input \<Rightarrow> f64 option" where
  "stale_value_within_grace r st inp =
    (if grace_ms r \<le> 0 then None
     else case finite_only (rs_last_input st) of None \<Rightarrow> None
     | Some prev \<Rightarrow>
         if rs_last_input_ms st \<le> 0 then None
         else if silence (ei_now_ms inp) (rs_last_input_ms st) < grace_ms r then Some prev
         else None)"

datatype gate_outcome = Open | Closed f64 | SourceUnavailable

definition gate_of :: "condition \<Rightarrow> f64 \<Rightarrow> gate_outcome" where
  "gate_of c reading =
    (if satisfied_by (cd_op c) reading (cd_value c) then Open else Closed reading)"

definition resolve_gate ::
    "rule \<Rightarrow> condition \<Rightarrow> rule_state \<Rightarrow> evaluation_input \<Rightarrow> rule_state \<times> gate_outcome" where
  "resolve_gate r c st inp =
    (case finite_only (ei_condition_value inp) of
       Some reading \<Rightarrow>
         (st\<lparr>rs_last_condition := Some reading, rs_last_condition_ms := ei_now_ms inp\<rparr>,
          gate_of c reading)
     | None \<Rightarrow>
         (st, case finite_only (rs_last_condition st) of
            Some reading \<Rightarrow>
              if 0 < grace_ms r \<and> 0 < rs_last_condition_ms st
                 \<and> silence (ei_now_ms inp) (rs_last_condition_ms st) < grace_ms r
              then gate_of c reading else SourceUnavailable
          | None \<Rightarrow> SourceUnavailable))"

text \<open>A duty is written again only when it differs from the applied one.\<close>

definition duty_changed :: "rule_state \<Rightarrow> f64 \<Rightarrow> bool" where
  "duty_changed st duty = (case rs_applied_output st of
     Some applied \<Rightarrow> f64_epsilon \<le> \<bar>duty - applied\<bar> | None \<Rightarrow> True)"

definition note_skipped :: "bool \<Rightarrow> rule_state \<Rightarrow> rule_state" where
  "note_skipped wrote st = (if wrote then st else st\<lparr>rs_skipped := sat_add64 (rs_skipped st) 1\<rparr>)"

subsection \<open>Standing down behind a closed gate\<close>

definition evaluate_gated ::
    "condition \<Rightarrow> rule_state \<Rightarrow> evaluation_input \<Rightarrow> f64 \<Rightarrow> int \<Rightarrow> (rule_state \<times> evaluation) option" where
  "evaluate_gated c st inp reading next_due =
    (let duty = or_default (ei_safe_default_duty inp)
           (otherwise_duty (cd_otherwise c) (ei_safe_default_duty inp)) in
     case clamp_checked duty (ei_target_min inp) (ei_target_max inp) of None \<Rightarrow> None
     | Some duty \<Rightarrow>
       (let changed = duty_changed st duty;
            msg = [Txt ''condition not met ('', Txt (sensor_ref_id (cd_source c)), Txt '', reading '',
              Prec 1 reading, Txt '' '', Txt (comparator_symbol (cd_op c)), Txt '' '',
              Prec 1 (cd_value c), Txt (if changed then ''): standing down at ''
                else ''): still standing down at ''), Prec 0 duty, Txt '' %''];
            st = st\<lparr>rs_armed_input := NaN, rs_next_due_ms := next_due, rs_last_status := Gated,
              rs_last_message := msg\<rparr>
        in Some (note_skipped changed st,
          \<lparr>ev_status = Gated, ev_output = Some duty, ev_should_write = changed, ev_message = msg,
           ev_next_due_ms = next_due, ev_release = False\<rparr>)))"

subsection \<open>The failure policy\<close>

definition fallback_decision ::
    "fallback_action \<Rightarrow> rule_state \<Rightarrow> evaluation_input \<Rightarrow> (f64 option \<times> bool \<times> message) option" where
  "fallback_decision action st inp =
    (case action of
       Hold \<Rightarrow> Some (rs_applied_output st, False,
         [Txt (ei_source_label inp), Txt '' is missing: holding the last output''] @
         (case rs_applied_output st of Some v \<Rightarrow> [Txt '' ('', Prec 0 v, Txt '' %)'']
          | None \<Rightarrow> [Txt '' (none yet)'']))
     | Release \<Rightarrow>
         map_option (\<lambda>duty. (Some duty, duty_changed st duty,
           [Txt (ei_source_label inp),
            Txt '' is missing: `release` is not supported by any adapter in this build, so the '',
            Prec 0 duty, Txt '' % fail-safe duty was applied instead'']))
         (clamp_checked (ei_safe_default_duty inp) (ei_target_min inp) (ei_target_max inp))
     | _ \<Rightarrow>
         map_option (\<lambda>duty. (Some duty, duty_changed st duty,
           if ei_source_stale inp
           then [Txt ''the runtime has not refreshed '', Txt (ei_source_label inp),
             Txt '' recently, so its readings are too old to act on: falling back to '',
             Prec 0 duty, Txt '' %'']
           else [Txt (ei_source_label inp), Txt '' is missing: falling back to '', Prec 0 duty,
             Txt '' %'']))
         (clamp_checked (or_default (ei_safe_default_duty inp)
            (fallback_duty action (ei_safe_default_duty inp)))
          (ei_target_min inp) (ei_target_max inp)))"

definition evaluate_fallback ::
    "rule \<Rightarrow> rule_state \<Rightarrow> evaluation_input \<Rightarrow> int \<Rightarrow> (rule_state \<times> evaluation) option" where
  "evaluate_fallback r st inp next_due =
    (let st = st\<lparr>rs_fallbacks := sat_add64 (rs_fallbacks st) 1, rs_next_due_ms := next_due\<rparr> in
     case fallback_decision (on_sensor_missing (rl_fallback r)) st inp of None \<Rightarrow> None
     | Some (out, should_write, msg) \<Rightarrow>
       (let st = st\<lparr>rs_released := False \<or> rs_released st, rs_last_status := Fallback,
              rs_last_message := msg\<rparr>
        in Some (note_skipped should_write st,
          \<lparr>ev_status = Fallback, ev_output = out, ev_should_write = should_write,
           ev_message = msg, ev_next_due_ms = next_due, ev_release = False\<rparr>)))"

subsection \<open>Steering\<close>

text \<open>Step 3, the hysteresis: the output, whether the old one is held, and the new anchor.\<close>

definition hysteresis_step :: "rule \<Rightarrow> rule_state \<Rightarrow> f64 \<Rightarrow> f64 \<Rightarrow> f64 \<times> bool \<times> f64" where
  "hysteresis_step r st source_value clamped =
    (case rs_applied_output st of
       Some applied \<Rightarrow>
         if clamped < applied then
           if is_finite (rs_armed_input st) \<and> rs_armed_input st - rl_hysteresis r < source_value
           then (applied, True, rs_armed_input st)
           else (clamped, False, source_value)
         else if applied < clamped \<or> \<not> is_finite (rs_armed_input st)
           then (clamped, False, source_value)
         else (clamped, False, rs_armed_input st)
     | None \<Rightarrow> (clamped, False, source_value))"

text \<open>Step 4, the deadband.\<close>

definition worth_writing :: "rule \<Rightarrow> f64 option \<Rightarrow> bool" where
  "worth_writing r delta = (case delta of None \<Rightarrow> True
     | Some delta \<Rightarrow> rl_deadband r \<le> delta \<and> f64_epsilon < delta)"

definition steer :: "rule \<Rightarrow> rule_state \<Rightarrow> evaluation_input \<Rightarrow> f64 \<Rightarrow> int option \<Rightarrow> int
    \<Rightarrow> (rule_state \<times> evaluation) option" where
  "steer r st inp source_value silence_ms next_due =
    (case curve_eval (rl_curve r) source_value of None \<Rightarrow> None | Some curved \<Rightarrow>
     case clamp_output r curved of None \<Rightarrow> None | Some limited \<Rightarrow>
     case clamp_checked limited (ei_target_min inp) (ei_target_max inp) of None \<Rightarrow> None
     | Some clamped \<Rightarrow>
       (let (tgt, held, armed) = hysteresis_step r st source_value clamped;
            st = st\<lparr>rs_armed_input := armed\<rparr>;
            delta = map_option (\<lambda>applied. \<bar>tgt - applied\<bar>) (rs_applied_output st);
            should_write = worth_writing r delta;
            status = (if should_write then Applied else Held);
            msg = (if should_write
              then [Prec 1 source_value, Txt '' -> '', Prec 0 tgt, Txt '' %'']
              else if held
              then [Txt ''holding '', Num (or_default tgt (rs_applied_output st)), Txt '' % until '',
                Txt (ei_source_label inp), Txt '' drops below '',
                Prec 1 (rs_armed_input st - rl_hysteresis r)]
              else [Txt ''no change worth writing ('', Prec 2 (or_default (Fin 0) delta),
                Txt '' % within the '', Prec 2 (rl_deadband r), Txt '' % deadband)'']);
            msg = (case silence_ms of None \<Rightarrow> msg
              | Some s \<Rightarrow> msg @ [Txt '' (source silent for '', Prec 1 (f64_of_int s div Fin 1000),
                  Txt '' s, steering on the last known value)'']);
            st = st\<lparr>rs_next_due_ms := next_due, rs_last_status := status, rs_last_message := msg\<rparr>
        in Some (note_skipped should_write st,
          \<lparr>ev_status = status, ev_output = Some tgt, ev_should_write = should_write,
           ev_message = msg, ev_next_due_ms = next_due, ev_release = False\<rparr>)))"

text \<open>The gate runs before the curve.\<close>

definition evaluate_active :: "rule \<Rightarrow> rule_state \<Rightarrow> evaluation_input \<Rightarrow> f64 \<Rightarrow> int option \<Rightarrow> int
    \<Rightarrow> (rule_state \<times> evaluation) option" where
  "evaluate_active r st inp source_value silence_ms next_due =
    (let st = st\<lparr>rs_released := False\<rparr> in
     case rl_when r of
       None \<Rightarrow> steer r (st\<lparr>rs_gate_open := True\<rparr>) inp source_value silence_ms next_due
     | Some c \<Rightarrow>
         (case resolve_gate r c st inp of
            (st, Open) \<Rightarrow> steer r (st\<lparr>rs_gate_open := True\<rparr>) inp source_value silence_ms next_due
          | (st, Closed reading) \<Rightarrow>
              evaluate_gated c (st\<lparr>rs_gate_open := False\<rparr>) inp reading next_due
          | (st, SourceUnavailable) \<Rightarrow>
              evaluate_fallback r (st\<lparr>rs_gate_open := False\<rparr>) inp next_due))"

definition evaluate :: "rule \<Rightarrow> rule_state \<Rightarrow> evaluation_input \<Rightarrow> (rule_state \<times> evaluation) option" where
  "evaluate r st inp =
    (let st = st\<lparr>rs_evaluations := sat_add64 (rs_evaluations st) 1\<rparr>;
         next_due = wrap_i64 (ei_now_ms inp + wrap_i64 (int (rl_update_interval_ms r))) in
     if \<not> rl_enabled r then
       Some (st\<lparr>rs_next_due_ms := next_due, rs_last_status := Disabled,
           rs_last_message := [Txt ''rule disabled'']\<rparr>,
         \<lparr>ev_status = Disabled, ev_output = None, ev_should_write = False,
          ev_message = [Txt ''rule disabled''], ev_next_due_ms = next_due, ev_release = False\<rparr>)
     else case finite_only (ei_source_value inp) of
       Some value \<Rightarrow>
         evaluate_active r (st\<lparr>rs_last_input := Some value, rs_last_input_ms := ei_now_ms inp\<rparr>)
           inp value None next_due
     | None \<Rightarrow>
         (case stale_value_within_grace r st inp of
            Some prev \<Rightarrow> evaluate_active r st inp prev
              (Some (silence (ei_now_ms inp) (rs_last_input_ms st))) next_due
          | None \<Rightarrow> evaluate_fallback r st inp next_due))"

subsection \<open>The user interface's projection\<close>

record rule_outcome =
  ro_rule_id :: string
  ro_name :: string
  ro_enabled :: bool
  ro_status :: rule_status
  ro_source :: string
  ro_target :: string
  ro_input :: "f64 option"
  ro_output :: "f64 option"
  ro_applied_output :: "f64 option"
  ro_message :: message
  ro_evaluations :: nat
  ro_writes :: nat
  ro_skipped :: nat
  ro_fallbacks :: nat
  ro_unconfirmed :: nat
  ro_at_ms :: int

definition outcome_from_parts :: "rule \<Rightarrow> rule_state \<Rightarrow> int \<Rightarrow> rule_outcome" where
  "outcome_from_parts r st at_ms = \<lparr>ro_rule_id = rl_id r, ro_name = rl_name r,
     ro_enabled = rl_enabled r,
     ro_status = (if rl_enabled r then rs_last_status st else Disabled),
     ro_source = source_label (rl_source r), ro_target = target_id (rl_target r),
     ro_input = rs_last_input st, ro_output = rs_applied_output st,
     ro_applied_output = rs_applied_output st, ro_message = rs_last_message st,
     ro_evaluations = rs_evaluations st, ro_writes = rs_writes st, ro_skipped = rs_skipped st,
     ro_fallbacks = rs_fallbacks st, ro_unconfirmed = rs_unconfirmed_writes st,
     ro_at_ms = at_ms\<rparr>"

definition outcome_summary :: "rule_outcome \<Rightarrow> message" where
  "outcome_summary ro = (case (ro_input ro, ro_applied_output ro) of
     (Some i, Some out) \<Rightarrow> [Txt (ro_name ro), Txt '': '', Prec 0 i, Txt '' -> '', Prec 0 out, Txt '' %'']
   | (Some i, None) \<Rightarrow> [Txt (ro_name ro), Txt '': '', Prec 0 i, Txt '' (idle)'']
   | _ \<Rightarrow> [Txt (ro_name ro), Txt '': ''] @ ro_message ro)"

subsection \<open>The ways an evaluation ends\<close>

text \<open>What only the engine writes, once the outcome of a write is known.\<close>

definition outcome_memory where
  "outcome_memory st = (rs_rule_id st, rs_applied_output st, rs_control st, rs_last_write_ms st,
     rs_writes st, rs_gate_announced st, rs_unconfirmed_writes st, rs_consecutive_unconfirmed st)"

definition next_due :: "rule \<Rightarrow> evaluation_input \<Rightarrow> int" where
  "next_due r inp = wrap_i64 (ei_now_ms inp + wrap_i64 (int (rl_update_interval_ms r)))"

text \<open>The value a rule steers on: the fresh reading, or the last one within its grace period.\<close>

definition steering_value :: "rule \<Rightarrow> rule_state \<Rightarrow> evaluation_input \<Rightarrow> f64 option" where
  "steering_value r st inp = (case finite_only (ei_source_value inp) of
     Some v \<Rightarrow> Some v | None \<Rightarrow> stale_value_within_grace r st inp)"

definition condition_reading :: "rule \<Rightarrow> rule_state \<Rightarrow> evaluation_input \<Rightarrow> f64 option" where
  "condition_reading r st inp = (case finite_only (ei_condition_value inp) of
     Some v \<Rightarrow> Some v
   | None \<Rightarrow> (if 0 < grace_ms r \<and> 0 < rs_last_condition_ms st
        \<and> silence (ei_now_ms inp) (rs_last_condition_ms st) < grace_ms r
      then finite_only (rs_last_condition st) else None))"

lemma resolve_gate_outcome:
  "snd (resolve_gate r c st inp) = (case condition_reading r st inp of
     Some reading \<Rightarrow> gate_of c reading | None \<Rightarrow> SourceUnavailable)"
  by (auto simp: resolve_gate_def condition_reading_def split: option.splits)

lemma resolve_gate_state:
  "outcome_memory (fst (resolve_gate r c st inp)) = outcome_memory st"
  "rs_armed_input (fst (resolve_gate r c st inp)) = rs_armed_input st"
  "rs_last_input (fst (resolve_gate r c st inp)) = rs_last_input st"
  "rs_last_input_ms (fst (resolve_gate r c st inp)) = rs_last_input_ms st"
  "rs_evaluations (fst (resolve_gate r c st inp)) = rs_evaluations st"
  "rs_skipped (fst (resolve_gate r c st inp)) = rs_skipped st"
  "rs_fallbacks (fst (resolve_gate r c st inp)) = rs_fallbacks st"
  by (auto simp: resolve_gate_def outcome_memory_def split: option.splits)

text \<open>The state a branch starts from: the parts of the old state that are still in it.\<close>

definition carried :: "rule_state \<Rightarrow> evaluation_input \<Rightarrow> rule_state \<Rightarrow> bool" where
  "carried st inp st0 \<longleftrightarrow> outcome_memory st0 = outcome_memory st
     \<and> rs_armed_input st0 = rs_armed_input st \<and> rs_skipped st0 = rs_skipped st
     \<and> rs_evaluations st0 = sat_add64 (rs_evaluations st) 1 \<and> rs_fallbacks st0 = rs_fallbacks st
     \<and> (case finite_only (ei_source_value inp) of
          Some v \<Rightarrow> rs_last_input st0 = Some v \<and> rs_last_input_ms st0 = ei_now_ms inp
        | None \<Rightarrow> rs_last_input st0 = rs_last_input st \<and> rs_last_input_ms st0 = rs_last_input_ms st)"

lemma evaluate_active_cases:
  assumes "evaluate_active r st1 inp x s nd = Some (st', ev)" and "carried st inp st1"
    "rs_last_condition st1 = rs_last_condition st" "rs_last_condition_ms st1 = rs_last_condition_ms st"
  shows "(\<exists>st0. carried st inp st0 \<and> rs_gate_open st0 \<and> steer r st0 inp x s nd = Some (st', ev)
      \<and> (\<forall>c. rl_when r = Some c \<longrightarrow>
           (\<exists>v. condition_reading r st inp = Some v \<and> satisfied_by (cd_op c) v (cd_value c))))
   \<or> (\<exists>st0 c v. carried st inp st0 \<and> \<not> rs_gate_open st0
      \<and> evaluate_gated c st0 inp v nd = Some (st', ev) \<and> rl_when r = Some c
      \<and> condition_reading r st inp = Some v \<and> \<not> satisfied_by (cd_op c) v (cd_value c))
   \<or> (\<exists>st0 c. carried st inp st0 \<and> \<not> rs_gate_open st0
      \<and> evaluate_fallback r st0 inp nd = Some (st', ev) \<and> rl_when r = Some c
      \<and> condition_reading r st inp = None)"
proof (cases "rl_when r")
  case None
  let ?st0 = "st1\<lparr>rs_released := False, rs_gate_open := True\<rparr>"
  have "carried st inp ?st0"
    using assms(2) by (simp add: carried_def outcome_memory_def split: option.splits)
  with None assms(1) show ?thesis
    by (intro disjI1 exI [of _ ?st0]) (simp add: evaluate_active_def Let_def)
next
  case (Some c)
  let ?st1 = "st1\<lparr>rs_released := False\<rparr>"
  obtain st2 g where g: "resolve_gate r c ?st1 inp = (st2, g)" by fastforce
  have cr: "condition_reading r ?st1 inp = condition_reading r st inp"
    using assms(3,4) by (auto simp: condition_reading_def split: option.split)
  have go: "g = (case condition_reading r st inp of
      Some reading \<Rightarrow> gate_of c reading | None \<Rightarrow> SourceUnavailable)"
    using resolve_gate_outcome [of r c ?st1 inp] g cr by simp
  have c2: "carried st inp (st2\<lparr>rs_gate_open := b\<rparr>)" for b
    using resolve_gate_state [of r c ?st1 inp] g assms(2)
    by (simp add: carried_def outcome_memory_def split: option.splits)
  have ev: "(case g of Open \<Rightarrow> steer r (st2\<lparr>rs_gate_open := True\<rparr>) inp x s nd
     | Closed reading \<Rightarrow> evaluate_gated c (st2\<lparr>rs_gate_open := False\<rparr>) inp reading nd
     | SourceUnavailable \<Rightarrow> evaluate_fallback r (st2\<lparr>rs_gate_open := False\<rparr>) inp nd) = Some (st', ev)"
    using assms(1) Some g by (simp add: evaluate_active_def Let_def split: gate_outcome.splits)
  show ?thesis
  proof (cases g)
    case Open
    with go have "\<exists>v. condition_reading r st inp = Some v \<and> satisfied_by (cd_op c) v (cd_value c)"
      by (auto simp: gate_of_def split: option.splits if_splits)
    with ev Open Some c2 [of True] show ?thesis
      by (intro disjI1 exI [of _ "st2\<lparr>rs_gate_open := True\<rparr>"]) simp
  next
    case (Closed v)
    with go have "condition_reading r st inp = Some v \<and> \<not> satisfied_by (cd_op c) v (cd_value c)"
      by (auto simp: gate_of_def split: option.splits if_splits)
    with ev Closed Some c2 [of False] show ?thesis
      by (intro disjI2 disjI1 exI [of _ "st2\<lparr>rs_gate_open := False\<rparr>"] exI [of _ c] exI [of _ v]) simp
  next
    case SourceUnavailable
    with go have "condition_reading r st inp = None"
      by (auto simp: gate_of_def split: option.splits if_splits)
    with ev SourceUnavailable Some c2 [of False] show ?thesis
      by (intro disjI2 exI [of _ "st2\<lparr>rs_gate_open := False\<rparr>"] exI [of _ c]) simp
  qed
qed

lemma stale_counted:
  "stale_value_within_grace r (st\<lparr>rs_evaluations := n\<rparr>) inp = stale_value_within_grace r st inp"
  by (simp add: stale_value_within_grace_def split: option.split)

lemma evaluate_cases:
  assumes "evaluate r st inp = Some (st', ev)"
  obtains
    (disabled) "\<not> rl_enabled r" "ev_status ev = Disabled" "ev_output ev = None"
      "\<not> ev_should_write ev" "ev_next_due_ms ev = next_due r inp" "rs_next_due_ms st' = next_due r inp"
      "outcome_memory st' = outcome_memory st" "rs_skipped st' = rs_skipped st"
      "rs_last_input st' = rs_last_input st" "rs_last_input_ms st' = rs_last_input_ms st"
      "rs_evaluations st' = sat_add64 (rs_evaluations st) 1" "rs_armed_input st' = rs_armed_input st"
  | (steer) st0 x s where "rl_enabled r" "steering_value r st inp = Some x" "carried st inp st0"
      "steer r st0 inp x s (next_due r inp) = Some (st', ev)"
      "\<And>c. rl_when r = Some c \<Longrightarrow>
         \<exists>v. condition_reading r st inp = Some v \<and> satisfied_by (cd_op c) v (cd_value c)"
  | (gated) st0 c v x where "rl_enabled r" "steering_value r st inp = Some x" "carried st inp st0"
      "evaluate_gated c st0 inp v (next_due r inp) = Some (st', ev)" "rl_when r = Some c"
      "condition_reading r st inp = Some v" "\<not> satisfied_by (cd_op c) v (cd_value c)"
  | (fallback) st0 where "rl_enabled r" "carried st inp st0"
      "evaluate_fallback r st0 inp (next_due r inp) = Some (st', ev)"
      "steering_value r st inp = None \<or> (\<exists>c. rl_when r = Some c \<and> condition_reading r st inp = None)"
proof (cases "rl_enabled r")
  case False
  show ?thesis
    by (rule disabled) (use False assms in
      \<open>auto simp: evaluate_def Let_def next_due_def outcome_memory_def\<close>)
next
  case True
  let ?st1 = "st\<lparr>rs_evaluations := sat_add64 (rs_evaluations st) 1\<rparr>"
  show ?thesis
  proof (cases "finite_only (ei_source_value inp)")
    case (Some v)
    let ?st2 = "?st1\<lparr>rs_last_input := Some v, rs_last_input_ms := ei_now_ms inp\<rparr>"
    have "evaluate_active r ?st2 inp v None (next_due r inp) = Some (st', ev)"
      using assms True Some by (simp add: evaluate_def Let_def next_due_def)
    from evaluate_active_cases [OF this, of st] True Some show ?thesis
      by (auto simp: carried_def outcome_memory_def steering_value_def intro: steer gated fallback)
  next
    case None
    show ?thesis
    proof (cases "stale_value_within_grace r st inp")
      case n: None
      then have "evaluate_fallback r ?st1 inp (next_due r inp) = Some (st', ev)"
        using assms True None by (simp add: evaluate_def Let_def next_due_def stale_counted)
      then show ?thesis
        by (rule fallback [rotated 2])
          (use True None n in \<open>auto simp: carried_def outcome_memory_def steering_value_def\<close>)
    next
      case (Some v)
      then have "evaluate_active r ?st1 inp v (Some (silence (ei_now_ms inp) (rs_last_input_ms st)))
          (next_due r inp) = Some (st', ev)"
        using assms True None by (simp add: evaluate_def Let_def next_due_def stale_counted)
      from evaluate_active_cases [OF this, of st] True None Some show ?thesis
        by (auto simp: carried_def outcome_memory_def steering_value_def intro: steer gated fallback)
    qed
  qed
qed

lemma clamp_checked_Some: "clamp_checked x lo hi = Some v \<longleftrightarrow> lo \<le> hi \<and> v = fclamp x lo hi"
  by (auto simp: clamp_checked_def)

lemma note_skipped_simps [simp]:
  "outcome_memory (note_skipped b st) = outcome_memory st"
  "rs_armed_input (note_skipped b st) = rs_armed_input st"
  "rs_last_input (note_skipped b st) = rs_last_input st"
  "rs_last_input_ms (note_skipped b st) = rs_last_input_ms st"
  "rs_evaluations (note_skipped b st) = rs_evaluations st"
  "rs_next_due_ms (note_skipped b st) = rs_next_due_ms st"
  "rs_last_status (note_skipped b st) = rs_last_status st"
  "rs_fallbacks (note_skipped b st) = rs_fallbacks st"
  "rs_skipped (note_skipped b st) = (if b then rs_skipped st else sat_add64 (rs_skipped st) 1)"
  by (auto simp: note_skipped_def outcome_memory_def)

text \<open>What a branch leaves untouched and what it records.\<close>

definition recorded :: "rule_state \<Rightarrow> rule_state \<Rightarrow> evaluation \<Rightarrow> int \<Rightarrow> bool" where
  "recorded st0 st' ev nd \<longleftrightarrow> outcome_memory st' = outcome_memory st0
     \<and> rs_last_input st' = rs_last_input st0 \<and> rs_last_input_ms st' = rs_last_input_ms st0
     \<and> rs_evaluations st' = rs_evaluations st0 \<and> rs_next_due_ms st' = nd \<and> ev_next_due_ms ev = nd
     \<and> rs_last_status st' = ev_status ev \<and> \<not> ev_release ev
     \<and> rs_skipped st' = (if ev_should_write ev then rs_skipped st0 else sat_add64 (rs_skipped st0) 1)"

lemma steer_result:
  assumes "steer r st inp x s nd = Some (st', ev)"
  obtains curved limited clamped tgt held armed where
    "curve_eval (rl_curve r) x = Some curved" "clamp_output r curved = Some limited"
    "clamp_checked limited (ei_target_min inp) (ei_target_max inp) = Some clamped"
    "hysteresis_step r st x clamped = (tgt, held, armed)"
    "ev_output ev = Some tgt" "rs_armed_input st' = armed"
    "ev_should_write ev \<longleftrightarrow> worth_writing r (map_option (\<lambda>a. \<bar>tgt - a\<bar>) (rs_applied_output st))"
    "ev_status ev = (if ev_should_write ev then Applied else Held)"
    "recorded st st' ev nd" "rs_fallbacks st' = rs_fallbacks st"
proof -
  obtain curved limited clamped where c: "curve_eval (rl_curve r) x = Some curved"
    "clamp_output r curved = Some limited"
    "clamp_checked limited (ei_target_min inp) (ei_target_max inp) = Some clamped"
    using assms by (auto simp: steer_def split: option.splits)
  obtain tgt held armed where h: "hysteresis_step r st x clamped = (tgt, held, armed)"
    by (metis prod_cases3)
  show thesis
    by (rule that [OF c h]) (use assms c h in
      \<open>auto simp: steer_def Let_def recorded_def outcome_memory_def note_skipped_def\<close>)
qed

lemma evaluate_gated_result:
  assumes "evaluate_gated c st inp v nd = Some (st', ev)"
  obtains duty where
    "clamp_checked (or_default (ei_safe_default_duty inp)
       (otherwise_duty (cd_otherwise c) (ei_safe_default_duty inp)))
       (ei_target_min inp) (ei_target_max inp) = Some duty"
    "ev_output ev = Some duty" "ev_should_write ev \<longleftrightarrow> duty_changed st duty"
    "ev_status ev = Gated" "rs_armed_input st' = NaN" "recorded st st' ev nd"
    "rs_fallbacks st' = rs_fallbacks st"
  using assms by (auto simp: evaluate_gated_def Let_def recorded_def outcome_memory_def
      note_skipped_def split: option.splits)

lemma evaluate_fallback_result:
  assumes "evaluate_fallback r st inp nd = Some (st', ev)"
  obtains out msg where
    "fallback_decision (on_sensor_missing (rl_fallback r))
       (st\<lparr>rs_fallbacks := sat_add64 (rs_fallbacks st) 1, rs_next_due_ms := nd\<rparr>) inp
      = Some (out, ev_should_write ev, msg)"
    "ev_output ev = out" "ev_status ev = Fallback" "recorded st st' ev nd"
    "rs_armed_input st' = rs_armed_input st" "rs_fallbacks st' = sat_add64 (rs_fallbacks st) 1"
  using assms by (auto simp: evaluate_fallback_def Let_def recorded_def outcome_memory_def
      note_skipped_def split: option.splits)

subsection \<open>Totality\<close>

lemma curve_some: "valid_rule r \<Longrightarrow> \<exists>v. curve_eval (rl_curve r) x = Some v"
  by (rule curve_eval_total) (auto simp: valid_rule_def valid_curve_def)

lemma clamp_checked_total: "lo \<le> hi \<Longrightarrow> \<exists>v. clamp_checked x lo hi = Some v"
  by (simp add: clamp_checked_def)

lemma steer_total:
  assumes "valid_rule r" "ei_target_min inp \<le> ei_target_max inp"
  shows "\<exists>z. steer r st inp x s nd = Some z"
proof -
  obtain cv where "curve_eval (rl_curve r) x = Some cv" using curve_some [OF assms(1)] by blast
  moreover obtain lv where "clamp_output r cv = Some lv" using clamp_output_total [OF assms(1)] by blast
  moreover obtain hv where "clamp_checked lv (ei_target_min inp) (ei_target_max inp) = Some hv"
    using clamp_checked_total [OF assms(2)] by blast
  ultimately show ?thesis by (simp add: steer_def Let_def split_def)
qed

lemma evaluate_gated_total:
  "ei_target_min inp \<le> ei_target_max inp \<Longrightarrow> \<exists>z. evaluate_gated c st inp v nd = Some z"
  by (simp add: evaluate_gated_def Let_def clamp_checked_def)

lemma evaluate_fallback_total:
  "ei_target_min inp \<le> ei_target_max inp \<Longrightarrow> \<exists>z. evaluate_fallback r st inp nd = Some z"
  by (cases "on_sensor_missing (rl_fallback r)")
    (simp_all add: evaluate_fallback_def fallback_decision_def Let_def clamp_checked_def)

lemma evaluate_active_total:
  assumes "valid_rule r" "ei_target_min inp \<le> ei_target_max inp"
  shows "\<exists>z. evaluate_active r st inp x s nd = Some z"
  using steer_total [OF assms] evaluate_gated_total [OF assms(2)] evaluate_fallback_total [OF assms(2)]
  by (simp add: evaluate_active_def Let_def split: option.split prod.split gate_outcome.split)

lemma evaluate_some:
  assumes "valid_rule r" "ei_target_min inp \<le> ei_target_max inp"
  shows "\<exists>st' ev. evaluate r st inp = Some (st', ev)"
  using evaluate_active_total [OF assms] evaluate_fallback_total [OF assms(2)]
  by (simp add: evaluate_def Let_def split: option.split)

lemmas hysteresis_cases = hysteresis_step_def [unfolded Let_def]

lemma abs_diff_self: "\<not> f64_epsilon < \<bar>a - a\<bar>" for a :: f64
  by (cases a) (simp_all add: f64_arith f64_epsilon_def f64_ord not_less less_imp_le)

lemma worth_writing_moved:
  "worth_writing r (Some \<bar>t - a\<bar>) \<Longrightarrow> t \<noteq> a"
  using abs_diff_self by (auto simp: worth_writing_def)

text \<open>A held output is never written: whatever is written is the clamped curve output.\<close>

lemma steer_written:
  assumes "hysteresis_step r st x clamped = (tgt, held, armed)"
    "worth_writing r (map_option (\<lambda>a. \<bar>tgt - a\<bar>) (rs_applied_output st))"
  shows "tgt = clamped"
  using assms worth_writing_moved by (auto simp: hysteresis_step_def split: option.splits if_splits)

lemma fclamp_in_range: "lo \<le> hi \<Longrightarrow> \<not> is_nan x \<Longrightarrow> lo \<le> fclamp x lo hi \<and> fclamp x lo hi \<le> hi"
  by (simp add: fclamp_ge fclamp_le)

lemma fclamp_number: "lo \<le> hi \<Longrightarrow> \<not> is_nan x \<Longrightarrow> \<not> is_nan (fclamp x lo hi)"
  using fclamp_in_range f64_le_not_nan by blast

lemma in_percent_number: "in_percent p \<Longrightarrow> \<not> is_nan p"
  by (auto dest: in_percent_cases)

lemma fallback_duty_number:
  assumes "fallback_ok (rl_fallback r)" "\<not> is_nan safe"
  shows "\<not> is_nan (or_default safe (fallback_duty (on_sensor_missing (rl_fallback r)) safe))"
  using assms in_percent_number
  by (cases "on_sensor_missing (rl_fallback r)") (auto simp: fallback_ok_def action_ok_def or_default_def)

lemma otherwise_duty_number:
  assumes "valid_rule r" "rl_when r = Some c" "\<not> is_nan safe"
  shows "\<not> is_nan (or_default safe (otherwise_duty (cd_otherwise c) safe))"
  using assms in_percent_number by (cases "cd_otherwise c") (auto simp: valid_rule_def or_default_def)

lemma fallback_writes_range:
  assumes "evaluate_fallback r st0 inp nd = Some (st', ev)" "ev_should_write ev"
    "\<not> is_nan (ei_safe_default_duty inp)" "fallback_ok (rl_fallback r)"
    "ei_target_min inp \<le> ei_target_max inp"
  shows "\<exists>v. ev_output ev = Some v \<and> ei_target_min inp \<le> v \<and> v \<le> ei_target_max inp"
proof -
  note d = fallback_duty_number [OF assms(4,3)]
  from assms(1) obtain out msg where
    "fallback_decision (on_sensor_missing (rl_fallback r))
       (st0\<lparr>rs_fallbacks := sat_add64 (rs_fallbacks st0) 1, rs_next_due_ms := nd\<rparr>) inp
      = Some (out, ev_should_write ev, msg)" "ev_output ev = out"
    by (rule evaluate_fallback_result)
  then show ?thesis
    using assms(2,3) d fclamp_in_range [OF assms(5)]
    by (auto simp: fallback_decision_def clamp_checked_Some or_default_def dest!: sym [of "Some _"] split: fallback_action.splits)
qed

text \<open>On a validated rule and a channel whose bounds are ordered, an evaluation never
  panics and always returns a decision.\<close>
theorem evaluate_total:
  assumes "validate_rule r = Inr ()" "ei_target_min inp \<le> ei_target_max inp"
  shows "\<exists>st' ev. evaluate r st inp = Some (st', ev)"
  using assms by (intro evaluate_some) (simp_all add: validate_rule_ok)

text \<open>C14. Whatever an evaluation of a validated rule asks to be written is a number within the hardware range of
  the target, on every path: curve, closed gate and failure policy. The range has its minimum at most at
  its maximum, the safe duty of the settings is a number, and the curve is tame: its points are finite
  doubles, inputs of at most \<open>2 ^ 1000\<close> in size and outputs that are percentages. (Validation asks for
  finite points; with inputs near the largest double the interpolation may overflow.)\<close>
theorem written_output_in_range:
  assumes "validate_rule r = Inr ()" "tame (rl_curve r)"
    and "ei_target_min inp \<le> ei_target_max inp" "\<not> is_nan (ei_safe_default_duty inp)"
    and "evaluate r st inp = Some (st', ev)" "ev_should_write ev"
  shows "\<exists>v. ev_output ev = Some v \<and> ei_target_min inp \<le> v \<and> v \<le> ei_target_max inp"
proof -
  have v: "valid_rule r" using assms(1) by (simp add: validate_rule_ok)
  note rng = fclamp_in_range [OF assms(3)]
  from assms(5) show ?thesis
  proof (cases rule: evaluate_cases)
    case (steer st0 x s)
    from steer(4) obtain curved limited clamped tgt held armed where
      c: "curve_eval (rl_curve r) x = Some curved" "clamp_output r curved = Some limited"
        "clamp_checked limited (ei_target_min inp) (ei_target_max inp) = Some clamped"
        "hysteresis_step r st0 x clamped = (tgt, held, armed)" "ev_output ev = Some tgt"
        "ev_should_write ev \<longleftrightarrow> worth_writing r (map_option (\<lambda>a. \<bar>tgt - a\<bar>) (rs_applied_output st0))"
      by (rule steer_result)
    have "\<not> is_nan curved" using curve_in_percent [OF assms(2), of x] c(1) by auto
    then have "\<not> is_nan limited"
      using c(2) clamp_output_total [OF v] fclamp_number [OF effective_range_ok [OF v]] by auto
    with c(3) rng have "ei_target_min inp \<le> clamped \<and> clamped \<le> ei_target_max inp"
      by (auto simp: clamp_checked_Some)
    moreover have "tgt = clamped" using c(4,6) assms(6) steer_written by blast
    ultimately show ?thesis using c(5) by simp
  next
    case (gated st0 c y x)
    from gated(4) show ?thesis
      by (rule evaluate_gated_result)
        (use rng otherwise_duty_number [OF v gated(5) assms(4)] in \<open>auto simp: clamp_checked_Some\<close>)
  next
    case (fallback st0)
    then show ?thesis
      using fallback_writes_range assms(3,4,6) v by (auto simp: valid_rule_def)
  qed (use assms(6) in simp)
qed

text \<open>What a rule writes while it steers is its curve's value at the reading, clamped to the
  rule's limits and then to the hardware's; the reading is the fresh one, or the last one
  still within its grace period.\<close>
theorem steering_follows_curve:
  assumes "evaluate r st inp = Some (st', ev)" "ev_status ev = Applied"
  shows "\<exists>x curved limited. steering_value r st inp = Some x
     \<and> curve_eval (rl_curve r) x = Some curved \<and> clamp_output r curved = Some limited
     \<and> ev_output ev = clamp_checked limited (ei_target_min inp) (ei_target_max inp)
     \<and> ev_should_write ev"
  using assms(1)
proof (cases rule: evaluate_cases)
  case (steer st0 x s)
  from steer(4) obtain curved limited clamped tgt held armed where
    c: "curve_eval (rl_curve r) x = Some curved" "clamp_output r curved = Some limited"
      "clamp_checked limited (ei_target_min inp) (ei_target_max inp) = Some clamped"
      "hysteresis_step r st0 x clamped = (tgt, held, armed)" "ev_output ev = Some tgt"
      "ev_should_write ev \<longleftrightarrow> worth_writing r (map_option (\<lambda>a. \<bar>tgt - a\<bar>) (rs_applied_output st0))"
      "ev_status ev = (if ev_should_write ev then Applied else Held)"
    by (rule steer_result)
  have w: "ev_should_write ev" using c(7) assms(2) by (simp split: if_splits)
  with c(4,6) have "tgt = clamped" using steer_written by blast
  with c w steer(2) show ?thesis by auto
qed (use assms(2) in \<open>auto elim!: evaluate_gated_result evaluate_fallback_result\<close>)

text \<open>A rule moves an output it has already set only by at least its deadband.\<close>
theorem deadband_respected:
  assumes "evaluate r st inp = Some (st', ev)" "is_active (ev_status ev)" "ev_should_write ev"
    "rs_applied_output st = Some a"
  shows "\<exists>v. ev_output ev = Some v \<and> rl_deadband r \<le> \<bar>v - a\<bar> \<and> f64_epsilon < \<bar>v - a\<bar>"
  using assms(1)
proof (cases rule: evaluate_cases)
  case (steer st0 x s)
  have "rs_applied_output st0 = Some a"
    using steer(3) assms(4) by (simp add: carried_def outcome_memory_def)
  with steer(4) assms(3) show ?thesis
    by (auto elim!: steer_result simp: worth_writing_def)
qed (use assms(2,3) in \<open>auto elim!: evaluate_gated_result evaluate_fallback_result simp: is_active_def\<close>)

text \<open>C24. While the source has not dropped a full hysteresis margin below the value the current
  output was set at, a steering rule never asks for less than that output.\<close>
theorem hysteresis_blocks_slowdown:
  assumes "evaluate r st inp = Some (st', ev)" "is_active (ev_status ev)"
    and "rs_applied_output st = Some a" "is_finite (rs_armed_input st)"
    and "steering_value r st inp = Some x" "rs_armed_input st - rl_hysteresis r < x"
  shows "\<exists>v. ev_output ev = Some v \<and> \<not> v < a"
  using assms(1)
proof (cases rule: evaluate_cases)
  case (steer st0 y s)
  have st0: "rs_applied_output st0 = Some a" "rs_armed_input st0 = rs_armed_input st" "y = x"
    using steer(2,3) assms(3,5) by (auto simp: carried_def outcome_memory_def)
  from steer(4) obtain clamped tgt held armed where
    "hysteresis_step r st0 y clamped = (tgt, held, armed)" "ev_output ev = Some tgt"
    by (rule steer_result)
  with st0 assms(4,6) show ?thesis by (auto simp: hysteresis_step_def split: if_splits)
qed (use assms(2) in \<open>auto elim!: evaluate_gated_result evaluate_fallback_result simp: is_active_def\<close>)

text \<open>A gated rule with a source value steers exactly when its gate's reading, fresh or
  within its grace period, satisfies the condition; when the reading fails it, the rule
  stands down at its \<open>otherwise\<close> duty; with no usable reading it follows its failure policy.\<close>
theorem gate_decides:
  assumes "evaluate r st inp = Some (st', ev)" "rl_enabled r" "rl_when r = Some c"
    "steering_value r st inp \<noteq> None"
  shows "case condition_reading r st inp of
      None \<Rightarrow> ev_status ev = Fallback
    | Some v \<Rightarrow> if satisfied_by (cd_op c) v (cd_value c) then is_active (ev_status ev)
        else ev_status ev = Gated \<and> ev_output ev = clamp_checked
          (or_default (ei_safe_default_duty inp) (otherwise_duty (cd_otherwise c) (ei_safe_default_duty inp)))
          (ei_target_min inp) (ei_target_max inp)"
  using assms(1)
proof (cases rule: evaluate_cases)
  case (steer st0 x s)
  with assms(3) show ?thesis by (auto elim!: steer_result simp: is_active_def)
next
  case (gated st0 c' v x)
  with assms(3) show ?thesis by (auto elim!: evaluate_gated_result)
next
  case (fallback st0)
  with assms(3,4) show ?thesis by (auto elim!: evaluate_fallback_result)
qed (use assms(2) in simp)

text \<open>A rule whose source is gone past its grace period follows its failure policy: the
  fail-safe duty by default (and for the unsupported \<open>release\<close>), a fixed percentage, each
  clamped to the hardware; \<open>hold\<close> keeps the last output and writes nothing.\<close>
theorem missing_sensor_policy:
  assumes "evaluate r st inp = Some (st', ev)" "rl_enabled r" "steering_value r st inp = None"
  shows "ev_status ev = Fallback \<and> (case on_sensor_missing (rl_fallback r) of
      Hold \<Rightarrow> ev_output ev = rs_applied_output st \<and> \<not> ev_should_write ev
    | Fixed p \<Rightarrow> ev_output ev = clamp_checked p (ei_target_min inp) (ei_target_max inp)
    | _ \<Rightarrow> ev_output ev =
        clamp_checked (ei_safe_default_duty inp) (ei_target_min inp) (ei_target_max inp))
   \<and> rs_armed_input st' = rs_armed_input st"
  using assms(1)
proof (cases rule: evaluate_cases)
  case (fallback st0)
  have st0: "rs_applied_output st0 = rs_applied_output st" "rs_armed_input st0 = rs_armed_input st"
    using fallback(2) by (auto simp: carried_def outcome_memory_def)
  from fallback(3) show ?thesis
    by (rule evaluate_fallback_result)
      (auto simp: fallback_decision_def st0 or_default_def split: fallback_action.splits)
qed (use assms(2,3) in auto)

text \<open>An evaluation decides, it does not record outcomes: the applied output, the control
  hold and the write counters stay as they were (a write that fails later cannot poison them);
  it counts itself once, and once more as skipped unless it writes or is disabled.\<close>
theorem evaluate_keeps_outcome:
  assumes "evaluate r st inp = Some (st', ev)"
  shows "rs_applied_output st' = rs_applied_output st \<and> rs_control st' = rs_control st
     \<and> rs_writes st' = rs_writes st \<and> rs_last_write_ms st' = rs_last_write_ms st
     \<and> rs_unconfirmed_writes st' = rs_unconfirmed_writes st
     \<and> rs_evaluations st' = sat_add64 (rs_evaluations st) 1
     \<and> rs_skipped st' = (if ev_should_write ev \<or> ev_status ev = Disabled then rs_skipped st
         else sat_add64 (rs_skipped st) 1)
     \<and> rs_next_due_ms st' = ev_next_due_ms ev \<and> \<not> ev_release ev"
proof -
  have rel: "\<not> ev_release ev" if "\<not> rl_enabled r"
    using that assms by (auto simp: evaluate_def Let_def)
  from assms show ?thesis
  proof (cases rule: evaluate_cases)
    case disabled
    then show ?thesis using rel by (auto simp: outcome_memory_def)
  qed (auto elim!: steer_result evaluate_gated_result evaluate_fallback_result
      simp: recorded_def carried_def outcome_memory_def split: if_splits)
qed

subsection \<open>Silence over several evaluations\<close>

fun evaluations :: "rule \<Rightarrow> rule_state \<Rightarrow> evaluation_input list
    \<Rightarrow> (rule_state \<times> evaluation list) option" where
  "evaluations r st [] = Some (st, [])"
| "evaluations r st (inp # inps) = Option.bind (evaluate r st inp) (\<lambda>(st, ev).
     Option.bind (evaluations r st inps) (\<lambda>(st, evs). Some (st, ev # evs)))"

definition silent :: "evaluation_input \<Rightarrow> bool" where
  "silent inp \<longleftrightarrow> finite_only (ei_source_value inp) = None"

lemma evaluate_silent_anchor:
  assumes "evaluate r st inp = Some (st', ev)" "silent inp"
  shows "rs_last_input st' = rs_last_input st \<and> rs_last_input_ms st' = rs_last_input_ms st"
  using assms(1)
proof (cases rule: evaluate_cases)
  case (steer st0 x s)
  from steer(3,4) assms(2) show ?thesis
    by (auto simp: carried_def silent_def recorded_def elim!: steer_result)
next
  case (gated st0 c v x)
  from gated(3,4) assms(2) show ?thesis
    by (auto simp: carried_def silent_def recorded_def elim!: evaluate_gated_result)
next
  case (fallback st0)
  from fallback(2,3) assms(2) show ?thesis
    by (auto simp: carried_def silent_def recorded_def elim!: evaluate_fallback_result)
qed simp

lemma stale_expired:
  "grace_ms r \<le> silence (ei_now_ms inp) (rs_last_input_ms st) \<Longrightarrow> stale_value_within_grace r st inp = None"
  by (simp add: stale_value_within_grace_def split: option.split)

lemma evaluations_silent_anchor:
  assumes "evaluations r st inps = Some (st', evs)" "list_all silent inps"
  shows "rs_last_input_ms st' = rs_last_input_ms st"
  using assms
proof (induction inps arbitrary: st evs)
  case (Cons inp inps)
  then show ?case using evaluate_silent_anchor [of r st inp]
    by (auto simp: bind_eq_Some_conv split: prod.splits)
qed simp

lemma evaluations_append:
  "evaluations r st (xs @ ys) = Option.bind (evaluations r st xs) (\<lambda>(st, evs).
     Option.bind (evaluations r st ys) (\<lambda>(st, evs'). Some (st, evs @ evs')))"
  by (induction xs arbitrary: st) (auto simp: Option.bind_assoc split_def intro!: Option.bind_cong)

text \<open>C33. Silence cannot be stretched: however often a rule is evaluated without a reading, the
  grace period runs from the last real reading, and once it is over the rule is in its
  failure policy.\<close>
theorem silence_ends_in_fallback:
  assumes "evaluations r st (inps @ [inp]) = Some (st', evs)" "list_all silent (inps @ [inp])"
    and "rl_enabled r" "grace_ms r \<le> silence (ei_now_ms inp) (rs_last_input_ms st)"
  shows "ev_status (last evs) = Fallback"
proof -
  obtain st1 evs1 ev where run: "evaluations r st inps = Some (st1, evs1)"
    "evaluate r st1 inp = Some (st', ev)" "evs = evs1 @ [ev]"
    using assms(1) by (auto simp: evaluations_append bind_eq_Some_conv split: prod.splits)
  have "rs_last_input_ms st1 = rs_last_input_ms st"
    using evaluations_silent_anchor [OF run(1)] assms(2) by simp
  then have "stale_value_within_grace r st1 inp = None"
    using assms(4) by (intro stale_expired) simp
  then have none: "steering_value r st1 inp = None"
    using assms(2) by (simp add: steering_value_def silent_def)
  from run(2) have "ev_status ev = Fallback"
  proof (cases rule: evaluate_cases)
    case (fallback st0)
    then show ?thesis by (auto elim!: evaluate_fallback_result)
  qed (use none assms(3) in auto)
  then show ?thesis by (simp add: run(3))
qed

subsection \<open>The documented example, evaluated\<close>

abbreviation demo_state :: rule_state where
  "demo_state \<equiv> rule_state_new ''gpu-cooling''"

abbreviation hot_input :: evaluation_input where
  "hot_input \<equiv> evaluation_input_new (Some (Fin 90)) 1000"

lemma demo_curve: "curve_eval (rl_curve example_rule) (Fin 90) = Some (Fin 100)"
  "curve_eval (rl_curve example_rule) (Fin 30) = Some (Fin 20)"
  "curve_eval (rl_curve example_rule) (Fin 84) = Some (eval_windows (windows2 gpu_points) (Fin 84) (Fin 100))"
  by (simp_all add: curve_eval_def example_rule_def gpu_points_def point_def)

lemma demo_clamp: "clamp_output example_rule (Fin q) = Some (Fin q)"
  by (simp add: clamp_output_def effective_output_range_def example_rule_def or_default_def
      clamp_checked_def fclamp_def f64_ord)

lemma demo_rule: "rl_enabled example_rule" "rl_when example_rule = None"
  "rl_hysteresis example_rule = Fin 2" "rl_deadband example_rule = Fin (1 / 2)"
  "rl_fallback example_rule = default_fallback" "rl_update_interval_ms example_rule = 1000"
  by (simp_all add: example_rule_def)

lemma demo_hot: "\<exists>st' ev. evaluate example_rule demo_state hot_input = Some (st', ev)
   \<and> ev_status ev = Applied \<and> ev_should_write ev"
  by (simp add: evaluate_def demo_rule evaluation_input_new_def finite_only_def evaluate_active_def
      steer_def demo_curve demo_clamp clamp_checked_def fclamp_def Let_def hysteresis_step_def
      rule_state_new_def worth_writing_def)


lemma ungated_active:
  assumes "evaluate r st inp = Some (st', ev)" "rl_enabled r" "rl_when r = None"
    "steering_value r st inp \<noteq> None"
  shows "is_active (ev_status ev)"
  using assms(1)
proof (cases rule: evaluate_cases)
  case (steer st0 x s)
  then show ?thesis by (auto elim!: steer_result simp: is_active_def)
qed (use assms in auto)

lemma demo_ok: "validate_rule example_rule = Inr ()" "tame (rl_curve example_rule)"
  by (simp_all add: validate_rule_ok example_rule_valid) (simp add: example_rule_def gpu_points_tame)

lemma demo_input: "ei_target_min (evaluation_input_new v t) = Fin 0"
  "ei_target_max (evaluation_input_new v t) = Fin 100"
  "ei_safe_default_duty (evaluation_input_new v t) = Fin 70"
  "ei_source_value (evaluation_input_new v t) = v"
  "ei_now_ms (evaluation_input_new v t) = t"
  by (simp_all add: evaluation_input_new_def)

theorem evaluate_total_witness:
  "\<exists>st' ev. evaluate example_rule demo_state hot_input = Some (st', ev)"
  by (rule evaluate_total [OF demo_ok(1)]) (simp add: demo_input)

theorem written_output_in_range_witness:
  "\<exists>st' ev. evaluate example_rule demo_state hot_input = Some (st', ev)
     \<and> (\<exists>v. ev_output ev = Some v \<and> Fin 0 \<le> v \<and> v \<le> Fin 100)"
  using demo_hot written_output_in_range [OF demo_ok, of hot_input demo_state]
  by (fastforce simp: demo_input in_percent_def)

theorem steering_follows_curve_witness:
  "\<exists>st' ev. evaluate example_rule demo_state hot_input = Some (st', ev)
     \<and> ev_output ev = clamp_checked (Fin 100) (Fin 0) (Fin 100)"
proof -
  obtain st' ev where e: "evaluate example_rule demo_state hot_input = Some (st', ev)" "ev_status ev = Applied"
    using demo_hot by blast
  have "steering_value example_rule demo_state hot_input = Some (Fin 90)"
    by (simp add: steering_value_def demo_input finite_only_def)
  with steering_follows_curve [OF e] e(1) show ?thesis
    by (auto simp: demo_curve demo_clamp demo_input)
qed

abbreviation cruising :: rule_state where
  "cruising \<equiv> demo_state\<lparr>rs_applied_output := Some (Fin 100), rs_armed_input := Fin 85\<rparr>"

abbreviation cooler_input :: evaluation_input where
  "cooler_input \<equiv> evaluation_input_new (Some (Fin 84)) 2000"

lemma demo_steering: "steering_value example_rule st (evaluation_input_new (Some (Fin q)) t) = Some (Fin q)"
  by (simp add: steering_value_def demo_input finite_only_def)

lemma demo_active:
  "\<exists>st' ev. evaluate example_rule st (evaluation_input_new (Some (Fin q)) t) = Some (st', ev)
     \<and> is_active (ev_status ev)"
proof -
  obtain st' ev where e: "evaluate example_rule st (evaluation_input_new (Some (Fin q)) t) = Some (st', ev)"
    using evaluate_some [OF example_rule_valid] by (metis Fin_le_Fin demo_input(1,2) zero_le_numeral)
  with ungated_active [OF e] show ?thesis by (simp add: demo_rule demo_steering)
qed

theorem hysteresis_blocks_slowdown_witness:
  "\<exists>st' ev. evaluate example_rule cruising cooler_input = Some (st', ev)
     \<and> (\<exists>v. ev_output ev = Some v \<and> \<not> v < Fin 100)"
proof -
  obtain st' ev where e: "evaluate example_rule cruising cooler_input = Some (st', ev)"
    "is_active (ev_status ev)" using demo_active by blast
  have "Fin 85 - Fin 2 < Fin (84 :: rat)"
    by (simp add: Fin_minus rnd_exact is_dbl_numeral)
  with hysteresis_blocks_slowdown [OF e, of "Fin 100" "Fin 84"] e(1) show ?thesis
    by (auto simp: demo_rule demo_steering)
qed

theorem deadband_respected_witness:
  "\<exists>st' ev. evaluate example_rule (demo_state\<lparr>rs_applied_output := Some (Fin 20)\<rparr>) hot_input = Some (st', ev)
     \<and> (\<exists>v. ev_output ev = Some v \<and> Fin (1 / 2) \<le> \<bar>v - Fin 20\<bar> \<and> f64_epsilon < \<bar>v - Fin 20\<bar>)"
proof -
  have d: "Fin 100 - Fin 20 = Fin (80 :: rat)" by (simp add: Fin_minus rnd_exact is_dbl_numeral)
  have eps: "f64_epsilon < Fin 80"
    using pow2_mono [of "- 52" 0] by (simp add: f64_epsilon_def pow2_def)
  obtain st' ev where e: "evaluate example_rule (demo_state\<lparr>rs_applied_output := Some (Fin 20)\<rparr>) hot_input
      = Some (st', ev)" "is_active (ev_status ev)" "ev_should_write ev"
    by (simp add: evaluate_def demo_rule evaluation_input_new_def finite_only_def evaluate_active_def
      steer_def demo_curve demo_clamp clamp_checked_def fclamp_def Let_def hysteresis_step_def
      rule_state_new_def worth_writing_def d eps abs_f64_def is_active_def)
  from deadband_respected [OF e, of "Fin 20"] e(1) show ?thesis by (auto simp: demo_rule)
qed

definition gaming_rule :: rule where
  "gaming_rule = with_condition example_rule (condition_new ''gpu.mock.0'' ''load.gpu'' Gt (Fin 60))"

abbreviation quiet_input :: evaluation_input where
  "quiet_input \<equiv> hot_input\<lparr>ei_condition_value := Some (Fin 10)\<rparr>"

lemma gaming_rule_facts: "rl_enabled gaming_rule"
  "rl_when gaming_rule = Some (condition_new ''gpu.mock.0'' ''load.gpu'' Gt (Fin 60))"
  by (simp_all add: gaming_rule_def with_condition_def demo_rule)

lemma gaming_rule_valid: "valid_rule gaming_rule"
  using example_rule_valid
  by (simp add: gaming_rule_def with_condition_def valid_rule_def condition_new_def target_as_sensor_def)
    (simp add: example_rule_def)

theorem gate_decides_witness:
  "\<exists>st' ev. evaluate gaming_rule demo_state quiet_input = Some (st', ev)
     \<and> ev_status ev = Gated \<and> ev_output ev = clamp_checked (Fin 70) (Fin 0) (Fin 100)"
proof -
  obtain st' ev where e: "evaluate gaming_rule demo_state quiet_input = Some (st', ev)"
    using evaluate_some [OF gaming_rule_valid, of quiet_input demo_state] by (auto simp: demo_input)
  have "steering_value gaming_rule demo_state quiet_input \<noteq> None"
    by (simp add: steering_value_def demo_input finite_only_def)
  from gate_decides [OF e gaming_rule_facts this] e show ?thesis
    by (auto simp: condition_reading_def finite_only_def condition_new_def satisfied_by_def
        or_default_def demo_input)
qed

abbreviation lost_input :: "int \<Rightarrow> evaluation_input" where
  "lost_input \<equiv> evaluation_input_new None"

lemma demo_lost: "steering_value example_rule demo_state (lost_input t) = None"
  by (simp add: steering_value_def demo_input finite_only_def stale_value_within_grace_def
      rule_state_new_def)

lemma demo_evaluates: "\<exists>st' ev. evaluate example_rule st (evaluation_input_new v t) = Some (st', ev)"
  by (rule evaluate_some [OF example_rule_valid]) (simp add: demo_input)

theorem missing_sensor_policy_witness:
  "\<exists>st' ev. evaluate example_rule demo_state (lost_input 1000) = Some (st', ev)
     \<and> ev_status ev = Fallback \<and> ev_output ev = clamp_checked (Fin 70) (Fin 0) (Fin 100)"
proof -
  obtain st' ev where e: "evaluate example_rule demo_state (lost_input 1000) = Some (st', ev)"
    using demo_evaluates by blast
  from missing_sensor_policy [OF e _ demo_lost] e show ?thesis
    by (auto simp: demo_rule default_fallback_def demo_input)
qed

theorem evaluate_keeps_outcome_witness:
  "\<exists>st' ev. evaluate example_rule demo_state (lost_input 1000) = Some (st', ev)
     \<and> rs_applied_output st' = None \<and> rs_evaluations st' = 1"
proof -
  obtain st' ev where e: "evaluate example_rule demo_state (lost_input 1000) = Some (st', ev)"
    using demo_evaluates by blast
  from evaluate_keeps_outcome [OF e] e show ?thesis
    by (auto simp: rule_state_new_def int_simps)
qed

definition patient_rule :: rule where
  "patient_rule = with_fallback example_rule (default_fallback\<lparr>sensor_timeout_s := 30\<rparr>)"

lemma patient_rule_valid: "valid_rule patient_rule"
  using example_rule_valid
  by (simp add: patient_rule_def with_fallback_def valid_rule_def target_as_sensor_def
      fallback_ok_def default_fallback_def action_ok_def)

abbreviation seen_state :: rule_state where
  "seen_state \<equiv> demo_state\<lparr>rs_last_input := Some (Fin 60), rs_last_input_ms := 1000\<rparr>"

theorem silence_ends_in_fallback_witness:
  "\<exists>st' evs. evaluations patient_rule seen_state ([lost_input 20000] @ [lost_input 31000]) = Some (st', evs)
     \<and> ev_status (last evs) = Fallback"
proof -
  have tot: "\<exists>st' ev. evaluate patient_rule st (evaluation_input_new v t) = Some (st', ev)" for st v t
    by (rule evaluate_some [OF patient_rule_valid]) (simp add: demo_input)
  obtain st' evs where e: "evaluations patient_rule seen_state ([lost_input 20000] @ [lost_input 31000])
      = Some (st', evs)"
  proof -
    obtain st1 ev1 where 1: "evaluate patient_rule seen_state (lost_input 20000) = Some (st1, ev1)"
      using tot by blast
    obtain st2 ev2 where "evaluate patient_rule st1 (lost_input 31000) = Some (st2, ev2)"
      using tot by blast
    with 1 show thesis by (intro that [of st2 "[ev1, ev2]"]) simp
  qed
  have "grace_ms patient_rule \<le> silence (ei_now_ms (lost_input 31000)) (rs_last_input_ms seen_state)"
    by (simp add: grace_ms_def patient_rule_def with_fallback_def silence_def demo_input
        sat_i64_def i64_max_def)
  moreover have "rl_enabled patient_rule"
    by (simp add: patient_rule_def with_fallback_def demo_rule)
  ultimately show ?thesis
    using silence_ends_in_fallback [OF e] e by (auto simp: silent_def finite_only_def demo_input)
qed

end
