(* ===== verification/Handover.thy ===== *)
theory Handover
  imports Evaluator "HOL-Library.Multiset"
begin

section \<open>Channel handover\<close>

text \<open>
  \<open>crates/ohm-automation/src/handover.rs\<close>: the book of channels a rule stopped driving. Open items
  are kept until they are confirmed or superseded; finished ones move to a bounded history.
  Every operation on one channel works on the first open item of that channel.
\<close>

definition HANDOVER_RETRY_TICKS :: nat where "HANDOVER_RETRY_TICKS = 5"
definition MAX_HANDOVER_ATTEMPTS :: nat where "MAX_HANDOVER_ATTEMPTS = 5"
definition HANDOVER_OWNER_WAIT_TICKS :: nat where "HANDOVER_OWNER_WAIT_TICKS = 50"
definition HISTORY_LIMIT :: nat where "HISTORY_LIMIT = 32"

lemmas handover_consts = HANDOVER_RETRY_TICKS_def MAX_HANDOVER_ATTEMPTS_def
  HANDOVER_OWNER_WAIT_TICKS_def HISTORY_LIMIT_def

subsection \<open>States and items\<close>

datatype handover_state =
  Pending | NeedsVerification | AwaitingOwner | Confirmed | Failed | Superseded

fun handover_state_str :: "handover_state \<Rightarrow> string" where
  "handover_state_str Pending = ''pending''"
| "handover_state_str NeedsVerification = ''needs_verification''"
| "handover_state_str AwaitingOwner = ''awaiting_owner''"
| "handover_state_str Confirmed = ''confirmed''"
| "handover_state_str Failed = ''failed''"
| "handover_state_str Superseded = ''superseded''"

definition is_unresolved :: "handover_state \<Rightarrow> bool" where
  "is_unresolved s \<longleftrightarrow> s = Pending \<or> s = NeedsVerification \<or> s = AwaitingOwner \<or> s = Failed"

definition is_attemptable :: "handover_state \<Rightarrow> bool" where
  "is_attemptable s \<longleftrightarrow> s = Pending"

record handover =
  ho_device :: string
  ho_capability :: string
  ho_from_rule :: string
  ho_reason :: message
  ho_state :: handover_state
  ho_attempts :: nat
  ho_first_error :: "message option"
  ho_last_error :: "message option"
  ho_queued_at_ms :: int
  ho_last_attempt_ms :: int
  ho_confirmed_value :: "f64 option"
  ho_superseded_by :: "string option"
  ho_claimant :: "string option"
  ho_claimed_ticks :: nat
  ho_parked_by_claim :: bool
  ho_next_attempt_tick :: nat

text \<open>\<open>HandoverReport\<close>: the item without the engine's own bookkeeping.\<close>

record handover_report =
  hr_device :: string
  hr_capability :: string
  hr_from_rule :: string
  hr_reason :: message
  hr_state :: handover_state
  hr_attempts :: nat
  hr_first_error :: "message option"
  hr_last_error :: "message option"
  hr_queued_at_ms :: int
  hr_last_attempt_ms :: int
  hr_confirmed_value :: "f64 option"
  hr_superseded_by :: "string option"
  hr_claimant :: "string option"
  hr_claimed_ticks :: nat

definition report_of :: "handover \<Rightarrow> handover_report" where
  "report_of h = \<lparr>hr_device = ho_device h, hr_capability = ho_capability h,
     hr_from_rule = ho_from_rule h, hr_reason = ho_reason h, hr_state = ho_state h,
     hr_attempts = ho_attempts h, hr_first_error = ho_first_error h,
     hr_last_error = ho_last_error h, hr_queued_at_ms = ho_queued_at_ms h,
     hr_last_attempt_ms = ho_last_attempt_ms h, hr_confirmed_value = ho_confirmed_value h,
     hr_superseded_by = ho_superseded_by h, hr_claimant = ho_claimant h,
     hr_claimed_ticks = ho_claimed_ticks h\<rparr>"

definition handover_summary :: "handover_report \<Rightarrow> message" where
  "handover_summary h =
    (let base = [Txt (hr_device h), Txt ''/'', Txt (hr_capability h), Txt '' (left by '',
           Txt (hr_from_rule h), Txt ''): '', Txt (handover_state_str (hr_state h))];
         dash = [Txt '' '', Txt em_dash, Txt '' ''] in
     case hr_state h of
       Pending \<Rightarrow> base @ dash @ [Dec (int (hr_attempts h)), Txt '' attempt(s)'']
     | Confirmed \<Rightarrow> (case hr_confirmed_value h of
           Some v \<Rightarrow> base @ [Txt '' at '', Prec 0 v, Txt '' %''] | None \<Rightarrow> base)
     | Failed \<Rightarrow> base @ [Txt '' after '', Dec (int (hr_attempts h)), Txt '' attempt(s): '']
         @ (case hr_first_error h of Some e \<Rightarrow> e | None \<Rightarrow> [Txt ''no reason recorded''])
     | Superseded \<Rightarrow> (case hr_superseded_by h of
           Some r \<Rightarrow> base @ dash @ [Txt r, Txt '' took it over'']
         | None \<Rightarrow> base @ dash @ [Txt ''the channel has an owner again''])
     | NeedsVerification \<Rightarrow> base @ dash @
         [Txt ''recovered from a previous session; the device has not been checked yet'']
     | AwaitingOwner \<Rightarrow> (case hr_claimant h of
           Some r \<Rightarrow> base @ dash @ [Txt ''claimed by '', Txt r, Txt '', which has not driven it ('',
             Dec (int (hr_claimed_ticks h)), Txt '' tick(s) waiting)'']
         | None \<Rightarrow> base @ dash @ [Txt ''waiting for its new owner to take control'']))"

subsection \<open>The book\<close>

record handover_book =
  hb_open :: "handover list"
  hb_history :: "handover list"

definition empty_book :: handover_book where
  "empty_book = \<lparr>hb_open = [], hb_history = []\<rparr>"

definition at_channel :: "string \<Rightarrow> string \<Rightarrow> handover \<Rightarrow> bool" where
  "at_channel d c h \<longleftrightarrow> ho_device h = d \<and> ho_capability h = c"

definition book_find :: "handover_book \<Rightarrow> string \<Rightarrow> string \<Rightarrow> handover option" where
  "book_find b d c = List.find (at_channel d c) (hb_open b)"

fun update_first :: "('a \<Rightarrow> bool) \<Rightarrow> ('a \<Rightarrow> 'a) \<Rightarrow> 'a list \<Rightarrow> 'a list" where
  "update_first P f [] = []"
| "update_first P f (x # xs) = (if P x then f x # xs else x # update_first P f xs)"

fun remove_first :: "('a \<Rightarrow> bool) \<Rightarrow> 'a list \<Rightarrow> 'a list" where
  "remove_first P [] = []"
| "remove_first P (x # xs) = (if P x then xs else x # remove_first P xs)"

text \<open>Write an item back in its place.\<close>

definition book_put :: "string \<Rightarrow> string \<Rightarrow> handover \<Rightarrow> handover_book \<Rightarrow> handover_book" where
  "book_put d c h b = b\<lparr>hb_open := update_first (at_channel d c) (\<lambda>_. h) (hb_open b)\<rparr>"

definition new_handover :: "string \<Rightarrow> string \<Rightarrow> string \<Rightarrow> message \<Rightarrow> nat \<Rightarrow> int \<Rightarrow> handover" where
  "new_handover d c rule reason tick now = \<lparr>ho_device = d, ho_capability = c, ho_from_rule = rule,
     ho_reason = reason, ho_state = Pending, ho_attempts = 0, ho_first_error = None,
     ho_last_error = None, ho_queued_at_ms = now, ho_last_attempt_ms = 0,
     ho_confirmed_value = None, ho_superseded_by = None, ho_claimant = None,
     ho_claimed_ticks = 0, ho_parked_by_claim = False, ho_next_attempt_tick = tick\<rparr>"

definition queue_handover :: "string \<Rightarrow> string \<Rightarrow> string \<Rightarrow> message \<Rightarrow> nat \<Rightarrow> int
    \<Rightarrow> handover_book \<Rightarrow> handover_book" where
  "queue_handover d c rule reason tick now b =
    (case book_find b d c of
       Some h \<Rightarrow>
         (let h = h\<lparr>ho_from_rule := rule, ho_reason := reason\<rparr>
          in book_put d c (if tick < ho_next_attempt_tick h then h\<lparr>ho_next_attempt_tick := tick\<rparr> else h) b)
     | None \<Rightarrow> b\<lparr>hb_open := hb_open b @ [new_handover d c rule reason tick now]\<rparr>)"

definition open_count :: "handover_book \<Rightarrow> nat" where
  "open_count b = length (hb_open b)"

definition book_reports :: "handover_book \<Rightarrow> handover_report list" where
  "book_reports b = map report_of (hb_open b @ hb_history b)"

definition mark_awaiting :: "string \<Rightarrow> string \<Rightarrow> string \<Rightarrow> message \<Rightarrow> handover_book
    \<Rightarrow> handover_book \<times> nat" where
  "mark_awaiting d c claimant reason b =
    (case book_find b d c of None \<Rightarrow> (b, 0)
     | Some h \<Rightarrow>
       (let h = (if ho_state h = Pending
              then h\<lparr>ho_state := AwaitingOwner, ho_claimed_ticks := 0\<rparr> else h);
            h = (if ho_state h = AwaitingOwner
              then h\<lparr>ho_claimed_ticks := sat_add64 (ho_claimed_ticks h) 1,
                     ho_claimant := Some claimant, ho_reason := reason\<rparr> else h)
        in (book_put d c h b, ho_claimed_ticks h)))"

definition park_unmet_claim :: "string \<Rightarrow> string \<Rightarrow> message \<Rightarrow> handover_book \<Rightarrow> handover_book \<times> bool" where
  "park_unmet_claim d c reason b =
    (case book_find b d c of None \<Rightarrow> (b, False)
     | Some h \<Rightarrow>
       if ho_state h \<noteq> AwaitingOwner then (b, False)
       else
        (let h = h\<lparr>ho_state := Failed, ho_parked_by_claim := True, ho_reason := reason\<rparr>;
             h = (if ho_first_error h = None then h\<lparr>ho_first_error := Some
                 [Txt ''the rule that claimed this channel never took control of it ('',
                  Dec (int (ho_claimed_ticks h)), Txt '' tick(s))'']\<rparr> else h)
         in (book_put d c (h\<lparr>ho_last_error := ho_first_error h\<rparr>) b, True)))"

definition release_claim :: "string \<Rightarrow> string \<Rightarrow> nat \<Rightarrow> handover_book \<Rightarrow> handover_book \<times> bool" where
  "release_claim d c tick b =
    (case book_find b d c of None \<Rightarrow> (b, False)
     | Some h \<Rightarrow>
       if ho_state h \<noteq> AwaitingOwner \<and> \<not> (ho_state h = Failed \<and> ho_parked_by_claim h) then (b, False)
       else (book_put d c (h\<lparr>ho_state := Pending, ho_claimant := None, ho_claimed_ticks := 0,
               ho_parked_by_claim := False, ho_attempts := 0, ho_next_attempt_tick := tick\<rparr>) b, True))"

definition restore_handover :: "handover \<Rightarrow> int \<Rightarrow> handover_book \<Rightarrow> handover_book" where
  "restore_handover h now b = b\<lparr>hb_open := hb_open b @
     [h\<lparr>ho_state := NeedsVerification, ho_queued_at_ms := min (ho_queued_at_ms h) now\<rparr>]\<rparr>"

definition mark_verified :: "string \<Rightarrow> string \<Rightarrow> nat \<Rightarrow> handover_book \<Rightarrow> handover_book \<times> bool" where
  "mark_verified d c tick b =
    (case book_find b d c of None \<Rightarrow> (b, False)
     | Some h \<Rightarrow>
       if ho_state h \<noteq> NeedsVerification then (b, False)
       else (book_put d c (h\<lparr>ho_state := Pending, ho_attempts := 0, ho_next_attempt_tick := tick\<rparr>) b, True))"

definition fail_recovered :: "string \<Rightarrow> string \<Rightarrow> message \<Rightarrow> handover_book \<Rightarrow> handover_book \<times> bool" where
  "fail_recovered d c reason b =
    (case book_find b d c of None \<Rightarrow> (b, False)
     | Some h \<Rightarrow>
       if ho_state h \<noteq> NeedsVerification then (b, False)
       else (book_put d c (h\<lparr>ho_state := Failed, ho_parked_by_claim := False,
               ho_first_error := (case ho_first_error h of None \<Rightarrow> Some reason | Some e \<Rightarrow> Some e),
               ho_last_error := Some reason, ho_reason := reason\<rparr>) b, True))"

definition is_due :: "handover_book \<Rightarrow> string \<Rightarrow> string \<Rightarrow> nat \<Rightarrow> bool" where
  "is_due b d c tick = (case book_find b d c of None \<Rightarrow> False
     | Some h \<Rightarrow> is_attemptable (ho_state h) \<and> ho_next_attempt_tick h \<le> tick)"

definition attempted_item :: "message option \<Rightarrow> nat \<Rightarrow> int \<Rightarrow> handover \<Rightarrow> handover" where
  "attempted_item err tick now h =
    (let h = h\<lparr>ho_attempts := min u32_max (ho_attempts h + 1), ho_last_attempt_ms := now,
               ho_next_attempt_tick := tick + HANDOVER_RETRY_TICKS\<rparr>;
         h = (case err of None \<Rightarrow> h
              | Some e \<Rightarrow> h\<lparr>ho_first_error := (case ho_first_error h of None \<Rightarrow> Some e | Some f \<Rightarrow> Some f),
                             ho_last_error := Some e\<rparr>)
     in if MAX_HANDOVER_ATTEMPTS \<le> ho_attempts h then h\<lparr>ho_state := Failed\<rparr> else h)"

definition record_attempt :: "string \<Rightarrow> string \<Rightarrow> message option \<Rightarrow> nat \<Rightarrow> int \<Rightarrow> handover_book
    \<Rightarrow> handover_book \<times> handover_state" where
  "record_attempt d c err tick now b =
    (case book_find b d c of None \<Rightarrow> (b, Superseded)
     | Some h \<Rightarrow>
       (let h = attempted_item err tick now h
        in (book_put d c h b,
            if MAX_HANDOVER_ATTEMPTS \<le> ho_attempts h then Failed else Pending)))"

text \<open>\<open>finish\<close>: a resolved item leaves the queue for the end of the history, which drops its oldest.\<close>

definition finish_item :: "string \<Rightarrow> string \<Rightarrow> handover \<Rightarrow> handover_book \<Rightarrow> handover_book" where
  "finish_item d c h b =
    (if is_unresolved (ho_state h) then book_put d c h b
     else (let history = hb_history b @ [h] in
       b\<lparr>hb_open := remove_first (at_channel d c) (hb_open b),
         hb_history := drop (length history - HISTORY_LIMIT) history\<rparr>))"

definition confirm_handover :: "string \<Rightarrow> string \<Rightarrow> f64 option \<Rightarrow> int \<Rightarrow> handover_book
    \<Rightarrow> handover_book \<times> bool" where
  "confirm_handover d c v now b =
    (case book_find b d c of None \<Rightarrow> (b, False)
     | Some h \<Rightarrow> (finish_item d c (h\<lparr>ho_state := Confirmed, ho_confirmed_value := v,
         ho_attempts := min u32_max (ho_attempts h + 1), ho_last_attempt_ms := now,
         ho_last_error := None\<rparr>) b, True))"

definition supersede :: "string \<Rightarrow> string \<Rightarrow> string option \<Rightarrow> handover_book \<Rightarrow> handover_book \<times> bool" where
  "supersede d c by_rule b =
    (case book_find b d c of None \<Rightarrow> (b, False)
     | Some h \<Rightarrow> (finish_item d c (h\<lparr>ho_state := Superseded, ho_superseded_by := by_rule\<rparr>) b, True))"

definition rearm :: "nat \<Rightarrow> handover \<Rightarrow> handover" where
  "rearm tick h = h\<lparr>ho_state := Pending, ho_attempts := 0, ho_next_attempt_tick := tick,
     ho_last_error := None\<rparr>"

definition retry_failed :: "nat \<Rightarrow> handover_book \<Rightarrow> handover_book \<times> nat" where
  "retry_failed tick b =
    (b\<lparr>hb_open := map (\<lambda>h. if ho_state h = Failed then rearm tick h else h) (hb_open b)\<rparr>,
     length (filter (\<lambda>h. ho_state h = Failed) (hb_open b)))"

definition retry_failed_one :: "string \<Rightarrow> string \<Rightarrow> nat \<Rightarrow> handover_book \<Rightarrow> handover_book \<times> bool" where
  "retry_failed_one d c tick b =
    (case book_find b d c of None \<Rightarrow> (b, False)
     | Some h \<Rightarrow> if ho_state h \<noteq> Failed then (b, False)
       else (book_put d c (rearm tick h) b, True))"

subsection \<open>Lists updated at their first match\<close>

definition channel :: "handover \<Rightarrow> string \<times> string" where
  "channel h = (ho_device h, ho_capability h)"

lemma at_channel_iff: "at_channel d c h \<longleftrightarrow> channel h = (d, c)"
  by (auto simp: at_channel_def channel_def)

lemma update_first_keys:
  "(\<And>x. P x \<Longrightarrow> key (f x) = key x) \<Longrightarrow> map key (update_first P f xs) = map key xs"
  by (induction xs) auto

lemma update_first_in: "y \<in> set (update_first P (\<lambda>_. z) xs) \<Longrightarrow> y = z \<or> y \<in> set xs"
  by (induction xs) (auto split: if_splits)

lemma update_first_new: "List.find P xs = Some x \<Longrightarrow> z \<in> set (update_first P (\<lambda>_. z) xs)"
  by (induction xs) (auto split: if_splits)

lemma update_first_keep: "y \<in> set xs \<Longrightarrow> \<not> P y \<Longrightarrow> y \<in> set (update_first P f xs)"
  by (induction xs) auto

lemma find_update_first: "P z \<Longrightarrow> List.find P xs = Some x \<Longrightarrow> List.find P (update_first P (\<lambda>_. z) xs) = Some z"
  by (induction xs) (auto split: if_splits)

lemma find_update_other:
  "\<not> Q z \<Longrightarrow> (\<And>x. P x \<Longrightarrow> \<not> Q x) \<Longrightarrow> List.find Q (update_first P (\<lambda>_. z) xs) = List.find Q xs"
  by (induction xs) auto

lemma remove_first_keys: "(\<And>x. P x \<longleftrightarrow> key x = k) \<Longrightarrow> map key (remove_first P xs) = remove1 k (map key xs)"
  by (induction xs) auto

lemma remove_first_in: "y \<in> set (remove_first P xs) \<Longrightarrow> y \<in> set xs"
  by (induction xs) (auto split: if_splits)

lemma book_find_channel: "book_find b d c = Some h \<Longrightarrow> h \<in> set (hb_open b) \<and> channel h = (d, c)"
  by (auto simp: book_find_def at_channel_iff find_Some_iff)

lemma book_find_none: "book_find b d c = None \<longleftrightarrow> (d, c) \<notin> channel ` set (hb_open b)"
  by (force simp: book_find_def find_None_iff at_channel_iff image_iff)

subsection \<open>What the book owes\<close>

text \<open>The abstract state: the channels still owed the fail-safe duty, as often as the book has them open.\<close>

definition debts :: "handover_book \<Rightarrow> (string \<times> string) multiset" where
  "debts b = mset (map channel (hb_open b))"

definition owed :: "handover_book \<Rightarrow> (string \<times> string) set" where
  "owed b = channel ` set (hb_open b)"

lemma owed_debts: "owed b = set_mset (debts b)"
  by (simp add: owed_def debts_def)

text \<open>A queue item is unresolved, a waiting attempt is within its budget; the history is settled and bounded.\<close>

definition item_ok :: "handover \<Rightarrow> bool" where
  "item_ok h \<longleftrightarrow> is_unresolved (ho_state h) \<and> (ho_state h = Pending \<longrightarrow> ho_attempts h < MAX_HANDOVER_ATTEMPTS)"

definition book_sound :: "handover_book \<Rightarrow> bool" where
  "book_sound b \<longleftrightarrow> (\<forall>h \<in> set (hb_open b). item_ok h)
     \<and> (\<forall>h \<in> set (hb_history b). \<not> is_unresolved (ho_state h)) \<and> length (hb_history b) \<le> HISTORY_LIMIT"

text \<open>\<dots> and, where nothing was restored beside an open item, every channel is open once.\<close>

definition book_ok :: "handover_book \<Rightarrow> bool" where
  "book_ok b \<longleftrightarrow> distinct (map channel (hb_open b)) \<and> (\<forall>h \<in> set (hb_open b). item_ok h)
     \<and> (\<forall>h \<in> set (hb_history b). \<not> is_unresolved (ho_state h)) \<and> length (hb_history b) \<le> HISTORY_LIMIT"

lemma book_ok_sound: "book_ok b \<longleftrightarrow> distinct (map channel (hb_open b)) \<and> book_sound b"
  by (simp add: book_ok_def book_sound_def)

lemma open_once: "distinct (map channel (hb_open b)) \<longleftrightarrow> (\<forall>x. count (debts b) x \<le> 1)"
  by (metis One_nat_def count_mset_0_iff debts_def distinct_count_atmost_1 le_Suc_eq le_zero_eq order_refl zero_le)

lemma found_item: "book_sound b \<Longrightarrow> book_find b d c = Some h \<Longrightarrow> item_ok h \<and> channel h = (d, c)"
  by (auto simp: book_sound_def dest: book_find_channel)

lemma put_debts: "channel h = (d, c) \<Longrightarrow> debts (book_put d c h b) = debts b"
  using update_first_keys [of "at_channel d c" channel "\<lambda>_. h" "hb_open b"]
  by (simp add: debts_def book_put_def at_channel_iff)

lemma put_owed: "channel h = (d, c) \<Longrightarrow> owed (book_put d c h b) = owed b"
  by (simp add: owed_debts put_debts)

lemma put_sound: "book_sound b \<Longrightarrow> item_ok h \<Longrightarrow> book_sound (book_put d c h b)"
  by (auto simp: book_sound_def book_put_def dest!: update_first_in)

lemma put_found:
  assumes "book_sound b" "book_find b d c = Some h" "channel h' = channel h" "item_ok h'"
  shows "book_sound (book_put d c h' b) \<and> debts (book_put d c h' b) = debts b"
  using assms found_item [OF assms(1,2)] by (simp add: put_sound put_debts)

lemma finish_step:
  assumes "book_sound b" and "\<not> is_unresolved (ho_state h)"
  shows "book_sound (finish_item d c h b) \<and> debts (finish_item d c h b) = debts b - {#(d, c)#}"
proof -
  have "map channel (remove_first (at_channel d c) (hb_open b)) = remove1 (d, c) (map channel (hb_open b))"
    by (rule remove_first_keys) (simp add: at_channel_iff)
  with assms show ?thesis
    by (auto simp: book_sound_def finish_item_def Let_def debts_def simp del: mset_map simp flip: mset_map
        dest!: remove_first_in in_set_dropD)
qed

datatype book_op =
  Op_Queue string string string message nat int
| Op_Await string string string message
| Op_Park string string message
| Op_Release string string nat
| Op_Restore handover int
| Op_Verify string string nat
| Op_Fail_Recovered string string message
| Op_Attempt string string "message option" nat int
| Op_Confirm string string "f64 option" int
| Op_Supersede string string "string option"
| Op_Retry_All nat
| Op_Retry string string nat

fun apply_op :: "book_op \<Rightarrow> handover_book \<Rightarrow> handover_book" where
  "apply_op (Op_Queue d c r why t n) b = queue_handover d c r why t n b"
| "apply_op (Op_Await d c r why) b = fst (mark_awaiting d c r why b)"
| "apply_op (Op_Park d c why) b = fst (park_unmet_claim d c why b)"
| "apply_op (Op_Release d c t) b = fst (release_claim d c t b)"
| "apply_op (Op_Restore h n) b = restore_handover h n b"
| "apply_op (Op_Verify d c t) b = fst (mark_verified d c t b)"
| "apply_op (Op_Fail_Recovered d c why) b = fst (fail_recovered d c why b)"
| "apply_op (Op_Attempt d c e t n) b = fst (record_attempt d c e t n b)"
| "apply_op (Op_Confirm d c v n) b = fst (confirm_handover d c v n b)"
| "apply_op (Op_Supersede d c r) b = fst (supersede d c r b)"
| "apply_op (Op_Retry_All t) b = fst (retry_failed t b)"
| "apply_op (Op_Retry d c t) b = fst (retry_failed_one d c t b)"

text \<open>The specification: only a confirmation or a new owner takes a channel off the list, once; queueing folds
  into an open item, restoring does not.\<close>

fun spec_op :: "book_op \<Rightarrow> (string \<times> string) multiset \<Rightarrow> (string \<times> string) multiset" where
  "spec_op (Op_Queue d c _ _ _ _) S = (if (d, c) \<in># S then S else add_mset (d, c) S)"
| "spec_op (Op_Restore h _) S = add_mset (channel h) S"
| "spec_op (Op_Confirm d c _ _) S = S - {#(d, c)#}"
| "spec_op (Op_Supersede d c _) S = S - {#(d, c)#}"
| "spec_op _ S = S"

text \<open>What only restoring can break: a record restored for a channel that is open already.\<close>

fun op_fresh :: "book_op \<Rightarrow> handover_book \<Rightarrow> bool" where
  "op_fresh (Op_Restore h _) b = (channel h \<notin> owed b)"
| "op_fresh _ _ = True"

lemma spec_once:
  assumes "\<forall>x. count (debts b) x \<le> 1" "op_fresh op b" shows "count (spec_op op (debts b)) x \<le> 1"
proof -
  have "count (debts b) x \<le> 1" using assms(1) ..
  then show ?thesis using assms(2) by (cases op) (auto simp: owed_debts not_in_iff)
qed

lemma channel_updates [simp]:
  "channel (h\<lparr>ho_state := s\<rparr>) = channel h" "channel (h\<lparr>ho_attempts := n\<rparr>) = channel h"
  "channel (h\<lparr>ho_from_rule := r\<rparr>) = channel h" "channel (h\<lparr>ho_reason := m\<rparr>) = channel h"
  "channel (h\<lparr>ho_first_error := e\<rparr>) = channel h" "channel (h\<lparr>ho_last_error := e\<rparr>) = channel h"
  "channel (h\<lparr>ho_queued_at_ms := k\<rparr>) = channel h" "channel (h\<lparr>ho_last_attempt_ms := k\<rparr>) = channel h"
  "channel (h\<lparr>ho_confirmed_value := v\<rparr>) = channel h" "channel (h\<lparr>ho_superseded_by := x\<rparr>) = channel h"
  "channel (h\<lparr>ho_claimant := x\<rparr>) = channel h" "channel (h\<lparr>ho_claimed_ticks := n\<rparr>) = channel h"
  "channel (h\<lparr>ho_parked_by_claim := p\<rparr>) = channel h" "channel (h\<lparr>ho_next_attempt_tick := n\<rparr>) = channel h"
  by (simp_all add: channel_def)

lemma channel_simps [simp]:
  "channel (rearm t h) = channel h" "channel (attempted_item e t n h) = channel h"
  "channel (new_handover d c r why t n) = (d, c)"
  by (simp_all add: rearm_def attempted_item_def Let_def new_handover_def split: option.split)
    (simp add: channel_def)

lemma item_ok_steps:
  "item_ok (rearm t h)" "item_ok (new_handover d c r why t n)"
  "item_ok h \<Longrightarrow> item_ok (attempted_item e t n h)"
  by (auto simp: item_ok_def is_unresolved_def rearm_def new_handover_def attempted_item_def
      handover_consts Let_def split: option.splits)

lemma queue_step:
  assumes "book_sound b"
  shows "book_sound (queue_handover d c r why t n b)
    \<and> debts (queue_handover d c r why t n b) = spec_op (Op_Queue d c r why t n) (debts b)"
proof (cases "book_find b d c")
  case None
  then have "(d, c) \<notin># debts b" by (simp add: book_find_none debts_def)
  with None assms show ?thesis
    by (auto simp: queue_handover_def book_sound_def debts_def item_ok_steps)
next
  case (Some h)
  let ?h = "h\<lparr>ho_from_rule := r, ho_reason := why\<rparr>"
  have "item_ok ?h" "item_ok (?h\<lparr>ho_next_attempt_tick := t\<rparr>)"
    using found_item [OF assms Some] by (simp_all add: item_ok_def)
  moreover have "(d, c) \<in># debts b"
    using book_find_channel [OF Some] by (force simp: debts_def)
  ultimately show ?thesis
    using put_found [OF assms Some, of ?h] put_found [OF assms Some, of "?h\<lparr>ho_next_attempt_tick := t\<rparr>"] Some
    by (simp add: queue_handover_def Let_def)
qed

lemma restore_step:
  "book_sound b \<Longrightarrow> book_sound (restore_handover h n b)
     \<and> debts (restore_handover h n b) = add_mset (channel h) (debts b)"
  by (auto simp: restore_handover_def book_sound_def debts_def item_ok_def is_unresolved_def)

lemma item_ok_states [simp]:
  "item_ok (h\<lparr>ho_state := Failed\<rparr>)" "item_ok (h\<lparr>ho_state := AwaitingOwner\<rparr>)"
  "item_ok (h\<lparr>ho_state := Pending, ho_attempts := 0\<rparr>)"
  "item_ok (h\<lparr>ho_first_error := e\<rparr>) = item_ok h" "item_ok (h\<lparr>ho_last_error := e\<rparr>) = item_ok h"
  "item_ok (h\<lparr>ho_reason := m\<rparr>) = item_ok h" "item_ok (h\<lparr>ho_parked_by_claim := p\<rparr>) = item_ok h"
  "item_ok (h\<lparr>ho_claimant := x\<rparr>) = item_ok h" "item_ok (h\<lparr>ho_claimed_ticks := k\<rparr>) = item_ok h"
  "item_ok (h\<lparr>ho_next_attempt_tick := k\<rparr>) = item_ok h"
  by (simp_all add: item_ok_def is_unresolved_def handover_consts)

text \<open>Every other operation puts an item back in its place.\<close>

definition quiet_step :: "handover_book \<Rightarrow> handover_book \<Rightarrow> bool" where
  "quiet_step b b' \<longleftrightarrow> book_sound b' \<and> debts b' = debts b"

lemma quiet_put:
  "book_sound b \<Longrightarrow> book_find b d c = Some h \<Longrightarrow> channel h' = channel h \<Longrightarrow> item_ok h' \<Longrightarrow> quiet_step b (book_put d c h' b)"
  using put_found by (simp add: quiet_step_def)

lemma quiet_same: "book_sound b \<Longrightarrow> quiet_step b b"
  by (simp add: quiet_step_def)

lemma await_step:
  assumes "book_sound b" shows "quiet_step b (fst (mark_awaiting d c r why b))"
proof (cases "book_find b d c")
  case (Some h)
  show ?thesis
    using found_item [OF assms Some] by (simp add: mark_awaiting_def Some Let_def quiet_put [OF assms Some])
qed (simp add: mark_awaiting_def assms quiet_same)

lemma park_step:
  assumes "book_sound b" shows "quiet_step b (fst (park_unmet_claim d c why b))"
proof (cases "book_find b d c")
  case (Some h)
  have "item_ok (h\<lparr>ho_state := Failed, ho_parked_by_claim := True, ho_reason := why\<rparr>)"
    by (simp add: item_ok_def is_unresolved_def)
  then show ?thesis
    by (simp add: park_unmet_claim_def Some Let_def assms quiet_put [OF assms Some] quiet_same)
qed (simp add: park_unmet_claim_def assms quiet_same)

lemma pending_step:
  assumes "book_sound b"
  shows "quiet_step b (fst (release_claim d c t b))" "quiet_step b (fst (mark_verified d c t b))"
    "quiet_step b (fst (retry_failed_one d c t b))"
proof -
  have i: "item_ok (h\<lparr>ho_state := Pending, ho_claimant := None, ho_claimed_ticks := 0,
      ho_parked_by_claim := False, ho_attempts := 0, ho_next_attempt_tick := t\<rparr>)"
    "item_ok (h\<lparr>ho_state := Pending, ho_attempts := 0, ho_next_attempt_tick := t\<rparr>)" for h
    by (simp_all add: item_ok_def is_unresolved_def handover_consts)
  note put = quiet_put [OF assms _ _ i(1)] quiet_put [OF assms _ _ i(2)] quiet_put [OF assms _ _ item_ok_steps(1)]
  show "quiet_step b (fst (release_claim d c t b))" "quiet_step b (fst (mark_verified d c t b))"
    "quiet_step b (fst (retry_failed_one d c t b))"
    by (simp_all add: release_claim_def mark_verified_def retry_failed_one_def assms put quiet_same split: option.split)
qed

lemma failed_step:
  assumes "book_sound b" shows "quiet_step b (fst (fail_recovered d c why b))"
proof -
  have "item_ok (h\<lparr>ho_state := Failed, ho_parked_by_claim := False, ho_first_error := e,
      ho_last_error := Some why, ho_reason := why\<rparr>)" for h e
    by (simp add: item_ok_def is_unresolved_def)
  from quiet_put [OF assms _ _ this] show ?thesis
    by (simp add: fail_recovered_def assms quiet_same split: option.split)
qed

lemma attempt_step:
  assumes "book_sound b" shows "quiet_step b (fst (record_attempt d c e t n b))"
proof (cases "book_find b d c")
  case (Some h)
  with quiet_put [OF assms Some, of "attempted_item e t n h"] found_item [OF assms Some] show ?thesis
    by (simp add: record_attempt_def Let_def item_ok_steps)
qed (simp add: record_attempt_def assms quiet_same)

lemma retry_all_step:
  assumes "book_sound b" shows "quiet_step b (fst (retry_failed t b))"
proof -
  let ?f = "\<lambda>h. if ho_state h = Failed then rearm t h else h"
  have "channel (?f h) = channel h" for h by simp
  then have "debts (fst (retry_failed t b)) = debts b" by (simp add: debts_def retry_failed_def comp_def)
  moreover have "book_sound (fst (retry_failed t b))"
    using assms by (auto simp: book_sound_def retry_failed_def item_ok_steps)
  ultimately show ?thesis by (simp add: quiet_step_def)
qed

lemmas quiet_steps = await_step park_step pending_step failed_step attempt_step retry_all_step

lemma closing_steps:
  assumes "book_sound b"
  shows "book_sound (fst (confirm_handover d c v n b)) \<and> debts (fst (confirm_handover d c v n b)) = debts b - {#(d, c)#}"
    "book_sound (fst (supersede d c r b)) \<and> debts (fst (supersede d c r b)) = debts b - {#(d, c)#}"
proof -
  have none: "book_find b d c = None \<Longrightarrow> debts b - {#(d, c)#} = debts b"
    by (simp add: book_find_none debts_def diff_single_trivial)
  show "book_sound (fst (confirm_handover d c v n b)) \<and> debts (fst (confirm_handover d c v n b)) = debts b - {#(d, c)#}"
    using assms none finish_step [OF assms]
    by (auto simp: confirm_handover_def is_unresolved_def split: option.split)
  show "book_sound (fst (supersede d c r b)) \<and> debts (fst (supersede d c r b)) = debts b - {#(d, c)#}"
    using assms none finish_step [OF assms]
    by (auto simp: supersede_def is_unresolved_def split: option.split)
qed

text \<open>C16. The handover book implements the multiset of channels still owed the fail-safe duty: queueing adds a
  channel that is not in it, restoring adds one in any case, a confirmation or a new owner removes
  exactly one occurrence of exactly one channel, and nothing else, failed attempts included, loses
  any; a waiting item is within its attempt budget, and the history stays within its bound. A channel
  stays open at most once under every operation but the restoring of a record for a channel that is
  open already, which the book does not fold.\<close>
theorem book_refines_owed:
  assumes "book_sound b"
  shows "debts (apply_op op b) = spec_op op (debts b) \<and> book_sound (apply_op op b)
    \<and> (distinct (map channel (hb_open b)) \<and> op_fresh op b \<longrightarrow> distinct (map channel (hb_open (apply_op op b))))"
proof -
  have "debts (apply_op op b) = spec_op op (debts b) \<and> book_sound (apply_op op b)"
    using assms quiet_steps [OF assms] queue_step [OF assms]
    by (cases op) (simp_all add: restore_step closing_steps quiet_step_def)
  then show ?thesis using spec_once by (simp add: open_once)
qed

subsection \<open>Retries\<close>

text \<open>The ticks at which a channel whose every write fails is attempted.\<close>

fun failing_attempts :: "string \<Rightarrow> string \<Rightarrow> message \<Rightarrow> int \<Rightarrow> nat list \<Rightarrow> handover_book \<Rightarrow> nat list" where
  "failing_attempts d c e now [] b = []"
| "failing_attempts d c e now (t # ts) b =
    (if is_due b d c t then t # failing_attempts d c e now ts (fst (record_attempt d c (Some e) t now b))
     else failing_attempts d c e now ts b)"

lemma record_attempt_find:
  assumes "book_find b d c = Some h"
  shows "book_find (fst (record_attempt d c e t n b)) d c = Some (attempted_item e t n h)"
proof -
  have "channel (attempted_item e t n h) = (d, c)" using book_find_channel [OF assms] by simp
  then show ?thesis
    using assms find_update_first [of "at_channel d c" "attempted_item e t n h" "hb_open b" h]
    by (simp add: record_attempt_def book_find_def book_put_def Let_def at_channel_iff)
qed

lemma failing_attempts_bound:
  assumes "book_find b d c = Some h" and "ho_attempts h < MAX_HANDOVER_ATTEMPTS \<or> ho_state h \<noteq> Pending"
  shows "length (failing_attempts d c e now ts b) \<le> MAX_HANDOVER_ATTEMPTS - ho_attempts h
    \<and> sorted_wrt (\<lambda>s t. s + HANDOVER_RETRY_TICKS \<le> t) (failing_attempts d c e now ts b)
    \<and> (\<forall>t \<in> set (failing_attempts d c e now ts b). ho_next_attempt_tick h \<le> t)"
  using assms
proof (induction ts arbitrary: b h)
  case (Cons t ts)
  show ?case
  proof (cases "is_due b d c t")
    case True
    let ?b = "fst (record_attempt d c (Some e) t now b)"
    let ?h = "attempted_item (Some e) t now h"
    have p: "ho_state h = Pending" "ho_next_attempt_tick h \<le> t"
      using True Cons.prems(1) by (simp_all add: is_due_def is_attemptable_def)
    then have n: "ho_attempts h < 5" using Cons.prems(2) by (simp add: handover_consts)
    then have a: "ho_attempts ?h = Suc (ho_attempts h)" "ho_next_attempt_tick ?h = t + 5"
      "ho_attempts ?h < 5 \<or> ho_state ?h \<noteq> Pending"
      by (auto simp: attempted_item_def Let_def handover_consts u32_max_def)
    let ?r = "failing_attempts d c e now ts ?b"
    have "length ?r \<le> 5 - Suc (ho_attempts h)" "sorted_wrt (\<lambda>s t. s + 5 \<le> t) ?r" "\<forall>s \<in> set ?r. t + 5 \<le> s"
      using Cons.IH [OF record_attempt_find [OF Cons.prems(1)], of "Some e" t now] a by (auto simp: handover_consts)
    moreover from this(3) have "\<forall>s \<in> set ?r. ho_next_attempt_tick h \<le> s" using p(2) by fastforce
    ultimately show ?thesis using n p(2) True by (simp add: handover_consts)
  qed (use Cons in simp)
qed simp


subsection \<open>Witnesses and what the book does not do\<close>

definition demo_book :: handover_book where
  "demo_book = queue_handover ''fan.0'' ''fan.speed'' ''r1'' [] 0 0 empty_book"

lemmas demo_simps = demo_book_def queue_handover_def empty_book_def book_find_def new_handover_def
  is_due_def is_attemptable_def record_attempt_def attempted_item_def book_put_def at_channel_def
  handover_consts u32_max_def Let_def

lemma empty_book_ok: "book_ok empty_book"
  by (simp add: book_ok_def empty_book_def)

lemma demo_book_ok: "book_ok demo_book"
  by (simp add: demo_simps book_ok_def item_ok_def is_unresolved_def)

theorem book_refines_owed_witness:
  "debts (apply_op (Op_Supersede ''fan.0'' ''fan.speed'' None) demo_book) = {#}
    \<and> distinct (map channel (hb_open (apply_op (Op_Supersede ''fan.0'' ''fan.speed'' None) demo_book)))"
  using book_refines_owed [of demo_book "Op_Supersede ''fan.0'' ''fan.speed'' None"] demo_book_ok
  by (simp add: book_ok_sound) (simp add: demo_book_def queue_handover_def empty_book_def book_find_def debts_def
      channel_def new_handover_def)


text \<open>
  Re-arming a handover that was parked over a claim leaves the claim mark: when its own five writes
  then fail, it is taken for parked by the claim and resumes by itself with a fresh budget.
\<close>

fun failures :: "nat \<Rightarrow> nat \<Rightarrow> handover_book \<Rightarrow> handover_book" where
  "failures 0 t b = b"
| "failures (Suc n) t b =
     failures n (t + 5) (fst (record_attempt ''fan.0'' ''fan.speed'' (Some []) t 0 b))"

lemma rearmed_claim_resumes:
  "let parked = fst (park_unmet_claim ''fan.0'' ''fan.speed'' [] (fst (mark_awaiting ''fan.0'' ''fan.speed'' ''r2'' [] demo_book)));
       spent = failures (Suc (Suc (Suc (Suc (Suc 0))))) 0 (fst (retry_failed_one ''fan.0'' ''fan.speed'' 0 parked))
   in map ho_state (hb_open spent) = [Failed] \<and> snd (release_claim ''fan.0'' ''fan.speed'' 30 spent)
     \<and> is_due (fst (release_claim ''fan.0'' ''fan.speed'' 30 spent)) ''fan.0'' ''fan.speed'' 30"
  by (simp add: demo_simps park_unmet_claim_def mark_awaiting_def retry_failed_one_def rearm_def
      release_claim_def sat_add64_def u64_max_def Let_def)

text \<open>Restoring does not fold into an open item: one channel then has two.\<close>

lemma restore_duplicates:
  "map channel (hb_open (restore_handover (new_handover ''fan.0'' ''fan.speed'' ''r1'' [] 0 0) 0 demo_book))
     = [(''fan.0'', ''fan.speed''), (''fan.0'', ''fan.speed'')]"
  by (simp add: demo_simps restore_handover_def channel_def)

subsection \<open>The book as a register\<close>

lemma queue_owed: "insert (d, c) (owed b) \<subseteq> owed (queue_handover d c r why t n b)"
proof (cases "book_find b d c")
  case None
  then show ?thesis by (auto simp: queue_handover_def owed_def)
next
  case (Some h)
  then have "channel h = (d, c)" "(d, c) \<in> owed b" by (force simp: owed_def dest: book_find_channel)+
  with Some show ?thesis by (auto simp: queue_handover_def Let_def owed_debts put_debts)
qed

interpretation book: owed_register owed "\<lambda>h. (ch_device h, ch_capability h)"
  "\<lambda>i h. queue_handover (ch_device h) (ch_capability h) i why tick now" for why tick now
  by unfold_locales (rule queue_owed)

end
