(* ===== verification/Recovery.thy ===== *)
theory Recovery
  imports Handover "HOL-Library.Char_ord" "HOL-Library.List_Lexorder"
begin

section \<open>What outlives the process: the recovery record and the rule files\<close>

text \<open>
  \<open>crates/ohm-automation/src/recovery.rs\<close> (the record of unresolved control responsibility) and
  \<open>store.rs\<close> (one file per rule). The file system and the JSON and YAML libraries are outside the
  model: a file's content is given as what the library reads from it, and \<open>disk\<close> carries the
  errors the file system currently answers with.
\<close>

subsection \<open>The recovery record\<close>

definition RECOVERY_VERSION :: nat where "RECOVERY_VERSION = 1"

record stored_handover =
  sv_device :: string
  sv_capability :: string
  sv_from_rule :: string
  sv_reason :: message
  sv_state :: handover_state
  sv_attempts :: nat
  sv_first_error :: "message option"
  sv_last_error :: "message option"
  sv_queued_at_ms :: int
  sv_last_attempt_ms :: int
  sv_claimant :: "string option"
  sv_claimed_ticks :: nat
  sv_parked_by_claim :: bool

record stored_hold =
  sw_rule_id :: string
  sw_device :: string
  sw_capability :: string
  sw_last_write_ms :: int

record recovery_record =
  rv_version :: nat
  rv_saved_at_ms :: int
  rv_handovers :: "stored_handover list"
  rv_holds :: "stored_hold list"

definition record_new :: "int \<Rightarrow> recovery_record" where
  "record_new saved_at_ms = \<lparr>rv_version = RECOVERY_VERSION, rv_saved_at_ms = saved_at_ms,
     rv_handovers = [], rv_holds = []\<rparr>"

definition record_is_empty :: "recovery_record \<Rightarrow> bool" where
  "record_is_empty r \<longleftrightarrow> rv_handovers r = [] \<and> rv_holds r = []"

text \<open>What is found at the record's path.\<close>

datatype recovery_file =
  No_File
| Unreadable_File ohm_error
| Blank_File
| Garbled_File string       \<comment> \<open>the JSON library's complaint\<close>
| Record_File recovery_record

record disk =
  dk_path :: string
  dk_file :: recovery_file
  dk_write_error :: "ohm_error option"
  dk_remove_error :: "ohm_error option"

text \<open>\<open>save\<close>: the rename is atomic, so a failure leaves the previous record.\<close>

definition save_record :: "recovery_record \<Rightarrow> disk \<Rightarrow> disk \<times> unit result" where
  "save_record r d = (case dk_write_error d of
     Some e \<Rightarrow> (d, Inl e) | None \<Rightarrow> (d\<lparr>dk_file := Record_File r\<rparr>, Inr ()))"

definition load_record :: "disk \<Rightarrow> recovery_record option result" where
  "load_record d = (case dk_file d of
     No_File \<Rightarrow> Inr None
   | Unreadable_File e \<Rightarrow> Inl e
   | Blank_File \<Rightarrow> Inr None
   | Garbled_File why \<Rightarrow> Inl (ConfigError [Txt ''the control record at '', Txt (dk_path d),
       Txt '' could not be read ('', Txt why, Txt (''); no recovered control responsibility is in '' @
       ''force '' @ em_dash @ '' check the channels named in the audit log'')])
   | Record_File r \<Rightarrow>
       if RECOVERY_VERSION < rv_version r then Inl (ConfigError [Txt ''the control record at '',
         Txt (dk_path d), Txt '' was written by a newer version of OpenHardwareOS (record version '',
         Dec (int (rv_version r)), Txt '', this build understands '',
         Dec (int RECOVERY_VERSION), Txt '')''])
       else Inr (Some r))"

definition clear_record :: "disk \<Rightarrow> disk \<times> unit result" where
  "clear_record d = (case dk_file d of No_File \<Rightarrow> (d, Inr ())
     | _ \<Rightarrow> (case dk_remove_error d of Some e \<Rightarrow> (d, Inl e)
        | None \<Rightarrow> (d\<lparr>dk_file := No_File\<rparr>, Inr ())))"

subsection \<open>Stored and live items\<close>

definition store_item :: "handover \<Rightarrow> stored_handover" where
  "store_item h = \<lparr>sv_device = ho_device h, sv_capability = ho_capability h,
     sv_from_rule = ho_from_rule h, sv_reason = ho_reason h, sv_state = ho_state h,
     sv_attempts = ho_attempts h, sv_first_error = ho_first_error h,
     sv_last_error = ho_last_error h, sv_queued_at_ms = ho_queued_at_ms h,
     sv_last_attempt_ms = ho_last_attempt_ms h, sv_claimant = ho_claimant h,
     sv_claimed_ticks = ho_claimed_ticks h, sv_parked_by_claim = ho_parked_by_claim h\<rparr>"

definition live_item :: "stored_handover \<Rightarrow> handover" where
  "live_item s = \<lparr>ho_device = sv_device s, ho_capability = sv_capability s,
     ho_from_rule = sv_from_rule s,
     ho_reason = sv_reason s @ [Txt '' (recovered from the previous session; the device has not been checked yet)''],
     ho_state = sv_state s, ho_attempts = sv_attempts s, ho_first_error = sv_first_error s,
     ho_last_error = sv_last_error s, ho_queued_at_ms = sv_queued_at_ms s,
     ho_last_attempt_ms = sv_last_attempt_ms s, ho_confirmed_value = None,
     ho_superseded_by = None, ho_claimant = sv_claimant s, ho_claimed_ticks = sv_claimed_ticks s,
     ho_parked_by_claim = sv_parked_by_claim s, ho_next_attempt_tick = 0\<rparr>"

definition live_hold :: "stored_hold \<Rightarrow> handover" where
  "live_hold s = \<lparr>ho_device = sw_device s, ho_capability = sw_capability s,
     ho_from_rule = sw_rule_id s,
     ho_reason = [Txt ''a write to '', Txt (sw_device s), Txt ''/'', Txt (sw_capability s),
       Txt '' was issued by `'', Txt (sw_rule_id s),
       Txt ''` and never confirmed, and that rule no longer drives it (recovered from the previous session)''],
     ho_state = NeedsVerification, ho_attempts = 0,
     ho_first_error = Some [Txt ''a write was issued and its result was never learned''],
     ho_last_error = None, ho_queued_at_ms = sw_last_write_ms s,
     ho_last_attempt_ms = sw_last_write_ms s, ho_confirmed_value = None, ho_superseded_by = None,
     ho_claimant = None, ho_claimed_ticks = 0, ho_parked_by_claim = False,
     ho_next_attempt_tick = 0\<rparr>"

subsection \<open>Rule files\<close>

record rule_file_error =
  rf_path :: string
  rf_message :: message

record rule_file_note =
  rn_path :: string
  rn_rule_id :: string
  rn_field :: string
  rn_original :: string
  rn_effective :: string
  rn_message :: message
  rn_hint :: message

record load_report =
  lr_rules :: "rule list"
  lr_errors :: "rule_file_error list"
  lr_notes :: "rule_file_note list"
  lr_directory :: string

definition report_is_clean :: "load_report \<Rightarrow> bool" where
  "report_is_clean r \<longleftrightarrow> lr_errors r = []"

text \<open>The directory listing: each file with its stem and what the YAML library reads from it.\<close>

record rule_file =
  fl_path :: string
  fl_stem :: "string option"
  fl_content :: "rule result"

datatype rule_directory = No_Directory | Unreadable_Directory message | Listing "rule_file list"

definition release_note :: "string \<Rightarrow> string \<Rightarrow> string \<Rightarrow> rule_file_note" where
  "release_note path rule_id field =
    (let effective = ''safe_default (the fail-safe duty from the safety settings)'' in
     \<lparr>rn_path = path, rn_rule_id = rule_id, rn_field = ''fallback.'' @ field,
      rn_original = ''release'', rn_effective = effective,
      rn_message = [Txt (''fallback.'' @ field @ '': `release` is not supported '' @ em_dash @
        '' no adapter in this build can hand a channel back while the app runs. Running with '' @
        effective @ '' instead. The file was not modified.'')],
      rn_hint = [Txt (''Edit '' @ path @ '' and set fallback.'' @ field @
        '' to `safe_default` to make the file match what is running, or to a fixed duty you prefer.'')]\<rparr>)"

definition substitute_release :: "string \<Rightarrow> rule \<Rightarrow> rule \<times> rule_file_note list" where
  "substitute_release path r =
    (let missing = action_unsupported (on_sensor_missing (rl_fallback r));
         failing = action_unsupported (on_write_failure (rl_fallback r));
         fb = rl_fallback r;
         fb = (if missing then fb\<lparr>on_sensor_missing := SafeDefault\<rparr> else fb);
         fb = (if failing then fb\<lparr>on_write_failure := SafeDefault\<rparr> else fb)
     in (r\<lparr>rl_fallback := fb\<rparr>,
         (if missing then [release_note path (rl_id r) ''on_sensor_missing''] else [])
         @ (if failing then [release_note path (rl_id r) ''on_write_failure''] else [])))"

definition load_rule_file :: "rule_file \<Rightarrow> (rule \<times> rule_file_note list) result" where
  "load_rule_file f =
    and_then (fl_content f) (\<lambda>r.
      let r = (case Option.bind (fl_stem f) (\<lambda>s. case new_id ''rule id'' s of Inr i \<Rightarrow> Some i | Inl _ \<Rightarrow> None) of
                 Some i \<Rightarrow> r\<lparr>rl_id := i\<rparr> | None \<Rightarrow> r);
          (r, notes) = substitute_release (fl_path f) r
      in and_then (validate_rule r) (\<lambda>_. Inr (r, notes)))"

definition add_rule_file :: "rule_file \<Rightarrow> load_report \<Rightarrow> load_report" where
  "add_rule_file f rep = (case load_rule_file f of
     Inr (r, notes) \<Rightarrow> rep\<lparr>lr_rules := lr_rules rep @ [r], lr_notes := lr_notes rep @ notes\<rparr>
   | Inl e \<Rightarrow> rep\<lparr>lr_errors := lr_errors rep @ [\<lparr>rf_path = fl_path f, rf_message = error_display e\<rparr>]\<rparr>)"

definition load_rule_files :: "string \<Rightarrow> rule_directory \<Rightarrow> load_report" where
  "load_rule_files directory listing =
    (let rep = \<lparr>lr_rules = [], lr_errors = [], lr_notes = [], lr_directory = directory\<rparr> in
     case listing of
       No_Directory \<Rightarrow> rep
     | Unreadable_Directory why \<Rightarrow>
         rep\<lparr>lr_errors := [\<lparr>rf_path = directory, rf_message = why\<rparr>]\<rparr>
     | Listing files \<Rightarrow>
         (let rep = fold add_rule_file (sort_key fl_path files) rep
          in rep\<lparr>lr_rules := sort_key rl_id (lr_rules rep)\<rparr>))"

subsection \<open>Properties\<close>

lemma substitute_release_supported:
  "\<not> action_unsupported (on_sensor_missing (rl_fallback (fst (substitute_release p r))))
   \<and> \<not> action_unsupported (on_write_failure (rl_fallback (fst (substitute_release p r))))"
  by (simp add: substitute_release_def Let_def)

lemma load_rule_file_ok:
  "load_rule_file f = Inr (r, notes) \<Longrightarrow> validate_rule r = Inr ()"
  by (auto simp: load_rule_file_def result_simps Let_def split_def)

lemma add_rule_files:
  assumes "\<forall>r \<in> set (lr_rules rep). validate_rule r = Inr ()"
  shows "(\<forall>r \<in> set (lr_rules (fold add_rule_file fs rep)). validate_rule r = Inr ())
    \<and> length (lr_rules (fold add_rule_file fs rep)) + length (lr_errors (fold add_rule_file fs rep))
        = length (lr_rules rep) + length (lr_errors rep) + length fs"
  using assms
proof (induction fs arbitrary: rep)
  case (Cons f fs)
  have "\<forall>r \<in> set (lr_rules (add_rule_file f rep)). validate_rule r = Inr ()"
    using Cons.prems by (auto simp: add_rule_file_def dest: load_rule_file_ok split: sum.split)
  moreover have "length (lr_rules (add_rule_file f rep)) + length (lr_errors (add_rule_file f rep))
      = length (lr_rules rep) + length (lr_errors rep) + 1"
    by (auto simp: add_rule_file_def split: sum.split prod.split)
  ultimately show ?case using Cons.IH [of "add_rule_file f rep"] by simp
qed simp

text \<open>Loading a rules directory never stops at a bad file: every file becomes a rule or an error,
  and every rule that is loaded passes validation.\<close>
theorem load_rule_files_total:
  "list_all (\<lambda>r. validate_rule r = Inr ()) (lr_rules (load_rule_files dir listing))
   \<and> length (lr_rules (load_rule_files dir listing)) + length (lr_errors (load_rule_files dir listing))
       = (case listing of No_Directory \<Rightarrow> 0 | Unreadable_Directory _ \<Rightarrow> 1 | Listing files \<Rightarrow> length files)"
proof -
  note a = add_rule_files [of "\<lparr>lr_rules = [], lr_errors = [], lr_notes = [], lr_directory = dir\<rparr>"]
  show ?thesis
    using a by (simp add: load_rule_files_def Let_def list_all_iff split: rule_directory.split)
qed

text \<open>A record that was saved is the record that is loaded.\<close>

lemma save_load:
  "dk_write_error d = None \<Longrightarrow> rv_version r \<le> RECOVERY_VERSION
     \<Longrightarrow> load_record (fst (save_record r d)) = Inr (Some r)"
  by (simp add: save_record_def load_record_def)

end
