(* ===== verification/Engine.thy ===== *)
theory Engine
  imports Recovery Runtime_Safety "HOL-Library.Product_Lexorder"
begin

section \<open>The automation engine\<close>

text \<open>
  \<open>crates/ohm-automation/src/engine.rs\<close>: the tick that turns rules into writes, and the rule
  operations. The engine's shared state is one record that contains the runtime it drives; each
  operation returns the state after it. An operation that evaluates rules returns \<open>None\<close> where
  the code panics. The wall clock is the runtime's \<open>rt_clock\<close>, constant within one operation.
  The outcome of writing or removing a rule file is an argument; \<open>tracing\<close> output is left out.
\<close>

subsection \<open>State\<close>

definition MAX_CONSECUTIVE_UNCONFIRMED :: nat where "MAX_CONSECUTIVE_UNCONFIRMED = 3"
definition TICK_INTERVAL_MS :: nat where "TICK_INTERVAL_MS = 100"

record rule_check =
  rk_errors :: "message list"
  rk_warnings :: "message list"

definition check_is_ok :: "rule_check \<Rightarrow> bool" where
  "check_is_ok c \<longleftrightarrow> rk_errors c = []"

definition check_result :: "rule_check \<Rightarrow> unit result" where
  "check_result c = (if rk_errors c = [] then Inr ()
     else Inl (AutomationError (join_messages ''; '' (rk_errors c))))"

record rule_conflict =
  rc_owner_id :: string
  rc_owner_name :: string
  rc_blocked_id :: string
  rc_blocked_name :: string
  rc_target :: string
  rc_resolution :: message

definition conflict_text :: "rule_conflict \<Rightarrow> message" where
  "conflict_text c = [Txt ''`'', Txt (rc_owner_name c), Txt ''` and `'', Txt (rc_blocked_name c),
     Txt ''` both drive '', Txt (rc_target c), Txt ''. ''] @ rc_resolution c"

text \<open>The memory of every rule, by rule id. The code's \<open>HashMap\<close> has no order; here it is by id.\<close>

type_synonym rule_states = "(string \<times> rule_state) list"

definition states_get :: "rule_states \<Rightarrow> string \<Rightarrow> rule_state option" where
  "states_get s i = map_option snd (List.find (\<lambda>p. fst p = i) s)"

definition states_put :: "string \<Rightarrow> rule_state \<Rightarrow> rule_states \<Rightarrow> rule_states" where
  "states_put i st = sorted_put fst (i, st)"

definition states_update :: "string \<Rightarrow> (rule_state \<Rightarrow> rule_state) \<Rightarrow> rule_states \<Rightarrow> rule_states" where
  "states_update i f = update_key fst i (\<lambda>p. (fst p, f (snd p)))"

definition state_or_new :: "rule_states \<Rightarrow> string \<Rightarrow> rule_state" where
  "state_or_new s i = or_default (rule_state_new i) (states_get s i)"

record 'w engine =
  en_runtime :: "'w runtime"
  en_rules :: "rule list"
  en_states :: rule_states
  en_running :: bool
  en_ticks :: nat
  en_last_tick_ms :: int
  en_blocked_by :: "message option"
  en_conflicts :: "rule_conflict list"
  en_notes :: "rule_file_note list"
  en_handovers :: handover_book
  en_disk :: disk
  en_persistence_error :: "message option"
  en_dirty :: bool
  en_recovered :: bool

definition engine_new :: "'w runtime \<Rightarrow> disk \<Rightarrow> 'w engine" where
  "engine_new rt d = \<lparr>en_runtime = rt, en_rules = [], en_states = [], en_running = False,
     en_ticks = 0, en_last_tick_ms = 0, en_blocked_by = None, en_conflicts = [], en_notes = [],
     en_handovers = empty_book, en_disk = d, en_persistence_error = None, en_dirty = False,
     en_recovered = False\<rparr>"

definition en_now :: "'w engine \<Rightarrow> int" where
  "en_now e = rt_clock (en_runtime e)"

definition on_runtime :: "('w runtime \<Rightarrow> 'w runtime) \<Rightarrow> 'w engine \<Rightarrow> 'w engine" where
  "on_runtime f e = e\<lparr>en_runtime := f (en_runtime e)\<rparr>"

definition on_book :: "(handover_book \<Rightarrow> handover_book) \<Rightarrow> 'w engine \<Rightarrow> 'w engine" where
  "on_book f e = e\<lparr>en_handovers := f (en_handovers e)\<rparr>"

definition en_log :: "string \<Rightarrow> message \<Rightarrow> 'w engine \<Rightarrow> 'w engine" where
  "en_log level m = on_runtime (rt_log level m)"

definition announce :: "string option \<Rightarrow> string \<Rightarrow> message \<Rightarrow> 'w engine \<Rightarrow> 'w engine" where
  "announce rule kind m = on_runtime (publish_automation rule kind m)"

definition remember :: "string \<Rightarrow> rule_state \<Rightarrow> 'w engine \<Rightarrow> 'w engine" where
  "remember i st e = e\<lparr>en_states := states_put i st (en_states e)\<rparr>"

definition find_rule :: "'w engine \<Rightarrow> string \<Rightarrow> rule option" where
  "find_rule e i = List.find (\<lambda>r. rl_id r = i) (en_rules e)"

text \<open>\<open>sort_by\<close>: priority first, highest first, then id.\<close>

definition rule_key :: "rule \<Rightarrow> int \<times> string" where
  "rule_key r = (- int (rl_priority r), rl_id r)"

definition sort_rules :: "rule list \<Rightarrow> rule list" where
  "sort_rules = sort_key rule_key"

subsection \<open>Persistence of control responsibility\<close>

definition unconfirmed_hold :: "string \<times> rule_state \<Rightarrow> stored_hold option" where
  "unconfirmed_hold = (\<lambda>(i, st). case rs_control st of None \<Rightarrow> None
     | Some h \<Rightarrow> if ch_confirmed h = None
         then Some \<lparr>sw_rule_id = i, sw_device = ch_device h, sw_capability = ch_capability h,
                sw_last_write_ms = ch_last_write_ms h\<rparr>
         else None)"

definition build_recovery_record :: "'w engine \<Rightarrow> recovery_record" where
  "build_recovery_record e = (record_new (en_now e))
     \<lparr>rv_handovers := map store_item (hb_open (en_handovers e)),
      rv_holds := List.map_filter unconfirmed_hold (en_states e)\<rparr>"

definition persist_control_state :: "'w engine \<Rightarrow> 'w engine \<times> unit result" where
  "persist_control_state e =
    (let record = build_recovery_record e in
     case save_record record (en_disk e) of
       (d, Inr _) \<Rightarrow>
         (let e = e\<lparr>en_dirty := False, en_disk := (if record_is_empty record then fst (clear_record d) else d)\<rparr>;
              e = (case en_persistence_error e of None \<Rightarrow> e
                | Some _ \<Rightarrow> announce None ''control_state_persisted''
                    [Txt ''unresolved control responsibility is being recorded again'']
                    (e\<lparr>en_persistence_error := None\<rparr>))
          in (e, Inr ()))
     | (d, Inl err) \<Rightarrow>
         (let m = [Txt ''could not record unresolved control responsibility: ''] @ error_display err
                @ [Txt (''. If the app stops now, a channel that is owed the fail-safe duty may not be '' @
                   ''recovered.'')]
          in (announce None ''control_state_persistence_failed'' m
                (en_log ''error'' m (e\<lparr>en_disk := d, en_persistence_error := Some m\<rparr>)), Inl err)))"

definition flush_control_state :: "'w engine \<Rightarrow> 'w engine" where
  "flush_control_state e = (if en_dirty e then fst (persist_control_state e) else e)"

text \<open>One stored hold: dropped when its own rule, enabled, still drives exactly that channel.\<close>

definition still_driven :: "rule list \<Rightarrow> stored_hold \<Rightarrow> bool" where
  "still_driven rules h \<longleftrightarrow> list_ex (\<lambda>r. rl_enabled r \<and> rl_id r = sw_rule_id h
     \<and> tg_device (rl_target r) = sw_device h \<and> tg_capability (rl_target r) = sw_capability h) rules"

definition recovered_items :: "rule list \<Rightarrow> recovery_record \<Rightarrow> handover list" where
  "recovered_items rules r = map live_item (rv_handovers r)
     @ map live_hold (filter (\<lambda>h. \<not> still_driven rules h) (rv_holds r))"

definition recover_control_state :: "'w engine \<Rightarrow> 'w engine \<times> nat result" where
  "recover_control_state e = (case load_record (en_disk e) of
     Inr None \<Rightarrow> (e, Inr 0)
   | Inl err \<Rightarrow>
       (let m = error_display err in
        ((announce None ''control_state_unreadable'' m (en_log ''error'' m e))
           \<lparr>en_persistence_error := Some m\<rparr>, Inl err))
   | Inr (Some r) \<Rightarrow>
       (let items = recovered_items (en_rules e) r;
            e = on_book (fold (\<lambda>h. restore_handover h (en_now e)) items) e;
            m = [Dec (int (length items)), Txt (
              '' unresolved control responsibility item(s) recovered from the previous session; '' @
              ''each will be checked against the hardware before anything is written'')]
        in (if items = [] then e
            else announce None ''control_state_recovered'' m
                   (en_log ''warn'' m (e\<lparr>en_dirty := True\<rparr>)), Inr (length items))))"

subsection \<open>Ownership\<close>

definition targets_channel :: "string \<Rightarrow> string \<Rightarrow> rule \<Rightarrow> bool" where
  "targets_channel d c r \<longleftrightarrow> rl_enabled r \<and> tg_device (rl_target r) = d \<and> tg_capability (rl_target r) = c"

definition claimant_of :: "'w engine \<Rightarrow> string \<Rightarrow> string \<Rightarrow> string option" where
  "claimant_of e d c = map_option rl_id (List.find (targets_channel d c) (en_rules e))"

definition confirmed_owner_of :: "'w engine \<Rightarrow> string \<Rightarrow> string \<Rightarrow> string option" where
  "confirmed_owner_of e d c = (case claimant_of e d c of None \<Rightarrow> None
     | Some i \<Rightarrow> (case Option.bind (states_get (en_states e) i) rs_control of None \<Rightarrow> None
        | Some h \<Rightarrow> if hold_is h d c \<and> ch_confirmed h \<noteq> None then Some i else None))"

definition owner_status :: "'w engine \<Rightarrow> string \<Rightarrow> string" where
  "owner_status e i = (case states_get (en_states e) i of None \<Rightarrow> ''not evaluated yet''
     | Some st \<Rightarrow> ''last status: '' @ rule_status_str (rs_last_status st))"

definition hand_over :: "string \<Rightarrow> control_hold option \<Rightarrow> (string \<times> string) option \<Rightarrow> string
    \<Rightarrow> 'w engine \<Rightarrow> 'w engine" where
  "hand_over i held previous why e = (case held of None \<Rightarrow> e
     | Some h \<Rightarrow>
       (if (case previous of None \<Rightarrow> True | Some (d, c) \<Rightarrow> hold_is h d c)
        then (on_book (queue_handover (ch_device h) (ch_capability h) i
               [Txt ''rule `'', Txt i, Txt ''` '', Txt why, Txt ''; '', Txt (ch_device h), Txt ''/'',
                Txt (ch_capability h), Txt '' is no longer driven by it'']
               (en_ticks e) (en_now e)) e)\<lparr>en_dirty := True\<rparr>
        else e))"

subsection \<open>Pending handovers\<close>

definition unverifiable :: "string \<Rightarrow> string \<Rightarrow> message \<Rightarrow> 'w engine \<Rightarrow> 'w engine" where
  "unverifiable d c reason e = (case fail_recovered d c reason (en_handovers e) of
     (b, failed) \<Rightarrow>
       (let e = e\<lparr>en_handovers := b\<rparr> in
        if failed then announce None ''control_state_unverified'' reason
          (en_log ''warn'' reason (e\<lparr>en_dirty := True\<rparr>))
        else e))"

definition verify_item :: "string \<times> string \<Rightarrow> 'w engine \<Rightarrow> 'w engine" where
  "verify_item = (\<lambda>(d, c) e. (case rt_resolve (en_runtime e) d c of
     Inr (_, cap) \<Rightarrow>
       if \<not> cap_writable cap then
         unverifiable d c [Txt d, Txt ''/'', Txt c,
           Txt ('' is not writable any more, so the fail-safe duty cannot be applied to it. Check the '' @
             ''device, then re-arm this handover.'')] e
       else (case mark_verified d c (en_ticks e) (en_handovers e) of (b, verified) \<Rightarrow>
         (let e = e\<lparr>en_handovers := b\<rparr>;
              m = [Txt d, Txt ''/'', Txt c, Txt ('' exists and is writable; the recovered handover is now '' @
                ''live and will be applied by the usual safety policy'')]
          in if verified then announce None ''control_state_verified'' m
                 (en_log ''info'' m (e\<lparr>en_dirty := True\<rparr>))
             else e))
   | Inl err \<Rightarrow> unverifiable d c ([Txt d, Txt ''/'', Txt c,
         Txt '' could not be resolved on this machine (''] @ error_display err @
         [Txt (''), so the responsibility recovered from the previous session cannot be discharged '' @
            ''against it. Re-arm it after the device is back.'')]) e))"

definition verify_recovered_state :: "'w engine \<Rightarrow> 'w engine" where
  "verify_recovered_state e =
    (let items = map channel (filter (\<lambda>h. ho_state h = NeedsVerification) (hb_open (en_handovers e))) in
     if items = [] then e else if rt_is_stale (en_runtime e) 3 then e
     else fold verify_item items e)"

definition superseded_by :: "handover \<Rightarrow> string \<Rightarrow> 'w engine \<Rightarrow> 'w engine" where
  "superseded_by h owner e = (case supersede (ho_device h) (ho_capability h) (Some owner) (en_handovers e) of
     (b, done) \<Rightarrow>
       (let e = e\<lparr>en_handovers := b\<rparr>;
            m = [Txt (ho_device h), Txt ''/'', Txt (ho_capability h), Txt '' was taken over by '', Txt owner,
              Txt '', which has confirmed a write to it; the handover queued by '', Txt (ho_from_rule h),
              Txt '' is closed'']
        in if done then en_log ''info'' m (announce (Some (ho_from_rule h)) ''rule_handover_superseded'' m e)
           else e))"

definition await_claimant :: "handover \<Rightarrow> string \<Rightarrow> 'w engine \<Rightarrow> 'w engine" where
  "await_claimant h claimant e =
    (let d = ho_device h; c = ho_capability h;
         reason = [Txt d, Txt ''/'', Txt c, Txt '' is claimed by rule `'', Txt claimant, Txt ''` ('',
           Txt (owner_status e claimant), Txt '') but not driven by it; the channel is still at the value left by `'',
           Txt (ho_from_rule h), Txt ''`''];
         (b, waited) = mark_awaiting d c claimant reason (en_handovers e);
         e = e\<lparr>en_handovers := b\<rparr>
     in if HANDOVER_OWNER_WAIT_TICKS < waited then
          (case park_unmet_claim d c
              [Txt ''rule `'', Txt claimant, Txt ''` has claimed '', Txt d, Txt ''/'', Txt c, Txt '' for '',
               Dec (int waited), Txt ('' ticks without driving it; the channel is unprotected. Fix or disable '' @
                 ''that rule, then re-arm this handover.'')] b of
             (b, parked) \<Rightarrow>
               (let e = e\<lparr>en_handovers := b\<rparr>;
                    m = [Txt ''gave up waiting for `'', Txt claimant, Txt ''` to take over '', Txt d, Txt ''/'',
                      Txt c, Txt '' after '', Dec (int waited), Txt '' ticks; the channel is still unprotected'']
                in if parked then announce (Some (ho_from_rule h)) ''rule_handover_failed'' m (en_log ''warn'' m e)
                   else e))
        else if waited = 1 then
          announce (Some (ho_from_rule h)) ''rule_handover_awaiting_owner'' reason (en_log ''info'' reason e)
        else e)"

text \<open>What an attempt's outcome says: the confirmed value, or the reason it is not settled.\<close>

definition handover_outcome :: "write_report result \<Rightarrow> f64 option \<times> message option" where
  "handover_outcome res = (case res of
     Inr rep \<Rightarrow>
       (case wr_status rep of
          Write_Unconfirmed \<Rightarrow> (None, Some ([Txt ''accepted but not confirmed: ''] @ detail_or (wr_detail rep)))
        | Write_Rejected \<Rightarrow> (None, Some ([Txt ''the device refused the fail-safe duty: ''] @ detail_or (wr_detail rep)))
        | _ \<Rightarrow> (Option.bind (wr_applied rep) as_f64, None))
   | Inl err \<Rightarrow> (None, Some (error_display err)))"

definition attempt_handover :: "f64 \<Rightarrow> nat \<Rightarrow> handover \<Rightarrow> 'w engine \<Rightarrow> 'w engine" where
  "attempt_handover duty tick h e =
    (let d = ho_device h; c = ho_capability h;
         (rt, res) = write_value (en_runtime e) d c (Number duty) (SafetyOrigin (ho_reason h));
         now = en_now e;
         e = e\<lparr>en_runtime := rt\<rparr>
     in case handover_outcome res of
          (Some v, _) \<Rightarrow>
            (let e = on_book (\<lambda>b. fst (confirm_handover d c (Some v) now b)) e;
                 m = [Txt d, Txt ''/'', Txt c, Txt '' set to '', Prec 0 v, Txt '' % after '',
                   Txt (ho_from_rule h), Txt '' stopped driving it'']
             in en_log ''info'' m (announce (Some (ho_from_rule h)) ''rule_handover'' m e))
        | (None, why) \<Rightarrow>
            (let why = or_default [Txt ''the write was not confirmed''] why;
                 (b, state) = record_attempt d c (Some why) tick now (en_handovers e);
                 m = [Txt ''could not hand '', Txt d, Txt ''/'', Txt c, Txt '' over to the '', Prec 0 duty,
                   Txt '' % fail-safe duty: ''] @ why
             in announce (Some (ho_from_rule h))
                  (if state = Failed then ''rule_handover_failed'' else ''rule_handover_retry'') m
                  (en_log ''warn'' m (e\<lparr>en_handovers := b\<rparr>))))"

definition perform_handover :: "f64 \<Rightarrow> nat \<Rightarrow> handover \<Rightarrow> 'w engine \<Rightarrow> 'w engine" where
  "perform_handover duty tick h e =
    (let d = ho_device h; c = ho_capability h in
     case confirmed_owner_of e d c of
       Some owner \<Rightarrow> superseded_by h owner e
     | None \<Rightarrow>
       (case claimant_of e d c of
          Some claimant \<Rightarrow> await_claimant h claimant e
        | None \<Rightarrow>
          (let (e, go) = (if ho_state h \<noteq> Pending
               then (case release_claim d c tick (en_handovers e) of (b, resumed) \<Rightarrow>
                 (let e = e\<lparr>en_handovers := b\<rparr> in
                  (if resumed then en_log ''info'' [Txt ''the claim on '', Txt d, Txt ''/'', Txt c,
                      Txt '' is gone; its handover resumes''] e else e, resumed)))
               else (e, True))
           in if go \<and> is_due (en_handovers e) d c tick then attempt_handover duty tick h e else e)))"

definition perform_pending_handovers :: "nat \<Rightarrow> 'w engine \<Rightarrow> 'w engine" where
  "perform_pending_handovers tick e =
    (let e = verify_recovered_state e;
         duty = sp_fail_safe_duty_percent (st_safety (rt_settings (en_runtime e)));
         pending = filter (\<lambda>h. is_unresolved (ho_state h)) (hb_open (en_handovers e));
         e = (if pending = [] then e else e\<lparr>en_dirty := True\<rparr>)
     in fold (perform_handover duty tick) pending e)"

subsection \<open>Running one rule\<close>

definition read_condition :: "'w engine \<Rightarrow> rule \<Rightarrow> bool \<Rightarrow> f64 option" where
  "read_condition e r unavailable = (if unavailable then None
     else case rl_when r of None \<Rightarrow> None
       | Some c \<Rightarrow> rt_reading (en_runtime e) (sr_device (cd_source c)) (sr_capability (cd_source c)))"

definition read_source :: "'w engine \<Rightarrow> rule \<Rightarrow> bool \<Rightarrow> f64 option" where
  "read_source e r unavailable = (if unavailable then None
     else (let values = List.map_filter (\<lambda>s. rt_reading (en_runtime e) (sr_device s) (sr_capability s))
             (source_sensors (rl_source r))
           in case source_aggregate (rl_source r) of
                None \<Rightarrow> (case values of [] \<Rightarrow> None | v # _ \<Rightarrow> Some v)
              | Some a \<Rightarrow> reduce a values))"

definition due_after :: "int \<Rightarrow> rule \<Rightarrow> int" where
  "due_after now r = wrap_i64 (now + wrap_i64 (int (rl_update_interval_ms r)))"

definition unknown_hold :: "device \<Rightarrow> capability \<Rightarrow> int \<Rightarrow> control_hold" where
  "unknown_hold d c now = \<lparr>ch_device = dev_id d, ch_capability = cap_id c, ch_confirmed = None,
     ch_last_write_ms = now\<rparr>"

text \<open>The responsibility is committed to the engine's state, then written down.\<close>

definition commit_hold :: "rule \<Rightarrow> rule_state \<Rightarrow> 'w engine \<Rightarrow> 'w engine" where
  "commit_hold r st e = flush_control_state ((remember (rl_id r) st e)\<lparr>en_dirty := True\<rparr>)"

fun write_word :: "write_status \<Rightarrow> string" where
  "write_word Write_Unconfirmed = ''accepted but not confirmed''"
| "write_word Write_Rejected = ''rejected''"
| "write_word _ = ''applied''"

definition fall_back_after :: "rule \<Rightarrow> ohm_error \<Rightarrow> device \<Rightarrow> capability \<Rightarrow> 'w engine \<times> rule_state
    \<Rightarrow> 'w engine \<times> rule_state" where
  "fall_back_after r err d c = (\<lambda>(e, st).
    (let safe = sp_fail_safe_duty_percent (st_safety (rt_settings (en_runtime e)));
         duty = or_default safe (fallback_duty (on_write_failure (rl_fallback r)) safe)
     in case write_value (en_runtime e) (dev_id d) (cap_id c) (Number duty)
            (SafetyOrigin [Txt ''automation rule '', Txt (rl_id r), Txt '' write failure'']) of
          (rt, Inr rep) \<Rightarrow>
            (let m = error_display err @ [Txt ('' '' @ em_dash @ '' fail-safe duty of ''), Prec 0 duty,
                   Txt '' % '', Txt (write_word (wr_status rep))];
                 st = st\<lparr>rs_applied_output := Option.bind (wr_applied rep) as_f64, rs_last_message := m\<rparr>
             in (announce (Some (rl_id r)) ''rule_fallback'' m (e\<lparr>en_runtime := rt\<rparr>), st))
        | (rt, Inl second) \<Rightarrow>
            (let m = error_display err @ [Txt ('' '' @ em_dash @ '' the ''), Prec 0 duty,
                   Txt '' % fail-safe duty failed too: ''] @ error_display second
             in (en_log ''error'' ([Txt (rl_name r), Txt '': ''] @ m @ [Txt ''. Control may be lost.''])
                   (e\<lparr>en_runtime := rt\<rparr>), st\<lparr>rs_last_message := m\<rparr>))))"

definition handle_write_failure :: "rule \<Rightarrow> ohm_error \<Rightarrow> device \<Rightarrow> capability \<Rightarrow> int
    \<Rightarrow> 'w engine \<times> rule_state \<Rightarrow> 'w engine \<times> rule_state" where
  "handle_write_failure r err d c now = (\<lambda>(e, st).
    (let st = st\<lparr>rs_last_status := Error, rs_last_message := [Txt ''write failed: ''] @ error_display err,
           rs_writes := sat_add64 (rs_writes st) 1, rs_control := Some (unknown_hold d c now)\<rparr>;
         e = commit_hold r st e;
         e = announce (Some (rl_id r)) ''rule_error''
           ([Txt (target_id (rl_target r)), Txt '': ''] @ error_display err) e;
         e = en_log ''error'' ([Txt (rl_name r), Txt '': write to '', Txt (cap_id c), Txt '' failed: '']
           @ error_display err) e;
         (e, st) = (case on_write_failure (rl_fallback r) of Hold \<Rightarrow> (e, st)
           | _ \<Rightarrow> fall_back_after r err d c (e, st))
     in (e, st\<lparr>rs_next_due_ms := due_after now r\<rparr>)))"

definition confirmed_output :: "rule \<Rightarrow> evaluation \<Rightarrow> write_report \<Rightarrow> device \<Rightarrow> capability \<Rightarrow> int
    \<Rightarrow> 'w engine \<times> rule_state \<Rightarrow> 'w engine \<times> rule_state" where
  "confirmed_output r ev rep d c now = (\<lambda>(e, st).
    (let applied = Option.bind (wr_applied rep) as_f64;
         confirmed = (case wr_applied rep of Some v \<Rightarrow> val_to_string v | None \<Rightarrow> ''unknown'');
         st = st\<lparr>rs_applied_output := applied,
            rs_control := Some \<lparr>ch_device = dev_id d, ch_capability = cap_id c, ch_confirmed = applied,
              ch_last_write_ms = now\<rparr>,
            rs_writes := sat_add64 (rs_writes st) 1, rs_consecutive_unconfirmed := 0,
            rs_last_write_ms := now, rs_last_status := ev_status ev,
            rs_last_message := ev_message ev @ [Txt '' (wrote '', Txt confirmed, Txt '')'']\<rparr>
     in (announce (Some (rl_id r)) ''rule_applied'' [Txt (source_label (rl_source r)), Txt '' -> '',
           Txt confirmed, Txt '' on '', Txt (target_id (rl_target r))] e, st)))"

definition unconfirmed_output :: "rule \<Rightarrow> evaluation \<Rightarrow> write_report \<Rightarrow> device \<Rightarrow> capability \<Rightarrow> f64 \<Rightarrow> int
    \<Rightarrow> 'w engine \<times> rule_state \<Rightarrow> 'w engine \<times> rule_state" where
  "unconfirmed_output r ev rep d c out now = (\<lambda>(e, st).
    (let st = st\<lparr>rs_unconfirmed_writes := sat_add64 (rs_unconfirmed_writes st) 1,
            rs_consecutive_unconfirmed := min u32_max (rs_consecutive_unconfirmed st + 1),
            rs_applied_output := None, rs_control := Some (unknown_hold d c now),
            rs_last_write_ms := now, rs_last_status := Unconfirmed\<rparr>;
         e = commit_hold r st e;
         m = ev_message ev @ [Txt ('' '' @ em_dash @ '' accepted ''), Prec 0 out, Txt '' % but not confirmed: '']
           @ detail_or (wr_detail rep);
         st = st\<lparr>rs_last_message := m\<rparr>;
         e = en_log ''warn'' ([Txt (rl_name r), Txt '': ''] @ m) (announce (Some (rl_id r)) ''rule_unconfirmed'' m e)
     in if MAX_CONSECUTIVE_UNCONFIRMED \<le> rs_consecutive_unconfirmed st then
          handle_write_failure r (WriteRejected (dev_id d) (cap_id c)
              [Prec 0 out, Txt '' % was requested '', Dec (int MAX_CONSECUTIVE_UNCONFIRMED),
               Txt '' times and never confirmed; control cannot be verified''])
            d c now (e, st\<lparr>rs_consecutive_unconfirmed := 0\<rparr>)
        else (e, st)))"

text \<open>The third component is \<open>wrote\<close>.\<close>

definition write_output :: "rule \<Rightarrow> evaluation \<Rightarrow> device \<Rightarrow> capability \<Rightarrow> f64 \<Rightarrow> int
    \<Rightarrow> 'w engine \<times> rule_state \<Rightarrow> 'w engine \<times> rule_state \<times> bool" where
  "write_output r ev d c out now = (\<lambda>(e, st).
    (case write_value (en_runtime e) (dev_id d) (cap_id c) (Number out) (Automation (rl_id r)) of
       (rt, Inr rep) \<Rightarrow>
         (let e = e\<lparr>en_runtime := rt\<rparr> in
          (case wr_status rep of
             Write_Unconfirmed \<Rightarrow>
               (case unconfirmed_output r ev rep d c out now (e, st) of (e, st) \<Rightarrow> (e, st, False))
           | Write_Rejected \<Rightarrow> (e, st, False)
           | _ \<Rightarrow> (case confirmed_output r ev rep d c now (e, st) of (e, st) \<Rightarrow> (e, st, True))))
     | (rt, Inl err) \<Rightarrow>
         (case handle_write_failure r err d c now (e\<lparr>en_runtime := rt\<rparr>, st) of (e, st) \<Rightarrow> (e, st, False))))"

text \<open>Announcements after the evaluation, and the release of control.\<close>

definition close_run :: "rule \<Rightarrow> evaluation \<Rightarrow> bool \<Rightarrow> 'w engine \<times> rule_state \<Rightarrow> 'w engine \<times> rule_state" where
  "close_run r ev wrote = (\<lambda>(e, st).
    (let say = (\<lambda>kind m. announce (Some (rl_id r)) kind m);
         named = [Txt (rl_name r), Txt '': ''] @ ev_message ev;
         e = (if \<not> wrote \<and> ev_status ev = Fallback then say ''rule_fallback'' (ev_message ev) e else e);
         (e, st) = (if ev_status ev = Gated \<and> \<not> rs_gate_announced st
             then (en_log ''info'' named (say ''rule_gated'' (ev_message ev) e), st\<lparr>rs_gate_announced := True\<rparr>)
           else if ev_status ev \<noteq> Gated \<and> rs_gate_announced st
             then (say ''rule_gate_open'' [Txt (rl_name r), Txt '' is steering again''] e,
                   st\<lparr>rs_gate_announced := False\<rparr>)
           else (e, st))
     in if ev_release ev
        then (en_log ''warn'' named (say ''rule_released'' (ev_message ev) e),
              st\<lparr>rs_control := None, rs_applied_output := None\<rparr>)
        else (e, st)))"

definition engine_input :: "'w engine \<Rightarrow> rule \<Rightarrow> capability \<Rightarrow> int \<Rightarrow> bool \<Rightarrow> f64 \<Rightarrow> evaluation_input" where
  "engine_input e r c now stale duty = \<lparr>ei_source_value = read_source e r stale,
     ei_condition_value = read_condition e r stale, ei_now_ms = now,
     ei_target_min = or_default (Fin 0) (cap_min c), ei_target_max = or_default (Fin 100) (cap_max c),
     ei_safe_default_duty = duty, ei_source_label = source_label (rl_source r),
     ei_source_stale = stale\<rparr>"

definition run_rule :: "rule \<Rightarrow> rule_state \<Rightarrow> int \<Rightarrow> bool \<Rightarrow> f64 \<Rightarrow> 'w engine
    \<Rightarrow> ('w engine \<times> rule_outcome) option" where
  "run_rule r st now stale duty e =
    (case rt_resolve (en_runtime e) (tg_device (rl_target r)) (tg_capability (rl_target r)) of
       Inl err \<Rightarrow>
         (let st = st\<lparr>rs_last_status := Error,
                rs_last_message := [Txt ''target unavailable: ''] @ error_display err,
                rs_next_due_ms := due_after now r\<rparr>
          in Some (announce (Some (rl_id r)) ''rule_error'' (error_display err) (remember (rl_id r) st e),
                   outcome_from_parts r st now))
     | Inr (d, c) \<Rightarrow>
         (case evaluate r st (engine_input e r c now stale duty) of
            None \<Rightarrow> None
          | Some (st, ev) \<Rightarrow>
            (let (e, st, wrote) = (case ev_output ev of
                   Some out \<Rightarrow> if ev_should_write ev then write_output r ev d c out now (e, st) else (e, st, False)
                 | None \<Rightarrow> (e, st, False));
                 (e, st) = close_run r ev wrote (e, st)
             in Some (remember (rl_id r) st e, outcome_from_parts r st now))))"

subsection \<open>The tick\<close>

definition stand_down :: "rule \<Rightarrow> int \<Rightarrow> 'w engine \<Rightarrow> 'w engine \<times> rule_outcome" where
  "stand_down r now e =
    (let m = [Txt ''another enabled rule already drove '', Txt (target_id (rl_target r)),
           Txt '' this cycle; standing down''];
         e = announce (Some (rl_id r)) ''rule_conflict_skipped'' m e;
         st = (state_or_new (en_states e) (rl_id r))\<lparr>rs_last_status := Error, rs_last_message := m,
           rs_next_due_ms := due_after now r\<rparr>
     in (remember (rl_id r) st e, outcome_from_parts r st now))"

fun tick_rules :: "bool \<Rightarrow> int \<Rightarrow> bool \<Rightarrow> f64 \<Rightarrow> rule list \<Rightarrow> string list \<Rightarrow> 'w engine
    \<Rightarrow> ('w engine \<times> rule_outcome list) option" where
  "tick_rules force now stale duty [] claimed e = Some (e, [])"
| "tick_rules force now stale duty (r # rs) claimed e =
    (if \<not> rl_enabled r then tick_rules force now stale duty rs claimed e
     else if target_id (rl_target r) \<in> set claimed then
       (let (e, out) = stand_down r now e in
        case tick_rules force now stale duty rs claimed e of None \<Rightarrow> None
        | Some (e, outs) \<Rightarrow> Some (e, out # outs))
     else
       (let claimed = claimed @ [target_id (rl_target r)];
            st = state_or_new (en_states e) (rl_id r);
            e = remember (rl_id r) st e
        in if \<not> force \<and> now < rs_next_due_ms st then tick_rules force now stale duty rs claimed e
           else case run_rule r st now stale duty e of None \<Rightarrow> None
             | Some (e, out) \<Rightarrow>
               (case tick_rules force now stale duty rs claimed e of None \<Rightarrow> None
                | Some (e, outs) \<Rightarrow> Some (e, out # outs))))"

text \<open>A tick runs to its end: what other tasks do to the rules comes before or after it. In the code it may also
  come while a rule waits for its write; \<open>deleted_while_writing\<close> in \<open>Engine_Demo\<close> shows a case.\<close>

definition tick_inner :: "bool \<Rightarrow> 'w engine \<Rightarrow> ('w engine \<times> rule_outcome list) option" where
  "tick_inner force e =
    (let now = en_now e; tick = en_ticks e;
         e = e\<lparr>en_ticks := bump tick, en_last_tick_ms := now\<rparr>;
         s = rt_settings (en_runtime e)
     in if \<not> st_automation_enabled s then Some (e, [])
        else
          (let stale = rt_is_stale (en_runtime e) 3;
               e = perform_pending_handovers tick e
           in case tick_rules force now stale (sp_fail_safe_duty_percent (st_safety s)) (en_rules e) [] e of
                None \<Rightarrow> None
              | Some (e, outs) \<Rightarrow> Some (flush_control_state e, outs)))"

subsection \<open>What changed about a rule\<close>

text \<open>The derived \<open>==\<close> on floats and what holds them: a NaN equals nothing.\<close>

definition num_eq :: "f64 \<Rightarrow> f64 \<Rightarrow> bool" where
  "num_eq a b \<longleftrightarrow> a = b \<and> \<not> is_nan a"

fun opt_num_eq :: "f64 option \<Rightarrow> f64 option \<Rightarrow> bool" where
  "opt_num_eq (Some a) (Some b) = num_eq a b"
| "opt_num_eq a b = (a = b)"

definition curve_eq :: "curve \<Rightarrow> curve \<Rightarrow> bool" where
  "curve_eq = list_all2 (\<lambda>p q. num_eq (cp_input p) (cp_input q) \<and> num_eq (cp_output p) (cp_output q))"

fun action_eq :: "fallback_action \<Rightarrow> fallback_action \<Rightarrow> bool" where
  "action_eq (Fixed a) (Fixed b) = num_eq a b"
| "action_eq a b = (a = b)"

definition fallback_eq :: "fallback \<Rightarrow> fallback \<Rightarrow> bool" where
  "fallback_eq a b \<longleftrightarrow> action_eq (on_sensor_missing a) (on_sensor_missing b)
     \<and> action_eq (on_write_failure a) (on_write_failure b) \<and> sensor_timeout_s a = sensor_timeout_s b"

fun otherwise_eq :: "otherwise_action \<Rightarrow> otherwise_action \<Rightarrow> bool" where
  "otherwise_eq (OtherwiseFixed a) (OtherwiseFixed b) = num_eq a b"
| "otherwise_eq a b = (a = b)"

fun when_eq :: "condition option \<Rightarrow> condition option \<Rightarrow> bool" where
  "when_eq (Some a) (Some b) = (cd_source a = cd_source b \<and> cd_op a = cd_op b
     \<and> num_eq (cd_value a) (cd_value b) \<and> otherwise_eq (cd_otherwise a) (cd_otherwise b))"
| "when_eq a b = (a = None \<and> b = None)"

record rule_change =
  rg_previous_target :: "(string \<times> string) option"
  rg_enabled_changed :: bool
  rg_source_changed :: bool
  rg_condition_changed :: bool
  rg_control_changed :: bool

definition rule_channel :: "rule \<Rightarrow> string \<times> string" where
  "rule_channel r = (tg_device (rl_target r), tg_capability (rl_target r))"

definition change_between :: "rule \<Rightarrow> rule \<Rightarrow> rule_change" where
  "change_between old new =
     \<lparr>rg_previous_target = (if rule_channel old \<noteq> rule_channel new then Some (rule_channel old) else None),
      rg_enabled_changed = (rl_enabled old \<noteq> rl_enabled new),
      rg_source_changed = (rl_source old \<noteq> rl_source new),
      rg_condition_changed = (\<not> when_eq (rl_when old) (rl_when new)),
      rg_control_changed = (\<not> curve_eq (rl_curve old) (rl_curve new)
        \<or> \<not> num_eq (rl_hysteresis old) (rl_hysteresis new) \<or> \<not> num_eq (rl_deadband old) (rl_deadband new)
        \<or> \<not> opt_num_eq (rl_min_output old) (rl_min_output new)
        \<or> \<not> opt_num_eq (rl_max_output old) (rl_max_output new)
        \<or> \<not> fallback_eq (rl_fallback old) (rl_fallback new))\<rparr>"

definition leaves_control :: "rule_change \<Rightarrow> bool" where
  "leaves_control g \<longleftrightarrow> rg_previous_target g \<noteq> None \<or> rg_enabled_changed g"

definition is_semantic :: "rule_change \<Rightarrow> bool" where
  "is_semantic g \<longleftrightarrow> leaves_control g \<or> rg_source_changed g \<or> rg_condition_changed g \<or> rg_control_changed g"

definition change_summary :: "rule_change \<Rightarrow> string option" where
  "change_summary g = (if \<not> is_semantic g then None
     else Some (join '', '' (
       (case rg_previous_target g of None \<Rightarrow> []
        | Some (d, c) \<Rightarrow> [''target changed from '' @ d @ ''/'' @ c])
       @ (if rg_enabled_changed g then [''enabled state changed''] else [])
       @ (if rg_source_changed g then [''source changed''] else [])
       @ (if rg_condition_changed g then [''condition changed''] else [])
       @ (if rg_control_changed g then [''mapping changed''] else []))))"

definition forget_stale :: "rule_change \<Rightarrow> rule_state \<Rightarrow> rule_state" where
  "forget_stale g st =
    (let st = (if leaves_control g
           then st\<lparr>rs_applied_output := None, rs_control := None, rs_armed_input := NaN\<rparr> else st);
         st = (if rg_source_changed g
           then st\<lparr>rs_last_input := None, rs_last_input_ms := 0, rs_armed_input := NaN\<rparr> else st);
         st = (if rg_condition_changed g
           then st\<lparr>rs_last_condition := None, rs_last_condition_ms := 0, rs_gate_open := False,
                  rs_gate_announced := False\<rparr> else st);
         st = (if rg_control_changed g then st\<lparr>rs_armed_input := NaN\<rparr> else st)
     in st\<lparr>rs_next_due_ms := 0\<rparr>)"

definition held_by :: "'w engine \<Rightarrow> string \<Rightarrow> control_hold option" where
  "held_by e i = Option.bind (states_get (en_states e) i) rs_control"

definition apply_rule_change :: "rule \<Rightarrow> rule_change \<Rightarrow> 'w engine \<Rightarrow> 'w engine" where
  "apply_rule_change previous g e =
    (if change_summary g = None then e
     else
      (let e = (if leaves_control g
             then flush_control_state (hand_over (rl_id previous) (held_by e (rl_id previous))
               (rg_previous_target g)
               (if rg_previous_target g \<noteq> None then ''was retargeted'' else ''was disabled'') e)
             else e)
       in e\<lparr>en_states := states_update (rl_id previous) (forget_stale g) (en_states e)\<rparr>))"

subsection \<open>Conflicts\<close>

definition conflicting_rule :: "'w engine \<Rightarrow> rule \<Rightarrow> rule option" where
  "conflicting_rule e candidate = List.find (\<lambda>r. rl_enabled r \<and> rl_id r \<noteq> rl_id candidate
     \<and> target_id (rl_target r) = target_id (rl_target candidate)) (en_rules e)"

definition conflict_message :: "rule \<Rightarrow> rule \<Rightarrow> message" where
  "conflict_message candidate owner = [Txt ''`'', Txt (rl_name candidate), Txt ''` cannot drive '',
     Txt (target_id (rl_target candidate)), Txt '': `'', Txt (rl_name owner),
     Txt (''` already owns that output. Each output may be driven by only one enabled rule '' @ em_dash @
       '' disable `''), Txt (rl_name owner), Txt ''`, retarget this rule, or delete one of them.'']"

definition conflict_error :: "rule \<Rightarrow> rule \<Rightarrow> ohm_error" where
  "conflict_error candidate owner = AutomationError (conflict_message candidate owner)"

text \<open>The owners so far: target, id and name of the first enabled rule on it.\<close>

type_synonym owners = "(string \<times> string \<times> string) list"

definition owner_of :: "owners \<Rightarrow> string \<Rightarrow> (string \<times> string) option" where
  "owner_of os t = map_option snd (List.find (\<lambda>p. fst p = t) os)"

definition clash :: "string \<times> string \<Rightarrow> rule \<Rightarrow> message \<Rightarrow> rule_conflict" where
  "clash owner r resolution = \<lparr>rc_owner_id = fst owner, rc_owner_name = snd owner, rc_blocked_id = rl_id r,
     rc_blocked_name = rl_name r, rc_target = target_id (rl_target r), rc_resolution = resolution\<rparr>"

definition stood_down_text :: "rule \<Rightarrow> message" where
  "stood_down_text r = [Txt ''`'', Txt (rl_name r), Txt (''` was disabled for this session; the file is '' @
     ''untouched, so fix it, retarget it, or delete it'')]"

fun stand_down_later :: "owners \<Rightarrow> rule list \<Rightarrow> rule list \<times> rule_conflict list" where
  "stand_down_later os [] = ([], [])"
| "stand_down_later os (r # rs) =
    (if \<not> rl_enabled r then (case stand_down_later os rs of (rs, cs) \<Rightarrow> (r # rs, cs))
     else case owner_of os (target_id (rl_target r)) of
       Some owner \<Rightarrow> (case stand_down_later os rs of (rs, cs) \<Rightarrow>
           (r\<lparr>rl_enabled := False\<rparr> # rs, clash owner r (stood_down_text r) # cs))
     | None \<Rightarrow> (case stand_down_later (os @ [(target_id (rl_target r), rl_id r, rl_name r)]) rs of
           (rs, cs) \<Rightarrow> (r # rs, cs)))"

definition report_stood_down :: "rule_conflict \<Rightarrow> 'w engine \<Rightarrow> 'w engine" where
  "report_stood_down c e =
    (let i = rc_blocked_id c; m = rc_resolution c;
         e = en_log ''warn'' ([Txt ''automation rule `'', Txt i, Txt ''`: ''] @ m) e;
         e = announce (Some i) ''rule_conflict_disabled'' m e
     in e\<lparr>en_states := states_update i (\<lambda>st. st\<lparr>rs_last_status := rule_status.Disabled, rs_last_message := m\<rparr>)
            (en_states e)\<rparr>)"

definition resolve_loaded_conflicts :: "'w engine \<Rightarrow> 'w engine" where
  "resolve_loaded_conflicts e =
    (let (rules, conflicts) = stand_down_later [] (sort_rules (en_rules e));
         e = fold report_stood_down conflicts (e\<lparr>en_rules := rules\<rparr>)
     in e\<lparr>en_conflicts := conflicts\<rparr>)"

fun active_conflicts :: "owners \<Rightarrow> rule list \<Rightarrow> rule_conflict list" where
  "active_conflicts os [] = []"
| "active_conflicts os (r # rs) =
    (if \<not> rl_enabled r then active_conflicts os rs
     else case owner_of os (target_id (rl_target r)) of
       Some owner \<Rightarrow> clash owner r [Txt ''resolved at load time: this rule is disabled''] # active_conflicts os rs
     | None \<Rightarrow> active_conflicts (os @ [(target_id (rl_target r), rl_id r, rl_name r)]) rs)"

definition refresh_conflicts :: "'w engine \<Rightarrow> 'w engine" where
  "refresh_conflicts e = e\<lparr>en_conflicts := active_conflicts [] (en_rules e)\<rparr>"

subsection \<open>Checking a rule against the hardware\<close>

definition rk_error :: "message \<Rightarrow> rule_check" where
  "rk_error m = \<lparr>rk_errors = [m], rk_warnings = []\<rparr>"

definition rk_warning :: "message \<Rightarrow> rule_check" where
  "rk_warning m = \<lparr>rk_errors = [], rk_warnings = [m]\<rparr>"

definition rk_fine :: rule_check where
  "rk_fine = \<lparr>rk_errors = [], rk_warnings = []\<rparr>"

definition rk_join :: "rule_check list \<Rightarrow> rule_check" where
  "rk_join cs = \<lparr>rk_errors = concat (map rk_errors cs), rk_warnings = concat (map rk_warnings cs)\<rparr>"

definition rk_when :: "bool \<Rightarrow> rule_check \<Rightarrow> rule_check" where
  "rk_when b c = (if b then c else rk_fine)"

definition check_sensor :: "'w engine \<Rightarrow> sensor_ref \<Rightarrow> rule_check" where
  "check_sensor e s = (let i = sensor_ref_id s in
     case rt_resolve (en_runtime e) (sr_device s) (sr_capability s) of
       Inr (d, c) \<Rightarrow> rk_join
         [if \<not> cap_readable c \<or> cap_kind c \<noteq> Sensor then rk_error [Txt i, Txt '' is not a readable sensor'']
          else rk_when (\<not> is_temperature (cap_unit c)) (rk_warning [Txt i, Txt '' is a '',
            Txt (unit_str (cap_unit c)), Txt '' sensor; a cooling curve normally reads a temperature'']),
          rk_when (\<not> is_controllable d \<and> \<not> cap_readable c) (rk_warning [Txt (dev_id d), Txt '' looks offline''])]
     | Inl err \<Rightarrow> rk_error ([Txt ''source '', Txt i, Txt '': ''] @ error_display err))"

definition check_target :: "'w engine \<Rightarrow> rule \<Rightarrow> rule_check" where
  "check_target e r = (let i = target_id (rl_target r) in
     case rt_resolve (en_runtime e) (tg_device (rl_target r)) (tg_capability (rl_target r)) of
       Inr (d, c) \<Rightarrow>
         (let lo = or_default (Fin 0) (cap_min c); hi = or_default (Fin 100) (cap_max c);
              cmin = min_output (rl_curve r); cmax = max_output (rl_curve r);
              (low, high) = effective_output_range r
          in rk_join
           [rk_when (\<not> cap_writable c) (rk_error [Txt i, Txt '' is read-only; pick an actuator'']),
            rk_when (requires_safe_floor (dev_type d) \<and> \<not> is_duty_unit (cap_unit c)) (rk_warning [Txt i,
              Txt '' controls a '', Txt (device_type_str (dev_type d)), Txt '' through a '',
              Txt (unit_str (cap_unit c)), Txt '' capability'']),
            rk_when (hi < cmax \<or> cmin < lo) (rk_warning [Txt ''curve output '', Prec 0 cmin, Txt ''-'',
              Prec 0 cmax, Txt '' % is outside the device range '', Prec 0 lo, Txt ''-'', Prec 0 hi,
              Txt '' %; values will be clamped'']),
            rk_when (high < low) (rk_error [Txt ''output limits are inverted'']),
            (case rl_min_output r of None \<Rightarrow> rk_fine | Some m \<Rightarrow> rk_when (m < lo)
              (rk_warning [Txt ''min_output '', Prec 0 m, Txt '' % is below the device minimum '', Prec 0 lo, Txt '' %''])),
            rk_when (\<not> is_duty_control c) (rk_warning [Txt i,
              Txt '' is not a duty control; the safety floor cannot be applied''])])
     | Inl err \<Rightarrow> rk_error ([Txt ''target '', Txt i, Txt '': ''] @ error_display err))"

definition check_when :: "'w engine \<Rightarrow> condition \<Rightarrow> rule_check" where
  "check_when e w = (let i = sensor_ref_id (cd_source w) in rk_join
     [(case rt_resolve (en_runtime e) (sr_device (cd_source w)) (sr_capability (cd_source w)) of
         Inr (_, c) \<Rightarrow> rk_join
           [rk_when (\<not> cap_readable c \<or> cap_kind c \<noteq> Sensor)
              (rk_error [Txt ''when source '', Txt i, Txt '' is not a readable sensor'']),
            rk_when (is_equality (cd_op w)) (rk_warning [Txt ''when uses `'', Txt (comparator_str (cd_op w)),
              Txt ''` on '', Txt i, Txt '', an analog reading; `gte`/`lte` say what you mean and will not flip with a 0.1 '',
              Txt (trim (unit_suffix (cap_unit c))), Txt '' wobble'']),
            rk_when (cap_unit c = Percent \<and> \<not> in_percent (cd_value w)) (rk_warning [Txt ''when threshold '',
              Num (cd_value w), Txt '' is outside the 0-100 % range of '', Txt i,
              Txt ''; the condition can never be satisfied''])]
       | Inl err \<Rightarrow> rk_error ([Txt ''when source '', Txt i, Txt '': ''] @ error_display err)),
      (case cd_otherwise w of
         OtherwiseFixed p \<Rightarrow> rk_when (\<not> in_percent p)
           (rk_error [Txt ''when.otherwise.fixed percentage must be between 0 and 100''])
       | OtherwiseSafeDefault \<Rightarrow> rk_fine)])"

definition check_rule :: "'w engine \<Rightarrow> rule \<Rightarrow> rule_check" where
  "check_rule e r = rk_join (
     [case validate_rule r of Inl err \<Rightarrow> rk_error (error_display err) | Inr _ \<Rightarrow> rk_fine]
     @ map (check_sensor e) (source_sensors (rl_source r))
     @ [check_target e r,
        (case rl_when r of None \<Rightarrow> rk_fine | Some w \<Rightarrow> check_when e w),
        (if rl_enabled r then (case conflicting_rule e r of None \<Rightarrow> rk_fine
           | Some owner \<Rightarrow> rk_error (conflict_message r owner)) else rk_fine),
        rk_when (rl_hysteresis r = Fin 0)
          (rk_warning [Txt ''hysteresis is 0: the fan may oscillate around a curve knee'']),
        rk_when (rl_update_interval_ms r < 250) (rk_warning [Txt ''update_interval_ms is '',
          Dec (int (rl_update_interval_ms r)), Txt ''; values below 250 ms can flood the hardware''])])"

subsection \<open>Rule operations\<close>

text \<open>\<open>saved\<close> is what writing the rule's file returns.\<close>

definition stamp_rule :: "rule option \<Rightarrow> int \<Rightarrow> rule \<Rightarrow> rule" where
  "stamp_rule previous now r =
    (let r = (if rl_created_at_ms r = None
        then r\<lparr>rl_created_at_ms := (case previous of None \<Rightarrow> Some now | Some p \<Rightarrow> rl_created_at_ms p)\<rparr> else r)
     in r\<lparr>rl_updated_at_ms := Some now\<rparr>)"

definition install_rule :: "rule option \<Rightarrow> rule \<Rightarrow> 'w engine \<Rightarrow> 'w engine" where
  "install_rule previous r e =
    (let e = e\<lparr>en_rules := sort_rules (filter (\<lambda>x. rl_id x \<noteq> rl_id r) (en_rules e) @ [r])\<rparr>;
         st = (case states_get (en_states e) (rl_id r) of
                 Some st \<Rightarrow> st\<lparr>rs_next_due_ms := 0\<rparr> | None \<Rightarrow> rule_state_new (rl_id r));
         e = refresh_conflicts (remember (rl_id r) st e);
         e = (case previous of None \<Rightarrow> e
           | Some p \<Rightarrow> apply_rule_change p (change_between p r) e);
         e = announce (Some (rl_id r)) ''rule_saved'' (rule_summary r) e
     in en_log ''info'' [Txt ''automation rule saved: '', Txt (rl_name r)] e)"

definition save_rule :: "unit result \<Rightarrow> rule \<Rightarrow> 'w engine \<Rightarrow> 'w engine \<times> rule result" where
  "save_rule saved r e =
    (case check_result (check_rule e r) of Inl err \<Rightarrow> (e, Inl err) | Inr _ \<Rightarrow>
     (case (if rl_enabled r then conflicting_rule e r else None) of
        Some owner \<Rightarrow> (e, Inl (conflict_error r owner))
      | None \<Rightarrow>
        (let previous = find_rule e (rl_id r); r = stamp_rule previous (en_now e) r
         in case and_then (validate_rule r) (\<lambda>_. saved) of
              Inl err \<Rightarrow> (e, Inl err)
            | Inr _ \<Rightarrow> (install_rule previous r e, Inr r))))"

text \<open>\<open>removed\<close> is what removing the rule's file returns: whether it was there, or an error.\<close>

definition delete_rule :: "bool result \<Rightarrow> string \<Rightarrow> 'w engine \<Rightarrow> 'w engine \<times> bool result" where
  "delete_rule removed i e =
    (case new_id ''rule id'' i of Inl err \<Rightarrow> (e, Inl err) | Inr i \<Rightarrow>
     (let held = held_by e i;
          existed = (find_rule e i \<noteq> None);
          e = e\<lparr>en_rules := filter (\<lambda>r. rl_id r \<noteq> i) (en_rules e)\<rparr>
      in case removed of Inl err \<Rightarrow> (e, Inl err)
       | Inr file_removed \<Rightarrow>
         (let e = e\<lparr>en_states := remove_key fst i (en_states e)\<rparr>;
              e = hand_over i held None ''was deleted'' e;
              e = refresh_conflicts (flush_control_state e);
              e = (if existed \<or> file_removed
                   then announce (Some i) ''rule_deleted'' [Txt ''rule '', Txt i, Txt '' deleted''] e else e)
          in (e, Inr (existed \<or> file_removed)))))"

definition set_rule_enabled :: "unit result \<Rightarrow> string \<Rightarrow> bool \<Rightarrow> 'w engine \<Rightarrow> 'w engine \<times> rule result" where
  "set_rule_enabled saved i enabled e =
    (case find_rule e i of
       None \<Rightarrow> (e, Inl (AutomationError [Txt ''no rule with id `'', Txt i, Txt ''`'']))
     | Some r \<Rightarrow>
       (case (if enabled \<and> \<not> rl_enabled r then conflicting_rule e r else None) of
          Some owner \<Rightarrow> (e, Inl (conflict_error r owner))
        | None \<Rightarrow>
          (case save_rule saved (r\<lparr>rl_enabled := enabled\<rparr>) e of
             (e, Inl err) \<Rightarrow> (e, Inl err)
           | (e, Inr r) \<Rightarrow>
             (if enabled then e else e\<lparr>en_states := states_update (rl_id r)
                (\<lambda>st. st\<lparr>rs_last_status := rule_status.Disabled, rs_last_message := [Txt ''disabled by the user'']\<rparr>)
                (en_states e)\<rparr>, Inr r))))"

definition reset_states :: "'w engine \<Rightarrow> 'w engine" where
  "reset_states e = e\<lparr>en_states := map (\<lambda>(i, st). (i, rule_state_reset st)) (en_states e)\<rparr>"

text \<open>Loading: \<open>rep\<close> is what the rule store found.\<close>

definition loaded_states :: "rule list \<Rightarrow> rule_states \<Rightarrow> rule_states" where
  "loaded_states rules s =
    fold (\<lambda>r s. if states_get s (rl_id r) = None then states_put (rl_id r) (rule_state_new (rl_id r)) s else s)
      rules (filter (\<lambda>p. list_ex (\<lambda>r. rl_id r = fst p) rules) s)"

definition apply_loaded_change :: "rule list \<Rightarrow> rule \<Rightarrow> 'w engine \<Rightarrow> 'w engine" where
  "apply_loaded_change previous r e = (case List.find (\<lambda>p. rl_id p = rl_id r) previous of None \<Rightarrow> e
     | Some p \<Rightarrow> (let g = change_between p r in if is_semantic g then apply_rule_change p g e else e))"

definition announce_note :: "rule_file_note \<Rightarrow> 'w engine \<Rightarrow> 'w engine" where
  "announce_note n e = announce (Some (rn_rule_id n)) ''rule_compatibility_note'' (rn_message n)
     (en_log ''warn'' ([Txt ''automation rule `'', Txt (rn_rule_id n), Txt ''`: ''] @ rn_message n) e)"

definition load_rules :: "load_report \<Rightarrow> 'w engine \<Rightarrow> 'w engine" where
  "load_rules rep e =
    (let previous = en_rules e;
         holds = List.map_filter (\<lambda>r. map_option (Pair (rl_id r)) (held_by e (rl_id r))) previous;
         e = e\<lparr>en_rules := sort_rules (lr_rules rep), en_states := loaded_states (lr_rules rep) (en_states e)\<rparr>;
         e = (if report_is_clean rep then e
              else en_log ''warn'' [Dec (int (length (lr_errors rep))), Txt '' rule file(s) could not be loaded''] e);
         e = fold (apply_loaded_change previous) (lr_rules rep) e;
         e = fold (\<lambda>(i, h) e. if list_ex (\<lambda>r. rl_id r = i) (lr_rules rep) then e
               else hand_over i (Some h) None ''was removed from disk'' e) holds e;
         e = fold announce_note (lr_notes rep) (e\<lparr>en_notes := lr_notes rep\<rparr>);
         e = flush_control_state (resolve_loaded_conflicts e)
     in if en_recovered e then e
        else (case recover_control_state (e\<lparr>en_recovered := True\<rparr>) of
           (e, Inl err) \<Rightarrow> announce None ''control_state_recovery_failed'' (error_display err) e
         | (e, Inr _) \<Rightarrow> e))"

definition engine_outcomes :: "'w engine \<Rightarrow> rule_outcome list" where
  "engine_outcomes e = map (\<lambda>r. outcome_from_parts r (state_or_new (en_states e) (rl_id r)) (en_now e)) (en_rules e)"

record automation_stats =
  at_rules :: nat
  at_enabled_rules :: nat
  at_ticks :: nat
  at_evaluations :: nat
  at_writes :: nat
  at_skipped :: nat
  at_fallbacks :: nat
  at_failures :: nat
  at_last_tick_ms :: int
  at_blocked_by :: "message option"
  at_persistence_error :: "message option"

definition engine_stats :: "'w engine \<Rightarrow> automation_stats" where
  "engine_stats e = (let outs = engine_outcomes e in
     \<lparr>at_rules = length outs, at_enabled_rules = length (filter ro_enabled outs), at_ticks = en_ticks e,
      at_evaluations = sum_list (map ro_evaluations outs), at_writes = sum_list (map ro_writes outs),
      at_skipped = sum_list (map ro_skipped outs), at_fallbacks = sum_list (map ro_fallbacks outs),
      at_failures = length (filter (\<lambda>ro. ro_status ro = Error) outs), at_last_tick_ms = en_last_tick_ms e,
      at_blocked_by = en_blocked_by e, at_persistence_error = en_persistence_error e\<rparr>)"

definition retry_failed_handovers :: "'w engine \<Rightarrow> 'w engine \<times> nat" where
  "retry_failed_handovers e = (case retry_failed (en_ticks e) (en_handovers e) of (b, n) \<Rightarrow> (e\<lparr>en_handovers := b\<rparr>, n))"

definition retry_failed_handover :: "string \<Rightarrow> string \<Rightarrow> 'w engine \<Rightarrow> 'w engine \<times> bool" where
  "retry_failed_handover d c e =
    (case retry_failed_one d c (en_ticks e) (en_handovers e) of (b, ok) \<Rightarrow> (e\<lparr>en_handovers := b\<rparr>, ok))"

text \<open>Starting and stopping the loop; \<open>owner\<close> is the process id of another live process in the state file.\<close>

definition engine_start :: "load_report \<Rightarrow> int option \<Rightarrow> 'w engine \<Rightarrow> 'w engine" where
  "engine_start rep owner e =
    (if en_running e then e
     else
       (let e = load_rules rep (e\<lparr>en_running := True\<rparr>) in
        case owner of
          Some pid \<Rightarrow>
            (let m = [Txt ''another process (pid '', Dec pid, Txt ('') is running the rules and owns the '' @
                   ''hardware channels; automation is not started here'')];
                 e = announce None ''engine_blocked'' m (e\<lparr>en_running := False\<rparr>);
                 e = en_log ''error'' ([Txt ''automation engine not started: ''] @ m) e
             in e\<lparr>en_blocked_by := Some m\<rparr>)
        | None \<Rightarrow>
            if st_automation_enabled (rt_settings (en_runtime e))
            then announce None ''engine_started'' [Dec (int (length (en_rules e))), Txt '' rule(s) loaded''] e
            else e))"

definition engine_stop :: "'w engine \<Rightarrow> 'w engine" where
  "engine_stop e =
    (let e = e\<lparr>en_running := False\<rparr>;
         e = (if hb_open (en_handovers e) = [] then e else e\<lparr>en_dirty := True\<rparr>)
     in announce None ''engine_stopped'' [Txt ''automation loop stopped''] (flush_control_state e))"

definition merge_suggestions :: "rule list \<Rightarrow> rule list \<Rightarrow> rule list" where
  "merge_suggestions existing suggestions =
     filter (\<lambda>c. \<not> list_ex (\<lambda>r. rl_id r = rl_id c) existing) suggestions"

end
