(* ===== verification/Service.thy ===== *)
theory Service
  imports Runtime
begin

section \<open>The service's state file\<close>

text \<open>
  \<open>crates/ohm-runtime/src/service.rs\<close>. One file names the process that owns the channels; its
  heartbeat says whether that process still lives. The file's text goes through a codec (serde in the
  code), which is a parameter; the file system's answers, the clock and the processes that exist are
  a record the operations read and change.
\<close>

subsection \<open>What the owner writes\<close>

definition HEARTBEAT_TOLERANCE :: nat where "HEARTBEAT_TOLERANCE = 3"

record service_outcome =
  so_id :: string
  so_status :: string
  so_applied :: "f64 option"
  so_message :: message

record service_state =
  ss_pid :: nat
  ss_version :: string
  ss_started_at_ms :: int
  ss_heartbeat_at_ms :: int
  ss_heartbeat_interval_ms :: nat
  ss_ticks :: nat
  ss_rules :: nat
  ss_outcomes :: "service_outcome list"
  ss_simulated :: bool
  ss_dry_run :: bool
  ss_resumes :: nat
  ss_last_resume_gap_ms :: "int option"
  ss_taken :: "taken_control list"

definition claim :: "int \<Rightarrow> nat \<Rightarrow> string \<Rightarrow> nat \<Rightarrow> bool \<Rightarrow> bool \<Rightarrow> service_state" where
  "claim now pid version interval simulated dry = \<lparr>ss_pid = pid, ss_version = version,
     ss_started_at_ms = now, ss_heartbeat_at_ms = now, ss_heartbeat_interval_ms = max interval 50,
     ss_ticks = 0, ss_rules = 0, ss_outcomes = [], ss_simulated = simulated, ss_dry_run = dry,
     ss_resumes = 0, ss_last_resume_gap_ms = None, ss_taken = []\<rparr>"

definition age_ms :: "service_state \<Rightarrow> int \<Rightarrow> int" where
  "age_ms s now = sat_i64 (now - ss_heartbeat_at_ms s)"

definition heartbeat_window :: "service_state \<Rightarrow> int" where
  "heartbeat_window s = wrap_i64 (int (min u64_max (max (ss_heartbeat_interval_ms s) 1 * HEARTBEAT_TOLERANCE)))"

definition is_fresh :: "service_state \<Rightarrow> int \<Rightarrow> bool" where
  "is_fresh s now \<longleftrightarrow> age_ms s now \<le> heartbeat_window s"

subsection \<open>Waking up\<close>

text \<open>\<open>format_gap\<close> of \<open>release.rs\<close>: a duration as a person reads it.\<close>

definition three_digits :: "nat \<Rightarrow> string" where
  "three_digits n = replicate (3 - length (dec_nat n)) (CHR ''0'') @ dec_nat n"

definition format_gap :: "int \<Rightarrow> string" where
  "format_gap ms0 =
    (let ms = nat (max ms0 0); seconds = ms div 1000; minutes = seconds div 60; hours = minutes div 60 in
     if seconds < 60 then dec_nat seconds @ ''.'' @ three_digits (ms mod 1000) @ '' s''
     else if minutes < 60 then dec_nat minutes @ '' min '' @ dec_nat (seconds mod 60) @ '' s''
     else if hours < 48 then dec_nat hours @ '' h '' @ dec_nat (minutes mod 60) @ '' min''
     else dec_nat (hours div 24) @ '' days '' @ dec_nat (hours mod 24) @ '' h'')"

record suspend_gap =
  gp_wall_ms :: int
  gp_process_ms :: int

definition missed_ms :: "suspend_gap \<Rightarrow> int" where
  "missed_ms g = max (wrap_i64 (gp_wall_ms g - gp_process_ms g)) 0"

definition gap_describe :: "suspend_gap \<Rightarrow> string" where
  "gap_describe g = ''woke up after '' @ format_gap (gp_wall_ms g)
     @ '' of wall-clock time in which this process measured only '' @ format_gap (gp_process_ms g)
     @ '' '' @ em_dash @ '' a suspend, a hibernation or a very long stall; while it was frozen its state file ''
     @ ''looked abandoned to anything that read it''"

record wakeup_detector =
  wd_threshold_ms :: int
  wd_last_wall_ms :: "int option"
  wd_last_process_ms :: "int option"

definition wakeup_new :: "int \<Rightarrow> wakeup_detector" where
  "wakeup_new threshold = \<lparr>wd_threshold_ms = max threshold 0, wd_last_wall_ms = None, wd_last_process_ms = None\<rparr>"

definition observe :: "int \<Rightarrow> int \<Rightarrow> wakeup_detector \<Rightarrow> wakeup_detector \<times> suspend_gap option" where
  "observe wall process d =
    (d\<lparr>wd_last_wall_ms := Some wall, wd_last_process_ms := Some process\<rparr>,
     case (wd_last_wall_ms d, wd_last_process_ms d) of
       (Some lw, Some lp) \<Rightarrow>
         (let w = sat_i64 (wall - lw); p = sat_i64 (process - lp) in
          if wd_threshold_ms d \<le> sat_i64 (w - p) then Some \<lparr>gp_wall_ms = w, gp_process_ms = p\<rparr> else None)
     | _ \<Rightarrow> None)"

subsection \<open>The file\<close>

record codec =
  cd_print :: "service_state \<Rightarrow> string option"
  cd_parse :: "string \<Rightarrow> service_state option"

text \<open>A file is its text and its identity: a process that opened it goes on writing to what it opened,
  even when the name has been given to another file. \<open>io_faults\<close> is what each kind of call answers.\<close>

record state_file =
  sf_inode :: nat
  sf_text :: string

record io_faults =
  fa_read :: "string option"
  fa_remove :: "string option"
  fa_mkdir :: "string option"
  fa_create :: "string option"
  fa_write :: "string option"
  fa_rename :: "string option"

record service_world =
  sw_file :: "state_file option"
  sw_next :: nat
  sw_faults :: io_faults
  sw_clock :: int
  sw_alive :: "nat \<Rightarrow> bool"

datatype service_path = State_File | Its_Directory

datatype service_error =
  Already_Running service_state int
| Write_Failed service_path string
| Ownership_Lost nat "service_state option"

text \<open>\<open>format_ms\<close> is chrono's rendering of a time, a parameter; \<open>path\<close> names the file and its directory.\<close>

definition service_error_display :: "(int \<Rightarrow> string) \<Rightarrow> (service_path \<Rightarrow> string) \<Rightarrow> service_error \<Rightarrow> string" where
  "service_error_display format_ms path e = (case e of
     Already_Running s age \<Rightarrow> ''a service is already running (pid '' @ dec_nat (ss_pid s) @ '', started ''
       @ format_ms (ss_started_at_ms s) @ '', last heartbeat '' @ dec_int age @ '' ms ago)''
   | Write_Failed p detail \<Rightarrow> ''could not write '' @ path p @ '': '' @ detail
   | Ownership_Lost pid (Some other) \<Rightarrow> ''another process took over the channels (pid '' @ dec_nat (ss_pid other)
       @ '' started '' @ format_ms (ss_started_at_ms other) @ ''; this one is pid '' @ dec_nat pid
       @ ''), so this one stopped instead of writing over its record or onto the same channels''
   | Ownership_Lost pid None \<Rightarrow> ''the state file this process (pid '' @ dec_nat pid
       @ '') claimed is gone, so it no longer owns the channels and stopped rather than claim them again silently'')"

definition read_state :: "codec \<Rightarrow> service_world \<Rightarrow> service_state option" where
  "read_state c w = (case fa_read (sw_faults w) of Some _ \<Rightarrow> None
     | None \<Rightarrow> Option.bind (sw_file w) (\<lambda>f. cd_parse c (sf_text f)))"

definition pid_plausible :: "service_world \<Rightarrow> nat \<Rightarrow> bool" where
  "pid_plausible w pid \<longleftrightarrow> pid \<noteq> 0 \<and> sw_alive w pid"

definition service_running :: "codec \<Rightarrow> service_world \<Rightarrow> service_state option" where
  "service_running c w = Option.bind (read_state c w) (\<lambda>s.
     if \<not> is_fresh s (sw_clock w) then None else if \<not> pid_plausible w (ss_pid s) then None else Some s)"

definition stale_or_running :: "codec \<Rightarrow> service_world \<Rightarrow> (service_state \<times> bool) option" where
  "stale_or_running c w = map_option (\<lambda>s. (s, is_fresh s (sw_clock w) \<and> pid_plausible w (ss_pid s))) (read_state c w)"

definition remove_file :: "service_world \<Rightarrow> service_world" where
  "remove_file w = (if fa_remove (sw_faults w) = None then w\<lparr>sw_file := None\<rparr> else w)"

subsection \<open>Claiming it\<close>

record service_guard =
  sg_state :: service_state
  sg_predecessor :: "service_state option"

text \<open>\<open>acquire\<close> is four calls on the file: look, clear the way, open exclusively, write.\<close>

datatype sighting = Held service_state int | Abandoned service_state | Unreadable | Free

definition look :: "codec \<Rightarrow> service_world \<Rightarrow> sighting" where
  "look c w = (case stale_or_running c w of
     Some (s, fresh) \<Rightarrow> if fresh then Held s (age_ms s (sw_clock w)) else Abandoned s
   | None \<Rightarrow> if sw_file w \<noteq> None then Unreadable else Free)"

definition open_exclusive :: "codec \<Rightarrow> service_world \<Rightarrow> (service_error + nat) \<times> service_world" where
  "open_exclusive c w =
    (case fa_mkdir (sw_faults w) of Some e \<Rightarrow> (Inl (Write_Failed Its_Directory e), w)
     | None \<Rightarrow> (case sw_file w of
         Some _ \<Rightarrow> (Inl (case read_state c w of
             Some s \<Rightarrow> Already_Running s (age_ms s (sw_clock w))
           | None \<Rightarrow> Write_Failed State_File ''File exists (os error 17)''), w)
       | None \<Rightarrow> (case fa_create (sw_faults w) of Some e \<Rightarrow> (Inl (Write_Failed State_File e), w)
           | None \<Rightarrow> (Inr (sw_next w), w\<lparr>sw_file := Some \<lparr>sf_inode = sw_next w, sf_text = []\<rparr>,
                sw_next := sw_next w + 1\<rparr>))))"

definition record_text :: "codec \<Rightarrow> service_state \<Rightarrow> string" where
  "record_text c s = (case cd_print c s of Some t \<Rightarrow> t | None \<Rightarrow> ''{}'')"

definition write_record :: "codec \<Rightarrow> nat \<Rightarrow> service_state \<Rightarrow> service_state option \<Rightarrow> service_world
    \<Rightarrow> (service_error + service_guard) \<times> service_world" where
  "write_record c inode s pred w =
    (case fa_write (sw_faults w) of
       Some e \<Rightarrow> (Inl (Write_Failed State_File e), remove_file w)
     | None \<Rightarrow> (Inr \<lparr>sg_state = s, sg_predecessor = pred\<rparr>,
         (case sw_file w of
            Some f \<Rightarrow> if sf_inode f = inode then w\<lparr>sw_file := Some (f\<lparr>sf_text := record_text c s\<rparr>)\<rparr> else w
          | None \<Rightarrow> w)))"

definition create_record :: "codec \<Rightarrow> service_state \<Rightarrow> service_state option \<Rightarrow> service_world
    \<Rightarrow> (service_error + service_guard) \<times> service_world" where
  "create_record c s pred w = (case open_exclusive c w of (Inl e, w) \<Rightarrow> (Inl e, w)
     | (Inr inode, w) \<Rightarrow> write_record c inode s pred w)"

text \<open>Between two of these calls another process may make its own. A claim under way has read the file, is about
  to clear the way, to open, or to write what it opened; \<open>claim_step\<close> is its next call, and the judgement
  of what was read comes after the reading.\<close>

datatype claim_phase =
  Looked "service_state option"
| Clearing "service_state option"
| Opening "service_state option"
| Opened nat "service_state option"

fun claim_step :: "codec \<Rightarrow> service_state \<Rightarrow> claim_phase \<Rightarrow> service_world
    \<Rightarrow> ((service_error + service_guard) + claim_phase) \<times> service_world" where
  "claim_step c s (Looked (Some owner)) w =
    (if is_fresh owner (sw_clock w) \<and> pid_plausible w (ss_pid owner)
     then (Inl (Inl (Already_Running owner (age_ms owner (sw_clock w)))), w) else (Inr (Clearing (Some owner)), w))"
| "claim_step c s (Looked None) w = (Inr (if sw_file w \<noteq> None then Clearing None else Opening None), w)"
| "claim_step c s (Clearing pred) w = (Inr (Opening pred), remove_file w)"
| "claim_step c s (Opening pred) w = (case open_exclusive c w of
     (Inl e, w) \<Rightarrow> (Inl (Inl e), w) | (Inr inode, w) \<Rightarrow> (Inr (Opened inode pred), w))"
| "claim_step c s (Opened inode pred) w = (case write_record c inode s pred w of (r, w) \<Rightarrow> (Inl r, w))"

fun calls_left :: "claim_phase \<Rightarrow> nat" where
  "calls_left (Looked _) = 3" | "calls_left (Clearing _) = 2" | "calls_left (Opening _) = 1" | "calls_left (Opened _ _) = 0"

lemma claim_step_left: "claim_step c s ph w = (Inr ph', w') \<Longrightarrow> calls_left ph' < calls_left ph"
  by (cases "(c, s, ph, w)" rule: claim_step.cases) (auto split: if_splits prod.splits sum.splits)

function run_claim :: "codec \<Rightarrow> service_state \<Rightarrow> claim_phase \<Rightarrow> service_world
    \<Rightarrow> (service_error + service_guard) \<times> service_world" where
  "run_claim c s ph w = (case claim_step c s ph w of (Inl r, w) \<Rightarrow> (r, w) | (Inr ph, w) \<Rightarrow> run_claim c s ph w)"
  by pat_completeness auto
termination by (relation "measure (\<lambda>(_, _, ph, _). calls_left ph)") (auto dest: claim_step_left [OF sym])

declare run_claim.simps [simp del]

definition acquire :: "codec \<Rightarrow> service_state \<Rightarrow> service_world \<Rightarrow> (service_error + service_guard) \<times> service_world" where
  "acquire c s w = run_claim c s (Looked (read_state c w)) w"

lemma run_create: "run_claim c s (Opening pred) w = create_record c s pred w"
  by (simp add: run_claim.simps [of c s "Opening pred"] run_claim.simps [of c s "Opened i pred" for i] create_record_def
      split: prod.split sum.split)

lemma run_clear: "run_claim c s (Clearing pred) w = create_record c s pred (remove_file w)"
  by (simp add: run_claim.simps [of c s "Clearing pred"] run_create)

text \<open>A claim nobody interrupts.\<close>

lemma acquire_unfold: "acquire c s w = (case look c w of
     Held owner age \<Rightarrow> (Inl (Already_Running owner age), w)
   | Abandoned owner \<Rightarrow> create_record c s (Some owner) (remove_file w)
   | Unreadable \<Rightarrow> create_record c s None (remove_file w)
   | Free \<Rightarrow> create_record c s None w)"
  by (cases "read_state c w") (simp_all add: acquire_def look_def stale_or_running_def run_claim.simps [of c s "Looked x" for x]
      run_clear run_create)

subsection \<open>Keeping it\<close>

definition verify_ownership :: "codec \<Rightarrow> service_guard \<Rightarrow> service_world \<Rightarrow> service_error + unit" where
  "verify_ownership c g w = (case read_state c w of
     Some current \<Rightarrow> if ss_pid current = ss_pid (sg_state g) then Inr ()
       else Inl (Ownership_Lost (ss_pid (sg_state g)) (Some current))
   | None \<Rightarrow> Inl (Ownership_Lost (ss_pid (sg_state g)) None))"

definition set_taken :: "taken_control list \<Rightarrow> service_guard \<Rightarrow> service_guard" where
  "set_taken taken g = g\<lparr>sg_state := (sg_state g)\<lparr>ss_taken := taken\<rparr>\<rparr>"

definition record_resume :: "int \<Rightarrow> service_guard \<Rightarrow> service_guard" where
  "record_resume gap g = g\<lparr>sg_state := (sg_state g)\<lparr>ss_resumes := min u64_max (ss_resumes (sg_state g) + 1),
     ss_last_resume_gap_ms := Some gap\<rparr>\<rparr>"

definition beat_state :: "int \<Rightarrow> nat \<Rightarrow> nat \<Rightarrow> service_outcome list \<Rightarrow> service_state \<Rightarrow> service_state" where
  "beat_state now ticks rules outcomes s = s\<lparr>ss_ticks := ticks, ss_rules := rules, ss_outcomes := outcomes,
     ss_heartbeat_at_ms := now\<rparr>"

text \<open>The record is written beside the file and renamed over whatever is there.\<close>

definition rename_over :: "codec \<Rightarrow> service_state \<Rightarrow> service_world \<Rightarrow> (service_error + unit) \<times> service_world" where
  "rename_over c s w = (case fa_write (sw_faults w) of Some e \<Rightarrow> (Inl (Write_Failed State_File e), w)
     | None \<Rightarrow> (case fa_rename (sw_faults w) of Some e \<Rightarrow> (Inl (Write_Failed State_File e), w)
         | None \<Rightarrow> (Inr (), w\<lparr>sw_file := Some \<lparr>sf_inode = sw_next w, sf_text = record_text c s\<rparr>,
             sw_next := sw_next w + 1\<rparr>)))"

text \<open>A heartbeat first asks whose file it is, then stamps its record; the renaming comes after that.\<close>

definition stamp_beat :: "codec \<Rightarrow> nat \<Rightarrow> nat \<Rightarrow> service_outcome list \<Rightarrow> service_guard \<Rightarrow> service_world
    \<Rightarrow> service_error + service_state" where
  "stamp_beat c ticks rules outcomes g w = (case verify_ownership c g w of Inl e \<Rightarrow> Inl e
   | Inr _ \<Rightarrow> Inr (beat_state (sw_clock w) ticks rules outcomes (sg_state g)))"

definition heartbeat :: "codec \<Rightarrow> nat \<Rightarrow> nat \<Rightarrow> service_outcome list \<Rightarrow> service_guard \<Rightarrow> service_world
    \<Rightarrow> (service_error + unit) \<times> service_guard \<times> service_world" where
  "heartbeat c ticks rules outcomes g w = (case stamp_beat c ticks rules outcomes g w of
     Inl e \<Rightarrow> (Inl e, g, w)
   | Inr s \<Rightarrow> (let (r, w) = rename_over c s w in (r, g\<lparr>sg_state := s\<rparr>, w)))"

lemma heartbeat_unfold: "heartbeat c ticks rules outcomes g w = (case verify_ownership c g w of
     Inl e \<Rightarrow> (Inl e, g, w)
   | Inr _ \<Rightarrow>
       (let s = beat_state (sw_clock w) ticks rules outcomes (sg_state g);
            (r, w) = rename_over c s w
        in (r, g\<lparr>sg_state := s\<rparr>, w)))"
  by (simp add: heartbeat_def stamp_beat_def Let_def split: sum.split)

definition drop_guard :: "codec \<Rightarrow> service_guard \<Rightarrow> service_world \<Rightarrow> service_world" where
  "drop_guard c g w = (if is_ok (verify_ownership c g w) then remove_file w else w)"

end
