(* ===== verification/Service_Run.thy ===== *)
theory Service_Run
  imports Engine Service
begin

section \<open>The background service\<close>

text \<open>
  \<open>service_run\<close> of \<open>apps/cli/src/main.rs\<close>: claim the state file, start the runtime, adopt what the
  predecessor held, start the rules, then publish and beat until told to stop. Printing is left out;
  the spawned rule loop and the world's changes come between two arms of the loop.
\<close>

record 'w service =
  se_engine :: "'w engine"
  se_guard :: service_guard
  se_wakeups :: wakeup_detector
  se_published :: "taken_control list"

datatype ending =
  Clean control_release
| Lost control_release
| Failed service_error

type_synonym 'w service_result = "(ending \<times> 'w engine) + 'w service"

definition rule_outcomes :: "'w engine \<Rightarrow> service_outcome list" where
  "rule_outcomes e = map (\<lambda>out. \<lparr>so_id = ro_rule_id out, so_status = rule_status_str (ro_status out),
     so_applied = ro_applied_output out, so_message = ro_message out\<rparr>) (take 32 (engine_outcomes e))"

definition session_stop :: "'w engine \<Rightarrow> 'w engine \<times> control_release" where
  "session_stop e = (let e = engine_stop e; (rt, rel) = runtime_shutdown (en_runtime e) in (e\<lparr>en_runtime := rt\<rparr>, rel))"

text \<open>\<open>beat\<close>: publish what is held, then the heartbeat. \<open>True\<close> says that the channels are someone else's.\<close>

definition beat :: "codec \<Rightarrow> 'w service \<Rightarrow> service_world \<Rightarrow> (service_error + bool) \<times> 'w service \<times> service_world" where
  "beat c s w =
    (let st = engine_stats (se_engine s);
         g = set_taken (rt_taken_controls (en_runtime (se_engine s))) (se_guard s);
         (r, g, w) = heartbeat c (at_ticks st) (at_rules st) (rule_outcomes (se_engine s)) g w;
         s = s\<lparr>se_guard := g\<rparr>
     in case r of Inr _ \<Rightarrow> (Inr False, s, w)
        | Inl e \<Rightarrow> (case e of Ownership_Lost _ _ \<Rightarrow> (Inr True, s, w) | _ \<Rightarrow> (Inl e, s, w)))"

text \<open>The two ways out of the loop: a stop, which hands back; an error, which only drops the guard.\<close>

definition finish_run :: "codec \<Rightarrow> bool \<Rightarrow> 'w service \<Rightarrow> service_world \<Rightarrow> 'w service_result \<times> service_world" where
  "finish_run c lost s w = (let (e, rel) = session_stop (se_engine s) in
     (Inl (if lost then Lost rel else Clean rel, e), drop_guard c (se_guard s) w))"

definition fail_run :: "codec \<Rightarrow> service_error \<Rightarrow> 'w service \<Rightarrow> service_world \<Rightarrow> 'w service_result \<times> service_world" where
  "fail_run c err s w = (Inl (Failed err, se_engine s), drop_guard c (se_guard s) w)"

definition owned_elsewhere :: "codec \<Rightarrow> nat \<Rightarrow> service_world \<Rightarrow> int option" where
  "owned_elsewhere c pid w = Option.bind (service_running c w)
     (\<lambda>s. if ss_pid s \<noteq> pid then Some (int (ss_pid s)) else None)"

definition service_begin :: "codec \<Rightarrow> nat \<Rightarrow> string \<Rightarrow> nat \<Rightarrow> bool \<Rightarrow> load_report \<Rightarrow> 'w engine \<Rightarrow> service_world
    \<Rightarrow> 'w service_result \<times> service_world" where
  "service_begin c pid version interval mock rep e w =
    (let st = claim (sw_clock w) pid version interval mock (st_dry_run (rt_settings (en_runtime e))) in
     case acquire c st w of (Inl err, w) \<Rightarrow> (Inl (Failed err, e), w)
     | (Inr g, w) \<Rightarrow>
       (let rt = runtime_start (en_runtime e);
            rt = (case sg_predecessor g of None \<Rightarrow> rt | Some p \<Rightarrow> fst (adopt_taken_controls (ss_taken p) rt));
            e = engine_start rep (owned_elsewhere c pid w) (e\<lparr>en_runtime := rt\<rparr>);
            (r, s, w) = beat c \<lparr>se_engine = e, se_guard = g,
              se_wakeups = wakeup_new (wrap_i64 (int (max interval 50))), se_published = []\<rparr> w
        in case r of Inl err \<Rightarrow> fail_run c err s w
           | Inr lost \<Rightarrow> if lost then finish_run c True s w else (Inr s, w)))"

datatype service_event = Stop_Requested | Watch_Tick | Heartbeat_Tick int int

definition publish_beat :: "codec \<Rightarrow> nat \<Rightarrow> bool \<Rightarrow> 'w service \<Rightarrow> service_world \<Rightarrow> 'w service_result \<times> service_world" where
  "publish_beat c max_ticks timed s w =
    (let (r, s, w) = beat c s w in
     case r of Inl err \<Rightarrow> fail_run c err s w
     | Inr lost \<Rightarrow> if lost then finish_run c True s w
         else (let s = s\<lparr>se_published := ss_taken (sg_state (se_guard s))\<rparr> in
           if timed \<and> 0 < max_ticks \<and> max_ticks \<le> at_ticks (engine_stats (se_engine s))
           then finish_run c False s w else (Inr s, w)))"

definition note_gap :: "int \<Rightarrow> int \<Rightarrow> 'w service \<Rightarrow> 'w service" where
  "note_gap wall process s = (let (d, gap) = observe wall process (se_wakeups s); s = s\<lparr>se_wakeups := d\<rparr> in
     case gap of None \<Rightarrow> s | Some g \<Rightarrow> s\<lparr>se_guard := record_resume (missed_ms g) (se_guard s)\<rparr>)"

definition service_arm :: "codec \<Rightarrow> nat \<Rightarrow> service_event \<Rightarrow> 'w service \<Rightarrow> service_world \<Rightarrow> 'w service_result \<times> service_world" where
  "service_arm c max_ticks ev s w = (case ev of
     Stop_Requested \<Rightarrow> finish_run c False s w
   | Watch_Tick \<Rightarrow> if rt_taken_controls (en_runtime (se_engine s)) \<noteq> se_published s
       then publish_beat c max_ticks False s w else (Inr s, w)
   | Heartbeat_Tick wall process \<Rightarrow> publish_beat c max_ticks True (note_gap wall process s) w)"

end
