(* ===== verification/Service_Correct.thy ===== *)
theory Service_Correct
  imports Service_Run
begin

section \<open>One writer at a time\<close>

text \<open>What the state file guarantees while several processes call it in any order, and what the service makes of
  it. \<open>Service_Faults\<close> shows that none of the conditions can be dropped.\<close>

subsection \<open>The codec\<close>

text \<open>What the code relies on of serde: a record reads back as one that agrees with it in what the code
  looks at again. (A number that is not finite is read back as none, for instance.)\<close>

definition agrees :: "service_state \<Rightarrow> service_state \<Rightarrow> bool" where
  "agrees s' s \<longleftrightarrow> ss_pid s' = ss_pid s \<and> ss_heartbeat_at_ms s' = ss_heartbeat_at_ms s
     \<and> ss_heartbeat_interval_ms s' = ss_heartbeat_interval_ms s \<and> ss_taken s' = ss_taken s"

definition codec_ok :: "codec \<Rightarrow> bool" where
  "codec_ok c \<longleftrightarrow> (\<forall>s. \<exists>s'. cd_parse c (record_text c s) = Some s' \<and> agrees s' s)"

lemma codec_okE:
  assumes "codec_ok c" obtains s' where "cd_parse c (record_text c s) = Some s'" "agrees s' s"
  using assms by (auto simp: codec_ok_def)

subsection \<open>Single calls\<close>

lemma read_cong:
  "sw_file w' = sw_file w \<Longrightarrow> fa_read (sw_faults w') = fa_read (sw_faults w) \<Longrightarrow> read_state c w' = read_state c w"
  by (simp add: read_state_def split: option.split)

text \<open>A living owner is found, and the file stays.\<close>

lemma acquire_refused:
  assumes "read_state c w = Some owner" "is_fresh owner (sw_clock w)" "pid_plausible w (ss_pid owner)"
  shows "acquire c s w = (Inl (Already_Running owner (age_ms owner (sw_clock w))), w)"
  using assms by (simp add: acquire_unfold look_def stale_or_running_def)

lemma stranger_lost:
  assumes "read_state c w = Some owner" "ss_pid owner \<noteq> ss_pid (sg_state g)"
  shows "heartbeat c t n os g w = (Inl (Ownership_Lost (ss_pid (sg_state g)) (Some owner)), g, w)"
    and "drop_guard c g w = w"
  using assms by (simp_all add: heartbeat_unfold drop_guard_def verify_ownership_def)

lemma heartbeat_cases:
  assumes "heartbeat c t n os g w = (r, g', w')"
  obtains (lost) e where "r = Inl e" "g' = g" "w' = w" "verify_ownership c g w = Inl e"
  | (failed) e where "r = Inl (Write_Failed State_File e)" "w' = w"
      "g' = g\<lparr>sg_state := beat_state (sw_clock w) t n os (sg_state g)\<rparr>"
  | (wrote) "r = Inr ()" "verify_ownership c g w = Inr ()"
      "g' = g\<lparr>sg_state := beat_state (sw_clock w) t n os (sg_state g)\<rparr>"
      "w' = w\<lparr>sw_file := Some \<lparr>sf_inode = sw_next w, sf_text = record_text c (sg_state g')\<rparr>, sw_next := sw_next w + 1\<rparr>"
proof (cases "verify_ownership c g w")
  case (Inl e) then show ?thesis using assms lost [of e] by (simp add: heartbeat_unfold)
next
  case (Inr u)
  then have v: "verify_ownership c g w = Inr ()" by simp
  let ?s = "beat_state (sw_clock w) t n os (sg_state g)"
  have r: "r = fst (rename_over c ?s w)" "g' = g\<lparr>sg_state := ?s\<rparr>" "w' = snd (rename_over c ?s w)"
    using assms by (simp_all add: heartbeat_unfold v Let_def split_def)
  consider e where "rename_over c ?s w = (Inl (Write_Failed State_File e), w)"
    | "rename_over c ?s w = (Inr (), w\<lparr>sw_file := Some \<lparr>sf_inode = sw_next w, sf_text = record_text c ?s\<rparr>, sw_next := sw_next w + 1\<rparr>)"
    unfolding rename_over_def by (cases "fa_write (sw_faults w)"; cases "fa_rename (sw_faults w)") simp_all
  then show ?thesis using r v failed wrote by cases simp_all
qed

lemma acquire_predecessor:
  assumes "acquire c s w = (Inr g, w')"
  shows "sg_state g = s" and "sg_predecessor g = map_option fst (stale_or_running c w)"
proof -
  have c: "create_record c s pred v = (Inr g, w') \<Longrightarrow> g = \<lparr>sg_state = s, sg_predecessor = pred\<rparr>" for pred v
    by (auto simp: create_record_def write_record_def split: sum.splits prod.splits option.splits if_splits)
  show "sg_state g = s" "sg_predecessor g = map_option fst (stale_or_running c w)"
    using assms by (auto simp: acquire_unfold look_def dest!: c split: option.splits sighting.splits if_splits)
qed

text \<open>What an owner of its file publishes is what a reader sees.\<close>

lemma heartbeat_published:
  assumes "codec_ok c" "heartbeat c t n os g w = (Inr (), g', w')"
  shows "\<exists>s'. cd_parse c (sf_text (the (sw_file w'))) = Some s' \<and> agrees s' (sg_state g') \<and> sw_file w' \<noteq> None
    \<and> sg_state g' = beat_state (sw_clock w) t n os (sg_state g)"
  using assms(2)
proof (cases rule: heartbeat_cases)
  case wrote
  obtain s' where "cd_parse c (record_text c (sg_state g')) = Some s'" "agrees s' (sg_state g')"
    using assms(1) by (rule codec_okE)
  then show ?thesis using wrote by simp
qed simp_all

subsection \<open>Processes beside an owner\<close>

text \<open>What a process is in the middle of, and one call on the file. A claim, a heartbeat and the removal by a
  dropped guard are several calls; between any two of them the other processes go on.\<close>

datatype activity = Resting | Claiming service_state claim_phase | Renaming service_state | Removing

record processes =
  pr_world :: service_world
  pr_guard :: "nat \<Rightarrow> service_guard option"
  pr_doing :: "nat \<Rightarrow> activity"

definition claim_result :: "service_state \<Rightarrow> (service_error + service_guard) + claim_phase \<Rightarrow> nat \<Rightarrow> processes \<Rightarrow> processes" where
  "claim_result s out q x = (case out of
     Inr ph \<Rightarrow> x\<lparr>pr_doing := (pr_doing x)(q := Claiming s ph)\<rparr>
   | Inl (Inl _) \<Rightarrow> x\<lparr>pr_doing := (pr_doing x)(q := Resting)\<rparr>
   | Inl (Inr g) \<Rightarrow> x\<lparr>pr_doing := (pr_doing x)(q := Resting), pr_guard := (pr_guard x)(q := Some g)\<rparr>)"

inductive file_call :: "codec \<Rightarrow> nat \<Rightarrow> processes \<Rightarrow> processes \<Rightarrow> bool" for c q x where
  looks: "pr_doing x q = Resting \<Longrightarrow> ss_pid s = q
    \<Longrightarrow> file_call c q x (x\<lparr>pr_doing := (pr_doing x)(q := Claiming s (Looked (read_state c (pr_world x))))\<rparr>)"
| claims: "pr_doing x q = Claiming s ph \<Longrightarrow> claim_step c s ph (pr_world x) = (out, w)
    \<Longrightarrow> file_call c q x (claim_result s out q (x\<lparr>pr_world := w\<rparr>))"
| stamps: "pr_doing x q = Resting \<Longrightarrow> pr_guard x q = Some g \<Longrightarrow> stamp_beat c t n os (set_taken tk g) (pr_world x) = Inr s
    \<Longrightarrow> file_call c q x (x\<lparr>pr_doing := (pr_doing x)(q := Renaming s)\<rparr>)"
| renames: "pr_doing x q = Renaming s \<Longrightarrow> pr_guard x q = Some g \<Longrightarrow> rename_over c s (pr_world x) = (r, w)
    \<Longrightarrow> file_call c q x (x\<lparr>pr_world := w, pr_guard := (pr_guard x)(q := Some (g\<lparr>sg_state := s\<rparr>)),
          pr_doing := (pr_doing x)(q := Resting)\<rparr>)"
| wakes: "pr_doing x q = Resting \<Longrightarrow> pr_guard x q = Some g
    \<Longrightarrow> file_call c q x (x\<lparr>pr_guard := (pr_guard x)(q := Some (record_resume gap g))\<rparr>)"
| drops: "pr_doing x q = Resting \<Longrightarrow> pr_guard x q = Some g
    \<Longrightarrow> file_call c q x (x\<lparr>pr_guard := (pr_guard x)(q := None),
          pr_doing := (pr_doing x)(q := (if is_ok (verify_ownership c g (pr_world x)) then Removing else Resting))\<rparr>)"
| removes: "pr_doing x q = Removing
    \<Longrightarrow> file_call c q x (x\<lparr>pr_world := remove_file (pr_world x), pr_doing := (pr_doing x)(q := Resting)\<rparr>)"

text \<open>\<open>leased c p\<close>: what may happen while process \<open>p\<close> lives, keeps its guard and beats in time. Every other
  process may make any call, or die, at any moment; the file system may refuse anything but reading; and
  the clock may go on as long as the record in the file, the one \<open>p\<close> is about to rename over it, and what
  claimants have read and not judged yet stay fresh.\<close>

definition in_time :: "codec \<Rightarrow> nat \<Rightarrow> processes \<Rightarrow> int \<Rightarrow> bool" where
  "in_time c p x k \<longleftrightarrow> (\<forall>s. read_state c (pr_world x) = Some s \<longrightarrow> is_fresh s k)
     \<and> (\<forall>s. pr_doing x p = Renaming s \<longrightarrow> is_fresh s k)
     \<and> (\<forall>q s owner. pr_doing x q = Claiming s (Looked (Some owner)) \<longrightarrow> is_fresh owner k)"

inductive leased :: "codec \<Rightarrow> nat \<Rightarrow> processes \<Rightarrow> processes \<Rightarrow> bool" for c p x where
  begun: "leased c p x x"
| others: "leased c p x y \<Longrightarrow> q \<noteq> p \<Longrightarrow> file_call c q y z \<Longrightarrow> leased c p x z"
| beats: "leased c p x y \<Longrightarrow> file_call c p y z \<Longrightarrow> pr_guard z p \<noteq> None \<Longrightarrow> \<forall>s ph. pr_doing z p \<noteq> Claiming s ph
    \<Longrightarrow> leased c p x z"
| dies: "leased c p x y \<Longrightarrow> q \<noteq> p \<Longrightarrow> leased c p x (y\<lparr>pr_world := (pr_world y)\<lparr>sw_alive := (sw_alive (pr_world y))(q := b)\<rparr>,
    pr_guard := (pr_guard y)(q := None), pr_doing := (pr_doing y)(q := Resting)\<rparr>)"
| faults: "leased c p x y \<Longrightarrow> fa_read f = None \<Longrightarrow> leased c p x (y\<lparr>pr_world := (pr_world y)\<lparr>sw_faults := f\<rparr>\<rparr>)"
| time: "leased c p x y \<Longrightarrow> in_time c p y k \<Longrightarrow> leased c p x (y\<lparr>pr_world := (pr_world y)\<lparr>sw_clock := k\<rparr>\<rparr>)"

text \<open>The claim of \<open>p\<close> is in the file and fresh, each process beats for itself, and nobody else is in the
  middle of something that began before: a claim has read at most this very owner.\<close>

definition sane_interval :: "service_state \<Rightarrow> bool" where
  "sane_interval s \<longleftrightarrow> ss_heartbeat_interval_ms s \<le> 2 ^ 60"

definition owned_by :: "nat \<Rightarrow> int \<Rightarrow> service_state \<Rightarrow> bool" where
  "owned_by p k s \<longleftrightarrow> ss_pid s = p \<and> is_fresh s k"

definition harmless_beside :: "nat \<Rightarrow> int \<Rightarrow> activity \<Rightarrow> bool" where
  "harmless_beside p k a \<longleftrightarrow> a = Resting \<or> (\<exists>s owner. a = Claiming s (Looked (Some owner)) \<and> owned_by p k owner)"

definition holds_lease :: "codec \<Rightarrow> nat \<Rightarrow> processes \<Rightarrow> bool" where
  "holds_lease c p x \<longleftrightarrow> p \<noteq> 0 \<and> sw_alive (pr_world x) p \<and> fa_read (sw_faults (pr_world x)) = None
     \<and> (\<exists>s. read_state c (pr_world x) = Some s \<and> owned_by p (sw_clock (pr_world x)) s)
     \<and> (\<exists>g. pr_guard x p = Some g \<and> sane_interval (sg_state g))
     \<and> (\<forall>q g. pr_guard x q = Some g \<longrightarrow> ss_pid (sg_state g) = q)
     \<and> (pr_doing x p = Resting \<or> (\<exists>s. pr_doing x p = Renaming s \<and> owned_by p (sw_clock (pr_world x)) s \<and> sane_interval s))
     \<and> (\<forall>q. q \<noteq> p \<longrightarrow> harmless_beside p (sw_clock (pr_world x)) (pr_doing x q))"

lemma fresh_now: "sane_interval s \<Longrightarrow> is_fresh s (ss_heartbeat_at_ms s)"
proof -
  assume i: "sane_interval s"
  then have "max (ss_heartbeat_interval_ms s) 1 * 3 < 2 ^ 62" by (simp add: sane_interval_def)
  then show ?thesis
    by (simp add: is_fresh_def age_ms_def heartbeat_window_def HEARTBEAT_TOLERANCE_def sat_i64_def u64_max_def wrap_i64_id is_i64_def)
qed

lemma fresh_agrees: "agrees s' s \<Longrightarrow> is_fresh s' k = is_fresh s k"
  by (simp add: agrees_def is_fresh_def age_ms_def heartbeat_window_def)

lemma lease_parts:
  assumes "holds_lease c p x"
  obtains s g where "p \<noteq> 0" "sw_alive (pr_world x) p" "fa_read (sw_faults (pr_world x)) = None"
    "read_state c (pr_world x) = Some s" "ss_pid s = p" "is_fresh s (sw_clock (pr_world x))"
    "pr_guard x p = Some g" "ss_pid (sg_state g) = p" "sane_interval (sg_state g)"
  using assms by (auto simp: holds_lease_def owned_by_def)

text \<open>Another process's call: what it reads is the owner's fresh record, so it goes no further.\<close>

lemma other_call:
  assumes "file_call c q y z" "q \<noteq> p" "holds_lease c p y"
  shows "holds_lease c p z \<and> (\<forall>r. r \<noteq> p \<longrightarrow> pr_guard z r \<noteq> None \<longrightarrow> pr_guard y r \<noteq> None)"
proof -
  obtain rec where o: "p \<noteq> 0" "sw_alive (pr_world y) p" "read_state c (pr_world y) = Some rec" "ss_pid rec = p"
    "is_fresh rec (sw_clock (pr_world y))" using assms(3) by (rule lease_parts)
  have h: "harmless_beside p (sw_clock (pr_world y)) (pr_doing y q)" using assms(2,3) by (simp add: holds_lease_def)
  have strange: "ss_pid (sg_state g) = q" if "pr_guard y q = Some g" for g using assms(3) that by (simp add: holds_lease_def)
  have k: "holds_lease c p (y\<lparr>pr_guard := (pr_guard y)(q := g), pr_doing := (pr_doing y)(q := a)\<rparr>)"
    if "\<And>g'. g = Some g' \<Longrightarrow> ss_pid (sg_state g') = q" "harmless_beside p (sw_clock (pr_world y)) a" for g a
    using assms(2,3) that by (auto simp: holds_lease_def)
  from assms(1) show ?thesis
  proof cases
    case (looks s)
    have "harmless_beside p (sw_clock (pr_world y)) (Claiming s (Looked (read_state c (pr_world y))))"
      using o by (auto simp: harmless_beside_def owned_by_def)
    from k [OF strange this, of "pr_guard y q"] show ?thesis by (simp add: looks(1))
  next
    case (claims s ph out w)
    then obtain owner where "ph = Looked (Some owner)" "ss_pid owner = p" "is_fresh owner (sw_clock (pr_world y))"
      using h by (auto simp: harmless_beside_def owned_by_def)
    with claims(3) o(1,2) have "out = Inl (Inl (Already_Running owner (age_ms owner (sw_clock (pr_world y)))))" "w = pr_world y"
      by (auto simp: pid_plausible_def)
    then have "z = y\<lparr>pr_doing := (pr_doing y)(q := Resting)\<rparr>" by (simp add: claims(1) claim_result_def)
    with k [OF strange, of "pr_guard y q" Resting] show ?thesis by (simp add: harmless_beside_def)
  next
    case (stamps g t n os tk s)
    have "ss_pid (sg_state (set_taken tk g)) = q" using strange [OF stamps(3)] by (simp add: set_taken_def)
    then show ?thesis using stamps(4) o assms(2) by (simp add: stamp_beat_def verify_ownership_def)
  next
    case (renames s g r w) then show ?thesis using h by (simp add: harmless_beside_def)
  next
    case (wakes g gap)
    have "ss_pid (sg_state (record_resume gap g)) = q" using strange [OF wakes(3)] by (simp add: record_resume_def)
    moreover have "z = y\<lparr>pr_guard := (pr_guard y)(q := Some (record_resume gap g)), pr_doing := (pr_doing y)(q := Resting)\<rparr>"
      using wakes(1,2) by (cases y) (auto simp: fun_upd_idem)
    ultimately show ?thesis using k [of "Some (record_resume gap g)" Resting] wakes(3) by (simp add: harmless_beside_def)
  next
    case (drops g)
    have "\<not> is_ok (verify_ownership c g (pr_world y))" using strange [OF drops(3)] o assms(2) by (simp add: verify_ownership_def)
    then show ?thesis using k [of None Resting] by (simp add: drops(1) harmless_beside_def)
  next
    case removes then show ?thesis using h by (simp add: harmless_beside_def)
  qed
qed

text \<open>The owner's own call: a heartbeat, in two steps.\<close>

lemma own_call:
  assumes "codec_ok c" "file_call c p y z" "holds_lease c p y" "pr_guard z p \<noteq> None" "\<forall>s ph. pr_doing z p \<noteq> Claiming s ph"
  shows "holds_lease c p z \<and> (\<forall>r. r \<noteq> p \<longrightarrow> pr_guard z r = pr_guard y r)"
  using assms(2)
proof cases
  case (stamps g t n os tk s)
  have g: "ss_pid (sg_state g) = p" "sane_interval (sg_state g)" using assms(3) stamps(3) by (auto simp: holds_lease_def)
  have "s = beat_state (sw_clock (pr_world y)) t n os (sg_state (set_taken tk g))"
    using stamps(4) by (auto simp: stamp_beat_def split: sum.splits)
  then have "ss_pid s = p" "sane_interval s" "ss_heartbeat_at_ms s = sw_clock (pr_world y)"
    using g by (simp_all add: beat_state_def set_taken_def sane_interval_def)
  then have "owned_by p (sw_clock (pr_world y)) s" "sane_interval s" using fresh_now [of s] by (simp_all add: owned_by_def)
  then show ?thesis using assms(3) by (auto simp: stamps(1) holds_lease_def)
next
  case (renames s g r w)
  have s: "owned_by p (sw_clock (pr_world y)) s" "sane_interval s" using assms(3) renames(2) by (auto simp: holds_lease_def)
  consider "w = pr_world y" | "w = (pr_world y)\<lparr>sw_file := Some \<lparr>sf_inode = sw_next (pr_world y), sf_text = record_text c s\<rparr>,
      sw_next := sw_next (pr_world y) + 1\<rparr>"
    using renames(4) by (auto simp: rename_over_def split: option.splits)
  then show ?thesis
  proof cases
    case 1 then show ?thesis using assms(3) s by (auto simp: renames(1) holds_lease_def owned_by_def)
  next
    case 2
    obtain s' where p: "cd_parse c (record_text c s) = Some s'" "agrees s' s" using assms(1) by (rule codec_okE)
    have "read_state c w = Some s'" using assms(3) p(1) by (simp add: 2 read_state_def holds_lease_def)
    moreover have "owned_by p (sw_clock w) s'"
      using s(1) p(2) by (simp add: 2 owned_by_def fresh_agrees) (simp add: agrees_def)
    ultimately show ?thesis using assms(3) s by (auto simp: renames(1) holds_lease_def owned_by_def) (auto simp: 2)
  qed
next
  case (wakes g gap)
  then show ?thesis using assms(3) by (auto simp: holds_lease_def record_resume_def sane_interval_def)
qed (use assms(3-5) in \<open>auto simp: holds_lease_def\<close>)

lemma lease_kept:
  assumes "leased c p x y" "codec_ok c" "holds_lease c p x"
  shows "holds_lease c p y \<and> (\<forall>q. q \<noteq> p \<longrightarrow> pr_guard y q \<noteq> None \<longrightarrow> pr_guard x q \<noteq> None)"
  using assms(1)
proof induction
  case begun then show ?case using assms(3) by simp
next
  case (others y q z) then show ?case using other_call [of c q y z p] by blast
next
  case (beats y z) then show ?case using own_call [OF assms(2) beats(2)] by simp
next
  case (dies y q b)
  have "read_state c ((pr_world y)\<lparr>sw_alive := a\<rparr>) = read_state c (pr_world y)" for a by (rule read_cong) simp_all
  then show ?case using dies by (auto simp: holds_lease_def harmless_beside_def)
next
  case (faults y f)
  have "read_state c ((pr_world y)\<lparr>sw_faults := f\<rparr>) = read_state c (pr_world y)"
    using faults by (intro read_cong) (simp_all add: holds_lease_def)
  then show ?case using faults by (auto simp: holds_lease_def)
next
  case (time y k)
  have "read_state c ((pr_world y)\<lparr>sw_clock := k\<rparr>) = read_state c (pr_world y)" by (rule read_cong) simp_all
  then show ?case using time by (auto simp: holds_lease_def in_time_def owned_by_def harmless_beside_def)
qed

text \<open>C26. One writer at a time: a process holds the state file (its record is in it and fresh, every guard names
  its own process), has a heartbeat interval of at most \<open>2 ^ 60\<close> milliseconds, lives, keeps its guard,
  claims nothing itself and beats so that its record, in the file or on its way there, never goes stale;
  reading the file never fails; and when this begins no other process is in the middle of a call sequence,
  but for a claim that has read this owner's fresh record. Then, in every interleaving of single file calls, whatever the other processes do (claim, beat,
  drop a guard, die) and whenever writing, renaming or removing fails, no other claim succeeds, the file
  names this process as the running one and its own ownership check passes, as long as no claimant is held
  up between reading the record and judging it until what it read is stale.\<close>
theorem timely_owner_keeps_channels:
  assumes "codec_ok c" and "holds_lease c p x" and "leased c p x y"
  shows "(\<exists>s. service_running c (pr_world y) = Some s \<and> ss_pid s = p)
    \<and> (\<exists>g. pr_guard y p = Some g \<and> verify_ownership c g (pr_world y) = Inr ())
    \<and> (\<forall>q. q \<noteq> p \<and> pr_guard x q = None \<longrightarrow> pr_guard y q = None)"
proof -
  have h: "holds_lease c p y" "\<And>q. q \<noteq> p \<Longrightarrow> pr_guard y q \<noteq> None \<Longrightarrow> pr_guard x q \<noteq> None"
    using lease_kept [OF assms(3,1,2)] by auto
  from h(1) have "(\<exists>s. service_running c (pr_world y) = Some s \<and> ss_pid s = p)
    \<and> (\<exists>g. pr_guard y p = Some g \<and> verify_ownership c g (pr_world y) = Inr ())"
    by (rule lease_parts) (auto simp: service_running_def verify_ownership_def pid_plausible_def)
  with h(2) show ?thesis by blast
qed

subsection \<open>The service that lost its file\<close>

text \<open>C27. A service that lost its file stands down: when the file names another process, or is gone, the next
  heartbeat of the loop ends the run as lost, and neither it nor the guard's removal changes the
  file: the successor's record survives byte for byte.\<close>
theorem lost_service_stands_down:
  assumes "\<And>s. read_state c w = Some s \<Longrightarrow> ss_pid s \<noteq> ss_pid (sg_state (se_guard sv))"
  shows "\<exists>rel e. service_arm c max_ticks (Heartbeat_Tick wall process) sv w = (Inl (Lost rel, e), w)"
proof -
  have pid: "ss_pid (sg_state (set_taken tk (se_guard (note_gap wall process sv)))) = ss_pid (sg_state (se_guard sv))" for tk
    by (simp add: note_gap_def Let_def set_taken_def record_resume_def split: prod.split option.split)
  have lost: "\<exists>f. verify_ownership c g w = Inl (Ownership_Lost (ss_pid (sg_state g)) f)"
    if "ss_pid (sg_state g) = ss_pid (sg_state (se_guard sv))" for g
    using assms that by (auto simp: verify_ownership_def split: option.split)
  let ?n = "note_gap wall process sv"
  let ?g = "set_taken (rt_taken_controls (en_runtime (se_engine ?n))) (se_guard ?n)"
  obtain f where f: "verify_ownership c ?g w = Inl (Ownership_Lost (ss_pid (sg_state ?g)) f)" using lost [OF pid] by blast
  then have "drop_guard c ?g w = w" by (simp add: drop_guard_def)
  moreover have "beat c ?n w = (Inr True, ?n\<lparr>se_guard := ?g\<rparr>, w)"
    using f by (simp add: beat_def Let_def heartbeat_unfold)
  ultimately show ?thesis
    by (simp add: service_arm_def publish_beat_def finish_run_def split_def Let_def)
qed

end
