(* ===== verification/Service_System.thy ===== *)
theory Service_System
  imports System_Runtime Service_Correct
begin

section \<open>From one process to the next\<close>

text \<open>State file, runtime and fan channels together: what a process held when it died reaches the next
  one's adapter. A concrete codec and two processes to evaluate the theorems on are at the end.\<close>

text \<open>A session in operation: the system's adapter among others that take no control away, which is what every
  other adapter of the repository is, over files that change by themselves as they like.\<close>

definition in_operation :: "(system_adapter \<times> 'o) runtime \<Rightarrow> bool" where
  "in_operation rt \<longleftrightarrow> (\<exists>s w dir allow fs observed st t before after x k. dirs_ok fs \<and> no_nan (st_safety s)
     \<and> w = system_new dir allow fs observed st t \<and> distinct (map ad_id (session_adapters w before after))
     \<and> (\<forall>b \<in> set (before @ after). ad_taken_controls b = takes_nothing)
     \<and> operated session_change (session_runtime s w before after x k) rt)"

lemma in_operation_facts:
  fixes rt :: "(system_adapter \<times> 'o) runtime"
  assumes "in_operation rt"
  obtains w0 and before after :: "'o adapter list" where "sy_life (fst (rt_world rt))"
    "rt_adapters rt = session_adapters w0 before after" "\<forall>b \<in> set (before @ after). ad_taken_controls b = takes_nothing"
proof -
  obtain s w dir allow fs observed st t k and before after :: "'o adapter list" and x
    where o: "dirs_ok fs" "no_nan (st_safety s)"
    "w = system_new dir allow fs observed st t" "distinct (map ad_id (session_adapters w before after))"
    "\<forall>b \<in> set (before @ after). ad_taken_controls b = takes_nothing"
    "operated session_change (session_runtime s w before after x k) rt"
    using assms unfolding in_operation_def by blast
  from operated_life [OF o(1-4,6)] that o(5) show ?thesis by (simp add: under_control_def)
qed

lemma taken_of_system:
  assumes "rt_adapters rt = session_adapters w0 before after" "\<forall>b \<in> set (before @ after). ad_taken_controls b = takes_nothing"
  shows "rt_taken_controls rt = system_taken (fst (rt_world rt))"
proof -
  have "concat (map (\<lambda>a. ad_taken_controls a v) (map beside bs)) = []"
    if "\<forall>b \<in> set bs. ad_taken_controls b = takes_nothing" for bs :: "'a adapter list" and v :: "system_adapter \<times> 'a"
    using that by (induction bs) (simp_all add: parts takes_nothing_def)
  from this [of before "rt_world rt"] this [of after "rt_world rt"]
  have "concat (map (\<lambda>a. ad_taken_controls a (rt_world rt)) (map beside before)) = []"
    "concat (map (\<lambda>a. ad_taken_controls a (rt_world rt)) (map beside after)) = []" using assms(2) by auto
  then show ?thesis
    by (simp only: rt_taken_controls_def assms(1) session_adapters_def map_append concat_append)
      (simp add: parts system_adapter_of_def)
qed

text \<open>An adoption without problems is the adapter's adoption without problems.\<close>

lemma adopt_each_append:
  "adopt_each (as @ bs) taken v = (let (p1, v) = adopt_each as taken v; (p2, v) = adopt_each bs taken v in (p1 @ p2, v))"
  by (induction as arbitrary: v) (simp_all add: Let_def split_def)

lemma adopt_beside: "fst (snd (adopt_each (map beside bs) taken v)) = fst v"
  by (induction bs arbitrary: v) (simp_all add: Let_def split_def parts)

lemma adopt_session:
  assumes "adopt_each (session_adapters w0 before after) taken v = ([], v')"
  shows "system_adopt taken (fst v) = ([], fst v')"
proof -
  obtain p1 v1 where 1: "adopt_each (map beside before) taken v = (p1, v1)" using prod.exhaust by blast
  obtain p2 w2 where 2: "system_adopt taken (fst v1) = (p2, w2)" using prod.exhaust by blast
  obtain p3 v3 where 3: "adopt_each (map beside after) taken (w2, snd v1) = (p3, v3)" using prod.exhaust by blast
  have "p2 = []" "v' = v3"
    using assms by (auto simp: session_adapters_def adopt_each_append 1 3 parts system_adapter_of_def on_part_def 2 Let_def)
  then show ?thesis
    using 2 adopt_beside [of before taken v, unfolded 1] adopt_beside [of after taken "(w2, snd v1)", unfolded 3] by simp
qed

lemma adopt_through_runtime:
  assumes "rt_adapters rt = session_adapters w0 before after" "adopt_taken_controls taken rt = (rt', [])" "taken \<noteq> []"
  shows "system_adopt taken (fst (rt_world rt)) = ([], fst (rt_world rt'))"
proof -
  obtain ps w where e: "adopt_each (rt_adapters rt) taken (rt_world rt) = (ps, w)" using prod.exhaust by blast
  have w: "rt_world rt' = w" using assms(2,3) e by (auto simp: adopt_taken_controls_def Let_def)
  have "fold (unheld_problem (map tk_device_id (rt_taken_controls (rt\<lparr>rt_world := w\<rparr>)))) taken ps = []"
    using assms(2,3) e by (auto simp: adopt_taken_controls_def Let_def)
  then have "ps = []"
    using unheld_keeps [of ps "map tk_device_id (rt_taken_controls (rt\<lparr>rt_world := w\<rparr>))" taken] by simp
  then show ?thesis using adopt_session e w unfolding assms(1) by blast
qed

text \<open>C25. A crash is made good by the next process. What the service published with its last heartbeat is what the
  process that claims the file next is given, whatever else happened meanwhile, as long as the file is still
  that record and can be read, and no other process's call comes between those of the claim. When it
  adopts that without a problem, every channel the dead process held is held by the new one for the mode the dead one had on record for it; the channel is in the new one's scan,
  and where that scan found an ownership file, which can be read, the file says that mode again. Both
  processes, each under one safety policy (its numbers no NaN), run any other adapters beside the operating
  system's, under ids of their own and none that takes control away, over files that may change by
  themselves between two operations.\<close>
theorem crash_is_made_good:
  assumes "codec_ok c" and "in_operation (en_runtime (se_engine sv))" and "beat c sv w = (Inr False, sv', w1)"
    and "sw_file w2 = sw_file w1" "fa_read (sw_faults w2) = None" and "acquire c s w2 = (Inr g, w3)"
    and "in_operation rt" and "sg_predecessor g = Some p" and "adopt_taken_controls (ss_taken p) rt = (rt', [])"
    and "(i, m) \<in> set (sy_taken (fst (rt_world (en_runtime (se_engine sv)))))"
  shows "map_of (sy_taken (fst (rt_world rt'))) i = Some m \<and> (\<exists>f. hwmon_channel (fst (rt_world rt)) i = Some f \<and>
    (\<forall>q m0. fc_mode f = Some (q, m0) \<and> readable (sy_fs (fst (rt_world rt))) q \<longrightarrow> mode_at (sy_fs (fst (rt_world rt'))) q = m))"
proof -
  let ?a = "en_runtime (se_engine sv)"
  obtain t n os g1 where h: "heartbeat c t n os (set_taken (rt_taken_controls ?a) (se_guard sv)) w = (Inr (), g1, w1)"
    using assms(3) by (auto simp: beat_def Let_def split: prod.splits sum.splits service_error.splits)
  from heartbeat_published [OF assms(1) h]
  obtain s' where "cd_parse c (sf_text (the (sw_file w1))) = Some s'" "sw_file w1 \<noteq> None" "ss_taken s' = rt_taken_controls ?a"
    by (auto simp: agrees_def beat_state_def set_taken_def)
  then have "read_state c w2 = Some s'" using assms(4,5) by (auto simp: read_state_def)
  then have p: "ss_taken p = rt_taken_controls ?a"
    using acquire_predecessor(2) [OF assms(6)] assms(8) \<open>ss_taken s' = _\<close> by (simp add: stale_or_running_def)
  obtain wa ba ca where a: "sy_life (fst (rt_world ?a))" "rt_adapters ?a = session_adapters wa ba ca"
    "\<forall>b \<in> set (ba @ ca). ad_taken_controls b = takes_nothing" using assms(2) by (rule in_operation_facts)
  obtain wb bb cb where b: "sy_life (fst (rt_world rt))" "rt_adapters rt = session_adapters wb bb cb"
    using assms(7) by (rule in_operation_facts)
  have t: "ss_taken p = system_taken (fst (rt_world ?a))" using p taken_of_system [OF a(2,3)] by simp
  then have "ss_taken p \<noteq> []" using assms(10) by (auto simp: system_taken_def)
  from adopt_through_runtime [OF b(2) assms(9) this]
  show ?thesis using adopted_from [OF a(1) b(1) _ assms(10)] t by simp
qed

subsection \<open>A codec\<close>

definition put_nat :: "nat \<Rightarrow> string" where
  "put_nat n = replicate n (CHR ''1'') @ ''.''"

definition get_nat :: "string \<Rightarrow> nat \<times> string" where
  "get_nat s = (let k = length (takeWhile (\<lambda>c. c = CHR ''1'') s) in (k, drop (Suc k) s))"

lemma get_put_nat [simp]: "get_nat (put_nat n @ r) = (n, r)"
proof -
  have "takeWhile (\<lambda>c. c = CHR ''1'') (put_nat n @ r) = replicate n (CHR ''1'')"
    by (induction n) (simp_all add: put_nat_def)
  then show ?thesis by (simp add: get_nat_def put_nat_def)
qed

definition put_int :: "int \<Rightarrow> string" where
  "put_int i = put_nat (if 0 \<le> i then 0 else 1) @ put_nat (nat \<bar>i\<bar>)"

definition get_int :: "string \<Rightarrow> int \<times> string" where
  "get_int s = (let (sign, s) = get_nat s; (n, s) = get_nat s in (if sign = 0 then int n else - int n, s))"

lemma get_put_int [simp]: "get_int (put_int i @ r) = (i, r)"
  by (simp add: get_int_def put_int_def)

definition put_str :: "string \<Rightarrow> string" where
  "put_str s = put_nat (length s) @ s"

definition get_str :: "string \<Rightarrow> string \<times> string" where
  "get_str s = (let (n, s) = get_nat s in (take n s, drop n s))"

lemma get_put_str [simp]: "get_str (put_str s @ r) = (s, r)"
  by (simp add: get_str_def put_str_def)

definition put_entry :: "taken_control \<Rightarrow> string" where
  "put_entry t = put_str (tk_device_id t) @ put_str (tk_original_text t)
     @ (case tk_original t of None \<Rightarrow> put_nat 0 | Some v \<Rightarrow> put_nat 1 @ put_int v)"

definition get_entry :: "string \<Rightarrow> taken_control \<times> string" where
  "get_entry s = (let (i, s) = get_str s; (x, s) = get_str s; (k, s) = get_nat s;
     (v, s) = (if k = 0 then (None, s) else (let (v, s) = get_int s in (Some v, s)))
     in (\<lparr>tk_device_id = i, tk_original = v, tk_original_text = x\<rparr>, s))"

lemma get_put_entry [simp]: "get_entry (put_entry t @ r) = (t, r)"
  by (cases "tk_original t") (simp_all add: get_entry_def put_entry_def)

fun get_entries :: "nat \<Rightarrow> string \<Rightarrow> taken_control list \<times> string" where
  "get_entries 0 s = ([], s)"
| "get_entries (Suc n) s = (let (t, s) = get_entry s; (ts, s) = get_entries n s in (t # ts, s))"

lemma get_put_entries: "get_entries (length ts) (concat (map put_entry ts) @ r) = (ts, r)"
  by (induction ts) simp_all

definition plain_codec :: codec where
  "plain_codec = \<lparr>cd_print = (\<lambda>s. Some (put_nat (ss_pid s) @ put_int (ss_heartbeat_at_ms s)
       @ put_nat (ss_heartbeat_interval_ms s) @ put_nat (length (ss_taken s)) @ concat (map put_entry (ss_taken s)))),
     cd_parse = (\<lambda>s. if s = [] then None else
       (let (pid, s) = get_nat s; (hb, s) = get_int s; (interval, s) = get_nat s; (n, s) = get_nat s; (ts, s) = get_entries n s
        in Some ((claim hb pid [] 0 False False)\<lparr>ss_heartbeat_interval_ms := interval, ss_taken := ts\<rparr>)))\<rparr>"

lemma plain_codec_ok: "codec_ok plain_codec"
proof -
  have n: "put_nat k @ r \<noteq> []" for k r by (simp add: put_nat_def)
  show ?thesis
    using get_put_entries [where r = "[]"] n
    by (auto simp: codec_ok_def record_text_def plain_codec_def agrees_def claim_def)
qed

subsection \<open>Two processes\<close>

definition demo_world :: "service_state \<Rightarrow> service_world" where
  "demo_world s = \<lparr>sw_file = Some \<lparr>sf_inode = 0, sf_text = record_text plain_codec s\<rparr>, sw_next = 1,
     sw_faults = \<lparr>fa_read = None, fa_remove = None, fa_mkdir = None, fa_create = None, fa_write = None, fa_rename = None\<rparr>,
     sw_clock = 0, sw_alive = (\<lambda>q. q = 7)\<rparr>"

lemma demo_world_simps [simp]:
  "fa_read (sw_faults (demo_world s)) = None" "fa_remove (sw_faults (demo_world s)) = None"
  "fa_mkdir (sw_faults (demo_world s)) = None" "fa_create (sw_faults (demo_world s)) = None"
  "fa_write (sw_faults (demo_world s)) = None" "fa_rename (sw_faults (demo_world s)) = None"
  "sw_clock (demo_world s) = 0" "sw_alive (demo_world s) q = (q = 7)"
  "sw_file (demo_world s) = Some \<lparr>sf_inode = 0, sf_text = record_text plain_codec s\<rparr>"
  by (simp_all add: demo_world_def)

definition demo_claim :: service_state where
  "demo_claim = claim 0 7 ''0.1.0'' 1000 False False"

definition idle_disk :: disk where
  "idle_disk = \<lparr>dk_path = ''r'', dk_file = No_File, dk_write_error = None, dk_remove_error = None\<rparr>"

definition demo_guard :: service_guard where
  "demo_guard = \<lparr>sg_state = demo_claim, sg_predecessor = None\<rparr>"

lemma demo_world_read: "\<exists>s. read_state plain_codec (demo_world demo_claim) = Some s \<and> ss_pid s = 7 \<and> is_fresh s 0"
proof -
  obtain s where s: "cd_parse plain_codec (record_text plain_codec demo_claim) = Some s" "agrees s demo_claim"
    using plain_codec_ok by (rule codec_okE)
  have c: "ss_pid demo_claim = 7" "ss_heartbeat_at_ms demo_claim = 0" "sane_interval demo_claim"
    by (simp_all add: demo_claim_def claim_def sane_interval_def)
  have "read_state plain_codec (demo_world demo_claim) = Some s" by (simp add: read_state_def s(1))
  moreover have "ss_pid s = 7" using s(2) c(1) by (simp add: agrees_def)
  moreover have "is_fresh s 0" using fresh_now [OF c(3)] fresh_agrees [OF s(2)] c(2) by simp
  ultimately show ?thesis by blast
qed

definition demo_processes :: processes where
  "demo_processes = \<lparr>pr_world = demo_world demo_claim, pr_guard = Map.empty(7 \<mapsto> demo_guard), pr_doing = (\<lambda>_. Resting)\<rparr>"

lemma demo_holds_lease: "holds_lease plain_codec 7 demo_processes"
proof -
  have "sane_interval demo_claim" "ss_pid demo_claim = 7" by (simp_all add: demo_claim_def claim_def sane_interval_def)
  then show ?thesis
    using demo_world_read
    by (auto simp: holds_lease_def demo_processes_def owned_by_def demo_guard_def harmless_beside_def)
qed

text \<open>Another process reads the file, the owner beats in between, and the judgement comes after that.\<close>

theorem timely_owner_keeps_channels_witness:
  "\<exists>y z. file_call plain_codec 8 demo_processes y
     \<and> file_call plain_codec 7 y z \<and> pr_doing z 7 \<noteq> Resting
     \<and> service_running plain_codec (pr_world z) \<noteq> None \<and> pr_guard z 8 = None"
proof -
  let ?s = "claim 0 8 [] 1000 False False" and ?x = demo_processes
  let ?y = "?x\<lparr>pr_doing := (pr_doing ?x)(8 := Claiming ?s (Looked (read_state plain_codec (pr_world ?x))))\<rparr>"
  have y: "file_call plain_codec 8 ?x ?y"
    by (rule file_call.looks) (simp_all add: demo_processes_def claim_def)
  obtain s where st: "stamp_beat plain_codec 1 0 [] (set_taken [] demo_guard) (pr_world ?y) = Inr s"
    using demo_world_read
    by (auto simp: stamp_beat_def verify_ownership_def set_taken_def demo_guard_def demo_claim_def claim_def demo_processes_def)
  let ?z = "?y\<lparr>pr_doing := (pr_doing ?y)(7 := Renaming s)\<rparr>"
  have z: "file_call plain_codec 7 ?y ?z"
    by (rule file_call.stamps [OF _ _ st]) (simp_all add: demo_processes_def)
  have "leased plain_codec 7 ?x ?z"
    by (rule leased.beats [OF leased.others [OF leased.begun _ y] z]) (simp_all add: demo_processes_def)
  from timely_owner_keeps_channels [OF plain_codec_ok demo_holds_lease this]
  have "service_running plain_codec (pr_world ?z) \<noteq> None" "pr_guard ?z 8 = None" by (auto simp: demo_processes_def)
  with y z show ?thesis by (intro exI [of _ ?y] exI [of _ ?z]) simp
qed

theorem lost_service_stands_down_witness:
  "\<exists>rel e. service_arm plain_codec 0 (Heartbeat_Tick 5 5)
     \<lparr>se_engine = engine_new demo_started idle_disk, se_guard = demo_guard\<lparr>sg_state := demo_claim\<lparr>ss_pid := 8\<rparr>\<rparr>,
       se_wakeups = wakeup_new 1000, se_published = []\<rparr> (demo_world demo_claim)
     = (Inl (Lost rel, e), demo_world demo_claim)"
  by (rule lost_service_stands_down) (use demo_world_read in \<open>auto simp: demo_guard_def\<close>)

text \<open>The first process holds a channel, beats and dies; the second takes over an hour later.\<close>

definition demo_service :: "(system_adapter \<times> unit) service" where
  "demo_service = \<lparr>se_engine = engine_new demo_run idle_disk, se_guard = demo_guard, se_wakeups = wakeup_new 1000, se_published = []\<rparr>"

lemma demo_in_operation: "in_operation demo_started" "in_operation demo_run"
proof -
  have n: "no_nan (st_safety calm_settings)"
    using calm_sane unfolding sane_settings_def by (blast intro: sane_no_nan)
  have s: "operated session_change (session_runtime calm_settings demo_system [] [] () 0) demo_started"
    unfolding demo_started_def by (intro operated.started operated.idle)
  moreover from s have "operated session_change (session_runtime calm_settings demo_system [] [] () 0) demo_run"
    unfolding demo_run_def by (rule operated.adopted) (simp add: demo_held_def entry_ok_def is_i64_def)
  moreover have "in_operation rt" if "operated session_change (session_runtime calm_settings demo_system [] [] () 0) rt"
    for rt :: "(system_adapter \<times> unit) runtime"
    unfolding in_operation_def
    by (rule exI [of _ calm_settings], rule exI [of _ demo_system], rule exI [of _ "Some ''/h''"],
        rule exI [of _ "[''fan.system.nct_fan1'']"], rule exI [of _ demo_fs], rule exI [of _ "\<lambda>_. demo_view"],
        rule exI [of _ "\<lambda>_. None"], rule exI [of _ 0], rule exI [of _ "[]"], rule exI [of _ "[]"], rule exI [of _ "()"],
        rule exI [of _ 0])
      (use n demo_dirs demo_system_def that in \<open>simp add: session_adapters_def\<close>)
  ultimately show "in_operation demo_started" "in_operation demo_run" by blast+
qed

lemma demo_beat:
  "\<exists>sv' w1. beat plain_codec demo_service (demo_world demo_claim) = (Inr False, sv', w1)
     \<and> sw_faults w1 = sw_faults (demo_world demo_claim)
     \<and> (\<exists>s. read_state plain_codec w1 = Some s \<and> ss_taken s = rt_taken_controls demo_run)"
proof -
  let ?sv = "demo_service" and ?w = "demo_world demo_claim"
  let ?st = "engine_stats (se_engine ?sv)"
  obtain r g' w1 where h: "heartbeat plain_codec (at_ticks ?st) (at_rules ?st) (rule_outcomes (se_engine ?sv))
      (set_taken (rt_taken_controls demo_run) demo_guard) ?w = (r, g', w1)" by (metis prod_cases3)
  have v: "verify_ownership plain_codec (set_taken (rt_taken_controls demo_run) demo_guard) ?w = Inr ()"
    using demo_world_read by (auto simp: verify_ownership_def set_taken_def demo_guard_def demo_claim_def claim_def)
  have f: "sw_faults w1 = sw_faults ?w" "r = Inr ()"
    using h by (auto simp: heartbeat_unfold v Let_def rename_over_def split: prod.splits)
  from heartbeat_published [OF plain_codec_ok h [unfolded f(2)]] f(1)
  have "\<exists>s. read_state plain_codec w1 = Some s \<and> ss_taken s = rt_taken_controls demo_run"
    by (auto simp: read_state_def agrees_def beat_state_def set_taken_def)
  moreover have "\<exists>sv'. beat plain_codec ?sv ?w = (Inr False, sv', w1)"
    using h f(2) by (simp add: beat_def Let_def demo_service_def engine_new_def)
  ultimately show ?thesis using f(1) by blast
qed

lemma demo_taken: "rt_adapters rt = [at_system (system_adapter_of demo_system)]
    \<Longrightarrow> rt_taken_controls rt = system_taken (fst (rt_world rt))"
  by (simp add: rt_taken_controls_def parts system_adapter_of_def)

lemma demo_handed_over: "rt_taken_controls demo_run
    = [\<lparr>tk_device_id = ''fan.system.nct_fan1'', tk_original = Some 2, tk_original_text = describe_mode (Automatic 2)\<rparr>]"
proof -
  have "rt_adapters demo_run = [at_system (system_adapter_of demo_system)]"
    using demo_started(4) by (simp add: demo_run_def adopt_taken_controls_def Let_def split_def)
  from demo_taken [OF this] show ?thesis using demo_run_world by (auto simp: system_taken_def)
qed

lemma demo_adopted: "snd (adopt_taken_controls (rt_taken_controls demo_run) demo_started) = []"
proof -
  have r: "sy_allow (fst (rt_world demo_started)) = [''fan.system.nct_fan1'']"
    "hwmon_channel (fst (rt_world demo_started)) ''fan.system.nct_fan1'' = Some demo_channel"
    "sy_fs (fst (rt_world demo_started)) = demo_fs" "sy_taken (fst (rt_world demo_started)) = []"
    using demo_started(1) by (simp_all add: demo_ready_def)
  obtain fs where fs: "restore_control demo_channel (Some (Automatic 2)) demo_fs = (Inr (), fs)" using demo_run_world by blast
  have m: "from_restored 2 = Automatic 2" by (simp add: from_restored_def)
  let ?w = "(fst (rt_world demo_started))\<lparr>sy_taken := [(''fan.system.nct_fan1'', Automatic 2)], sy_fs := fs\<rparr>"
  have "system_adopt (rt_taken_controls demo_run) (fst (rt_world demo_started)) = ([], ?w)"
    by (simp add: demo_handed_over system_adopt_def adopt_entry_def Let_def r m fs taken_put_def)
  moreover have "rt_taken_controls (demo_started\<lparr>rt_world := (?w, x)\<rparr>) = system_taken ?w" for x
    using demo_taken [of "demo_started\<lparr>rt_world := (?w, x)\<rparr>"] demo_started(4) by simp
  ultimately show ?thesis
    using demo_started(4)
    by (simp add: adopt_taken_controls_def parts on_part_def system_adapter_of_def unheld_problem_def system_taken_def demo_handed_over)
qed

theorem crash_is_made_good_witness:
  "\<exists>sv' w1 g w3 p. beat plain_codec demo_service (demo_world demo_claim) = (Inr False, sv', w1)
     \<and> acquire plain_codec (claim 3600000 8 [] 1000 False False) (w1\<lparr>sw_clock := 3600000, sw_alive := (\<lambda>q. False)\<rparr>) = (Inr g, w3)
     \<and> sg_predecessor g = Some p
     \<and> mode_at (sy_fs (fst (rt_world (fst (adopt_taken_controls (ss_taken p) demo_started))))) ''/h/hwmon0/pwm1_enable'' = Automatic 2"
proof -
  obtain sv' w1 s where b: "beat plain_codec demo_service (demo_world demo_claim) = (Inr False, sv', w1)"
    and f: "sw_faults w1 = sw_faults (demo_world demo_claim)"
    and s: "read_state plain_codec w1 = Some s" "ss_taken s = rt_taken_controls demo_run" using demo_beat by blast
  let ?w2 = "w1\<lparr>sw_clock := 3600000, sw_alive := (\<lambda>q. False)\<rparr>"
  let ?c = "claim 3600000 8 [] 1000 False False"
  have rd: "read_state plain_codec ?w2 = Some s" using s(1) read_cong [of ?w2 w1] by simp
  then have st: "stale_or_running plain_codec ?w2 = Some (s, False)" by (simp add: stale_or_running_def pid_plausible_def)
  have ff: "fa_read (sw_faults ?w2) = None" using f by simp
  obtain g w3 where a: "acquire plain_codec ?c ?w2 = (Inr g, w3)"
    using f by (auto simp: acquire_unfold look_def st create_record_def open_exclusive_def write_record_def remove_file_def)
  have p: "sg_predecessor g = Some s" using acquire_predecessor(2) [OF a] st by simp
  obtain rt' where ad: "adopt_taken_controls (ss_taken s) demo_started = (rt', [])"
    using demo_adopted s(2) by (metis prod.collapse)
  have e: "en_runtime (se_engine demo_service) = demo_run" by (simp add: demo_service_def engine_new_def)
  have "(''fan.system.nct_fan1'', Automatic 2) \<in> set (sy_taken (fst (rt_world demo_run)))" using demo_run_world by auto
  then have "\<exists>f. hwmon_channel (fst (rt_world demo_started)) ''fan.system.nct_fan1'' = Some f \<and>
    (\<forall>q m0. fc_mode f = Some (q, m0) \<and> readable (sy_fs (fst (rt_world demo_started))) q \<longrightarrow> mode_at (sy_fs (fst (rt_world rt'))) q = Automatic 2)"
    using crash_is_made_good [OF plain_codec_ok _ b _ ff a demo_in_operation(1) p ad] demo_in_operation(2) by (simp add: e)
  moreover have "hwmon_channel (fst (rt_world demo_started)) ''fan.system.nct_fan1'' = Some demo_channel" "sy_fs (fst (rt_world demo_started)) = demo_fs"
    using demo_started(1) by (simp_all add: demo_ready_def)
  moreover have "readable demo_fs ''/h/hwmon0/pwm1_enable''" by (simp add: readable_def demo_fs_def demo_file_def)
  ultimately have "mode_at (sy_fs (fst (rt_world rt'))) ''/h/hwmon0/pwm1_enable'' = Automatic 2" by (auto simp: demo_channel_def)
  with b a p ad show ?thesis by auto
qed

end
