(* ===== verification/Service_Faults.thy ===== *)
theory Service_Faults
  imports Service_Correct
begin

section \<open>What the state file does not guarantee\<close>

text \<open>Behaviours of the model that the comments of \<open>service.rs\<close> and \<open>main.rs\<close> exclude.\<close>

definition no_faults :: io_faults where
  "no_faults = \<lparr>fa_read = None, fa_remove = None, fa_mkdir = None, fa_create = None, fa_write = None, fa_rename = None\<rparr>"

lemmas claim_simps = look_def stale_or_running_def create_record_def open_exclusive_def write_record_def
  remove_file_def no_faults_def read_state_def

subsection \<open>Claims that interleave\<close>

text \<open>Two processes look at the same abandoned file before either removes it. The second one then removes
  the first one's new record, not the abandoned one, and both claims succeed.\<close>

lemma two_successors:
  assumes "sw_faults w = no_faults" "look c w = Abandoned dead"
    and "w1 = remove_file w" and "create_record c s1 (Some dead) w1 = (r1, w2)"
    and "w3 = remove_file w2" and "create_record c s2 (Some dead) w3 = (r2, w4)"
  shows "r1 = Inr \<lparr>sg_state = s1, sg_predecessor = Some dead\<rparr> \<and> r2 = Inr \<lparr>sg_state = s2, sg_predecessor = Some dead\<rparr>
    \<and> map_option sf_text (sw_file w4) = Some (record_text c s2)"
  using assms by (auto simp: claim_simps)

text \<open>A record is created empty and written afterwards. In between it looks like a damaged file, which a
  second process removes; the first one goes on writing to the file it opened, and both claims succeed.\<close>

lemma claimed_while_empty:
  assumes "sw_faults w = no_faults" "sw_file w = None" "cd_parse c [] = None"
    and "open_exclusive c w = (o1, w1)" and "acquire c s2 w1 = (r2, w2)"
  shows "\<exists>inode. o1 = Inr inode \<and> r2 = Inr \<lparr>sg_state = s2, sg_predecessor = None\<rparr>
    \<and> write_record c inode s1 None w2 = (Inr \<lparr>sg_state = s1, sg_predecessor = None\<rparr>, w2)"
  using assms by (auto simp: claim_simps acquire_unfold)

text \<open>A claim judges what it read earlier: when the record was fresh at the reading and is stale at the judgement,
  the claim goes on over whatever the file holds by then, a record the owner has just renewed too.\<close>

lemma judged_too_late:
  assumes "sw_faults w = no_faults" "\<not> is_fresh old (sw_clock w)"
  shows "fst (run_claim c s (Looked (Some old)) w) = Inr \<lparr>sg_state = s, sg_predecessor = Some old\<rparr>"
  using assms by (simp add: run_claim.simps [of c s "Looked x" for x] run_clear claim_simps)

text \<open>A heartbeat that asked whose file it is before a successor claimed it renames over the successor's record.\<close>

lemma heartbeat_overwrites_successor:
  assumes "stamp_beat c t n os g w = Inr s" "sw_faults w = no_faults" "\<not> is_fresh dead (sw_clock w)"
    and "run_claim c s2 (Looked (Some dead)) w = (r2, w2)" "rename_over c s w2 = (r, w3)"
  shows "r2 = Inr \<lparr>sg_state = s2, sg_predecessor = Some dead\<rparr> \<and> r = Inr () \<and> map_option sf_text (sw_file w3) = Some (record_text c s)"
  using assms by (auto simp: run_claim.simps [of c s2 "Looked x" for x] run_clear claim_simps rename_over_def)

subsection \<open>One claim\<close>

text \<open>A file that could not be read at this moment counts as damaged: a living owner is evicted.\<close>

lemma evicted_on_read_error:
  assumes "sw_faults w = no_faults\<lparr>fa_read := Some e\<rparr>" "sw_file w \<noteq> None"
  shows "fst (acquire c s w) = Inr \<lparr>sg_state = s, sg_predecessor = None\<rparr>"
  using assms by (simp add: claim_simps acquire_unfold)

text \<open>A claim replaces the predecessor's record by one that holds nothing: until the new owner's first
  heartbeat, what is owed to the channels stands nowhere, and a third process has nothing to adopt.\<close>

lemma crash_during_takeover_forgets:
  assumes "codec_ok c" "sw_faults w = no_faults" "look c w = Abandoned dead"
    and "acquire c (claim now pid v i m d) w = (Inr g, w')" and "acquire c s3 (w'\<lparr>sw_alive := (\<lambda>q. False)\<rparr>) = (Inr g3, w3)"
  shows "sg_predecessor g = Some dead \<and> (\<exists>p. sg_predecessor g3 = Some p \<and> ss_taken p = [])"
proof -
  obtain s' where s: "cd_parse c (record_text c (claim now pid v i m d)) = Some s'" "agrees s' (claim now pid v i m d)"
    using assms(1) by (rule codec_okE)
  have r: "stale_or_running c w = Some (dead, False)"
    using assms(3) by (auto simp: look_def split: option.splits if_splits)
  have "read_state c (w'\<lparr>sw_alive := (\<lambda>q. False)\<rparr>) = Some s'"
    using assms(2-4) s(1) by (auto simp: acquire_unfold claim_simps)
  then have "stale_or_running c (w'\<lparr>sw_alive := (\<lambda>q. False)\<rparr>) = Some (s', is_fresh s' (sw_clock w') \<and> False)"
    by (simp add: stale_or_running_def pid_plausible_def)
  then show ?thesis
    using acquire_predecessor(2) [OF assms(4)] acquire_predecessor(2) [OF assms(5)] r s(2)
    by (simp add: agrees_def claim_def)
qed

text \<open>Ownership is a pid and nothing else: a record that another run, or another container, wrote under the
  same number passes for one's own.\<close>

lemma same_pid_passes:
  "read_state c w = Some s \<Longrightarrow> ss_pid s = ss_pid (sg_state g) \<Longrightarrow> ss_started_at_ms s \<noteq> ss_started_at_ms (sg_state g)
     \<Longrightarrow> verify_ownership c g w = Inr ()"
  by (simp add: verify_ownership_def)

text \<open>A very long heartbeat interval makes the window negative: the owner looks abandoned at once.\<close>

lemma long_interval_never_fresh:
  "ss_heartbeat_interval_ms s = 2 ^ 62 \<Longrightarrow> \<not> is_fresh s (ss_heartbeat_at_ms s)"
  by (simp add: is_fresh_def age_ms_def heartbeat_window_def HEARTBEAT_TOLERANCE_def sat_i64_def wrap_i64_def u64_max_def)

subsection \<open>The ways out of the loop\<close>

text \<open>A heartbeat that cannot be written ends the run with an error and without the stop: the rules' last
  duties stay, the channels stay switched, and the record that names them is removed.\<close>

lemma heartbeat_error_skips_release:
  assumes "read_state c w = Some s" "ss_pid s = ss_pid (sg_state (se_guard sv))"
    and "fa_write (sw_faults w) = None" "fa_rename (sw_faults w) = Some e" "fa_remove (sw_faults w) = None"
  shows "service_arm c max_ticks (Heartbeat_Tick wall process) sv w
    = (Inl (Failed (Write_Failed State_File e), se_engine sv), w\<lparr>sw_file := None\<rparr>)"
proof -
  let ?n = "note_gap wall process sv"
  have n: "ss_pid (sg_state (se_guard ?n)) = ss_pid (sg_state (se_guard sv))" "se_engine ?n = se_engine sv"
    by (simp_all add: note_gap_def Let_def record_resume_def split: prod.split option.split)
  let ?g = "set_taken (rt_taken_controls (en_runtime (se_engine ?n))) (se_guard ?n)"
  have v: "verify_ownership c g w = Inr ()" if "ss_pid (sg_state g) = ss_pid (sg_state (se_guard sv))" for g
    using assms(1,2) that by (simp add: verify_ownership_def)
  have "drop_guard c g w = w\<lparr>sw_file := None\<rparr>" if "ss_pid (sg_state g) = ss_pid (sg_state (se_guard sv))" for g
    using v [OF that] assms(5) by (simp add: drop_guard_def remove_file_def)
  then show ?thesis
    using v assms(3,4) n
    by (simp add: service_arm_def publish_beat_def beat_def heartbeat_unfold Let_def set_taken_def rename_over_def beat_state_def
        fail_run_def)
qed

text \<open>A service that lost its channels does to them what a clean stop does: the fail-safe writes and the
  adapters' hand-back, on hardware that is already another process's.\<close>

lemma loser_writes_like_a_clean_stop:
  "finish_run c True sv w = (Inl (Lost rel, e), w') \<Longrightarrow> finish_run c False sv w = (Inl (Clean rel, e), w')"
  by (auto simp: finish_run_def Let_def split: prod.splits)

end
