(* ===== verification/System_Faults.thy ===== *)
theory System_Faults
  imports System_Runtime
begin

section \<open>Where the fan channels fall short of their documentation\<close>

text \<open>Each lemma is a behaviour of the model that the comments in the source, or the plain purpose of the
  function, exclude.\<close>

subsection \<open>Ownership\<close>

text \<open>A scan that cannot read the ownership file records that there is none, \<dots>\<close>

lemma unreadable_mode_dropped:
  "scan_channel fs chip dir n = Some f
     \<Longrightarrow> read_to_string fs (path_join dir (''pwm'' @ dec_nat n @ ''_enable'')) = Inl e \<Longrightarrow> fc_mode f = None"
  by (auto simp: scan_channel_def Let_def split: if_splits)

text \<open>\<dots> and a channel without an ownership file is driven: nothing is taken, nothing refused.\<close>

lemma driven_without_owner:
  assumes "fc_mode f = None" "pwm_writable w (dev_id d)" "is_fan_id (dev_id d)" "hwmon_channel w (dev_id d) = Some f"
    and "cap_id cap = FAN_SPEED_PERCENT" "as_f64 v = Some x"
  shows "system_write d cap v w = drive_channel (dev_id d) f x w"
  using assms by (simp add: system_write_def take_control_def)

text \<open>A failed duty write forgets the channel it had taken even when it cannot be put back: the
  ownership file still says manual and nobody owes its mode any more.\<close>

lemma undo_forgets:
  assumes "map_of (sy_taken w) i = Some m" "sorted_keys fst (sy_taken w)" "set_pwm f x (sy_fs w) = (Inl e, fs)"
    and "restore_control f (Some m) fs = (Inl msg, fs')"
  shows "map_of (sy_taken (snd (drive_channel i f x w))) i = None \<and> fs_files (sy_fs (snd (drive_channel i f x w))) = fs_files fs"
proof -
  have "fs_files fs' = fs_files fs"
    using assms(4) by (auto simp: restore_control_def write_file_def Let_def split: option.splits prod.splits sum.splits if_splits)
  moreover have "map_of (remove_key fst i (sy_taken w)) i = None"
    by (auto simp: remove_key_def map_of_eq_None_iff)
  ultimately show ?thesis
    using assms by (cases e) (simp add: drive_channel_def undo_take_def)
qed

text \<open>A rescan that no longer sees the ownership file turns the hand-back into a success that wrote nothing.\<close>

lemma shutdown_success_without_writing:
  assumes "sy_taken w = [(i, m)]" "hwmon_channel w i = Some f" "fc_mode f = None"
  shows "system_shutdown w = (Inr (), w\<lparr>sy_taken := []\<rparr>)"
  using assms by (simp add: system_shutdown_def Let_def give_back_def restore_control_def)

text \<open>A shutdown that failed is reported once; asked again, the adapter has forgotten and says all is well.\<close>

lemma shutdown_not_retried:
  assumes "system_shutdown w = (Inl e, w')" shows "system_shutdown w' = (Inr (), w')"
proof -
  have t: "sy_taken w' = []" using taken_shutdown [of w] assms by simp
  then have "w'\<lparr>sy_taken := []\<rparr> = w'" by simp
  then show ?thesis by (simp add: system_shutdown_def Let_def t)
qed

subsection \<open>Identities\<close>

text \<open>Two chips of one name share their channels' ids: only the first can be reached, read or written.\<close>

lemma same_name_same_id:
  "fc_chip f = fc_chip g \<Longrightarrow> fc_channel f = fc_channel g \<Longrightarrow> channel_device_id f = channel_device_id g"
  by (simp add: channel_device_id_def)

lemma second_chip_unreachable:
  assumes "ht_chips t = [c1, c2]" "hc_fans c1 = [f]" "hc_fans c2 = [g]"
    and "fc_chip f = fc_chip g" "fc_channel f = fc_channel g"
  shows "channel_by_device_id t (channel_device_id g) = Some f"
  using assms same_name_same_id [of f g] by (simp add: channel_by_device_id_def channels_def)

text \<open>A drive is numbered among the drives that were kept and read by its place among all of them: behind a
  removable volume, a drive shows the free space of the removable one.\<close>

lemma drive_reads_removable:
  assumes "ov_disks v = [r, k]" "dk_removable r" "\<not> dk_removable k"
  shows "disk_devices [] 0 (ov_disks v) = [disk_device 0 k]
    \<and> disk_readings st v 0 = disk_readings st (v\<lparr>ov_disks := [r]\<rparr>) 0"
  using assms by (simp add: disk_readings_def)

lemma vendor_by_substring: "vendor_from_brand ''Hygon C86 7185 32-core Processor'' = ''Intel''"
  by code_simp

end
