(* ===== verification/Engine_Correct.thy ===== *)
theory Engine_Correct
  imports Engine
begin

section \<open>The engine: what its operations guarantee\<close>

text \<open>
  One writer per channel and tick, at most one enabled rule per output, no panic on
  well-formed rules, and no control responsibility lost: not by a tick, a rule edit, a deletion,
  or a restart.
\<close>

subsection \<open>What each step leaves alone\<close>

text \<open>Only announcements: hardware, audit and configuration of the runtime are as before.\<close>

definition quiet :: "'w engine \<Rightarrow> 'w engine \<Rightarrow> bool" where
  "quiet e e' \<longleftrightarrow> same_config (en_runtime e) (en_runtime e')
     \<and> rt_world (en_runtime e') = rt_world (en_runtime e)
     \<and> rt_audit (en_runtime e') = rt_audit (en_runtime e)"

lemma quiet_refl [simp]: "quiet e e"
  by (simp add: quiet_def)

lemma quiet_trans: "quiet a b \<Longrightarrow> quiet b c \<Longrightarrow> quiet a c"
  by (auto simp: quiet_def intro: same_config_trans)

lemma quiet_simps [simp]:
  "quiet e (announce i k m e') = quiet e e'" "quiet e (en_log l m e') = quiet e e'"
  "quiet e (on_book f e') = quiet e e'" "quiet e (remember j st e') = quiet e e'"
  "quiet e (e'\<lparr>en_states := x1\<rparr>) = quiet e e'" "quiet e (e'\<lparr>en_handovers := x2\<rparr>) = quiet e e'"
  "quiet e (e'\<lparr>en_dirty := x3\<rparr>) = quiet e e'" "quiet e (e'\<lparr>en_disk := x4\<rparr>) = quiet e e'"
  "quiet e (e'\<lparr>en_persistence_error := x5\<rparr>) = quiet e e'" "quiet e (e'\<lparr>en_rules := x6\<rparr>) = quiet e e'"
  "quiet e (e'\<lparr>en_ticks := x7\<rparr>) = quiet e e'" "quiet e (e'\<lparr>en_last_tick_ms := x8\<rparr>) = quiet e e'"
  "quiet e (e'\<lparr>en_conflicts := x9\<rparr>) = quiet e e'"
  by (simp_all add: quiet_def announce_def en_log_def on_runtime_def publish_automation_def rt_log_def
      on_book_def remember_def)

lemma quiet_persist [simp]: "quiet e (fst (persist_control_state e')) = quiet e e'"
  by (auto simp: persist_control_state_def Let_def split: prod.split sum.split option.split)

lemma quiet_flush [simp]: "quiet e (flush_control_state e') = quiet e e'"
  by (simp add: flush_control_state_def)

lemma quiet_commit [simp]: "quiet e (commit_hold r st e') = quiet e e'"
  by (simp add: commit_hold_def)

text \<open>The rules, the memory and the book under announcements and persistence.\<close>

lemma announce_fields [simp]:
  "en_rules (announce i k m e) = en_rules e" "en_states (announce i k m e) = en_states e"
  "en_handovers (announce i k m e) = en_handovers e" "en_dirty (announce i k m e) = en_dirty e"
  "en_disk (announce i k m e) = en_disk e" "en_ticks (announce i k m e) = en_ticks e"
  "en_rules (en_log l m e) = en_rules e" "en_states (en_log l m e) = en_states e"
  "en_handovers (en_log l m e) = en_handovers e" "en_dirty (en_log l m e) = en_dirty e"
  "en_disk (en_log l m e) = en_disk e" "en_ticks (en_log l m e) = en_ticks e"
  by (simp_all add: announce_def en_log_def on_runtime_def)

lemma persist_fields [simp]:
  "en_rules (fst (persist_control_state e)) = en_rules e"
  "en_states (fst (persist_control_state e)) = en_states e"
  "en_handovers (fst (persist_control_state e)) = en_handovers e"
  "en_ticks (fst (persist_control_state e)) = en_ticks e"
  by (auto simp: persist_control_state_def Let_def split: prod.split sum.split option.split)

lemma flush_fields [simp]:
  "en_rules (flush_control_state e) = en_rules e" "en_states (flush_control_state e) = en_states e"
  "en_handovers (flush_control_state e) = en_handovers e" "en_ticks (flush_control_state e) = en_ticks e"
  by (simp_all add: flush_control_state_def)

lemma commit_fields [simp]:
  "en_rules (commit_hold r st e) = en_rules e" "en_handovers (commit_hold r st e) = en_handovers e"
  "en_states (commit_hold r st e) = states_put (rl_id r) st (en_states e)"
  by (simp_all add: commit_hold_def remember_def)

subsection \<open>Writes and the audit\<close>

text \<open>The channels written on a rule's behalf, in order.\<close>

fun automation_channel :: "audit_entry \<Rightarrow> (string \<times> string) option" where
  "automation_channel (Audit_Write rep) = (case wr_origin rep of
     Automation _ \<Rightarrow> Some (wr_device_id rep, wr_capability rep) | _ \<Rightarrow> None)"
| "automation_channel (Audit_Lifecycle _ _) = None"

definition automation_writes :: "audit_entry list \<Rightarrow> (string \<times> string) list" where
  "automation_writes = List.map_filter automation_channel"

lemma automation_writes_simps [simp]:
  "automation_writes [] = []"
  "automation_writes (a # as) = (case automation_channel a of Some x \<Rightarrow> [x] | None \<Rightarrow> []) @ automation_writes as"
  "automation_writes (as @ bs) = automation_writes as @ automation_writes bs"
  by (simp_all add: automation_writes_def List.map_filter_def split: option.split)

text \<open>From \<open>e\<close> to \<open>e'\<close> rules wrote exactly the channels \<open>A\<close>.\<close>

definition drives :: "(string \<times> string) list \<Rightarrow> 'w engine \<Rightarrow> 'w engine \<Rightarrow> bool" where
  "drives A e e' \<longleftrightarrow> same_config (en_runtime e) (en_runtime e')
     \<and> (\<exists>new. rt_audit (en_runtime e') = rt_audit (en_runtime e) @ new \<and> automation_writes new = A)"

lemma drives_quiet: "quiet e e' \<Longrightarrow> drives [] e e'"
  by (simp add: quiet_def drives_def)

lemma drives_refl [simp]: "drives [] e e"
  by (simp add: drives_quiet)

lemma drives_trans: "drives A a b \<Longrightarrow> drives B b c \<Longrightarrow> drives (A @ B) a c"
  by (auto simp: drives_def intro: same_config_trans)

lemma drives_then_quiet: "quiet b c \<Longrightarrow> drives A a b \<Longrightarrow> drives A a c"
  using drives_trans [of A a b "[]" c] drives_quiet by fastforce

lemma drives_simps [simp]:
  "drives A e (announce i k m e') = drives A e e'" "drives A e (en_log l m e') = drives A e e'"
  "drives A e (on_book f e') = drives A e e'" "drives A e (remember j st e') = drives A e e'"
  "drives A e (e'\<lparr>en_states := x1\<rparr>) = drives A e e'" "drives A e (e'\<lparr>en_handovers := x2\<rparr>) = drives A e e'"
  "drives A e (e'\<lparr>en_dirty := x3\<rparr>) = drives A e e'"
  by (simp_all add: drives_def announce_def en_log_def on_runtime_def publish_automation_def rt_log_def
      on_book_def remember_def)

lemma drives_flush [simp]: "drives A e (flush_control_state e') = drives A e e'"
proof -
  have "quiet e' (flush_control_state e')" by simp
  then show ?thesis
    by (auto simp: quiet_def drives_def dest: same_config_trans) (simp add: same_config_def)
qed

lemma drives_commit [simp]: "drives A e (commit_hold r st e') = drives A e e'"
  by (simp add: commit_hold_def)

lemma resolve_ids: "rt_resolve rt d c = Inr (dev, cap) \<Longrightarrow> dev_id dev = d \<and> cap_id cap = c"
  using find_key_Some [where key = cap_id and k = c and v = cap]
  by (auto simp: rt_resolve_def resolve_def result_simps dev_capability_def dr_id_def dest!: table_get_id)

lemma attempt_new:
  assumes "write_attempt rt d c v org = (rt', res, lost)"
  obtains new where "rt_audit rt' = rt_audit rt @ new"
    and "automation_writes new = [] \<or> ((\<exists>r. org = Automation r) \<and> automation_writes new = [(d, c)])"
proof (cases "lookup_target rt d c")
  case (Inl e)
  with assms that [of "[]"] show thesis by (cases rule: write_attempt_cases) auto
next
  case (Inr t)
  then obtain en where en: "rt_audit rt' = rt_audit rt @ [en]" "audit_write_of d c v org en"
    using attempt_audits [OF assms] by blast
  from en(2) show thesis
    by (intro that [OF en(1)]) (cases org, auto simp: audit_write_of_def)
qed

lemma write_new:
  assumes "write_with_origin allow rt d c v org = (rt', res)"
  shows "\<exists>new. rt_audit rt' = rt_audit rt @ new \<and> (automation_writes new = []
    \<or> ((\<exists>r. org = Automation r) \<and> automation_writes new = [(d, c)]))"
proof -
  obtain rt1 lost where a: "write_attempt rt d c v org = (rt1, res, lost)"
    and r: "rt' = rt1 \<or> (\<exists>v' why. rt' = fst (write_attempt rt1 d c v' (SafetyOrigin why)))"
    using assms by (elim write_with_origin_split) blast
  obtain n1 where n1: "rt_audit rt1 = rt_audit rt @ n1"
    "automation_writes n1 = [] \<or> ((\<exists>r. org = Automation r) \<and> automation_writes n1 = [(d, c)])"
    using attempt_new [OF a] by blast
  have "\<exists>n2. rt_audit rt' = rt_audit rt1 @ n2 \<and> automation_writes n2 = []"
    using r
  proof
    assume "\<exists>v' why. rt' = fst (write_attempt rt1 d c v' (SafetyOrigin why))"
    then obtain v' why res2 lost2 where "write_attempt rt1 d c v' (SafetyOrigin why) = (rt', res2, lost2)"
      by (metis fst_conv prod_cases3)
    then show ?thesis by (rule attempt_new) auto
  qed simp
  then obtain n2 where "rt_audit rt' = rt_audit rt @ (n1 @ n2)" "automation_writes n2 = []"
    using n1(1) by auto
  with n1(2) show ?thesis by (intro exI [of _ "n1 @ n2"]) auto
qed

lemma write_drives:
  assumes "write_value (en_runtime e) d c v org = (rt, res)"
  shows "drives [] e (e\<lparr>en_runtime := rt\<rparr>) \<or> ((\<exists>r. org = Automation r) \<and> drives [(d, c)] e (e\<lparr>en_runtime := rt\<rparr>))"
  using write_new [OF assms [unfolded write_value_def]]
    write_with_origin_frame [of "en_runtime e" True d c v org] assms
  by (auto simp: drives_def write_value_def)

lemma safety_write_drives:
  assumes "write_value (en_runtime e) d c v (SafetyOrigin why) = (rt, res)"
  shows "drives [] e (e\<lparr>en_runtime := rt\<rparr>)"
  using write_drives [OF assms] by auto

subsection \<open>A tick writes each channel at most once\<close>

lemma unverifiable_quiet [simp]: "quiet e (unverifiable d c why e') = quiet e e'"
  by (simp add: unverifiable_def Let_def split: prod.split)

lemma verify_item_quiet [simp]: "quiet e (verify_item x e') = quiet e e'"
  by (cases x) (simp add: verify_item_def Let_def split: prod.split sum.split)

lemma fold_quiet: "(\<And>x a. quiet a (f x a)) \<Longrightarrow> quiet e (fold f xs e)"
  by (induction xs arbitrary: e) (auto intro: quiet_trans)

lemma verify_quiet: "quiet e (verify_recovered_state e)"
  by (simp add: verify_recovered_state_def Let_def fold_quiet)

lemma superseded_quiet [simp]: "quiet e (superseded_by h owner e') = quiet e e'"
  by (simp add: superseded_by_def Let_def split: prod.split)

lemma await_quiet [simp]: "quiet e (await_claimant h i e') = quiet e e'"
  by (simp add: await_claimant_def Let_def split: prod.split)

lemma attempt_handover_drives: "drives [] e (attempt_handover duty tick h e)"
proof -
  obtain rt res where w: "write_value (en_runtime e) (ho_device h) (ho_capability h) (Number duty)
      (SafetyOrigin (ho_reason h)) = (rt, res)" by fastforce
  show ?thesis
    using safety_write_drives [OF w]
    by (simp add: attempt_handover_def w Let_def split: prod.split option.split)
qed

lemma handover_fields [simp]:
  "en_rules (unverifiable d c why e) = en_rules e" "en_states (unverifiable d c why e) = en_states e"
  "en_rules (verify_item x e) = en_rules e" "en_states (verify_item x e) = en_states e"
  "en_rules (superseded_by h owner e) = en_rules e" "en_states (superseded_by h owner e) = en_states e"
  "en_rules (await_claimant h owner e) = en_rules e" "en_states (await_claimant h owner e) = en_states e"
  "en_rules (attempt_handover duty tick h e) = en_rules e" "en_states (attempt_handover duty tick h e) = en_states e"
  by (simp_all add: unverifiable_def verify_item_def superseded_by_def await_claimant_def attempt_handover_def
      on_book_def Let_def split: prod.split sum.split option.split)

lemma perform_fields [simp]:
  "en_rules (perform_handover duty tick h e) = en_rules e" "en_states (perform_handover duty tick h e) = en_states e"
  by (auto simp: perform_handover_def Let_def split: option.split prod.split)

lemma fold_fields:
  "(\<And>x a. en_rules (f x a) = en_rules a) \<Longrightarrow> en_rules (fold f xs e) = en_rules e"
  "(\<And>x a. en_states (f x a) = en_states a) \<Longrightarrow> en_states (fold f xs e) = en_states e"
  by (induction xs arbitrary: e) auto

lemma pending_fields [simp]:
  "en_rules (perform_pending_handovers tick e) = en_rules e"
  "en_states (perform_pending_handovers tick e) = en_states e"
  by (simp_all add: perform_pending_handovers_def verify_recovered_state_def Let_def fold_fields)

lemma perform_handover_drives: "drives [] e (perform_handover duty tick h e)"
proof -
  have 1: "drives [] e (attempt_handover duty tick h e')" if "drives [] e e'" for e'
    using drives_trans [OF that attempt_handover_drives] by simp
  show ?thesis
    by (auto simp: perform_handover_def Let_def drives_quiet intro!: 1 split: option.split prod.split)
qed

lemma pending_drives: "drives [] e (perform_pending_handovers tick e)"
proof -
  have f: "drives [] a (fold (perform_handover duty tick) hs a)" for duty hs and a :: "'a engine"
  proof (induction hs arbitrary: a)
    case (Cons h hs)
    from drives_trans [OF perform_handover_drives Cons] show ?case by simp
  qed simp
  show ?thesis
    using drives_trans [OF drives_quiet [OF verify_quiet] f]
      drives_trans [OF drives_quiet, of e "(verify_recovered_state e)\<lparr>en_dirty := True\<rparr>" "[]"] f verify_quiet [of e]
      drives_quiet [OF verify_quiet [of e]]
    by (simp add: perform_pending_handovers_def Let_def)
qed

text \<open>A step on behalf of the rule \<open>i\<close>: it writes the channels \<open>A\<close> and touches no other rule's memory.\<close>

definition acts :: "(string \<times> string) list \<Rightarrow> string \<Rightarrow> 'w engine \<Rightarrow> 'w engine \<Rightarrow> bool" where
  "acts A i e e' \<longleftrightarrow> drives A e e' \<and> en_rules e' = en_rules e \<and> en_handovers e' = en_handovers e
     \<and> en_ticks e' = en_ticks e
     \<and> (\<forall>j. j \<noteq> i \<longrightarrow> states_get (en_states e') j = states_get (en_states e) j)"

lemma states_get_put [simp]: "states_get (states_put i st s) j = (if j = i then Some st else states_get s j)"
  by (simp add: states_get_def states_put_def find_sorted_put)

lemma acts_refl [simp]: "acts [] i e e"
  by (simp add: acts_def)

lemma acts_trans: "acts A i a b \<Longrightarrow> acts B i b c \<Longrightarrow> acts (A @ B) i a c"
  by (auto simp: acts_def intro: drives_trans)

lemma acts_nil_trans: "acts A i a b \<Longrightarrow> acts [] i b c \<Longrightarrow> acts A i a c"
  using acts_trans [of A i a b "[]" c] by simp

lemma acts_simps [simp]:
  "acts A i e (announce j k m e') = acts A i e e'" "acts A i e (en_log l m e') = acts A i e e'"
  by (simp_all add: acts_def)

lemma acts_commit: "acts A (rl_id r) e e' \<Longrightarrow> acts A (rl_id r) e (commit_hold r st e')"
  by (simp add: acts_def) (simp add: commit_hold_def flush_control_state_def remember_def)

lemma acts_remember: "acts A i e e' \<Longrightarrow> acts A i e (remember i st e')"
  by (simp add: acts_def) (simp add: remember_def)

lemma acts_runtime: "drives A e (e\<lparr>en_runtime := rt\<rparr>) \<Longrightarrow> acts A i e (e\<lparr>en_runtime := rt\<rparr>)"
  by (simp add: acts_def)

lemma fall_back_acts: "fall_back_after r err d c (e, st) = (e', st') \<Longrightarrow> acts [] i e e'"
proof -
  assume f: "fall_back_after r err d c (e, st) = (e', st')"
  let ?safe = "sp_fail_safe_duty_percent (st_safety (rt_settings (en_runtime e)))"
  obtain rt res where w: "write_value (en_runtime e) (dev_id d) (cap_id c)
      (Number (or_default ?safe (fallback_duty (on_write_failure (rl_fallback r)) ?safe)))
      (SafetyOrigin [Txt ''automation rule '', Txt (rl_id r), Txt '' write failure'']) = (rt, res)" by fastforce
  from acts_runtime [OF safety_write_drives [OF w]] f show ?thesis
    by (auto simp: fall_back_after_def w Let_def split: sum.splits)
qed

lemma write_failure_acts:
  assumes "handle_write_failure r err d c now (e, st) = (e', st')"
  shows "acts [] (rl_id r) e e'"
proof -
  have 1: "acts [] (rl_id r) e x" if "fall_back_after r err d c (e1, s1) = (x, y)" "acts [] (rl_id r) e e1" for e1 s1 x y
    using acts_nil_trans [OF that(2) fall_back_acts [OF that(1)]] .
  show ?thesis
    using assms
    by (auto simp: handle_write_failure_def Let_def acts_commit elim!: 1 split: fallback_action.splits prod.splits)
qed

lemma confirmed_acts: "confirmed_output r ev rep d c now (e, st) = (e', st') \<Longrightarrow> acts [] i e e'"
  by (auto simp: confirmed_output_def Let_def)

lemma unconfirmed_acts:
  assumes "unconfirmed_output r ev rep d c out now (e, st) = (e', st')"
  shows "acts [] (rl_id r) e e'"
proof -
  have 1: "acts [] (rl_id r) e x" if "handle_write_failure r er d c now (e1, s1) = (x, y)" "acts [] (rl_id r) e e1" for er e1 s1 x y
    using acts_nil_trans [OF that(2) write_failure_acts [OF that(1)]] .
  show ?thesis
    using assms by (auto simp: unconfirmed_output_def Let_def acts_commit elim!: 1 split: if_splits)
qed

lemma write_output_acts:
  assumes "write_output r ev d c out now (e, st) = (e', st', wrote)"
  shows "acts [] (rl_id r) e e' \<or> acts [(dev_id d, cap_id c)] (rl_id r) e e'"
proof -
  obtain rt res where w: "write_value (en_runtime e) (dev_id d) (cap_id c) (Number out) (Automation (rl_id r)) = (rt, res)"
    by fastforce
  let ?e = "e\<lparr>en_runtime := rt\<rparr>"
  have "acts [] (rl_id r) ?e e'"
    using assms w
    by (auto simp: write_output_def Let_def split: sum.splits write_status.splits prod.splits
        intro: write_failure_acts confirmed_acts unconfirmed_acts)
  moreover have "acts [] (rl_id r) e ?e \<or> acts [(dev_id d, cap_id c)] (rl_id r) e ?e"
    using write_drives [OF w] acts_runtime by blast
  ultimately show ?thesis using acts_nil_trans by blast
qed

lemma close_run_acts: "close_run r ev wrote (e, st) = (e', st') \<Longrightarrow> acts [] i e e'"
  by (auto simp: close_run_def Let_def split: if_splits)

lemma run_rule_acts:
  assumes "run_rule r st now stale duty e = Some (e', out)"
  shows "acts [] (rl_id r) e e' \<or> acts [rule_channel r] (rl_id r) e e'"
proof (cases "rt_resolve (en_runtime e) (tg_device (rl_target r)) (tg_capability (rl_target r))")
  case (Inl err)
  with assms show ?thesis by (auto simp: run_rule_def Let_def acts_remember)
next
  case (Inr t)
  then obtain d c where t: "rt_resolve (en_runtime e) (tg_device (rl_target r)) (tg_capability (rl_target r)) = Inr (d, c)"
    by (cases t) auto
  then have ch: "(dev_id d, cap_id c) = rule_channel r" by (auto simp: rule_channel_def dest: resolve_ids)
  obtain st1 ev where ev: "evaluate r st (engine_input e r c now stale duty) = Some (st1, ev)"
    using assms by (auto simp: run_rule_def t split: option.splits)
  obtain e1 st2 wrote where w: "(case ev_output ev of
      Some out \<Rightarrow> if ev_should_write ev then write_output r ev d c out now (e, st1) else (e, st1, False)
    | None \<Rightarrow> (e, st1, False)) = (e1, st2, wrote)" by (metis prod_cases3)
  obtain e2 st3 where c: "close_run r ev wrote (e1, st2) = (e2, st3)" by fastforce
  have e': "e' = remember (rl_id r) st3 e2"
    using assms by (simp add: run_rule_def t ev w c Let_def)
  have "acts [] (rl_id r) e e1 \<or> acts [rule_channel r] (rl_id r) e e1"
    using w ch write_output_acts [of r ev d c _ now e st1 e1 st2 wrote]
    by (auto split: option.splits if_splits)
  with close_run_acts [OF c, of "rl_id r"] e' show ?thesis
    by (auto intro: acts_remember dest: acts_nil_trans)
qed

lemma stand_down_acts: "stand_down r now e = (e', out) \<Longrightarrow> acts [] (rl_id r) e e'"
  by (auto simp: stand_down_def Let_def acts_remember)

text \<open>A qualified id determines the channel's part of the claim: different ids, different channels.\<close>

definition channel_id :: "string \<times> string \<Rightarrow> string" where
  "channel_id dc = fst dc @ ''/'' @ snd dc"

lemma target_channel_id: "target_id (rl_target r) = channel_id (rule_channel r)"
  by (simp add: target_id_def channel_id_def rule_channel_def)

definition live_channels :: "rule list \<Rightarrow> (string \<times> string) set" where
  "live_channels rs = rule_channel ` {r \<in> set rs. rl_enabled r}"

lemma tick_rules_drives:
  assumes "tick_rules force now stale duty rs claimed e = Some (e', outs)"
  shows "\<exists>A. drives A e e' \<and> en_rules e' = en_rules e \<and> en_handovers e' = en_handovers e \<and> distinct A
    \<and> set A \<subseteq> live_channels rs \<and> channel_id ` set A \<inter> set claimed = {}"
  using assms
proof (induction rs arbitrary: claimed e outs)
  case Nil
  then show ?case by (intro exI [of _ "[]"]) simp
next
  case (Cons r rs)
  let ?t = "target_id (rl_target r)"
  have skip: ?case if "tick_rules force now stale duty rs cl e1 = Some (e', outs1)"
    "drives [] e e1" "en_rules e1 = en_rules e" "en_handovers e1 = en_handovers e" "set claimed \<subseteq> set cl" for e1 cl outs1
  proof -
    from Cons.IH [OF that(1)] obtain A where A: "drives A e1 e'" "en_rules e' = en_rules e1"
      "en_handovers e' = en_handovers e1" "distinct A" "set A \<subseteq> live_channels rs" "channel_id ` set A \<inter> set cl = {}"
      by blast
    with drives_trans [OF that(2) A(1)] that show ?case
      by (intro exI [of _ A]) (auto simp: live_channels_def)
  qed
  consider (off) "\<not> rl_enabled r" | (taken) "rl_enabled r" "?t \<in> set claimed" | (free) "rl_enabled r" "?t \<notin> set claimed"
    by blast
  then show ?case
  proof cases
    case off
    with Cons.prems skip [of claimed e outs] show ?thesis by simp
  next
    case taken
    obtain e1 out where s: "stand_down r now e = (e1, out)" by fastforce
    with taken Cons.prems obtain outs1 where "tick_rules force now stale duty rs claimed e1 = Some (e', outs1)"
      by (auto split: option.splits)
    with stand_down_acts [OF s] show ?thesis by (intro skip [of claimed e1 outs1]) (simp_all add: acts_def)
  next
    case free
    let ?st = "state_or_new (en_states e) (rl_id r)"
    let ?e = "remember (rl_id r) ?st e"
    have q: "acts [] (rl_id r) e ?e" by (simp add: acts_remember)
    show ?thesis
    proof (cases "\<not> force \<and> now < rs_next_due_ms ?st")
      case True
      with free Cons.prems q show ?thesis
        by (intro skip [of "claimed @ [?t]" ?e outs]) (auto simp: acts_def Let_def)
    next
      case False
      with free Cons.prems obtain e1 out outs1 where r: "run_rule r ?st now stale duty ?e = Some (e1, out)"
        and rest: "tick_rules force now stale duty rs (claimed @ [?t]) e1 = Some (e', outs1)"
        by (auto simp: Let_def split: option.splits if_splits)
      from run_rule_acts [OF r] q acts_trans have
        "acts [] (rl_id r) e e1 \<or> acts [rule_channel r] (rl_id r) e e1" by fastforce
      then show ?thesis
      proof
        assume "acts [] (rl_id r) e e1"
        with rest show ?thesis by (intro skip [of "claimed @ [?t]" e1 outs1]) (auto simp: acts_def)
      next
        assume a: "acts [rule_channel r] (rl_id r) e e1"
        from Cons.IH [OF rest] obtain A where A: "drives A e1 e'" "en_rules e' = en_rules e1"
          "en_handovers e' = en_handovers e1" "distinct A" "set A \<subseteq> live_channels rs"
          "channel_id ` set A \<inter> set (claimed @ [?t]) = {}" by blast
        then have "rule_channel r \<notin> set A" by (auto simp: target_channel_id)
        with A a free drives_trans [of "[rule_channel r]" e e1 A e'] show ?thesis
          by (intro exI [of _ "rule_channel r # A"]) (auto simp: acts_def live_channels_def target_channel_id)
      qed
    qed
  qed
qed

lemma bump_drives: "drives A (e\<lparr>en_ticks := t, en_last_tick_ms := n\<rparr>) e' = drives A e e'"
  by (simp add: drives_def)

text \<open>C1. One output, one writer: in one tick no channel is written twice on behalf of a rule, whatever
  rules are active, and only channels of enabled rules are; failing writes, retries and
  handovers write under the safety origin and are counted apart.\<close>
theorem one_writer_per_tick:
  assumes "tick_inner force e = Some (e', outs)"
  shows "\<exists>new. rt_audit (en_runtime e') = rt_audit (en_runtime e) @ new \<and> distinct (automation_writes new)
    \<and> set (automation_writes new) \<subseteq> live_channels (en_rules e)"
proof -
  let ?e = "e\<lparr>en_ticks := bump (en_ticks e), en_last_tick_ms := en_now e\<rparr>"
  let ?p = "perform_pending_handovers (en_ticks e) ?e"
  show ?thesis
  proof (cases "st_automation_enabled (rt_settings (en_runtime e))")
    case False
    with assms have "e' = ?e" by (simp add: tick_inner_def Let_def)
    then show ?thesis by (intro exI [of _ "[]"]) simp
  next
    case True
    with assms obtain e1 where t: "tick_rules force (en_now e) (rt_is_stale (en_runtime e) 3)
        (sp_fail_safe_duty_percent (st_safety (rt_settings (en_runtime e)))) (en_rules ?p) [] ?p = Some (e1, outs)"
      and e': "e' = flush_control_state e1"
      by (auto simp: tick_inner_def Let_def split: option.splits)
    from tick_rules_drives [OF t] obtain A where A: "drives A ?p e1" "distinct A" "set A \<subseteq> live_channels (en_rules ?p)"
      by blast
    from drives_trans [OF pending_drives A(1)] have "drives A e e'" by (simp add: bump_drives e')
    with A show ?thesis by (auto simp: drives_def)
  qed
qed

end
