(* ===== verification/Engine_Rules.thy ===== *)
theory Engine_Rules
  imports Engine_Correct
begin

section \<open>The engine: rules and conflicts\<close>

text \<open>
  The rule set over the engine's life: at most one enabled rule per output and only validated
  rules, whatever is loaded, saved, switched and deleted; with that, a tick never panics.
\<close>

subsection \<open>One enabled rule per output\<close>

definition live_targets :: "rule list \<Rightarrow> string list" where
  "live_targets rs = map (\<lambda>r. target_id (rl_target r)) (filter rl_enabled rs)"

definition rules_ok :: "rule list \<Rightarrow> bool" where
  "rules_ok rs \<longleftrightarrow> distinct (live_targets rs) \<and> (\<forall>r \<in> set rs. validate_rule r = Inr ())"

lemma set_sort_rules [simp]: "set (sort_rules rs) = set rs"
  by (simp add: sort_rules_def)

lemma distinct_sort_rules [simp]: "distinct (live_targets (sort_rules rs)) = distinct (live_targets rs)"
proof -
  have "mset (live_targets (sort_rules rs)) = mset (live_targets rs)"
    by (simp add: live_targets_def sort_rules_def mset_map mset_filter)
  then show ?thesis by (rule mset_eq_imp_distinct_iff)
qed

lemma rules_ok_sort [simp]: "rules_ok (sort_rules rs) = rules_ok rs"
  by (simp add: rules_ok_def)

lemma live_targets_filter: "distinct (live_targets rs) \<Longrightarrow> distinct (live_targets (filter P rs))"
  by (induction rs) (auto simp: live_targets_def)

lemma rules_ok_filter: "rules_ok rs \<Longrightarrow> rules_ok (filter P rs)"
  by (simp add: rules_ok_def live_targets_filter)

lemma conflicting_none:
  assumes "conflicting_rule e r = None"
  shows "target_id (rl_target r) \<notin> set (live_targets (filter (\<lambda>x. rl_id x \<noteq> rl_id r) (en_rules e)))"
  using assms by (auto simp: conflicting_rule_def find_None_iff live_targets_def)

lemma owner_none: "owner_of os t = None \<longleftrightarrow> t \<notin> fst ` set os"
  by (force simp: owner_of_def find_None_iff)

text \<open>A rule with another id, priority, enabled flag or time stamp is as valid.\<close>

lemma validate_rule_cong:
  "validate_rule (r\<lparr>rl_enabled := b\<rparr>) = Inr () \<longleftrightarrow> validate_rule r = Inr ()"
  by (simp add: validate_rule_ok valid_rule_def target_as_sensor_def)

lemma owner_of_snoc: "owner_of (os @ [(t, x)]) u = None \<longleftrightarrow> owner_of os u = None \<and> u \<noteq> t"
  by (auto simp: owner_none)

lemma live_targets_Cons [simp]:
  "live_targets (r # rs) = (if rl_enabled r then target_id (rl_target r) # live_targets rs else live_targets rs)"
  "live_targets [] = []"
  by (simp_all add: live_targets_def)

lemma stand_down_later_ok:
  "distinct (live_targets (fst (stand_down_later os rs)))
   \<and> (\<forall>t \<in> set (live_targets (fst (stand_down_later os rs))). owner_of os t = None)
   \<and> ((\<forall>r \<in> set rs. validate_rule r = Inr ()) \<longrightarrow> (\<forall>r \<in> set (fst (stand_down_later os rs)). validate_rule r = Inr ()))"
proof (induction os rs rule: stand_down_later.induct)
  case (2 os r rs)
  show ?case
  proof (cases "rl_enabled r")
    case False
    obtain rs' cs where s: "stand_down_later os rs = (rs', cs)" by fastforce
    with False 2(1) show ?thesis by auto
  next
    case en: True
    show ?thesis
    proof (cases "owner_of os (target_id (rl_target r))")
      case None
      obtain rs' cs where s: "stand_down_later (os @ [(target_id (rl_target r), rl_id r, rl_name r)]) rs = (rs', cs)"
        by fastforce
      with en None 2(2) show ?thesis by (auto simp: owner_of_snoc)
    next
      case (Some owner)
      obtain rs' cs where s: "stand_down_later os rs = (rs', cs)" by fastforce
      with en Some 2(3) show ?thesis by (auto simp: validate_rule_cong)
    qed
  qed
qed simp

text \<open>What the operations do to the rule list.\<close>

lemma on_book_fields [simp]:
  "en_rules (on_book f e) = en_rules e" "en_states (on_book f e) = en_states e"
  "en_ticks (on_book f e) = en_ticks e" "en_runtime (on_book f e) = en_runtime e"
  "en_disk (on_book f e) = en_disk e" "en_handovers (on_book f e) = f (en_handovers e)"
  by (simp_all add: on_book_def)

lemma remember_fields [simp]:
  "en_rules (remember i st e) = en_rules e" "en_handovers (remember i st e) = en_handovers e"
  "en_states (remember i st e) = states_put i st (en_states e)" "en_ticks (remember i st e) = en_ticks e"
  by (simp_all add: remember_def)

lemma hand_over_rules [simp]: "en_rules (hand_over i h p why e) = en_rules e"
  "en_states (hand_over i h p why e) = en_states e"
  by (simp_all add: hand_over_def split: option.split)

lemma apply_change_rules [simp]: "en_rules (apply_rule_change p g e) = en_rules e"
  by (simp add: apply_rule_change_def Let_def)

lemma refresh_fields [simp]: "en_rules (refresh_conflicts e) = en_rules e"
  "en_states (refresh_conflicts e) = en_states e" "en_handovers (refresh_conflicts e) = en_handovers e"
  by (simp_all add: refresh_conflicts_def)

lemma report_rules [simp]: "en_rules (report_stood_down c e) = en_rules e"
  by (simp add: report_stood_down_def Let_def)

lemma stamp_rule_fields [simp]:
  "rl_id (stamp_rule p n r) = rl_id r" "rl_target (stamp_rule p n r) = rl_target r"
  "rl_enabled (stamp_rule p n r) = rl_enabled r"
  by (simp_all add: stamp_rule_def Let_def)

lemma install_rule_rules:
  "en_rules (install_rule p r e) = sort_rules (filter (\<lambda>x. rl_id x \<noteq> rl_id r) (en_rules e) @ [r])"
  by (simp add: install_rule_def Let_def split: option.split)

lemma save_rule_cases:
  assumes "save_rule saved r e = (e', res)"
  obtains (refused) err where "res = Inl err" "e' = e"
  | (saved) r' where "res = Inr r'" "r' = stamp_rule (find_rule e (rl_id r)) (en_now e) r"
      "e' = install_rule (find_rule e (rl_id r)) r' e" "validate_rule r' = Inr ()"
      "rl_enabled r \<longrightarrow> conflicting_rule e r = None" "check_is_ok (check_rule e r)"
proof (cases "check_result (check_rule e r)")
  case (Inl err)
  with assms show ?thesis by (intro refused [of err]) (simp_all add: save_rule_def)
next
  case ok: (Inr u)
  let ?c = "if rl_enabled r then conflicting_rule e r else None"
  let ?r = "stamp_rule (find_rule e (rl_id r)) (en_now e) r"
  show ?thesis
  proof (cases ?c)
    case (Some owner)
    with assms ok show ?thesis by (intro refused [of "conflict_error r owner"]) (simp_all add: save_rule_def)
  next
    case None
    show ?thesis
    proof (cases "and_then (validate_rule ?r) (\<lambda>_. saved)")
      case (Inl err)
      with assms ok None show ?thesis by (intro refused [of err]) (simp_all add: save_rule_def Let_def)
    next
      case (Inr v)
      have "check_is_ok (check_rule e r)"
        using ok by (simp add: check_result_def check_is_ok_def split: if_splits)
      moreover have "rl_enabled r \<longrightarrow> conflicting_rule e r = None" using None by (simp split: if_splits)
      moreover have "validate_rule ?r = Inr ()" using Inr by (auto simp: result_simps)
      ultimately show ?thesis
        using assms ok None Inr by (intro saved [of ?r]) (simp_all add: save_rule_def Let_def)
    qed
  qed
qed

lemma save_rule_rules:
  assumes "rules_ok (en_rules e)"
  shows "rules_ok (en_rules (fst (save_rule saved r e)))"
proof -
  obtain e' res where s: "save_rule saved r e = (e', res)" by fastforce
  then show ?thesis
  proof (cases rule: save_rule_cases)
    case (saved r')
    let ?rs = "filter (\<lambda>x. rl_id x \<noteq> rl_id r) (en_rules e)"
    have "rules_ok ?rs" using assms by (rule rules_ok_filter)
    moreover have "rl_enabled r \<longrightarrow> target_id (rl_target r) \<notin> set (live_targets ?rs)"
      using saved(5) conflicting_none by blast
    ultimately have "rules_ok (?rs @ [r'])"
      using saved(2,4) by (auto simp: rules_ok_def live_targets_def)
    with s saved show ?thesis by (simp add: install_rule_rules)
  qed (use assms s in simp)
qed

lemma delete_rule_rules: "rules_ok (en_rules e) \<Longrightarrow> rules_ok (en_rules (fst (delete_rule removed i e)))"
  by (simp add: delete_rule_def Let_def rules_ok_filter split: sum.split)

lemma set_enabled_rules:
  assumes "rules_ok (en_rules e)"
  shows "rules_ok (en_rules (fst (set_rule_enabled saved i b e)))"
proof -
  have "rules_ok (en_rules x)" if "save_rule saved r e = (x, res)" for r x res
    using save_rule_rules [OF assms, of saved r] that by simp
  with assms show ?thesis
    by (auto simp: set_rule_enabled_def split: option.split sum.split prod.split)
qed

lemma resolve_rules:
  assumes "\<forall>r \<in> set (en_rules e). validate_rule r = Inr ()"
  shows "rules_ok (en_rules (resolve_loaded_conflicts e))"
proof -
  obtain rs cs where s: "stand_down_later [] (sort_rules (en_rules e)) = (rs, cs)" by fastforce
  have "rules_ok rs"
    using stand_down_later_ok [of "[]" "sort_rules (en_rules e)"] assms by (simp add: s rules_ok_def)
  then show ?thesis by (simp add: resolve_loaded_conflicts_def s Let_def fold_fields)
qed

lemma recover_rules [simp]: "en_rules (fst (recover_control_state e)) = en_rules e"
  by (auto simp: recover_control_state_def Let_def split: sum.split option.split)

lemma load_tail_rules:
  "en_rules (fold (apply_loaded_change prev) rs e) = en_rules e"
  "en_rules (fold (\<lambda>(i, h) e. if list_ex (\<lambda>r. rl_id r = i) rs' then e
     else hand_over i (Some h) None why e) hs e) = en_rules e"
  "en_rules (fold announce_note ns e) = en_rules e"
  by (auto intro!: fold_fields(1) simp: apply_loaded_change_def announce_note_def Let_def split_def split: option.split)

lemma load_rules_rules:
  assumes "\<forall>r \<in> set (lr_rules rep). validate_rule r = Inr ()"
  shows "rules_ok (en_rules (load_rules rep e))"
proof -
  have 1: "rules_ok (en_rules (flush_control_state (resolve_loaded_conflicts x)))"
    if "en_rules x = sort_rules (lr_rules rep)" for x :: "'a engine"
    using resolve_rules [of x] assms that by simp
  have 2: "rules_ok (en_rules (if en_recovered x then x else (case recover_control_state (x\<lparr>en_recovered := True\<rparr>) of
      (y, Inl err) \<Rightarrow> announce None ''control_state_recovery_failed'' (error_display err) y | (y, Inr _) \<Rightarrow> y)))"
    if "rules_ok (en_rules x)" for x :: "'a engine"
  proof -
    have "en_rules y = en_rules x" if "recover_control_state (x\<lparr>en_recovered := True\<rparr>) = (y, res)" for y res
      using recover_rules [of "x\<lparr>en_recovered := True\<rparr>"] that by simp
    with that show ?thesis by (auto split: prod.split sum.split)
  qed
  show ?thesis
    unfolding load_rules_def Let_def by (rule 2, rule 1) (simp add: load_tail_rules)
qed

lemma tick_rules_list: "tick_inner force e = Some (e', outs) \<Longrightarrow> en_rules e' = en_rules e"
  by (auto simp: tick_inner_def Let_def split: if_splits option.splits dest!: tick_rules_drives)

subsection \<open>The engine's life\<close>

inductive engine_reachable :: "'w engine \<Rightarrow> bool" where
  fresh: "engine_reachable (engine_new rt d)"
| outside: "engine_reachable e \<Longrightarrow> engine_reachable (e\<lparr>en_runtime := rt, en_disk := d\<rparr>)"
| loaded: "engine_reachable e \<Longrightarrow> engine_reachable (load_rules (load_rule_files dir listing) e)"
| begun: "engine_reachable e \<Longrightarrow> engine_reachable (engine_start (load_rule_files dir listing) owner e)"
| ticked: "engine_reachable e \<Longrightarrow> tick_inner force e = Some (e', outs) \<Longrightarrow> engine_reachable e'"
| saved: "engine_reachable e \<Longrightarrow> engine_reachable (fst (save_rule res r e))"
| deleted: "engine_reachable e \<Longrightarrow> engine_reachable (fst (delete_rule removed i e))"
| switched: "engine_reachable e \<Longrightarrow> engine_reachable (fst (set_rule_enabled res i b e))"
| rearmed_one: "engine_reachable e \<Longrightarrow> engine_reachable (fst (retry_failed_handover d c e))"
| rearmed: "engine_reachable e \<Longrightarrow> engine_reachable (fst (retry_failed_handovers e))"
| verified: "engine_reachable e \<Longrightarrow> engine_reachable (verify_recovered_state e)"
| reset: "engine_reachable e \<Longrightarrow> engine_reachable (reset_states e)"
| halted: "engine_reachable e \<Longrightarrow> engine_reachable (engine_stop e)"

lemma loaded_valid: "\<forall>r \<in> set (lr_rules (load_rule_files dir listing)). validate_rule r = Inr ()"
  using add_rule_files [of "\<lparr>lr_rules = [], lr_errors = [], lr_notes = [], lr_directory = dir\<rparr>"]
  by (simp add: load_rule_files_def Let_def split: rule_directory.split)

lemma reachable_rules:
  assumes "engine_reachable e"
  shows "rules_ok (en_rules e)"
  using assms
proof induction
  case fresh
  show ?case by (simp add: engine_new_def rules_ok_def live_targets_def)
next
  case (begun e dir listing owner)
  have "rules_ok (en_rules (load_rules (load_rule_files dir listing) (e\<lparr>en_running := True\<rparr>)))"
    using load_rules_rules [OF loaded_valid] .
  with begun show ?case by (auto simp: engine_start_def Let_def split: option.split)
next
  case (ticked e force e' outs)
  then show ?case by (simp add: tick_rules_list)
qed (simp_all add: load_rules_rules loaded_valid save_rule_rules delete_rule_rules set_enabled_rules
    retry_failed_handover_def retry_failed_handovers_def reset_states_def engine_stop_def Let_def
    verify_recovered_state_def fold_fields split: prod.split)

text \<open>C13. However rules are loaded, saved, switched and deleted, in whatever order, at most one enabled
  rule targets an output, and every rule in force passes validation.\<close>
theorem one_enabled_rule_per_output:
  assumes "engine_reachable e"
  shows "distinct (map (\<lambda>r. target_id (rl_target r)) (filter rl_enabled (en_rules e)))
    \<and> (\<forall>r \<in> set (en_rules e). validate_rule r = Inr ())"
  using reachable_rules [OF assms] by (simp add: rules_ok_def live_targets_def)

subsection \<open>A tick always returns\<close>

text \<open>Every enabled rule's channel, where it resolves, has ordered bounds.\<close>

definition targets_ordered :: "'w runtime \<Rightarrow> rule list \<Rightarrow> bool" where
  "targets_ordered rt rs \<longleftrightarrow> (\<forall>r \<in> set rs. rl_enabled r \<longrightarrow>
     (\<forall>d c. rt_resolve rt (tg_device (rl_target r)) (tg_capability (rl_target r)) = Inr (d, c)
        \<longrightarrow> or_default (Fin 0) (cap_min c) \<le> or_default (Fin 100) (cap_max c)))"

lemma resolve_same: "same_config rt rt' \<Longrightarrow> rt_resolve rt' d c = rt_resolve rt d c"
  by (simp add: same_config_def rt_resolve_def)

lemma targets_ordered_same: "same_config rt rt' \<Longrightarrow> targets_ordered rt' rs = targets_ordered rt rs"
  by (simp add: targets_ordered_def resolve_same)

lemma run_rule_returns:
  assumes "validate_rule r = Inr ()" "rl_enabled r" "targets_ordered (en_runtime e) (r # rs)"
  shows "\<exists>e' out. run_rule r st now stale duty e = Some (e', out)"
proof (cases "rt_resolve (en_runtime e) (tg_device (rl_target r)) (tg_capability (rl_target r))")
  case (Inr t)
  then obtain d c where t: "rt_resolve (en_runtime e) (tg_device (rl_target r)) (tg_capability (rl_target r)) = Inr (d, c)"
    by (cases t) auto
  with assms(2,3) have "ei_target_min (engine_input e r c now stale duty) \<le> ei_target_max (engine_input e r c now stale duty)"
    by (auto simp: targets_ordered_def engine_input_def)
  with assms(1) obtain st1 ev where "evaluate r st (engine_input e r c now stale duty) = Some (st1, ev)"
    using evaluate_some [of r "engine_input e r c now stale duty" st] by (auto simp: validate_rule_ok)
  with t show ?thesis by (simp add: run_rule_def Let_def split_def)
qed (simp add: run_rule_def Let_def)

lemma tick_rules_returns:
  assumes "\<forall>r \<in> set rs. validate_rule r = Inr ()" "targets_ordered (en_runtime e) rs"
  shows "\<exists>e' outs. tick_rules force now stale duty rs claimed e = Some (e', outs)"
  using assms
proof (induction rs arbitrary: claimed e)
  case (Cons r rs)
  have rest: "\<exists>e' outs. tick_rules force now stale duty rs cl e1 = Some (e', outs)"
    if "same_config (en_runtime e) (en_runtime e1)" for cl e1
    using Cons.prems Cons.IH [of e1 cl] that by (simp add: targets_ordered_same) (simp add: targets_ordered_def)
  let ?st = "state_or_new (en_states e) (rl_id r)"
  let ?e = "remember (rl_id r) ?st e"
  have q: "same_config (en_runtime e) (en_runtime ?e)" by (simp add: remember_def)
  obtain e1 out where sd: "stand_down r now e = (e1, out)" by fastforce
  have s1: "same_config (en_runtime e) (en_runtime e1)"
    using stand_down_acts [OF sd] by (simp add: acts_def drives_def)
  have run: "\<exists>e2 out2. run_rule r ?st now stale duty ?e = Some (e2, out2) \<and> same_config (en_runtime e) (en_runtime e2)"
    if "rl_enabled r"
  proof -
    have "targets_ordered (en_runtime ?e) (r # rs)" using Cons.prems(2) q by (simp add: targets_ordered_same)
    with run_rule_returns Cons.prems(1) that obtain e2 out2 where r: "run_rule r ?st now stale duty ?e = Some (e2, out2)"
      by fastforce
    from run_rule_acts [OF r] q have "same_config (en_runtime e) (en_runtime e2)"
      by (auto simp: acts_def drives_def intro: same_config_trans)
    with r show ?thesis by blast
  qed
  obtain e3 outs3 where r1: "tick_rules force now stale duty rs claimed e = Some (e3, outs3)"
    using rest [of e claimed] by auto
  obtain e4 outs4 where r2: "tick_rules force now stale duty rs claimed e1 = Some (e4, outs4)"
    using rest [OF s1, of claimed] by auto
  obtain e5 outs5 where r3: "tick_rules force now stale duty rs (claimed @ [target_id (rl_target r)]) ?e = Some (e5, outs5)"
    using rest [OF q, of "claimed @ [target_id (rl_target r)]"] by auto
  show ?case
  proof (cases "rl_enabled r")
    case True
    then obtain e2 out2 where r: "run_rule r ?st now stale duty ?e = Some (e2, out2)"
      and s2: "same_config (en_runtime e) (en_runtime e2)" using run by blast
    obtain e6 outs6 where "tick_rules force now stale duty rs (claimed @ [target_id (rl_target r)]) e2 = Some (e6, outs6)"
      using rest [OF s2, of "claimed @ [target_id (rl_target r)]"] by auto
    with True r r2 r3 sd show ?thesis by (auto simp: Let_def)
  qed (use r1 in simp)
qed simp

text \<open>C12. The automation loop does not die: in every reachable engine whose channels have ordered
  bounds, a tick returns, whatever the sensors read and the adapters answer.\<close>
theorem tick_returns:
  assumes "engine_reachable e" and "targets_ordered (en_runtime e) (en_rules e)"
  shows "\<exists>e' outs. tick_inner force e = Some (e', outs)"
proof (cases "st_automation_enabled (rt_settings (en_runtime e))")
  case True
  let ?e = "e\<lparr>en_ticks := bump (en_ticks e), en_last_tick_ms := en_now e\<rparr>"
  let ?p = "perform_pending_handovers (en_ticks e) ?e"
  have "same_config (en_runtime e) (en_runtime ?p)"
    using pending_drives [of ?e "en_ticks e"] by (simp add: drives_def)
  then have o: "targets_ordered (en_runtime ?p) (en_rules e)" using assms(2) by (simp add: targets_ordered_same)
  have v: "\<forall>r \<in> set (en_rules e). validate_rule r = Inr ()"
    using reachable_rules [OF assms(1)] by (simp add: rules_ok_def)
  obtain e1 outs where "tick_rules force (en_now e) (rt_is_stale (en_runtime e) 3)
      (sp_fail_safe_duty_percent (st_safety (rt_settings (en_runtime e)))) (en_rules e) [] ?p = Some (e1, outs)"
    using tick_rules_returns [OF v o] by blast
  with True show ?thesis by (simp add: tick_inner_def Let_def)
qed (simp add: tick_inner_def Let_def)

end
