(* ===== verification/Engine_Handover.thy ===== *)
theory Engine_Handover
  imports Engine_Rules
begin

section \<open>The engine: control responsibility\<close>

text \<open>
  What happens to a channel a rule stops driving: it is queued, it stays owed until a confirmed
  owner or a confirmed write settles it, no safety write fights a rule that claims it, and it
  survives a restart.
\<close>

subsection \<open>The register of owed channels\<close>

lemma finish_owed:
  assumes "channel h = (d, c)"
  shows "owed b - {(d, c)} \<subseteq> owed (finish_item d c h b)"
proof (cases "is_unresolved (ho_state h)")
  case True
  with assms show ?thesis by (auto simp: finish_item_def put_owed)
next
  case False
  have "map channel (remove_first (at_channel d c) (hb_open b)) = remove1 (d, c) (map channel (hb_open b))"
    by (rule remove_first_keys) (simp add: at_channel_iff)
  then have "channel ` set (remove_first (at_channel d c) (hb_open b)) = set (remove1 (d, c) (map channel (hb_open b)))"
    by (metis list.set_map)
  moreover have "set ys - {x} \<subseteq> set (remove1 x ys)" for x :: "string \<times> string" and ys
    by (metis DiffE in_set_remove1 singletonI subsetI)
  ultimately have "owed b - {(d, c)} \<subseteq> channel ` set (remove_first (at_channel d c) (hb_open b))"
    by (metis list.set_map owed_def)
  with False show ?thesis by (simp add: finish_item_def Let_def owed_def)
qed

text \<open>No operation but a confirmation and a new owner takes anything off the register.\<close>

lemma owed_kept:
  "owed (fst (mark_awaiting d c r why b)) = owed b" "owed (fst (park_unmet_claim d c why b)) = owed b"
  "owed (fst (release_claim d c t b)) = owed b" "owed (fst (mark_verified d c t b)) = owed b"
  "owed (fst (fail_recovered d c why b)) = owed b" "owed (fst (record_attempt d c e t n b)) = owed b"
  "owed b - {(d, c)} \<subseteq> owed (fst (confirm_handover d c v n b))"
  "owed b - {(d, c)} \<subseteq> owed (fst (supersede d c x b))"
proof -
  note ch = book_find_channel [of b d c]
  show "owed (fst (mark_awaiting d c r why b)) = owed b"
    using ch by (cases "book_find b d c") (auto simp: mark_awaiting_def Let_def put_owed)
  show "owed (fst (park_unmet_claim d c why b)) = owed b"
    using ch by (cases "book_find b d c") (auto simp: park_unmet_claim_def Let_def put_owed)
  show "owed (fst (release_claim d c t b)) = owed b"
    using ch by (cases "book_find b d c") (auto simp: release_claim_def put_owed)
  show "owed (fst (mark_verified d c t b)) = owed b"
    using ch by (cases "book_find b d c") (auto simp: mark_verified_def put_owed)
  show "owed (fst (fail_recovered d c why b)) = owed b"
    using ch by (cases "book_find b d c") (auto simp: fail_recovered_def put_owed)
  show "owed (fst (record_attempt d c e t n b)) = owed b"
    using ch by (cases "book_find b d c") (auto simp: record_attempt_def Let_def put_owed)
  show "owed b - {(d, c)} \<subseteq> owed (fst (confirm_handover d c v n b))"
    using ch by (cases "book_find b d c") (simp_all add: confirm_handover_def finish_owed)
  show "owed b - {(d, c)} \<subseteq> owed (fst (supersede d c x b))"
    using ch by (cases "book_find b d c") (simp_all add: supersede_def finish_owed)
qed

subsection \<open>Leaving control\<close>

lemma hand_over_owed:
  assumes "case p of None \<Rightarrow> True | Some (d, c) \<Rightarrow> hold_is h d c"
  shows "insert (ch_device h, ch_capability h) (owed (en_handovers e))
    \<subseteq> owed (en_handovers (hand_over i (Some h) p why e))"
  using assms queue_owed by (simp add: hand_over_def)

lemma hand_over_in [simp]: "(ch_device h, ch_capability h) \<in> owed (en_handovers (hand_over i (Some h) None why e))"
  using hand_over_owed [of h None e i why] by simp

lemma hand_over_keeps: "owed (en_handovers e) \<subseteq> owed (en_handovers (hand_over i h p why e))"
  using queue_owed by (auto simp: hand_over_def split: option.split)

interpretation sweep: owed_register "\<lambda>e. owed (en_handovers e)" "\<lambda>h. (ch_device h, ch_capability h)"
  "\<lambda>i h. hand_over i (Some h) None why" for why
  by unfold_locales (simp add: hand_over_keeps)

lemma apply_change_keeps: "owed (en_handovers e) \<subseteq> owed (en_handovers (apply_rule_change p g e))"
  by (auto simp: apply_rule_change_def Let_def intro: subsetD [OF hand_over_keeps])

lemma apply_change_owed:
  assumes "leaves_control g" and "held_by e (rl_id p) = Some h"
    and "case rg_previous_target g of None \<Rightarrow> True | Some (d, c) \<Rightarrow> hold_is h d c"
  shows "(ch_device h, ch_capability h) \<in> owed (en_handovers (apply_rule_change p g e))"
proof -
  have "change_summary g \<noteq> None" using assms(1) by (simp add: change_summary_def is_semantic_def)
  then show ?thesis
    using hand_over_owed [OF assms(3)] assms(1,2) by (auto simp: apply_rule_change_def Let_def)
qed

lemma install_handovers:
  fixes e :: "'w engine"
  assumes "held_by e (rl_id r) = Some h"
  shows "\<exists>e1 :: 'w engine. held_by e1 (rl_id r) = Some h
    \<and> en_handovers (install_rule (Some p) r e) = en_handovers (apply_rule_change p (change_between p r) e1)"
proof -
  let ?e = "e\<lparr>en_rules := sort_rules (filter (\<lambda>x. rl_id x \<noteq> rl_id r) (en_rules e) @ [r])\<rparr>"
  let ?st = "case states_get (en_states e) (rl_id r) of
     Some st \<Rightarrow> st\<lparr>rs_next_due_ms := 0\<rparr> | None \<Rightarrow> rule_state_new (rl_id r)"
  let ?e1 = "refresh_conflicts (remember (rl_id r) ?st ?e)"
  have "held_by ?e1 (rl_id r) = Some h"
    using assms by (cases "states_get (en_states e) (rl_id r)") (simp_all add: held_by_def)
  moreover have "en_handovers (install_rule (Some p) r e) = en_handovers (apply_rule_change p (change_between p r) ?e1)"
    by (simp add: install_rule_def Let_def)
  ultimately show ?thesis by blast
qed

lemma fold_owed: "(\<And>x a. owed (en_handovers a) \<subseteq> owed (en_handovers (f x a)))
    \<Longrightarrow> owed (en_handovers e) \<subseteq> owed (en_handovers (fold f xs e))"
  by (induction xs arbitrary: e) (simp, fastforce)

lemma restore_all:
  "owed (fold (\<lambda>h. restore_handover h now) hs b) = channel ` set hs \<union> owed b"
  "x \<in> set (hb_open (fold (\<lambda>h. restore_handover h now) hs b)) \<Longrightarrow> x \<in> set (hb_open b) \<or> ho_state x = NeedsVerification"
proof (induction hs arbitrary: b)
  case (Cons h hs)
  { case 1 show ?case by (auto simp: Cons.IH(1)) (auto simp: restore_handover_def owed_def) }
  { case 2 with Cons.IH(2) [of "restore_handover h now b"] show ?case by (auto simp: restore_handover_def) }
qed simp_all

lemma recover_owed: "owed (en_handovers e) \<subseteq> owed (en_handovers (fst (recover_control_state e)))"
  by (auto simp: restore_all(1) recover_control_state_def on_book_def Let_def split: sum.split option.split)

lemma resolve_keeps [simp]: "en_handovers (resolve_loaded_conflicts e) = en_handovers e"
proof -
  have "en_handovers (fold report_stood_down cs x) = en_handovers x" for cs and x :: "'a engine"
    by (induction cs arbitrary: x) (simp_all add: report_stood_down_def Let_def)
  then show ?thesis by (simp add: resolve_loaded_conflicts_def split_def Let_def)
qed

lemma load_rules_owed:
  assumes "r \<in> set (en_rules e)" and "held_by e (rl_id r) = Some h" and "rl_id r \<notin> rl_id ` set (lr_rules rep)"
  shows "(ch_device h, ch_capability h) \<in> owed (en_handovers (load_rules rep e))"
proof -
  let ?holds = "List.map_filter (\<lambda>r. map_option (Pair (rl_id r)) (held_by e (rl_id r))) (en_rules e)"
  let ?P = "\<lambda>i. list_ex (\<lambda>r. rl_id r = i) (lr_rules rep)"
  have "(rl_id r, h) \<in> set ?holds"
    using assms(1,2) by (force simp: List.map_filter_def)
  moreover have "\<not> ?P (rl_id r)" using assms(3) unfolding list_ex_iff by (metis imageI)
  ultimately have 1: "(ch_device h, ch_capability h) \<in> owed (en_handovers (fold (\<lambda>(i, h) e. if ?P i then e
      else hand_over i (Some h) None ''was removed from disk'' e) ?holds x))" for x :: "'a engine"
    by (rule sweep.sweep_queues)
  have noted: "en_handovers (fold announce_note ns (x\<lparr>en_notes := n\<rparr>)) = en_handovers x" for ns n and x :: "'a engine"
  proof -
    have "en_handovers (fold announce_note ns y) = en_handovers y" for y :: "'a engine"
      by (induction ns arbitrary: y) (simp_all add: announce_note_def)
    then show ?thesis by simp
  qed
  have 2: "owed (en_handovers x) \<subseteq> owed (en_handovers (if en_recovered x then x
      else (case recover_control_state (x\<lparr>en_recovered := True\<rparr>) of
        (y, Inl err) \<Rightarrow> announce None ''control_state_recovery_failed'' (error_display err) y | (y, Inr _) \<Rightarrow> y)))"
    for x :: "'a engine"
    using recover_owed [of "x\<lparr>en_recovered := True\<rparr>"] by (auto split: prod.split sum.split)
  show ?thesis
    unfolding load_rules_def Let_def by (rule subsetD [OF 2]) (simp add: noted 1)
qed

text \<open>C9. A rule that stops driving a channel leaves it in the handover book: whether the rule is
  retargeted, switched off, deleted, or its file is gone when the rules are loaded again, the channel
  it held is owed the fail-safe duty.\<close>
theorem leaving_control_is_owed:
  fixes e :: "'w engine"
  assumes "held_by e (rl_id r) = Some h"
    and "(\<exists>p r'. save_rule saved r e = (e', Inr r') \<and> find_rule e (rl_id r) = Some p
        \<and> hold_is h (tg_device (rl_target p)) (tg_capability (rl_target p))
        \<and> (rule_channel p \<noteq> rule_channel r \<or> rl_enabled p \<noteq> rl_enabled r))
      \<or> (\<exists>existed. delete_rule removed (rl_id r) e = (e', Inr existed))
      \<or> (e' = load_rules rep e \<and> r \<in> set (en_rules e) \<and> rl_id r \<notin> rl_id ` set (lr_rules rep))"
  shows "(ch_device h, ch_capability h) \<in> owed (en_handovers e')"
proof -
  consider (kept) p r' where "save_rule saved r e = (e', Inr r')" "find_rule e (rl_id r) = Some p"
      "hold_is h (tg_device (rl_target p)) (tg_capability (rl_target p))"
      "rule_channel p \<noteq> rule_channel r \<or> rl_enabled p \<noteq> rl_enabled r"
    | (deleted) existed where "delete_rule removed (rl_id r) e = (e', Inr existed)"
    | (gone) "e' = load_rules rep e" "r \<in> set (en_rules e)" "rl_id r \<notin> rl_id ` set (lr_rules rep)"
    using assms(2) by blast
  then show ?thesis
  proof cases
    case (kept p r')
    then have id: "rl_id p = rl_id r"
      using find_key_Some [where key = rl_id and k = "rl_id r" and v = p] by (auto simp: find_rule_def)
    from kept(1) show ?thesis
    proof (cases rule: save_rule_cases)
      case (saved r'')
      then have r'': "r'' = r'" "rule_channel r' = rule_channel r" "rl_enabled r' = rl_enabled r" "rl_id r' = rl_id r"
        by (simp_all add: rule_channel_def)
      have "leaves_control (change_between p r')"
        using kept(4) r'' by (auto simp: leaves_control_def change_between_def)
      moreover have "case rg_previous_target (change_between p r') of None \<Rightarrow> True | Some (d, c) \<Rightarrow> hold_is h d c"
        using kept(3) by (simp add: change_between_def rule_channel_def)
      moreover obtain e1 :: "'w engine" where "held_by e1 (rl_id p) = Some h"
        "en_handovers e' = en_handovers (apply_rule_change p (change_between p r') e1)"
        using install_handovers [of e r' h p] assms(1) saved(3) kept(2) id r'' by auto
      ultimately show ?thesis using apply_change_owed by fastforce
    qed simp
  next
    case deleted
    then show ?thesis
      using assms(1) by (auto simp: delete_rule_def Let_def new_id_ok refresh_conflicts_def split: sum.splits if_splits)
  next
    case gone
    then show ?thesis using load_rules_owed assms(1) by blast
  qed
qed

subsection \<open>Discharging responsibility\<close>

lemma safety_write_new:
  assumes "write_value rt d c v (SafetyOrigin why) = (rt', res)"
  shows "\<exists>new. rt_audit rt' = rt_audit rt @ new
    \<and> (\<forall>a \<in> set new. \<exists>rep. a = Audit_Write rep \<and> (wr_device_id rep, wr_capability rep) = (d, c)
          \<and> (\<exists>w. wr_origin rep = SafetyOrigin w))
    \<and> (\<forall>rep. res = Inr rep \<longrightarrow> vouched rt rep \<and> Audit_Write rep \<in> set new
          \<and> (wr_device_id rep, wr_capability rep) = (d, c))"
proof -
  let ?ok = "\<lambda>new. \<forall>a \<in> set new. \<exists>rep. a = Audit_Write rep \<and> (wr_device_id rep, wr_capability rep) = (d, c)
    \<and> (\<exists>w. wr_origin rep = SafetyOrigin w)"
  have attempt: "\<exists>new. rt_audit r' = rt_audit r @ new \<and> ?ok new
      \<and> (\<forall>rep. x = Inr rep \<longrightarrow> vouched r rep \<and> Audit_Write rep \<in> set new \<and> (wr_device_id rep, wr_capability rep) = (d, c))"
    if "write_attempt r d c u (SafetyOrigin w) = (r', x, lost)" for r u w r' x lost
  proof (cases x)
    case (Inl e)
    with error_of_attempt [of r d c u "SafetyOrigin w" r' e lost] that show ?thesis by auto
  next
    case (Inr rep)
    with report_of_attempt [of r d c u "SafetyOrigin w" r' rep lost] attempt_vouched [of r d c u "SafetyOrigin w" r' rep lost] that
    show ?thesis by auto
  qed
  obtain rt1 lost where a: "write_attempt rt d c v (SafetyOrigin why) = (rt1, res, lost)"
    and r: "rt' = rt1 \<or> (\<exists>e. res = Inl e \<and> (\<exists>v' why. rt' = fst (write_attempt rt1 d c v' (SafetyOrigin why))))"
    using assms [unfolded write_value_def] by (elim write_with_origin_split) blast
  obtain n1 where n1: "rt_audit rt1 = rt_audit rt @ n1" "?ok n1"
    "\<forall>rep. res = Inr rep \<longrightarrow> vouched rt rep \<and> Audit_Write rep \<in> set n1 \<and> (wr_device_id rep, wr_capability rep) = (d, c)"
    using attempt [OF a] by blast
  from r show ?thesis
  proof (elim disjE exE conjE)
    fix e v' w
    assume e: "res = Inl e" and rt': "rt' = fst (write_attempt rt1 d c v' (SafetyOrigin w))"
    obtain x lost2 where "write_attempt rt1 d c v' (SafetyOrigin w) = (rt', x, lost2)"
      using rt' by (metis fst_conv prod_cases3)
    from attempt [OF this] obtain n2 where "rt_audit rt' = rt_audit rt1 @ n2" "?ok n2" by blast
    with n1 e show ?thesis by (intro exI [of _ "n1 @ n2"]) auto
  qed (use n1 in blast)
qed

text \<open>From \<open>e\<close> to \<open>e'\<close>: only owed channels without a claimant were written, under the safety origin, and
  a channel left the book only for a confirmed owner or a confirmed write.\<close>

definition safe_write_settles :: "'w runtime \<Rightarrow> audit_entry list \<Rightarrow> string \<times> string \<Rightarrow> bool" where
  "safe_write_settles rt new dc \<longleftrightarrow> (\<exists>r rep. same_config rt r \<and> vouched r rep \<and> Audit_Write rep \<in> set new
     \<and> (wr_device_id rep, wr_capability rep) = dc \<and> (\<exists>why. wr_origin rep = SafetyOrigin why)
     \<and> confirms (wr_status rep) \<and> wr_applied rep \<noteq> None)"

definition settled :: "'w engine \<Rightarrow> audit_entry list \<Rightarrow> string \<times> string \<Rightarrow> bool" where
  "settled e new dc \<longleftrightarrow> (\<exists>i. confirmed_owner_of e (fst dc) (snd dc) = Some i) \<or> safe_write_settles (en_runtime e) new dc"

lemma safe_write_settles_mono:
  assumes "safe_write_settles b new x" "same_config a b" "set new \<subseteq> set new'" shows "safe_write_settles a new' x"
proof -
  obtain r rep where r: "same_config b r" "vouched r rep" "Audit_Write rep \<in> set new" "(wr_device_id rep, wr_capability rep) = x"
    "\<exists>why. wr_origin rep = SafetyOrigin why" "confirms (wr_status rep)" "wr_applied rep \<noteq> None"
    using assms(1) unfolding safe_write_settles_def by blast
  then have "same_config a r" "Audit_Write rep \<in> set new'" using assms(2,3) same_config_trans by blast+
  with r show ?thesis unfolding safe_write_settles_def by blast
qed

definition safe_write_of :: "'w engine \<Rightarrow> audit_entry \<Rightarrow> bool" where
  "safe_write_of e a \<longleftrightarrow> (\<exists>rep. a = Audit_Write rep \<and> (\<exists>why. wr_origin rep = SafetyOrigin why)
     \<and> (wr_device_id rep, wr_capability rep) \<in> owed (en_handovers e)
     \<and> claimant_of e (wr_device_id rep) (wr_capability rep) = None)"

definition discharges :: "'w engine \<Rightarrow> 'w engine \<Rightarrow> bool" where
  "discharges e e' \<longleftrightarrow> en_rules e' = en_rules e \<and> en_states e' = en_states e \<and> same_config (en_runtime e) (en_runtime e')
     \<and> owed (en_handovers e') \<subseteq> owed (en_handovers e)
     \<and> (\<exists>new. rt_audit (en_runtime e') = rt_audit (en_runtime e) @ new
         \<and> (\<forall>a \<in> set new. safe_write_of e a)
         \<and> (\<forall>x \<in> owed (en_handovers e) - owed (en_handovers e'). settled e new x))"

lemma owners_same:
  assumes "en_rules b = en_rules a" and "en_states b = en_states a"
  shows "confirmed_owner_of b = confirmed_owner_of a" "claimant_of b = claimant_of a"
  by (simp_all add: assms confirmed_owner_of_def claimant_of_def fun_eq_iff cong: option.case_cong)

lemma discharges_refl [simp]: "discharges e e"
  by (simp add: discharges_def)

lemma discharges_trans:
  assumes "discharges a b" and "discharges b c"
  shows "discharges a c"
proof -
  obtain m where m: "rt_audit (en_runtime b) = rt_audit (en_runtime a) @ m" "\<forall>x \<in> set m. safe_write_of a x"
    "\<forall>x \<in> owed (en_handovers a) - owed (en_handovers b). settled a m x"
    using assms(1) by (auto simp: discharges_def)
  obtain n where n: "rt_audit (en_runtime c) = rt_audit (en_runtime b) @ n" "\<forall>x \<in> set n. safe_write_of b x"
    "\<forall>x \<in> owed (en_handovers b) - owed (en_handovers c). settled b n x"
    using assms(2) by (auto simp: discharges_def)
  have same: "confirmed_owner_of b = confirmed_owner_of a" "claimant_of b = claimant_of a"
    "owed (en_handovers b) \<subseteq> owed (en_handovers a)" "same_config (en_runtime a) (en_runtime b)"
    using assms(1) owners_same [of b a] by (simp_all add: discharges_def)
  have lift: "safe_write_of a x" if "safe_write_of b x" for x
    using that same(2,3) unfolding safe_write_of_def by (metis subsetD)
  have "\<forall>x \<in> set (m @ n). safe_write_of a x"
    using m(2) n(2) lift by auto
  moreover have "settled a (m @ n) x" if "x \<in> owed (en_handovers a) - owed (en_handovers c)" for x
  proof (cases "x \<in> owed (en_handovers b)")
    case True
    with that n(3) have "settled b n x" by blast
    then show ?thesis using safe_write_settles_mono [OF _ same(4), of n x "m @ n"] by (auto simp: settled_def same)
  next
    case False
    with that m(3) have "settled a m x" by blast
    then show ?thesis using safe_write_settles_mono [OF _ same_config_refl, of "en_runtime a" m x "m @ n"] by (auto simp: settled_def)
  qed
  moreover have "same_config (en_runtime a) (en_runtime c)"
    using assms same_config_trans [OF same(4)] by (simp add: discharges_def)
  ultimately show ?thesis
    using assms m(1) n(1) by (auto simp: discharges_def intro!: exI [of _ "m @ n"])
qed

lemma discharges_quiet:
  assumes "quiet e e'" and "en_rules e' = en_rules e" and "en_states e' = en_states e"
    and "owed (en_handovers e') = owed (en_handovers e)"
  shows "discharges e e'"
  using assms by (simp add: discharges_def quiet_def)

lemma discharges_simps [simp]:
  "discharges e (announce i k m e') = discharges e e'" "discharges e (en_log l m e') = discharges e e'"
  "discharges e (e'\<lparr>en_dirty := b\<rparr>) = discharges e e'"
  by (simp_all add: discharges_def announce_def en_log_def on_runtime_def publish_automation_def rt_log_def)

lemma book_step_discharges:
  assumes "quiet e e'" and "en_rules e' = en_rules e" and "en_states e' = en_states e"
    and "owed (en_handovers e') \<subseteq> owed (en_handovers e)"
    and "\<And>x. x \<in> owed (en_handovers e) - owed (en_handovers e') \<Longrightarrow> settled e [] x"
  shows "discharges e e'"
  using assms by (simp add: discharges_def quiet_def)

lemma finish_owed_le: "channel h = (d, c) \<Longrightarrow> owed (finish_item d c h b) \<subseteq> owed b"
  by (cases "is_unresolved (ho_state h)", simp add: finish_item_def put_owed)
    (auto simp: finish_item_def Let_def owed_def dest!: remove_first_in)

lemma closed_le:
  "owed (fst (confirm_handover d c v n b)) \<subseteq> owed b" "owed (fst (supersede d c x b)) \<subseteq> owed b"
  using book_find_channel [of b d c]
  by (cases "book_find b d c"; simp add: confirm_handover_def supersede_def finish_owed_le)+

lemma verify_discharges: "discharges e (verify_item x e)"
proof (cases x)
  case (Pair d c)
  have "owed b' = owed b" if "fail_recovered d c why b = (b', n)" for b why b' n
    using owed_kept(5) [of d c why b] that by simp
  then have u: "owed (en_handovers (unverifiable d c why e)) = owed (en_handovers e)" for why
    by (auto simp: unverifiable_def Let_def split: prod.split)
  have "owed b' = owed b" if "mark_verified d c t b = (b', n)" for b t b' n
    using owed_kept(4) [of d c t b] that by simp
  then have "owed (en_handovers (verify_item (d, c) e)) = owed (en_handovers e)"
    by (auto simp: verify_item_def u Let_def split: prod.split sum.split)
  with Pair show ?thesis by (intro discharges_quiet) simp_all
qed

lemma fold_discharges: "(\<And>x a. discharges a (f x a)) \<Longrightarrow> discharges e (fold f xs e)"
  by (induction xs arbitrary: e) (auto intro: discharges_trans)

lemma verify_state_discharges: "discharges e (verify_recovered_state e)"
  by (simp add: verify_recovered_state_def Let_def fold_discharges verify_discharges)

lemma superseded_discharges:
  assumes "confirmed_owner_of e (ho_device h) (ho_capability h) = Some owner"
  shows "discharges e (superseded_by h owner e)"
proof (rule book_step_discharges)
  let ?s = "supersede (ho_device h) (ho_capability h) (Some owner) (en_handovers e)"
  have b: "en_handovers (superseded_by h owner e) = fst ?s"
    by (simp add: superseded_by_def Let_def split: prod.split)
  show "owed (en_handovers (superseded_by h owner e)) \<subseteq> owed (en_handovers e)"
    by (simp add: b closed_le)
  show "settled e [] x" if "x \<in> owed (en_handovers e) - owed (en_handovers (superseded_by h owner e))" for x
    using that owed_kept(8) [of "en_handovers e" "ho_device h" "ho_capability h" "Some owner"] assms
    by (auto simp: b settled_def)
qed simp_all

lemma await_discharges: "discharges e (await_claimant h i e)"
proof (rule discharges_quiet)
  let ?d = "ho_device h" and ?c = "ho_capability h"
  have "owed b' = owed b" if "mark_awaiting ?d ?c i w b = (b', n)" for b w b' n
    using owed_kept(1) [of ?d ?c i w b] that by simp
  moreover have "owed b' = owed b" if "park_unmet_claim ?d ?c w b = (b', n)" for b w b' n
    using owed_kept(2) [of ?d ?c w b] that by simp
  ultimately show "owed (en_handovers (await_claimant h i e)) = owed (en_handovers e)"
    by (auto simp: await_claimant_def Let_def split: prod.split)
qed simp_all

lemma attempt_discharges:
  assumes "claimant_of e (ho_device h) (ho_capability h) = None" and "channel h \<in> owed (en_handovers e)"
  shows "discharges e (attempt_handover duty tick h e)"
proof -
  let ?d = "ho_device h" and ?c = "ho_capability h"
  let ?e' = "attempt_handover duty tick h e"
  obtain rt res where w: "write_value (en_runtime e) ?d ?c (Number duty) (SafetyOrigin (ho_reason h)) = (rt, res)"
    by fastforce
  obtain new where new: "rt_audit rt = rt_audit (en_runtime e) @ new"
    and all: "\<forall>a \<in> set new. \<exists>rep. a = Audit_Write rep \<and> (wr_device_id rep, wr_capability rep) = (?d, ?c)
      \<and> (\<exists>w. wr_origin rep = SafetyOrigin w)"
    and told: "\<And>rep. res = Inr rep \<Longrightarrow> vouched (en_runtime e) rep \<and> Audit_Write rep \<in> set new
      \<and> (wr_device_id rep, wr_capability rep) = (?d, ?c)"
    using safety_write_new [OF w] by blast
  have audit: "rt_audit (en_runtime ?e') = rt_audit (en_runtime e) @ new"
    using new by (simp add: attempt_handover_def w Let_def on_book_def announce_def en_log_def on_runtime_def
        publish_automation_def rt_log_def publish_def split: prod.split option.split)
  have safe: "\<forall>a \<in> set new. safe_write_of e a"
    using all assms by (fastforce simp: safe_write_of_def channel_def)
  have conf: "same_config (en_runtime e) (en_runtime ?e')"
    using write_with_origin_frame [of "en_runtime e" True ?d ?c "Number duty" "SafetyOrigin (ho_reason h)"] w
    by (simp add: attempt_handover_def w [unfolded write_value_def] write_value_def Let_def on_book_def announce_def en_log_def on_runtime_def
        publish_automation_def rt_log_def split: prod.split option.split)
  show ?thesis
  proof (cases "fst (handover_outcome res)")
    case None
    have "owed b' = owed b" if "record_attempt ?d ?c er tick n b = (b', s)" for er n b b' s
      using owed_kept(6) [of ?d ?c er tick n b] that by simp
    then have "owed (en_handovers ?e') = owed (en_handovers e)"
      using None by (auto simp: attempt_handover_def w Let_def split: prod.splits option.splits)
    with audit safe conf show ?thesis by (auto simp: discharges_def)
  next
    case (Some v)
    then obtain rep where rep: "res = Inr rep" "confirms (wr_status rep)" "wr_applied rep \<noteq> None"
      by (cases res; cases "wr_applied (projr res)")
        (auto simp: handover_outcome_def confirms_def split: write_status.splits)
    have b: "en_handovers ?e' = fst (confirm_handover ?d ?c (Some v) (en_now e) (en_handovers e))"
      using Some by (auto simp: attempt_handover_def w Let_def on_book_def split: prod.splits option.splits)
    have "settled e new x" if "x \<in> owed (en_handovers e) - owed (en_handovers ?e')" for x
    proof -
      have "x = (?d, ?c)" using that owed_kept(7) [of "en_handovers e" ?d ?c "Some v" "en_now e"] by (auto simp: b)
      moreover have "\<exists>why. wr_origin rep = SafetyOrigin why" using told [OF rep(1)] all by auto
      ultimately have "safe_write_settles (en_runtime e) new x"
        using told [OF rep(1)] rep unfolding safe_write_settles_def by (metis same_config_refl)
      then show ?thesis by (simp add: settled_def)
    qed
    with audit safe conf closed_le(1) b show ?thesis by (auto simp: discharges_def)
  qed
qed

lemma due_owed: "is_due b d c tick \<Longrightarrow> (d, c) \<in> owed b"
  by (force simp: is_due_def owed_def split: option.splits dest: book_find_channel)

lemma perform_discharges: "discharges e (perform_handover duty tick h e)"
proof -
  let ?d = "ho_device h" and ?c = "ho_capability h"
  show ?thesis
  proof (cases "confirmed_owner_of e ?d ?c")
    case (Some owner)
    then show ?thesis by (simp add: perform_handover_def superseded_discharges)
  next
    case free: None
    show ?thesis
    proof (cases "claimant_of e ?d ?c")
      case (Some i)
      with free show ?thesis by (simp add: perform_handover_def await_discharges)
    next
      case None
      obtain b ok where r: "release_claim ?d ?c tick (en_handovers e) = (b, ok)" by fastforce
      have ob: "owed b = owed (en_handovers e)"
        using owed_kept(3) [of ?d ?c tick "en_handovers e"] r by simp
      let ?b = "e\<lparr>en_handovers := b\<rparr>"
      let ?l = "en_log ''info'' [Txt ''the claim on '', Txt ?d, Txt ''/'', Txt ?c, Txt '' is gone; its handover resumes''] ?b"
      have b: "discharges e ?b" using ob by (intro discharges_quiet) simp_all
      have go: "discharges x (attempt_handover duty tick h x)"
        if "is_due (en_handovers x) ?d ?c tick" "en_rules x = en_rules e" "en_states x = en_states e" for x
        using attempt_discharges [of x h] due_owed [OF that(1)] None owners_same [OF that(2,3)]
        by (simp add: channel_def)
      have l: "discharges e ?l" using b by simp
      have "discharges e (attempt_handover duty tick h ?l)" if "is_due b ?d ?c tick"
        using discharges_trans [OF l go [of ?l]] that by simp
      then show ?thesis
      proof (cases "ho_state h = Pending")
        case True
        then show ?thesis using free None go [of e] by (simp add: perform_handover_def)
      next
        case False
        then have "perform_handover duty tick h e = (if ok then if is_due b ?d ?c tick
            then attempt_handover duty tick h ?l else ?l else ?b)"
          by (simp add: perform_handover_def free None r Let_def)
        with b l \<open>_ \<Longrightarrow> discharges e (attempt_handover duty tick h ?l)\<close> show ?thesis by simp
      qed
    qed
  qed
qed

lemma fold_perform: "discharges x (fold (perform_handover duty tick) hs x)"
  by (intro fold_discharges perform_discharges)

lemma pending_discharges: "discharges e (perform_pending_handovers tick e)"
proof -
  let ?v = "verify_recovered_state e"
  have v: "discharges e ?v" "discharges e (?v\<lparr>en_dirty := True\<rparr>)"
    using verify_state_discharges [of e] by simp_all
  from v discharges_trans [OF v(1) fold_perform] discharges_trans [OF v(2) fold_perform] show ?thesis
    by (simp add: perform_pending_handovers_def Let_def)
qed

text \<open>C10. A channel is never silently forgotten: one that the handover pass takes off the book either
  had a rule that confirmed a write to it, or was given a write under the safety origin, which is in the
  audit with a value that counts as confirmed: the device's own adapter was given, at that moment, what the
  gate made of that write and answered that it applied, or simulated, that value; or the runtime is in a
  dry run, in which the hardware is not touched.\<close>
theorem handover_settled_by_evidence:
  assumes "(d, c) \<in> owed (en_handovers e)"
    and "(d, c) \<notin> owed (en_handovers (perform_pending_handovers tick e))"
  shows "(\<exists>i. confirmed_owner_of e d c = Some i)
    \<or> (\<exists>r rep. same_config (en_runtime e) r \<and> vouched r rep
          \<and> Audit_Write rep \<in> set (drop (length (rt_audit (en_runtime e)))
            (rt_audit (en_runtime (perform_pending_handovers tick e))))
          \<and> wr_device_id rep = d \<and> wr_capability rep = c \<and> (\<exists>why. wr_origin rep = SafetyOrigin why)
          \<and> confirms (wr_status rep) \<and> wr_applied rep \<noteq> None)"
proof -
  obtain new where new: "rt_audit (en_runtime (perform_pending_handovers tick e)) = rt_audit (en_runtime e) @ new"
    "\<forall>x \<in> owed (en_handovers e) - owed (en_handovers (perform_pending_handovers tick e)). settled e new x"
    using pending_discharges [of e tick] by (auto simp: discharges_def)
  with assms have "settled e new (d, c)" by blast
  then show ?thesis using new(1) unfolding settled_def safe_write_settles_def by (elim disjE exE conjE) auto
qed

text \<open>C19. A safety write never fights a rule: the handover pass writes only under the safety origin, only
  channels the book owes, and none that an enabled rule targets.\<close>
theorem claimed_channel_untouched:
  "\<exists>new. rt_audit (en_runtime (perform_pending_handovers tick e)) = rt_audit (en_runtime e) @ new
    \<and> list_all (\<lambda>a. case a of Audit_Lifecycle _ _ \<Rightarrow> False | Audit_Write rep \<Rightarrow>
          (case wr_origin rep of SafetyOrigin _ \<Rightarrow> True | _ \<Rightarrow> False)
          \<and> (wr_device_id rep, wr_capability rep) \<in> owed (en_handovers e)
          \<and> (wr_device_id rep, wr_capability rep) \<notin> live_channels (en_rules e)) new"
proof -
  obtain new where new: "rt_audit (en_runtime (perform_pending_handovers tick e)) = rt_audit (en_runtime e) @ new"
    "\<forall>a \<in> set new. safe_write_of e a"
    using pending_discharges [of e tick] by (auto simp: discharges_def)
  have "(d, c) \<notin> live_channels (en_rules e)" if "claimant_of e d c = None" for d c
    using that by (auto simp: claimant_of_def live_channels_def find_None_iff targets_channel_def rule_channel_def)
  with new show ?thesis
    by (intro exI [of _ new]) (auto simp: list_all_iff safe_write_of_def split: audit_entry.split)
qed

subsection \<open>Across a restart\<close>

text \<open>The channels a rule wrote without learning the result, less those that \<open>rules\<close> still drive.\<close>

definition undriven :: "rule list \<Rightarrow> rule_states \<Rightarrow> (string \<times> string) set" where
  "undriven rules s = {(ch_device h, ch_capability h) | i st h. (i, st) \<in> set s \<and> rs_control st = Some h
     \<and> ch_confirmed h = None
     \<and> (\<forall>r \<in> set rules. rl_enabled r \<longrightarrow> rl_id r = i \<longrightarrow> rule_channel r \<noteq> (ch_device h, ch_capability h))}"

lemma channel_live [simp]: "channel (live_item (store_item h)) = channel h" "channel (live_hold w) = (sw_device w, sw_capability w)"
  by (simp_all add: channel_def live_item_def store_item_def live_hold_def)

lemma map_filter_set: "set (List.map_filter f xs) = {y. \<exists>x \<in> set xs. f x = Some y}"
  by (induction xs) (auto simp: List.map_filter_def split: option.splits)

lemma unconfirmed_hold_Some:
  "unconfirmed_hold (i, st) = Some w \<longleftrightarrow> (\<exists>h. rs_control st = Some h \<and> ch_confirmed h = None
     \<and> w = \<lparr>sw_rule_id = i, sw_device = ch_device h, sw_capability = ch_capability h,
             sw_last_write_ms = ch_last_write_ms h\<rparr>)"
  by (auto simp: unconfirmed_hold_def split: option.split)

lemma still_driven_iff:
  "still_driven rules w \<longleftrightarrow> (\<exists>r \<in> set rules. rl_enabled r \<and> rl_id r = sw_rule_id w
     \<and> rule_channel r = (sw_device w, sw_capability w))"
  by (auto simp: still_driven_def list_ex_iff rule_channel_def)

lemma recovered_holds:
  "channel ` live_hold ` {w \<in> set (List.map_filter unconfirmed_hold s). \<not> still_driven rules w} = undriven rules s"
proof (intro set_eqI iffI)
  fix x assume "x \<in> channel ` live_hold ` {w \<in> set (List.map_filter unconfirmed_hold s). \<not> still_driven rules w}"
  then obtain i st w where w: "(i, st) \<in> set s" "unconfirmed_hold (i, st) = Some w" "\<not> still_driven rules w"
    "x = (sw_device w, sw_capability w)" by (fastforce simp: map_filter_set)
  then obtain h where "rs_control st = Some h" "ch_confirmed h = None" "w = \<lparr>sw_rule_id = i,
      sw_device = ch_device h, sw_capability = ch_capability h, sw_last_write_ms = ch_last_write_ms h\<rparr>"
    by (auto simp: unconfirmed_hold_Some)
  with w show "x \<in> undriven rules s" unfolding undriven_def still_driven_iff by fastforce
next
  fix x assume "x \<in> undriven rules s"
  then obtain i st h where h: "x = (ch_device h, ch_capability h)" "(i, st) \<in> set s" "rs_control st = Some h"
    "ch_confirmed h = None"
    "\<forall>r \<in> set rules. rl_enabled r \<longrightarrow> rl_id r = i \<longrightarrow> rule_channel r \<noteq> (ch_device h, ch_capability h)"
    unfolding undriven_def by blast
  let ?w = "\<lparr>sw_rule_id = i, sw_device = ch_device h, sw_capability = ch_capability h,
    sw_last_write_ms = ch_last_write_ms h\<rparr>"
  have "unconfirmed_hold (i, st) = Some ?w" "\<not> still_driven rules ?w"
    using h(3-5) by (auto simp: unconfirmed_hold_Some still_driven_iff)
  with h(2) have "?w \<in> {w \<in> set (List.map_filter unconfirmed_hold s). \<not> still_driven rules w}"
    by (auto simp: map_filter_set)
  moreover have "x = channel (live_hold ?w)" by (simp add: h(1))
  ultimately show "x \<in> channel ` live_hold ` {w \<in> set (List.map_filter unconfirmed_hold s). \<not> still_driven rules w}"
    by blast
qed

lemma recovered_channels:
  "channel ` set (recovered_items rules (build_recovery_record e)) = owed (en_handovers e) \<union> undriven rules (en_states e)"
proof -
  have "set (recovered_items rules (build_recovery_record e)) = live_item ` store_item ` set (hb_open (en_handovers e))
    \<union> live_hold ` {w \<in> set (List.map_filter unconfirmed_hold (en_states e)). \<not> still_driven rules w}"
    by (simp add: recovered_items_def build_recovery_record_def image_image)
  then have "channel ` set (recovered_items rules (build_recovery_record e))
    = (\<lambda>h. channel (live_item (store_item h))) ` set (hb_open (en_handovers e)) \<union> undriven rules (en_states e)"
    by (simp only: image_Un recovered_holds) (simp add: image_image)
  then show ?thesis by (simp add: owed_def)
qed

lemma recovered_from_disk:
  assumes "persist_control_state e = (e1, Inr ())"
  shows "(\<exists>r. load_record (en_disk e1) = Inr (Some r) \<and> r = build_recovery_record e)
    \<or> (load_record (en_disk e1) = Inr None \<and> record_is_empty (build_recovery_record e))"
proof -
  have v: "rv_version (build_recovery_record e) = RECOVERY_VERSION"
    by (simp add: build_recovery_record_def record_new_def)
  from assms have ok: "dk_write_error (en_disk e) = None"
    by (auto simp: persist_control_state_def save_record_def Let_def split: option.splits)
  with assms have "en_disk e1 = (let d = fst (save_record (build_recovery_record e) (en_disk e))
      in if record_is_empty (build_recovery_record e) then fst (clear_record d) else d)"
    by (auto simp: persist_control_state_def save_record_def Let_def split: option.splits)
  with v ok show ?thesis
    by (cases "record_is_empty (build_recovery_record e)"; cases "dk_remove_error (en_disk e)")
      (simp_all add: Let_def save_record_def load_record_def clear_record_def)
qed

text \<open>C17. Control responsibility survives the process: once the record is written, a fresh engine that reads
  it back owes every channel the old one owed, and every channel a rule had written without learning the
  result unless that rule is still there to drive it. Nothing recovered is acted on before it is verified.\<close>
theorem responsibility_survives_restart:
  assumes "persist_control_state e = (e1, Inr ())" and "en_disk f = en_disk e1"
  shows "(\<exists>n. snd (recover_control_state f) = Inr n)
    \<and> owed (en_handovers (fst (recover_control_state f)))
        = owed (en_handovers f) \<union> owed (en_handovers e) \<union> undriven (en_rules f) (en_states e)
    \<and> (\<forall>h \<in> set (hb_open (en_handovers (fst (recover_control_state f)))).
          h \<in> set (hb_open (en_handovers f)) \<or> ho_state h = NeedsVerification)"
  using recovered_from_disk [OF assms(1)]
proof (elim disjE exE conjE)
  fix r
  assume r: "load_record (en_disk e1) = Inr (Some r)" "r = build_recovery_record e"
  let ?b = "fold (\<lambda>h. restore_handover h (en_now f)) (recovered_items (en_rules f) r) (en_handovers f)"
  have "en_handovers (fst (recover_control_state f)) = ?b" "\<exists>n. snd (recover_control_state f) = Inr n"
    using r(1) assms(2) by (simp_all add: recover_control_state_def on_book_def Let_def)
  with restore_all(1) [of "en_now f" "recovered_items (en_rules f) r" "en_handovers f"]
    restore_all(2) [of _ "en_now f" "recovered_items (en_rules f) r" "en_handovers f"]
    recovered_channels [of "en_rules f" e] r(2) show ?thesis by (simp add: Un_ac)
next
  assume none: "load_record (en_disk e1) = Inr None" and empty: "record_is_empty (build_recovery_record e)"
  have "recovered_items (en_rules f) (build_recovery_record e) = []"
    using empty by (simp add: record_is_empty_def recovered_items_def)
  with recovered_channels [of "en_rules f" e] have "owed (en_handovers e) \<union> undriven (en_rules f) (en_states e) = {}"
    by simp
  with none assms(2) show ?thesis by (simp add: recover_control_state_def)
qed

end
