(* ===== verification/Engine_Control.thy ===== *)
theory Engine_Control
  imports Engine_Handover
begin

section \<open>The engine: what a rule believes about its channel\<close>

text \<open>
  A rule's hold says which channel it wrote and which value the hardware confirmed. The hold is
  never better than the evidence: a confirmed value comes from a confirming report.
\<close>

definition evidence :: "string \<Rightarrow> control_hold \<Rightarrow> f64 \<Rightarrow> write_report \<Rightarrow> bool" where
  "evidence i h v rep \<longleftrightarrow> wr_origin rep = Automation i
     \<and> (wr_device_id rep, wr_capability rep) = (ch_device h, ch_capability h)
     \<and> confirms (wr_status rep) \<and> Option.bind (wr_applied rep) as_f64 = Some v"

text \<open>The memory \<open>st\<close> of the rule \<open>i\<close> against what it was and the audit entries since.\<close>

definition founded :: "string \<Rightarrow> control_hold option \<Rightarrow> audit_entry list \<Rightarrow> control_hold option \<Rightarrow> bool" where
  "founded i before new after \<longleftrightarrow> (\<forall>h v. after = Some h \<longrightarrow> ch_confirmed h = Some v \<longrightarrow>
     before = Some h \<or> (\<exists>rep. Audit_Write rep \<in> set new \<and> evidence i h v rep))"

definition learns :: "'w engine \<Rightarrow> 'w engine \<Rightarrow> bool" where
  "learns e e' \<longleftrightarrow> (\<exists>new. rt_audit (en_runtime e') = rt_audit (en_runtime e) @ new
     \<and> (\<forall>i. founded i (held_by e i) new (held_by e' i)))"

lemma founded_refl [simp]: "founded i b new b"
  by (simp add: founded_def)

lemma founded_none [simp]: "founded i b new None" "ch_confirmed h = None \<Longrightarrow> founded i b new (Some h)"
  by (simp_all add: founded_def)

lemma founded_trans: "founded i a m b \<Longrightarrow> founded i b n c \<Longrightarrow> founded i a (m @ n) c"
  unfolding founded_def by (metis UnCI set_append)

lemma learns_trans:
  assumes "learns a b" and "learns b c"
  shows "learns a c"
proof -
  obtain m n where "rt_audit (en_runtime b) = rt_audit (en_runtime a) @ m"
    "rt_audit (en_runtime c) = rt_audit (en_runtime b) @ n"
    "\<And>i. founded i (held_by a i) m (held_by b i)" "\<And>i. founded i (held_by b i) n (held_by c i)"
    using assms by (auto simp: learns_def)
  then show ?thesis
    unfolding learns_def by (intro exI [of _ "m @ n"]) (auto intro: founded_trans)
qed

lemma learns_refl [simp]: "learns e e"
  by (auto simp: learns_def)

lemma evaluate_control:
  assumes "evaluate r st inp = Some (st', ev)"
  shows "rs_control st' = rs_control st"
  using assms
proof (cases rule: evaluate_cases)
  case disabled
  then show ?thesis by (simp add: outcome_memory_def)
qed (auto elim!: steer_result evaluate_gated_result evaluate_fallback_result
    simp: recorded_def carried_def outcome_memory_def split: if_splits)

lemma held_by_remember [simp]: "held_by (remember i st e) j = (if j = i then rs_control st else held_by e j)"
  by (simp add: held_by_def remember_def)

lemma audit_simps [simp]:
  "rt_audit (en_runtime (announce i k m e)) = rt_audit (en_runtime e)"
  "rt_audit (en_runtime (en_log l m e)) = rt_audit (en_runtime e)"
  "rt_audit (en_runtime (remember j st e)) = rt_audit (en_runtime e)"
  by (simp_all add: announce_def en_log_def on_runtime_def publish_automation_def rt_log_def remember_def)

lemma told_write:
  assumes "write_value rt d c v org = (rt', Inr rep)"
  shows "report_honest rep \<and> rt_audit rt' = rt_audit rt @ [Audit_Write rep] \<and> wr_origin rep = org
    \<and> wr_device_id rep = d \<and> wr_capability rep = c"
proof -
  obtain rt1 lost where "write_attempt rt d c v org = (rt1, Inr rep, lost)" "rt' = rt1"
    using assms [unfolded write_value_def] by (elim write_with_origin_split) auto
  then show ?thesis using report_of_attempt [of rt d c v org rt1 rep lost] by simp
qed

subsection \<open>One rule\<close>

lemma fall_back_control: "fall_back_after r err d c (e, st) = (e', st') \<Longrightarrow> rs_control st' = rs_control st"
  by (auto simp: fall_back_after_def Let_def split: prod.splits sum.splits)

lemma failure_control:
  "handle_write_failure r err d c now (e, st) = (e', st') \<Longrightarrow> rs_control st' = Some (unknown_hold d c now)"
  by (auto simp: handle_write_failure_def Let_def split: fallback_action.splits prod.splits dest!: fall_back_control)

lemma unconfirmed_control:
  "unconfirmed_output r ev rep d c out now (e, st) = (e', st') \<Longrightarrow> rs_control st' = Some (unknown_hold d c now)"
  by (auto simp: unconfirmed_output_def Let_def split: if_splits dest!: failure_control)

lemma unknown_unconfirmed [simp]: "ch_confirmed (unknown_hold d c now) = None"
  by (simp add: unknown_hold_def)

lemma write_output_control:
  assumes "write_output r ev d c out now (e, st) = (e', st', wrote)"
  shows "\<exists>new. rt_audit (en_runtime e') = rt_audit (en_runtime e) @ new
    \<and> founded (rl_id r) (rs_control st) new (rs_control st')"
proof -
  obtain new where new: "rt_audit (en_runtime e') = rt_audit (en_runtime e) @ new"
    using write_output_acts [OF assms] by (auto simp: acts_def drives_def)
  obtain rt res where w: "write_value (en_runtime e) (dev_id d) (cap_id c) (Number out) (Automation (rl_id r)) = (rt, res)"
    by fastforce
  show ?thesis
  proof (cases "\<exists>rep. res = Inr rep \<and> confirms (wr_status rep)")
    case False
    then have "rs_control st' = rs_control st \<or> rs_control st' = Some (unknown_hold d c now)"
      using assms w
      by (auto simp: write_output_def confirms_def Let_def split: sum.splits write_status.splits prod.splits
          dest: failure_control unconfirmed_control)
    with new show ?thesis by auto
  next
    case True
    then obtain rep where rep: "res = Inr rep" "confirms (wr_status rep)" by blast
    from told_write [of "en_runtime e"] w rep(1) have a: "rt_audit rt = rt_audit (en_runtime e) @ [Audit_Write rep]"
      "wr_origin rep = Automation (rl_id r)" "wr_device_id rep = dev_id d" "wr_capability rep = cap_id c" by blast+
    from rep w assms have "confirmed_output r ev rep d c now (e\<lparr>en_runtime := rt\<rparr>, st) = (e', st')"
      by (auto simp: write_output_def confirms_def Let_def split: prod.splits write_status.splits)
    then have "rt_audit (en_runtime e') = rt_audit (en_runtime e) @ [Audit_Write rep]"
      "rs_control st' = Some \<lparr>ch_device = dev_id d, ch_capability = cap_id c,
         ch_confirmed = Option.bind (wr_applied rep) as_f64, ch_last_write_ms = now\<rparr>"
      using a(1) by (auto simp: confirmed_output_def Let_def)
    with a(2-4) rep(2) show ?thesis
      by (intro exI [of _ "[Audit_Write rep]"]) (simp add: founded_def evidence_def)
  qed
qed

lemma close_run_control:
  "close_run r ev wrote (e, st) = (e', st') \<Longrightarrow> rs_control st' = None \<or> rs_control st' = rs_control st"
  by (auto simp: close_run_def Let_def split: if_splits)

lemma run_rule_learns:
  assumes "run_rule r st now stale duty e = Some (e', out)" and "rs_control st = held_by e (rl_id r)"
  shows "learns e e'"
proof (cases "rt_resolve (en_runtime e) (tg_device (rl_target r)) (tg_capability (rl_target r))")
  case (Inl err)
  with assms show ?thesis
    by (auto simp: run_rule_def Let_def learns_def held_by_def)
next
  case (Inr t)
  then obtain d c where t: "rt_resolve (en_runtime e) (tg_device (rl_target r)) (tg_capability (rl_target r)) = Inr (d, c)"
    by (cases t) auto
  obtain st1 ev where ev: "evaluate r st (engine_input e r c now stale duty) = Some (st1, ev)"
    using assms by (auto simp: run_rule_def t split: option.splits)
  obtain e1 st2 wrote where w: "(case ev_output ev of
      Some out \<Rightarrow> if ev_should_write ev then write_output r ev d c out now (e, st1) else (e, st1, False)
    | None \<Rightarrow> (e, st1, False)) = (e1, st2, wrote)" by (metis prod_cases3)
  obtain e2 st3 where c: "close_run r ev wrote (e1, st2) = (e2, st3)" by fastforce
  have e': "e' = remember (rl_id r) st3 e2"
    using assms(1) by (simp add: run_rule_def t ev w c Let_def)
  have st1: "rs_control st1 = held_by e (rl_id r)" using evaluate_control [OF ev] assms(2) by simp
  obtain new where new: "rt_audit (en_runtime e1) = rt_audit (en_runtime e) @ new"
    "founded (rl_id r) (held_by e (rl_id r)) new (rs_control st2)"
    using w write_output_control [of r ev d c _ now e st1 e1 st2 wrote] st1
    by (auto split: option.splits if_splits)
  have a2: "rt_audit (en_runtime e2) = rt_audit (en_runtime e1)"
    using c by (auto simp: close_run_def Let_def split: if_splits)
  have "founded (rl_id r) (held_by e (rl_id r)) new (rs_control st3)"
    using close_run_control [OF c] new(2) by auto
  moreover have "held_by e2 j = held_by e j" if "j \<noteq> rl_id r" for j
  proof -
    have "acts [] (rl_id r) e e' \<or> acts [rule_channel r] (rl_id r) e e'" using run_rule_acts [OF assms(1)] .
    with that show ?thesis by (auto simp: acts_def held_by_def e' remember_def)
  qed
  ultimately show ?thesis
    using new(1) a2 by (auto simp: learns_def e')
qed

subsection \<open>The whole tick\<close>

lemma tick_rules_learns:
  assumes "tick_rules force now stale duty rs claimed e = Some (e', outs)"
  shows "learns e e'"
  using assms
proof (induction rs arbitrary: claimed e outs)
  case (Cons r rs)
  let ?t = "target_id (rl_target r)"
  let ?st = "state_or_new (en_states e) (rl_id r)"
  have st: "rs_control ?st = held_by e (rl_id r)"
    by (cases "states_get (en_states e) (rl_id r)")
      (simp_all add: state_or_new_def held_by_def or_default_def rule_state_new_def)
  have q: "learns e (remember (rl_id r) ?st e)"
    using st by (auto simp: learns_def)
  consider (off) "\<not> rl_enabled r" | (taken) "rl_enabled r" "?t \<in> set claimed" | (free) "rl_enabled r" "?t \<notin> set claimed"
    by blast
  then show ?case
  proof cases
    case off
    with Cons show ?thesis by simp
  next
    case taken
    obtain e1 out where s: "stand_down r now e = (e1, out)" by fastforce
    have "learns e e1" using s st by (auto simp: stand_down_def Let_def learns_def held_by_def)
    with taken Cons s show ?thesis by (auto split: option.splits intro: learns_trans)
  next
    case free
    show ?thesis
    proof (cases "\<not> force \<and> now < rs_next_due_ms ?st")
      case True
      with free Cons q show ?thesis by (auto simp: Let_def intro: learns_trans)
    next
      case False
      with free Cons.prems obtain e1 out outs1
        where r: "run_rule r ?st now stale duty (remember (rl_id r) ?st e) = Some (e1, out)"
        and rest: "tick_rules force now stale duty rs (claimed @ [?t]) e1 = Some (e', outs1)"
        by (auto simp: Let_def split: option.splits if_splits)
      have "learns (remember (rl_id r) ?st e) e1" using run_rule_learns [OF r] by simp
      with q Cons.IH [OF rest] show ?thesis by (blast intro: learns_trans)
    qed
  qed
qed simp

text \<open>C18. A rule believes only the hardware: a confirmed value in its hold after a tick was there before, or
  the tick's audit has that rule's own write of that channel, confirmed with that value.\<close>
theorem confirmed_only_from_report:
  fixes e :: "'a engine"
  assumes "tick_inner force e = Some (e', outs)" and "held_by e' i = Some h" and "ch_confirmed h = Some v"
  shows "held_by e i = Some h
    \<or> (\<exists>rep. Audit_Write rep \<in> set (drop (length (rt_audit (en_runtime e))) (rt_audit (en_runtime e')))
          \<and> wr_origin rep = Automation i \<and> wr_device_id rep = ch_device h \<and> wr_capability rep = ch_capability h
          \<and> confirms (wr_status rep) \<and> Option.bind (wr_applied rep) as_f64 = Some v)"
proof -
  let ?e = "e\<lparr>en_ticks := bump (en_ticks e), en_last_tick_ms := en_now e\<rparr>"
  let ?p = "perform_pending_handovers (en_ticks e) ?e"
  have bump: "learns ?e x = learns e x" for x :: "'a engine"
    by (simp add: learns_def held_by_def)
  have p: "learns ?e ?p"
    using pending_discharges [of ?e "en_ticks e"] by (auto simp: discharges_def learns_def held_by_def)
  have "learns e e'"
  proof (cases "st_automation_enabled (rt_settings (en_runtime e))")
    case False
    with assms show ?thesis by (auto simp: tick_inner_def Let_def learns_def held_by_def)
  next
    case True
    with assms obtain e1 where t: "tick_rules force (en_now e) (rt_is_stale (en_runtime e) 3)
        (sp_fail_safe_duty_percent (st_safety (rt_settings (en_runtime e)))) (en_rules ?p) [] ?p = Some (e1, outs)"
      and e': "e' = flush_control_state e1"
      by (auto simp: tick_inner_def Let_def split: option.splits)
    have "quiet e1 e'" by (simp add: e')
    then have "learns e1 e'" by (simp add: quiet_def learns_def held_by_def e')
    with tick_rules_learns [OF t] p bump show ?thesis by (blast intro: learns_trans)
  qed
  then obtain new where "rt_audit (en_runtime e') = rt_audit (en_runtime e) @ new"
    "founded i (held_by e i) new (held_by e' i)" by (auto simp: learns_def)
  with assms(2,3) show ?thesis by (auto simp: founded_def evidence_def)
qed

end
