(* ===== verification/Engine_Demo.thy ===== *)
theory Engine_Demo
  imports Engine_Control
begin

section \<open>An engine to look at\<close>

text \<open>
  A concrete engine over the runtime of \<open>Runtime_Correct\<close>: the properties of the engine at work, and
  what modelling the engine showed.
\<close>

definition demo_disk :: disk where
  "demo_disk = \<lparr>dk_path = ''control_state.json'', dk_file = No_File, dk_write_error = None, dk_remove_error = None\<rparr>"

definition demo_rule :: rule where
  "demo_rule = example_rule\<lparr>rl_id := ''cooling'', rl_source := Single ''cpu.0'' TEMPERATURE_CORE,
     rl_target := \<lparr>tg_device = ''fan.0'', tg_capability = FAN_SPEED_PERCENT\<rparr>\<rparr>"

definition demo_pair :: "rule list" where
  "demo_pair = [demo_rule, demo_rule\<lparr>rl_id := ''second''\<rparr>]"

definition demo_engine :: "(string \<times> string \<times> val) list engine" where
  "demo_engine = (engine_new demo_runtime demo_disk)\<lparr>en_rules := demo_pair\<rparr>"

lemma demo_rule_fields:
  "rl_id demo_rule = ''cooling''" "rl_enabled demo_rule" "tg_device (rl_target demo_rule) = ''fan.0''"
  "tg_capability (rl_target demo_rule) = FAN_SPEED_PERCENT" "rl_priority demo_rule = 0"
  by (simp_all add: demo_rule_def example_rule_def)

lemma demo_rule_valid: "validate_rule demo_rule = Inr ()" "validate_rule (demo_rule\<lparr>rl_id := ''second''\<rparr>) = Inr ()"
  using example_rule_valid
  by (simp_all add: validate_rule_ok demo_rule_def valid_rule_def target_as_sensor_def example_rule_def)

abbreviation demo_cap :: capability where
  "demo_cap \<equiv> cap_actuator FAN_SPEED_PERCENT ''Speed'' Percent (Fin 0) (Fin 100)"

lemma demo_resolve: "rt_resolve demo_runtime ''fan.0'' FAN_SPEED_PERCENT = Inr (demo_fan, demo_cap)"
  by (simp add: rt_resolve_def resolve_def demo_runtime_simps table_get_def demo_device_simps ok_or_def)

lemma demo_write:
  "\<exists>rt rep. write_value demo_runtime ''fan.0'' FAN_SPEED_PERCENT (Number (Fin 70)) org = (rt, Inr rep)
     \<and> wr_status rep = Write_Applied \<and> wr_applied rep = Some (Number (Fin 70))"
proof -
  have hot: "hottest_temperature (count_attempt demo_runtime) = None"
    by (simp add: hottest_temperature_def demo_hot_simps demo_device_simps count_attempt_def upd_stats_def store_all_def
        store_new_def units_map_def reading_celsius_def is_temperature_def List.map_filter_simps)
  have current: "store_number (rt_store demo_runtime) ''fan.0'' FAN_SPEED_PERCENT = None"
    by (simp add: demo_hot_simps store_new_def store_number_def store_latest_def)
  have gate: "check_duty default_policy Fan (Fin 70) None None = Allow (Fin 70) None"
    by (simp add: default_policy_def check_duty_def emergency_override_def
        duty_floor_def ramp_limit_def Let_def fclamp_def)
  have vet: "vet (count_attempt demo_runtime) demo_fan demo_cap (Number (Fin 70))
      = (count_attempt demo_runtime, Inr (Number (Fin 70), False, None))"
    using gate current
    by (simp add: vet_def hot demo_device_simps clamp_capability_def opt_fmin_def opt_fmax_def or_default_def
        is_duty_control_def is_duty_unit_def)
       (simp add: count_attempt_def upd_stats_def demo_runtime_simps or_default_def default_settings_def demo_device_simps Let_def Fin_minus rnd_exact f64_epsilon_def not_less)
  have lookup: "lookup_target demo_runtime ''fan.0'' FAN_SPEED_PERCENT = Inr (demo_fan, demo_cap, True)"
    and ok: "refusal demo_fan demo_cap True (Number (Fin 70)) = None"
    by (simp_all add: lookup_target_def demo_runtime_simps demo_device_simps table_get_def ok_or_def refusal_def
        validate_capability_def)
  have live: "\<not> st_dry_run (rt_settings demo_runtime)"
    and adapter: "find_adapter (rt_adapters demo_runtime) (dev_adapter demo_fan) = Some demo_adapter"
    by (simp_all add: demo_hot_simps demo_device_simps find_adapter_def ad_id_def demo_adapter_def adapter_info_new_def)
  have same: "rt_settings (count_attempt demo_runtime) = rt_settings demo_runtime"
    "rt_adapters (count_attempt demo_runtime) = rt_adapters demo_runtime"
    by (simp_all add: count_attempt_def upd_stats_def)
  show ?thesis
    by (simp add: write_value_def write_with_origin_def write_attempt_def lookup ok vet live adapter same Let_def)
      (simp add: demo_adapter_def outcome_applied_def confirms_def Let_def)
qed

lemma demo_evaluation:
  "\<exists>st ev. evaluate demo_rule (rule_state_new ''cooling'') (engine_input e demo_rule demo_cap 1 True (Fin 70)) = Some (st, ev)
     \<and> ev_output ev = Some (Fin 70) \<and> ev_should_write ev \<and> \<not> ev_release ev \<and> rs_control st = None"
  by (simp add: evaluate_def finite_only_def Let_def demo_rule_def example_rule_def engine_input_def read_source_def read_condition_def
      stale_value_within_grace_def grace_ms_def default_fallback_def rule_state_new_def evaluate_fallback_def
      fallback_decision_def clamp_checked_def or_default_def cap_actuator_def duty_changed_def note_skipped_def
      fclamp_def)

text \<open>Nothing was ever polled, so the first rule writes its fail-safe duty and the second stands down.\<close>

lemma demo_run:
  assumes "en_runtime e = demo_runtime"
  shows "\<exists>e' out. run_rule demo_rule (rule_state_new ''cooling'') 1 True (Fin 70) e = Some (e', out)
    \<and> held_by e' ''cooling'' = Some \<lparr>ch_device = ''fan.0'', ch_capability = FAN_SPEED_PERCENT,
         ch_confirmed = Some (Fin 70), ch_last_write_ms = 1\<rparr>"
proof -
  obtain st ev where ev: "evaluate demo_rule (rule_state_new ''cooling'') (engine_input e demo_rule demo_cap 1 True (Fin 70))
      = Some (st, ev)" "ev_output ev = Some (Fin 70)" "ev_should_write ev" "\<not> ev_release ev"
    using demo_evaluation by blast
  obtain rt rep where w: "write_value demo_runtime ''fan.0'' FAN_SPEED_PERCENT (Number (Fin 70)) (Automation ''cooling'')
      = (rt, Inr rep)" "wr_status rep = Write_Applied" "wr_applied rep = Some (Number (Fin 70))"
    using demo_write by blast
  have c: "cap_id demo_cap = FAN_SPEED_PERCENT" by (simp add: cap_actuator_def)
  show ?thesis
    by (simp add: run_rule_def demo_rule_fields assms demo_resolve ev write_output_def c w Let_def
        confirmed_output_def close_run_def held_by_def)
qed

lemma demo_tick:
  "\<exists>e' outs. tick_inner True demo_engine = Some (e', outs)
     \<and> held_by e' ''cooling'' = Some \<lparr>ch_device = ''fan.0'', ch_capability = FAN_SPEED_PERCENT,
          ch_confirmed = Some (Fin 70), ch_last_write_ms = 1\<rparr>"
proof -
  let ?e = "demo_engine\<lparr>en_ticks := Suc 0, en_last_tick_ms := 1\<rparr>"
  let ?st = "rule_state_new ''cooling''"
  have e: "en_runtime demo_engine = demo_runtime" "en_now demo_engine = 1" "en_ticks demo_engine = 0"
    "en_rules demo_engine = demo_pair" "en_states demo_engine = []" "hb_open (en_handovers demo_engine) = []"
    "en_dirty demo_engine = False"
    by (simp_all add: demo_engine_def engine_new_def en_now_def empty_book_def demo_runtime_def runtime_new_def Let_def)
  have s: "st_automation_enabled (rt_settings demo_runtime)" "rt_is_stale demo_runtime 3"
    "sp_fail_safe_duty_percent (st_safety (rt_settings demo_runtime)) = Fin 70"
    by (simp_all add: demo_hot_simps rt_is_stale_def)
      (simp add: demo_runtime_def runtime_new_def Let_def default_stats_def)
  have p: "perform_pending_handovers 0 ?e = ?e"
    by (simp add: perform_pending_handovers_def verify_recovered_state_def Let_def e)
  have st: "state_or_new [] ''cooling'' = ?st" by (simp add: state_or_new_def states_get_def or_default_def)
  obtain e1 out where r: "run_rule demo_rule ?st 1 True (Fin 70) (remember ''cooling'' ?st ?e) = Some (e1, out)"
    and h: "held_by e1 ''cooling'' = Some \<lparr>ch_device = ''fan.0'', ch_capability = FAN_SPEED_PERCENT,
       ch_confirmed = Some (Fin 70), ch_last_write_ms = 1\<rparr>"
    using demo_run [of "remember ''cooling'' ?st ?e"] by (auto simp: remember_def e)
  let ?r = "demo_rule\<lparr>rl_id := ''second''\<rparr>"
  obtain e2 out2 where sd: "stand_down ?r 1 e1 = (e2, out2)" by fastforce
  have "held_by e2 ''cooling'' = held_by e1 ''cooling''"
    using stand_down_acts [OF sd] by (simp add: acts_def held_by_def)
  with h have "held_by (flush_control_state e2) ''cooling'' = Some \<lparr>ch_device = ''fan.0'',
      ch_capability = FAN_SPEED_PERCENT, ch_confirmed = Some (Fin 70), ch_last_write_ms = 1\<rparr>"
    by (simp add: held_by_def)
  moreover have "tick_inner True demo_engine = Some (flush_control_state e2, [out, out2])"
    using p by (simp add: tick_inner_def e s Let_def bump_def st demo_pair_def demo_rule_fields r sd)
  ultimately show ?thesis by blast
qed

theorem one_writer_per_tick_witness:
  "\<exists>e' outs. tick_inner True demo_engine = Some (e', outs)
     \<and> distinct (automation_writes (rt_audit (en_runtime e')))
     \<and> set (automation_writes (rt_audit (en_runtime e'))) \<subseteq> {(''fan.0'', FAN_SPEED_PERCENT)}"
proof -
  obtain e' outs where t: "tick_inner True demo_engine = Some (e', outs)" using demo_tick by blast
  obtain new where n: "rt_audit (en_runtime e') = rt_audit (en_runtime demo_engine) @ new"
    "distinct (automation_writes new)" "set (automation_writes new) \<subseteq> live_channels (en_rules demo_engine)"
    using one_writer_per_tick [OF t] by blast
  have "rt_audit (en_runtime demo_engine) = []"
    by (simp add: demo_engine_def engine_new_def demo_runtime_simps)
  moreover have "live_channels (en_rules demo_engine) \<subseteq> {(''fan.0'', FAN_SPEED_PERCENT)}"
    by (auto simp: live_channels_def demo_engine_def engine_new_def demo_pair_def demo_rule_fields rule_channel_def)
  ultimately show ?thesis using n t by auto
qed

theorem confirmed_only_from_report_witness:
  "\<exists>e' outs rep. tick_inner True demo_engine = Some (e', outs) \<and> Audit_Write rep \<in> set (rt_audit (en_runtime e'))
     \<and> wr_origin rep = Automation ''cooling'' \<and> wr_device_id rep = ''fan.0''
     \<and> Option.bind (wr_applied rep) as_f64 = Some (Fin 70)"
proof -
  let ?h = "\<lparr>ch_device = ''fan.0'', ch_capability = FAN_SPEED_PERCENT, ch_confirmed = Some (Fin 70), ch_last_write_ms = 1\<rparr>"
  obtain e' outs where t: "tick_inner True demo_engine = Some (e', outs)" "held_by e' ''cooling'' = Some ?h"
    using demo_tick by blast
  have "held_by demo_engine ''cooling'' = None"
    by (simp add: held_by_def demo_engine_def engine_new_def states_get_def)
  with confirmed_only_from_report [OF t, of "Fin 70"] t(1) show ?thesis
    by (auto dest: in_set_dropD)
qed

text \<open>The two rules as files: the later one is stood down when they are loaded.\<close>

definition demo_files :: rule_directory where
  "demo_files = Listing [\<lparr>fl_path = ''a'', fl_stem = None, fl_content = Inr demo_rule\<rparr>,
     \<lparr>fl_path = ''b'', fl_stem = None, fl_content = Inr (demo_rule\<lparr>rl_id := ''second''\<rparr>)\<rparr>]"

definition demo_loaded :: "(string \<times> string \<times> val) list engine" where
  "demo_loaded = (load_rules (load_rule_files ''rules'' demo_files) (engine_new demo_runtime demo_disk))
     \<lparr>en_runtime := demo_runtime, en_disk := demo_disk\<rparr>"

lemma demo_files_rules: "lr_rules (load_rule_files ''rules'' demo_files) = demo_pair"
proof -
  have "substitute_release p demo_rule = (demo_rule, [])"
    "substitute_release p (demo_rule\<lparr>rl_id := ''second''\<rparr>) = (demo_rule\<lparr>rl_id := ''second''\<rparr>, [])" for p
    by (simp_all add: substitute_release_def demo_rule_def example_rule_def default_fallback_def Let_def)
  then have "load_rule_file \<lparr>fl_path = p, fl_stem = None, fl_content = Inr r\<rparr> = Inr (r, [])" if "r \<in> set demo_pair" for p r
    using that demo_rule_valid by (auto simp: load_rule_file_def demo_pair_def Let_def)
  then show ?thesis
    by (simp add: load_rule_files_def demo_files_def Let_def add_rule_file_def demo_pair_def demo_rule_fields list_less_def)
qed

lemma sort_rules_twice [simp]: "sort_rules (sort_rules rs) = sort_rules rs"
  by (simp add: sort_rules_def sort_key_id_if_sorted)

lemma load_rules_list: "en_rules (load_rules rep e) = fst (stand_down_later [] (sort_rules (lr_rules rep)))"
proof -
  have 1: "en_rules (flush_control_state (resolve_loaded_conflicts x)) = fst (stand_down_later [] (sort_rules (lr_rules rep)))"
    if "en_rules x = sort_rules (lr_rules rep)" for x :: "'a engine"
    using that by (cases "stand_down_later [] (sort_rules (lr_rules rep))")
      (simp add: resolve_loaded_conflicts_def Let_def fold_fields)
  have 2: "en_rules (if en_recovered x then x else (case recover_control_state (x\<lparr>en_recovered := True\<rparr>) of
      (y, Inl err) \<Rightarrow> announce None ''control_state_recovery_failed'' (error_display err) y | (y, Inr _) \<Rightarrow> y))
    = en_rules x" for x :: "'a engine"
  proof -
    have "en_rules y = en_rules x" if "recover_control_state (x\<lparr>en_recovered := True\<rparr>) = (y, res)" for y res
      using recover_rules [of "x\<lparr>en_recovered := True\<rparr>"] that by simp
    then show ?thesis by (auto split: prod.split sum.split)
  qed
  show ?thesis
    unfolding load_rules_def Let_def 2 by (rule 1) (simp add: load_tail_rules)
qed

lemma demo_loaded_rules: "en_rules demo_loaded = [demo_rule, demo_rule\<lparr>rl_id := ''second'', rl_enabled := False\<rparr>]"
  by (simp add: demo_loaded_def load_rules_list demo_files_rules sort_rules_def demo_pair_def rule_key_def demo_rule_fields
      owner_of_def list_less_def less_prod_def)

lemma demo_loaded_reachable: "engine_reachable demo_loaded"
  unfolding demo_loaded_def by (intro engine_reachable.intros)

theorem one_enabled_rule_per_output_witness:
  "distinct (map (\<lambda>r. target_id (rl_target r)) (filter rl_enabled (en_rules demo_loaded)))
    \<and> map rl_enabled (en_rules demo_loaded) = [True, False]"
  using one_enabled_rule_per_output [OF demo_loaded_reachable] by (simp add: demo_loaded_rules demo_rule_fields)

theorem tick_returns_witness: "\<exists>e' outs. tick_inner True demo_loaded = Some (e', outs)"
proof (rule tick_returns [OF demo_loaded_reachable])
  have "en_runtime demo_loaded = demo_runtime" by (simp add: demo_loaded_def)
  then show "targets_ordered (en_runtime demo_loaded) (en_rules demo_loaded)"
    by (auto simp: targets_ordered_def demo_loaded_rules demo_rule_fields demo_resolve cap_actuator_def or_default_def)
qed

subsection \<open>Handovers\<close>

abbreviation demo_hold :: "f64 option \<Rightarrow> control_hold" where
  "demo_hold v \<equiv> \<lparr>ch_device = ''fan.0'', ch_capability = FAN_SPEED_PERCENT, ch_confirmed = v, ch_last_write_ms = 1\<rparr>"

definition demo_driving :: "(string \<times> string \<times> val) list engine" where
  "demo_driving = demo_engine\<lparr>en_states :=
     [(''cooling'', (rule_state_new ''cooling'')\<lparr>rs_control := Some (demo_hold None)\<rparr>)]\<rparr>"

lemma demo_id: "validate_id ''cooling'' k = Inr ()"
  by (simp add: validate_id_ok max_id_len_def id_char_def is_ascii_lower_def byte_def)

theorem leaving_control_is_owed_witness:
  "(''fan.0'', FAN_SPEED_PERCENT) \<in> owed (en_handovers (fst (delete_rule (Inr True) ''cooling'' demo_driving)))"
proof -
  obtain e' res where d: "delete_rule (Inr True) ''cooling'' demo_driving = (e', res)" by fastforce
  then have "\<exists>existed. res = Inr existed"
    by (auto simp: delete_rule_def new_id_def demo_id Let_def)
  with d have "\<exists>existed. delete_rule (Inr True) (rl_id demo_rule) demo_driving = (e', Inr existed)"
    by (simp add: demo_rule_fields)
  moreover have "held_by demo_driving (rl_id demo_rule) = Some (demo_hold None)"
    by (simp add: demo_driving_def held_by_def states_get_def demo_rule_fields)
  ultimately have "(ch_device (demo_hold None), ch_capability (demo_hold None)) \<in> owed (en_handovers e')"
    using leaving_control_is_owed by blast
  with d show ?thesis by simp
qed

definition demo_owing :: "(string \<times> string \<times> val) list engine" where
  "demo_owing = (engine_new demo_runtime demo_disk)\<lparr>en_handovers :=
     \<lparr>hb_open = [new_handover ''fan.0'' FAN_SPEED_PERCENT ''cooling'' [Txt ''deleted''] 0 1], hb_history = []\<rparr>\<rparr>"

theorem handover_settled_by_evidence_witness:
  "\<exists>rep. Audit_Write rep \<in> set (rt_audit (en_runtime (perform_pending_handovers 0 demo_owing)))
     \<and> wr_device_id rep = ''fan.0'' \<and> confirms (wr_status rep) \<and> wr_applied rep \<noteq> None"
proof -
  obtain rt rep where w: "write_value demo_runtime ''fan.0'' FAN_SPEED_PERCENT (Number (Fin 70))
      (SafetyOrigin [Txt ''deleted'']) = (rt, Inr rep)" "wr_status rep = Write_Applied" "wr_applied rep = Some (Number (Fin 70))"
    using demo_write by blast
  have e: "en_runtime demo_owing = demo_runtime" "en_rules demo_owing = []" "en_states demo_owing = []"
    "sp_fail_safe_duty_percent (st_safety (rt_settings demo_runtime)) = Fin 70" "rt_audit demo_runtime = []"
    by (simp_all add: demo_owing_def engine_new_def demo_hot_simps)
  have "en_handovers demo_owing = \<lparr>hb_open = [new_handover ''fan.0'' FAN_SPEED_PERCENT ''cooling'' [Txt ''deleted''] 0 1],
      hb_history = []\<rparr>"
    by (simp add: demo_owing_def)
  note b = this [unfolded new_handover_def]
  have "owed (en_handovers (perform_pending_handovers 0 demo_owing)) = {}"
    by (simp add: perform_pending_handovers_def verify_recovered_state_def Let_def e b is_unresolved_def
        perform_handover_def confirmed_owner_of_def claimant_of_def is_due_def book_find_def at_channel_def
        is_attemptable_def attempt_handover_def w handover_outcome_def on_book_def confirm_handover_def
        finish_item_def owed_def)
  moreover have "(''fan.0'', FAN_SPEED_PERCENT) \<in> owed (en_handovers demo_owing)"
    by (simp add: owed_def b channel_def)
  moreover have "confirmed_owner_of demo_owing ''fan.0'' FAN_SPEED_PERCENT = None"
    by (simp add: confirmed_owner_of_def claimant_of_def e)
  ultimately show ?thesis
    using handover_settled_by_evidence [of "''fan.0''" FAN_SPEED_PERCENT demo_owing 0] by (auto simp: e)
qed

theorem responsibility_survives_restart_witness:
  "\<exists>e1. persist_control_state demo_owing = (e1, Inr ())
     \<and> owed (en_handovers (fst (recover_control_state (engine_new demo_runtime (en_disk e1))))) = {(''fan.0'', FAN_SPEED_PERCENT)}"
proof -
  have "snd (persist_control_state demo_owing) = Inr ()"
    by (simp add: persist_control_state_def Let_def save_record_def demo_owing_def engine_new_def demo_disk_def)
  then obtain e1 where p: "persist_control_state demo_owing = (e1, Inr ())" by (metis prod.collapse)
  have "owed (en_handovers demo_owing) = {(''fan.0'', FAN_SPEED_PERCENT)}" "en_states demo_owing = []"
    by (simp_all add: demo_owing_def owed_def engine_new_def)
  with responsibility_survives_restart [OF p, of "engine_new demo_runtime (en_disk e1)"] p show ?thesis
    by (simp add: engine_new_def empty_book_def owed_def undriven_def)
qed

subsection \<open>What modelling the engine showed\<close>

text \<open>A report with the status \<open>rejected\<close> changes nothing of the rule's memory: it still says the rule was applied.\<close>

lemma rejected_report_is_ignored:
  assumes "write_value (en_runtime e) (dev_id d) (cap_id c) (Number out) (Automation (rl_id r)) = (rt, Inr rep)"
    and "wr_status rep = Write_Rejected"
  shows "write_output r ev d c out now (e, st) = (e\<lparr>en_runtime := rt\<rparr>, st, False)"
  using assms by (simp add: write_output_def Let_def)

text \<open>Deleting a rule whose file cannot be removed drops the rule but queues no handover for what it drives.\<close>

lemma failed_delete_forgets_channel:
  assumes "validate_id i ''rule id'' = Inr ()"
  shows "delete_rule (Inl err) i e = (e\<lparr>en_rules := filter (\<lambda>r. rl_id r \<noteq> i) (en_rules e)\<rparr>, Inl err)"
  using assms by (simp add: delete_rule_def new_id_def Let_def)

text \<open>A rule whose hardware is gone cannot be switched off: switching it off goes through the full check.\<close>

lemma switch_off_refused:
  assumes "find_rule e i = Some r" and "\<not> check_is_ok (check_rule e (r\<lparr>rl_enabled := False\<rparr>))"
  shows "\<exists>err. set_rule_enabled saved i False e = (e, Inl err)"
  using assms by (simp add: set_rule_enabled_def save_rule_def check_result_def check_is_ok_def)

text \<open>\<open>run_rule\<close> ends with \<open>remember\<close>, after a write it waited for, and no lock is held in between. A rule that is
  deleted meanwhile, when its memory named no channel yet, queues no handover; its memory then comes back,
  holding the channel the write took, although there is no such rule and nothing is owed.\<close>

lemma deleted_while_writing:
  assumes "validate_id i ''rule id'' = Inr ()" "held_by e i = None" "delete_rule (Inr removed) i e = (e1, res)"
  shows "find_rule (remember i st e1) i = None \<and> held_by (remember i st e1) i = rs_control st
    \<and> owed (en_handovers (remember i st e1)) = owed (en_handovers e)"
proof -
  have h: "hand_over i None p why x = x" for p why and x :: "'a engine" by (simp add: hand_over_def)
  have "en_rules e1 = filter (\<lambda>r. rl_id r \<noteq> i) (en_rules e)" "en_handovers e1 = en_handovers e"
    using assms by (auto simp: delete_rule_def new_id_def Let_def h refresh_conflicts_def split: if_splits)
  then show ?thesis
    by (simp add: find_rule_def find_None_iff held_by_def remember_def)
qed

end
