(* ===== verification/Suggestions.thy ===== *)
theory Suggestions
  imports Engine_Demo
begin

section \<open>Shipped rules and suggestions\<close>

text \<open>
  \<open>crates/ohm-automation/src/examples.rs\<close> and the engine's first-run rule (\<open>ensure_example\<close>). A rule is suggested for the sensors and actuators that the device table
  holds at that moment. \<open>expect\<close> panics on an error; \<open>None\<close> stands for that, and the theorems show
  that it never happens.
\<close>

definition expect :: "'a result \<Rightarrow> 'a option" where
  "expect r = (case r of Inr x \<Rightarrow> Some x | Inl _ \<Rightarrow> None)"

definition GPU_COOLING_ID :: string where "GPU_COOLING_ID = ''gpu-cooling''"
definition CPU_COOLING_ID :: string where "CPU_COOLING_ID = ''cpu-cooling''"
definition COMBINED_COOLING_ID :: string where "COMBINED_COOLING_ID = ''system-cooling''"

definition default_curve :: "curve result" where
  "default_curve = gpu_cooling_curve"

definition cpu_curve :: "curve result" where
  "cpu_curve = curve_new [(Fin 45, Fin 25), (Fin 60, Fin 40), (Fin 75, Fin 65), (Fin 85, Fin 100)]"

definition described_rule :: "string \<Rightarrow> rule result \<Rightarrow> rule option" where
  "described_rule s r = map_option (\<lambda>r. with_description r s) (expect r)"

definition cpu_cooling_example :: "int \<Rightarrow> rule option" where
  "cpu_cooling_example now = described_rule ''Reacts to the CPU package temperature.''
     (and_then cpu_curve (rule_new now CPU_COOLING_ID ''CPU Cooling''
       (Single ''cpu.mock.0'' ''temperature.core'')
       \<lparr>tg_device = ''fan.mock.1'', tg_capability = ''fan.speed_percent''\<rparr>))"

definition combined_cooling_example :: "int \<Rightarrow> rule option" where
  "combined_cooling_example now =
     described_rule ''Drives the fans from whichever of the CPU or GPU is hotter.''
     (and_then default_curve (rule_new now COMBINED_COOLING_ID ''System Cooling (CPU + GPU)''
       (Combined Agg_Max [\<lparr>sr_device = ''cpu.mock.0'', sr_capability = ''temperature.core''\<rparr>,
         \<lparr>sr_device = ''gpu.mock.0'', sr_capability = ''temperature.core''\<rparr>])
       \<lparr>tg_device = ''fan.mock.0'', tg_capability = ''fan.speed_percent''\<rparr>))"

definition cr_label :: "capability_ref \<Rightarrow> string" where
  "cr_label r = cr_device_name r @ '' '' @ em_dash @ '' '' @ cap_name (cr_capability r)"

definition sensor_of :: "capability_ref \<Rightarrow> sensor_ref" where
  "sensor_of r = \<lparr>sr_device = cr_device_id r, sr_capability = cap_id (cr_capability r)\<rparr>"

definition target_at :: "capability_ref list \<Rightarrow> nat \<Rightarrow> target" where
  "target_at ts position = (let c = ts ! min position (length ts - 1) in
     \<lparr>tg_device = cr_device_id c, tg_capability = cap_id (cr_capability c)\<rparr>)"

definition single_of :: "capability_ref \<Rightarrow> source" where
  "single_of r = Single (cr_device_id r) (cap_id (cr_capability r))"

definition suggest_gpu :: "int \<Rightarrow> capability_ref list \<Rightarrow> capability_ref \<Rightarrow> rule option" where
  "suggest_gpu now ts g = described_rule
     (''Drives '' @ cr_label (ts ! 0) @ '' from the GPU temperature.'')
     (and_then default_curve (rule_new now GPU_COOLING_ID ''GPU Cooling'' (single_of g) (target_at ts 0)))"

definition suggest_cpu :: "int \<Rightarrow> capability_ref list \<Rightarrow> capability_ref \<Rightarrow> rule option" where
  "suggest_cpu now ts c = described_rule ''Reacts to the CPU package temperature.''
     (and_then cpu_curve (rule_new now CPU_COOLING_ID ''CPU Cooling'' (single_of c)
       (target_at ts (if 1 < length ts then 1 else 0))))"

definition suggest_combined :: "int \<Rightarrow> capability_ref list \<Rightarrow> capability_ref list \<Rightarrow> rule option" where
  "suggest_combined now ts temps = described_rule ''Reacts to whichever sensor is hottest.''
     (and_then default_curve (rule_new now COMBINED_COOLING_ID ''System Cooling (MAX of all sensors)''
       (Combined Agg_Max (map sensor_of (take 4 temps))) (target_at ts 0)))"

definition suggest_for :: "int \<Rightarrow> device_table \<Rightarrow> rule list option" where
  "suggest_for now t =
    (let srcs = registry_sources t; ts = registry_targets t in
     if ts = [] \<or> srcs = [] then Some []
     else
       (let temps = filter (\<lambda>s. is_temperature (cap_unit (cr_capability s))) srcs in
        if temps = [] then Some []
        else
          (let gpu = List.find (\<lambda>s. cr_device_type s = Gpu) temps;
               cpu = List.find (\<lambda>s. cr_device_type s = Cpu) temps
           in those
             ((case gpu of Some g \<Rightarrow> [suggest_gpu now ts g] | None \<Rightarrow> [])
              @ (case cpu of Some c \<Rightarrow> [suggest_cpu now ts c] | None \<Rightarrow> [])
              @ (if 2 \<le> length temps \<and> cpu \<noteq> None \<and> gpu \<noteq> None
                 then [suggest_combined now ts temps] else [])))))"

text \<open>The form's quick rule is built without validation; a reference is split at its first slash.\<close>

definition simple_temperature_rule :: "int \<Rightarrow> string \<Rightarrow> string \<Rightarrow> string \<Rightarrow> string \<Rightarrow> string \<Rightarrow> rule option" where
  "simple_temperature_rule now name device capability target_device target_capability =
     map_option (\<lambda>crv. \<lparr>rl_id = slugify name, rl_name = name, rl_enabled = True, rl_description = None,
       rl_source = Single device capability, rl_when = None,
       rl_target = \<lparr>tg_device = target_device, tg_capability = target_capability\<rparr>, rl_curve = crv,
       rl_hysteresis = DEFAULT_HYSTERESIS, rl_deadband = DEFAULT_DEADBAND,
       rl_update_interval_ms = DEFAULT_UPDATE_INTERVAL_MS, rl_min_output = None, rl_max_output = None,
       rl_fallback = default_fallback, rl_priority = 0, rl_created_at_ms = Some now,
       rl_updated_at_ms = None\<rparr>) (expect default_curve)"

definition parse_reference :: "string \<Rightarrow> (string \<times> string) option" where
  "parse_reference value =
    (let device = takeWhile (\<lambda>c. c \<noteq> CHR ''/'') value in
     if device = value then None
     else (case (new_id ''device id'' (trim device), new_id ''capability id'' (trim (drop (length device + 1) value))) of
         (Inr d, Inr c) \<Rightarrow> Some (d, c) | _ \<Rightarrow> None))"

text \<open>A reference of two valid ids is read back as those ids.\<close>

lemma parse_reference_roundtrip:
  assumes "validate_id d ''device id'' = Inr ()" "validate_id c ''capability id'' = Inr ()"
  shows "parse_reference (d @ ''/'' @ c) = Some (d, c)"
proof -
  have v: "list_all id_char d" "list_all id_char c" using assms by (simp_all add: validate_id_ok)
  have "\<not> id_char CHR ''/''" by (simp add: id_char_def is_ascii_lower_def is_ascii_digit_def byte_def)
  with v(1) have "takeWhile (\<lambda>c. c \<noteq> CHR ''/'') (d @ ''/'' @ c) = d"
    by (auto simp: list_all_iff takeWhile_append)
  then show ?thesis
    using assms v by (simp add: parse_reference_def Let_def trim_id new_id_def)
qed

text \<open>The first-run rule: the shipped example when its devices are there, else the first suggestion.\<close>

definition install_first :: "unit result \<Rightarrow> rule \<Rightarrow> 'w engine \<Rightarrow> 'w engine \<times> bool result" where
  "install_first saved r e = (case save_rule saved r e of (e, Inl err) \<Rightarrow> (e, Inl err)
     | (e, Inr _) \<Rightarrow> (e, Inr True))"

definition ensure_example :: "unit result \<Rightarrow> 'w engine \<Rightarrow> ('w engine \<times> bool result) option" where
  "ensure_example saved e =
    (if en_rules e \<noteq> [] then Some (e, Inr False)
     else Option.bind (expect (gpu_cooling_example (en_now e))) (\<lambda>r.
       let r = with_description r ''Spins the chassis fans up as the GPU heats up.'' in
       if check_is_ok (check_rule e r) then Some (install_first saved r e)
       else Option.bind (suggest_for (en_now e) (rt_table (en_runtime e))) (\<lambda>rs.
         case rs of r # _ \<Rightarrow> Some (install_first saved r e) | [] \<Rightarrow> Some (e, Inr False))))"

subsection \<open>No suggestion panics\<close>

text \<open>What every built rule looks like.\<close>

definition built_rule :: "int \<Rightarrow> string \<Rightarrow> string \<Rightarrow> string \<Rightarrow> source \<Rightarrow> target \<Rightarrow> curve \<Rightarrow> rule" where
  "built_rule now i name s src tgt crv = \<lparr>rl_id = i, rl_name = name, rl_enabled = True,
     rl_description = Some s, rl_source = src, rl_when = None, rl_target = tgt, rl_curve = crv,
     rl_hysteresis = DEFAULT_HYSTERESIS, rl_deadband = DEFAULT_DEADBAND,
     rl_update_interval_ms = DEFAULT_UPDATE_INTERVAL_MS, rl_min_output = None, rl_max_output = None,
     rl_fallback = default_fallback, rl_priority = 0, rl_created_at_ms = Some now,
     rl_updated_at_ms = None\<rparr>"

lemma built_rule_valid:
  assumes "trim name \<noteq> []" "valid_curve crv" "source_sensors src \<noteq> []"
  shows "valid_rule (built_rule now i name s src tgt crv)"
  using assms by (simp add: valid_rule_def built_rule_def const_simps default_fallback_def fallback_ok_def action_ok_def)

lemma described_rule_new:
  assumes "new_id ''rule id'' i = Inr i" "trim name \<noteq> []" "crv = Inr points" "valid_curve points"
    "source_sensors src \<noteq> []"
  shows "described_rule s (and_then crv (rule_new now i name src tgt))
    = Some (built_rule now i name s src tgt points)"
proof -
  let ?r = "(built_rule now i name s src tgt points)\<lparr>rl_description := None\<rparr>"
  have "valid_rule ?r"
    using built_rule_valid [OF assms(2,4,5), of now i s tgt] by (simp add: valid_rule_def target_as_sensor_def)
  then have "rule_new now i name src tgt points = Inr ?r"
    using assms(1) by (simp add: rule_new_def Let_def validate_rule_ok [symmetric] built_rule_def)
  then show ?thesis by (simp add: described_rule_def expect_def assms(3) with_description_def built_rule_def)
qed

lemma shipped_valid:
  "validate_id ''gpu-cooling'' k = Inr ()" "validate_id ''cpu-cooling'' k = Inr ()"
  "validate_id ''system-cooling'' k = Inr ()"
  by (simp_all add: validate_id_ok max_id_len_def id_char_def is_ascii_lower_def byte_def)

lemma shipped_ids:
  "new_id ''rule id'' ''gpu-cooling'' = Inr ''gpu-cooling''"
  "new_id ''rule id'' ''cpu-cooling'' = Inr ''cpu-cooling''"
  "new_id ''rule id'' ''system-cooling'' = Inr ''system-cooling''"
  by (simp_all add: new_id_def shipped_valid)

lemma sensors_of_single [simp]: "source_sensors (single_of x) = [sensor_of x]"
  by (simp add: single_of_def sensor_of_def)

lemma shipped_names:
  "trim ''GPU Cooling'' \<noteq> []" "trim ''CPU Cooling'' \<noteq> []" "trim ''System Cooling (CPU + GPU)'' \<noteq> []"
  "trim ''System Cooling (MAX of all sensors)'' \<noteq> []"
  by code_simp+

definition cpu_points :: curve where
  "cpu_points = map point [(Fin 45, Fin 25), (Fin 60, Fin 40), (Fin 75, Fin 65), (Fin 85, Fin 100)]"

lemma shipped_curves:
  "default_curve = Inr gpu_points" "valid_curve gpu_points" "cpu_curve = Inr cpu_points" "valid_curve cpu_points"
  by (simp_all add: default_curve_def gpu_points_valid cpu_curve_def cpu_points_def curve_new_ok point_def
      gpu_points_def sort_points_def valid_curve_def finite_point_def)

lemma suggest_gpu_built: "\<exists>s. suggest_gpu now ts g = Some (built_rule now ''gpu-cooling'' ''GPU Cooling'' s
    (single_of g) (target_at ts 0) gpu_points)"
  unfolding suggest_gpu_def GPU_COOLING_ID_def
  by (rule exI, rule described_rule_new [OF shipped_ids(1) shipped_names(1) shipped_curves(1,2)]) simp

lemma suggest_cpu_built: "\<exists>s. suggest_cpu now ts c = Some (built_rule now ''cpu-cooling'' ''CPU Cooling'' s
    (single_of c) (target_at ts (if 1 < length ts then 1 else 0)) cpu_points)"
  unfolding suggest_cpu_def CPU_COOLING_ID_def
  by (rule exI, rule described_rule_new [OF shipped_ids(2) shipped_names(2) shipped_curves(3,4)]) simp

lemma suggest_combined_built:
  "temps \<noteq> [] \<Longrightarrow> \<exists>s. suggest_combined now ts temps = Some (built_rule now ''system-cooling''
    ''System Cooling (MAX of all sensors)'' s (Combined Agg_Max (map sensor_of (take 4 temps))) (target_at ts 0) gpu_points)"
  unfolding suggest_combined_def COMBINED_COOLING_ID_def
  by (rule exI, rule described_rule_new [OF shipped_ids(3) shipped_names(4) shipped_curves(1,2)]) simp

text \<open>A rule over live temperature sensors and a live actuator.\<close>

definition live_rule :: "device_table \<Rightarrow> rule \<Rightarrow> bool" where
  "live_rule t r \<longleftrightarrow> valid_rule r \<and> rl_enabled r \<and> rl_when r = None \<and> rl_min_output r = None \<and> rl_max_output r = None
     \<and> (\<forall>s \<in> set (source_sensors (rl_source r)). \<exists>x \<in> set (temperature_sources t). s = sensor_of x)
     \<and> (\<exists>x \<in> set (registry_targets t). rl_target r = target_at [x] 0)"

lemma live_built:
  assumes "trim name \<noteq> []" "valid_curve crv" "source_sensors src \<noteq> []"
    "\<forall>s \<in> set (source_sensors src). \<exists>x \<in> set (temperature_sources t). s = sensor_of x"
    "registry_targets t \<noteq> []"
  shows "live_rule t (built_rule now i name s src (target_at (registry_targets t) k) crv)"
proof -
  let ?x = "registry_targets t ! min k (length (registry_targets t) - 1)"
  have "?x \<in> set (registry_targets t)" using assms(5) by (intro nth_mem) (cases "registry_targets t"; simp)
  then have "\<exists>x \<in> set (registry_targets t). target_at (registry_targets t) k = target_at [x] 0"
    by (intro bexI [of _ ?x]) (simp_all add: target_at_def Let_def)
  with built_rule_valid [OF assms(1-3)] assms(4) show ?thesis
    by (simp add: live_rule_def built_rule_def)
qed

lemma in_collect:
  "x \<in> set (collect P t) \<longleftrightarrow> (\<exists>r \<in> set t. \<exists>c \<in> set (dev_capabilities (dr_device r)). P r c
     \<and> x = \<lparr>cr_device_id = dr_id r, cr_device_name = dev_name (dr_device r),
        cr_device_type = dev_type (dr_device r), cr_adapter = dr_adapter r, cr_capability = c\<rparr>)"
  by (auto simp: collect_def)

lemma temps_are_sources:
  "x \<in> set (registry_sources t) \<Longrightarrow> is_temperature (cap_unit (cr_capability x)) \<Longrightarrow> x \<in> set (temperature_sources t)"
  by (auto simp: registry_sources_def temperature_sources_def in_collect is_temperature_source_def)

text \<open>Every suggestion is built, and is over live parts.\<close>

lemma suggest_for_live:
  "\<exists>rs. suggest_for now t = Some rs \<and> (\<forall>r \<in> set rs. live_rule t r)"
proof -
  let ?ts = "registry_targets t" and ?srcs = "registry_sources t"
  let ?temps = "filter (\<lambda>s. is_temperature (cap_unit (cr_capability s))) ?srcs"
  let ?gpu = "List.find (\<lambda>s. cr_device_type s = Gpu) ?temps"
  let ?cpu = "List.find (\<lambda>s. cr_device_type s = Cpu) ?temps"
  have temps: "x \<in> set (temperature_sources t)" if "x \<in> set ?temps" for x
    using that temps_are_sources by simp
  have all: "\<exists>rs. those os = Some rs \<and> (\<forall>r \<in> set rs. live_rule t r)"
    if "\<forall>x \<in> set os. \<exists>r. x = Some r \<and> live_rule t r" for os
    using that by (induction os) auto
  show ?thesis
  proof (cases "?ts = [] \<or> ?srcs = [] \<or> ?temps = []")
    case False
    have gpu: "\<exists>r. suggest_gpu now ?ts g = Some r \<and> live_rule t r" if "?gpu = Some g" for g
    proof -
      have "g \<in> set ?temps" using find_key_Some [where key = cr_device_type, OF that] by blast
      then have "live_rule t (built_rule now ''gpu-cooling'' ''GPU Cooling'' s (single_of g) (target_at ?ts 0) gpu_points)" for s
        using False temps by (intro live_built shipped_names shipped_curves) auto
      with suggest_gpu_built [of now ?ts g] show ?thesis by auto
    qed
    have cpu: "\<exists>r. suggest_cpu now ?ts c = Some r \<and> live_rule t r" if "?cpu = Some c" for c
    proof -
      have "c \<in> set ?temps" using find_key_Some [where key = cr_device_type, OF that] by blast
      then have "live_rule t (built_rule now ''cpu-cooling'' ''CPU Cooling'' s (single_of c) (target_at ?ts k) cpu_points)" for s k
        using False temps by (intro live_built shipped_names shipped_curves) auto
      with suggest_cpu_built [of now ?ts c] show ?thesis by metis
    qed
    have "\<forall>s \<in> set (map sensor_of (take 4 ?temps)). \<exists>x \<in> set (temperature_sources t). s = sensor_of x"
      using temps by (auto simp del: set_filter dest!: in_set_takeD)
    then have "live_rule t (built_rule now ''system-cooling'' ''System Cooling (MAX of all sensors)'' s
        (Combined Agg_Max (map sensor_of (take 4 ?temps))) (target_at ?ts 0) gpu_points)" for s
      using False by (intro live_built shipped_names shipped_curves) simp_all
    with suggest_combined_built [of ?temps now ?ts] False
    have comb: "\<exists>r. suggest_combined now ?ts ?temps = Some r \<and> live_rule t r" by auto
    let ?os = "(case ?gpu of Some g \<Rightarrow> [suggest_gpu now ?ts g] | None \<Rightarrow> [])
        @ (case ?cpu of Some c \<Rightarrow> [suggest_cpu now ?ts c] | None \<Rightarrow> [])
        @ (if 2 \<le> length ?temps \<and> ?cpu \<noteq> None \<and> ?gpu \<noteq> None then [suggest_combined now ?ts ?temps] else [])"
    have "\<exists>rs. those ?os = Some rs \<and> (\<forall>r \<in> set rs. live_rule t r)"
      by (rule all) (use gpu cpu comb in \<open>auto split: option.splits\<close>)
    moreover have "suggest_for now t = those ?os" using False by (simp add: suggest_for_def Let_def)
    ultimately show ?thesis by simp
  qed (auto simp: suggest_for_def Let_def)
qed

subsection \<open>A suggestion can be saved\<close>

lemma live_resolves:
  assumes "runtime_ok rt" and "x \<in> set (collect P (rt_table rt))"
  obtains r where "rt_resolve rt (cr_device_id x) (cap_id (cr_capability x)) = Inr (dr_device r, cr_capability x)"
    "P r (cr_capability x)"
proof -
  obtain r where r: "r \<in> set (rt_table rt)" "cr_capability x \<in> set (dev_capabilities (dr_device r))"
    "P r (cr_capability x)" "cr_device_id x = dr_id r"
    using assms(2) by (auto simp: in_collect)
  have t: "sorted_keys dr_id (rt_table rt)" and v: "validate_device (dr_device r) = Inr ()"
    using assms(1) r(1) by (auto simp: runtime_ok_def table_valid_def table_ok_def)
  from table_get_member [OF t r(1)] valid_device_lookup [OF v r(2)]
  have "rt_resolve rt (cr_device_id x) (cap_id (cr_capability x)) = Inr (dr_device r, cr_capability x)"
    by (simp add: rt_resolve_def resolve_def r(4) ok_or_def)
  with r(3) show ?thesis by (rule that [rotated])
qed

lemma rk_errors_simps:
  "rk_errors (rk_join cs) = concat (map rk_errors cs)" "rk_errors (rk_warning m) = []" "rk_errors rk_fine = []"
  "rk_errors (rk_when b (rk_warning m)) = []" "rk_errors (rk_when False c) = []"
  by (simp_all add: rk_join_def rk_warning_def rk_fine_def rk_when_def)

lemma live_rule_checks:
  assumes "runtime_ok (en_runtime e)" and "live_rule (rt_table (en_runtime e)) r" and "conflicting_rule e r = None"
  shows "check_is_ok (check_rule e r)"
proof -
  let ?t = "rt_table (en_runtime e)"
  have s: "rk_errors (check_sensor e s) = []" if "s \<in> set (source_sensors (rl_source r))" for s
  proof -
    obtain x where x: "x \<in> set (temperature_sources ?t)" "s = sensor_of x"
      using assms(2) \<open>s \<in> _\<close> by (auto simp: live_rule_def)
    obtain q :: device_record where
      "rt_resolve (en_runtime e) (cr_device_id x) (cap_id (cr_capability x)) = Inr (dr_device q, cr_capability x)"
      "dr_enabled q \<and> is_temperature_source (cr_capability x)"
      using x(1) unfolding temperature_sources_def by (rule live_resolves [OF assms(1)]) blast
    then have "rt_resolve (en_runtime e) (sr_device s) (sr_capability s) = Inr (dr_device q, cr_capability x)"
      "is_source (cr_capability x)"
      by (simp_all add: x(2) sensor_of_def is_temperature_source_def)
    then show ?thesis by (simp add: check_sensor_def Let_def rk_errors_simps is_source_def)
  qed
  obtain x where x: "x \<in> set (registry_targets ?t)" "rl_target r = target_at [x] 0"
    using assms(2) by (auto simp: live_rule_def)
  obtain q :: device_record where
    "rt_resolve (en_runtime e) (cr_device_id x) (cap_id (cr_capability x)) = Inr (dr_device q, cr_capability x)"
    "dr_enabled q \<and> is_target (cr_capability x)"
    using x(1) unfolding registry_targets_def by (rule live_resolves [OF assms(1)]) blast
  then have
    "rt_resolve (en_runtime e) (tg_device (rl_target r)) (tg_capability (rl_target r)) = Inr (dr_device q, cr_capability x)"
    "is_target (cr_capability x)"
    by (simp_all add: x(2) target_at_def Let_def)
  then have "rk_errors (check_target e r) = []"
    using assms(2)
    by (simp add: check_target_def Let_def effective_output_range_def live_rule_def or_default_def
        rk_errors_simps is_target_def split: option.split)
  moreover have "validate_rule r = Inr ()" using assms(2) by (simp add: live_rule_def validate_rule_ok)
  ultimately show ?thesis
    using s assms(2,3) by (simp add: check_rule_def check_is_ok_def rk_errors_simps live_rule_def)
qed

lemma save_live_rule:
  assumes "check_is_ok (check_rule e r)" and "rl_enabled r \<longrightarrow> conflicting_rule e r = None" and "valid_rule r"
  shows "save_rule (Inr ()) r e = (install_rule (find_rule e (rl_id r)) (stamp_rule (find_rule e (rl_id r)) (en_now e) r) e,
    Inr (stamp_rule (find_rule e (rl_id r)) (en_now e) r))"
proof -
  have "valid_rule (stamp_rule p k r)" for p k
    using assms(3) by (simp add: stamp_rule_def Let_def valid_rule_def target_as_sensor_def)
  then show ?thesis
    using assms by (simp add: save_rule_def check_result_def check_is_ok_def Let_def validate_rule_ok [symmetric])
qed

lemma check_rule_stamps:
  "check_rule e (r\<lparr>rl_created_at_ms := c, rl_updated_at_ms := u\<rparr>) = check_rule e r"
proof -
  let ?r = "r\<lparr>rl_created_at_ms := c, rl_updated_at_ms := u\<rparr>"
  have ts: "target_as_sensor ?r = target_as_sensor r" by (simp add: target_as_sensor_def)
  have v: "validate_rule ?r = validate_rule r" unfolding validate_rule_def ts by simp
  have f: "rl_target ?r = rl_target r" "rl_curve ?r = rl_curve r" "rl_min_output ?r = rl_min_output r"
    "effective_output_range ?r = effective_output_range r" by (simp_all add: effective_output_range_def)
  have "check_target e ?r = check_target e r" unfolding check_target_def f ..
  moreover have "conflicting_rule e ?r = conflicting_rule e r" by (simp add: conflicting_rule_def)
  moreover have "conflict_message ?r o' = conflict_message r o'" for o' by (simp add: conflict_message_def)
  ultimately show ?thesis unfolding check_rule_def v by (simp cong: option.case_cong)
qed

lemma stamp_rule_check:
  "valid_rule (stamp_rule p k r) = valid_rule r" "rl_enabled (stamp_rule p k r) = rl_enabled r"
  "check_rule e (stamp_rule p k r) = check_rule e r"
proof -
  have s: "stamp_rule p k r = r\<lparr>rl_created_at_ms := (if rl_created_at_ms r = None
      then (case p of None \<Rightarrow> Some k | Some q \<Rightarrow> rl_created_at_ms q) else rl_created_at_ms r),
      rl_updated_at_ms := Some k\<rparr>"
    by (simp add: stamp_rule_def Let_def)
  show "valid_rule (stamp_rule p k r) = valid_rule r"
    by (simp add: s valid_rule_def target_as_sensor_def)
  show "rl_enabled (stamp_rule p k r) = rl_enabled r" by (simp add: s)
  show "check_rule e (stamp_rule p k r) = check_rule e r"
    unfolding s by (rule check_rule_stamps)
qed

lemma shipped_example: "\<exists>g. expect (gpu_cooling_example now) = Some g \<and> valid_rule g \<and> rl_enabled g"
proof -
  have "described_rule s (gpu_cooling_example now) = Some (built_rule now ''gpu-cooling'' ''GPU Cooling'' s
     (Single ''gpu.mock.0'' ''temperature.core'')
     \<lparr>tg_device = ''fan.mock.0'', tg_capability = ''fan.speed_percent''\<rparr> gpu_points)" for s
    unfolding gpu_cooling_example_def
    by (rule described_rule_new [OF shipped_ids(1) shipped_names(1) gpu_points_valid shipped_curves(2)]) simp
  then obtain g where g: "expect (gpu_cooling_example now) = Some g" by (auto simp: described_rule_def)
  then have "validate_rule g = Inr () \<and> rl_enabled g"
    by (auto simp: expect_def gpu_cooling_example_def rule_new_def Let_def result_simps split: sum.splits)
  with g show ?thesis by (auto simp: validate_rule_ok)
qed

text \<open>A rule that passes the check is saved as far as its file can be.\<close>

lemma save_refused:
  assumes "check_is_ok (check_rule e r)" "rl_enabled r \<longrightarrow> conflicting_rule e r = None" "valid_rule r"
  shows "save_rule (Inl err) r e = (e, Inl err)"
proof -
  have "valid_rule (stamp_rule p k r)" for p k using assms(3) by (simp add: stamp_rule_check)
  then show ?thesis
    using assms by (simp add: save_rule_def check_result_def check_is_ok_def Let_def validate_rule_ok [symmetric])
qed

text \<open>C31. The first rule: on an engine without rules, over a runtime whose invariant holds and whatever the
  hardware, \<open>ensure_example\<close> does not panic, and it fails only with the error of saving the rule's file,
  which then leaves the engine as it was. It adds at most one rule, which is valid, enabled and passes the
  engine's own check; when it adds none without an error, nothing is changed, and there was no suggestion
  to make.\<close>
theorem first_rule_is_usable:
  assumes "runtime_ok (en_runtime e)" and "en_rules e = []"
  shows "\<exists>e' res. ensure_example saved e = Some (e', res) \<and> (case res of
      Inl err \<Rightarrow> saved = Inl err \<and> e' = e
    | Inr True \<Rightarrow> saved = Inr () \<and> (\<exists>r. en_rules e' = [r] \<and> valid_rule r \<and> rl_enabled r \<and> check_is_ok (check_rule e r))
    | Inr False \<Rightarrow> e' = e \<and> suggest_for (en_now e) (rt_table (en_runtime e)) = Some [])"
proof -
  have none: "conflicting_rule e r = None" "find_rule e i = None" for r i
    using assms(2) by (simp_all add: conflicting_rule_def find_rule_def)
  let ?good = "\<lambda>(e', res). case res of
      Inl err \<Rightarrow> saved = Inl err \<and> e' = e
    | Inr True \<Rightarrow> saved = Inr () \<and> (\<exists>r. en_rules e' = [r] \<and> valid_rule r \<and> rl_enabled r \<and> check_is_ok (check_rule e r))
    | Inr False \<Rightarrow> e' = e \<and> suggest_for (en_now e) (rt_table (en_runtime e)) = Some []"
  have saved: "?good (install_first saved r e)"
    if "check_is_ok (check_rule e r)" "valid_rule r" "rl_enabled r" for r
  proof (cases saved)
    case (Inl err)
    then show ?thesis using save_refused [OF that(1) _ that(2)] none by (simp add: install_first_def)
  next
    case (Inr u)
    have "en_rules (install_rule None (stamp_rule None (en_now e) r) e) = [stamp_rule None (en_now e) r]"
      using assms(2) by (simp add: install_rule_rules sort_rules_def)
    then show ?thesis
      using Inr save_live_rule [OF that(1) _ that(2)] none that by (simp add: install_first_def stamp_rule_check)
  qed
  obtain g where g: "expect (gpu_cooling_example (en_now e)) = Some g" "valid_rule g" "rl_enabled g"
    using shipped_example by blast
  obtain rs where rs: "suggest_for (en_now e) (rt_table (en_runtime e)) = Some rs"
    "\<forall>r \<in> set rs. live_rule (rt_table (en_runtime e)) r" using suggest_for_live by blast
  have "\<exists>y. ensure_example saved e = Some y \<and> ?good y"
  proof (cases "check_is_ok (check_rule e (with_description g ''Spins the chassis fans up as the GPU heats up.''))")
    case True
    moreover have "valid_rule (with_description g s) \<and> rl_enabled (with_description g s)" for s
      using g(2,3) by (simp add: with_description_def valid_rule_def target_as_sensor_def)
    ultimately show ?thesis
      using assms(2) saved by (simp add: ensure_example_def g(1) Let_def)
  next
    case bad: False
    show ?thesis
    proof (cases rs)
      case Nil
      with bad rs assms(2) show ?thesis by (simp add: ensure_example_def g(1) Let_def)
    next
      case (Cons r rest)
      then have "check_is_ok (check_rule e r)" "valid_rule r" "rl_enabled r"
        using rs(2) live_rule_checks [OF assms(1)] none by (auto simp: live_rule_def)
      then have "?good (install_first saved r e)" by (rule saved)
      moreover have "ensure_example saved e = Some (install_first saved r e)"
        using bad rs(1) Cons assms(2) by (simp add: ensure_example_def g(1) Let_def)
      ultimately show ?thesis by (intro exI [of _ "install_first saved r e"] conjI)
    qed
  qed
  then show ?thesis by auto
qed

text \<open>When the combined rule is suggested it is suggested beside the graphics rule, for the same output:
  the two cannot both be saved enabled.\<close>

lemma those_Some: "those xs = Some ys \<Longrightarrow> xs = map Some ys"
  by (induction xs arbitrary: ys) (auto split: option.splits)

lemma suggestions_clash:
  assumes "suggest_for now t = Some [g, c, b]"
  shows "rl_target b = rl_target g \<and> rl_enabled b \<and> rl_enabled g \<and> rl_id b \<noteq> rl_id g"
proof -
  let ?ts = "registry_targets t"
  have n: "those [] \<noteq> Some [g, c, b]" "those [x] \<noteq> Some [g, c, b]" "those [x, y] \<noteq> Some [g, c, b]" for x y
    by (auto dest: those_Some simp del: those.simps)
  obtain x y temps where "temps \<noteq> []"
    "those [suggest_gpu now ?ts x, suggest_cpu now ?ts y, suggest_combined now ?ts temps] = Some [g, c, b]"
    using assms n by (auto simp: suggest_for_def Let_def simp del: those.simps split: if_splits option.splits)
  then have "suggest_gpu now ?ts x = Some g" "suggest_combined now ?ts temps = Some b" "temps \<noteq> []"
    by (auto dest: those_Some simp del: those.simps)
  with suggest_gpu_built [of now ?ts x] suggest_combined_built [of temps now ?ts] show ?thesis
    by (auto simp: built_rule_def)
qed

text \<open>An engine without rules, over a processor and a fan.\<close>

definition demo_fresh :: "(string \<times> string \<times> val) list engine" where
  "demo_fresh = engine_new demo_hot demo_disk"

lemma demo_hot_ok: "runtime_ok demo_hot"
proof -
  have "validate_device demo_fan = Inr ()" "validate_device demo_cpu = Inr ()"
    by (simp_all add: validate_device_def demo_device_simps demo_cpu_def cap_sensor_def)
  moreover have "table_ok (rt_table demo_hot)"
    by (simp add: demo_hot_def table_ok_def sorted_keys_def record_ok_def) (simp add: new_record_def list_less_def)
  ultimately have "table_valid (rt_table demo_hot)"
    by (simp add: table_valid_def demo_hot_def)
  then show ?thesis
    using demo_sane by (simp add: runtime_ok_def demo_hot_def demo_runtime_simps store_new_def default_settings_def)
qed

lemma demo_fresh_ok: "runtime_ok (en_runtime demo_fresh)" "en_rules demo_fresh = []"
  by (simp_all add: demo_fresh_def engine_new_def demo_hot_ok)

theorem first_rule_is_usable_witness:
  "\<exists>e' r. ensure_example (Inr ()) demo_fresh = Some (e', Inr True) \<and> en_rules e' = [r] \<and> rl_enabled r"
proof -
  have t: "rt_table (en_runtime demo_fresh) = [new_record demo_cpu True 1, new_record demo_fan True 1]"
    by (simp add: demo_fresh_def engine_new_def demo_hot_def)
  have "registry_targets (rt_table (en_runtime demo_fresh)) \<noteq> []"
    by (simp add: t registry_targets_def collect_def demo_device_simps is_target_def flip: set_empty)
  moreover have "registry_sources (rt_table (en_runtime demo_fresh)) = [\<lparr>cr_device_id = ''cpu.0'',
      cr_device_name = dev_name demo_cpu, cr_device_type = Cpu, cr_adapter = dev_adapter demo_cpu,
      cr_capability = cap_sensor TEMPERATURE_CORE ''Core'' Celsius\<rparr>]"
    by (simp add: t registry_sources_def collect_def demo_device_simps demo_cpu_def cap_sensor_def is_source_def)
  ultimately have "suggest_for k (rt_table (en_runtime demo_fresh)) \<noteq> Some []" for k
    using suggest_cpu_built [of k "registry_targets (rt_table (en_runtime demo_fresh))"
        "hd (registry_sources (rt_table (en_runtime demo_fresh)))"]
    by (auto simp: suggest_for_def Let_def is_temperature_def cap_sensor_def)
  moreover obtain e' res where r: "ensure_example (Inr ()) demo_fresh = Some (e', res)" "case res of Inl err \<Rightarrow> False
      | Inr True \<Rightarrow> \<exists>r. en_rules e' = [r] \<and> rl_enabled r
      | Inr False \<Rightarrow> suggest_for (en_now demo_fresh) (rt_table (en_runtime demo_fresh)) = Some []"
    using first_rule_is_usable [OF demo_fresh_ok, of "Inr ()"] by (fastforce split: sum.split_asm bool.split_asm)
  ultimately obtain b where "res = Inr b" "b" by (cases res) (auto split: bool.splits)
  with r show ?thesis by auto
qed

text \<open>
  The candidates are every actuator, cooling or not: on a machine whose only actuator is a graphics
  card's power limit, the suggested \<open>GPU Cooling\<close> rule drives that limit with the cooling curve,
  the hotter the card the higher the limit, and the engine's check only warns.
\<close>

definition demo_gpu :: device where
  "demo_gpu = with_capability (cap_actuator ''power.limit'' ''Power Limit'' Watt (Fin 0) (Fin 400))
     (with_capability (cap_sensor TEMPERATURE_CORE ''Core'' Celsius)
       (new_device ''gpu.0'' ''Card'' Gpu SystemTransport ''nvidia''))"

lemma suggestion_drives_power_limit:
  "\<exists>r. suggest_for k [new_record demo_gpu True 1] = Some [r]
     \<and> rl_target r = \<lparr>tg_device = ''gpu.0'', tg_capability = ''power.limit''\<rparr>
     \<and> rl_source r = Single ''gpu.0'' TEMPERATURE_CORE \<and> rl_curve r = gpu_points"
proof -
  let ?t = "[new_record demo_gpu True 1]"
  have ts: "registry_targets ?t = [\<lparr>cr_device_id = ''gpu.0'', cr_device_name = ''Card'', cr_device_type = Gpu,
      cr_adapter = ''nvidia'', cr_capability = cap_actuator ''power.limit'' ''Power Limit'' Watt (Fin 0) (Fin 400)\<rparr>]"
    by (simp add: registry_targets_def collect_def demo_gpu_def demo_device_simps cap_sensor_def is_target_def)
  have srcs: "registry_sources ?t = [\<lparr>cr_device_id = ''gpu.0'', cr_device_name = ''Card'', cr_device_type = Gpu,
      cr_adapter = ''nvidia'', cr_capability = cap_sensor TEMPERATURE_CORE ''Core'' Celsius\<rparr>]"
    by (simp add: registry_sources_def collect_def demo_gpu_def demo_device_simps cap_sensor_def is_source_def)
  obtain s where "suggest_gpu k (registry_targets ?t) (hd (registry_sources ?t)) = Some (built_rule k ''gpu-cooling''
      ''GPU Cooling'' s (single_of (hd (registry_sources ?t))) (target_at (registry_targets ?t) 0) gpu_points)"
    using suggest_gpu_built by blast
  then have "suggest_for k ?t = Some [built_rule k ''gpu-cooling'' ''GPU Cooling'' s
      (single_of (hd (registry_sources ?t))) (target_at (registry_targets ?t) 0) gpu_points]"
    by (simp add: suggest_for_def Let_def ts srcs is_temperature_def cap_sensor_def)
  then show ?thesis
    by (auto simp: built_rule_def single_of_def target_at_def ts srcs cap_sensor_def cap_actuator_def)
qed

end
