(* ===== verification/Lhm_Tree.thy ===== *)
theory Lhm_Tree
  imports Hwmon Os_Sensors
begin

section \<open>LibreHardwareMonitor's tree\<close>

text \<open>
  \<open>adapters/libre-hardware-monitor/src/lhm.rs\<close>: the nested tree its web server answers with, walked
  without relying on a depth, and the display strings its values arrive as. The JSON library is a
  parameter of the adapter; what the code sees of a document is \<open>json\<close>, a number as its \<open>Display\<close> text.
\<close>

subsection \<open>Documents\<close>

datatype json =
  JNull
| JBool bool
| JNumber string
| JString string
| JArray "json list"
| JObject "(string \<times> json) list"

definition json_get :: "string \<Rightarrow> json \<Rightarrow> json option" where
  "json_get k v = (case v of JObject ms \<Rightarrow> map_of ms k | _ \<Rightarrow> None)"

definition json_array :: "json \<Rightarrow> json list option" where
  "json_array v = (case v of JArray vs \<Rightarrow> Some vs | _ \<Rightarrow> None)"

definition json_text :: "json \<Rightarrow> string option" where
  "json_text v = (case v of JString s \<Rightarrow> Some s | _ \<Rightarrow> None)"

text \<open>A number that is an unsigned integer is printed as its digits; every other one has a sign, a
  point or an exponent.\<close>

definition json_u64 :: "json \<Rightarrow> nat option" where
  "json_u64 v = (case v of JNumber s \<Rightarrow> Option.bind (parse_digits s) (\<lambda>n. if n \<le> u64_max then Some n else None)
     | _ \<Rightarrow> None)"

definition json_str :: "json \<Rightarrow> string \<Rightarrow> string option" where
  "json_str v k = Option.bind (json_get k v) (\<lambda>x. case x of
     JString s \<Rightarrow> Some s | JNumber s \<Rightarrow> Some s | _ \<Rightarrow> None)"

subsection \<open>Display values\<close>

definition eq_ignore_case :: "string \<Rightarrow> string \<Rightarrow> bool" where
  "eq_ignore_case s t \<longleftrightarrow> map ascii_lower s = map ascii_lower t"

definition is_missing_text :: "string \<Rightarrow> bool" where
  "is_missing_text s = (let t = trim s in t = [] \<or> eq_ignore_case t ''n/a'' \<or> eq_ignore_case t ''na''
     \<or> t = ''-'' \<or> eq_ignore_case t ''not available'')"

definition number_char :: "char \<Rightarrow> bool" where
  "number_char c \<longleftrightarrow> is_ascii_digit c \<or> c \<in> {CHR ''.'', CHR ''-'', CHR ''+'', CHR ''e'', CHR ''E''}"

text \<open>The unit a lower-case text names, and the factor its number is multiplied with.\<close>

definition unit_of_text :: "string \<Rightarrow> f64 option \<times> unit_kind" where
  "unit_of_text s = (let has = (\<lambda>n. str_contains n s) in
     if has (degree @ ''c'') \<or> has ''degc'' \<or> has ''celsius'' then (None, Celsius)
     else if has (degree @ ''f'') \<or> has ''fahrenheit'' then (None, Fahrenheit)
     else if has ''rpm'' then (None, Rpm)
     else if has ''%'' then (None, Percent)
     else if has ''mhz'' then (None, Megahertz)
     else if has ''ghz'' then (Some (Fin 1000), Megahertz)
     else if has ''hz'' then (None, Hertz)
     else if has ''mw'' then (None, Milliwatt)
     else if has ''w'' then (None, Watt)
     else if has ''mv'' \<or> has ''v'' then (None, Volt)
     else if has ''ma'' \<or> has ''a'' then (None, Ampere)
     else if has ''gb'' then (Some (Fin 1000000000), Byte)
     else if has ''mb'' then (Some (Fin 1000000), Byte)
     else if has ''kb'' then (Some (Fin 1000), Byte)
     else if has ''b'' then (None, Byte)
     else (None, NoUnit))"

definition parse_value :: "string \<Rightarrow> (f64 \<times> unit_kind) option" where
  "parse_value text =
    (let text = trim text in
     if is_missing_text text then None
     else (let normalised = map (\<lambda>c. if c = CHR '','' then CHR ''.'' else c) text;
               number = takeWhile number_char normalised in
       if number = [] then None
       else (case parse_f64 number of
         None \<Rightarrow> None
       | Some v \<Rightarrow>
           if \<not> is_finite v then None
           else (case unit_of_text (map ascii_lower normalised) of
               (Some k, u) \<Rightarrow> Some (v * k, u)
             | (None, u) \<Rightarrow> Some (v, u)))))"

subsection \<open>Nodes\<close>

datatype lhm_node = Lhm_Node
  (ln_id: string) (ln_text: string) (ln_sensor_type: "string option") (ln_hardware_type: "string option")
  (ln_hardware_name: "string option") (ln_value: "f64 option") (ln_unit: unit_kind) (ln_raw: "string option")
  (ln_children: "lhm_node list")

definition is_sensor :: "lhm_node \<Rightarrow> bool" where
  "is_sensor n \<longleftrightarrow> ln_sensor_type n \<noteq> None"

definition is_value_missing :: "lhm_node \<Rightarrow> bool" where
  "is_value_missing n \<longleftrightarrow> ln_raw n = None"

text \<open>\<open>walk\<close>: what the visitor is handed, in order.\<close>

fun walk_at :: "nat \<Rightarrow> lhm_node \<Rightarrow> (lhm_node \<times> nat) list" where
  "walk_at depth (Lhm_Node i t s h n v u r cs) =
     (Lhm_Node i t s h n v u r cs, depth) # concat (map (walk_at (depth + 1)) cs)"

definition flatten :: "lhm_node \<Rightarrow> lhm_node list" where
  "flatten n = map fst (walk_at 0 n)"

definition sensors_below :: "lhm_node \<Rightarrow> lhm_node list" where
  "sensors_below n = filter is_sensor (flatten n)"

definition own_sensors :: "lhm_node \<Rightarrow> lhm_node list" where
  "own_sensors n = filter is_sensor (ln_children n)"

definition hardware_children :: "lhm_node \<Rightarrow> lhm_node list" where
  "hardware_children n = filter (\<lambda>c. ln_hardware_type c \<noteq> None) (ln_children n)"

definition effective_hardware_type :: "lhm_node \<Rightarrow> string" where
  "effective_hardware_type n = (case ln_hardware_type n of Some t \<Rightarrow> t | None \<Rightarrow> [])"

definition find_by_id :: "lhm_node \<Rightarrow> string \<Rightarrow> lhm_node option" where
  "find_by_id n i = List.find (\<lambda>x. ln_id x = i) (flatten n)"

definition last_segment :: "string \<Rightarrow> string" where
  "last_segment s = rev (takeWhile (\<lambda>c. c \<noteq> CHR ''/'') (rev s))"

definition parse_usize :: "string \<Rightarrow> nat option" where
  "parse_usize = parse_nat u64_max"

definition id_index :: "lhm_node \<Rightarrow> nat option" where
  "id_index n = parse_usize (last_segment (ln_id n))"

definition name_index :: "lhm_node \<Rightarrow> nat option" where
  "name_index n = parse_usize (takeWhile is_ascii_digit (dropWhile (\<lambda>c. \<not> is_ascii_digit c) (ln_text n)))"

subsection \<open>From a document to a tree\<close>

definition MAX_DEPTH :: nat where "MAX_DEPTH = 32"

definition filter_opt :: "('a \<Rightarrow> bool) \<Rightarrow> 'a option \<Rightarrow> 'a option" where
  "filter_opt p x = (case x of Some v \<Rightarrow> if p v then Some v else None | None \<Rightarrow> None)"

definition or_else :: "'a option \<Rightarrow> 'a option \<Rightarrow> 'a option" where
  "or_else x y = (case x of Some v \<Rightarrow> Some v | None \<Rightarrow> y)"

definition text_or_empty :: "string option \<Rightarrow> string" where
  "text_or_empty x = (case x of Some s \<Rightarrow> s | None \<Rightarrow> [])"

function convert :: "nat \<Rightarrow> json \<Rightarrow> lhm_node" where
  "convert depth v =
    (if MAX_DEPTH < depth then Lhm_Node [] ''<too deep>'' None None None None NoUnit None []
     else (let raw = filter_opt (\<lambda>t. \<not> is_missing_text t) (json_str v ''Value'');
               parsed = Option.bind raw parse_value in
       Lhm_Node (text_or_empty (or_else (json_str v ''id'') (json_str v ''SensorId'')))
         (text_or_empty (or_else (json_str v ''Text'') (json_str v ''Name'')))
         (filter_opt (\<lambda>t. t \<noteq> []) (json_str v ''Type''))
         (filter_opt (\<lambda>t. t \<noteq> []) (json_str v ''HardwareType''))
         (map_option last_segment (json_str v ''HardwareId''))
         (map_option fst parsed)
         (case parsed of Some (_, u) \<Rightarrow> u | None \<Rightarrow> NoUnit)
         raw
         (map (convert (depth + 1))
            (case Option.bind (json_get ''Children'' v) json_array of Some vs \<Rightarrow> vs | None \<Rightarrow> []))))"
  by pat_completeness auto
termination by (relation "measure (\<lambda>(d, _). Suc MAX_DEPTH - d)") auto

declare convert.simps [simp del]

text \<open>\<open>parse_tree\<close>, over what \<open>serde_json::from_str\<close> makes of the text.\<close>

definition parse_tree :: "(string \<Rightarrow> string + json) \<Rightarrow> string \<Rightarrow> lhm_node result" where
  "parse_tree from_str text = (case from_str text of
     Inl e \<Rightarrow> Inl (SerdeError [Txt e]) | Inr v \<Rightarrow> Inr (convert 0 v))"

subsection \<open>Kinds\<close>

datatype sensor_kind =
  Lhm_Temperature | Lhm_Fan | Lhm_Control | Lhm_Load | Lhm_Power | Lhm_Voltage | Lhm_Current
| Lhm_Clock | Lhm_Data | Lhm_Other

definition sensor_kind_names :: "(string list \<times> sensor_kind) list" where
  "sensor_kind_names =
    [([''temperature''], Lhm_Temperature), ([''fan''], Lhm_Fan), ([''control''], Lhm_Control),
     ([''load'', ''level'', ''percentage''], Lhm_Load), ([''power'', ''energy''], Lhm_Power),
     ([''voltage''], Lhm_Voltage), ([''current''], Lhm_Current), ([''clock'', ''frequency''], Lhm_Clock),
     ([''data'', ''smalldata'', ''throughput'', ''capacity''], Lhm_Data)]"

definition kind_from_type :: "string \<Rightarrow> sensor_kind" where
  "kind_from_type s = (case match_name sensor_kind_names (map ascii_lower (trim s)) of
     Some k \<Rightarrow> k | None \<Rightarrow> Lhm_Other)"

definition kind_readable :: "sensor_kind \<Rightarrow> bool" where
  "kind_readable k \<longleftrightarrow> k \<noteq> Lhm_Other"

definition kind_writable :: "sensor_kind \<Rightarrow> bool" where
  "kind_writable k \<longleftrightarrow> k = Lhm_Control"

fun default_unit :: "sensor_kind \<Rightarrow> unit_kind" where
  "default_unit Lhm_Temperature = Celsius"
| "default_unit Lhm_Fan = Rpm"
| "default_unit Lhm_Control = Percent"
| "default_unit Lhm_Load = Percent"
| "default_unit Lhm_Power = Watt"
| "default_unit Lhm_Voltage = Volt"
| "default_unit Lhm_Current = Ampere"
| "default_unit Lhm_Clock = Megahertz"
| "default_unit Lhm_Data = Byte"
| "default_unit Lhm_Other = NoUnit"

definition hardware_type_names :: "(string list \<times> device_type) list" where
  "hardware_type_names =
    [([''cpu''], Cpu), ([''gpunvidia'', ''gpuamd'', ''gpuintel'', ''gpu''], Gpu),
     ([''motherboard''], Motherboard), ([''superio'', ''lpc'', ''embeddedcontroller''], Motherboard),
     ([''memory'', ''ram''], Memory), ([''storage'', ''nvme'', ''hdd''], Storage),
     ([''network''], UnknownType), ([''cooler'', ''cooling''], Fan)]"

definition device_type_of :: "string \<Rightarrow> device_type" where
  "device_type_of s = (case match_name hardware_type_names (map ascii_lower (trim s)) of
     Some t \<Rightarrow> t | None \<Rightarrow> UnknownType)"

end
