(* ===== verification/Lhm_Web.thy ===== *)
theory Lhm_Web
  imports Lhm_Tree
begin

section \<open>The web client\<close>

text \<open>
  \<open>adapters/libre-hardware-monitor/src/web.rs\<close>: URLs, basic authentication, and what the answers to the
  three requests mean. The HTTP agent (\<open>ureq\<close>) and the server behind it are a parameter: a request and
  the server's state give an answer and the server's next state. A URL with a number in it is kept as its
  pieces, like every formatted text.
\<close>

subsection \<open>Configuration\<close>

definition DEFAULT_PORT :: nat where "DEFAULT_PORT = 8085"
definition DEFAULT_BASE_URL :: string where "DEFAULT_BASE_URL = ''http://127.0.0.1:8085''"

record lhm_config =
  lc_base_url :: string
  lc_timeout_ms :: nat
  lc_username :: "string option"
  lc_password :: "string option"
  lc_data_path :: string
  lc_sensor_path :: string

definition lhm_default :: lhm_config where
  "lhm_default = \<lparr>lc_base_url = DEFAULT_BASE_URL, lc_timeout_ms = 3000, lc_username = None, lc_password = None,
     lc_data_path = ''/data.json'', lc_sensor_path = ''/Sensor''\<rparr>"

definition json_field :: "(json \<Rightarrow> 'a option) \<Rightarrow> string \<Rightarrow> json \<Rightarrow> 'a option" where
  "json_field read k v = Option.bind (json_get k v) read"

definition lhm_from_json :: "json option \<Rightarrow> lhm_config" where
  "lhm_from_json value = (case value of None \<Rightarrow> lhm_default
     | Some v \<Rightarrow>
       (let c = lhm_default;
            c = (case json_field json_text ''base_url'' v of
                Some url \<Rightarrow> c\<lparr>lc_base_url := trim_end_matches (CHR ''/'') url\<rparr> | None \<Rightarrow> c);
            c = (case json_field json_u64 ''timeout_ms'' v of
                Some t \<Rightarrow> c\<lparr>lc_timeout_ms := min (max t 100) 60000\<rparr> | None \<Rightarrow> c);
            c = (case json_field json_text ''username'' v of Some u \<Rightarrow> c\<lparr>lc_username := Some u\<rparr> | None \<Rightarrow> c)
        in (case json_field json_text ''password'' v of Some p \<Rightarrow> c\<lparr>lc_password := Some p\<rparr> | None \<Rightarrow> c)))"

definition hex_upper :: "nat \<Rightarrow> char" where
  "hex_upper d = (if d < 10 then char_of (48 + d) else char_of (55 + d))"

definition unreserved :: "char \<Rightarrow> bool" where
  "unreserved c \<longleftrightarrow> is_ascii_alphanumeric c \<or> c \<in> {CHR ''-'', CHR ''_'', CHR ''.'', CHR ''~'', CHR ''/''}"

definition urlencode :: "string \<Rightarrow> string" where
  "urlencode s = concat (map (\<lambda>c. if unreserved c then [c]
     else [CHR ''%'', hex_upper (byte c div 16), hex_upper (byte c mod 16)]) s)"

type_synonym url = message

definition base_of :: "lhm_config \<Rightarrow> string" where
  "base_of c = trim_end_matches (CHR ''/'') (lc_base_url c)"

definition data_url :: "lhm_config \<Rightarrow> url" where
  "data_url c = [Txt (base_of c @ lc_data_path c)]"

definition set_url :: "lhm_config \<Rightarrow> string \<Rightarrow> f64 option \<Rightarrow> url" where
  "set_url c i v = [Txt (base_of c @ lc_sensor_path c @ ''?action=Set&id='' @ urlencode i @ ''&value=''),
     case v of Some x \<Rightarrow> Num x | None \<Rightarrow> Txt ''null'']"

definition get_url :: "lhm_config \<Rightarrow> string \<Rightarrow> url" where
  "get_url c i = [Txt (base_of c @ lc_sensor_path c @ ''?action=Get&id='' @ urlencode i)]"

subsection \<open>Failures\<close>

datatype lhm_error =
  Unreachable string
| Rejected nat string
| Malformed message
| Control_Refused string

fun lhm_reason :: "lhm_error \<Rightarrow> unavailable_reason" where
  "lhm_reason (Unreachable _) = NotPresent"
| "lhm_reason (Rejected _ _) = PermissionDenied"
| "lhm_reason (Malformed _) = ReadError"
| "lhm_reason (Control_Refused _) = VendorLimitation"

text \<open>\<open>chars().take(n)\<close>: the bytes before the \<open>n\<close>-th further character starts.\<close>

fun take_chars :: "nat \<Rightarrow> string \<Rightarrow> string" where
  "take_chars n [] = []"
| "take_chars n (c # s) =
    (if is_continuation c then c # take_chars n s
     else (case n of 0 \<Rightarrow> [] | Suc k \<Rightarrow> c # take_chars k s))"

fun lhm_detail :: "string \<Rightarrow> lhm_error \<Rightarrow> message" where
  "lhm_detail base_url (Unreachable d) = [Txt ''could not reach the LibreHardwareMonitor web server at '', Txt base_url,
     Txt '' ('', Txt d, Txt (''). Open LibreHardwareMonitor, choose Options -> Remote Web Server -> Run, and make ''
       @ ''sure the port matches (default ''), Dec (int DEFAULT_PORT), Txt '').'']"
| "lhm_detail base_url (Rejected status body) = [Txt ''LibreHardwareMonitor answered HTTP '', Dec (int status), Txt '': '',
     Txt (take_chars 200 (trim body))]"
| "lhm_detail base_url (Malformed d) = Txt ''unexpected answer from LibreHardwareMonitor: '' # d"
| "lhm_detail base_url (Control_Refused d) = [Txt ''LibreHardwareMonitor refused the write: '', Txt d,
     Txt (''. SuperIO fan control requires LHM to run as Administrator and the motherboard to expose a controllable ''
       @ ''channel.'')]"

definition LHM_ID :: string where "LHM_ID = ''lhm''"

definition lhm_to_ohm :: "lhm_error \<Rightarrow> ohm_error" where
  "lhm_to_ohm e = AdapterError LHM_ID (lhm_detail DEFAULT_BASE_URL e)"

subsection \<open>Requests\<close>

definition BASE64_TABLE :: string where
  "BASE64_TABLE = ''ABCDEFGHIJKLMNOPQRSTUVWXYZabcdefghijklmnopqrstuvwxyz0123456789+/''"

text \<open>One chunk of one to three bytes; the sextets of the \<open>u32\<close> that holds them.\<close>

definition base64_chunk :: "string \<Rightarrow> string" where
  "base64_chunk chunk =
    (let b = (\<lambda>k. if k < length chunk then byte (chunk ! k) else 0);
         triple = b 0 * 65536 + b 1 * 256 + b 2;
         sextet = (\<lambda>shift. BASE64_TABLE ! (triple div 2 ^ shift mod 64))
     in [sextet 18, sextet 12,
         if 1 < length chunk then sextet 6 else CHR ''='',
         if 2 < length chunk then sextet 0 else CHR ''=''])"

fun base64 :: "string \<Rightarrow> string" where
  "base64 (a # b # c # s) = base64_chunk [a, b, c] @ base64 s"
| "base64 [] = []"
| "base64 s = base64_chunk s"

datatype http_answer =
  Call_Failed string      \<comment> \<open>no answer\<close>
| Body_Failed string      \<comment> \<open>an answer whose body cannot be read\<close>
| Answered nat string

text \<open>URL, \<open>Authorization\<close> header.\<close>

type_synonym 's http_agent = "url \<Rightarrow> string option \<Rightarrow> 's \<Rightarrow> http_answer \<times> 's"

record 's lhm_client =
  wc_config :: lhm_config
  wc_agent :: "'s http_agent"
  wc_from_str :: "string \<Rightarrow> string + json"

definition credential :: "lhm_config \<Rightarrow> string option" where
  "credential c = (case (lc_username c, lc_password c) of
     (Some u, Some p) \<Rightarrow> Some (u @ '':'' @ p)
   | (Some u, None) \<Rightarrow> Some (u @ '':'')
   | _ \<Rightarrow> None)"

definition lhm_request :: "'s lhm_client \<Rightarrow> url \<Rightarrow> 's \<Rightarrow> (lhm_error + nat \<times> string) \<times> 's" where
  "lhm_request c url s =
    (case wc_agent c url (map_option (\<lambda>x. ''Basic '' @ base64 x) (credential (wc_config c))) s of
       (Call_Failed e, s) \<Rightarrow> (Inl (Unreachable e), s)
     | (Body_Failed e, s) \<Rightarrow> (Inl (Malformed [Txt e]), s)
     | (Answered status body, s) \<Rightarrow> (Inr (status, body), s))"

definition status_ok :: "nat \<Rightarrow> bool" where
  "status_ok n \<longleftrightarrow> 200 \<le> n \<and> n < 300"

definition fetch_tree :: "'s lhm_client \<Rightarrow> 's \<Rightarrow> (lhm_error + lhm_node) \<times> 's" where
  "fetch_tree c s = (case lhm_request c (data_url (wc_config c)) s of
     (Inl e, s) \<Rightarrow> (Inl e, s)
   | (Inr (status, body), s) \<Rightarrow>
       (if status = 401 \<or> status = 403 then Inl (Rejected status body)
        else if \<not> status_ok status then Inl (Rejected status body)
        else (case parse_tree (wc_from_str c) body of
            Inl e \<Rightarrow> Inl (Malformed (error_display e)) | Inr n \<Rightarrow> Inr n), s))"

definition set_sensor :: "'s lhm_client \<Rightarrow> string \<Rightarrow> f64 option \<Rightarrow> 's \<Rightarrow> (lhm_error + unit) \<times> 's" where
  "set_sensor c i v s = (case lhm_request c (set_url (wc_config c) i v) s of
     (Inl e, s) \<Rightarrow> (Inl e, s)
   | (Inr (status, body), s) \<Rightarrow>
       (if \<not> status_ok status then Inl (Rejected status body)
        else (let t = trim body in
          if t = [] \<or> eq_ignore_case t ''ok'' then Inr ()
          else if eq_ignore_case t ''null'' \<or> eq_ignore_case t ''n/a'' then
            Inl (Control_Refused (''the channel reported `'' @ t @ ''` after the write''))
          else Inr ()), s))"

definition read_sensor :: "'s lhm_client \<Rightarrow> string \<Rightarrow> 's \<Rightarrow> (lhm_error + f64 option) \<times> 's" where
  "read_sensor c i s = (case lhm_request c (get_url (wc_config c) i) s of
     (Inl e, s) \<Rightarrow> (Inl e, s)
   | (Inr (status, body), s) \<Rightarrow>
       (if \<not> status_ok status then Inl (Rejected status body)
        else Inr (map_option fst (parse_value body)), s))"

subsection \<open>A URL names one sensor\<close>

definition unhex :: "char \<Rightarrow> nat" where
  "unhex c = (if is_ascii_digit c then byte c - 48 else byte c - 55)"

fun urldecode :: "string \<Rightarrow> string" where
  "urldecode (c # a # b # s) = (if c = CHR ''%'' then char_of (16 * unhex a + unhex b) # urldecode s else c # urldecode (a # b # s))"
| "urldecode s = s"

lemma unhex_upper: "d < 16 \<Longrightarrow> unhex (hex_upper d) = d"
  by (auto simp: unhex_def hex_upper_def is_ascii_digit_def byte_def of_char_of)

lemma urldecode_plain: "c \<noteq> CHR ''%'' \<Longrightarrow> urldecode (c # s) = c # urldecode s"
  by (cases s rule: urldecode.cases; cases s) auto

lemma urldecode_urlencode: "urldecode (urlencode s) = s"
proof (induction s)
  case (Cons c s)
  have b: "byte c < 256" by (simp add: byte_def)
  have "\<not> unreserved (CHR ''%'')" by (simp add: unreserved_def is_ascii_alphanumeric_def is_ascii_lower_def
        is_ascii_upper_def is_ascii_digit_def byte_def)
  then have "unreserved c \<Longrightarrow> c \<noteq> CHR ''%''" by blast
  moreover have "char_of (16 * (byte c div 16) + byte c mod 16) = c" by (simp add: byte_def)
  moreover have "byte c div 16 < 16" using b by simp
  ultimately show ?case
    using Cons.IH by (simp add: urlencode_def urldecode_plain unhex_upper)
qed (simp add: urlencode_def)

lemma set_url_inj: "set_url c i v = set_url c j w \<Longrightarrow> i = j"
proof -
  assume "set_url c i v = set_url c j w"
  then have "urlencode i = urlencode j" by (simp add: set_url_def)
  then show ?thesis using urldecode_urlencode by metis
qed

end
