(* ===== verification/Lhm_Mapping.thy ===== *)
theory Lhm_Mapping
  imports Lhm_Tree
begin

section \<open>From the tree to devices\<close>

text \<open>
  \<open>adapters/libre-hardware-monitor/src/mapping.rs\<close>: one device per hardware node below the root, one per
  fan or pump channel wherever it lives, and for each capability the id of the sensor behind it. A
  tachometer and a control are one channel only when their numbers come from the same place.
\<close>

definition NAMESPACE :: string where "NAMESPACE = ''lhm''"
definition TEMPERATURE_HOTSPOT :: string where "TEMPERATURE_HOTSPOT = ''temperature.hotspot''"
definition GPU_LOAD :: string where "GPU_LOAD = ''load.gpu''"
definition POWER_TOTAL :: string where "POWER_TOTAL = ''power.total''"
definition POWER_GPU :: string where "POWER_GPU = ''power.gpu''"
definition PUMP_RPM :: string where "PUMP_RPM = ''pump.rpm''"

text \<open>A sensor map is a \<open>BTreeMap\<close>: pairs in the order of their keys.\<close>

type_synonym sensor_map = "(string \<times> string) list"

record lhm_mapping =
  lm_devices :: "device list"
  lm_sensors :: "(string \<times> sensor_map) list"
  lm_ambiguous_channels :: "string list"
  lm_ambiguous_devices :: "string list"

definition mapping_empty :: lhm_mapping where
  "mapping_empty = \<lparr>lm_devices = [], lm_sensors = [], lm_ambiguous_channels = [], lm_ambiguous_devices = []\<rparr>"

definition sensor_id :: "lhm_mapping \<Rightarrow> string \<Rightarrow> string \<Rightarrow> string option" where
  "sensor_id m d c = Option.bind (map_of (lm_sensors m) d) (\<lambda>ss. map_of ss c)"

definition is_control_id :: "string \<Rightarrow> bool" where
  "is_control_id c \<longleftrightarrow> c = FAN_SPEED_PERCENT \<or> c = PUMP_SPEED_PERCENT"

definition mapping_device :: "lhm_mapping \<Rightarrow> string \<Rightarrow> device option" where
  "mapping_device m i = List.find (\<lambda>d. dev_id d = i) (lm_devices m)"

definition control_count :: "lhm_mapping \<Rightarrow> nat" where
  "control_count m = length (filter is_control_id (concat (map (\<lambda>(_, ss). map fst ss) (lm_sensors m))))"

subsection \<open>Keys\<close>

text \<open>\<open>slugify\<close>; a multi-byte character is one separator, as are its bytes in a row.\<close>

fun slug_loop :: "bool \<Rightarrow> string \<Rightarrow> string" where
  "slug_loop last_sep [] = []"
| "slug_loop last_sep (c # s) =
    (if is_ascii_alphanumeric c then ascii_lower c # slug_loop False s
     else if \<not> last_sep then CHR ''_'' # slug_loop True s
     else slug_loop True s)"

definition lhm_slugify :: "string \<Rightarrow> string" where
  "lhm_slugify text = (let out = trim_end_matches (CHR ''_'') (slug_loop True text);
     out = (if out = [] then ''sensor'' else out) in take 40 out)"

definition trim_slashes :: "string \<Rightarrow> string" where
  "trim_slashes s = trim_end_matches (CHR ''/'') (dropWhile (\<lambda>c. c = CHR ''/'') s)"

definition hardware_key :: "lhm_node \<Rightarrow> nat \<Rightarrow> string" where
  "hardware_key h slot =
    (if trim_slashes (ln_id h) \<noteq> [] then lhm_slugify (ln_id h)
     else if trim (ln_text h) \<noteq> [] then lhm_slugify (ln_text h)
     else ''slot'' @ dec_nat slot)"

datatype anchor = Name nat | Path nat

fun anchor_number :: "anchor \<Rightarrow> nat" where
  "anchor_number (Name k) = k"
| "anchor_number (Path k) = k"

fun anchor_describe :: "anchor \<Rightarrow> string" where
  "anchor_describe (Name _) = ''its name''"
| "anchor_describe (Path _) = ''its position in the sensor path''"

definition name_anchor :: "lhm_node \<Rightarrow> anchor option" where
  "name_anchor n = map_option Name (name_index n)"

definition anchor_of :: "lhm_node \<Rightarrow> anchor option" where
  "anchor_of n = or_else (name_anchor n) (map_option Path (id_index n))"

subsection \<open>Channels\<close>

record lhm_channel =
  ch_index :: "nat option"
  ch_anchor :: "anchor option"
  ch_label :: string
  ch_rpm :: "lhm_node option"
  ch_control :: "lhm_node option"
  ch_is_pump :: bool
  ch_ambiguous :: "string option"

definition fan_channel_key :: "lhm_node \<Rightarrow> lhm_channel \<Rightarrow> nat \<Rightarrow> string" where
  "fan_channel_key h c slot = (let base = hardware_key h slot in
     case ch_index c of
       Some k \<Rightarrow> base @ ''_'' @ dec_nat k
     | None \<Rightarrow> (case or_else (ch_rpm c) (ch_control c) of
         Some n \<Rightarrow> (if ln_id n \<noteq> [] then base @ ''_'' @ lhm_slugify (ln_id n)
                   else base @ ''_unnumbered'' @ dec_nat slot)
       | None \<Rightarrow> base @ ''_unnumbered'' @ dec_nat slot))"

text \<open>A channel with neither a tachometer nor a control does not arise.\<close>

definition one_channel :: "anchor option \<Rightarrow> lhm_node option \<Rightarrow> lhm_node option \<Rightarrow> string option \<Rightarrow> lhm_channel" where
  "one_channel a rpm control ambiguous =
    (let index = map_option anchor_number a;
         label = (case filter_opt (\<lambda>t. t \<noteq> []) (map_option ln_text (or_else rpm control)) of
             Some t \<Rightarrow> t
           | None \<Rightarrow> (case index of Some k \<Rightarrow> ''#'' @ dec_nat (k + 1) | None \<Rightarrow> ''Fan''));
         nodes = (case rpm of Some n \<Rightarrow> [n] | None \<Rightarrow> []) @ (case control of Some n \<Rightarrow> [n] | None \<Rightarrow> [])
     in \<lparr>ch_index = index, ch_anchor = a, ch_label = label, ch_rpm = rpm, ch_control = control,
         ch_is_pump = list_ex (\<lambda>n. str_contains ''pump'' (map ascii_lower (ln_text n))) nodes,
         ch_ambiguous = ambiguous\<rparr>)"

type_synonym anchored = "anchor option \<times> lhm_node"

definition sensors_of_kind :: "sensor_kind \<Rightarrow> lhm_node \<Rightarrow> anchored list" where
  "sensors_of_kind k h = map (\<lambda>n. (anchor_of n, n))
     (filter (\<lambda>n. map_option kind_from_type (ln_sensor_type n) = Some k) (own_sensors h))"

definition claiming :: "anchored list \<Rightarrow> nat \<Rightarrow> anchored list" where
  "claiming es k = filter (\<lambda>(a, _). map_option anchor_number a = Some k) es"

definition anchor_words :: "anchor option \<Rightarrow> string" where
  "anchor_words a = (case map_option anchor_describe a of Some s \<Rightarrow> s | None \<Rightarrow> ''nothing'')"

definition first_of :: "'a list \<Rightarrow> 'a option" where
  "first_of xs = (case xs of [] \<Rightarrow> None | x # _ \<Rightarrow> Some x)"

definition ambiguity :: "nat \<Rightarrow> anchored list \<Rightarrow> anchored list \<Rightarrow> string option" where
  "ambiguity k rpms controls =
    (if 1 < length rpms then Some (dec_nat (length rpms) @ '' tachometers claim channel #'' @ dec_nat k
       @ ''; only the first is shown and the control is read-only'')
     else if 1 < length controls then Some (dec_nat (length controls) @ '' controls claim channel #'' @ dec_nat k
       @ ''; none of them can be shown to be this channel'')
     else (case (rpms, controls) of
       ((ra, _) # _, (ca, _) # _) \<Rightarrow>
         if ra \<noteq> ca then Some (''the tachometer is identified by '' @ anchor_words ra @ '' and the control by ''
           @ anchor_words ca @ ''; they cannot be shown to be the same channel'')
         else None
     | _ \<Rightarrow> None))"

definition numbered_channel :: "anchored list \<Rightarrow> anchored list \<Rightarrow> nat \<Rightarrow> lhm_channel" where
  "numbered_channel rpms controls k =
    (let rpm = claiming rpms k; control = claiming controls k in
     one_channel
       (or_else (Option.bind (first_of rpm) fst) (Option.bind (first_of control) fst))
       (map_option snd (first_of rpm)) (map_option snd (first_of control)) (ambiguity k rpm control))"

definition channel_numbers :: "anchored list \<Rightarrow> anchored list \<Rightarrow> nat list" where
  "channel_numbers rpms controls =
     remdups_adj (sort (List.map_filter (\<lambda>(a, _). map_option anchor_number a) (rpms @ controls)))"

definition NO_NUMBER :: string where
  "NO_NUMBER = ''this control carries no channel number in its name or path, so it cannot be ''
     @ ''matched to a physical fan; it is read-only''"

definition fan_channels :: "lhm_node \<Rightarrow> lhm_channel list" where
  "fan_channels h =
    (let rpms = sensors_of_kind Lhm_Fan h; controls = sensors_of_kind Lhm_Control h in
       map (numbered_channel rpms controls) (channel_numbers rpms controls)
     @ map (\<lambda>(_, n). one_channel None (Some n) None None) (filter (\<lambda>(a, _). a = None) rpms)
     @ map (\<lambda>(_, n). one_channel None None (Some n) (Some NO_NUMBER)) (filter (\<lambda>(a, _). a = None) controls))"

subsection \<open>Descriptions\<close>

definition channel_device_type :: "lhm_channel \<Rightarrow> device_type" where
  "channel_device_type c = (if ch_is_pump c then Pump else Fan)"

definition rpm_id :: "lhm_channel \<Rightarrow> string" where
  "rpm_id c = (if ch_is_pump c then PUMP_RPM else FAN_RPM)"

definition duty_id :: "lhm_channel \<Rightarrow> string" where
  "duty_id c = (if ch_is_pump c then PUMP_SPEED_PERCENT else FAN_SPEED_PERCENT)"

definition duty_capability :: "lhm_channel \<Rightarrow> capability" where
  "duty_capability c = (cap_actuator (duty_id c) (if ch_is_pump c then ''Pump Speed'' else ''Fan Speed'') Percent
     (Fin 0) (Fin 100))\<lparr>cap_description := Some ''LibreHardwareMonitor control channel (requires Administrator)'',
       cap_safety_critical := ch_is_pump c\<rparr>"

definition driven_control :: "lhm_channel \<Rightarrow> lhm_node option" where
  "driven_control c = (if ch_ambiguous c = None then ch_control c else None)"

definition channel_capabilities :: "lhm_channel \<Rightarrow> capability list" where
  "channel_capabilities c = (if ch_rpm c \<noteq> None then [cap_sensor (rpm_id c) ''Fan RPM'' Rpm] else [])
     @ (if driven_control c \<noteq> None then [duty_capability c] else [])"

definition channel_sensors :: "lhm_channel \<Rightarrow> sensor_map" where
  "channel_sensors c =
    (let m = (case ch_rpm c of Some n \<Rightarrow> [(rpm_id c, ln_id n)] | None \<Rightarrow> []) in
     (case driven_control c of Some n \<Rightarrow> sorted_put fst (duty_id c, ln_id n) m | None \<Rightarrow> m))"

definition channel_name :: "lhm_node \<Rightarrow> lhm_channel \<Rightarrow> string" where
  "channel_name h c =
    (let name = ch_label c;
         name = (if name = [] \<or> eq_ignore_case name ''fan'' \<or> eq_ignore_case name ''control''
                 then (if ch_is_pump c then ''Pump'' else ''Fan'') else name)
     in if ln_text h \<noteq> [] \<and> ln_text h \<noteq> name then name @ '' '' @ em_dash @ '' '' @ ln_text h else name)"

definition number_from :: "anchor option \<Rightarrow> string" where
  "number_from a = (case a of Some (Name _) \<Rightarrow> ''sensor name'' | Some (Path _) \<Rightarrow> ''sensor path''
     | None \<Rightarrow> ''no number; keyed by the sensor path'')"

definition LHM_VENDOR :: string where "LHM_VENDOR = ''LibreHardwareMonitor''"
definition LHM_SOURCE :: string where "LHM_SOURCE = ''LibreHardwareMonitor web server''"

definition build_fan_device :: "lhm_node \<Rightarrow> lhm_channel \<Rightarrow> device_type \<Rightarrow> string \<Rightarrow> (device \<times> sensor_map) option" where
  "build_fan_device h c t i =
    (let caps = channel_capabilities c in
     if caps = [] then None
     else
       (let d = with_metadata ''source'' LHM_SOURCE
              (with_metadata ''lhm_channel_number_from'' (number_from (ch_anchor c))
              (with_metadata ''lhm_channel'' (ch_label c)
              (with_metadata ''lhm_id'' (ln_id h)
                ((with_vendor LHM_VENDOR (new_device i (channel_name h c) t Web NAMESPACE))
                   \<lparr>dev_capabilities := caps\<rparr>))));
            d = (case ch_ambiguous c of Some r \<Rightarrow> with_metadata ''lhm_control_withheld'' r d | None \<Rightarrow> d)
        in Some (d, channel_sensors c)))"

definition capability_id_for :: "device_type \<Rightarrow> lhm_node \<Rightarrow> sensor_kind \<Rightarrow> string" where
  "capability_id_for t n k =
    (let name = map ascii_lower (ln_text n); slug = lhm_slugify (ln_text n); has = (\<lambda>w. str_contains w name) in
     case k of
       Lhm_Temperature \<Rightarrow>
         if has ''hot'' \<and> has ''spot'' then TEMPERATURE_HOTSPOT
         else if has ''package'' \<or> has ''tctl'' \<or> has ''tdie'' \<or> has ''cpu'' \<or> (t = Gpu \<and> has ''core'') \<or> t = Storage
         then TEMPERATURE_CORE
         else if has ''motherboard'' \<or> has ''system'' \<or> has ''chipset'' then TEMPERATURE_SYSTEM
         else ''temperature.'' @ slug
     | Lhm_Load \<Rightarrow>
         if has ''cpu'' \<or> (t = Cpu \<and> has ''total'') then CPU_LOAD
         else if has ''gpu'' \<or> (t = Gpu \<and> has ''core'') then GPU_LOAD
         else ''load.'' @ slug
     | Lhm_Power \<Rightarrow> if t = Gpu then POWER_GPU else POWER_TOTAL
     | Lhm_Clock \<Rightarrow> CLOCK_MHZ
     | Lhm_Voltage \<Rightarrow> ''voltage.'' @ slug
     | Lhm_Current \<Rightarrow> ''current.'' @ slug
     | Lhm_Data \<Rightarrow> if has ''memory'' \<and> has ''used'' then MEMORY_USED else ''data.'' @ slug
     | Lhm_Fan \<Rightarrow> ''fan.'' @ slug
     | Lhm_Control \<Rightarrow> ''fan.'' @ slug
     | Lhm_Other \<Rightarrow> ''sensor.'' @ slug)"

definition suffixed :: "string \<Rightarrow> nat \<Rightarrow> string" where
  "suffixed c k = c @ ''_'' @ dec_nat k"

definition uniquify :: "capability list \<Rightarrow> string \<Rightarrow> string" where
  "uniquify caps c =
    (let used = map cap_id caps in
     if c \<notin> set used then c
     else (case List.find (\<lambda>k. suffixed c k \<notin> set used) [2..<100] of
         Some k \<Rightarrow> suffixed c k | None \<Rightarrow> c))"

definition build_capability :: "string \<Rightarrow> lhm_node \<Rightarrow> sensor_kind \<Rightarrow> capability" where
  "build_capability i n k =
     (cap_sensor i (ln_text n) (if ln_unit n = NoUnit then default_unit k else ln_unit n))
       \<lparr>cap_description := map_option (\<lambda>r. ''LibreHardwareMonitor: '' @ r) (ln_raw n)\<rparr>"

subsection \<open>Device ids\<close>

record id_book =
  ib_used :: "string list"
  ib_ambiguous :: "string list"

function free_id :: "string list \<Rightarrow> string \<Rightarrow> string" where
  "free_id used attempt = (if attempt \<in> set used then free_id used (attempt @ ''_'') else attempt)"
  by pat_completeness auto
termination
proof (relation "measure (\<lambda>(used, a). card {u \<in> set used. length a \<le> length u})")
  fix used and attempt :: string
  assume "attempt \<in> set used"
  then have "attempt \<in> {u \<in> set used. length attempt \<le> length u} - {u \<in> set used. length (attempt @ ''_'') \<le> length u}"
    by simp
  then have "{u \<in> set used. length (attempt @ ''_'') \<le> length u} \<subset> {u \<in> set used. length attempt \<le> length u}"
    by fastforce
  then show "((used, attempt @ ''_''), used, attempt) \<in> measure (\<lambda>(used, a). card {u \<in> set used. length a \<le> length u})"
    by (simp add: psubset_card_mono)
qed simp

declare free_id.simps [simp del]

definition claim_id :: "string \<Rightarrow> string \<Rightarrow> nat \<Rightarrow> id_book \<Rightarrow> string \<times> id_book" where
  "claim_id candidate describe slot b =
    (if candidate \<notin> set (ib_used b) then (candidate, b\<lparr>ib_used := candidate # ib_used b\<rparr>)
     else (let attempt = free_id (ib_used b) (candidate @ ''_slot'' @ dec_nat slot) in
       (attempt, \<lparr>ib_used = attempt # ib_used b, ib_ambiguous = ib_ambiguous b
          @ [describe @ '': another device already claims `'' @ candidate @ ''`, so this one is addressed as `''
             @ attempt @ ''`, which follows the order LibreHardwareMonitor reports them in'']\<rparr>)))"

definition lhm_device_id :: "device_type \<Rightarrow> string \<Rightarrow> string" where
  "lhm_device_id t key = device_type_str t @ ''.'' @ NAMESPACE @ ''.'' @ key"

subsection \<open>The mapping\<close>

definition add_sensor :: "device_type \<Rightarrow> lhm_node \<Rightarrow> capability list \<times> sensor_map \<Rightarrow> capability list \<times> sensor_map" where
  "add_sensor t n = (\<lambda>(caps, ss). case map_option kind_from_type (ln_sensor_type n) of
     None \<Rightarrow> (caps, ss)
   | Some k \<Rightarrow>
       if \<not> kind_readable k \<or> k = Lhm_Fan \<or> k = Lhm_Control then (caps, ss)
       else (let i = uniquify caps (capability_id_for t n k)
         in (caps @ [build_capability i n k], sorted_put fst (i, ln_id n) ss)))"

definition hardware_device :: "device_type \<Rightarrow> string \<Rightarrow> lhm_node \<Rightarrow> capability list \<Rightarrow> device" where
  "hardware_device t i h caps = with_metadata ''source'' LHM_SOURCE
     (with_metadata ''lhm_hardware_type'' (effective_hardware_type h)
     (with_metadata ''lhm_id'' (ln_id h)
       ((with_vendor LHM_VENDOR (new_device i (ln_text h) t Web NAMESPACE))\<lparr>dev_capabilities := caps\<rparr>)))"

definition put_device :: "device \<Rightarrow> sensor_map \<Rightarrow> lhm_mapping \<Rightarrow> lhm_mapping" where
  "put_device d ss m = (if validate_device d = Inr ()
     then m\<lparr>lm_devices := lm_devices m @ [d], lm_sensors := sorted_put fst (dev_id d, ss) (lm_sensors m)\<rparr> else m)"

text \<open>Step 1 of \<open>map_tree\<close>: \<open>index\<close>, the ids handed out and the mapping are the loop's state.\<close>

definition map_hardware :: "lhm_node \<Rightarrow> nat \<times> id_book \<times> lhm_mapping \<Rightarrow> nat \<times> id_book \<times> lhm_mapping" where
  "map_hardware h = (\<lambda>(index, b, m).
    (let t = device_type_of (effective_hardware_type h) in
     if t = UnknownType \<and> length (flatten h) = 1 then (index, b, m)
     else
       (let (i, b) = claim_id (lhm_device_id t (hardware_key h index)) (ln_text h) index b;
            (caps, ss) = fold (add_sensor t) (sensors_below h) ([], [])
        in (index + 1, b, if caps = [] then m else put_device (hardware_device t i h caps) ss m))))"

text \<open>Step 2: \<open>slot\<close> counts the nodes that have channels.\<close>

definition map_channel :: "lhm_node \<Rightarrow> nat \<Rightarrow> lhm_channel \<Rightarrow> id_book \<times> lhm_mapping \<Rightarrow> id_book \<times> lhm_mapping" where
  "map_channel h slot c = (\<lambda>(b, m).
    (let m = (case ch_ambiguous c of
           Some r \<Rightarrow> m\<lparr>lm_ambiguous_channels := lm_ambiguous_channels m @ [ln_text h @ '': '' @ r]\<rparr> | None \<Rightarrow> m);
         t = channel_device_type c;
         (i, b) = claim_id (lhm_device_id t (fan_channel_key h c slot)) (ch_label c) slot b
     in (b, case build_fan_device h c t i of None \<Rightarrow> m | Some (d, ss) \<Rightarrow> put_device d ss m)))"

definition map_fans :: "lhm_node \<Rightarrow> nat \<times> id_book \<times> lhm_mapping \<Rightarrow> nat \<times> id_book \<times> lhm_mapping" where
  "map_fans h = (\<lambda>(slot, b, m).
    (if fan_channels h = [] then (slot, b, m)
     else (slot + 1, fold (map_channel h (slot + 1)) (fan_channels h) (b, m))))"

definition map_tree :: "lhm_node \<Rightarrow> lhm_mapping" where
  "map_tree tree =
    (let (_, b, m) = fold map_hardware (hardware_children tree) (0, \<lparr>ib_used = [], ib_ambiguous = []\<rparr>, mapping_empty);
         (_, b, m) = fold map_fans (flatten tree) (0, b, m)
     in m\<lparr>lm_ambiguous_devices := ib_ambiguous b\<rparr>)"

subsection \<open>Readings\<close>

definition round_for :: "unit_kind \<Rightarrow> f64 \<Rightarrow> val" where
  "round_for u x =
    (if u \<in> {Byte, Count, Rpm, Hertz, Megahertz} then Integer (f64_to_i64 (fround x))
     else if u \<in> {Celsius, Fahrenheit, Percent, Pwm, Watt, Milliwatt} then Number (fround (x * Fin 10) div Fin 10)
     else if u = Volt \<or> u = Ampere then Number (fround (x * Fin 1000) div Fin 1000)
     else Number x)"

definition sensor_reading :: "lhm_node \<Rightarrow> device \<Rightarrow> string \<times> string \<Rightarrow> reading" where
  "sensor_reading tree d = (\<lambda>(c, i). case find_by_id tree i of
     None \<Rightarrow> reading_unavailable c NotPresent (Some (''`'' @ i @ ''` disappeared from the LHM tree''))
   | Some n \<Rightarrow> (case ln_value n of
       Some x \<Rightarrow> reading_ok c (round_for (case dev_capability d c of Some k \<Rightarrow> cap_unit k | None \<Rightarrow> ln_unit n) x)
     | None \<Rightarrow> reading_unavailable c HardwareLimitation (Some (''LibreHardwareMonitor reports `''
         @ (case ln_raw n of Some r \<Rightarrow> r | None \<Rightarrow> ''N/A'') @ ''` for this sensor''))))"

definition state_from_tree :: "lhm_node \<Rightarrow> lhm_mapping \<Rightarrow> device \<Rightarrow> int \<Rightarrow> device_state" where
  "state_from_tree tree m d at_ms =
    (let st = new_state (dev_id d) at_ms in
     case map_of (lm_sensors m) (dev_id d) of
       None \<Rightarrow> offline NotPresent ''this device is not part of the current LibreHardwareMonitor tree'' st
     | Some ss \<Rightarrow>
         (let st = fold set_reading (map (sensor_reading tree d) ss) st in
          if ss \<noteq> [] \<and> list_all (\<lambda>(_, i). find_by_id tree i = None) ss
          then offline NotPresent ''every sensor of this device vanished from the LHM tree'' st
          else st))"

end
