(* ===== verification/Lhm_Adapter.thy ===== *)
theory Lhm_Adapter
  imports Lhm_Web Lhm_Mapping
begin

section \<open>The LibreHardwareMonitor adapter\<close>

text \<open>
  \<open>adapters/libre-hardware-monitor/src/lib.rs\<close>. The adapter keeps the mapping of the last tree it fetched
  and the last failure; the server's state is part of its world. Every operation fetches the tree again,
  a write resolves its channel in the tree it just fetched.
\<close>

definition LHM_NAME :: string where "LHM_NAME = ''LibreHardwareMonitor''"
definition READ_BACK_TOLERANCE_PERCENT :: f64 where "READ_BACK_TOLERANCE_PERCENT = Fin 1"

record 's lhm_adapter =
  la_client :: "'s lhm_client"
  la_mapping :: lhm_mapping
  la_last_error :: "lhm_error option"
  la_connected :: bool
  la_last_success_ms :: int
  la_clock :: int
  la_server :: 's

definition lhm_new :: "'s lhm_client \<Rightarrow> 's \<Rightarrow> int \<Rightarrow> 's lhm_adapter" where
  "lhm_new c s now = \<lparr>la_client = c, la_mapping = mapping_empty, la_last_error = None, la_connected = False,
     la_last_success_ms = 0, la_clock = now, la_server = s\<rparr>"

definition la_base_url :: "'s lhm_adapter \<Rightarrow> string" where
  "la_base_url w = lc_base_url (wc_config (la_client w))"

subsection \<open>Evidence for a report\<close>

record sensor_evidence =
  sv_id :: string
  sv_text :: string
  sv_type :: string
  sv_hardware :: string
  sv_value :: "f64 option"
  sv_raw :: "string option"

definition evidence_of :: "lhm_node \<Rightarrow> sensor_evidence" where
  "evidence_of n = \<lparr>sv_id = ln_id n, sv_text = ln_text n, sv_type = text_or_empty (ln_sensor_type n),
     sv_hardware = text_or_empty (or_else (ln_hardware_name n) (ln_hardware_type n)),
     sv_value = ln_value n, sv_raw = ln_raw n\<rparr>"

definition platform_evidence :: "'s lhm_adapter \<Rightarrow> (lhm_error + sensor_evidence list) \<times> 's lhm_adapter" where
  "platform_evidence w = (case fetch_tree (la_client w) (la_server w) of
     (Inl e, s) \<Rightarrow> (Inl e, w\<lparr>la_server := s\<rparr>)
   | (Inr tree, s) \<Rightarrow> (Inr (map evidence_of (sensors_below tree)), w\<lparr>la_server := s\<rparr>))"

subsection \<open>Fetching\<close>

definition la_refresh :: "'s lhm_adapter \<Rightarrow> (lhm_error + lhm_node \<times> lhm_mapping) \<times> 's lhm_adapter" where
  "la_refresh w = (case fetch_tree (la_client w) (la_server w) of
     (Inr tree, s) \<Rightarrow> (let m = map_tree tree in
       (Inr (tree, m), w\<lparr>la_server := s, la_mapping := m, la_last_error := None, la_connected := True,
          la_last_success_ms := la_clock w\<rparr>))
   | (Inl e, s) \<Rightarrow> (Inl e, w\<lparr>la_server := s, la_connected := False, la_last_error := Some e\<rparr>))"

definition unavailable_error :: "'s lhm_adapter \<Rightarrow> ohm_error" where
  "unavailable_error w = AdapterUnavailable LHM_ID (lhm_detail (la_base_url w)
     (case la_last_error w of Some e \<Rightarrow> e | None \<Rightarrow> Unreachable ''no successful fetch yet''))"

definition lhm_info :: adapter_info where
  "lhm_info = (adapter_info_new LHM_ID LHM_NAME LHM_ID)
     \<lparr>ai_requires_admin := True, ai_capabilities := hands_back_control cooling_control\<rparr>"

definition limit_words :: "lhm_mapping \<Rightarrow> string list" where
  "limit_words m =
     (if lm_ambiguous_channels m = [] then []
      else [dec_nat (length (lm_ambiguous_channels m))
        @ '' channel(s) are read-only because their control could not be matched to a physical channel: ''
        @ join ''; '' (lm_ambiguous_channels m)])
   @ (if lm_ambiguous_devices m = [] then []
      else [dec_nat (length (lm_ambiguous_devices m))
        @ '' device(s) are named by their position because nothing stable distinguished them: ''
        @ join ''; '' (lm_ambiguous_devices m)])"

definition lhm_probe :: "'s lhm_adapter \<Rightarrow> adapter_status \<times> 's lhm_adapter" where
  "lhm_probe w = (case la_refresh w of
     (Inr (_, m), w) \<Rightarrow>
       (if lm_devices m = [] then status_degraded LHM_ID HardwareLimitation
          [Txt (''LibreHardwareMonitor is reachable but exposes no sensors; check that it ''
             @ ''is running as Administrator'')] (la_clock w)
        else if limit_words m \<noteq> [] then
          (status_degraded LHM_ID HardwareLimitation [Txt (join '' | '' (limit_words m))] (la_clock w))
            \<lparr>as_device_count := length (lm_devices m)\<rparr>
        else status_available LHM_ID (length (lm_devices m)) (la_clock w), w)
   | (Inl e, w) \<Rightarrow> (status_unavailable LHM_ID (lhm_reason e) (lhm_detail (la_base_url w) e) (la_clock w), w))"

definition lhm_discover :: "'s lhm_adapter \<Rightarrow> device list result \<times> 's lhm_adapter" where
  "lhm_discover w = (case la_refresh w of
     (Inr (_, m), w) \<Rightarrow> (Inr (lm_devices m), w) | (Inl _, w) \<Rightarrow> (Inl (unavailable_error w), w))"

definition lhm_read_state :: "device \<Rightarrow> 's lhm_adapter \<Rightarrow> device_state result \<times> 's lhm_adapter" where
  "lhm_read_state d w = (case la_refresh w of
     (Inr (tree, m), w) \<Rightarrow> (Inr (state_from_tree tree m d (la_clock w)), w)
   | (Inl _, w) \<Rightarrow> (Inl (unavailable_error w), w))"

text \<open>The failure as text: its pieces are literals and whole numbers only.\<close>

fun piece_text :: "piece \<Rightarrow> string" where
  "piece_text (Txt s) = s"
| "piece_text (Dec k) = dec_int k"
| "piece_text _ = []"

definition plain_text :: "message \<Rightarrow> string" where
  "plain_text m = concat (map piece_text m)"

definition lhm_read_all :: "device list \<Rightarrow> 's lhm_adapter
    \<Rightarrow> (string \<times> device_state result) list \<times> 's lhm_adapter" where
  "lhm_read_all ds w = (case la_refresh w of
     (Inr (tree, m), w) \<Rightarrow> (map (\<lambda>d. (dev_id d, Inr (state_from_tree tree m d (la_clock w)))) ds, w)
   | (Inl _, w) \<Rightarrow> (let detail = plain_text (error_display (unavailable_error w)) in
       (map (\<lambda>d. (dev_id d, Inr (offline NotPresent detail (new_state (dev_id d) (la_clock w))))) ds, w)))"

subsection \<open>Writing\<close>

definition confirm_write :: "device \<Rightarrow> capability \<Rightarrow> string \<Rightarrow> f64 \<Rightarrow> 's lhm_adapter
    \<Rightarrow> write_outcome result \<times> 's lhm_adapter" where
  "confirm_write d cap i applied w = (case read_sensor (la_client w) i (la_server w) of
     (Inr (Some back), s) \<Rightarrow>
       ((if READ_BACK_TOLERANCE_PERCENT < \<bar>back - applied\<bar> then
           Inl (WriteRejected (dev_id d) (cap_id cap) [Txt ''LibreHardwareMonitor accepted '', Prec 1 applied,
             Txt '' % but the channel reports '', Prec 1 back,
             Txt ('' %. The value was not applied '' @ em_dash @ '' the chip may be ''
               @ ''ignoring writes, or a vendor tool may be holding the controller.'')])
         else Inr ((outcome_applied (Number back))\<lparr>wo_detail := Some [Txt ''channel set point read back as '',
           Prec 1 back, Txt '' % (the fan's actual speed is a separate reading, not implied by this)'']\<rparr>)),
        w\<lparr>la_server := s\<rparr>)
   | (Inr None, s) \<Rightarrow> (Inr (outcome_unconfirmed
       [Txt (''LibreHardwareMonitor accepted the request, but the channel answers `N/A` when read ''
          @ ''back, so the set point could not be confirmed (it is neither known to be ''), Prec 1 applied,
        Txt '' % nor known to be something else)'']), w\<lparr>la_server := s\<rparr>)
   | (Inl e, s) \<Rightarrow> (Inr (outcome_unconfirmed
       ([Txt ''LibreHardwareMonitor accepted the request, but reading the channel back failed ('']
        @ lhm_detail (la_base_url w) e @ [Txt ''), so the set point could not be confirmed''])), w\<lparr>la_server := s\<rparr>))"

definition drive_sensor :: "device \<Rightarrow> capability \<Rightarrow> f64 \<Rightarrow> lhm_mapping \<Rightarrow> 's lhm_adapter
    \<Rightarrow> write_outcome result \<times> 's lhm_adapter" where
  "drive_sensor d cap applied m w = (case sensor_id m (dev_id d) (cap_id cap) of
     None \<Rightarrow> (Inl (WriteRejected (dev_id d) (cap_id cap)
       [Txt ''LibreHardwareMonitor no longer exposes this control channel'']), w)
   | Some i \<Rightarrow> (case set_sensor (la_client w) i (Some applied) (la_server w) of
       (Inl e, s) \<Rightarrow> (Inl (WriteRejected (dev_id d) (cap_id cap) (lhm_detail (la_base_url w) e)), w\<lparr>la_server := s\<rparr>)
     | (Inr _, s) \<Rightarrow> confirm_write d cap i applied (w\<lparr>la_server := s\<rparr>)))"

definition lhm_write :: "device \<Rightarrow> capability \<Rightarrow> val \<Rightarrow> 's lhm_adapter \<Rightarrow> write_outcome result \<times> 's lhm_adapter" where
  "lhm_write d cap v w =
    (if \<not> cap_writable cap then (Inl (CapabilityNotWritable (dev_id d) (cap_id cap)), w)
     else (case validate_capability cap v of
       Inl e \<Rightarrow> (Inl e, w)
     | Inr _ \<Rightarrow> (case as_f64 v of
         None \<Rightarrow> (Inl (InvalidValue (dev_id d) (cap_id cap)
           [Txt ''expected a number, got `'', Txt (val_to_string v), Txt ''`'']), w)
       | Some requested \<Rightarrow> (case la_refresh w of
           (Inl _, w) \<Rightarrow> (Inl (unavailable_error w), w)
         | (Inr (_, m), w) \<Rightarrow> drive_sensor d cap (clamp_capability cap requested) m w))))"

subsection \<open>Handing back\<close>

definition control_channels :: "lhm_mapping \<Rightarrow> string list" where
  "control_channels m = concat (map (\<lambda>(_, ss). map snd (filter (\<lambda>(c, _). is_control_id c) ss)) (lm_sensors m))"

text \<open>Failures are counted for the log and otherwise ignored.\<close>

definition lhm_release :: "string \<Rightarrow> 's lhm_adapter \<Rightarrow> 's lhm_adapter" where
  "lhm_release i w = w\<lparr>la_server := snd (set_sensor (la_client w) i None (la_server w))\<rparr>"

definition lhm_shutdown :: "'s lhm_adapter \<Rightarrow> unit result \<times> 's lhm_adapter" where
  "lhm_shutdown w = (Inr (), fold lhm_release (control_channels (la_mapping w)) w)"

definition lhm_adapter_of :: "'s lhm_adapter adapter" where
  "lhm_adapter_of = \<lparr>ad_info = lhm_info, ad_probe = lhm_probe, ad_discover = lhm_discover,
     ad_read_all = lhm_read_all, ad_write = lhm_write, ad_shutdown = lhm_shutdown,
     ad_write_access = no_opinion, ad_taken_controls = takes_nothing, ad_adopt = adopts_nothing\<rparr>"

end
