(* ===== verification/Lhm_Correct.thy ===== *)
theory Lhm_Correct
  imports Lhm_Adapter
begin

section \<open>What the mapping promises\<close>

text \<open>
  Facts of the tree, the channels and the ids; every device has its own id, every capability its sensor,
  and a control is writable only where its tachometer is identified by the same carrier.
\<close>

subsection \<open>The tree\<close>

lemma walk_any_depth: "map fst (walk_at d n) = map fst (walk_at e n)"
proof (induction n arbitrary: d e)
  case (Lhm_Node i t s h nm v u r cs)
  then have "\<forall>c \<in> set cs. map fst (walk_at (Suc d) c) = map fst (walk_at (Suc e) c)" by blast
  then show ?case by (simp add: map_concat comp_def cong: map_cong)
qed

lemma flatten_node: "flatten n = n # concat (map flatten (ln_children n))"
proof -
  have "map fst (walk_at 1 c) = map fst (walk_at 0 c)" for c by (rule walk_any_depth)
  then show ?thesis by (cases n) (simp add: flatten_def [abs_def] map_concat comp_def)
qed

lemma flatten_self: "n \<in> set (flatten n)"
  by (simp add: flatten_node [of n])

lemma flatten_trans: "h \<in> set (flatten n) \<Longrightarrow> x \<in> set (flatten h) \<Longrightarrow> x \<in> set (flatten n)"
proof (induction n)
  case (Lhm_Node i t s hw nm v u r cs)
  show ?case
  proof (cases "h = Lhm_Node i t s hw nm v u r cs")
    case False
    then obtain c where "c \<in> set cs" "h \<in> set (flatten c)"
      using Lhm_Node.prems(1) by (auto simp: flatten_node [of "Lhm_Node i t s hw nm v u r cs"])
    with Lhm_Node have "x \<in> set (flatten c)" by blast
    with \<open>c \<in> set cs\<close> show ?thesis by (auto simp: flatten_node [of "Lhm_Node i t s hw nm v u r cs"])
  qed (use Lhm_Node.prems in simp)
qed

lemma flatten_child: "h \<in> set (flatten n) \<Longrightarrow> c \<in> set (ln_children h) \<Longrightarrow> c \<in> set (flatten n)"
  by (rule flatten_trans [of h]) (auto simp: flatten_node [of h] intro!: bexI [of _ c] flatten_self)

lemma own_in_tree: "h \<in> set (flatten n) \<Longrightarrow> x \<in> set (own_sensors h) \<Longrightarrow> x \<in> set (flatten n)"
  by (auto simp: own_sensors_def intro: flatten_child)

lemma find_by_id_tree: "x \<in> set (flatten n) \<Longrightarrow> find_by_id n (ln_id x) \<noteq> None"
  by (auto simp: find_by_id_def find_None_iff)

text \<open>A document of any depth gives a tree of bounded depth.\<close>

lemma convert_depth: "(n, k) \<in> set (walk_at e (convert d v)) \<Longrightarrow> d \<le> Suc MAX_DEPTH \<Longrightarrow> k \<le> e + (Suc MAX_DEPTH - d)"
proof (induction d v arbitrary: e k rule: convert.induct)
  case (1 d v)
  show ?case
  proof (cases "MAX_DEPTH < d")
    case True
    then show ?thesis using 1(2) by (simp add: convert.simps [of d v])
  next
    case False
    then have "k = e \<or> (\<exists>c. (n, k) \<in> set (walk_at (Suc e) (convert (d + 1) c))
        \<and> c \<in> set (case Option.bind (json_get ''Children'' v) json_array of Some vs \<Rightarrow> vs | None \<Rightarrow> []))"
      using 1(2) by (auto simp: convert.simps [of d v] Let_def)
    then show ?thesis using 1(1) [OF False refl refl] False by fastforce
  qed
qed

lemma tree_depth_bounded: "(n, k) \<in> set (walk_at 0 (convert 0 v)) \<Longrightarrow> k \<le> 33"
  using convert_depth [of n k 0 0 v] by (simp add: MAX_DEPTH_def)

subsection \<open>Channels\<close>

definition kind_of :: "lhm_node \<Rightarrow> sensor_kind option" where
  "kind_of n = map_option kind_from_type (ln_sensor_type n)"

definition number_of :: "lhm_node \<Rightarrow> nat option" where
  "number_of n = map_option anchor_number (anchor_of n)"

definition numbered :: "sensor_kind \<Rightarrow> lhm_node \<Rightarrow> nat \<Rightarrow> lhm_node list" where
  "numbered k h num = filter (\<lambda>n. kind_of n = Some k \<and> number_of n = Some num) (own_sensors h)"

text \<open>When a control may be written: it alone among the node's controls has its number, and a tachometer
  with that number, if there is one, is alone too and is identified by the same carrier.\<close>

definition matched :: "lhm_node \<Rightarrow> lhm_node \<Rightarrow> bool" where
  "matched h n \<longleftrightarrow> (\<exists>a. anchor_of n = Some a \<and> numbered Lhm_Control h (anchor_number a) = [n]
     \<and> (\<forall>r \<in> set (numbered Lhm_Fan h (anchor_number a)). anchor_of r = Some a)
     \<and> length (numbered Lhm_Fan h (anchor_number a)) \<le> 1)"

lemma claiming_kind:
  "claiming (sensors_of_kind k h) num = map (\<lambda>n. (anchor_of n, n)) (numbered k h num)"
  by (simp add: claiming_def sensors_of_kind_def numbered_def filter_map comp_def kind_of_def number_of_def
      conj_commute)

lemma one_channel_fields [simp]:
  "ch_control (one_channel a r c w) = c" "ch_rpm (one_channel a r c w) = r"
  "ch_ambiguous (one_channel a r c w) = w" "ch_anchor (one_channel a r c w) = a"
  "ch_index (one_channel a r c w) = map_option anchor_number a"
  by (simp_all add: one_channel_def Let_def)

lemma first_of_map: "map_option snd (first_of (map (\<lambda>n. (anchor_of n, n)) xs)) = first_of xs"
  by (cases xs) (simp_all add: first_of_def)

lemma first_of_Some: "first_of xs = Some x \<Longrightarrow> x \<in> set xs"
  by (cases xs) (simp_all add: first_of_def)

lemma driven_matched:
  assumes "ch \<in> set (fan_channels h)" "driven_control ch = Some n"
  shows "matched h n \<and> ch_control ch = Some n"
proof -
  have c: "ch_control ch = Some n" "ch_ambiguous ch = None"
    using assms(2) by (auto simp: driven_control_def split: if_splits)
  then obtain k where k: "ch = numbered_channel (sensors_of_kind Lhm_Fan h) (sensors_of_kind Lhm_Control h) k"
    using assms(1) by (auto simp: fan_channels_def Let_def)
  let ?r = "numbered Lhm_Fan h k" and ?c = "numbered Lhm_Control h k"
  have f: "first_of ?c = Some n" using c(1) by (simp add: k numbered_channel_def claiming_kind first_of_map Let_def)
  have a: "ambiguity k (map (\<lambda>n. (anchor_of n, n)) ?r) (map (\<lambda>n. (anchor_of n, n)) ?c) = None"
    using c(2) by (simp add: k numbered_channel_def claiming_kind Let_def)
  then have l: "length ?r \<le> 1" "length ?c \<le> 1" by (auto simp: ambiguity_def split: if_splits)
  then have one: "?c = [n]" using f by (cases ?c) (auto simp: first_of_def)
  then have "n \<in> set ?c" by simp
  then obtain an where an: "anchor_of n = Some an" "anchor_number an = k" by (auto simp: numbered_def number_of_def)
  have "anchor_of r = Some an" if "r \<in> set ?r" for r
  proof -
    have "?r = [r]" using l(1) that by (cases ?r) auto
    then show ?thesis using a one an by (simp add: ambiguity_def split: if_splits)
  qed
  with an one l c(1) show ?thesis unfolding matched_def by blast
qed

lemma channel_nodes:
  assumes "ch \<in> set (fan_channels h)" "ch_rpm ch = Some n \<or> ch_control ch = Some n"
  shows "n \<in> set (own_sensors h)"
proof -
  have s: "snd x \<in> set (own_sensors h)" if "x \<in> set (sensors_of_kind k h)" for x k
    using that by (auto simp: sensors_of_kind_def)
  have c: "snd x \<in> set (own_sensors h)" if "first_of (claiming (sensors_of_kind k h) num) = Some x" for x k num
    using first_of_Some [OF that] s by (auto simp: claiming_def)
  show ?thesis
    using assms by (auto simp: fan_channels_def Let_def numbered_channel_def dest!: c dest: s)
qed

subsection \<open>Ids\<close>

lemma free_id_new: "free_id used a \<notin> set used"
  by (induction used a rule: free_id.induct) (simp add: free_id.simps)

lemma claim_id_new:
  assumes "claim_id c w slot b = (i, b')"
  shows "i \<notin> set (ib_used b)" "ib_used b' = i # ib_used b"
  using assms by (auto simp: claim_id_def Let_def free_id_new split: if_splits)

subsection \<open>Devices\<close>

text \<open>Which devices the mapping holds: each with its own id, and each capability with a sensor of the tree.\<close>

definition drives_sensor :: "lhm_node \<Rightarrow> string \<Rightarrow> string \<Rightarrow> bool" where
  "drives_sensor tree c i \<longleftrightarrow> (\<exists>h \<in> set (flatten tree). \<exists>ch \<in> set (fan_channels h). \<exists>n.
     driven_control ch = Some n \<and> c = duty_id ch \<and> i = ln_id n)"

text \<open>A device may be written only through the duty of a fan or pump channel.\<close>

definition duty_range :: "capability \<Rightarrow> bool" where
  "duty_range c \<longleftrightarrow> is_duty_control c \<and> cap_values c = [] \<and> cap_min c = Some (Fin 0) \<and> cap_max c = Some (Fin 100)
     \<and> cap_step c = None"

definition regular_device :: "device \<Rightarrow> bool" where
  "regular_device d \<longleftrightarrow> (\<forall>c \<in> set (dev_capabilities d). cap_writable c \<longrightarrow> duty_range c
     \<and> (dev_type d = Fan \<and> cap_id c = FAN_SPEED_PERCENT \<or> dev_type d = Pump \<and> cap_id c = PUMP_SPEED_PERCENT))"

definition sensors_fit :: "lhm_node \<Rightarrow> device \<Rightarrow> sensor_map \<Rightarrow> bool" where
  "sensors_fit tree d ss \<longleftrightarrow> distinct (map fst ss) \<and> fst ` set ss = cap_id ` set (dev_capabilities d)
     \<and> (\<forall>(c, i) \<in> set ss. (\<exists>n \<in> set (flatten tree). ln_id n = i) \<and> (is_control_id c \<longrightarrow> drives_sensor tree c i))"

definition mapped :: "lhm_node \<Rightarrow> id_book \<Rightarrow> lhm_mapping \<Rightarrow> bool" where
  "mapped tree b m \<longleftrightarrow> sorted_keys fst (lm_sensors m) \<and> fst ` set (lm_sensors m) = dev_id ` set (lm_devices m)
     \<and> distinct (map dev_id (lm_devices m)) \<and> dev_id ` set (lm_devices m) \<subseteq> set (ib_used b)
     \<and> (\<forall>d \<in> set (lm_devices m). validate_device d = Inr () \<and> regular_device d
          \<and> (\<exists>ss. (dev_id d, ss) \<in> set (lm_sensors m) \<and> sensors_fit tree d ss))"

lemma mapped_empty: "mapped tree b mapping_empty"
  by (simp add: mapped_def mapping_empty_def sorted_keys_def)

lemma mapped_used: "mapped tree b m \<Longrightarrow> set (ib_used b) \<subseteq> set (ib_used b') \<Longrightarrow> mapped tree b' m"
  by (auto simp: mapped_def)

lemma in_sorted_put_other: "x \<in> set xs \<Longrightarrow> key x \<noteq> key v \<Longrightarrow> x \<in> set (sorted_put key v xs)"
  by (induction xs) auto

lemma sorted_put_in: "v \<in> set (sorted_put key v xs)"
  by (induction xs) auto

lemma mapped_put:
  assumes "mapped tree b m" "claim_id cand w slot b = (dev_id d, b')"
    and "regular_device d" "sensors_fit tree d ss"
  shows "mapped tree b' (put_device d ss m)"
proof (cases "validate_device d = Inr ()")
  case False
  have "mapped tree b' m" by (rule mapped_used [OF assms(1)]) (use claim_id_new [OF assms(2)] in auto)
  with False show ?thesis by (simp add: put_device_def)
next
  case True
  have new: "dev_id d \<notin> dev_id ` set (lm_devices m)"
    using assms(1) claim_id_new(1) [OF assms(2)] by (auto simp: mapped_def)
  have keep: "(dev_id e, t) \<in> set (sorted_put fst (dev_id d, ss) (lm_sensors m))"
    if "e \<in> set (lm_devices m)" "(dev_id e, t) \<in> set (lm_sensors m)" for e t
    using that new by (intro in_sorted_put_other) (auto simp: image_iff)
  have "(dev_id d, ss) \<in> set (sorted_put fst (dev_id d, ss) (lm_sensors m))" by (rule sorted_put_in)
  with assms new keep True show ?thesis
    unfolding mapped_def put_device_def
    by (simp add: sorted_keys_put set_keys_sorted_put claim_id_new(2) [OF assms(2)]) blast
qed

lemma mapped_lookup:
  assumes "mapped tree b m" "d \<in> set (lm_devices m)"
  obtains ss where "map_of (lm_sensors m) (dev_id d) = Some ss" "sensors_fit tree d ss"
proof -
  obtain ss where ss: "(dev_id d, ss) \<in> set (lm_sensors m)" "sensors_fit tree d ss"
    using assms by (auto simp: mapped_def)
  moreover have "distinct (map fst (lm_sensors m))"
    using assms(1) by (simp add: mapped_def sorted_keys_distinct)
  ultimately show thesis using that by (simp add: map_of_is_SomeI)
qed

subsection \<open>The loops\<close>

definition gathered :: "lhm_node \<Rightarrow> capability list \<times> sensor_map \<Rightarrow> bool" where
  "gathered tree = (\<lambda>(caps, ss). sorted_keys fst ss \<and> fst ` set ss = cap_id ` set caps
     \<and> (\<forall>c \<in> set caps. \<not> cap_writable c)
     \<and> (\<forall>(c, i) \<in> set ss. (\<exists>n \<in> set (flatten tree). ln_id n = i) \<and> \<not> is_control_id c))"

lemma control_prefix: "is_control_id c \<Longrightarrow> take 3 c = ''fan'' \<or> take 3 c = ''pum''"
  by (auto simp: is_control_id_def FAN_SPEED_PERCENT_def PUMP_SPEED_PERCENT_def)

lemma capability_id_prefix:
  assumes "k \<noteq> Lhm_Fan" "k \<noteq> Lhm_Control"
  shows "\<exists>p r. capability_id_for t n k = p @ r \<and> length p = 3 \<and> p \<noteq> ''fan'' \<and> p \<noteq> ''pum''"
proof -
  have "length (take 3 (capability_id_for t n k)) = 3 \<and> take 3 (capability_id_for t n k) \<noteq> ''fan''
    \<and> take 3 (capability_id_for t n k) \<noteq> ''pum''"
    using assms by (cases k) (simp_all add: capability_id_for_def Let_def TEMPERATURE_HOTSPOT_def TEMPERATURE_CORE_def
      TEMPERATURE_SYSTEM_def CPU_LOAD_def GPU_LOAD_def POWER_GPU_def POWER_TOTAL_def CLOCK_MHZ_def MEMORY_USED_def)
  then show ?thesis by (metis append_take_drop_id)
qed

lemma find_in_list: "List.find P xs = Some x \<Longrightarrow> x \<in> set xs"
  by (auto simp: find_Some_iff)

lemma uniquify_cases: "uniquify caps c = c \<or> (\<exists>k \<in> {2..<100}. uniquify caps c = suffixed c k)"
proof (cases "List.find (\<lambda>k. suffixed c k \<notin> set (map cap_id caps)) [2..<100]")
  case (Some k)
  then have "k \<in> {2..<100}" using find_in_list unfolding set_upt [symmetric] by metis
  with Some show ?thesis by (auto simp: uniquify_def Let_def)
qed (simp add: uniquify_def Let_def)

lemma uniquified_not_control:
  assumes "k \<noteq> Lhm_Fan" "k \<noteq> Lhm_Control"
  shows "\<not> is_control_id (uniquify caps (capability_id_for t n k))"
proof -
  obtain p r where p: "capability_id_for t n k = p @ r" "length p = 3" "p \<noteq> ''fan''" "p \<noteq> ''pum''"
    using capability_id_prefix [OF assms] by blast
  then have "\<exists>r. uniquify caps (capability_id_for t n k) = p @ r"
    using uniquify_cases [of caps "capability_id_for t n k"] by (auto simp: suffixed_def)
  then show ?thesis using p control_prefix by fastforce
qed

lemma gathered_add:
  assumes "gathered tree x" "n \<in> set (flatten tree)" shows "gathered tree (add_sensor t n x)"
proof -
  obtain caps ss where x: "x = (caps, ss)" by fastforce
  show ?thesis
  proof (cases "map_option kind_from_type (ln_sensor_type n)")
    case (Some k)
    have "\<not> is_control_id (uniquify caps (capability_id_for t n k))" if "k \<noteq> Lhm_Fan" "k \<noteq> Lhm_Control"
      using that by (rule uniquified_not_control)
    with assms show ?thesis
      by (auto simp: x add_sensor_def Some gathered_def Let_def sorted_keys_put set_keys_sorted_put
          build_capability_def cap_sensor_def dest!: in_sorted_put)
  qed (use assms in \<open>simp add: x add_sensor_def\<close>)
qed

lemma gathered_all:
  assumes "h \<in> set (flatten tree)" shows "gathered tree (fold (add_sensor t) (sensors_below h) ([], []))"
proof (rule fold_keeps_in)
  show "gathered tree ([], [])" by (simp add: gathered_def sorted_keys_def)
  show "gathered tree (add_sensor t n x)" if "n \<in> set (sensors_below h)" "gathered tree x" for n x
    using that assms by (intro gathered_add) (auto simp: sensors_below_def intro: flatten_trans)
qed

lemma hardware_fits:
  assumes "gathered tree (caps, ss)"
  shows "regular_device (hardware_device t i h caps)" "sensors_fit tree (hardware_device t i h caps) ss"
  using assms
  by (auto simp: gathered_def regular_device_def sensors_fit_def hardware_device_def with_metadata_def
      with_vendor_def sorted_keys_distinct)

lemma dev_id_hardware [simp]: "dev_id (hardware_device t i h caps) = i"
  by (simp add: hardware_device_def with_metadata_def with_vendor_def new_device_def)

lemma map_hardware_mapped:
  assumes "mapped tree b m" "h \<in> set (flatten tree)" "map_hardware h (k, b, m) = (k', b', m')"
  shows "mapped tree b' m'"
proof (cases "device_type_of (effective_hardware_type h) = UnknownType \<and> length (flatten h) = 1")
  case False
  let ?t = "device_type_of (effective_hardware_type h)"
  obtain i b1 where c: "claim_id (lhm_device_id ?t (hardware_key h k)) (ln_text h) k b = (i, b1)" by fastforce
  obtain caps ss where g: "fold (add_sensor ?t) (sensors_below h) ([], []) = (caps, ss)" by fastforce
  have r: "b' = b1" "m' = (if caps = [] then m else put_device (hardware_device ?t i h caps) ss m)"
    using assms(3) False by (auto simp: map_hardware_def Let_def c g)
  have "mapped tree b1 m" by (rule mapped_used [OF assms(1)]) (use claim_id_new [OF c] in auto)
  moreover have "mapped tree b1 (put_device (hardware_device ?t i h caps) ss m)"
    using mapped_put [OF assms(1)] c hardware_fits gathered_all [OF assms(2)] g by (metis dev_id_hardware)
  ultimately show ?thesis by (simp add: r)
qed (use assms in \<open>simp add: map_hardware_def Let_def\<close>)

lemma built_device:
  assumes "build_fan_device h ch t i = Some (d, ss)"
  shows "dev_id d = i" "dev_type d = t" "dev_capabilities d = channel_capabilities ch" "ss = channel_sensors ch"
  using assms
  by (auto simp: build_fan_device_def Let_def with_metadata_def with_vendor_def new_device_def split: if_splits option.splits)

lemma channel_ids:
  "duty_id ch = (if ch_is_pump ch then PUMP_SPEED_PERCENT else FAN_SPEED_PERCENT)"
  "\<not> is_control_id (rpm_id ch)" "is_control_id (duty_id ch)" "rpm_id ch \<noteq> duty_id ch"
  by (auto simp: duty_id_def rpm_id_def is_control_id_def FAN_SPEED_PERCENT_def PUMP_SPEED_PERCENT_def FAN_RPM_def PUMP_RPM_def)

lemma one_key: "sorted_keys fst []" "sorted_keys fst [x]"
  by (simp_all add: sorted_keys_def)

lemma channel_fits:
  assumes "build_fan_device h ch (channel_device_type ch) i = Some (d, ss)"
  shows "regular_device d"
    and "h \<in> set (flatten tree) \<Longrightarrow> ch \<in> set (fan_channels h) \<Longrightarrow> sensors_fit tree d ss"
proof -
  note b = built_device [OF assms]
  show "regular_device d"
    using b by (auto simp: regular_device_def channel_capabilities_def duty_capability_def cap_sensor_def
        cap_actuator_def duty_range_def is_duty_control_def is_duty_unit_def channel_device_type_def duty_id_def)
  assume h: "h \<in> set (flatten tree)" "ch \<in> set (fan_channels h)"
  have t: "\<exists>m \<in> set (flatten tree). ln_id m = ln_id n" if "ch_rpm ch = Some n \<or> ch_control ch = Some n" for n
    using own_in_tree [OF h(1) channel_nodes [OF h(2) that]] by blast
  have c: "ch_control ch = Some n \<and> drives_sensor tree (duty_id ch) (ln_id n)" if "driven_control ch = Some n" for n
    using driven_matched [OF h(2) that] h that unfolding drives_sensor_def by blast
  have "sorted_keys fst ss"
    unfolding b by (cases "driven_control ch")
      (simp_all add: channel_sensors_def sorted_keys_put one_key del: sorted_put.simps split: option.split)
  moreover have "fst ` set ss = cap_id ` set (dev_capabilities d)"
    unfolding b by (cases "driven_control ch"; cases "ch_rpm ch")
      (simp_all add: channel_sensors_def channel_capabilities_def set_keys_sorted_put
        duty_capability_def cap_sensor_def cap_actuator_def insert_commute del: sorted_put.simps)
  moreover
  have "x \<in> {(rpm_id ch, ln_id n) | n. ch_rpm ch = Some n} \<union> {(duty_id ch, ln_id n) | n. driven_control ch = Some n}"
    if "x \<in> set ss" for x
    using that unfolding b by (cases "driven_control ch"; cases "ch_rpm ch")
      (auto simp: channel_sensors_def simp del: sorted_put.simps dest!: in_sorted_put)
  then have "\<exists>n \<in> set (flatten tree). ln_id n = i" "is_control_id c \<Longrightarrow> drives_sensor tree c i" if "(c, i) \<in> set ss" for c i
    using that t c channel_ids(2) [of ch] by blast+
  ultimately show "sensors_fit tree d ss"
    unfolding sensors_fit_def by (auto simp: sorted_keys_distinct)
qed

lemma mapped_notes: "mapped tree b (m\<lparr>lm_ambiguous_channels := xs\<rparr>) = mapped tree b m"
  "mapped tree b (m\<lparr>lm_ambiguous_devices := xs\<rparr>) = mapped tree b m"
  by (simp_all add: mapped_def)

lemma map_channel_mapped:
  assumes "h \<in> set (flatten tree)" "ch \<in> set (fan_channels h)" "mapped tree (fst x) (snd x)"
  shows "mapped tree (fst (map_channel h slot ch x)) (snd (map_channel h slot ch x))"
proof -
  obtain b m where x: "x = (b, m)" by fastforce
  let ?m = "case ch_ambiguous ch of
    Some r \<Rightarrow> m\<lparr>lm_ambiguous_channels := lm_ambiguous_channels m @ [ln_text h @ '': '' @ r]\<rparr> | None \<Rightarrow> m"
  have m: "mapped tree b ?m" using assms(3) by (simp add: x mapped_notes split: option.split)
  obtain i b1 where c: "claim_id (lhm_device_id (channel_device_type ch) (fan_channel_key h ch slot)) (ch_label ch) slot b = (i, b1)"
    by fastforce
  have e: "map_channel h slot ch x = (b1, case build_fan_device h ch (channel_device_type ch) i of
      None \<Rightarrow> ?m | Some (d, ss) \<Rightarrow> put_device d ss ?m)"
    by (simp add: x map_channel_def Let_def c)
  have "mapped tree b1 ?m" by (rule mapped_used [OF m]) (use claim_id_new [OF c] in auto)
  moreover have "mapped tree b1 (put_device d ss ?m)"
    if "build_fan_device h ch (channel_device_type ch) i = Some (d, ss)" for d ss
    using mapped_put [OF m _ channel_fits(1) [OF that] channel_fits(2) [OF that assms(1,2)]] c built_device(1) [OF that] by metis
  ultimately show ?thesis by (simp add: e split: option.split)
qed

lemma map_fans_mapped:
  assumes "h \<in> set (flatten tree)" "mapped tree b m" "map_fans h (k, b, m) = (k', b', m')"
  shows "mapped tree b' m'"
proof (cases "fan_channels h = []")
  case False
  let ?f = "fold (map_channel h (k + 1)) (fan_channels h) (b, m)"
  have "mapped tree (fst ?f) (snd ?f)"
    by (rule fold_keeps_in [where P = "\<lambda>x. mapped tree (fst x) (snd x)"]) (use assms map_channel_mapped in auto)
  then show ?thesis using assms(3) False by (auto simp: map_fans_def)
qed (use assms in \<open>simp add: map_fans_def\<close>)

lemma map_tree_mapped: "\<exists>b. mapped tree b (map_tree tree)"
proof -
  let ?P = "\<lambda>(k, b, m). mapped tree b m"
  let ?x = "fold map_hardware (hardware_children tree) (0, \<lparr>ib_used = [], ib_ambiguous = []\<rparr>, mapping_empty)"
  have h: "set (hardware_children tree) \<subseteq> set (flatten tree)"
    using flatten_child [OF flatten_self] by (auto simp: hardware_children_def)
  have x: "?P ?x"
    by (rule fold_keeps_in) (use h map_hardware_mapped mapped_empty in \<open>auto split: prod.split\<close>)
  have "?P (fold map_fans (flatten tree) (0, snd ?x))"
    by (rule fold_keeps_in) (use x map_fans_mapped in \<open>auto split: prod.splits\<close>)
  then show ?thesis by (auto simp: map_tree_def mapped_notes split: prod.splits)
qed

subsection \<open>What a device is read from and written through\<close>

lemma mapping_sensor:
  assumes "d \<in> set (lm_devices (map_tree tree))" "c \<in> set (dev_capabilities d)"
  obtains n where "n \<in> set (flatten tree)" "sensor_id (map_tree tree) (dev_id d) (cap_id c) = Some (ln_id n)"
proof -
  obtain b where m: "mapped tree b (map_tree tree)" using map_tree_mapped by blast
  obtain ss where ss: "map_of (lm_sensors (map_tree tree)) (dev_id d) = Some ss" "sensors_fit tree d ss"
    using m assms(1) by (rule mapped_lookup)
  then have "cap_id c \<in> fst ` set ss" using assms(2) by (auto simp: sensors_fit_def)
  then obtain i where i: "map_of ss (cap_id c) = Some i" by (metis map_of_eq_None_iff not_Some_eq)
  then have "\<exists>n \<in> set (flatten tree). ln_id n = i"
    using ss(2) by (auto simp: sensors_fit_def dest: map_of_SomeD)
  with i ss(1) that show thesis by (auto simp: sensor_id_def)
qed

lemma control_drives:
  assumes "sensor_id (map_tree tree) i c = Some s" "is_control_id c"
  shows "drives_sensor tree c s"
proof -
  obtain b where m: "mapped tree b (map_tree tree)" using map_tree_mapped by blast
  obtain ss where s: "map_of (lm_sensors (map_tree tree)) i = Some ss" "map_of ss c = Some s"
    using assms(1) by (auto simp: sensor_id_def bind_eq_Some_conv)
  then have "i \<in> dev_id ` set (lm_devices (map_tree tree))"
  proof -
    have "i \<in> fst ` set (lm_sensors (map_tree tree))" using map_of_SomeD [OF s(1)] by (rule rev_image_eqI) simp
    moreover have "fst ` set (lm_sensors (map_tree tree)) = dev_id ` set (lm_devices (map_tree tree))"
      using m unfolding mapped_def by blast
    ultimately show ?thesis by simp
  qed
  then obtain d where d: "d \<in> set (lm_devices (map_tree tree))" "dev_id d = i" by blast
  obtain ss' where "map_of (lm_sensors (map_tree tree)) (dev_id d) = Some ss'" "sensors_fit tree d ss'"
    using m d(1) by (rule mapped_lookup)
  with s d(2) have "sensors_fit tree d ss" by simp
  with s(2) assms(2) show ?thesis by (auto simp: sensors_fit_def dest: map_of_SomeD)
qed

lemma drives_matched:
  assumes "drives_sensor tree c i"
  obtains h ch n where "h \<in> set (flatten tree)" "ch \<in> set (fan_channels h)" "ch_control ch = Some n"
    "matched h n" "c = duty_id ch" "i = ln_id n"
  using assms driven_matched unfolding drives_sensor_def by metis

lemma matched_control: "matched h n \<Longrightarrow> n \<in> set (own_sensors h) \<and> kind_of n = Some Lhm_Control"
proof -
  assume "matched h n"
  then obtain k where "numbered Lhm_Control h k = [n]" by (auto simp: matched_def)
  then have "n \<in> set (numbered Lhm_Control h k)" by simp
  then show ?thesis by (simp add: numbered_def)
qed

lemma devices_sound:
  "distinct (map dev_id (lm_devices (map_tree tree)))"
  "d \<in> set (lm_devices (map_tree tree)) \<Longrightarrow> validate_device d = Inr () \<and> regular_device d"
  using map_tree_mapped [of tree] by (auto simp: mapped_def)

text \<open>No control is guessed: the devices of a tree have distinct ids, every capability has a sensor of the
  tree behind it, and a capability can be written only if that sensor is a control of one node of the tree
  whose number no other control of the node carries and whose tachometer, if it has one, is the only one
  with that number and is identified by the same carrier.\<close>
theorem no_control_is_guessed:
  "distinct (map dev_id (lm_devices (map_tree tree)))
   \<and> (\<forall>d \<in> set (lm_devices (map_tree tree)). \<forall>c \<in> set (dev_capabilities d). \<exists>n \<in> set (flatten tree).
        sensor_id (map_tree tree) (dev_id d) (cap_id c) = Some (ln_id n)
        \<and> (cap_writable c \<longrightarrow> (\<exists>h \<in> set (flatten tree). n \<in> set (own_sensors h) \<and> kind_of n = Some Lhm_Control \<and> matched h n)))"
proof -
  have "\<exists>n \<in> set (flatten tree). sensor_id (map_tree tree) (dev_id d) (cap_id c) = Some (ln_id n)
        \<and> (cap_writable c \<longrightarrow> (\<exists>h \<in> set (flatten tree). n \<in> set (own_sensors h) \<and> kind_of n = Some Lhm_Control \<and> matched h n))"
    if d: "d \<in> set (lm_devices (map_tree tree))" and c: "c \<in> set (dev_capabilities d)" for d c
  proof -
    obtain n where n: "n \<in> set (flatten tree)" "sensor_id (map_tree tree) (dev_id d) (cap_id c) = Some (ln_id n)"
      using d c by (rule mapping_sensor)
    show ?thesis
    proof (cases "cap_writable c")
      case True
      then have "is_control_id (cap_id c)"
        using devices_sound(2) [OF d] c by (auto simp: regular_device_def is_control_id_def)
      with n(2) have "drives_sensor tree (cap_id c) (ln_id n)" by (rule control_drives)
      then obtain h ch k where k: "h \<in> set (flatten tree)" "ln_id n = ln_id k" "matched h k" by (rule drives_matched)
      then have "k \<in> set (own_sensors h)" "kind_of k = Some Lhm_Control" by (simp_all add: matched_control)
      with k n(2) show ?thesis using own_in_tree [OF k(1)] by metis
    qed (use n in blast)
  qed
  with devices_sound(1) show ?thesis by blast
qed

text \<open>A state read from the tree the devices came from is complete: every capability is answered, and
  no sensor is reported missing.\<close>

lemma snapshot_complete:
  assumes "d \<in> set (lm_devices (map_tree tree))" "c \<in> set (dev_capabilities d)"
  shows "ds_online (state_from_tree tree (map_tree tree) d t)
    \<and> (\<exists>r. get_reading (state_from_tree tree (map_tree tree) d t) (cap_id c) = Some r \<and> reading_reason r \<noteq> Some NotPresent)"
proof -
  obtain b where m: "mapped tree b (map_tree tree)" using map_tree_mapped by blast
  obtain ss where ss: "map_of (lm_sensors (map_tree tree)) (dev_id d) = Some ss" "sensors_fit tree d ss"
    using m assms(1) by (rule mapped_lookup)
  obtain i where i: "(cap_id c, i) \<in> set ss" using ss(2) assms(2) by (force simp: sensors_fit_def)
  have f: "find_by_id tree j \<noteq> None" if "(a, j) \<in> set ss" for a j
    using ss(2) that find_by_id_tree by (fastforce simp: sensors_fit_def)
  then have "\<not> list_all (\<lambda>(_, i). find_by_id tree i = None) ss" using i by (force simp: list_all_iff)
  then have e: "state_from_tree tree (map_tree tree) d t
      = fold set_reading (map (sensor_reading tree d) ss) (new_state (dev_id d) t)"
    by (simp add: state_from_tree_def ss(1))
  have k: "rd_capability (sensor_reading tree d (a, j)) = a" for a j
    by (simp add: sensor_reading_def reading_unavailable_def reading_ok_def split: option.split)
  define rs where "rs = map (sensor_reading tree d) ss"
  have "map rd_capability rs = map fst ss" by (simp add: rs_def k split_def comp_def) (auto simp: k)
  then have "distinct (map rd_capability (rev rs))" using ss(2) by (simp add: sensors_fit_def rev_map [symmetric])
  moreover have "sensor_reading tree d (cap_id c, i) \<in> set (rev rs)" using i by (simp add: rs_def)
  ultimately have "List.find (\<lambda>r. rd_capability r = cap_id c) (rev rs) = Some (sensor_reading tree d (cap_id c, i))"
    using find_distinct_key [of rd_capability "rev rs" "sensor_reading tree d (cap_id c, i)"] by (simp add: k)
  then have "get_reading (state_from_tree tree (map_tree tree) d t) (cap_id c) = Some (sensor_reading tree d (cap_id c, i))"
    unfolding e rs_def [symmetric] by (simp add: readings.get_fold_put )
  moreover have "reading_reason (sensor_reading tree d (cap_id c, i)) \<noteq> Some NotPresent"
    using f [OF i] by (auto simp: sensor_reading_def reading_unavailable_def reading_ok_def reading_reason_def split: option.split)
  moreover have "ds_online (state_from_tree tree (map_tree tree) d t)"
    unfolding e by (rule fold_keeps_in) (simp_all add: set_reading_def new_state_def)
  ultimately show ?thesis by blast
qed

end
