(* ===== verification/Lhm_Control.thy ===== *)
theory Lhm_Control
  imports Lhm_Correct Runtime_World
begin

section \<open>What reaches LibreHardwareMonitor\<close>

text \<open>
  The requests a runtime sends over its whole life, recorded at the agent: a control is driven only right
  after a tree in which it is matched to its channel was fetched, and never below the floor.
\<close>

type_synonym http_log = "(url \<times> http_answer) list"

definition logged_agent :: "'s http_agent \<Rightarrow> ('s \<times> http_log) http_agent" where
  "logged_agent agent url h = (\<lambda>(s, l). let (a, s) = agent url h s in (a, (s, l @ [(url, a)])))"

definition watched :: "('s \<times> http_log) lhm_client \<Rightarrow> bool" where
  "watched c \<longleftrightarrow> (\<exists>agent. wc_agent c = logged_agent agent)"

definition log_of :: "('s \<times> http_log) lhm_adapter \<Rightarrow> http_log" where
  "log_of w = snd (la_server w)"

subsection \<open>One request\<close>

lemma request_log:
  assumes "watched c" "lhm_request c u s = (r, s')"
  shows "\<exists>a. snd s' = snd s @ [(u, a)] \<and> (\<forall>st b. r = Inr (st, b) \<longrightarrow> a = Answered st b)"
  using assms by (cases s) (auto simp: watched_def lhm_request_def logged_agent_def Let_def split: prod.splits http_answer.splits)

lemma fetch_log:
  assumes "watched c" "fetch_tree c s = (r, s')"
  shows "\<exists>a. snd s' = snd s @ [(data_url (wc_config c), a)] \<and> (\<forall>tree. r = Inr tree \<longrightarrow>
    (\<exists>st b. a = Answered st b \<and> status_ok st \<and> parse_tree (wc_from_str c) b = Inr tree))"
proof -
  obtain x s1 where q: "lhm_request c (data_url (wc_config c)) s = (x, s1)" by (metis surj_pair)
  obtain a where a: "snd s1 = snd s @ [(data_url (wc_config c), a)]" "\<forall>st b. x = Inr (st, b) \<longrightarrow> a = Answered st b"
    using request_log [OF assms(1) q] by blast
  have "s' = s1" using assms(2) by (auto simp: fetch_tree_def q split: sum.splits)
  moreover have "\<exists>st b. x = Inr (st, b) \<and> status_ok st \<and> parse_tree (wc_from_str c) b = Inr tree" if "r = Inr tree" for tree
    using assms(2) that by (auto simp: fetch_tree_def q split: sum.splits if_splits)
  ultimately show ?thesis using a by blast
qed

lemma set_log:
  assumes "watched c" "set_sensor c i v s = (r, s')"
  shows "\<exists>a. snd s' = snd s @ [(set_url (wc_config c) i v, a)]"
proof -
  obtain x s1 where q: "lhm_request c (set_url (wc_config c) i v) s = (x, s1)" by (metis surj_pair)
  then have "s' = s1" using assms(2) by (auto simp: set_sensor_def Let_def split: sum.splits)
  with request_log [OF assms(1) q] show ?thesis by blast
qed

lemma read_log:
  assumes "watched c" "read_sensor c i s = (r, s')"
  shows "\<exists>a. snd s' = snd s @ [(get_url (wc_config c) i, a)]"
proof -
  obtain x s1 where q: "lhm_request c (get_url (wc_config c) i) s = (x, s1)" by (metis surj_pair)
  then have "s' = s1" using assms(2) by (auto simp: read_sensor_def split: sum.splits)
  with request_log [OF assms(1) q] show ?thesis by blast
qed

subsection \<open>Lawful logs\<close>

definition harmless :: "lhm_config \<Rightarrow> url \<Rightarrow> bool" where
  "harmless cfg u \<longleftrightarrow> u = data_url cfg \<or> (\<exists>i. u = get_url cfg i \<or> u = set_url cfg i None)"

text \<open>A tree in which a control may be driven to a duty.\<close>

definition admits :: "safety_policy \<Rightarrow> lhm_node \<Rightarrow> lhm_node \<Rightarrow> f64 \<Rightarrow> bool" where
  "admits p tree n x \<longleftrightarrow> (\<exists>h \<in> set (flatten tree). \<exists>ch \<in> set (fan_channels h). ch_control ch = Some n \<and> matched h n
     \<and> duty_floor p (channel_device_type ch) \<le> x \<and> x \<le> Fin 100)"

inductive lawful :: "'s lhm_client \<Rightarrow> safety_policy \<Rightarrow> http_log \<Rightarrow> bool" for c p where
  none: "lawful c p []"
| asked: "lawful c p l \<Longrightarrow> harmless (wc_config c) u \<Longrightarrow> lawful c p (l @ [(u, a)])"
| driven: "lawful c p l \<Longrightarrow> status_ok st \<Longrightarrow> parse_tree (wc_from_str c) b = Inr tree \<Longrightarrow> admits p tree n x
    \<Longrightarrow> lawful c p (l @ [(data_url (wc_config c), Answered st b), (set_url (wc_config c) (ln_id n) (Some x), a)])"

lemma lawful_entry:
  assumes "lawful c p l" "l = pre @ (u, a) # post"
  shows "harmless (wc_config c) u \<or> (\<exists>pre' st b tree n x. pre = pre' @ [(data_url (wc_config c), Answered st b)]
    \<and> status_ok st \<and> parse_tree (wc_from_str c) b = Inr tree \<and> admits p tree n x
    \<and> u = set_url (wc_config c) (ln_id n) (Some x))"
  using assms
proof (induction arbitrary: pre a post)
  case (asked l v a')
  show ?case
  proof (cases post rule: rev_cases)
    case Nil
    with asked show ?thesis by simp
  next
    case (snoc post' y)
    with asked show ?thesis by auto
  qed
next
  case (driven l st b tree n x a')
  let ?d = "(data_url (wc_config c), Answered st b)"
  have e: "(l @ [?d]) @ [(set_url (wc_config c) (ln_id n) (Some x), a')] = pre @ (u, a) # post" using driven by simp
  show ?case
  proof (cases post rule: rev_cases)
    case Nil
    with e have "pre = l @ [?d]" "u = set_url (wc_config c) (ln_id n) (Some x)" by simp_all
    with driven show ?thesis by blast
  next
    case (snoc post' y)
    then have s: "l @ [?d] = pre @ (u, a) # post'" using e by simp
    show ?thesis
    proof (cases post' rule: rev_cases)
      case Nil
      with s show ?thesis by (simp add: harmless_def)
    next
      case (snoc post'' z)
      with s driven.IH show ?thesis by simp
    qed
  qed
qed simp

subsection \<open>The operations keep the log lawful\<close>

definition obeys :: "('s \<times> http_log) lhm_client \<Rightarrow> safety_policy \<Rightarrow> ('s \<times> http_log) lhm_adapter \<Rightarrow> bool" where
  "obeys c p w \<longleftrightarrow> la_client w = c \<and> watched c \<and> lawful c p (log_of w)"

lemma refresh_obeys:
  assumes "obeys c p w" "la_refresh w = (r, w')"
  shows "obeys c p w' \<and> (\<forall>tree m. r = Inr (tree, m) \<longrightarrow> m = map_tree tree \<and> (\<exists>st b. status_ok st
    \<and> parse_tree (wc_from_str c) b = Inr tree \<and> log_of w' = log_of w @ [(data_url (wc_config c), Answered st b)]))"
proof -
  obtain x s where f: "fetch_tree (la_client w) (la_server w) = (x, s)" by (metis surj_pair)
  have c: "la_client w = c" "watched c" "lawful c p (log_of w)" using assms(1) by (simp_all add: obeys_def)
  obtain a where a: "snd s = log_of w @ [(data_url (wc_config c), a)]"
    "\<forall>tree. x = Inr tree \<longrightarrow> (\<exists>st b. a = Answered st b \<and> status_ok st \<and> parse_tree (wc_from_str c) b = Inr tree)"
    using fetch_log [OF c(2) f [unfolded c(1)]] by (auto simp: log_of_def)
  have w': "la_client w' = c" "la_server w' = s" using assms(2) c by (auto simp: la_refresh_def f Let_def split: sum.splits)
  moreover have "lawful c p (snd s)" unfolding a(1) using c(3) by (rule lawful.asked) (simp add: harmless_def)
  moreover have "x = Inr tree \<and> m = map_tree tree" if "r = Inr (tree, m)" for tree m
    using assms(2) that by (auto simp: la_refresh_def f Let_def split: sum.splits)
  ultimately show ?thesis using a c by (auto simp: obeys_def log_of_def)
qed

lemma read_obeys:
  assumes "obeys c p w" "read_sensor (la_client w) i (la_server w) = (r, s)"
  shows "obeys c p (w\<lparr>la_server := s\<rparr>)"
proof -
  have c: "la_client w = c" "watched c" "lawful c p (log_of w)" using assms(1) by (simp_all add: obeys_def)
  obtain a where "snd s = log_of w @ [(get_url (wc_config c) i, a)]"
    using read_log [OF c(2) assms(2) [unfolded c(1)]] by (auto simp: log_of_def)
  moreover from c(3) have "lawful c p (log_of w @ [(get_url (wc_config c) i, a)])"
    by (rule lawful.asked) (auto simp: harmless_def)
  ultimately show ?thesis using c by (simp add: obeys_def log_of_def)
qed

lemma confirm_obeys: "obeys c p w \<Longrightarrow> obeys c p (snd (confirm_write d cap i x w))"
  using read_obeys by (auto simp: confirm_write_def split: prod.splits sum.splits option.splits)

lemma lhm_views_obey:
  assumes "obeys c p w"
  shows "obeys c p (snd (lhm_probe w))" "obeys c p (snd (lhm_discover w))" "obeys c p (snd (lhm_read_all ds w))"
  using refresh_obeys [OF assms]
  by (auto simp: lhm_probe_def lhm_discover_def lhm_read_all_def Let_def split: prod.splits sum.splits)

lemma lhm_discovered:
  assumes "fst (lhm_discover w) = Inr ds" "d \<in> set ds" shows "regular_device d"
proof -
  obtain tree where "ds = lm_devices (map_tree tree)"
    using assms(1) by (auto simp: lhm_discover_def la_refresh_def Let_def split: prod.splits sum.splits)
  with assms(2) devices_sound(2) show ?thesis by blast
qed

lemma regular_duty:
  assumes "regular_device d" "cap_writable cap" "dev_capability d (cap_id cap) = Some cap"
  shows "duty_range cap" "is_control_id (cap_id cap)"
    "dev_type d = (if cap_id cap = PUMP_SPEED_PERCENT then Pump else Fan)"
proof -
  have "cap \<in> set (dev_capabilities d)" using assms(3) find_key_Some [where key = cap_id] by (auto simp: dev_capability_def)
  with assms(1,2) show "duty_range cap" "is_control_id (cap_id cap)"
    "dev_type d = (if cap_id cap = PUMP_SPEED_PERCENT then Pump else Fan)"
    by (auto simp: regular_device_def is_control_id_def FAN_SPEED_PERCENT_def PUMP_SPEED_PERCENT_def)
qed

lemma duty_written:
  assumes "duty_range cap" "validate_capability cap v = Inr ()" "as_f64 v = Some x"
  shows "clamp_capability cap x = x" "Fin 0 \<le> x" "x \<le> Fin 100"
proof -
  have r: "ranged cap" "stepless cap" "cap_values cap = []" using assms(1) by (simp_all add: duty_range_def ranged_def stepless_def)
  show "clamp_capability cap x = x" using validate_then_clamp [OF r(3,1,2) assms(2)] assms(3) by auto
  show "Fin 0 \<le> x" "x \<le> Fin 100"
    using assms validate_capability_numeric [OF r(3)] by (auto simp: duty_range_def not_less)
qed

lemma lhm_write_obeys:
  assumes "obeys c p w" "regular_device d" "floored p d cap u"
  shows "obeys c p (snd (lhm_write d cap u w))"
proof -
  have f: "cap_writable cap" "dev_capability d (cap_id cap) = Some cap" using assms(3) by (simp_all add: floored_def)
  note r = regular_duty [OF assms(2) f]
  have b: "is_duty_control cap" "cap_values cap = []" using r(1) by (simp_all add: duty_range_def)
  obtain x where x: "u = Number x" "duty_floor p (dev_type d) \<le> x" using assms(3) b by (auto simp: floored_def)
  show ?thesis
  proof (cases "validate_capability cap u")
    case (Inr unit)
    then have v: "validate_capability cap u = Inr ()" by simp
    have k: "clamp_capability cap x = x" "x \<le> Fin 100" using duty_written [OF r(1) v] x(1) by simp_all
    obtain q w1 where q: "la_refresh w = (q, w1)" by fastforce
    note o = refresh_obeys [OF assms(1) q]
    have e: "lhm_write d cap u w = (case (q, w1) of (Inl _, w) \<Rightarrow> (Inl (unavailable_error w), w)
        | (Inr (_, m), w) \<Rightarrow> drive_sensor d cap x m w)"
      by (cases q) (simp_all add: lhm_write_def f(1) v [unfolded x(1)] q k(1) x(1) split: prod.split)
    have "obeys c p (snd (drive_sensor d cap x m w1))" if m: "q = Inr (tree, m)" for tree m
    proof -
      obtain st b where a: "m = map_tree tree" "status_ok st" "parse_tree (wc_from_str c) b = Inr tree"
        "log_of w1 = log_of w @ [(data_url (wc_config c), Answered st b)]" using o m by blast
      have c: "la_client w1 = c" "watched c" "lawful c p (log_of w)" using o assms(1) by (simp_all add: obeys_def)
      have "obeys c p (w1\<lparr>la_server := s\<rparr>)"
        if i: "sensor_id m (dev_id d) (cap_id cap) = Some i" and s: "set_sensor (la_client w1) i (Some x) (la_server w1) = (z, s)" for i z s
      proof -
        have "drives_sensor tree (cap_id cap) i" using control_drives i r(2) unfolding a(1) by blast
        then obtain h ch n where h: "h \<in> set (flatten tree)" "ch \<in> set (fan_channels h)" "ch_control ch = Some n"
          "matched h n" "cap_id cap = duty_id ch" "i = ln_id n" by (rule drives_matched)
        have "channel_device_type ch = dev_type d"
          using r(3) h(5) by (simp add: channel_device_type_def duty_id_def FAN_SPEED_PERCENT_def PUMP_SPEED_PERCENT_def split: if_splits)
        then have ad: "admits p tree n x" using h x(2) k(2) unfolding admits_def by metis
        obtain y where "snd s = log_of w1 @ [(set_url (wc_config c) i (Some x), y)]"
          using set_log [OF c(2) s [unfolded c(1)]] by (auto simp: log_of_def)
        then have "lawful c p (snd s)" using lawful.driven [OF c(3) a(2,3) ad] by (simp add: a(4) h(6))
        then show ?thesis using c by (simp add: obeys_def log_of_def)
      qed
      then show ?thesis using o
        by (auto simp: drive_sensor_def intro!: confirm_obeys split: option.split prod.split sum.split)
    qed
    with o show ?thesis by (auto simp: e split: sum.split)
  qed (use f(1) assms(1) in \<open>simp add: lhm_write_def\<close>)
qed

lemma lhm_shutdown_obeys: "obeys c p w \<Longrightarrow> obeys c p (snd (lhm_shutdown w))"
proof -
  have "obeys c p (lhm_release i w)" if o: "obeys c p w" for i w
  proof -
    have c: "la_client w = c" "watched c" "lawful c p (log_of w)" using o by (simp_all add: obeys_def)
    obtain r s where s: "set_sensor (la_client w) i None (la_server w) = (r, s)" by (metis surj_pair)
    obtain a where "snd s = log_of w @ [(set_url (wc_config c) i None, a)]"
      using set_log [OF c(2) s [unfolded c(1)]] by (auto simp: log_of_def)
    moreover from c(3) have "lawful c p (log_of w @ [(set_url (wc_config c) i None, a)])"
      by (rule lawful.asked) (auto simp: harmless_def)
    ultimately show ?thesis using c by (simp add: obeys_def log_of_def lhm_release_def s [unfolded c(1)])
  qed
  then show "obeys c p w \<Longrightarrow> obeys c p (snd (lhm_shutdown w))"
    by (simp add: lhm_shutdown_def fold_keeps_in)
qed

interpretation lhm_bench: sound_hardware "[lhm_adapter_of]" p "obeys c p" regular_device
  for p c
  by unfold_locales (auto simp: lhm_adapter_of_def lhm_views_obey lhm_write_obeys lhm_shutdown_obeys
      adopts_nothing_def intro: lhm_discovered)

text \<open>The server and the clock change as they like; the requests that were sent stay sent.\<close>

inductive lhm_time :: "('s \<times> http_log) lhm_adapter \<Rightarrow> ('s \<times> http_log) lhm_adapter \<Rightarrow> bool" where
  server: "lhm_time w (w\<lparr>la_server := (s, snd (la_server w))\<rparr>)"
| clock: "lhm_time w (w\<lparr>la_clock := k\<rparr>)"

lemma obeys_time: "lhm_time w w' \<Longrightarrow> obeys c p w \<Longrightarrow> obeys c p w'"
  by (induction rule: lhm_time.induct) (simp_all add: obeys_def log_of_def)

lemma obeys_new: "watched c \<Longrightarrow> obeys c p (lhm_new c (s, []) t)"
  by (simp add: obeys_def lhm_new_def log_of_def lawful.none)

definition lhm_runtime :: "settings \<Rightarrow> ('s \<times> http_log) lhm_client \<Rightarrow> 's \<Rightarrow> int \<Rightarrow> int \<Rightarrow> ('s \<times> http_log) lhm_adapter runtime" where
  "lhm_runtime st c s t k = runtime_new st [lhm_adapter_of] k (lhm_new c (s, []) t)"


subsection \<open>What an applied write means\<close>

lemma parsed_not_nan: "parse_value s = Some (x, u) \<Longrightarrow> \<not> is_nan x"
proof -
  assume "parse_value s = Some (x, u)"
  then obtain v k where "is_finite v" "x = v \<or> x = v * Fin k"
    by (auto simp: parse_value_def unit_of_text_def Let_def split: if_splits option.splits)
  then show ?thesis by (auto simp: is_finite_iff Fin_times)
qed

text \<open>C28. A write the adapter reports as applied was read back: the value was a number the channel admits, the
  tree fetched for the write holds the channel, the server accepted the value as given, and the channel,
  asked again afterwards, answered with a number no more than one percent away, which is the one
  reported.\<close>
theorem applied_means_read_back:
  assumes "duty_range cap" and "lhm_write d cap v w = (Inr out, w')" and "wo_status out = Write_Applied"
  shows "\<exists>x found i tree s1 s2. as_f64 v = Some x \<and> Fin 0 \<le> x \<and> x \<le> Fin 100
    \<and> fetch_tree (la_client w) (la_server w) = (Inr tree, s1)
    \<and> sensor_id (map_tree tree) (dev_id d) (cap_id cap) = Some i
    \<and> set_sensor (la_client w) i (Some x) s1 = (Inr (), s2)
    \<and> read_sensor (la_client w) i s2 = (Inr (Some found), la_server w')
    \<and> wo_applied out = Some (Number found) \<and> \<bar>found - x\<bar> \<le> Fin 1"
proof -
  obtain x q w1 where x: "cap_writable cap" "validate_capability cap v = Inr ()" "as_f64 v = Some x" "la_refresh w = (q, w1)"
    using assms(2) by (auto simp: lhm_write_def split: if_splits sum.splits option.splits) (metis surj_pair)
  note k = duty_written [OF assms(1) x(2,3)]
  obtain tree m where q: "q = Inr (tree, m)" "drive_sensor d cap x m w1 = (Inr out, w')"
    using assms(2) by (auto simp: lhm_write_def x k(1) split: sum.splits)
  obtain i s where i: "sensor_id m (dev_id d) (cap_id cap) = Some i"
    "set_sensor (la_client w1) i (Some x) (la_server w1) = (Inr (), s)"
    "confirm_write d cap i x (w1\<lparr>la_server := s\<rparr>) = (Inr out, w')"
    using q(2) by (auto simp: drive_sensor_def split: option.splits prod.splits sum.splits)
  obtain found s' where r: "read_sensor (la_client w1) i s = (Inr (Some found), s')" "w' = w1\<lparr>la_server := s'\<rparr>"
    "wo_applied out = Some (Number found)" "\<not> Fin 1 < \<bar>found - x\<bar>"
    using i(3) assms(3) by (auto simp: confirm_write_def READ_BACK_TOLERANCE_PERCENT_def outcome_applied_def
        outcome_unconfirmed_def split: prod.splits sum.splits option.splits if_splits)
  have t: "fetch_tree (la_client w) (la_server w) = (Inr tree, la_server w1)" "m = map_tree tree" "la_client w1 = la_client w"
    using x(4) q(1) by (auto simp: la_refresh_def Let_def split: prod.splits sum.splits)
  obtain b where "map_option fst (parse_value b) = Some found"
    using r(1) by (auto simp: read_sensor_def split: prod.splits sum.splits if_splits)
  then have "\<not> is_nan found" using parsed_not_nan by fastforce
  moreover have "is_finite x" using k(2,3) finite_between by blast
  moreover have "is_nan (fabs y) = is_nan y" for y by (cases y) simp_all
  ultimately have "\<not> is_nan \<bar>found - x\<bar>" by (cases found; cases x) (simp_all add: f64_arith)
  then have "\<bar>found - x\<bar> \<le> Fin 1" using r(4) by (simp add: f64_not_less)
  with x k i r t show ?thesis by (intro exI [of _ x] exI [of _ found] exI [of _ i] exI [of _ tree]
      exI [of _ "la_server w1"] exI [of _ s]) simp
qed

subsection \<open>Handing back\<close>

text \<open>Every control of the last tree is released, whatever the server answers to the others.\<close>

lemma released_log:
  assumes "watched (la_client w)"
  shows "\<exists>answers. log_of (snd (lhm_shutdown w)) = log_of w
    @ zip (map (\<lambda>i. set_url (wc_config (la_client w)) i None) (control_channels (la_mapping w))) answers
    \<and> length answers = length (control_channels (la_mapping w))"
proof -
  have "\<exists>answers. log_of (fold lhm_release sensors w) = log_of w @ zip (map (\<lambda>i. set_url (wc_config (la_client w)) i None) sensors) answers
      \<and> length answers = length sensors" if "watched (la_client w)" for sensors and w :: "('a \<times> http_log) lhm_adapter"
    using that
  proof (induction sensors arbitrary: w)
    case (Cons i sensors)
    obtain r s where q: "set_sensor (la_client w) i None (la_server w) = (r, s)" by (metis surj_pair)
    obtain a where a: "snd s = log_of w @ [(set_url (wc_config (la_client w)) i None, a)]"
      using set_log [OF Cons.prems q] by (auto simp: log_of_def)
    have e: "la_client (lhm_release i w) = la_client w" "log_of (lhm_release i w) = log_of w @ [(set_url (wc_config (la_client w)) i None, a)]"
      using a by (simp_all add: lhm_release_def q log_of_def)
    then obtain answers where "log_of (fold lhm_release sensors (lhm_release i w))
        = log_of (lhm_release i w) @ zip (map (\<lambda>i. set_url (wc_config (la_client w)) i None) sensors) answers" "length answers = length sensors"
      using Cons.IH [of "lhm_release i w"] Cons.prems by auto
    with e show ?case by (intro exI [of _ "a # answers"]) simp
  qed simp
  from this [OF assms] show ?thesis by (simp add: lhm_shutdown_def)
qed

lemma control_channels_all:
  "sensor_id m d c = Some i \<Longrightarrow> is_control_id c \<Longrightarrow> i \<in> set (control_channels m)"
  by (force simp: sensor_id_def control_channels_def bind_eq_Some_conv dest!: map_of_SomeD)

end
