(* ===== verification/Lhm_Stable.thy ===== *)
theory Lhm_Stable
  imports Lhm_Correct "HOL-Library.Multiset"
begin

section \<open>Re-enumeration\<close>

text \<open>
  A device's id must not depend on the order LibreHardwareMonitor reports hardware in. Every device is a
  claim: the id its node asks for, and what it becomes under that id. Where the keys say something
  and no two claims ask for the same id, nothing of the mapping depends on the order.
\<close>

definition skipped :: "lhm_node \<Rightarrow> bool" where
  "skipped h \<longleftrightarrow> device_type_of (effective_hardware_type h) = UnknownType \<and> length (flatten h) = 1"

definition has_key :: "lhm_node \<Rightarrow> bool" where
  "has_key h \<longleftrightarrow> trim_slashes (ln_id h) \<noteq> [] \<or> trim (ln_text h) \<noteq> []"

definition has_channel_key :: "lhm_channel \<Rightarrow> bool" where
  "has_channel_key ch \<longleftrightarrow> ch_index ch \<noteq> None
     \<or> (case or_else (ch_rpm ch) (ch_control ch) of Some n \<Rightarrow> ln_id n \<noteq> [] | None \<Rightarrow> False)"

type_synonym id_claim = "string \<times> (device \<times> sensor_map) option"

definition hardware_claim :: "lhm_node \<Rightarrow> id_claim" where
  "hardware_claim h =
    (let t = device_type_of (effective_hardware_type h); i = lhm_device_id t (hardware_key h 0);
         (caps, ss) = fold (add_sensor t) (sensors_below h) ([], [])
     in (i, if caps = [] then None else Some (hardware_device t i h caps, ss)))"

definition channel_claim :: "lhm_node \<Rightarrow> lhm_channel \<Rightarrow> id_claim" where
  "channel_claim h ch = (let t = channel_device_type ch; i = lhm_device_id t (fan_channel_key h ch 0)
     in (i, build_fan_device h ch t i))"

definition hardware_claims :: "lhm_node list \<Rightarrow> id_claim list" where
  "hardware_claims hs = map hardware_claim (filter (\<lambda>h. \<not> skipped h) hs)"

definition channel_claims :: "lhm_node list \<Rightarrow> id_claim list" where
  "channel_claims hs = concat (map (\<lambda>h. map (channel_claim h) (fan_channels h)) hs)"

definition claims :: "lhm_node \<Rightarrow> id_claim list" where
  "claims tree = hardware_claims (hardware_children tree) @ channel_claims (flatten tree)"

text \<open>Every node that becomes a device says who it is, and no two say the same.\<close>

definition identifiable :: "lhm_node \<Rightarrow> bool" where
  "identifiable tree \<longleftrightarrow> distinct (map fst (claims tree))
     \<and> (\<forall>h \<in> set (hardware_children tree). \<not> skipped h \<longrightarrow> has_key h)
     \<and> (\<forall>h \<in> set (flatten tree). \<forall>ch \<in> set (fan_channels h). has_key h \<and> has_channel_key ch)"

subsection \<open>The claims are what the mapping holds\<close>

type_synonym holdings = "device list \<times> (string \<times> sensor_map) list"

definition holds :: "lhm_mapping \<Rightarrow> holdings" where
  "holds m = (lm_devices m, lm_sensors m)"

fun put_claim :: "id_claim \<Rightarrow> string list \<times> holdings \<Rightarrow> string list \<times> holdings" where
  "put_claim (i, None) (used, p) = (i # used, p)"
| "put_claim (i, Some (d, ss)) (used, (ds, sm)) = (i # used,
     if validate_device d = Inr () then (ds @ [d], sorted_put fst (dev_id d, ss) sm) else (ds, sm))"

lemma put_claim_used: "fst (put_claim x y) = fst x # fst y"
  by (cases "(x, y)" rule: put_claim.cases) auto

lemma fold_put_claim_used: "set (fst (fold put_claim xs y)) = fst ` set xs \<union> set (fst y)"
  by (induction xs arbitrary: y) (auto simp: put_claim_used)

lemma holds_put_device:
  "put_claim (i, Some (d, ss)) (used, holds m) = (i # used, holds (put_device d ss m))"
  by (simp add: holds_def put_device_def)

lemma hardware_key_slot: "has_key h \<Longrightarrow> hardware_key h k = hardware_key h 0"
  by (auto simp: hardware_key_def has_key_def)

lemma channel_key_slot: "has_key h \<Longrightarrow> has_channel_key ch \<Longrightarrow> fan_channel_key h ch k = fan_channel_key h ch 0"
  using hardware_key_slot [of h k]
  by (auto simp: fan_channel_key_def has_channel_key_def Let_def split: option.splits)

lemma claim_free: "i \<notin> set (ib_used b) \<Longrightarrow> claim_id i w k b = (i, b\<lparr>ib_used := i # ib_used b\<rparr>)"
  by (simp add: claim_id_def)

lemma map_hardware_claim:
  assumes "\<not> skipped h" "has_key h" "fst (hardware_claim h) \<notin> set (ib_used b)" "map_hardware h (k, b, m) = (k', b', m')"
  shows "ib_ambiguous b' = ib_ambiguous b \<and> (ib_used b', holds m') = put_claim (hardware_claim h) (ib_used b, holds m)"
proof -
  let ?t = "device_type_of (effective_hardware_type h)"
  let ?i = "lhm_device_id ?t (hardware_key h 0)"
  obtain caps ss where g: "fold (add_sensor ?t) (sensors_below h) ([], []) = (caps, ss)" by fastforce
  have c: "hardware_claim h = (?i, if caps = [] then None else Some (hardware_device ?t ?i h caps, ss))"
    by (simp add: hardware_claim_def Let_def g)
  have f: "claim_id ?i (ln_text h) k b = (?i, b\<lparr>ib_used := ?i # ib_used b\<rparr>)"
    using assms(3) by (intro claim_free) (simp add: c)
  have "\<not> (?t = UnknownType \<and> length (flatten h) = 1)" using assms(1) by (simp add: skipped_def)
  then have "b' = b\<lparr>ib_used := ?i # ib_used b\<rparr>"
      "m' = (if caps = [] then m else put_device (hardware_device ?t ?i h caps) ss m)"
    using assms(4) hardware_key_slot [OF assms(2), of k] by (auto simp: map_hardware_def Let_def f g)
  then show ?thesis using c by (cases "caps = []") (simp_all add: holds_put_device)
qed

lemma map_channel_claim:
  assumes "has_key h" "has_channel_key ch" "fst (channel_claim h ch) \<notin> set (ib_used b)"
    and "map_channel h k ch (b, m) = (b', m')"
  shows "ib_ambiguous b' = ib_ambiguous b \<and> (ib_used b', holds m') = put_claim (channel_claim h ch) (ib_used b, holds m)"
proof -
  let ?t = "channel_device_type ch"
  let ?i = "lhm_device_id ?t (fan_channel_key h ch 0)"
  let ?m = "case ch_ambiguous ch of
    Some r \<Rightarrow> m\<lparr>lm_ambiguous_channels := lm_ambiguous_channels m @ [ln_text h @ '': '' @ r]\<rparr> | None \<Rightarrow> m"
  have m: "holds ?m = holds m" by (simp add: holds_def split: option.split)
  have f: "claim_id ?i (ch_label ch) k b = (?i, b\<lparr>ib_used := ?i # ib_used b\<rparr>)"
    using assms(3) by (intro claim_free) (simp add: channel_claim_def Let_def)
  have "b' = b\<lparr>ib_used := ?i # ib_used b\<rparr>"
      "m' = (case build_fan_device h ch ?t ?i of None \<Rightarrow> ?m | Some (d, ss) \<Rightarrow> put_device d ss ?m)"
    using assms(4) channel_key_slot [OF assms(1,2), of k] by (simp_all add: map_channel_def Let_def f)
  then show ?thesis
    using holds_put_device [where m = ?m] m
    by (cases "build_fan_device h ch ?t ?i") (auto simp: channel_claim_def Let_def)
qed

lemma fold_hardware_claims:
  assumes "\<forall>h \<in> set hs. \<not> skipped h \<longrightarrow> has_key h" "distinct (map fst (hardware_claims hs))"
    and "fst ` set (hardware_claims hs) \<inter> set (ib_used b) = {}" "fold map_hardware hs (k, b, m) = (k', b', m')"
  shows "ib_ambiguous b' = ib_ambiguous b
    \<and> (ib_used b', holds m') = fold put_claim (hardware_claims hs) (ib_used b, holds m)"
  using assms
proof (induction hs arbitrary: k b m)
  case (Cons h hs)
  obtain k1 b1 m1 where h: "map_hardware h (k, b, m) = (k1, b1, m1)" by (metis prod_cases3)
  show ?case
  proof (cases "skipped h")
    case True
    then have "(k1, b1, m1) = (k, b, m)" using h by (simp add: map_hardware_def skipped_def Let_def)
    with True Cons h show ?thesis by (simp add: hardware_claims_def)
  next
    case False
    have c: "hardware_claims (h # hs) = hardware_claim h # hardware_claims hs" using False by (simp add: hardware_claims_def)
    have s: "ib_ambiguous b1 = ib_ambiguous b"
      "(ib_used b1, holds m1) = put_claim (hardware_claim h) (ib_used b, holds m)"
      using map_hardware_claim [OF False _ _ h] Cons.prems(1,3) False by (simp_all add: c)
    then have "ib_used b1 = fst (hardware_claim h) # ib_used b" using put_claim_used by (metis fst_conv)
    then have "ib_ambiguous b' = ib_ambiguous b1
        \<and> (ib_used b', holds m') = fold put_claim (hardware_claims hs) (ib_used b1, holds m1)"
      using Cons.prems h c by (intro Cons.IH) auto
    with s c show ?thesis by simp
  qed
qed (simp add: hardware_claims_def)

lemma fold_channel_claims:
  assumes "has_key h" "\<forall>ch \<in> set chs. has_channel_key ch" "distinct (map (fst \<circ> channel_claim h) chs)"
    and "(fst \<circ> channel_claim h) ` set chs \<inter> set (ib_used b) = {}" "fold (map_channel h k) chs (b, m) = (b', m')"
  shows "ib_ambiguous b' = ib_ambiguous b
    \<and> (ib_used b', holds m') = fold put_claim (map (channel_claim h) chs) (ib_used b, holds m)"
  using assms
proof (induction chs arbitrary: b m)
  case (Cons ch chs)
  obtain b1 m1 where h: "map_channel h k ch (b, m) = (b1, m1)" by fastforce
  have s: "ib_ambiguous b1 = ib_ambiguous b"
      "(ib_used b1, holds m1) = put_claim (channel_claim h ch) (ib_used b, holds m)"
    using map_channel_claim [OF assms(1) _ _ h] Cons.prems by simp_all
  then have "ib_used b1 = fst (channel_claim h ch) # ib_used b" using put_claim_used by (metis fst_conv)
  then have "ib_ambiguous b' = ib_ambiguous b1
      \<and> (ib_used b', holds m') = fold put_claim (map (channel_claim h) chs) (ib_used b1, holds m1)"
    using Cons.prems h by (intro Cons.IH) auto
  with s show ?case by simp
qed simp

lemma fold_fans_claims:
  assumes "\<forall>h \<in> set hs. \<forall>ch \<in> set (fan_channels h). has_key h \<and> has_channel_key ch"
    and "distinct (map fst (channel_claims hs))" "fst ` set (channel_claims hs) \<inter> set (ib_used b) = {}"
    and "fold map_fans hs (k, b, m) = (k', b', m')"
  shows "ib_ambiguous b' = ib_ambiguous b
    \<and> (ib_used b', holds m') = fold put_claim (channel_claims hs) (ib_used b, holds m)"
  using assms
proof (induction hs arbitrary: k b m)
  case (Cons h hs)
  obtain k1 b1 m1 where h: "map_fans h (k, b, m) = (k1, b1, m1)" by (metis prod_cases3)
  have c: "channel_claims (h # hs) = map (channel_claim h) (fan_channels h) @ channel_claims hs"
    by (simp add: channel_claims_def)
  have s: "ib_ambiguous b1 = ib_ambiguous b
      \<and> (ib_used b1, holds m1) = fold put_claim (map (channel_claim h) (fan_channels h)) (ib_used b, holds m)"
  proof (cases "fan_channels h = []")
    case False
    then have "hd (fan_channels h) \<in> set (fan_channels h)" by simp
    then have "has_key h" using Cons.prems(1) by auto
    moreover have "fold (map_channel h (k + 1)) (fan_channels h) (b, m) = (b1, m1)"
      using h False by (auto simp: map_fans_def)
    ultimately show ?thesis
      using Cons.prems c by (intro fold_channel_claims) (auto simp: comp_def image_iff)
  qed (use h in \<open>simp add: map_fans_def\<close>)
  define own where "own = map (channel_claim h) (fan_channels h)"
  have c: "channel_claims (h # hs) = own @ channel_claims hs" by (simp add: c own_def)
  have u: "set (ib_used b1) = fst ` set own \<union> set (ib_used b)"
    using s fold_put_claim_used unfolding own_def by (metis fst_conv)
  have n: "fst ` set own \<inter> fst ` set (channel_claims hs) = {}" "distinct (map fst (channel_claims hs))"
    "fst ` set (channel_claims hs) \<inter> set (ib_used b) = {}"
    using Cons.prems(2,3) by (auto simp: c)
  have "ib_ambiguous b' = ib_ambiguous b1
      \<and> (ib_used b', holds m') = fold put_claim (channel_claims hs) (ib_used b1, holds m1)"
    by (rule Cons.IH) (use Cons.prems(1,4) h n u in auto)
  with s show ?case by (simp add: c own_def [symmetric])
qed (simp add: channel_claims_def)

lemma map_tree_claims:
  assumes "identifiable tree"
  shows "lm_ambiguous_devices (map_tree tree) = []"
    and "holds (map_tree tree) = snd (fold put_claim (claims tree) ([], ([], [])))"
proof -
  let ?b = "\<lparr>ib_used = [], ib_ambiguous = []\<rparr>"
  obtain k b m where h: "fold map_hardware (hardware_children tree) (0, ?b, mapping_empty) = (k, b, m)" by (metis prod_cases3)
  obtain k' b' m' where f: "fold map_fans (flatten tree) (0, b, m) = (k', b', m')" by (metis prod_cases3)
  have e: "holds mapping_empty = ([], [])" by (simp add: holds_def mapping_empty_def)
  note i = assms [unfolded identifiable_def claims_def]
  have 1: "ib_ambiguous b = [] \<and> (ib_used b, holds m) = fold put_claim (hardware_claims (hardware_children tree)) ([], ([], []))"
    using fold_hardware_claims [OF _ _ _ h] i e by auto
  then have u: "set (ib_used b) = fst ` set (hardware_claims (hardware_children tree))"
    using fold_put_claim_used by (metis fst_conv list.set(1) sup_bot.right_neutral)
  have "ib_ambiguous b' = ib_ambiguous b \<and> (ib_used b', holds m') = fold put_claim (channel_claims (flatten tree)) (ib_used b, holds m)"
    using fold_fans_claims [OF _ _ _ f] i u by auto
  with 1 have 2: "ib_ambiguous b' = []" "(ib_used b', holds m') = fold put_claim (claims tree) ([], ([], []))"
    by (simp_all add: claims_def)
  have r: "map_tree tree = m'\<lparr>lm_ambiguous_devices := ib_ambiguous b'\<rparr>" by (simp add: map_tree_def h f)
  show "lm_ambiguous_devices (map_tree tree) = []" by (simp add: r 2)
  have "holds (map_tree tree) = holds m'" by (simp add: r holds_def)
  then show "holds (map_tree tree) = snd (fold put_claim (claims tree) ([], ([], [])))" using 2(2) by (metis snd_conv)
qed

subsection \<open>Another order\<close>

definition held :: "id_claim list \<Rightarrow> (device \<times> sensor_map) set" where
  "held cs = {(d, ss). (\<exists>i. (i, Some (d, ss)) \<in> set cs) \<and> validate_device d = Inr ()}"

definition own_ids :: "id_claim list \<Rightarrow> bool" where
  "own_ids cs \<longleftrightarrow> (\<forall>(i, e) \<in> set cs. \<forall>d ss. e = Some (d, ss) \<longrightarrow> dev_id d = i)"

lemma set_sorted_put: "key v \<notin> key ` set xs \<Longrightarrow> set (sorted_put key v xs) = insert v (set xs)"
  by (induction xs) auto

lemma held_Cons: "held ((i, None) # cs) = held cs"
  "held ((i, Some (d, ss)) # cs) = (if validate_device d = Inr () then {(d, ss)} else {}) \<union> held cs"
  by (auto simp: held_def)

lemma fold_put_claim_held:
  assumes "own_ids cs" "distinct (map fst cs)" "fst ` set sm \<inter> fst ` set cs = {}"
    and "snd (fold put_claim cs (u, (ds, sm))) = (ds', sm')"
  shows "set ds' = set ds \<union> fst ` held cs \<and> set sm' = set sm \<union> (\<lambda>(d, ss). (dev_id d, ss)) ` held cs"
  using assms
proof (induction cs arbitrary: u ds sm)
  case Nil
  then show ?case by (simp add: held_def)
next
  case (Cons x cs)
  obtain i e where x: "x = (i, e)" by fastforce
  have o: "own_ids cs" using Cons.prems(1) by (simp add: own_ids_def)
  show ?case
  proof (cases e)
    case None
    then show ?thesis using Cons.IH [OF o, of sm "i # u" ds] Cons.prems x by (simp add: held_Cons)
  next
    case (Some y)
    obtain d ss where y: "y = (d, ss)" by fastforce
    have i: "dev_id d = i" using Cons.prems(1) by (simp add: own_ids_def x Some y)
    show ?thesis
    proof (cases "validate_device d = Inr ()")
      case True
      let ?sm = "sorted_put fst (dev_id d, ss) sm"
      have n: "dev_id d \<notin> fst ` set sm" using Cons.prems(3) i by (auto simp: x)
      then have "set ?sm = insert (dev_id d, ss) (set sm)" by (intro set_sorted_put) simp
      moreover have "set ds' = set (ds @ [d]) \<union> fst ` held cs \<and> set sm' = set ?sm \<union> (\<lambda>(d, ss). (dev_id d, ss)) ` held cs"
        using Cons.IH [OF o, of ?sm "i # u" "ds @ [d]"] Cons.prems x Some y True i
        by (auto simp: set_keys_sorted_put)
      ultimately show ?thesis using True by (auto simp: x Some y held_Cons)
    next
      case False
      then show ?thesis using Cons.IH [OF o, of sm "i # u" ds] Cons.prems x Some y by (simp add: held_Cons)
    qed
  qed
qed

lemma claim_own_id:
  "hardware_claim h = (i, Some (d, ss)) \<Longrightarrow> dev_id d = i" "channel_claim h ch = (i, Some (d, ss)) \<Longrightarrow> dev_id d = i"
  using built_device(1) by (auto simp: hardware_claim_def channel_claim_def Let_def split: prod.splits if_splits)

lemma claims_own_ids: "own_ids (claims tree)"
  unfolding own_ids_def
proof (clarify)
  fix i d ss assume "(i, Some (d, ss)) \<in> set (claims tree)"
  then consider h where "hardware_claim h = (i, Some (d, ss))" | h ch where "channel_claim h ch = (i, Some (d, ss))"
    by (auto simp: claims_def hardware_claims_def channel_claims_def dest: sym)
  then show "dev_id d = i" by cases (use claim_own_id in blast)+
qed

lemma map_tree_held:
  assumes "identifiable tree"
  shows "set (lm_devices (map_tree tree)) = fst ` held (claims tree)"
    and "set (lm_sensors (map_tree tree)) = (\<lambda>(d, ss). (dev_id d, ss)) ` held (claims tree)"
proof -
  have "distinct (map fst (claims tree))" using assms by (simp add: identifiable_def)
  moreover have e: "snd (fold put_claim (claims tree) ([], ([], []))) = (lm_devices (map_tree tree), lm_sensors (map_tree tree))"
    using map_tree_claims(2) [OF assms] by (simp add: holds_def)
  ultimately have "set (lm_devices (map_tree tree)) = fst ` held (claims tree)
      \<and> set (lm_sensors (map_tree tree)) = (\<lambda>(d, ss). (dev_id d, ss)) ` held (claims tree)"
    using fold_put_claim_held [OF claims_own_ids _ _ e] by simp
  then show "set (lm_devices (map_tree tree)) = fst ` held (claims tree)"
    "set (lm_sensors (map_tree tree)) = (\<lambda>(d, ss). (dev_id d, ss)) ` held (claims tree)" by simp_all
qed

text \<open>The same machine, its hardware reported in another order.\<close>

fun with_children :: "lhm_node list \<Rightarrow> lhm_node \<Rightarrow> lhm_node" where
  "with_children cs (Lhm_Node i t s h n v u r _) = Lhm_Node i t s h n v u r cs"

lemma with_children_simps [simp]:
  "ln_children (with_children cs t) = cs" "ln_id (with_children cs t) = ln_id t" "ln_text (with_children cs t) = ln_text t"
  by (cases t; simp)+

lemma channel_claims_append: "channel_claims (xs @ ys) = channel_claims xs @ channel_claims ys"
  by (simp add: channel_claims_def)

lemma claims_of_children:
  "mset (channel_claims (concat (map flatten xs))) = (\<Sum>x\<in>#mset xs. mset (channel_claims (flatten x)))"
  by (induction xs) (simp_all add: channel_claims_append, simp add: channel_claims_def)

lemma reordered_claims:
  assumes "mset cs = mset (ln_children tree)" "own_sensors (with_children cs tree) = own_sensors tree"
  shows "mset (claims (with_children cs tree)) = mset (claims tree)"
proof -
  have r: "fan_channels (with_children cs tree) = fan_channels tree"
    using assms(2) by (simp add: fan_channels_def sensors_of_kind_def)
  have "hardware_key (with_children cs tree) 0 = hardware_key tree 0" by (simp add: hardware_key_def)
  then have k: "fan_channel_key (with_children cs tree) ch 0 = fan_channel_key tree ch 0" for ch by (simp only: fan_channel_key_def)
  have "channel_name (with_children cs tree) ch = channel_name tree ch" for ch
    by (simp only: channel_name_def with_children_simps)
  then have b: "build_fan_device (with_children cs tree) ch t i = build_fan_device tree ch t i" for ch t i
    by (simp only: build_fan_device_def with_children_simps)
  have "channel_claim (with_children cs tree) = channel_claim tree"
    by (rule ext) (simp only: channel_claim_def k b)
  with r have "map (channel_claim (with_children cs tree)) (fan_channels (with_children cs tree))
      = map (channel_claim tree) (fan_channels tree)"
    by simp
  moreover have "mset (channel_claims (concat (map flatten cs))) = mset (channel_claims (concat (map flatten (ln_children tree))))"
    unfolding claims_of_children assms(1) ..
  moreover have "mset (hardware_claims (hardware_children (with_children cs tree))) = mset (hardware_claims (hardware_children tree))"
    using assms(1) by (simp add: hardware_claims_def hardware_children_def mset_filter del: filter_filter)
  moreover have "claims t = hardware_claims (hardware_children t)
      @ map (channel_claim t) (fan_channels t) @ channel_claims (concat (map flatten (ln_children t)))" for t
  proof -
    have "flatten t = [t] @ concat (map flatten (ln_children t))" using flatten_node by simp
    then show ?thesis by (simp only: claims_def channel_claims_append) (simp add: channel_claims_def)
  qed
  ultimately show ?thesis by simp
qed

lemma reordered_identifiable:
  assumes "mset cs = mset (ln_children tree)" "own_sensors (with_children cs tree) = own_sensors tree" "identifiable tree"
  shows "identifiable (with_children cs tree)"
proof -
  have "mset (map fst (claims (with_children cs tree))) = mset (map fst (claims tree))"
    using reordered_claims [OF assms(1,2)] by (metis mset_map)
  then have "distinct (map fst (claims (with_children cs tree)))"
    using assms(3) mset_eq_imp_distinct_iff unfolding identifiable_def by blast
  moreover have "set cs = set (ln_children tree)" using assms(1) by (metis set_mset_mset)
  moreover from this have "set (hardware_children (with_children cs tree)) = set (hardware_children tree)"
    by (simp add: hardware_children_def)
  moreover have "fan_channels (with_children cs tree) = fan_channels tree" "has_key (with_children cs tree) = has_key tree"
    using assms(2) by (simp_all add: fan_channels_def sensors_of_kind_def has_key_def)
  ultimately show ?thesis
    using assms(3) by (simp add: identifiable_def flatten_node [of tree] flatten_node [of "with_children cs tree"])
qed


end
