(* ===== verification/Lhm_Demo.thy ===== *)
theory Lhm_Demo
  imports Lhm_Control Lhm_Stable System_Runtime
begin

section \<open>A machine to evaluate the theorems on\<close>

text \<open>A board with one fan and its control, a processor, and a server that does as it is told.\<close>

definition demo_sensor :: "string \<Rightarrow> string \<Rightarrow> string \<Rightarrow> json" where
  "demo_sensor i t k = JObject [(''id'', JString i), (''Text'', JString t), (''Type'', JString k)]"

definition demo_board :: json where
  "demo_board = JObject [(''id'', JString ''/lpc/0''), (''Text'', JString ''NCT''), (''HardwareType'', JString ''SuperIO''),
     (''Children'', JArray [demo_sensor ''/lpc/0/fan/1'' ''Fan #1'' ''Fan'',
        demo_sensor ''/lpc/0/control/1'' ''Fan Control #1'' ''Control''])]"

definition demo_cpu_doc :: json where
  "demo_cpu_doc = JObject [(''id'', JString ''/cpu/0''), (''Text'', JString ''CPU''), (''HardwareType'', JString ''CPU''),
     (''Children'', JArray [demo_sensor ''/cpu/0/temperature/0'' ''CPU Package'' ''Temperature''])]"

definition demo_doc :: json where
  "demo_doc = JObject [(''Text'', JString ''Sensor''), (''Children'', JArray [demo_board, demo_cpu_doc])]"

definition demo_node :: "string \<Rightarrow> string \<Rightarrow> string \<Rightarrow> lhm_node" where
  "demo_node i t k = Lhm_Node i t (Some k) None None None NoUnit None []"

definition demo_nct :: lhm_node where
  "demo_nct = Lhm_Node ''/lpc/0'' ''NCT'' None (Some ''SuperIO'') None None NoUnit None
     [demo_node ''/lpc/0/fan/1'' ''Fan #1'' ''Fan'', demo_node ''/lpc/0/control/1'' ''Fan Control #1'' ''Control'']"

definition demo_processor :: lhm_node where
  "demo_processor = Lhm_Node ''/cpu/0'' ''CPU'' None (Some ''CPU'') None None NoUnit None
     [demo_node ''/cpu/0/temperature/0'' ''CPU Package'' ''Temperature'']"

definition demo_tree :: lhm_node where
  "demo_tree = Lhm_Node [] ''Sensor'' None None None None NoUnit None [demo_nct, demo_processor]"

lemma demo_converted: "convert 0 demo_doc = demo_tree"
  by code_simp



lemma demo_words:
  "kind_from_type ''Fan'' = Lhm_Fan" "kind_from_type ''Control'' = Lhm_Control" "kind_from_type ''Temperature'' = Lhm_Temperature"
  "dropWhile (\<lambda>c. \<not> is_ascii_digit c) ''Fan #1'' = ''1''" "dropWhile (\<lambda>c. \<not> is_ascii_digit c) ''Fan Control #1'' = ''1''"
  "takeWhile is_ascii_digit ''1'' = ''1''" "parse_digits ''1'' = Some 1"
  "str_contains ''pump'' (map ascii_lower ''Fan #1'') = False" "str_contains ''pump'' (map ascii_lower ''Fan Control #1'') = False"
  by code_simp+

abbreviation demo_tach :: lhm_node where
  "demo_tach \<equiv> demo_node ''/lpc/0/fan/1'' ''Fan #1'' ''Fan''"

abbreviation demo_control :: lhm_node where
  "demo_control \<equiv> demo_node ''/lpc/0/control/1'' ''Fan Control #1'' ''Control''"

lemma demo_usize: "parse_usize ''1'' = Some 1"
  by (simp add: parse_usize_def parse_nat_def demo_words u64_max_def)

lemma demo_anchors: "anchor_of demo_tach = Some (Name 1)" "anchor_of demo_control = Some (Name 1)"
  by (simp_all add: anchor_of_def name_anchor_def name_index_def demo_node_def demo_words demo_usize or_else_def
      del: dropWhile.simps takeWhile.simps)

lemma demo_channels: "fan_channels demo_nct = [one_channel (Some (Name 1)) (Some demo_tach) (Some demo_control) None]"
proof -
  have o: "own_sensors demo_nct = [demo_tach, demo_control]"
    by (simp add: own_sensors_def demo_nct_def is_sensor_def demo_node_def)
  have "ln_sensor_type demo_tach = Some ''Fan''" "ln_sensor_type demo_control = Some ''Control''" by (simp_all add: demo_node_def)
  with o have s: "sensors_of_kind Lhm_Fan demo_nct = [(Some (Name 1), demo_tach)]"
    "sensors_of_kind Lhm_Control demo_nct = [(Some (Name 1), demo_control)]"
    by (simp_all add: sensors_of_kind_def demo_words demo_anchors)
  show ?thesis
    by (simp add: fan_channels_def s channel_numbers_def List.map_filter_def numbered_channel_def claiming_def
        first_of_def or_else_def ambiguity_def)
qed

abbreviation demo_temperature :: lhm_node where
  "demo_temperature \<equiv> demo_node ''/cpu/0/temperature/0'' ''CPU Package'' ''Temperature''"

definition demo_fan_channel :: lhm_channel where
  "demo_fan_channel = \<lparr>ch_index = Some 1, ch_anchor = Some (Name 1), ch_label = ''Fan #1'', ch_rpm = Some demo_tach,
     ch_control = Some demo_control, ch_is_pump = False, ch_ambiguous = None\<rparr>"

lemma demo_channel_is: "fan_channels demo_nct = [demo_fan_channel]"
proof -
  have "one_channel (Some (Name 1)) (Some demo_tach) (Some demo_control) None = demo_fan_channel"
    by (simp add: one_channel_def Let_def demo_fan_channel_def filter_opt_def or_else_def)
      (simp only: demo_node_def lhm_node.sel demo_words, simp)
  then show ?thesis by (simp add: demo_channels)
qed

lemma demo_keys:
  "hardware_key demo_nct 0 = ''lpc_0''" "hardware_key demo_processor 0 = ''cpu_0''" "dec_nat 1 = ''1''"
  "device_type_of ''SuperIO'' = Motherboard" "device_type_of ''CPU'' = Cpu" "has_key demo_nct" "has_key demo_processor"
  by code_simp+

lemma demo_flat: "flatten demo_tree = [demo_tree, demo_nct, demo_tach, demo_control, demo_processor, demo_temperature]"
  "sensors_below demo_nct = [demo_tach, demo_control]" "sensors_below demo_processor = [demo_temperature]"
  by code_simp+

lemma demo_no_channels: "fan_channels demo_tree = []" "fan_channels demo_processor = []" "fan_channels (demo_node i t k) = []"
proof -
  have none: "fan_channels h = []" if "sensors_of_kind Lhm_Fan h = []" "sensors_of_kind Lhm_Control h = []" for h
    using that by (simp add: fan_channels_def channel_numbers_def List.map_filter_def)
  show "fan_channels demo_tree = []"
    by (rule none) (simp_all add: sensors_of_kind_def own_sensors_def demo_tree_def is_sensor_def demo_nct_def demo_processor_def)
  show "fan_channels demo_processor = []"
    by (rule none) (simp_all add: sensors_of_kind_def own_sensors_def demo_processor_def is_sensor_def demo_node_def demo_words)
  show "fan_channels (demo_node i t k) = []"
    by (rule none) (simp_all add: sensors_of_kind_def own_sensors_def demo_node_def)
qed

definition lhm_demo_fan :: device where
  "lhm_demo_fan = fst (the (build_fan_device demo_nct demo_fan_channel Fan ''fan.lhm.lpc_0_1''))"

definition demo_fan_sensors :: sensor_map where
  "demo_fan_sensors = [(FAN_RPM, ''/lpc/0/fan/1''), (FAN_SPEED_PERCENT, ''/lpc/0/control/1'')]"

lemma demo_build: "build_fan_device demo_nct demo_fan_channel Fan ''fan.lhm.lpc_0_1'' = Some (lhm_demo_fan, demo_fan_sensors)"
proof -
  have c: "driven_control demo_fan_channel = Some demo_control" by (simp add: driven_control_def demo_fan_channel_def)
  obtain d ss where b: "build_fan_device demo_nct demo_fan_channel Fan ''fan.lhm.lpc_0_1'' = Some (d, ss)"
    by (auto simp: build_fan_device_def Let_def channel_capabilities_def c)
  have "sorted_put fst (FAN_SPEED_PERCENT, ''/lpc/0/control/1'') [(FAN_RPM, ''/lpc/0/fan/1'')] = demo_fan_sensors"
    by code_simp
  then have "channel_sensors demo_fan_channel = demo_fan_sensors"
    by (simp add: channel_sensors_def c) (simp add: demo_fan_channel_def rpm_id_def duty_id_def demo_node_def)
  then show ?thesis using b built_device(4) [OF b] by (simp add: lhm_demo_fan_def)
qed

lemma demo_fan_claim: "channel_claim demo_nct demo_fan_channel = (''fan.lhm.lpc_0_1'', Some (lhm_demo_fan, demo_fan_sensors))"
proof -
  have "lhm_device_id (channel_device_type demo_fan_channel) (fan_channel_key demo_nct demo_fan_channel 0) = ''fan.lhm.lpc_0_1''"
    by (simp add: lhm_device_id_def channel_device_type_def demo_fan_channel_def fan_channel_key_def demo_keys demo_keys(3) [simplified] NAMESPACE_def)
  moreover have "channel_device_type demo_fan_channel = Fan" by (simp add: channel_device_type_def demo_fan_channel_def)
  ultimately show ?thesis by (simp add: channel_claim_def Let_def demo_build)
qed

lemma demo_claims: "\<exists>e. claims demo_tree = [(''motherboard.lhm.lpc_0'', None), (''cpu.lhm.cpu_0'', e),
    (''fan.lhm.lpc_0_1'', Some (lhm_demo_fan, demo_fan_sensors))]"
proof -
  have t: "device_type_of (effective_hardware_type demo_nct) = Motherboard" "device_type_of (effective_hardware_type demo_processor) = Cpu"
    by (simp_all add: effective_hardware_type_def demo_nct_def demo_processor_def demo_keys)
  have "ln_sensor_type demo_tach = Some ''Fan''" "ln_sensor_type demo_control = Some ''Control''" by (simp_all add: demo_node_def)
  then have "fold (add_sensor Motherboard) (sensors_below demo_nct) ([], []) = ([], [])"
    by (simp add: demo_flat add_sensor_def demo_words)
  then have 1: "hardware_claim demo_nct = (''motherboard.lhm.lpc_0'', None)"
    by (simp add: hardware_claim_def t demo_keys lhm_device_id_def NAMESPACE_def)
  have 2: "fst (hardware_claim demo_processor) = ''cpu.lhm.cpu_0''"
    by (simp add: hardware_claim_def Let_def split_def t demo_keys lhm_device_id_def NAMESPACE_def)
  have "hardware_children demo_tree = [demo_nct, demo_processor]"
    by (simp add: hardware_children_def demo_tree_def) (simp add: demo_nct_def demo_processor_def)
  then have "hardware_claims (hardware_children demo_tree) = [hardware_claim demo_nct, hardware_claim demo_processor]"
    by (simp add: hardware_claims_def skipped_def t)
  moreover have "channel_claims (flatten demo_tree) = [channel_claim demo_nct demo_fan_channel]"
    by (simp add: channel_claims_def demo_flat demo_no_channels demo_channel_is)
  ultimately show ?thesis by (simp add: claims_def 1 demo_fan_claim) (metis 2 prod.collapse)
qed

lemma demo_identifiable: "identifiable demo_tree"
proof -
  have "hardware_children demo_tree = [demo_nct, demo_processor]"
    by (simp add: hardware_children_def demo_tree_def) (simp add: demo_nct_def demo_processor_def)
  moreover have "has_channel_key demo_fan_channel" by (simp add: has_channel_key_def demo_fan_channel_def)
  ultimately show ?thesis
    using demo_claims by (auto simp: identifiable_def demo_flat demo_no_channels demo_channel_is demo_keys)
qed

lemma demo_mapped:
  "map_of (lm_sensors (map_tree demo_tree)) ''fan.lhm.lpc_0_1'' = Some demo_fan_sensors"
  "lhm_demo_fan \<in> set (lm_devices (map_tree demo_tree))" "dev_id lhm_demo_fan = ''fan.lhm.lpc_0_1''"
proof -
  have f: "dev_id lhm_demo_fan = ''fan.lhm.lpc_0_1''" "dev_capabilities lhm_demo_fan = channel_capabilities demo_fan_channel"
    using built_device(1,3) [OF demo_build] by simp_all
  then show "dev_id lhm_demo_fan = ''fan.lhm.lpc_0_1''" by simp
  have "validate_device lhm_demo_fan = Inr ()"
    by (simp add: validate_device_ok f(2) channel_capabilities_def demo_fan_channel_def driven_control_def
        duty_capability_def cap_sensor_def cap_actuator_def rpm_id_def duty_id_def FAN_RPM_def FAN_SPEED_PERCENT_def paired_bounds_def)
  then have h: "(lhm_demo_fan, demo_fan_sensors) \<in> held (claims demo_tree)" using demo_claims by (auto simp: held_def)
  then show "lhm_demo_fan \<in> set (lm_devices (map_tree demo_tree))"
    using map_tree_held(1) [OF demo_identifiable] by (metis (no_types, lifting) fst_conv image_eqI)
  have "(''fan.lhm.lpc_0_1'', demo_fan_sensors) \<in> set (lm_sensors (map_tree demo_tree))"
    using map_tree_held(2) [OF demo_identifiable] h f(1) by force
  moreover have "distinct (map fst (lm_sensors (map_tree demo_tree)))"
    using map_tree_mapped [of demo_tree] by (auto simp: mapped_def sorted_keys_distinct)
  ultimately show "map_of (lm_sensors (map_tree demo_tree)) ''fan.lhm.lpc_0_1'' = Some demo_fan_sensors" by simp
qed

subsection \<open>The properties at work\<close>

lemma demo_duty_capability: "duty_capability demo_fan_channel \<in> set (dev_capabilities lhm_demo_fan)"
  "cap_id (duty_capability demo_fan_channel) = FAN_SPEED_PERCENT" "cap_writable (duty_capability demo_fan_channel)"
  "duty_range (duty_capability demo_fan_channel)"
proof -
  have "dev_capabilities lhm_demo_fan = channel_capabilities demo_fan_channel" using built_device(3) [OF demo_build] .
  then show "duty_capability demo_fan_channel \<in> set (dev_capabilities lhm_demo_fan)"
    by (simp add: channel_capabilities_def driven_control_def) (simp add: demo_fan_channel_def)
  show "cap_id (duty_capability demo_fan_channel) = FAN_SPEED_PERCENT" "cap_writable (duty_capability demo_fan_channel)"
    "duty_range (duty_capability demo_fan_channel)"
    by (simp_all add: duty_capability_def cap_actuator_def duty_id_def demo_fan_channel_def duty_range_def
        is_duty_control_def is_duty_unit_def)
qed

theorem no_control_is_guessed_witness:
  "\<exists>n \<in> set (flatten demo_tree). ln_id n = ''/lpc/0/control/1'' \<and> (\<exists>h \<in> set (flatten demo_tree). matched h n)"
proof -
  have "sensor_id (map_tree demo_tree) (dev_id lhm_demo_fan) FAN_SPEED_PERCENT = Some ''/lpc/0/control/1''"
    by (simp add: sensor_id_def demo_mapped demo_fan_sensors_def FAN_RPM_def FAN_SPEED_PERCENT_def)
  then show ?thesis
    using no_control_is_guessed [of demo_tree] demo_mapped(2) demo_duty_capability by fastforce
qed


definition demo_agent :: "f64 http_agent" where
  "demo_agent u h s = (case u of [Txt _, Num x] \<Rightarrow> (Answered 200 [], x)
     | _ \<Rightarrow> (if u = data_url lhm_default then Answered 200 ''tree''
            else if s = Fin 50 then Answered 200 ''50 %'' else Answered 200 ''N/A'', s))"

definition demo_client :: "(f64 \<times> http_log) lhm_client" where
  "demo_client = \<lparr>wc_config = lhm_default, wc_agent = logged_agent demo_agent,
     wc_from_str = (\<lambda>text. if text = ''tree'' then Inr demo_doc else Inl ''expected value'')\<rparr>"

definition demo_lhm :: "(f64 \<times> http_log) lhm_adapter" where
  "demo_lhm = lhm_new demo_client (Fin 0, []) 0"

lemma demo_number: "parse_f64 ''50'' = Some (Fin 50)"
proof -
  have "split_at (\<lambda>c. c = CHR ''e'' \<or> c = CHR ''E'') ''50'' = (''50'', None)" "split_at (\<lambda>c. c = CHR ''.'') ''50'' = (''50'', None)"
    by (simp_all add: split_at_def)
  moreover have "list_all is_ascii_digit ''50''" "read_dec 0 ''50'' = 50" by code_simp+
  ultimately have "parse_magnitude ''50'' = Some 50" by (simp add: parse_magnitude_def)
  moreover have "map ascii_lower ''50'' \<notin> {''inf'', ''infinity'', ''nan''}" by code_simp
  moreover have "rnd 50 = Fin 50" by (rule rnd_exact) (rule is_dbl_numeral, simp)
  ultimately show ?thesis by (simp add: parse_f64_def parse_unsigned_def Let_def)
qed

lemma demo_fifty: "parse_value ''50 %'' = Some (Fin 50, Percent)"
proof -
  have w: "trim ''50 %'' = ''50 %''" "\<not> is_missing_text ''50 %''" "takeWhile number_char ''50 %'' = ''50''"
    "unit_of_text (map ascii_lower ''50 %'') = (None, Percent)" by code_simp+
  show ?thesis by (simp add: parse_value_def w w(4) [simplified] Let_def demo_number del: takeWhile.simps)
qed

lemma demo_no_credential: "credential lhm_default = None"
  by (simp add: credential_def lhm_default_def)

lemma demo_fetch: "fetch_tree demo_client (s, l) = (Inr demo_tree, (s, l @ [(data_url lhm_default, Answered 200 ''tree'')]))"
proof -
  have "demo_agent (data_url lhm_default) None s = (Answered 200 ''tree'', s)" by (simp add: demo_agent_def data_url_def)
  then show ?thesis
    by (simp add: fetch_tree_def lhm_request_def demo_client_def logged_agent_def demo_no_credential status_ok_def
        parse_tree_def demo_converted)
qed

lemma demo_set: "set_sensor demo_client i (Some x) (s, l) = (Inr (), (x, l @ [(set_url lhm_default i (Some x), Answered 200 [])]))"
proof -
  have "demo_agent (set_url lhm_default i (Some x)) None s = (Answered 200 [], x)" by (simp add: demo_agent_def set_url_def)
  moreover have "trim [] = []" by code_simp
  ultimately show ?thesis
    by (simp add: set_sensor_def lhm_request_def demo_client_def logged_agent_def demo_no_credential status_ok_def)
qed

lemma demo_get: "read_sensor demo_client i (Fin 50, l)
    = (Inr (Some (Fin 50)), (Fin 50, l @ [(get_url lhm_default i, Answered 200 ''50 %'')]))"
proof -
  have "get_url lhm_default i \<noteq> data_url lhm_default"
    by (simp add: get_url_def data_url_def lhm_default_def)
  then have "demo_agent (get_url lhm_default i) None (Fin 50) = (Answered 200 ''50 %'', Fin 50)"
    by (simp add: demo_agent_def) (simp add: get_url_def)
  then show ?thesis
    by (simp add: read_sensor_def lhm_request_def demo_client_def logged_agent_def demo_no_credential status_ok_def demo_fifty)
qed

lemma tree_write: "\<exists>out w'. lhm_write lhm_demo_fan (duty_capability demo_fan_channel) (Number (Fin 50)) demo_lhm = (Inr out, w')
    \<and> wo_status out = Write_Applied \<and> la_server w' = (Fin 50,
      [(data_url lhm_default, Answered 200 ''tree''), (set_url lhm_default ''/lpc/0/control/1'' (Some (Fin 50)), Answered 200 []),
       (get_url lhm_default ''/lpc/0/control/1'', Answered 200 ''50 %'')])"
proof -
  let ?c = "duty_capability demo_fan_channel"
  have v: "validate_capability ?c (Number (Fin 50)) = Inr ()"
    by (simp add: validate_capability_def duty_capability_def cap_actuator_def)
  have k: "clamp_capability ?c (Fin 50) = Fin 50" using duty_written(1) [OF demo_duty_capability(4) v] by simp
  have i: "sensor_id (map_tree demo_tree) (dev_id lhm_demo_fan) FAN_SPEED_PERCENT = Some ''/lpc/0/control/1''"
    by (simp add: sensor_id_def demo_mapped demo_fan_sensors_def FAN_RPM_def FAN_SPEED_PERCENT_def)
  have c: "la_client demo_lhm = demo_client" "la_server demo_lhm = (Fin 0, [])" by (simp_all add: demo_lhm_def lhm_new_def)
  have "\<not> READ_BACK_TOLERANCE_PERCENT < \<bar>Fin 50 - Fin 50\<bar>" by (simp add: READ_BACK_TOLERANCE_PERCENT_def Fin_minus)
  then show ?thesis
    by (simp add: lhm_write_def demo_duty_capability v k la_refresh_def c demo_fetch Let_def drive_sensor_def i demo_set
        confirm_write_def demo_get outcome_applied_def)
qed

theorem applied_means_read_back_witness:
  "\<exists>out w'. lhm_write lhm_demo_fan (duty_capability demo_fan_channel) (Number (Fin 50)) demo_lhm = (Inr out, w')
     \<and> (\<exists>found. wo_applied out = Some (Number found) \<and> \<bar>found - Fin 50\<bar> \<le> Fin 1)"
proof -
  obtain out w' where w: "lhm_write lhm_demo_fan (duty_capability demo_fan_channel) (Number (Fin 50)) demo_lhm = (Inr out, w')"
    "wo_status out = Write_Applied" using tree_write by blast
  from applied_means_read_back [OF demo_duty_capability(4) w] obtain found
    where "wo_applied out = Some (Number found)" "\<bar>found - Fin 50\<bar> \<le> Fin 1" by auto
  with w show ?thesis by blast
qed

text \<open>A runtime that starts to look for devices.\<close>

definition demo_looking :: "(f64 \<times> http_log) lhm_adapter runtime" where
  "demo_looking = fst (refresh_devices (lhm_runtime default_settings demo_client (Fin 0) 0 0))"

lemma demo_looked: "log_of (rt_world demo_looking)
    = [(data_url lhm_default, Answered 200 ''tree''), (data_url lhm_default, Answered 200 ''tree'')]"
proof -
  let ?r = "lhm_runtime default_settings demo_client (Fin 0) 0 0"
  have s: "fst (sanitise_settings default_settings) = default_settings" by (simp add: sane_settings_id demo_sane)
  have r: "rt_settings ?r = default_settings" "rt_adapters ?r = [lhm_adapter_of]" "rt_world ?r = demo_lhm"
    by (simp_all add: lhm_runtime_def runtime_new_def Let_def s deduplicate_adapters_def demo_lhm_def)
  have c: "la_client demo_lhm = demo_client" "la_server demo_lhm = (Fin 0, [])" by (simp_all add: demo_lhm_def lhm_new_def)
  have i: "ad_id (lhm_adapter_of :: (f64 \<times> http_log) lhm_adapter adapter) = LHM_ID" "ai_yields_to lhm_info = None"
    by (simp_all add: ad_id_def lhm_adapter_of_def lhm_info_def adapter_info_new_def)
  have e: "adapter_enabled default_settings LHM_ID" by (simp add: adapter_enabled_def default_settings_def)
  obtain st w1 where p: "lhm_probe demo_lhm = (st, w1)" by (metis surj_pair)
  have w1: "la_client w1 = demo_client" "la_server w1 = (Fin 0, [(data_url lhm_default, Answered 200 ''tree'')])"
    "status_usable st"
    using p by (auto simp: lhm_probe_def la_refresh_def c demo_fetch Let_def status_usable_def state_usable_def
        status_degraded_def status_available_def split: if_splits)
  obtain q w2 where d: "lhm_discover w1 = (q, w2)" by (metis surj_pair)
  have w2: "snd (la_server w2) = [(data_url lhm_default, Answered 200 ''tree''), (data_url lhm_default, Answered 200 ''tree'')]"
    "\<exists>ds. q = Inr ds"
    using d by (auto simp: lhm_discover_def la_refresh_def w1 demo_fetch Let_def)
  have "snd (snd (discover_all default_settings now [lhm_adapter_of] (h, demo_lhm))) = w2" for now h
    using w1(3) w2(2) i e
    by (auto simp: discover_all_def probe_adapter_def discover_adapter_def Let_def p d)
      (auto simp: lhm_adapter_of_def p d Let_def)
  then show ?thesis by (simp add: demo_looking_def refresh_keeps(1) r log_of_def w2)
qed


end
