(* ===== verification/Lhm_Faults.thy ===== *)
theory Lhm_Faults
  imports Lhm_Demo
begin

section \<open>Where the LibreHardwareMonitor adapter falls short of its documentation\<close>

subsection \<open>Handing back\<close>

text \<open>The shutdown succeeds whatever the server answers, even when nothing was released, \<dots>\<close>

lemma shutdown_always_succeeds: "fst (lhm_shutdown w) = Inr ()"
  by (simp add: lhm_shutdown_def)

text \<open>\<dots> so the runtime's exit report always lists the adapter among those that handed control back.\<close>

lemma always_reported_relinquished:
  "shutdown_all [lhm_adapter_of] w = (outs, w') \<Longrightarrow> LHM_ID \<in> set (cl_relinquished (snd (fold shutdown_outcome outs (rt, rel))))"
  by (auto simp: lhm_adapter_of_def lhm_shutdown_def Let_def split_def shutdown_outcome_def lhm_info_def adapter_info_new_def
      hands_back_control_def cooling_control_def ad_id_def)

text \<open>Only the channels of the last tree are released: one that was driven and is missing there is not.\<close>

lemma missing_channel_not_released:
  assumes "la_refresh w = (Inr (tree, m), w')" "\<forall>(d, ss) \<in> set (lm_sensors m). \<forall>(c, i) \<in> set ss. \<not> is_control_id c"
  shows "lhm_shutdown w' = (Inr (), w')"
proof -
  have "la_mapping w' = m" using assms(1) by (auto simp: la_refresh_def Let_def split: prod.splits sum.splits)
  moreover have "control_channels m = []" 
    using assms(2) by (fastforce simp: control_channels_def filter_empty_conv)
  ultimately show ?thesis by (simp add: lhm_shutdown_def)
qed

subsection \<open>Names\<close>

text \<open>The suffix of a repeated capability follows the order of the sensors.\<close>

lemma suffix_follows_order:
  assumes "kind_of a = Some Lhm_Temperature" "kind_of b = Some Lhm_Temperature"
    and "capability_id_for t a Lhm_Temperature = c" "capability_id_for t b Lhm_Temperature = c"
  shows "map_of (snd (fold (add_sensor t) [a, b] ([], []))) c = Some (ln_id a)
    \<and> map_of (snd (fold (add_sensor t) [b, a] ([], []))) c = Some (ln_id b)"
proof -
  have n: "suffixed c k \<noteq> c" for k by (simp add: suffixed_def)
  have two: "map_of (sorted_put fst (d, y) [(c, x)]) c = Some x" if "d \<noteq> c" for d x y :: string
    using that by simp
  have u: "uniquify [build_capability c x k] c \<noteq> c" for x k
  proof -
    have "cap_id (build_capability c x k) = c" by (simp add: build_capability_def cap_sensor_def)
    moreover from this have "List.find (\<lambda>j. suffixed c j \<notin> set (map cap_id [build_capability c x k])) [2..<100] = Some 2"
      by (simp add: upt_conv_Cons n)
    ultimately show ?thesis by (simp add: uniquify_def Let_def n del: upt_Suc)
  qed
  have e: "uniquify [] c = c" by (simp add: uniquify_def)
  have s: "add_sensor t n (caps, ss) = (caps @ [build_capability (uniquify caps c) n Lhm_Temperature],
      sorted_put fst (uniquify caps c, ln_id n) ss)"
    if "kind_of n = Some Lhm_Temperature" "capability_id_for t n Lhm_Temperature = c" for n caps ss
    using that by (simp only: add_sensor_def prod.case kind_of_def [symmetric] option.case Let_def) (simp add: kind_readable_def)
  show ?thesis
    by (simp add: s [OF assms(1,3)] s [OF assms(2,4)] e two [OF u] del: sorted_put.simps(2))
qed

text \<open>A hundred sensors that ask for one capability id take their device with them: the hundredth has no
  suffix left, so the device declares an id twice and is dropped without a word.\<close>

lemma too_many_sensors:
  assumes "set (map cap_id (dev_capabilities d)) \<subseteq> insert c (suffixed c ` {2..<100})" "100 \<le> length (dev_capabilities d)"
  shows "validate_device d \<noteq> Inr ()"
proof
  assume "validate_device d = Inr ()"
  then have "distinct (map cap_id (dev_capabilities d))" by (simp add: validate_device_ok)
  then have "length (dev_capabilities d) = card (set (map cap_id (dev_capabilities d)))" by (metis distinct_card length_map)
  also have "\<dots> \<le> card (insert c (suffixed c ` {2..<100}))" by (rule card_mono) (use assms(1) in auto)
  also have "\<dots> \<le> Suc (card (suffixed c ` {2..<100 :: nat}))" by (simp add: card_insert_if)
  also have "\<dots> \<le> Suc (card {2..<100 :: nat})" using card_image_le [of "{2..<100 :: nat}" "suffixed c"] by simp
  finally show False using assms(2) by simp
qed

lemma clocks_share_an_id: "capability_id_for t n Lhm_Clock = CLOCK_MHZ"
  by (simp add: capability_id_for_def Let_def)

lemma many_clocks_drop_device:
  assumes "\<forall>n \<in> set ns. kind_of n = Some Lhm_Clock" "100 \<le> length ns"
    and "fold (add_sensor t) ns ([], []) = (caps, ss)"
  shows "validate_device (hardware_device t i h caps) \<noteq> Inr ()"
proof -
  have g: "length (fst (fold (add_sensor t) ns x)) = length (fst x) + length ns
      \<and> set (map cap_id (fst (fold (add_sensor t) ns x))) \<subseteq> set (map cap_id (fst x)) \<union> insert CLOCK_MHZ (suffixed CLOCK_MHZ ` {2..<100})"
    if "\<forall>n \<in> set ns. kind_of n = Some Lhm_Clock" for ns x
    using that
  proof (induction ns arbitrary: x)
    case (Cons n ns)
    obtain cs sm where x: "x = (cs, sm)" by fastforce
    let ?i = "uniquify cs CLOCK_MHZ"
    have k: "map_option kind_from_type (ln_sensor_type n) = Some Lhm_Clock" using Cons.prems by (simp add: kind_of_def)
    have a: "fst (add_sensor t n x) = cs @ [build_capability ?i n Lhm_Clock]"
      by (simp add: x add_sensor_def k kind_readable_def Let_def clocks_share_an_id)
    have "cap_id (build_capability ?i n Lhm_Clock) = ?i" by (simp add: build_capability_def cap_sensor_def)
    moreover have "?i \<in> insert CLOCK_MHZ (suffixed CLOCK_MHZ ` {2..<100})" using uniquify_cases [of cs CLOCK_MHZ] by blast
    ultimately show ?case using Cons.IH [of "add_sensor t n x"] Cons.prems a by (auto simp: x)
  qed auto
  have "dev_capabilities (hardware_device t i h caps) = caps"
    by (simp add: hardware_device_def with_metadata_def with_vendor_def)
  with g [OF assms(1), of "([], [])"] assms(2,3) show ?thesis by (intro too_many_sensors [where c = CLOCK_MHZ]) auto
qed

text \<open>A node without a path and a name is called by its position, and nobody is told.\<close>

lemma positional_id_unreported:
  assumes "\<not> has_key h" shows "hardware_key h slot = ''slot'' @ dec_nat slot"
    and "lhm_device_id t (hardware_key h slot) \<notin> set (ib_used b)
      \<Longrightarrow> ib_ambiguous (snd (claim_id (lhm_device_id t (hardware_key h slot)) w slot b)) = ib_ambiguous b"
  using assms by (simp_all add: has_key_def hardware_key_def claim_id_def)

subsection \<open>The shape of the tree\<close>

text \<open>A tachometer and a control are paired only when one node has both as its own sensors: kept apart in
  two groups they are two devices.\<close>

lemma pairs_share_a_node:
  "ch \<in> set (fan_channels h) \<Longrightarrow> ch_rpm ch = Some r \<Longrightarrow> ch_control ch = Some n \<Longrightarrow> r \<in> set (ln_children h) \<and> n \<in> set (ln_children h)"
  using channel_nodes [of ch h r] channel_nodes [of ch h n] by (simp add: own_sensors_def)

text \<open>Hardware one level further down is no device.\<close>

lemma deeper_hardware_is_no_device: "ln_hardware_type t = None \<Longrightarrow> hardware_children (with_children [t] r) = []"
  by (simp add: hardware_children_def)

subsection \<open>Numbers\<close>

text \<open>A value in millivolts is reported as that many volts.\<close>

lemma millivolts_read_as_volts: "parse_value ''50 mV'' = Some (Fin 50, Volt)"
proof -
  have w: "trim ''50 mV'' = ''50 mV''" "\<not> is_missing_text ''50 mV''" "takeWhile number_char ''50 mV'' = ''50''"
    "unit_of_text (map ascii_lower ''50 mV'') = (None, Volt)" by code_simp+
  show ?thesis by (simp add: parse_value_def w w(4) [simplified] Let_def demo_number del: takeWhile.simps)
qed

end
