(* ===== verification/Framing.thy ===== *)
theory Framing
  imports Rust_Std Interfaces
begin

section \<open>Framing of the Open Device Protocol\<close>

text \<open>
  \<open>crates/ohm-protocol/src/framing.rs\<close>: magic, little-endian length, CRC-8, payload; and the
  incremental decoder. A byte is an \<open>8 word\<close>, the diagnostic counters are \<open>64 word\<close>s (they
  wrap as in a release build). The decoder's loop is \<open>drain\<close>; it terminates because every
  round that continues removes at least the two bytes of a magic.
\<close>

type_synonym byte = "8 word"

definition MAGIC_0 :: byte where "MAGIC_0 = 0xAA"
definition MAGIC_1 :: byte where "MAGIC_1 = 0x55"
definition HEADER_LEN :: nat where "HEADER_LEN = 5"
definition MAX_PAYLOAD :: nat where "MAX_PAYLOAD = 8 * 1024"

lemmas framing_consts [const_simps] = MAGIC_0_def MAGIC_1_def HEADER_LEN_def MAX_PAYLOAD_def

subsection \<open>The checksum\<close>

definition crc8_bit :: "byte \<Rightarrow> byte" where
  "crc8_bit crc = (if and crc 0x80 \<noteq> 0 then xor (push_bit 1 crc) 0x07 else push_bit 1 crc)"

definition crc8_byte :: "byte \<Rightarrow> byte \<Rightarrow> byte" where
  "crc8_byte crc b = (crc8_bit ^^ 8) (xor crc b)"

definition crc8_update :: "byte \<Rightarrow> byte list \<Rightarrow> byte" where
  "crc8_update seed bs = foldl crc8_byte seed bs"

definition crc8 :: "byte list \<Rightarrow> byte" where
  "crc8 bs = crc8_update 0 bs"

subsection \<open>Encoding\<close>

definition u16_to_le :: "16 word \<Rightarrow> byte list" where
  "u16_to_le w = [ucast w, ucast (drop_bit 8 w)]"

definition u16_from_le :: "byte \<Rightarrow> byte \<Rightarrow> 16 word" where
  "u16_from_le lo hi = or (ucast lo) (push_bit 8 (ucast hi))"

definition encode :: "byte list \<Rightarrow> byte list result" where
  "encode payload =
    (if MAX_PAYLOAD < length payload
     then Inl (ProtocolError [Txt ''payload of '', Dec (int (length payload)),
       Txt '' bytes exceeds the '', Dec (int MAX_PAYLOAD), Txt '' byte limit''])
     else Inr ([MAGIC_0, MAGIC_1] @ u16_to_le (of_nat (length payload)) @ [crc8 payload] @ payload))"

subsection \<open>Decoding\<close>

record decoder =
  dc_buffer :: "byte list"
  dc_dropped_frames :: "64 word"
  dc_resyncs :: "64 word"

definition decoder_new :: decoder where
  "decoder_new = \<lparr>dc_buffer = [], dc_dropped_frames = 0, dc_resyncs = 0\<rparr>"

text \<open>The inner loop: bytes are removed one by one until the buffer starts with the magic.\<close>

fun resync :: "byte list \<Rightarrow> byte list \<times> nat" where
  "resync (a # b # bs) =
    (if a = MAGIC_0 \<and> b = MAGIC_1 then (a # b # bs, 0)
     else let (rest, n) = resync (b # bs) in (rest, n + 1))"
| "resync bs = (bs, 0)"

lemma length_resync: "length (fst (resync bs)) \<le> length bs"
  by (induction bs rule: resync.induct) (auto split: prod.splits)

definition drop_magic :: "decoder \<Rightarrow> decoder" where
  "drop_magic d = d\<lparr>dc_buffer := drop 2 (dc_buffer d), dc_dropped_frames := dc_dropped_frames d + 1\<rparr>"

definition align :: "decoder \<Rightarrow> decoder" where
  "align d = (let (buf, n) = resync (dc_buffer d) in
     d\<lparr>dc_buffer := buf, dc_resyncs := dc_resyncs d + of_nat n\<rparr>)"

lemma align_buffer: "dc_buffer (align d) = fst (resync (dc_buffer d))"
  by (simp add: align_def split_def Let_def)

definition frame_length :: "byte list \<Rightarrow> nat" where
  "frame_length buf = unat (u16_from_le (buf ! 2) (buf ! 3))"

function drain :: "decoder \<Rightarrow> decoder \<times> byte list list" where
  "drain d0 = (let d = align d0; buf = dc_buffer d in
     if length buf < HEADER_LEN then (d, [])
     else let len = frame_length buf in
       if MAX_PAYLOAD < len then drain (drop_magic d)
       else if length buf < HEADER_LEN + len then (d, [])
       else let payload = take len (drop HEADER_LEN buf) in
         if crc8 payload \<noteq> buf ! 4 then drain (drop_magic d)
         else let (d', out) = drain (d\<lparr>dc_buffer := drop (HEADER_LEN + len) buf\<rparr>) in
           (d', payload # out))"
  by auto
termination
proof (relation "measure (\<lambda>d. length (dc_buffer d))", goal_cases)
  case (2 d0 d buf len)
  then show ?case
    using length_resync [of "dc_buffer d0"] by (auto simp: drop_magic_def align_buffer HEADER_LEN_def)
next
  case (3 d0 d buf len payload)
  then show ?case
    using length_resync [of "dc_buffer d0"] by (auto simp: drop_magic_def align_buffer HEADER_LEN_def)
next
  case (4 d0 d buf len payload)
  then show ?case
    using length_resync [of "dc_buffer d0"] by (auto simp: align_buffer HEADER_LEN_def)
qed simp

declare drain.simps [simp del]

definition push :: "decoder \<Rightarrow> byte list \<Rightarrow> decoder \<times> byte list list" where
  "push d bytes = drain (d\<lparr>dc_buffer := dc_buffer d @ bytes\<rparr>)"

definition decoder_reset :: "decoder \<Rightarrow> decoder" where
  "decoder_reset d = d\<lparr>dc_buffer := []\<rparr>"

definition buffered :: "decoder \<Rightarrow> nat" where
  "buffered d = length (dc_buffer d)"

subsection \<open>Chunking\<close>

lemma resync_append:
  "fst (resync (b @ ys)) = fst (resync (fst (resync b) @ ys)) \<and>
   snd (resync (b @ ys)) = snd (resync (fst (resync b) @ ys)) + snd (resync b)"
  by (induction b rule: resync.induct) (simp_all add: split_def Let_def)

lemma resync_magic: "2 \<le> length (fst (resync b)) \<Longrightarrow> \<exists>r. fst (resync b) = MAGIC_0 # MAGIC_1 # r"
  by (induction b rule: resync.induct) (auto simp: split_def Let_def split: if_splits)

definition buffer_more :: "decoder \<Rightarrow> byte list \<Rightarrow> decoder" where
  "buffer_more d bytes = d\<lparr>dc_buffer := dc_buffer d @ bytes\<rparr>"

lemma dc_buffer_more [simp]: "dc_buffer (buffer_more d ys) = dc_buffer d @ ys"
  by (simp add: buffer_more_def)

lemma more_nil [simp]: "buffer_more d [] = d"
  by (simp add: buffer_more_def)

lemma more_more [simp]: "buffer_more (buffer_more d xs) ys = buffer_more d (xs @ ys)"
  by (simp add: buffer_more_def)

lemma push_more: "push d bytes = drain (buffer_more d bytes)"
  by (simp add: push_def buffer_more_def)

lemma align_more: "align (buffer_more (align d) ys) = align (buffer_more d ys)"
  using resync_append [of "dc_buffer d" ys] by (simp add: align_def buffer_more_def split_def Let_def)

lemma drain_align: "drain (align d) = drain d"
proof -
  have "align (align d) = align d" using align_more [of d "[]"] by simp
  then show ?thesis by (simp add: drain.simps [of "align d"] drain.simps [of d])
qed

lemma drain_align_more: "drain (buffer_more (align d) ys) = drain (buffer_more d ys)"
  using drain_align [of "buffer_more (align d) ys"] drain_align [of "buffer_more d ys"] by (simp add: align_more)

lemma aligned:
  assumes "2 \<le> length (dc_buffer (align d))"
  shows "\<exists>r. dc_buffer (align d) = MAGIC_0 # MAGIC_1 # r"
  using assms resync_magic [of "dc_buffer d"] by (simp add: align_buffer)

lemma align_magic: "dc_buffer d = MAGIC_0 # MAGIC_1 # r \<Longrightarrow> align d = d"
  by (simp add: align_def)

lemma align_more_magic:
  assumes "HEADER_LEN \<le> length (dc_buffer (align d))"
  shows "align (buffer_more (align d) ys) = buffer_more (align d) ys"
  using aligned [of d] assms by (auto simp: HEADER_LEN_def intro: align_magic)

text \<open>One round of the loop on a buffer that starts with a complete header.\<close>

lemma drop_magic_more: "2 \<le> length (dc_buffer d) \<Longrightarrow> drop_magic (buffer_more d ys) = buffer_more (drop_magic d) ys"
  by (simp add: drop_magic_def buffer_more_def)

lemma frame_length_append: "HEADER_LEN \<le> length buf \<Longrightarrow> frame_length (buf @ ys) = frame_length buf"
  by (simp add: frame_length_def nth_append HEADER_LEN_def)

lemma drain_cases:
  obtains (short) "length (dc_buffer (align d)) < HEADER_LEN" "drain d = (align d, [])"
  | (oversized) "HEADER_LEN \<le> length (dc_buffer (align d))"
      "MAX_PAYLOAD < frame_length (dc_buffer (align d))" "drain d = drain (drop_magic (align d))"
  | (incomplete) "HEADER_LEN \<le> length (dc_buffer (align d))"
      "frame_length (dc_buffer (align d)) \<le> MAX_PAYLOAD"
      "length (dc_buffer (align d)) < HEADER_LEN + frame_length (dc_buffer (align d))"
      "drain d = (align d, [])"
  | (corrupt) n p where "HEADER_LEN \<le> length (dc_buffer (align d))"
      "n = frame_length (dc_buffer (align d))" "n \<le> MAX_PAYLOAD"
      "HEADER_LEN + n \<le> length (dc_buffer (align d))"
      "p = take n (drop HEADER_LEN (dc_buffer (align d)))" "crc8 p \<noteq> dc_buffer (align d) ! 4"
      "drain d = drain (drop_magic (align d))"
  | (frame) n p where "HEADER_LEN \<le> length (dc_buffer (align d))"
      "n = frame_length (dc_buffer (align d))" "n \<le> MAX_PAYLOAD"
      "HEADER_LEN + n \<le> length (dc_buffer (align d))"
      "p = take n (drop HEADER_LEN (dc_buffer (align d)))" "crc8 p = dc_buffer (align d) ! 4"
      "drain d = (let (d', out) = drain ((align d)\<lparr>dc_buffer := drop (HEADER_LEN + n) (dc_buffer (align d))\<rparr>)
         in (d', p # out))"
  using drain.simps [of d] by (auto simp: Let_def not_less split: if_splits)

lemma drain_measure:
  assumes "HEADER_LEN \<le> length (dc_buffer (align d))"
  shows "length (dc_buffer (drop_magic (align d))) < length (dc_buffer d)"
    and "length (drop (HEADER_LEN + n) (dc_buffer (align d))) < length (dc_buffer d)"
  using assms length_resync [of "dc_buffer d"] by (auto simp: drop_magic_def align_buffer HEADER_LEN_def)

lemma drain_more:
  "drain (buffer_more d ys) = (let (d1, o1) = drain d; (d2, o2) = drain (buffer_more d1 ys) in (d2, o1 @ o2))"
proof (induction "length (dc_buffer d)" arbitrary: d rule: less_induct)
  case less
  let ?b = "dc_buffer (align d)"
  note am = drain_align_more [of d ys]
  show ?case
  proof (cases d rule: drain_cases)
    case short
    with am show ?thesis by (simp add: split_def)
  next
    case incomplete
    with am show ?thesis by (simp add: split_def)
  next
    case oversized
    have "drain (buffer_more d ys) = drain (drop_magic (buffer_more (align d) ys))"
      unfolding am [symmetric] using oversized(1,2) align_more_magic [OF oversized(1), of ys]
      by (simp add: drain.simps [of "buffer_more (align d) ys"] Let_def frame_length_append)
    also have "\<dots> = drain (buffer_more (drop_magic (align d)) ys)"
      using oversized(1) by (subst drop_magic_more) (auto simp: HEADER_LEN_def)
    finally show ?thesis
      using less [OF drain_measure(1) [OF oversized(1)]] oversized(3) by simp
  next
    case (corrupt n p)
    have "drain (buffer_more d ys) = drain (drop_magic (buffer_more (align d) ys))"
      unfolding am [symmetric] using corrupt(1-6) align_more_magic [OF corrupt(1), of ys]
      by (simp add: drain.simps [of "buffer_more (align d) ys"] Let_def frame_length_append nth_append HEADER_LEN_def)
    also have "\<dots> = drain (buffer_more (drop_magic (align d)) ys)"
      using corrupt(1) by (subst drop_magic_more) (auto simp: HEADER_LEN_def)
    finally show ?thesis
      using less [OF drain_measure(1) [OF corrupt(1)]] corrupt(7) by simp
  next
    case (frame n p)
    let ?rest = "(align d)\<lparr>dc_buffer := drop (HEADER_LEN + n) ?b\<rparr>"
    have "(buffer_more (align d) ys)\<lparr>dc_buffer := drop (5 + frame_length ?b) ?b @ ys\<rparr>
        = buffer_more ((align d)\<lparr>dc_buffer := drop (5 + frame_length ?b) ?b\<rparr>) ys"
      by (simp add: buffer_more_def)
    then have "drain (buffer_more d ys) = (let (d', out) = drain (buffer_more ?rest ys) in (d', p # out))"
      unfolding am [symmetric] using frame(1-6) align_more_magic [OF frame(1), of ys]
      by (simp add: drain.simps [of "buffer_more (align d) ys"] Let_def frame_length_append nth_append
          HEADER_LEN_def)
    moreover have "drain (buffer_more ?rest ys)
        = (let (d1, o1) = drain ?rest; (d2, o2) = drain (buffer_more d1 ys) in (d2, o1 @ o2))"
      using frame(1) drain_measure(2) by (intro less) simp
    ultimately show ?thesis using frame(7) by (simp add: split_def Let_def)
  qed
qed

lemma push_append:
  "push d (xs @ ys) = (let (d1, o1) = push d xs; (d2, o2) = push d1 ys in (d2, o1 @ o2))"
  using drain_more [of "buffer_more d xs" ys] by (simp add: push_more)

subsection \<open>One frame\<close>

definition frame_bytes :: "byte list \<Rightarrow> byte list" where
  "frame_bytes p = [MAGIC_0, MAGIC_1] @ u16_to_le (of_nat (length p)) @ [crc8 p] @ p"

lemma encode_ok: "encode p = Inr f \<longleftrightarrow> length p \<le> MAX_PAYLOAD \<and> f = frame_bytes p"
  by (auto simp: encode_def frame_bytes_def)

lemma u16_le_roundtrip: "u16_from_le (ucast w) (ucast (drop_bit 8 w)) = w"
  by (rule bit_word_eqI) (auto simp: u16_from_le_def bit_simps)

lemma frame_bytes_unfold:
  "frame_bytes p = MAGIC_0 # MAGIC_1 # ucast (of_nat (length p) :: 16 word)
     # ucast (drop_bit 8 (of_nat (length p) :: 16 word)) # crc8 p # p"
  by (simp add: frame_bytes_def u16_to_le_def)

lemma frame_length_frame:
  assumes "length p \<le> MAX_PAYLOAD" shows "frame_length (frame_bytes p @ r) = length p"
proof -
  have "unat (of_nat (length p) :: 16 word) = length p"
    using assms by (simp add: MAX_PAYLOAD_def unsigned_of_nat take_bit_nat_eq_self)
  then show ?thesis
    by (simp add: frame_length_def frame_bytes_unfold u16_le_roundtrip)
qed

lemma length_frame_bytes: "length (frame_bytes p) = HEADER_LEN + length p"
  by (simp add: frame_bytes_unfold HEADER_LEN_def)

lemma drain_nil: "dc_buffer d = [] \<Longrightarrow> drain d = (d, [])"
  by (simp add: drain.simps [of d] align_def HEADER_LEN_def)

lemma drain_frame:
  assumes "dc_buffer d = frame_bytes p" "length p \<le> MAX_PAYLOAD"
  shows "drain d = (d\<lparr>dc_buffer := []\<rparr>, [p])"
proof -
  have a: "align d = d" by (rule align_magic) (simp add: assms(1) frame_bytes_unfold)
  have fl: "frame_length (dc_buffer d) = length p"
    using frame_length_frame [OF assms(2), of "[]"] by (simp add: assms(1))
  have "crc8 (take (length p) (drop HEADER_LEN (dc_buffer d))) = dc_buffer d ! 4"
    "take (length p) (drop HEADER_LEN (dc_buffer d)) = p"
    "drop (HEADER_LEN + length p) (dc_buffer d) = []"
    by (simp_all add: assms(1) frame_bytes_unfold HEADER_LEN_def)
  with a fl assms length_frame_bytes [of p] show ?thesis
    by (simp add: drain.simps [of d] Let_def drain_nil)
qed

lemma push_frame:
  "dc_buffer d = [] \<Longrightarrow> length p \<le> MAX_PAYLOAD \<Longrightarrow> push d (frame_bytes p) = (d, [p])"
  using drain_frame [of "buffer_more d (frame_bytes p)" p] by (simp add: push_more) (simp add: buffer_more_def)

lemma push_nil: "dc_buffer d = [] \<Longrightarrow> push d [] = (d, [])"
  by (simp add: push_more drain_nil)

subsection \<open>Resynchronisation and bounds\<close>

fun no_magic :: "byte list \<Rightarrow> bool" where
  "no_magic (a # b # bs) \<longleftrightarrow> \<not> (a = MAGIC_0 \<and> b = MAGIC_1) \<and> no_magic (b # bs)"
| "no_magic _ \<longleftrightarrow> True"

lemma resync_garbage:
  "no_magic g \<Longrightarrow> resync (g @ MAGIC_0 # MAGIC_1 # r) = (MAGIC_0 # MAGIC_1 # r, length g)"
proof (induction g rule: no_magic.induct)
  case (1 a b bs)
  then show ?case by (simp add: split_def)
qed (simp_all add: MAGIC_0_def MAGIC_1_def split_def)

lemma push_garbage:
  assumes "dc_buffer d = []" "no_magic g" "length p \<le> MAX_PAYLOAD"
  shows "push d (g @ frame_bytes p) = (d\<lparr>dc_resyncs := dc_resyncs d + of_nat (length g)\<rparr>, [p])"
proof -
  obtain r where r: "frame_bytes p = MAGIC_0 # MAGIC_1 # r" by (simp add: frame_bytes_unfold)
  let ?d = "d\<lparr>dc_buffer := frame_bytes p, dc_resyncs := dc_resyncs d + of_nat (length g)\<rparr>"
  have "align (buffer_more d (g @ frame_bytes p)) = ?d"
    using resync_garbage [OF assms(2), of r] assms(1) by (simp add: align_def r) (simp add: buffer_more_def)
  then have "push d (g @ frame_bytes p) = drain ?d"
    using drain_align [of "buffer_more d (g @ frame_bytes p)"] by (simp add: push_more)
  also have "\<dots> = (?d\<lparr>dc_buffer := []\<rparr>, [p])"
    by (rule drain_frame) (use assms in simp_all)
  finally show ?thesis using assms(1) by simp
qed

text \<open>What a round of decoding may keep and emit.\<close>

lemma drain_bound:
  "drain d = (d', out) \<Longrightarrow> length (dc_buffer d') < HEADER_LEN + MAX_PAYLOAD
     \<and> length (dc_buffer d') + sum_list (map (\<lambda>p. HEADER_LEN + length p) out) \<le> length (dc_buffer d)
     \<and> (\<forall>p \<in> set out. length p \<le> MAX_PAYLOAD)"
proof (induction "length (dc_buffer d)" arbitrary: d d' out rule: less_induct)
  case less
  have la: "length (dc_buffer (align d)) \<le> length (dc_buffer d)"
    using length_resync [of "dc_buffer d"] by (simp add: align_buffer)
  show ?case
  proof (cases d rule: drain_cases)
    case oversized
    have "drain (drop_magic (align d)) = (d', out)" using oversized(3) less.prems by simp
    from less.hyps [OF drain_measure(1) [OF oversized(1)] this] la show ?thesis
      by (auto simp: drop_magic_def)
  next
    case (corrupt n p)
    have "drain (drop_magic (align d)) = (d', out)" using corrupt(7) less.prems by simp
    from less.hyps [OF drain_measure(1) [OF corrupt(1)] this] la show ?thesis
      by (auto simp: drop_magic_def)
  next
    case (frame n p)
    let ?rest = "(align d)\<lparr>dc_buffer := drop (HEADER_LEN + n) (dc_buffer (align d))\<rparr>"
    obtain out' where o: "drain ?rest = (d', out')" "out = p # out'"
      using frame(7) less.prems by (cases "drain ?rest") auto
    have "length (dc_buffer ?rest) < length (dc_buffer d)"
      using drain_measure(2) [OF frame(1), of n] by simp
    from less.hyps [OF this o(1)] la frame(3-5) o(2) show ?thesis by auto
  qed (use less.prems la in \<open>auto simp: MAX_PAYLOAD_def\<close>)
qed


subsection \<open>What the checksum detects\<close>

definition crc8_bit_inverse :: "byte \<Rightarrow> byte" where
  "crc8_bit_inverse r = (if and r 1 \<noteq> 0 then or (drop_bit 1 (xor r 0x07)) 0x80 else drop_bit 1 r)"

lemma crc8_bit_inverse_all:
  "list_all (\<lambda>n. crc8_bit_inverse (crc8_bit (word_of_nat n)) = word_of_nat n) [0..<256]"
  by code_simp

lemma crc8_bit_inj: "inj crc8_bit"
proof (rule inj_on_inverseI)
  fix c :: byte
  have "unat c < 256" using unsigned_less [of c, where ?'a = nat] by simp
  then have "unat c \<in> set [0..<256]" by simp
  then have "crc8_bit_inverse (crc8_bit (word_of_nat (unat c))) = word_of_nat (unat c)"
    using crc8_bit_inverse_all [unfolded list_all_iff] by (rule bspec [rotated])
  then show "crc8_bit_inverse (crc8_bit c) = c" by simp
qed

lemma crc8_step_inj: "crc8_byte c a = crc8_byte d b \<Longrightarrow> xor c a = xor d b"
  unfolding crc8_byte_def using inj_fn [OF crc8_bit_inj, of 8] by (simp add: inj_eq)

lemma crc8_update_inj: "crc8_update c bs = crc8_update d bs \<Longrightarrow> c = d"
proof (induction bs arbitrary: c d)
  case (Cons b bs)
  then have "crc8_byte c b = crc8_byte d b" by (simp add: crc8_update_def)
  then have "xor c b = xor d b" by (rule crc8_step_inj)
  then have "xor (xor c b) b = xor (xor d b) b" by simp
  then show ?case by (simp add: xor.assoc)
qed (simp add: crc8_update_def)

lemma crc8_update_append: "crc8_update s (xs @ ys) = crc8_update (crc8_update s xs) ys"
  by (simp add: crc8_update_def)

text \<open>Changing one byte always changes the checksum.\<close>

lemma crc8_single_byte:
  assumes "crc8 (xs @ a # ys) = crc8 (xs @ b # ys)" shows "a = b"
proof -
  let ?c = "crc8_update 0 xs"
  have "crc8_update (crc8_byte ?c a) ys = crc8_update (crc8_byte ?c b) ys"
    using assms by (simp add: crc8_def crc8_update_append) (simp add: crc8_update_def)
  then have "crc8_byte ?c a = crc8_byte ?c b" by (rule crc8_update_inj)
  then have "xor ?c a = xor ?c b" by (rule crc8_step_inj)
  then have "xor ?c (xor ?c a) = xor ?c (xor ?c b)" by simp
  then show ?thesis by (simp flip: xor.assoc)
qed

interpretation decoder_link: frame_link
  push "\<lambda>d. dc_buffer d = []" frame_bytes "\<lambda>p. length p \<le> MAX_PAYLOAD"
  by unfold_locales (simp_all add: push_append push_nil push_frame)

subsection \<open>Properties of the framing\<close>

text \<open>C34. Messages survive the wire: however the bytes of a sequence of encoded messages are
  cut into chunks, an idle decoder returns exactly those messages in order, drops and skips
  nothing, and is idle again.\<close>
theorem frames_roundtrip:
  assumes "dc_buffer d = []" "list_all2 (\<lambda>p f. encode p = Inr f) ps fs" "concat chunks = concat fs"
  shows "feed push d chunks = (d, ps)"
proof -
  have "list_all (\<lambda>p. length p \<le> MAX_PAYLOAD) ps \<and> fs = map frame_bytes ps"
    using assms(2) by (induction ps fs rule: list_all2_induct) (simp_all add: encode_ok)
  with assms(1,3) show ?thesis by (intro decoder_link.feed_frames) simp_all
qed

theorem frames_roundtrip_witness:
  "feed push decoder_new [[0xAA, 0x55, 2], [0, 0x45, 0x68], [0x69]] = (decoder_new, [[0x68, 0x69]])"
proof -
  have e: "encode [0x68, 0x69] = Inr [0xAA, 0x55, 2, 0, 0x45, 0x68, 0x69]" by code_simp
  show ?thesis
    by (rule frames_roundtrip [where fs = "[[0xAA, 0x55, 2, 0, 0x45, 0x68, 0x69]]"])
      (simp_all add: decoder_new_def e)
qed


text \<open>Garbage before a frame is skipped byte by byte and counted, and the frame is still
  delivered.\<close>
theorem garbage_skipped:
  assumes "dc_buffer d = []" "no_magic g" "encode p = Inr f"
  shows "push d (g @ f) = (d\<lparr>dc_resyncs := dc_resyncs d + of_nat (length g)\<rparr>, [p])"
  using assms push_garbage [of d g p] by (simp add: encode_ok)

theorem garbage_skipped_witness:
  "push decoder_new ([0xAA, 0xAA, 0x00] @ [0xAA, 0x55, 2, 0, 0x45, 0x68, 0x69])
     = (decoder_new\<lparr>dc_resyncs := 3\<rparr>, [[0x68, 0x69]])"
proof -
  have "encode [0x68, 0x69] = Inr [0xAA, 0x55, 2, 0, 0x45, 0x68, 0x69]" by code_simp
  from garbage_skipped [OF _ _ this, of decoder_new "[0xAA, 0xAA, 0x00]"] show ?thesis
    by (simp add: decoder_new_def MAGIC_0_def MAGIC_1_def)
qed

text \<open>Whatever arrives, the decoder never holds a full frame's worth of bytes back, emits no
  payload over the limit, and never emits more bytes than it received: a hostile length field
  cannot make it buffer without bound.\<close>
theorem decoder_bounded:
  assumes "push d bytes = (d', out)"
  shows "buffered d' < HEADER_LEN + MAX_PAYLOAD
     \<and> buffered d' + sum_list (map (\<lambda>p. HEADER_LEN + length p) out) \<le> buffered d + length bytes
     \<and> list_all (\<lambda>p. length p \<le> MAX_PAYLOAD) out"
  using drain_bound [of "buffer_more d bytes" d' out] assms
  by (simp add: push_more buffered_def list_all_iff)

theorem decoder_bounded_witness:
  "buffered (fst (push decoder_new [0xAA, 0x55, 0xFF, 0xFF, 0x00, 0x12])) < HEADER_LEN + MAX_PAYLOAD"
  using decoder_bounded [OF prod.collapse [symmetric]] by blast

text \<open>A frame in which one payload byte was corrupted is never delivered as a message: every
  single-byte change alters the CRC-8, the frame is dropped, and whatever the decoder finds
  in the rest is shorter.\<close>
theorem corrupt_frame_dropped:
  assumes "dc_buffer d = []" "encode (xs @ a # ys) = Inr (hdr @ xs @ a # ys)" "a \<noteq> b"
    and "push d (hdr @ xs @ b # ys) = (d', out)"
  shows "list_all (\<lambda>p. length p < length (xs @ b # ys)) out"
proof -
  let ?p = "xs @ a # ys" and ?q = "xs @ b # ys" and ?e = "buffer_more d (hdr @ xs @ b # ys)"
  have p: "length ?p \<le> MAX_PAYLOAD" "hdr @ ?p = frame_bytes ?p"
    using assms(2) by (auto simp: encode_ok)
  have hdr: "hdr = take HEADER_LEN (frame_bytes ?p)"
    using p(2) by (metis append_eq_conv_conj append_same_eq frame_bytes_unfold length_frame_bytes
        length_append add_right_cancel)
  have buf: "dc_buffer ?e = MAGIC_0 # MAGIC_1 # ucast (of_nat (length ?p) :: 16 word)
      # ucast (drop_bit 8 (of_nat (length ?p) :: 16 word)) # crc8 ?p # ?q"
    using assms(1) hdr by (simp add: frame_bytes_unfold HEADER_LEN_def)
  have al: "align ?e = ?e" by (rule align_magic) (rule buf)
  have fl: "frame_length (dc_buffer ?e) = length ?q"
    using frame_length_frame [OF p(1), of "[]"] unfolding buf by (simp add: frame_length_def frame_bytes_unfold)
  have len: "length (dc_buffer ?e) = HEADER_LEN + length ?q"
    unfolding buf by (simp add: HEADER_LEN_def)
  have "drain ?e = drain (drop_magic ?e)"
  proof (cases ?e rule: drain_cases)
    case (frame n c)
    have n: "n = length ?q" using frame(2) al fl by (simp only:)
    have "c = ?q" using frame(5) unfolding al buf n by (simp add: HEADER_LEN_def)
    moreover have "crc8 c = crc8 ?p" using frame(6) unfolding al buf by simp
    ultimately show ?thesis using crc8_single_byte assms(3) by metis
  next
    case short
    from short(1) [unfolded al len] show ?thesis by simp
  next
    case incomplete
    from incomplete(3) [unfolded al len fl] show ?thesis by simp
  next
    case oversized
    from oversized(3) show ?thesis by (simp only: al)
  next
    case (corrupt n c)
    from corrupt(7) show ?thesis by (simp only: al)
  qed
  then have "drain (drop_magic ?e) = (d', out)" using assms(4) by (simp add: push_more)
  from drain_bound [OF this, THEN conjunct2, THEN conjunct1]
  have "sum_list (map (\<lambda>p. HEADER_LEN + length p) out) \<le> length (dc_buffer (drop_magic ?e))"
    by (rule add_leD2)
  also have "\<dots> = HEADER_LEN + length ?q - 2"
    unfolding drop_magic_def using len by (simp del: dc_buffer_more)
  finally have "sum_list (map (\<lambda>p. HEADER_LEN + length p) out) \<le> HEADER_LEN + length ?q - 2" .
  then have "HEADER_LEN + length c < HEADER_LEN + length ?q" if "c \<in> set out" for c
    using member_le_sum_list [of "HEADER_LEN + length c" "map (\<lambda>p. HEADER_LEN + length p) out"] that
    by (auto simp: HEADER_LEN_def)
  then show ?thesis by (auto simp: list_all_iff)
qed

theorem corrupt_frame_dropped_witness:
  "list_all (\<lambda>p. length p < 2) (snd (push decoder_new [0xAA, 0x55, 2, 0, 0x45, 0x68, 0x6B]))"
proof -
  have "encode ([0x68] @ 0x69 # []) = Inr ([0xAA, 0x55, 2, 0, 0x45] @ [0x68] @ 0x69 # [])" by code_simp
  from corrupt_frame_dropped [OF _ this _ prod.collapse [symmetric], of decoder_new "0x6B"]
  show ?thesis by (simp add: decoder_new_def numeral_2_eq_2)
qed

end
