(* ===== verification/Protocol.thy ===== *)
theory Protocol
  imports Framing Device_Model
begin

section \<open>Messages and descriptors of the Open Device Protocol\<close>

text \<open>
  \<open>crates/ohm-protocol/src/messages.rs\<close> and \<open>descriptor.rs\<close>: the requests and responses, the
  error codes, version negotiation, and how a device introduces itself and becomes a runtime
  device. JSON is serde's work; where a message crosses the wire the transport theory takes
  the codec as a parameter. A response's free text is kept as its unrendered pieces.
\<close>

subsection \<open>Versions\<close>

definition PROTOCOL_MAJOR :: nat where "PROTOCOL_MAJOR = 0"
definition PROTOCOL_MINOR :: nat where "PROTOCOL_MINOR = 1"

lemmas protocol_consts [const_simps] = PROTOCOL_MAJOR_def PROTOCOL_MINOR_def

definition protocol_version :: string where
  "protocol_version = dec_nat PROTOCOL_MAJOR @ ''.'' @ dec_nat PROTOCOL_MINOR"

definition is_compatible :: "nat \<Rightarrow> nat \<Rightarrow> bool" where
  "is_compatible major minor \<longleftrightarrow> major = PROTOCOL_MAJOR \<and> minor \<le> PROTOCOL_MINOR"

subsection \<open>Error codes\<close>

datatype protocol_error_code =
  Code_UnknownOpcode | Code_Unsupported | Code_UnknownCapability | Code_NotWritable
| Code_InvalidValue | Code_Busy | Code_BootloaderMode | Code_FirmwareRejected | Code_Framing
| Code_Unauthorized | Code_Internal

fun protocol_code_str :: "protocol_error_code \<Rightarrow> string" where
  "protocol_code_str Code_UnknownOpcode = ''UNKNOWN_OPCODE''"
| "protocol_code_str Code_Unsupported = ''UNSUPPORTED''"
| "protocol_code_str Code_UnknownCapability = ''UNKNOWN_CAPABILITY''"
| "protocol_code_str Code_NotWritable = ''NOT_WRITABLE''"
| "protocol_code_str Code_InvalidValue = ''INVALID_VALUE''"
| "protocol_code_str Code_Busy = ''BUSY''"
| "protocol_code_str Code_BootloaderMode = ''BOOTLOADER_MODE''"
| "protocol_code_str Code_FirmwareRejected = ''FIRMWARE_REJECTED''"
| "protocol_code_str Code_Framing = ''FRAMING''"
| "protocol_code_str Code_Unauthorized = ''UNAUTHORIZED''"
| "protocol_code_str Code_Internal = ''INTERNAL''"

fun code_reason :: "protocol_error_code \<Rightarrow> unavailable_reason" where
  "code_reason Code_UnknownOpcode = Unsupported"
| "code_reason Code_Unsupported = Unsupported"
| "code_reason Code_UnknownCapability = HardwareLimitation"
| "code_reason Code_NotWritable = VendorLimitation"
| "code_reason Code_InvalidValue = HardwareLimitation"
| "code_reason Code_Busy = NotPresent"
| "code_reason Code_BootloaderMode = NotPresent"
| "code_reason Code_FirmwareRejected = ReadError"
| "code_reason Code_Framing = ReadError"
| "code_reason Code_Internal = ReadError"
| "code_reason Code_Unauthorized = PermissionDenied"

subsection \<open>Descriptors\<close>

record firmware_info =
  fw_version :: string
  fw_build :: string
  fw_git :: "string option"
  fw_protocol_major :: nat
  fw_protocol_minor :: nat

definition firmware_info_new :: "string \<Rightarrow> firmware_info" where
  "firmware_info_new v = \<lparr>fw_version = v, fw_build = [], fw_git = None,
     fw_protocol_major = PROTOCOL_MAJOR, fw_protocol_minor = PROTOCOL_MINOR\<rparr>"

definition firmware_compatible :: "firmware_info \<Rightarrow> bool" where
  "firmware_compatible fw = is_compatible (fw_protocol_major fw) (fw_protocol_minor fw)"

definition firmware_protocol_version :: "firmware_info \<Rightarrow> string" where
  "firmware_protocol_version fw = dec_nat (fw_protocol_major fw) @ ''.'' @ dec_nat (fw_protocol_minor fw)"

record capability_descriptor =
  cds_id :: string
  cds_name :: string
  cds_kind :: cap_kind
  cds_unit :: unit_kind
  cds_readable :: bool
  cds_writable :: bool
  cds_min :: "f64 option"
  cds_max :: "f64 option"
  cds_step :: "f64 option"
  cds_values :: "string list"
  cds_description :: "string option"
  cds_safety_critical :: bool

definition descriptor_sensor :: "string \<Rightarrow> string \<Rightarrow> unit_kind \<Rightarrow> capability_descriptor" where
  "descriptor_sensor i name u = \<lparr>cds_id = i, cds_name = name, cds_kind = Sensor, cds_unit = u,
     cds_readable = True, cds_writable = False, cds_min = None, cds_max = None, cds_step = None,
     cds_values = [], cds_description = None, cds_safety_critical = False\<rparr>"

definition descriptor_actuator ::
    "string \<Rightarrow> string \<Rightarrow> unit_kind \<Rightarrow> f64 \<Rightarrow> f64 \<Rightarrow> capability_descriptor" where
  "descriptor_actuator i name u lo hi = \<lparr>cds_id = i, cds_name = name, cds_kind = Actuator,
     cds_unit = u, cds_readable = True, cds_writable = True, cds_min = Some lo, cds_max = Some hi,
     cds_step = None, cds_values = [], cds_description = None, cds_safety_critical = False\<rparr>"

definition descriptor_describe :: "string \<Rightarrow> capability_descriptor \<Rightarrow> capability_descriptor" where
  "descriptor_describe s c = c\<lparr>cds_description := Some s\<rparr>"

definition validate_descriptor ::
    "capability_descriptor \<Rightarrow> val \<Rightarrow> (protocol_error_code \<times> message) + f64" where
  "validate_descriptor c value =
    (if \<not> cds_writable c
     then Inl (Code_NotWritable, [Txt ''`'', Txt (cds_id c), Txt ''` is read-only''])
     else if cds_values c \<noteq> [] then
       (let text = (case as_str value of Some t \<Rightarrow> t | None \<Rightarrow> val_to_string value) in
        if text \<notin> set (cds_values c)
        then Inl (Code_InvalidValue, [Txt ''`'', Txt text, Txt ''` is not one of '',
          Txt (join '', '' (cds_values c))])
        else Inr (Fin 0))
     else case as_f64 value of
       None \<Rightarrow> Inl (Code_InvalidValue,
         [Txt ''expected a number, got `'', Txt (val_to_string value), Txt ''`''])
     | Some numeric \<Rightarrow>
         if \<not> is_finite numeric then Inl (Code_InvalidValue, [Txt ''value is not finite''])
         else
           (let lo = (case cds_min c of Some m \<Rightarrow> m | None \<Rightarrow> NInf);
                hi = (case cds_max c of Some m \<Rightarrow> m | None \<Rightarrow> PInf) in
            if numeric < lo \<or> hi < numeric
            then Inl (Code_InvalidValue, [Num numeric, Txt '' is outside '', Num lo, Txt ''..='', Num hi])
            else Inr numeric))"

definition descriptor_of_capability :: "capability \<Rightarrow> capability_descriptor" where
  "descriptor_of_capability c = \<lparr>cds_id = cap_id c, cds_name = cap_name c, cds_kind = cap_kind c,
     cds_unit = cap_unit c, cds_readable = cap_readable c, cds_writable = cap_writable c,
     cds_min = cap_min c, cds_max = cap_max c, cds_step = cap_step c, cds_values = cap_values c,
     cds_description = cap_description c, cds_safety_critical = cap_safety_critical c\<rparr>"

definition capability_of_descriptor :: "capability_descriptor \<Rightarrow> capability" where
  "capability_of_descriptor c = \<lparr>cap_id = cds_id c, cap_name = cds_name c, cap_kind = cds_kind c,
     cap_unit = cds_unit c, cap_readable = cds_readable c, cap_writable = cds_writable c,
     cap_min = cds_min c, cap_max = cds_max c, cap_step = cds_step c, cap_values = cds_values c,
     cap_description = cds_description c, cap_poll_interval_ms = None,
     cap_safety_critical = cds_safety_critical c\<rparr>"

record device_descriptor =
  dd_vendor :: string
  dd_product :: string
  dd_model :: "string option"
  dd_serial :: "string option"
  dd_device_type :: device_type
  dd_transport :: transport_kind
  dd_firmware :: firmware_info
  dd_capabilities :: "capability_descriptor list"

definition device_descriptor_new ::
    "string \<Rightarrow> string \<Rightarrow> device_type \<Rightarrow> transport_kind \<Rightarrow> device_descriptor" where
  "device_descriptor_new vendor product ty tr = \<lparr>dd_vendor = vendor, dd_product = product,
     dd_model = None, dd_serial = None, dd_device_type = ty, dd_transport = tr,
     dd_firmware = firmware_info_new ''0.0.0'', dd_capabilities = []\<rparr>"

definition descriptor_capability :: "device_descriptor \<Rightarrow> string \<Rightarrow> capability_descriptor option" where
  "descriptor_capability dd i = List.find (\<lambda>c. cds_id c = i) (dd_capabilities dd)"

definition trim_matches :: "char \<Rightarrow> string \<Rightarrow> string" where
  "trim_matches c s = rev (dropWhile (\<lambda>x. x = c) (rev (dropWhile (\<lambda>x. x = c) s)))"

definition qualifier :: "device_descriptor \<Rightarrow> string" where
  "qualifier dd =
    (let base = (case dd_serial dd of
         Some serial \<Rightarrow> if serial \<noteq> [] then dd_vendor dd @ ''-'' @ serial
           else dd_vendor dd @ ''-'' @ dd_product dd
       | None \<Rightarrow> dd_vendor dd @ ''-'' @ dd_product dd)
     in trim_matches (CHR ''_'') (normalise base))"

definition descriptor_device_id :: "device_descriptor \<Rightarrow> nat \<Rightarrow> string" where
  "descriptor_device_id dd index = compose_id (device_type_str (dd_device_type dd)) (qualifier dd) index"

definition set_metadata :: "string \<Rightarrow> string option \<Rightarrow> device \<Rightarrow> device" where
  "set_metadata k v d = (case v of None \<Rightarrow> d | Some x \<Rightarrow> with_metadata k x d)"

definition to_device :: "device_descriptor \<Rightarrow> string \<Rightarrow> nat \<Rightarrow> device result" where
  "to_device dd adapter index =
    (if dd_capabilities dd = [] then Inl (ProtocolError
       [Txt ''device `'', Txt (dd_product dd), Txt ''` advertised no capabilities''])
     else if \<not> firmware_compatible (dd_firmware dd) then Inl (ProtocolError
       [Txt ''device `'', Txt (dd_product dd), Txt ''` speaks protocol '',
        Txt (firmware_protocol_version (dd_firmware dd)), Txt '' but this host implements '',
        Dec (int PROTOCOL_MAJOR), Txt ''.'', Dec (int PROTOCOL_MINOR)])
     else
       (let d = new_device (descriptor_device_id dd index) (dd_product dd) (dd_device_type dd)
              (dd_transport dd) adapter;
            d = d\<lparr>dev_vendor := dd_vendor dd\<rparr>;
            d = with_metadata ''protocol_version'' (firmware_protocol_version (dd_firmware dd)) d;
            d = with_metadata ''firmware'' (fw_version (dd_firmware dd)) d;
            d = d\<lparr>dev_capabilities := dev_capabilities d @ map capability_of_descriptor (dd_capabilities dd)\<rparr>;
            d = (case dd_model dd of None \<Rightarrow> d
              | Some m \<Rightarrow> with_metadata ''model'' m (d\<lparr>dev_model := Some m\<rparr>));
            d = set_metadata ''serial'' (dd_serial dd) d;
            d = set_metadata ''firmware_git'' (fw_git (dd_firmware dd)) d
        in and_then (validate_device d) (\<lambda>_. Inr d)))"

definition descriptor_summary :: "device_descriptor \<Rightarrow> message" where
  "descriptor_summary dd = [Txt (dd_vendor dd), Txt '' '', Txt (dd_product dd), Txt '' ('',
     Dec (int (length (dd_capabilities dd))), Txt '' capabilities, protocol '',
     Txt (firmware_protocol_version (dd_firmware dd)), Txt '', fw '',
     Txt (fw_version (dd_firmware dd)), Txt '')'']"

subsection \<open>Messages\<close>

datatype request =
  GetDeviceInfo
| GetCapabilities
| GetState "string option"
| SetState string val
| SubscribeEvent "string option" "nat option"
| UnsubscribeEvent nat
| GetFirmwareInfo
| EnterBootloader bool
| UpdateFirmware nat nat string byte
| Ping nat

fun request_opcode :: "request \<Rightarrow> string" where
  "request_opcode GetDeviceInfo = ''GET_DEVICE_INFO''"
| "request_opcode GetCapabilities = ''GET_CAPABILITIES''"
| "request_opcode (GetState _) = ''GET_STATE''"
| "request_opcode (SetState _ _) = ''SET_STATE''"
| "request_opcode (SubscribeEvent _ _) = ''SUBSCRIBE_EVENT''"
| "request_opcode (UnsubscribeEvent _) = ''UNSUBSCRIBE_EVENT''"
| "request_opcode GetFirmwareInfo = ''GET_FIRMWARE_INFO''"
| "request_opcode (EnterBootloader _) = ''ENTER_BOOTLOADER''"
| "request_opcode (UpdateFirmware _ _ _ _) = ''UPDATE_FIRMWARE''"
| "request_opcode (Ping _) = ''PING''"

fun is_mutating :: "request \<Rightarrow> bool" where
  "is_mutating (SetState _ _) = True"
| "is_mutating (EnterBootloader _) = True"
| "is_mutating (UpdateFirmware _ _ _ _) = True"
| "is_mutating (SubscribeEvent _ _) = True"
| "is_mutating (UnsubscribeEvent _) = True"
| "is_mutating _ = False"

datatype response =
  Resp_DeviceInfo device_descriptor
| Resp_Capabilities "capability_descriptor list"
| Resp_State "reading list"
| Resp_StateSet string val "message option"
| Resp_Subscribed nat nat
| Resp_Unsubscribed nat
| Resp_Event "reading list"
| Resp_FirmwareInfo firmware_info
| Resp_Bootloader bool "string option"
| Resp_FirmwareChunk nat nat
| Resp_Pong nat nat
| Resp_Error protocol_error_code message

fun response_opcode :: "response \<Rightarrow> string" where
  "response_opcode (Resp_DeviceInfo _) = ''DEVICE_INFO''"
| "response_opcode (Resp_Capabilities _) = ''CAPABILITIES''"
| "response_opcode (Resp_State _) = ''STATE''"
| "response_opcode (Resp_StateSet _ _ _) = ''STATE_SET''"
| "response_opcode (Resp_Subscribed _ _) = ''SUBSCRIBED''"
| "response_opcode (Resp_Unsubscribed _) = ''UNSUBSCRIBED''"
| "response_opcode (Resp_Event _) = ''EVENT''"
| "response_opcode (Resp_FirmwareInfo _) = ''FIRMWARE_INFO''"
| "response_opcode (Resp_Bootloader _ _) = ''BOOTLOADER''"
| "response_opcode (Resp_FirmwareChunk _ _) = ''FIRMWARE_CHUNK''"
| "response_opcode (Resp_Pong _ _) = ''PONG''"
| "response_opcode (Resp_Error _ _) = ''ERROR''"

fun response_is_error :: "response \<Rightarrow> bool" where
  "response_is_error (Resp_Error _ _) = True"
| "response_is_error _ = False"

subsection \<open>Descriptors and the runtime model agree\<close>

lemma descriptor_capability_id: "descriptor_of_capability (capability_of_descriptor c) = c"
  by (simp add: descriptor_of_capability_def capability_of_descriptor_def)

lemma capability_descriptor_id:
  "capability_of_descriptor (descriptor_of_capability c) = c\<lparr>cap_poll_interval_ms := None\<rparr>"
  by (simp add: descriptor_of_capability_def capability_of_descriptor_def)

lemma validate_descriptor_capability:
  "is_ok (validate_descriptor d v) \<longleftrightarrow> is_ok (validate_capability (capability_of_descriptor d) v)"
  by (auto simp: validate_descriptor_def validate_capability_def capability_of_descriptor_def
      Let_def split: option.splits)

lemma validate_descriptor_range:
  "validate_descriptor d v = Inr x \<Longrightarrow> is_finite x"
  by (auto simp: validate_descriptor_def Let_def split: option.splits if_splits)

text \<open>C40. What the firmware accepts on the wire and what the runtime accepts for the device built
  from its descriptor are the same values, for every capability.\<close>
theorem firmware_and_runtime_agree:
  "(\<exists>x. validate_descriptor d v = Inr x) \<longleftrightarrow>
   validate_capability (capability_of_descriptor d) v = Inr ()"
  using validate_descriptor_capability [of d v]
  by (simp add: is_ok_iff)

lemma set_metadata_simps [simp]:
  "dev_capabilities (set_metadata k v d) = dev_capabilities d"
  "dev_id (set_metadata k v d) = dev_id d" "dev_type (set_metadata k v d) = dev_type d"
  "dev_adapter (set_metadata k v d) = dev_adapter d"
  by (simp_all add: set_metadata_def with_metadata_def split: option.split)

lemma to_device_shape:
  assumes "to_device dd a i = Inr d"
  shows "dd_capabilities dd \<noteq> []" "firmware_compatible (dd_firmware dd)"
    "dev_capabilities d = map capability_of_descriptor (dd_capabilities dd)"
    "dev_id d = descriptor_device_id dd i" "dev_type d = dd_device_type dd" "dev_adapter d = a"
    "validate_device d = Inr ()"
  using assms
  by (auto simp: to_device_def result_simps Let_def with_metadata_def new_device_def
      split: if_splits option.splits)

text \<open>A device descriptor becomes a runtime device only if it advertises something, speaks a
  protocol this host implements (same major, not newer), and its capabilities are consistent;
  the device then has exactly the advertised capabilities, in order, and each can be found
  under its id.\<close>
theorem to_device_correct:
  assumes "to_device dd a i = Inr d"
  shows "fw_protocol_major (dd_firmware dd) = 0 \<and> fw_protocol_minor (dd_firmware dd) \<le> 1
     \<and> map descriptor_of_capability (dev_capabilities d) = dd_capabilities dd
     \<and> (\<forall>c \<in> set (dd_capabilities dd).
          dev_capability d (cds_id c) = Some (capability_of_descriptor c))"
proof -
  note s = to_device_shape [OF assms]
  have "map descriptor_of_capability (dev_capabilities d) = dd_capabilities dd"
    by (simp add: s(3) comp_def descriptor_capability_id)
  moreover have "dev_capability d (cds_id c) = Some (capability_of_descriptor c)"
    if "c \<in> set (dd_capabilities dd)" for c
    using valid_device_lookup [OF s(7), of "capability_of_descriptor c"] s(3) that
    by (simp add: capability_of_descriptor_def)
  ultimately show ?thesis
    using s(2) by (simp add: firmware_compatible_def is_compatible_def const_simps)
qed

end
