(* ===== verification/OpenFan.thy ===== *)
theory OpenFan
  imports Protocol
begin

section \<open>The simulated controller\<close>

text \<open>
  \<open>crates/ohm-protocol/src/mock.rs\<close>: \<open>MockOpenFan\<close>, the executable specification of the first
  real device. One definition per method; \<open>handle\<close> is the whole request handler. Counters
  that saturate in the code saturate here, \<open>u32\<close> additions wrap as in a release build. The
  fields no method changes are kept too, so that the constructor can be compared with the
  source.
\<close>

definition DEFAULT_FALLBACK_DUTY :: f64 where "DEFAULT_FALLBACK_DUTY = Fin 70"
definition DEFAULT_FALLBACK_AFTER_MS :: nat where "DEFAULT_FALLBACK_AFTER_MS = 5000"
definition MAX_FIRMWARE_BYTES :: nat where "MAX_FIRMWARE_BYTES = 1024 * 1024"

lemmas openfan_consts [const_simps] =
  DEFAULT_FALLBACK_DUTY_def DEFAULT_FALLBACK_AFTER_MS_def MAX_FIRMWARE_BYTES_def

record open_fan =
  of_descriptor :: device_descriptor
  of_channels :: nat
  of_duty :: f64
  of_temperature_c :: f64
  of_ambient_c :: f64
  of_bootloader :: bool
  of_subscriptions :: nat
  of_firmware_received :: nat
  of_firmware_total :: nat
  of_firmware_crc :: byte
  of_fallback_duty :: f64
  of_fallback_after_ms :: nat
  of_sim_ms :: nat
  of_last_host_contact_ms :: nat
  of_fallback_engaged :: bool
  of_rpm_override :: "f64 option"
  of_faults :: "(string \<times> unavailable_reason) list"
  of_uptime_ms :: nat

definition openfan_capabilities :: "capability_descriptor list" where
  "openfan_capabilities =
    [descriptor_describe ''PWM duty applied to every channel of the group''
       (descriptor_actuator FAN_SPEED_PERCENT ''Fan Speed'' Percent (Fin 0) (Fin 100)),
     descriptor_describe ''Tachometer reading of channel 1''
       (descriptor_sensor FAN_RPM ''Fan RPM'' Rpm),
     descriptor_describe ''Thermistor next to the fan header''
       (descriptor_sensor TEMPERATURE_CORE ''Onboard Temperature'' Celsius),
     \<lparr>cds_id = STATUS_MESSAGE, cds_name = ''Firmware Version'', cds_kind = Info,
      cds_unit = TextUnit, cds_readable = True, cds_writable = False, cds_min = None,
      cds_max = None, cds_step = None, cds_values = [],
      cds_description = Some ''Reported by GET_FIRMWARE_INFO'', cds_safety_critical = False\<rparr>]"

definition openfan_descriptor :: "nat \<Rightarrow> device_descriptor" where
  "openfan_descriptor channels =
    (device_descriptor_new ''OpenHardwareOS'' (''OpenFan '' @ dec_nat channels) Fan UsbHid)
      \<lparr>dd_model := Some ''OHOS-OPENFAN-4'', dd_serial := Some ''OF4-SIM-0001'',
       dd_firmware := \<lparr>fw_version = ''0.1.0-sim'', fw_build = ''mock'', fw_git = Some ''0000000'',
         fw_protocol_major = PROTOCOL_MAJOR, fw_protocol_minor = PROTOCOL_MINOR\<rparr>,
       dd_capabilities := openfan_capabilities\<rparr>"

definition open_fan_new :: "nat \<Rightarrow> open_fan" where
  "open_fan_new n = (let channels = max 1 (min 8 n) in
     \<lparr>of_descriptor = openfan_descriptor channels, of_channels = channels, of_duty = Fin 40,
      of_temperature_c = Fin 32, of_ambient_c = Fin 25, of_bootloader = False,
      of_subscriptions = 0, of_firmware_received = 0, of_firmware_total = 0, of_firmware_crc = 0,
      of_fallback_duty = DEFAULT_FALLBACK_DUTY, of_fallback_after_ms = DEFAULT_FALLBACK_AFTER_MS,
      of_sim_ms = 0, of_last_host_contact_ms = 0, of_fallback_engaged = False,
      of_rpm_override = None, of_faults = [], of_uptime_ms = 0\<rparr>)"

definition set_local_fallback :: "f64 \<Rightarrow> nat \<Rightarrow> open_fan \<Rightarrow> open_fan" where
  "set_local_fallback duty after_ms d =
    d\<lparr>of_fallback_duty := fclamp duty (Fin 0) (Fin 100), of_fallback_after_ms := after_ms\<rparr>"

definition disable_local_fallback :: "open_fan \<Rightarrow> open_fan" where
  "disable_local_fallback d = d\<lparr>of_fallback_after_ms := u64_max\<rparr>"

definition set_rpm_override :: "f64 option \<Rightarrow> open_fan \<Rightarrow> open_fan" where
  "set_rpm_override rpm d = d\<lparr>of_rpm_override := rpm\<rparr>"

definition inject_unavailable :: "string \<Rightarrow> unavailable_reason \<Rightarrow> open_fan \<Rightarrow> open_fan" where
  "inject_unavailable cap reason d = d\<lparr>of_faults := of_faults d @ [(cap, reason)]\<rparr>"

text \<open>The literal \<open>0.35\<close> is the double next to it.\<close>

definition airflow_step :: "nat \<Rightarrow> open_fan \<Rightarrow> f64" where
  "airflow_step dt_ms d =
    (let target = fmax (of_ambient_c d + Fin 40 - rnd (35 / 100) * of_duty d) (of_ambient_c d);
         alpha = fclamp (f64_of_int (int dt_ms) div Fin 8000) (Fin 0) (Fin 1)
     in of_temperature_c d + (target - of_temperature_c d) * alpha)"

definition advance_clock :: "nat \<Rightarrow> open_fan \<Rightarrow> open_fan" where
  "advance_clock dt_ms d = d\<lparr>of_sim_ms := sat_add64 (of_sim_ms d) dt_ms,
     of_uptime_ms := sat_add64 (of_uptime_ms d) dt_ms\<rparr>"

text \<open>The device notices a silent host and protects itself.\<close>

definition notice_silence :: "open_fan \<Rightarrow> open_fan" where
  "notice_silence d =
    (if \<not> of_fallback_engaged d
        \<and> of_fallback_after_ms d < sat_sub (of_sim_ms d) (of_last_host_contact_ms d)
     then d\<lparr>of_fallback_engaged := True, of_duty := of_fallback_duty d\<rparr> else d)"

definition tick :: "nat \<Rightarrow> open_fan \<Rightarrow> open_fan" where
  "tick dt_ms d = (let d = notice_silence (advance_clock dt_ms d) in
     d\<lparr>of_temperature_c := airflow_step dt_ms d\<rparr>)"

definition host_spoke :: "open_fan \<Rightarrow> open_fan" where
  "host_spoke d = (let d = d\<lparr>of_last_host_contact_ms := of_sim_ms d\<rparr> in
     if of_fallback_engaged d then d\<lparr>of_fallback_engaged := False\<rparr> else d)"

definition rpm_for :: "f64 \<Rightarrow> f64" where
  "rpm_for duty = (if duty \<le> Fin 0 then Fin 0
     else fround (Fin 400 + Fin 1600 * (duty div Fin 100)))"

definition rpm :: "open_fan \<Rightarrow> f64" where
  "rpm d = (case of_rpm_override d of Some r \<Rightarrow> r | None \<Rightarrow> rpm_for (of_duty d))"

definition fault_reading :: "open_fan \<Rightarrow> string \<Rightarrow> val \<Rightarrow> reading" where
  "fault_reading d cap v =
    (case List.find (\<lambda>(i, _). i = cap) (of_faults d) of
       Some (_, reason) \<Rightarrow> reading_unavailable cap reason
         (Some ''injected fault on the simulated device'')
     | None \<Rightarrow> reading_ok cap v)"

definition openfan_readings :: "open_fan \<Rightarrow> reading list" where
  "openfan_readings d =
    [fault_reading d FAN_SPEED_PERCENT (Number (of_duty d)),
     fault_reading d FAN_RPM (Integer (f64_to_i64 (fround (rpm d)))),
     fault_reading d TEMPERATURE_CORE (Number (fround (of_temperature_c d * Fin 10) div Fin 10)),
     fault_reading d STATUS_MESSAGE (Text (fw_version (dd_firmware (of_descriptor d))))]"

definition state_readings :: "open_fan \<Rightarrow> string option \<Rightarrow> reading list" where
  "state_readings d cap = (case cap of None \<Rightarrow> openfan_readings d
     | Some i \<Rightarrow> filter (\<lambda>r. rd_capability r = i) (openfan_readings d))"

definition apply_duty :: "f64 \<Rightarrow> open_fan \<Rightarrow> open_fan \<times> f64" where
  "apply_duty requested d = (let clamped = fclamp requested (Fin 0) (Fin 100) in
     (d\<lparr>of_duty := clamped\<rparr>, clamped))"

subsection \<open>Firmware chunks\<close>

text \<open>
  \<open>u8::from_str_radix(text, 16)\<close> on a pair of bytes: two digits, or a plus sign and one digit
  (which the library accepts). A pair that is not UTF-8 on its own is half of a wider
  character; the library's error names the position.
\<close>

definition hex_digit :: "char \<Rightarrow> nat option" where
  "hex_digit c =
    (if 48 \<le> byte c \<and> byte c \<le> 57 then Some (byte c - 48)
     else if 97 \<le> byte c \<and> byte c \<le> 102 then Some (byte c - 87)
     else if 65 \<le> byte c \<and> byte c \<le> 70 then Some (byte c - 55) else None)"

definition utf8_pair_error :: "char \<Rightarrow> char \<Rightarrow> string option" where
  "utf8_pair_error a b =
    (if byte a < 128 then
       if byte b < 128 then None
       else if 194 \<le> byte b \<and> byte b < 245 then Some ''incomplete utf-8 byte sequence from index 1''
       else Some ''invalid utf-8 sequence of 1 bytes from index 1''
     else if 194 \<le> byte a \<and> byte a < 224 \<and> is_continuation b then None
     else if 224 \<le> byte a \<and> byte a < 245 \<and> is_continuation b
       then Some ''incomplete utf-8 byte sequence from index 0''
     else Some ''invalid utf-8 sequence of 1 bytes from index 0'')"

definition hex_pair :: "char \<Rightarrow> char \<Rightarrow> string + byte" where
  "hex_pair a b =
    (case utf8_pair_error a b of Some e \<Rightarrow> Inl e
     | None \<Rightarrow>
       (case (if a = CHR ''+'' then Some 0 else hex_digit a, hex_digit b) of
          (Some hi, Some lo) \<Rightarrow> Inr (of_nat (16 * hi + lo))
        | _ \<Rightarrow> Inl ''invalid digit found in string''))"

fun hex_pairs :: "string \<Rightarrow> string + byte list" where
  "hex_pairs (a # b # cs) = and_then (hex_pair a b) (\<lambda>x.
     and_then (hex_pairs cs) (\<lambda>xs. Inr (x # xs)))"
| "hex_pairs _ = Inr []"

definition decode_hex :: "string \<Rightarrow> string + byte list" where
  "decode_hex hex = (let hex = trim hex in
     if odd (length hex) then Inl ''hex payload has an odd length'' else hex_pairs hex)"

definition reset_upload :: "open_fan \<Rightarrow> open_fan" where
  "reset_upload d = d\<lparr>of_firmware_received := 0, of_firmware_total := 0, of_firmware_crc := 0\<rparr>"

definition absorb_chunk :: "nat \<Rightarrow> byte list \<Rightarrow> open_fan \<Rightarrow> open_fan" where
  "absorb_chunk total_bytes chunk d =
    (let d = (if of_firmware_total d \<noteq> total_bytes
           then d\<lparr>of_firmware_total := total_bytes, of_firmware_crc := 0\<rparr> else d)
     in d\<lparr>of_firmware_crc := crc8_update (of_firmware_crc d) chunk,
          of_firmware_received := wrap_u32 (of_firmware_received d + wrap_u32 (length chunk))\<rparr>)"

definition conclude_chunk :: "nat \<Rightarrow> byte \<Rightarrow> open_fan \<Rightarrow> open_fan \<times> response" where
  "conclude_chunk total_bytes image_crc8 d =
    (if of_firmware_received d < of_firmware_total d then
       (d, Resp_FirmwareChunk (of_firmware_received d) (of_firmware_total d))
     else if of_firmware_crc d \<noteq> image_crc8 then
       (let d = reset_upload d in
        (d, Resp_Error Code_FirmwareRejected [Txt ''image checksum mismatch: computed '',
           Hex2 (unat (of_firmware_crc d)), Txt '', expected '', Hex2 (unat image_crc8)]))
     else
       (let d = d\<lparr>of_descriptor := (of_descriptor d)\<lparr>dd_firmware :=
              (dd_firmware (of_descriptor d))\<lparr>fw_version := ''0.1.0-sim+updated''\<rparr>\<rparr>,
              of_bootloader := False\<rparr>;
            received = of_firmware_received d
        in (reset_upload d, Resp_FirmwareChunk received total_bytes)))"

definition update_firmware ::
    "nat \<Rightarrow> nat \<Rightarrow> string \<Rightarrow> byte \<Rightarrow> open_fan \<Rightarrow> open_fan \<times> response" where
  "update_firmware offset total_bytes data_hex image_crc8 d =
    (if MAX_FIRMWARE_BYTES < total_bytes then
       (d, Resp_Error Code_FirmwareRejected [Txt ''image of '', Dec (int total_bytes),
          Txt '' bytes exceeds the '', Dec (int MAX_FIRMWARE_BYTES), Txt '' byte limit''])
     else case decode_hex data_hex of
       Inl msg \<Rightarrow> (d, Resp_Error Code_FirmwareRejected [Txt msg])
     | Inr chunk \<Rightarrow>
       if offset \<noteq> of_firmware_received d then
         (d, Resp_Error Code_FirmwareRejected [Txt ''expected offset '',
            Dec (int (of_firmware_received d)), Txt '' but got '', Dec (int offset)])
       else conclude_chunk total_bytes image_crc8 (absorb_chunk total_bytes chunk d))"

subsection \<open>The request handler\<close>

definition set_state :: "string \<Rightarrow> val \<Rightarrow> open_fan \<Rightarrow> open_fan \<times> response" where
  "set_state cap value d =
    (case descriptor_capability (of_descriptor d) cap of
       None \<Rightarrow> (d, Resp_Error Code_UnknownCapability
         [Txt ''no capability `'', Txt cap, Txt ''`''])
     | Some descriptor \<Rightarrow>
       (case validate_descriptor descriptor value of
          Inl (code, msg) \<Rightarrow> (d, Resp_Error code msg)
        | Inr numeric \<Rightarrow>
            if cap = FAN_SPEED_PERCENT then
              (let (d, applied) = apply_duty numeric d;
                   note = (if f64_epsilon < \<bar>applied - numeric\<bar>
                     then Some [Txt ''clamped from '', Num numeric, Txt '' to '', Num applied]
                     else None)
               in (d, Resp_StateSet cap (Number applied) note))
            else (d, Resp_Error Code_Unsupported
              [Txt ''`'', Txt cap, Txt ''` is not remotely controllable in this firmware''])))"

fun accepted_in_bootloader :: "request \<Rightarrow> bool" where
  "accepted_in_bootloader (UpdateFirmware _ _ _ _) = True"
| "accepted_in_bootloader (Ping _) = True"
| "accepted_in_bootloader _ = False"

fun handle_request :: "request \<Rightarrow> open_fan \<Rightarrow> open_fan \<times> response" where
  "handle_request GetDeviceInfo d = (d, Resp_DeviceInfo (of_descriptor d))"
| "handle_request GetCapabilities d = (d, Resp_Capabilities (dd_capabilities (of_descriptor d)))"
| "handle_request (GetState cap) d = (d, Resp_State (state_readings d cap))"
| "handle_request (SetState cap value) d = set_state cap value d"
| "handle_request (SubscribeEvent cap min_interval_ms) d =
    (let d = d\<lparr>of_subscriptions := wrap_u32 (of_subscriptions d + 1)\<rparr>;
         interval = max 100 (min 60000 (case min_interval_ms of Some i \<Rightarrow> i | None \<Rightarrow> 1000))
     in (d, Resp_Subscribed (of_subscriptions d) interval))"
| "handle_request (UnsubscribeEvent subscription) d =
    (d\<lparr>of_subscriptions := sat_sub (of_subscriptions d) 1\<rparr>, Resp_Unsubscribed subscription)"
| "handle_request GetFirmwareInfo d = (d, Resp_FirmwareInfo (dd_firmware (of_descriptor d)))"
| "handle_request (EnterBootloader confirm) d =
    (if \<not> confirm then (d, Resp_Bootloader False (Some ''explicit confirmation required''))
     else (d\<lparr>of_bootloader := True\<rparr>,
       Resp_Bootloader True (Some ''mock device entered bootloader mode'')))"
| "handle_request (UpdateFirmware offset total_bytes data_hex image_crc8) d =
    update_firmware offset total_bytes data_hex image_crc8 d"
| "handle_request (Ping nonce) d = (d, Resp_Pong nonce (of_uptime_ms d))"

definition handle :: "request \<Rightarrow> open_fan \<Rightarrow> open_fan \<times> response" where
  "handle req d = (let d = host_spoke d in
     if of_bootloader d \<and> \<not> accepted_in_bootloader req
     then (d, Resp_Error Code_BootloaderMode
       [Txt ''device is in bootloader mode; only UPDATE_FIRMWARE and PING are accepted''])
     else handle_request req d)"

definition readings_to_capabilities :: "reading list \<Rightarrow> string \<rightharpoonup> reading" where
  "readings_to_capabilities rs = foldl (\<lambda>m r. m(rd_capability r \<mapsto> r)) Map.empty rs"

definition capabilities_of :: "device_descriptor \<Rightarrow> capability list" where
  "capabilities_of dd = map capability_of_descriptor (dd_capabilities dd)"

subsection \<open>The controller keeps its duty a percentage\<close>

abbreviation is_duty :: "f64 \<Rightarrow> bool" where
  "is_duty v \<equiv> Fin 0 \<le> v \<and> v \<le> Fin 100"

definition fan_ok :: "open_fan \<Rightarrow> bool" where
  "fan_ok d \<longleftrightarrow> is_duty (of_duty d) \<and> is_duty (of_fallback_duty d)
     \<and> dd_capabilities (of_descriptor d) = openfan_capabilities"

lemma open_fan_new_ok: "fan_ok (open_fan_new n)"
  by (simp add: fan_ok_def open_fan_new_def Let_def openfan_descriptor_def const_simps)

lemma host_spoke_simps [simp]:
  "of_duty (host_spoke d) = of_duty d" "of_fallback_duty (host_spoke d) = of_fallback_duty d"
  "of_descriptor (host_spoke d) = of_descriptor d" "of_bootloader (host_spoke d) = of_bootloader d"
  "of_firmware_received (host_spoke d) = of_firmware_received d"
  "of_firmware_total (host_spoke d) = of_firmware_total d"
  "of_firmware_crc (host_spoke d) = of_firmware_crc d"
  "of_fallback_engaged (host_spoke d) = False" "of_sim_ms (host_spoke d) = of_sim_ms d"
  "of_last_host_contact_ms (host_spoke d) = of_sim_ms d"
  "of_fallback_after_ms (host_spoke d) = of_fallback_after_ms d"
  "host_spoke (host_spoke d) = host_spoke d"
  by (simp_all add: host_spoke_def Let_def)

lemma fan_ok_host_spoke [simp]: "fan_ok (host_spoke d) = fan_ok d"
  by (simp add: fan_ok_def)

lemma apply_duty_result:
  "is_finite x \<Longrightarrow> is_duty (snd (apply_duty x d)) \<and> of_duty (fst (apply_duty x d)) = snd (apply_duty x d)"
  by (simp add: apply_duty_def Let_def fclamp_ge fclamp_le is_finite_not_nan)

lemma set_state_ok:
  assumes "fan_ok d" "set_state cap v d = (d', resp)" shows "fan_ok d'"
proof -
  have f: "is_finite x \<Longrightarrow> fan_ok (fst (apply_duty x d))" for x
    using apply_duty_result [of x d] assms(1) by (simp add: fan_ok_def apply_duty_def Let_def)
  show ?thesis
    using assms validate_descriptor_range f
    by (auto simp: set_state_def Let_def split_def split: option.splits sum.splits if_splits)
qed

lemma reset_upload_simps [simp]:
  "of_duty (reset_upload d) = of_duty d" "of_fallback_duty (reset_upload d) = of_fallback_duty d"
  "of_descriptor (reset_upload d) = of_descriptor d" "of_bootloader (reset_upload d) = of_bootloader d"
  "of_firmware_crc (reset_upload d) = 0" "of_firmware_received (reset_upload d) = 0"
  "of_firmware_total (reset_upload d) = 0"
  by (simp_all add: reset_upload_def)

lemma update_firmware_ok:
  "fan_ok d \<Longrightarrow> update_firmware off tot hex crc d = (d', resp) \<Longrightarrow> fan_ok d'"
  by (auto simp: update_firmware_def conclude_chunk_def absorb_chunk_def Let_def fan_ok_def
      split: sum.splits if_splits)

lemma handle_request_ok:
  "fan_ok d \<Longrightarrow> handle_request req d = (d', resp) \<Longrightarrow> fan_ok d'"
  by (cases req) (auto simp: Let_def fan_ok_def set_state_ok update_firmware_ok split: if_splits
      dest: set_state_ok [unfolded fan_ok_def, rotated] update_firmware_ok [unfolded fan_ok_def, rotated])

lemma handle_ok: "fan_ok d \<Longrightarrow> handle req d = (d', resp) \<Longrightarrow> fan_ok d'"
  using handle_request_ok [of "host_spoke d" req d' resp]
  by (auto simp: handle_def Let_def split: if_splits)

lemma tick_ok: "fan_ok d \<Longrightarrow> fan_ok (tick dt d)"
  by (simp add: tick_def Let_def fan_ok_def notice_silence_def advance_clock_def)

text \<open>Everything that can happen to the controller after it is switched on.\<close>

inductive reachable :: "open_fan \<Rightarrow> bool" where
  power_on: "reachable (open_fan_new n)"
| request: "reachable d \<Longrightarrow> handle req d = (d', resp) \<Longrightarrow> reachable d'"
| time: "reachable d \<Longrightarrow> reachable (tick dt d)"
| configure: "reachable d \<Longrightarrow> \<not> is_nan duty \<Longrightarrow> reachable (set_local_fallback duty after_ms d)"
| fault: "reachable d \<Longrightarrow> reachable (inject_unavailable cap reason d)"

lemma set_local_fallback_ok: "fan_ok d \<Longrightarrow> \<not> is_nan duty \<Longrightarrow> fan_ok (set_local_fallback duty after_ms d)"
  by (simp add: fan_ok_def set_local_fallback_def fclamp_ge fclamp_le)

lemma inject_unavailable_ok: "fan_ok d \<Longrightarrow> fan_ok (inject_unavailable cap reason d)"
  by (simp add: fan_ok_def inject_unavailable_def)

lemma reachable_ok: "reachable d \<Longrightarrow> fan_ok d"
  by (induction rule: reachable.induct)
    (auto intro: open_fan_new_ok handle_ok tick_ok set_local_fallback_ok inject_unavailable_ok)

text \<open>Whatever requests arrive and however time passes, the simulated controller drives its
  fans with a percentage: every reachable state has a duty between 0 and 100.\<close>
theorem duty_always_percent:
  assumes "reachable d" shows "Fin 0 \<le> of_duty d \<and> of_duty d \<le> Fin 100"
  using reachable_ok [OF assms] by (simp add: fan_ok_def)

theorem duty_always_percent_witness:
  "Fin 0 \<le> of_duty (tick 6000 (open_fan_new 4)) \<and> of_duty (tick 6000 (open_fan_new 4)) \<le> Fin 100"
  by (rule duty_always_percent) (rule reachable.time [OF reachable.power_on])

subsection \<open>The local fallback\<close>

lemma tick_clock:
  "of_sim_ms (tick dt d) = sat_add64 (of_sim_ms d) dt"
  "of_last_host_contact_ms (tick dt d) = of_last_host_contact_ms d"
  "of_fallback_duty (tick dt d) = of_fallback_duty d"
  "of_fallback_after_ms (tick dt d) = of_fallback_after_ms d"
  "of_fallback_engaged (tick dt d) \<longleftrightarrow> of_fallback_engaged d
     \<or> of_fallback_after_ms d < sat_add64 (of_sim_ms d) dt - of_last_host_contact_ms d"
  "of_duty (tick dt d) = (if \<not> of_fallback_engaged d
     \<and> of_fallback_after_ms d < sat_add64 (of_sim_ms d) dt - of_last_host_contact_ms d
     then of_fallback_duty d else of_duty d)"
  by (simp_all add: tick_def Let_def notice_silence_def advance_clock_def sat_sub_def)

definition silent_for :: "open_fan \<Rightarrow> nat list \<Rightarrow> nat" where
  "silent_for d dts = of_sim_ms d + sum_list dts - of_last_host_contact_ms d"

lemma ticks_fallback:
  assumes "of_last_host_contact_ms d \<le> of_sim_ms d" "of_sim_ms d + sum_list dts \<le> u64_max"
    "of_fallback_engaged d \<longrightarrow> of_fallback_after_ms d < of_sim_ms d - of_last_host_contact_ms d
       \<and> of_duty d = of_fallback_duty d"
  shows "(of_fallback_engaged (fold tick dts d) \<longleftrightarrow>
       of_fallback_engaged d \<or> dts \<noteq> [] \<and> of_fallback_after_ms d < silent_for d dts)
   \<and> of_duty (fold tick dts d) = (if of_fallback_engaged (fold tick dts d)
       then of_fallback_duty d else of_duty d)"
  using assms
proof (induction dts arbitrary: d)
  case (Cons dt dts)
  have s: "sat_add64 (of_sim_ms d) dt = of_sim_ms d + dt"
    using Cons.prems(2) by (intro sat_add64_exact) simp
  have f: "silent_for (tick dt d) dts = silent_for d (dt # dts)"
    by (simp add: silent_for_def tick_clock s)
  have mono: "of_sim_ms d + dt - of_last_host_contact_ms d \<le> silent_for d (dt # dts)"
    by (simp add: silent_for_def)
  have "silent_for d [dt] = of_sim_ms d + dt - of_last_host_contact_ms d" by (simp add: silent_for_def)
  have IH: "(of_fallback_engaged (fold tick dts (tick dt d)) \<longleftrightarrow>
       of_fallback_engaged (tick dt d) \<or> dts \<noteq> [] \<and> of_fallback_after_ms d < silent_for d (dt # dts))
   \<and> of_duty (fold tick dts (tick dt d)) = (if of_fallback_engaged (fold tick dts (tick dt d))
       then of_fallback_duty d else of_duty (tick dt d))"
    using Cons.IH [of "tick dt d"] Cons.prems s by (auto simp: f tick_clock)
  show ?case
  proof (cases "dts = []")
    case True
    with IH Cons.prems(3) s show ?thesis by (auto simp: tick_clock silent_for_def)
  next
    case False
    with IH Cons.prems(3) s mono show ?thesis by (auto simp: tick_clock)
  qed
qed simp

lemma set_state_clock:
  "set_state cap v d = (d', resp) \<Longrightarrow> of_last_host_contact_ms d' = of_last_host_contact_ms d
     \<and> of_sim_ms d' = of_sim_ms d \<and> of_fallback_engaged d' = of_fallback_engaged d
     \<and> of_fallback_after_ms d' = of_fallback_after_ms d \<and> of_fallback_duty d' = of_fallback_duty d"
  by (auto simp: set_state_def apply_duty_def Let_def split: option.splits sum.splits if_splits)

lemma update_firmware_clock:
  "update_firmware off tot hex crc d = (d', resp) \<Longrightarrow>
     of_last_host_contact_ms d' = of_last_host_contact_ms d
     \<and> of_sim_ms d' = of_sim_ms d \<and> of_fallback_engaged d' = of_fallback_engaged d
     \<and> of_fallback_after_ms d' = of_fallback_after_ms d \<and> of_fallback_duty d' = of_fallback_duty d"
  by (auto simp: update_firmware_def conclude_chunk_def absorb_chunk_def reset_upload_def Let_def
      split: sum.splits if_splits)

lemma handle_request_clock:
  "handle_request req d = (d', resp) \<Longrightarrow> of_last_host_contact_ms d' = of_last_host_contact_ms d
     \<and> of_sim_ms d' = of_sim_ms d \<and> of_fallback_engaged d' = of_fallback_engaged d
     \<and> of_fallback_after_ms d' = of_fallback_after_ms d \<and> of_fallback_duty d' = of_fallback_duty d"
  by (cases req) (auto simp: Let_def split: if_splits dest: set_state_clock update_firmware_clock)

lemma handle_clock:
  "handle req d0 = (d, resp) \<Longrightarrow> of_last_host_contact_ms d = of_sim_ms d \<and> of_sim_ms d = of_sim_ms d0
     \<and> \<not> of_fallback_engaged d \<and> of_fallback_after_ms d = of_fallback_after_ms d0
     \<and> of_fallback_duty d = of_fallback_duty d0"
  by (auto simp: handle_def Let_def split: if_splits dest: handle_request_clock)

text \<open>C35. A silent host cannot leave the fans where they were: after the last request, however the
  time is cut into ticks, the controller is on its own fallback duty exactly when it has heard
  nothing for longer than the configured delay, and on the requested duty until then.\<close>
theorem silent_host_fallback:
  assumes "handle req d0 = (d, resp)" "dts \<noteq> []" "of_sim_ms d0 + sum_list dts \<le> u64_max"
  shows "(of_fallback_engaged (fold tick dts d) \<longleftrightarrow> of_fallback_after_ms d0 < sum_list dts)
    \<and> of_duty (fold tick dts d) =
        (if of_fallback_after_ms d0 < sum_list dts then of_fallback_duty d0 else of_duty d)"
  using ticks_fallback [of d dts] handle_clock [OF assms(1)] assms(2,3) by (auto simp: silent_for_def)

theorem silent_host_fallback_witness:
  "of_duty (fold tick [3000, 2500] (fst (handle (Ping 1) (open_fan_new 4)))) = Fin 70"
  using silent_host_fallback [OF prod.collapse [symmetric], of "[3000, 2500]" "open_fan_new 4" "Ping 1"]
  by (simp add: open_fan_new_def Let_def const_simps int_simps)

subsection \<open>Requests\<close>

lemma fan_speed_capability:
  "dd_capabilities dd = openfan_capabilities \<Longrightarrow> descriptor_capability dd FAN_SPEED_PERCENT =
     Some (descriptor_describe ''PWM duty applied to every channel of the group''
       (descriptor_actuator FAN_SPEED_PERCENT ''Fan Speed'' Percent (Fin 0) (Fin 100)))"
  by (simp add: descriptor_capability_def openfan_capabilities_def descriptor_describe_def
      descriptor_actuator_def)

lemma fan_speed_validate:
  "validate_descriptor (descriptor_describe s (descriptor_actuator i n u (Fin 0) (Fin 100))) v =
    (case as_f64 v of None \<Rightarrow> Inl (Code_InvalidValue,
        [Txt ''expected a number, got `'', Txt (val_to_string v), Txt ''`''])
     | Some x \<Rightarrow> if \<not> is_finite x then Inl (Code_InvalidValue, [Txt ''value is not finite''])
       else if x < Fin 0 \<or> Fin 100 < x
       then Inl (Code_InvalidValue, [Num x, Txt '' is outside '', Num (Fin 0), Txt ''..='', Num (Fin 100)])
       else Inr x)"
  by (simp add: validate_descriptor_def descriptor_describe_def descriptor_actuator_def Let_def
      split: option.split)

lemma duty_cases:
  "is_duty x \<longleftrightarrow> is_finite x \<and> \<not> (x < Fin 0 \<or> Fin 100 < x)"
  by (cases x) auto

lemma diff_self_small: "\<not> f64_epsilon < \<bar>x - x\<bar>" for x :: f64
  by (cases x) (simp_all add: f64_arith f64_epsilon_def f64_ord not_less less_imp_le)

text \<open>A duty request is all or nothing: outside bootloader mode a number from 0 to 100 is
  applied and acknowledged unchanged, and anything else (out of range, not a number, text)
  is answered with an error and leaves the duty as it was.\<close>
theorem set_duty_exact:
  assumes "fan_ok d" "\<not> of_bootloader d" "handle (SetState FAN_SPEED_PERCENT v) d = (d', resp)"
  shows "(case as_f64 v of
      Some x \<Rightarrow> if Fin 0 \<le> x \<and> x \<le> Fin 100
        then of_duty d' = x \<and> resp = Resp_StateSet FAN_SPEED_PERCENT (Number x) None
        else of_duty d' = of_duty d \<and> response_is_error resp
    | None \<Rightarrow> of_duty d' = of_duty d \<and> response_is_error resp)"
proof -
  have cap: "dd_capabilities (of_descriptor d) = openfan_capabilities"
    using assms(1) by (simp add: fan_ok_def)
  have h: "set_state FAN_SPEED_PERCENT v (host_spoke d) = (d', resp)"
    using assms(2,3) by (simp add: handle_def Let_def)
  note rules = set_state_def host_spoke_simps(3) fan_speed_capability [OF cap] fan_speed_validate
    option.case sum.case prod.case
  show ?thesis
  proof (cases "as_f64 v")
    case None
    then show ?thesis using h unfolding rules by auto
  next
    case (Some x)
    show ?thesis
    proof (cases "is_duty x")
      case True
      then have "\<not> \<not> is_finite x" "\<not> (x < Fin 0 \<or> Fin 100 < x)" using duty_cases by blast+
      then have "(let (d, applied) = apply_duty x (host_spoke d);
          note = (if f64_epsilon < \<bar>applied - x\<bar>
            then Some [Txt ''clamped from '', Num x, Txt '' to '', Num applied] else None)
          in (d, Resp_StateSet FAN_SPEED_PERCENT (Number applied) note)) = (d', resp)"
        using h unfolding rules Some by (simp only: if_False if_True sum.case simp_thms)
      then show ?thesis using Some True fclamp_id [of "Fin 0" x "Fin 100"]
        by (auto simp: apply_duty_def diff_self_small)
    next
      case False
      then show ?thesis using h duty_cases [of x] unfolding rules Some by (auto split: if_splits)
    qed
  qed
qed

theorem set_duty_exact_witness:
  "of_duty (fst (handle (SetState FAN_SPEED_PERCENT (Integer 55)) (open_fan_new 4))) = Fin 55"
  using set_duty_exact [OF open_fan_new_ok _ prod.collapse [symmetric], of 4 "Integer 55"]
  by (simp add: open_fan_new_def Let_def f64_of_int_def rnd_exact is_dbl_numeral)

text \<open>A request that is not mutating (identify, read, ping) changes nothing but the record of
  host contact, and in bootloader mode everything except a firmware chunk and a ping is
  refused in the same way.\<close>
theorem reading_changes_nothing:
  assumes "\<not> is_mutating req \<or> (of_bootloader d \<and> \<not> accepted_in_bootloader req)"
  shows "fst (handle req d) = host_spoke d
    \<and> (of_bootloader d \<and> \<not> accepted_in_bootloader req \<longrightarrow>
        (\<exists>msg. snd (handle req d) = Resp_Error Code_BootloaderMode msg))"
  using assms by (cases req) (auto simp: handle_def Let_def)

theorem reading_changes_nothing_witness:
  "fst (handle GetCapabilities (open_fan_new 4)) = host_spoke (open_fan_new 4)"
  using reading_changes_nothing [of GetCapabilities "open_fan_new 4"] by simp

text \<open>Only the fan's own duty can be written: a write to any other capability is answered with
  an error and changes nothing but the record of host contact.\<close>
lemma other_capabilities_refused:
  assumes "cap \<noteq> FAN_SPEED_PERCENT"
  shows "fst (handle (SetState cap v) d) = host_spoke d
    \<and> response_is_error (snd (handle (SetState cap v) d))"
  using assms
  by (auto simp: handle_def set_state_def Let_def split: option.splits sum.splits)

subsection \<open>Firmware upload\<close>

text \<open>The host's side of an upload: a chunk's bytes in hexadecimal.\<close>

definition hex_char :: "nat \<Rightarrow> char" where
  "hex_char n = (if n < 10 then char_of (48 + n) else char_of (87 + n))"

definition to_hex :: "byte list \<Rightarrow> string" where
  "to_hex bs = concat (map (\<lambda>b. [hex_char (unat b div 16), hex_char (unat b mod 16)]) bs)"

lemma byte_hex_char: "n < 16 \<Longrightarrow> byte (hex_char n) = (if n < 10 then 48 + n else 87 + n)"
  by (simp add: hex_char_def byte_def)

lemma byte_hex_char_bounds: "n < 16 \<Longrightarrow> 48 \<le> byte (hex_char n) \<and> byte (hex_char n) < 103
    \<and> (byte (hex_char n) \<le> 57 \<or> 97 \<le> byte (hex_char n))"
  by (simp add: byte_hex_char)

lemma hex_digit_hex_char: "n < 16 \<Longrightarrow> hex_digit (hex_char n) = Some n"
  by (simp add: hex_digit_def byte_hex_char)

lemma hex_char_plus: "n < 16 \<Longrightarrow> hex_char n \<noteq> CHR ''+''"
proof
  assume "n < 16" "hex_char n = CHR ''+''"
  then have "byte (hex_char n) = byte (CHR ''+'')" by simp
  with byte_hex_char [OF \<open>n < 16\<close>] show False by (simp add: byte_def split: if_splits)
qed

lemma unat_byte: "unat b < 256" for b :: byte
  using unsigned_less [of b, where ?'a = nat] by simp

lemma hex_pair_byte: "hex_pair (hex_char (unat b div 16)) (hex_char (unat b mod 16)) = Inr b"
proof -
  have n: "unat b div 16 < 16" "unat b mod 16 < 16" using unat_byte [of b] by auto
  have "utf8_pair_error (hex_char (unat b div 16)) (hex_char (unat b mod 16)) = None"
    using byte_hex_char_bounds [OF n(1)] byte_hex_char_bounds [OF n(2)] by (auto simp: utf8_pair_error_def)
  then show ?thesis
    using n hex_digit_hex_char [OF n(1)] hex_digit_hex_char [OF n(2)] hex_char_plus [OF n(1)]
    by (simp add: hex_pair_def)
qed

lemma hex_pairs_to_hex: "hex_pairs (to_hex bs) = Inr bs"
  by (induction bs) (simp_all add: to_hex_def hex_pair_byte)

lemma plain_to_hex: "plain (to_hex bs)"
proof -
  have "32 < byte (hex_char n) \<and> byte (hex_char n) < 128 \<and> \<not> is_ascii_upper (hex_char n)"
    if "n < 16" for n
    using byte_hex_char_bounds [OF that] by (auto simp: is_ascii_upper_def)
  moreover have "unat b div 16 < 16 \<and> unat b mod 16 < 16" for b :: byte
    using unat_byte [of b] by auto
  ultimately show ?thesis by (induction bs) (auto simp: plain_def to_hex_def)
qed

lemma even_to_hex: "even (length (to_hex bs))"
  by (induction bs) (simp_all add: to_hex_def)

lemma decode_hex_to_hex: "decode_hex (to_hex bs) = Inr bs"
  by (simp add: decode_hex_def plain_trim plain_to_hex even_to_hex hex_pairs_to_hex Let_def)


fun requests :: "request list \<Rightarrow> open_fan \<Rightarrow> open_fan \<times> response list" where
  "requests [] d = (d, [])"
| "requests (req # reqs) d = (let (d, r) = handle req d; (d, rs) = requests reqs d in (d, r # rs))"

fun upload :: "nat \<Rightarrow> nat \<Rightarrow> byte \<Rightarrow> byte list list \<Rightarrow> request list" where
  "upload off size_total crc [] = []"
| "upload off size_total crc (c # cs) =
    UpdateFirmware off size_total (to_hex c) crc # upload (off + length c) size_total crc cs"

definition upload_idle :: "open_fan \<Rightarrow> bool" where
  "upload_idle d \<longleftrightarrow> of_firmware_received d = 0 \<and> of_firmware_total d = 0 \<and> of_firmware_crc d = 0"

definition uploading :: "open_fan \<Rightarrow> byte list \<Rightarrow> nat \<Rightarrow> bool" where
  "uploading d received size_total \<longleftrightarrow> of_firmware_received d = length received
     \<and> (if of_firmware_total d = size_total then of_firmware_crc d = crc8 received else received = [])"

text \<open>The device with the new image, and nothing else changed.\<close>

definition flashed :: "open_fan \<Rightarrow> open_fan" where
  "flashed d = d\<lparr>of_descriptor := (of_descriptor d)\<lparr>dd_firmware :=
     (dd_firmware (of_descriptor d))\<lparr>fw_version := ''0.1.0-sim+updated''\<rparr>\<rparr>, of_bootloader := False\<rparr>"

definition updated :: "open_fan \<Rightarrow> bool" where
  "updated d \<longleftrightarrow> fw_version (dd_firmware (of_descriptor d)) = ''0.1.0-sim+updated'' \<and> \<not> of_bootloader d"

lemma reset_host_spoke: "host_spoke (reset_upload d) = reset_upload (host_spoke d)"
  "reset_upload (reset_upload d) = reset_upload d"
  by (simp_all add: host_spoke_def reset_upload_def Let_def)

lemma reset_flashed: "reset_upload (flashed d) = flashed (reset_upload d)"
  by (simp add: reset_upload_def flashed_def)

lemma crc8_append: "crc8_update (crc8 xs) ys = crc8 (xs @ ys)"
  by (simp add: crc8_def crc8_update_append)

lemma absorb_chunk_result:
  assumes "uploading d received tot" "length (received @ c) < 2 ^ 32"
  shows "of_firmware_crc (absorb_chunk tot c d) = crc8 (received @ c)
    \<and> of_firmware_received (absorb_chunk tot c d) = length (received @ c)
    \<and> of_firmware_total (absorb_chunk tot c d) = tot
    \<and> reset_upload (absorb_chunk tot c d) = reset_upload d"
proof (cases "of_firmware_total d = tot")
  case True
  then show ?thesis using assms by (simp add: uploading_def absorb_chunk_def crc8_append wrap_u32_def reset_upload_def)
next
  case False
  then have "received = []" using assms(1) by (simp add: uploading_def)
  then show ?thesis using False assms by (simp add: uploading_def absorb_chunk_def crc8_def wrap_u32_def reset_upload_def)
qed

text \<open>One chunk: progress, success or rejection, by the bytes received so far.\<close>

lemma update_firmware_chunk:
  assumes "uploading d received tot" "tot \<le> MAX_FIRMWARE_BYTES" "length (received @ c) < 2 ^ 32"
    "update_firmware (length received) tot (to_hex c) crc d = (d', resp)"
  shows "if length (received @ c) < tot
      then uploading d' (received @ c) tot \<and> reset_upload d' = reset_upload d
        \<and> resp = Resp_FirmwareChunk (length (received @ c)) tot
      else if crc8 (received @ c) = crc
      then d' = flashed (reset_upload d) \<and> resp = Resp_FirmwareChunk (length (received @ c)) tot
      else d' = reset_upload d \<and> (\<exists>msg. resp = Resp_Error Code_FirmwareRejected msg)"
proof -
  have "of_firmware_received d = length received" using assms(1) by (simp add: uploading_def)
  then have "conclude_chunk tot crc (absorb_chunk tot c d) = (d', resp)"
    using assms(2,4) by (simp add: update_firmware_def decode_hex_to_hex)
  moreover have "reset_upload (x\<lparr>of_descriptor := (of_descriptor x)\<lparr>dd_firmware :=
      (dd_firmware (of_descriptor x))\<lparr>fw_version := ''0.1.0-sim+updated''\<rparr>\<rparr>, of_bootloader := False\<rparr>)
      = flashed (reset_upload x)" for x
    by (simp add: reset_upload_def flashed_def)
  ultimately show ?thesis
    using absorb_chunk_result [OF assms(1,3)]
    by (auto simp: conclude_chunk_def uploading_def Let_def split: if_splits)
qed

lemma uploading_host_spoke: "uploading (host_spoke d) r t = uploading d r t"
  by (simp add: uploading_def)

lemma handle_update: "handle (UpdateFirmware off tot hex crc) d = update_firmware off tot hex crc (host_spoke d)"
  by (simp add: handle_def Let_def)

definition upload_outcome :: "open_fan \<Rightarrow> open_fan \<Rightarrow> byte \<Rightarrow> byte list \<Rightarrow> response \<Rightarrow> bool" where
  "upload_outcome d d' crc img resp \<longleftrightarrow>
    (if crc8 img = crc then d' = flashed (reset_upload (host_spoke d)) \<and> resp = Resp_FirmwareChunk (length img) (length img)
     else d' = reset_upload (host_spoke d) \<and> (\<exists>msg. resp = Resp_Error Code_FirmwareRejected msg))"

lemma upload_run:
  assumes "uploading d received tot" "tot = length (received @ concat cs)"
    "tot \<le> MAX_FIRMWARE_BYTES" "cs \<noteq> []" "[] \<notin> set cs"
    "requests (upload (length received) tot crc cs) d = (d', rs)"
  shows "upload_outcome d d' crc (received @ concat cs) (last rs)"
  using assms
proof (induction cs arbitrary: received d rs)
  case (Cons c cs)
  obtain d1 r rs1 where s: "update_firmware (length received) tot (to_hex c) crc (host_spoke d) = (d1, r)"
    "requests (upload (length (received @ c)) tot crc cs) d1 = (d', rs1)" "rs = r # rs1"
    using Cons.prems(6) by (auto simp: handle_update split: prod.splits)
  have u: "uploading (host_spoke d) received tot" using Cons.prems(1) by (simp add: uploading_host_spoke)
  have len: "length (received @ c) < 2 ^ 32"
    using Cons.prems(2,3) by (simp add: MAX_FIRMWARE_BYTES_def)
  note step = update_firmware_chunk [OF u Cons.prems(3) len s(1)]
  show ?case
  proof (cases "cs = []")
    case True
    with s Cons.prems(2) step show ?thesis by (auto simp: upload_outcome_def split: if_splits)
  next
    case False
    then have "0 < length (concat cs)" using Cons.prems(5) by (cases cs) auto
    then have "length (received @ c) < tot" using Cons.prems(2) by simp
    with step have n: "uploading d1 (received @ c) tot" "reset_upload d1 = reset_upload (host_spoke d)" by auto
    then have "reset_upload (host_spoke d1) = reset_upload (host_spoke d)"
      using reset_host_spoke(1) [of d1] reset_host_spoke(1) [of "host_spoke d"] by simp
    with Cons.IH [OF n(1) _ Cons.prems(3) False _ s(2)] Cons.prems(2,5)
    have "upload_outcome d d' crc (received @ c @ concat cs) (last rs1)"
      by (auto simp: upload_outcome_def)
    moreover have "rs1 \<noteq> []" using s(2) False by (cases cs) (auto simp: handle_update split: prod.splits)
    ultimately show ?thesis using s(3) by simp
  qed
qed simp

text \<open>C36. A firmware image of at most 1 MiB, uploaded to a device with no upload in progress, in non-empty
  chunks and in order, takes effect exactly when the announced CRC-8 is the image's: then the controller
  runs the new version and has left the bootloader; otherwise the image is rejected. Nothing else about
  the device changes, and when the image is rejected nothing at all, beside the record that the host has
  spoken; either way it is ready for the next upload.\<close>
theorem firmware_upload:
  assumes "upload_idle d" "length (concat cs) \<le> MAX_FIRMWARE_BYTES" "cs \<noteq> []" "[] \<notin> set cs"
    and "requests (upload 0 (length (concat cs)) crc cs) d = (d', rs)"
  shows "upload_idle d' \<and> (if crc8 (concat cs) = crc
      then d' = flashed (host_spoke d) \<and> last rs = Resp_FirmwareChunk (length (concat cs)) (length (concat cs))
      else d' = host_spoke d \<and> (\<exists>msg. last rs = Resp_Error Code_FirmwareRejected msg))"
proof -
  have "uploading d [] (length (concat cs))"
    using assms(1) by (simp add: uploading_def upload_idle_def crc8_def crc8_update_def)
  from upload_run [OF this _ assms(2,3,4)] assms(5)
  have o: "upload_outcome d d' crc (concat cs) (last rs)" by simp
  have "reset_upload d = d" using assms(1) by (cases d) (simp add: reset_upload_def upload_idle_def)
  then have "reset_upload (host_spoke d) = host_spoke d" using reset_host_spoke(1) [of d] by simp
  moreover have "upload_idle (host_spoke d)" using assms(1) by (simp add: upload_idle_def)
  moreover have "upload_idle (flashed x) = upload_idle x" for x by (simp add: upload_idle_def flashed_def)
  ultimately show ?thesis using o by (auto simp: upload_outcome_def)
qed

theorem firmware_upload_witness:
  "fst (requests (upload 0 3 (crc8 [1, 2, 3]) [[1, 2], [3]]) (open_fan_new 4)) = flashed (host_spoke (open_fan_new 4))"
proof -
  have "upload_idle (open_fan_new 4)" by (simp add: upload_idle_def open_fan_new_def Let_def)
  from firmware_upload [OF this _ _ _ prod.collapse [symmetric], of "[[1, 2], [3]]" "crc8 [1, 2, 3]"]
  show ?thesis by (simp add: MAX_FIRMWARE_BYTES_def numeral_3_eq_3 numeral_2_eq_2)
qed

subsection \<open>Two defects of the upload\<close>

text \<open>A rejected image is always reported as having the computed checksum 00: the handler
  clears the running CRC before it formats the message.\<close>
theorem mismatch_reports_zero:
  assumes "handle (UpdateFirmware off tot hex crc) d = (d', Resp_Error Code_FirmwareRejected msg)"
    and "tot \<le> MAX_FIRMWARE_BYTES" "decode_hex hex = Inr chunk" "off = of_firmware_received d"
  shows "msg = [Txt ''image checksum mismatch: computed '', Hex2 0, Txt '', expected '', Hex2 (unat crc)]"
  using assms by (auto simp: handle_update update_firmware_def conclude_chunk_def Let_def split: if_splits)

theorem mismatch_reports_zero_witness:
  "snd (handle (UpdateFirmware 0 1 (to_hex [7]) 0) (open_fan_new 4)) = Resp_Error Code_FirmwareRejected
     [Txt ''image checksum mismatch: computed '', Hex2 0, Txt '', expected '', Hex2 0]"
proof -
  have u: "uploading (open_fan_new 4) [] 1"
    by (simp add: uploading_def open_fan_new_def Let_def)
  have c: "crc8 [7] \<noteq> 0" by code_simp
  obtain d' r where h: "handle (UpdateFirmware 0 1 (to_hex [7]) 0) (open_fan_new 4) = (d', r)" by fastforce
  have "\<exists>msg. r = Resp_Error Code_FirmwareRejected msg"
    using update_firmware_chunk [of "host_spoke (open_fan_new 4)" "[]" 1 "[7]" 0 d' r] h u c
    by (simp add: uploading_host_spoke handle_update MAX_FIRMWARE_BYTES_def)
  then obtain msg where r: "r = Resp_Error Code_FirmwareRejected msg" by blast
  have "(1 :: nat) \<le> MAX_FIRMWARE_BYTES" "0 = of_firmware_received (open_fan_new 4)"
    by (simp_all add: MAX_FIRMWARE_BYTES_def open_fan_new_def Let_def)
  from mismatch_reports_zero [OF h [unfolded r] this(1) decode_hex_to_hex this(2)] h r show ?thesis by simp
qed

text \<open>Announcing another image size in the middle of an upload restarts the checksum but not
  the byte count, so an image whose first bytes were never checked takes effect: the CRC of
  the last chunk alone is enough.\<close>
theorem resized_upload_checks_tail_only:
  assumes "of_firmware_received d = length received" "of_firmware_total d \<noteq> length (received @ c)"
    and "length (received @ c) \<le> MAX_FIRMWARE_BYTES"
  shows "updated (fst (handle
    (UpdateFirmware (length received) (length (received @ c)) (to_hex c) (crc8 c)) d))"
  using assms
  by (simp add: handle_update update_firmware_def decode_hex_to_hex absorb_chunk_def conclude_chunk_def
      updated_def Let_def crc8_def wrap_u32_def MAX_FIRMWARE_BYTES_def)

theorem resized_upload_checks_tail_only_witness:
  "updated (fst (handle (UpdateFirmware 2 4 (to_hex [3, 4]) (crc8 [3, 4]))
     (fst (handle (UpdateFirmware 0 3 (to_hex [1, 2]) 0) (open_fan_new 4)))))"
proof -
  let ?d = "fst (handle (UpdateFirmware 0 3 (to_hex [1, 2]) 0) (open_fan_new 4))"
  have "uploading (host_spoke (open_fan_new 4)) [] 3"
    by (simp add: uploading_def open_fan_new_def Let_def host_spoke_def)
  from update_firmware_chunk [OF this _ _ prod.collapse [symmetric], of "[1, 2]" 0]
  have "of_firmware_received ?d = 2" "of_firmware_total ?d = 3"
    by (simp_all add: handle_update MAX_FIRMWARE_BYTES_def uploading_def split: if_splits)
  moreover have l: "length [1, 2 :: byte] = 2" "length ([1, 2 :: byte] @ [3, 4]) = 4" by simp_all
  ultimately show ?thesis
    using resized_upload_checks_tail_only [of ?d "[1, 2]" "[3, 4]", unfolded l]
    by (simp add: MAX_FIRMWARE_BYTES_def)
qed


theorem to_device_correct_witness:
  "\<exists>d. to_device (openfan_descriptor 4) ''open-protocol'' 0 = Inr d
     \<and> map descriptor_of_capability (dev_capabilities d) = openfan_capabilities"
proof -
  have c: "map capability_of_descriptor openfan_capabilities \<noteq> []" by (simp add: openfan_capabilities_def)
  have v: "validate_caps d [] (map capability_of_descriptor openfan_capabilities) = Inr ()" for d
    by (simp add: openfan_capabilities_def capability_of_descriptor_def descriptor_describe_def
        descriptor_actuator_def descriptor_sensor_def const_simps)
  obtain d where d: "to_device (openfan_descriptor 4) ''open-protocol'' 0 = Inr d"
    using c v by (auto simp: to_device_def openfan_descriptor_def device_descriptor_new_def Let_def
      firmware_compatible_def is_compatible_def validate_device_def new_device_def with_metadata_def
      set_metadata_def split: if_splits)
  from to_device_correct [OF d] d show ?thesis
    by (auto simp: openfan_descriptor_def)
qed

end
