(* ===== verification/Transport.thy ===== *)
theory Transport
  imports OpenFan
begin

section \<open>Transports\<close>

text \<open>
  \<open>crates/ohm-protocol/src/transport.rs\<close>: the in-process loopback, the byte stream, one
  request/response exchange (\<open>DeviceTransport::call\<close>) and the handshake. The JSON codec is a
  parameter (serde is not part of the repository): a record of the four functions the code
  calls. A theorem that needs a message to survive the codec says so for that message. The
  loopback is generic in the device, as in the source: its handler is an argument.
\<close>

record codec =
  json_of_request :: "request \<Rightarrow> byte list result"
  request_of_json :: "byte list \<Rightarrow> request result"
  json_of_response :: "response \<Rightarrow> byte list result"
  response_of_json :: "byte list \<Rightarrow> response result"

definition encode_request :: "codec \<Rightarrow> request \<Rightarrow> byte list result" where
  "encode_request c req = and_then (json_of_request c req) encode"

definition encode_response :: "codec \<Rightarrow> response \<Rightarrow> byte list result" where
  "encode_response c resp = and_then (json_of_response c resp) encode"

subsection \<open>The loopback\<close>

record 'd loopback =
  lb_device :: 'd
  lb_decoder :: decoder
  lb_pending :: "byte list list"
  lb_calls :: "64 word"

definition loopback_new :: "'d \<Rightarrow> 'd loopback" where
  "loopback_new d = \<lparr>lb_device = d, lb_decoder = decoder_new, lb_pending = [], lb_calls = 0\<rparr>"

type_synonym 'd handler = "request \<Rightarrow> 'd \<Rightarrow> 'd \<times> response"

text \<open>
  The body of the loop over the decoded payloads: decode, handle, count, encode. An encoding
  failure leaves the loop with what was done so far.
\<close>

fun serve :: "codec \<Rightarrow> 'd handler \<Rightarrow> (ohm_error \<Rightarrow> message) \<Rightarrow> byte list list \<Rightarrow> 'd loopback
    \<Rightarrow> 'd loopback \<times> unit result" where
  "serve c hnd show_err [] lb = (lb, Inr ())"
| "serve c hnd show_err (p # ps) lb =
    (let (d, resp) = (case request_of_json c p of
           Inr req \<Rightarrow> hnd req (lb_device lb)
         | Inl err \<Rightarrow> (lb_device lb,
             Resp_Error Code_Framing (Txt ''could not parse request: '' # show_err err)));
         lb = lb\<lparr>lb_device := d, lb_calls := lb_calls lb + 1\<rparr>
     in case encode_response c resp of
          Inl e \<Rightarrow> (lb, Inl e)
        | Inr frame \<Rightarrow> serve c hnd show_err ps (lb\<lparr>lb_pending := lb_pending lb @ [frame]\<rparr>))"

definition loopback_send :: "codec \<Rightarrow> 'd handler \<Rightarrow> (ohm_error \<Rightarrow> message) \<Rightarrow> byte list \<Rightarrow> 'd loopback
    \<Rightarrow> 'd loopback \<times> unit result" where
  "loopback_send c hnd show_err frame lb =
    (let (dec, payloads) = push (lb_decoder lb) frame; lb = lb\<lparr>lb_decoder := dec\<rparr> in
     if payloads = [] then
       (lb, Inl (ProtocolError [Txt ''the frame could not be decoded (checksum or length)'']))
     else serve c hnd show_err payloads lb)"

definition loopback_receive :: "'d loopback \<Rightarrow> 'd loopback \<times> byte list option result" where
  "loopback_receive lb =
    (case lb_pending lb of
       [] \<Rightarrow> (lb, Inr None)
     | frame # rest \<Rightarrow>
       (let (dec, payloads) = push (lb_decoder lb) frame;
            lb = lb\<lparr>lb_pending := rest, lb_decoder := dec\<rparr>
        in case payloads of
             p # _ \<Rightarrow> (lb, Inr (Some p))
           | [] \<Rightarrow> (lb, Inl (ProtocolError
               [Txt ''the response frame was corrupt (a bug in this process)'']))))"

subsection \<open>One exchange\<close>

text \<open>\<open>DeviceTransport::call\<close>, over any transport's send and receive.\<close>

definition call ::
    "codec \<Rightarrow> (byte list \<Rightarrow> 't \<Rightarrow> 't \<times> unit result) \<Rightarrow> ('t \<Rightarrow> 't \<times> byte list option result)
      \<Rightarrow> message \<Rightarrow> request \<Rightarrow> 't \<Rightarrow> 't \<times> response result" where
  "call c send receive describe req t =
    (case encode_request c req of Inl e \<Rightarrow> (t, Inl e)
     | Inr frame \<Rightarrow>
       (case send frame t of (t, Inl e) \<Rightarrow> (t, Inl e)
        | (t, Inr _) \<Rightarrow>
          (case receive t of (t, Inl e) \<Rightarrow> (t, Inl e)
           | (t, Inr (Some payload)) \<Rightarrow> (t, response_of_json c payload)
           | (t, Inr None) \<Rightarrow> (t, Inl (ProtocolError
               (describe @ [Txt '' did not answer '', Txt (request_opcode req)]))))))"

definition handshake_result :: "response \<Rightarrow> device_descriptor result" where
  "handshake_result resp =
    (case resp of
       Resp_DeviceInfo dd \<Rightarrow>
         if \<not> firmware_compatible (dd_firmware dd) then Inl (ProtocolError
           [Txt (dd_product dd), Txt '' speaks protocol '',
            Txt (firmware_protocol_version (dd_firmware dd)), Txt '', this host implements '',
            Txt protocol_version])
         else Inr dd
     | Resp_Error code msg \<Rightarrow> Inl (ProtocolError
         ([Txt ''device refused the handshake ('', Txt (protocol_code_str code), Txt ''): ''] @ msg))
     | other \<Rightarrow> Inl (ProtocolError
         [Txt ''unexpected answer to GET_DEVICE_INFO: '', Txt (response_opcode other)]))"

definition handshake ::
    "codec \<Rightarrow> (byte list \<Rightarrow> 't \<Rightarrow> 't \<times> unit result) \<Rightarrow> ('t \<Rightarrow> 't \<times> byte list option result)
      \<Rightarrow> message \<Rightarrow> 't \<Rightarrow> 't \<times> device_descriptor result" where
  "handshake c send receive describe t =
    (let (t, resp) = call c send receive describe GetDeviceInfo t in
     (t, and_then resp handshake_result))"

definition error_reason :: "protocol_error_code \<Rightarrow> unavailable_reason" where
  "error_reason code = code_reason code"

subsection \<open>The byte stream\<close>

text \<open>
  The reader and writer are the operating system's: a world \<open>'w\<close> with a \<open>write_all\<close>, a \<open>flush\<close>
  and a \<open>read\<close> of at most 1024 bytes, each of which may fail with a text.
\<close>

record ('w, 'e) stream_io =
  io_write_all :: "byte list \<Rightarrow> 'w \<Rightarrow> 'w \<times> ('e + unit)"
  io_flush :: "'w \<Rightarrow> 'w \<times> ('e + unit)"
  io_read :: "nat \<Rightarrow> 'w \<Rightarrow> 'w \<times> ('e + byte list)"
  io_show :: "'e \<Rightarrow> message"

record 'w stream_transport =
  st_world :: 'w
  st_decoder :: decoder
  st_ready :: "byte list list"
  st_label :: string

definition stream_new :: "'w \<Rightarrow> string \<Rightarrow> 'w stream_transport" where
  "stream_new w label =
    \<lparr>st_world = w, st_decoder = decoder_new, st_ready = [], st_label = label\<rparr>"

definition stream_send :: "('w, 'e) stream_io \<Rightarrow> byte list \<Rightarrow> 'w stream_transport
    \<Rightarrow> 'w stream_transport \<times> unit result" where
  "stream_send io frame t =
    (case io_write_all io frame (st_world t) of
       (w, Inl e) \<Rightarrow> (t\<lparr>st_world := w\<rparr>, Inl (ProtocolError
         ([Txt ''write failed on '', Txt (st_label t), Txt '': ''] @ io_show io e)))
     | (w, Inr _) \<Rightarrow>
       (case io_flush io w of
          (w, Inl e) \<Rightarrow> (t\<lparr>st_world := w\<rparr>, Inl (ProtocolError
            ([Txt ''flush failed on '', Txt (st_label t), Txt '': ''] @ io_show io e)))
        | (w, Inr _) \<Rightarrow> (t\<lparr>st_world := w\<rparr>, Inr ())))"

definition stream_receive :: "('w, 'e) stream_io \<Rightarrow> 'w stream_transport
    \<Rightarrow> 'w stream_transport \<times> byte list option result" where
  "stream_receive io t =
    (case st_ready t of
       p # rest \<Rightarrow> (t\<lparr>st_ready := rest\<rparr>, Inr (Some p))
     | [] \<Rightarrow>
       (case io_read io 1024 (st_world t) of
          (w, Inl e) \<Rightarrow> (t\<lparr>st_world := w\<rparr>, Inl (ProtocolError
            ([Txt ''read failed on '', Txt (st_label t), Txt '': ''] @ io_show io e)))
        | (w, Inr bytes) \<Rightarrow>
            if bytes = [] then (t\<lparr>st_world := w\<rparr>, Inr None)
            else
              (let (dec, payloads) = push (st_decoder t) bytes;
                   t = t\<lparr>st_world := w, st_decoder := dec\<rparr>
               in case payloads of
                    [] \<Rightarrow> (t, Inr None)
                  | p # rest \<Rightarrow> (t\<lparr>st_ready := rest\<rparr>, Inr (Some p)))))"

subsection \<open>Exchanges over the loopback\<close>

text \<open>A message that survives the codec within the size limit.\<close>

definition request_travels :: "codec \<Rightarrow> request \<Rightarrow> bool" where
  "request_travels c req \<longleftrightarrow> (\<exists>j. json_of_request c req = Inr j \<and> request_of_json c j = Inr req
     \<and> length j \<le> MAX_PAYLOAD)"

definition response_travels :: "codec \<Rightarrow> response \<Rightarrow> bool" where
  "response_travels c resp \<longleftrightarrow> (\<exists>j. json_of_response c resp = Inr j \<and> response_of_json c j = Inr resp
     \<and> length j \<le> MAX_PAYLOAD)"

definition loopback_idle :: "'d loopback \<Rightarrow> bool" where
  "loopback_idle lb \<longleftrightarrow> lb_pending lb = [] \<and> dc_buffer (lb_decoder lb) = []"

lemma loopback_call:
  assumes "loopback_idle lb" "request_travels c req" "hnd req (lb_device lb) = (d', resp)"
    "response_travels c resp"
  shows "call c (loopback_send c hnd se) loopback_receive desc req lb =
    (lb\<lparr>lb_device := d', lb_calls := lb_calls lb + 1\<rparr>, Inr resp)"
proof -
  obtain j where j: "json_of_request c req = Inr j" "request_of_json c j = Inr req" "length j \<le> MAX_PAYLOAD"
    using assms(2) by (auto simp: request_travels_def)
  obtain k where k: "json_of_response c resp = Inr k" "response_of_json c k = Inr resp" "length k \<le> MAX_PAYLOAD"
    using assms(4) by (auto simp: response_travels_def)
  have ej: "encode j = Inr (frame_bytes j)" and ek: "encode k = Inr (frame_bytes k)"
    using j k by (auto simp: encode_ok)
  have idle: "lb_pending lb = []" "dc_buffer (lb_decoder lb) = []"
    using assms(1) by (auto simp: loopback_idle_def)
  have pj: "push (lb_decoder lb) (frame_bytes j) = (lb_decoder lb, [j])"
    "push (lb_decoder lb) (frame_bytes k) = (lb_decoder lb, [k])"
    using push_frame [OF idle(2)] j(3) k(3) by auto
  have "loopback_send c hnd se (frame_bytes j) lb =
      (lb\<lparr>lb_device := d', lb_calls := lb_calls lb + 1, lb_pending := [frame_bytes k]\<rparr>, Inr ())"
    by (simp add: loopback_send_def pj j(2) assms(3) encode_response_def k(1) ek idle)
  then show ?thesis
    by (simp add: call_def encode_request_def j(1) ej loopback_receive_def pj k(2) idle)
qed

text \<open>Over an idle loopback an exchange is the device's own handler: the device sees exactly
  the request, once, the host gets exactly the device's response, and the link is idle again,
  for every request and response that survive the JSON codec within the size limit.\<close>
theorem loopback_transparent:
  assumes "loopback_idle lb" "request_travels c req" "response_travels c (snd (hnd req (lb_device lb)))"
  shows "call c (loopback_send c hnd se) loopback_receive desc req lb =
      (lb\<lparr>lb_device := fst (hnd req (lb_device lb)), lb_calls := lb_calls lb + 1\<rparr>,
       Inr (snd (hnd req (lb_device lb))))
    \<and> loopback_idle (fst (call c (loopback_send c hnd se) loopback_receive desc req lb))"
proof -
  have "call c (loopback_send c hnd se) loopback_receive desc req lb =
      (lb\<lparr>lb_device := fst (hnd req (lb_device lb)), lb_calls := lb_calls lb + 1\<rparr>,
       Inr (snd (hnd req (lb_device lb))))"
    by (rule loopback_call [OF assms(1,2) _ assms(3)]) simp
  with assms(1) show ?thesis by (simp add: loopback_idle_def)
qed

text \<open>A concrete codec for two messages, to exercise the theorems.\<close>

definition demo_codec :: "request \<Rightarrow> response \<Rightarrow> codec" where
  "demo_codec req resp = \<lparr>json_of_request = \<lambda>_. Inr [1], request_of_json = \<lambda>_. Inr req,
     json_of_response = \<lambda>_. Inr [2], response_of_json = \<lambda>_. Inr resp\<rparr>"

lemma demo_travels: "request_travels (demo_codec req resp) req" "response_travels (demo_codec req resp) resp"
  by (simp_all add: request_travels_def response_travels_def demo_codec_def MAX_PAYLOAD_def)

lemma loopback_new_idle: "loopback_idle (loopback_new d)"
  by (simp add: loopback_idle_def loopback_new_def decoder_new_def)

theorem loopback_transparent_witness:
  "snd (call (demo_codec (Ping 7) (Resp_Pong 7 0))
      (loopback_send (demo_codec (Ping 7) (Resp_Pong 7 0)) handle (\<lambda>_. [])) loopback_receive []
      (Ping 7) (loopback_new (open_fan_new 4))) = Inr (Resp_Pong 7 0)"
proof -
  let ?c = "demo_codec (Ping 7) (Resp_Pong 7 0)"
  have h: "snd (handle (Ping 7) (lb_device (loopback_new (open_fan_new 4)))) = Resp_Pong 7 0"
    by (simp add: loopback_new_def handle_def Let_def open_fan_new_def host_spoke_def)
  from loopback_transparent [where hnd = handle, OF loopback_new_idle demo_travels(1) [of "Ping 7" "Resp_Pong 7 0"],
      of "open_fan_new 4"]
  show ?thesis by (simp add: h demo_travels(2))
qed

lemma handshake_info:
  "firmware_compatible (dd_firmware dd) \<Longrightarrow> handshake_result (Resp_DeviceInfo dd) = Inr dd"
  by (simp add: handshake_result_def)

text \<open>The handshake returns a descriptor exactly when the device answers with one whose
  protocol version this host implements (same major, not newer); an error answer, an
  unexpected answer or a newer device is refused.\<close>
theorem handshake_accepts:
  "(\<exists>t'. handshake c send receive describe t = (t', Inr dd)) \<longleftrightarrow>
   (\<exists>t'. call c send receive describe GetDeviceInfo t = (t', Inr (Resp_DeviceInfo dd)))
   \<and> fw_protocol_major (dd_firmware dd) = 0 \<and> fw_protocol_minor (dd_firmware dd) \<le> 1"
proof -
  obtain t' r where r: "call c send receive describe GetDeviceInfo t = (t', r)" by fastforce
  have hs: "handshake_result resp = Inr dd \<longleftrightarrow> resp = Resp_DeviceInfo dd \<and> firmware_compatible (dd_firmware dd)"
    for resp by (cases resp) (auto simp: handshake_result_def)
  show ?thesis
    by (cases r) (auto simp: handshake_def r hs firmware_compatible_def is_compatible_def const_simps)
qed

text \<open>Plugging in the simulated controller: the handshake over the loopback returns its
  descriptor, and the descriptor becomes a runtime device with the advertised capabilities.\<close>
lemma openfan_plug_in:
  assumes "request_travels c GetDeviceInfo" "response_travels c (Resp_DeviceInfo (openfan_descriptor 4))"
  shows "snd (handshake c (loopback_send c handle se) loopback_receive desc (loopback_new (open_fan_new 4)))
      = Inr (openfan_descriptor 4)"
proof -
  have h: "snd (handle GetDeviceInfo (lb_device (loopback_new (open_fan_new 4))))
      = Resp_DeviceInfo (openfan_descriptor 4)"
    by (simp add: loopback_new_def handle_def Let_def open_fan_new_def host_spoke_def)
  have "snd (call c (loopback_send c handle se) loopback_receive desc GetDeviceInfo
      (loopback_new (open_fan_new 4))) = Inr (Resp_DeviceInfo (openfan_descriptor 4))"
    using loopback_call [where hnd = handle and d' = "fst (handle GetDeviceInfo (open_fan_new 4))",
        OF loopback_new_idle assms(1) _ assms(2), of "open_fan_new 4"] h
    by (simp add: prod_eq_iff loopback_new_def)
  moreover have "firmware_compatible (dd_firmware (openfan_descriptor 4))"
    by (simp add: openfan_descriptor_def firmware_compatible_def is_compatible_def)
  ultimately show ?thesis
    by (simp add: handshake_def split_def Let_def handshake_info)
qed

text \<open>A bad request never reaches the device: bytes that hold no valid frame are an error of
  the link, and a payload that is not a request is answered on the wire with a framing error;
  in both cases the device is as it was.\<close>
theorem bad_request_contained:
  assumes "list_all (\<lambda>p. \<exists>e. request_of_json c p = Inl e) (snd (push (lb_decoder lb) frame))"
  shows "lb_device (fst (loopback_send c hnd se frame lb)) = lb_device lb"
proof -
  have "lb_device (fst (serve c hnd se ps x)) = lb_device x"
    if "list_all (\<lambda>p. \<exists>e. request_of_json c p = Inl e) ps" for ps x
    using that
    by (induction ps arbitrary: x) (auto simp: Let_def split: sum.splits)
  with assms show ?thesis by (simp add: loopback_send_def split_def Let_def)
qed


theorem bad_request_contained_witness:
  "lb_device (fst (loopback_send ((demo_codec (Ping 7) (Resp_Pong 7 0))
       \<lparr>request_of_json := \<lambda>_. Inl (SerdeError [Txt ''not a request''])\<rparr>)
     handle (\<lambda>_. []) (frame_bytes [1, 2]) (loopback_new (open_fan_new 4)))) = open_fan_new 4"
  by (subst bad_request_contained) (simp_all add: loopback_new_def list_all_iff)

subsection \<open>Delivery over a byte stream\<close>

text \<open>What the reader will hand over, read by read; and repeated polling.\<close>

fun delivers :: "('w, 'e) stream_io \<Rightarrow> 'w \<Rightarrow> byte list list \<Rightarrow> bool" where
  "delivers io w [] \<longleftrightarrow> True"
| "delivers io w (c # cs) \<longleftrightarrow> c \<noteq> [] \<and>
    (case io_read io 1024 w of (w', Inr bytes) \<Rightarrow> bytes = c \<and> delivers io w' cs | _ \<Rightarrow> False)"

fun polls :: "('w, 'e) stream_io \<Rightarrow> nat \<Rightarrow> 'w stream_transport \<Rightarrow> 'w stream_transport \<times> byte list list" where
  "polls io 0 t = (t, [])"
| "polls io (Suc n) t = (let (t, r) = stream_receive io t; (t, ps) = polls io n t in
    (t, (case r of Inr (Some p) \<Rightarrow> p # ps | _ \<Rightarrow> ps)))"

lemma polls_add:
  "polls io (m + n) t = (let (t1, a) = polls io m t; (t2, b) = polls io n t1 in (t2, a @ b))"
  by (induction m arbitrary: t) (auto simp: split_def Let_def split: sum.split option.split)

lemma polls_ready: "polls io (length r) (t\<lparr>st_ready := r\<rparr>) = (t\<lparr>st_ready := []\<rparr>, r)"
  by (induction r) (simp_all add: stream_receive_def)

lemma polls_deliver:
  assumes "st_ready t = []" "delivers io (st_world t) cs" "feed push (st_decoder t) cs = (dec, qs)"
  shows "\<exists>n t'. n \<le> length cs + length qs \<and> polls io n t = (t', qs)"
  using assms
proof (induction cs arbitrary: t qs)
  case Nil
  then show ?case by (auto intro!: exI [of _ 0])
next
  case (Cons c cs)
  obtain w where w: "io_read io 1024 (st_world t) = (w, Inr c)" "delivers io w cs" "c \<noteq> []"
    using Cons.prems(2) by (auto split: prod.splits sum.splits)
  obtain d1 ps where p: "push (st_decoder t) c = (d1, ps)" by fastforce
  obtain qs' where q: "feed push d1 cs = (dec, qs')" "qs = ps @ qs'"
    using Cons.prems(3) p by (auto split: prod.splits)
  let ?t = "t\<lparr>st_world := w, st_decoder := d1\<rparr>"
  have "\<exists>k. k \<le> 1 + length ps \<and> polls io k t = (?t, ps)"
  proof (cases ps)
    case Nil
    then have "polls io 1 t = (?t, [])"
      using w p Cons.prems(1) by (simp add: stream_receive_def)
    then show ?thesis using Nil by (intro exI [of _ 1]) simp
  next
    case (Cons x xs)
    have "polls io (Suc (length xs)) t = (?t, ps)"
      using w p Cons \<open>st_ready t = []\<close> polls_ready [of io xs ?t] by (simp add: stream_receive_def)
    then show ?thesis using Cons by (intro exI [of _ "Suc (length xs)"]) simp
  qed
  then obtain k where k: "k \<le> 1 + length ps" "polls io k t = (?t, ps)" by blast
  have "st_ready ?t = []" "delivers io (st_world ?t) cs" "feed push (st_decoder ?t) cs = (dec, qs')"
    using Cons.prems(1) w(2) q(1) by simp_all
  from Cons.IH [OF this] obtain n t' where n: "n \<le> length cs + length qs'" "polls io n ?t = (t', qs')"
    by blast
  have "polls io (k + n) t = (t', qs)" using k n q by (simp add: polls_add)
  moreover have "k + n \<le> length (c # cs) + length qs" using k n q by simp
  ultimately show ?case by blast
qed

text \<open>A byte stream loses and reorders nothing: whatever pieces the reader delivers the frames
  in, polling at most once per piece and per message returns every message, in order.\<close>
theorem stream_delivers:
  assumes "st_ready t = []" "dc_buffer (st_decoder t) = []" "list_all (\<lambda>p. length p \<le> MAX_PAYLOAD) ps"
    and "delivers io (st_world t) cs" "concat cs = concat (map frame_bytes ps)"
  shows "\<exists>n t'. n \<le> length cs + length ps \<and> polls io n t = (t', ps)"
  using assms polls_deliver [OF assms(1,4)] decoder_link.feed_frames [OF assms(2,3,5)] by blast

text \<open>A peer whose bytes are already written: each read takes the next piece.\<close>

definition script_io :: "(byte list list, unit) stream_io" where
  "script_io = \<lparr>io_write_all = \<lambda>_ w. (w, Inr ()), io_flush = \<lambda>w. (w, Inr ()),
     io_read = \<lambda>_ w. (case w of [] \<Rightarrow> ([], Inr []) | c # cs \<Rightarrow> (cs, Inr c)), io_show = \<lambda>_. []\<rparr>"

theorem stream_delivers_witness:
  "\<exists>n t'. n \<le> 3 \<and> polls script_io n
     (stream_new [take 3 (frame_bytes [9]), drop 3 (frame_bytes [9])] ''usb'') = (t', [[9]])"
  using stream_delivers [of "stream_new [take 3 (frame_bytes [9]), drop 3 (frame_bytes [9])] ''usb''"
      "[[9]]" script_io "[take 3 (frame_bytes [9]), drop 3 (frame_bytes [9])]"]
  by (simp add: stream_new_def decoder_new_def script_io_def MAX_PAYLOAD_def)
    (simp add: frame_bytes_unfold numeral_3_eq_3)

lemma push_prefix:
  assumes "dc_buffer d = []" "frame_bytes p = a @ b" "b \<noteq> []" "length p \<le> MAX_PAYLOAD"
  shows "snd (push d a) = [] \<and> push (fst (push d a)) b = (d, [p])"
proof -
  have "push d (a @ b) = (d, [p])" using push_frame [OF assms(1,4)] assms(2) by simp
  then have eq: "(let (d1, o1) = push d a; (d2, o2) = push d1 b in (d2, o1 @ o2)) = (d, [p])"
    by (simp add: push_append)
  have "sum_list (map (\<lambda>p. HEADER_LEN + length p) (snd (push d a))) \<le> length a"
    using drain_bound [of "buffer_more d a" "fst (push d a)" "snd (push d a)"] assms(1) by (simp add: push_more)
  moreover have "length a < HEADER_LEN + length p"
    using length_frame_bytes [of p] assms(2,3) by (metis length_append length_greater_0_conv less_add_same_cancel1)
  ultimately have "snd (push d a) \<noteq> [p]" by auto
  with eq have "snd (push d a) = []" by (auto simp: split_def Let_def append_eq_Cons_conv)
  with eq show ?thesis by (simp add: split_def Let_def prod_eq_iff)
qed

text \<open>An answer that arrives in two reads is lost to its own request and handed to the next
  one: \<open>receive_frame\<close> reads once and reports \<open>None\<close> although part of the answer is buffered,
  \<open>call\<close> fails with "did not answer", and the following \<open>call\<close> returns the old answer.\<close>
theorem late_answer_shifts:
  assumes "frame_bytes k = a @ b" "a \<noteq> []" "b \<noteq> []" "length k \<le> MAX_PAYLOAD"
    and "encode_request c req1 = Inr f1" "encode_request c req2 = Inr f2"
    and "call c (stream_send script_io) (stream_receive script_io) desc req1 (stream_new [a, b] label) = (t, r1)"
  shows "r1 = Inl (ProtocolError (desc @ [Txt '' did not answer '', Txt (request_opcode req1)]))
    \<and> snd (call c (stream_send script_io) (stream_receive script_io) desc req2 t) = response_of_json c k"
proof -
  have d: "dc_buffer decoder_new = []" by (simp add: decoder_new_def)
  note p = push_prefix [OF d assms(1,3,4)]
  obtain d1 where d1: "push decoder_new a = (d1, [])" "push d1 b = (decoder_new, [k])"
    using p by (metis prod.collapse)
  have t: "t = (stream_new [b] label)\<lparr>st_decoder := d1\<rparr>"
    and r: "r1 = Inl (ProtocolError (desc @ [Txt '' did not answer '', Txt (request_opcode req1)]))"
    using assms(2,5,7) d1(1)
    by (auto simp: call_def stream_send_def stream_receive_def script_io_def stream_new_def)
  show ?thesis
    using r assms(3,6) d1(2)
    by (simp add: t call_def stream_send_def stream_receive_def script_io_def stream_new_def)
qed

theorem late_answer_shifts_witness:
  "snd (call (demo_codec (Ping 1) (Resp_Pong 1 0)) (stream_send script_io) (stream_receive script_io) []
      (Ping 2) (fst (call (demo_codec (Ping 1) (Resp_Pong 1 0)) (stream_send script_io)
        (stream_receive script_io) [] (Ping 1)
        (stream_new [take 3 (frame_bytes [2]), drop 3 (frame_bytes [2])] ''usb''))))
    = Inr (Resp_Pong 1 0)"
proof -
  let ?c = "demo_codec (Ping 1) (Resp_Pong 1 0)"
  have e: "encode_request ?c req = Inr (frame_bytes [1])" for req
    by (simp add: encode_request_def demo_codec_def encode_ok MAX_PAYLOAD_def)
  have "frame_bytes [2] = take 3 (frame_bytes [2]) @ drop 3 (frame_bytes [2])" by simp
  from late_answer_shifts [OF this _ _ _ e e surjective_pairing, where ?req1.0 = "Ping 1"
      and ?req2.0 = "Ping 2" and desc = "[]" and label = "''usb''"]
  show ?thesis by (simp add: frame_bytes_unfold MAX_PAYLOAD_def) (simp add: demo_codec_def)
qed

end
