(* ===== verification/Opd_Adapter.thy ===== *)
theory Opd_Adapter
  imports Runtime_World Transport
begin

section \<open>The Open Device Protocol adapter\<close>

text \<open>
  \<open>adapters/open-protocol/src/lib.rs\<close>: the provider that reaches the simulated controller
  (\<open>OpenFan\<close>) through the loopback transport and its framing (\<open>Transport\<close>, \<open>Framing\<close>). The
  three mutexes of the source are the fields of \<open>opd\<close>, which is the adapter's world; the JSON
  codec stays a parameter, and the host's clock, which \<open>now_ms\<close> reads, is a part of the world
  beside the adapter's own state. The lemmas follow a
  request from the adapter to the device and back over any codec that decodes what was encoded
  up to a rounding of its numbers.
\<close>

record opd =
  opd_link :: "open_fan loopback"
  opd_devices :: "device list"
  opd_descriptor :: "device_descriptor option"
  opd_clock :: int

definition OPD_ID :: string where "OPD_ID = ''opd''"
definition OPD_NAME :: string where "OPD_NAME = ''Open Device Protocol''"

definition opd_with_device :: "open_fan \<Rightarrow> int \<Rightarrow> opd" where
  "opd_with_device d now =
    \<lparr>opd_link = loopback_new d, opd_devices = [], opd_descriptor = None, opd_clock = now\<rparr>"

definition opd_new :: "int \<Rightarrow> opd" where
  "opd_new = opd_with_device (open_fan_new 4)"

definition opd_device :: "opd \<Rightarrow> open_fan" where
  "opd_device w = lb_device (opd_link w)"

definition opd_tick :: "nat \<Rightarrow> opd \<Rightarrow> opd" where
  "opd_tick dt w = w\<lparr>opd_link := (opd_link w)\<lparr>lb_device := tick dt (lb_device (opd_link w))\<rparr>\<rparr>"

definition opd_fallback_engaged :: "opd \<Rightarrow> bool" where
  "opd_fallback_engaged w = of_fallback_engaged (opd_device w)"

definition opd_duty :: "opd \<Rightarrow> f64" where
  "opd_duty w = of_duty (opd_device w)"

text \<open>The transport's own exchange, with the loopback's description for its error text.\<close>

definition loopback_describe :: "open_fan loopback \<Rightarrow> message" where
  "loopback_describe lb = [Txt ''loopback('', Txt (dd_product (of_descriptor (lb_device lb))), Txt '')'']"

definition opd_exchange :: "codec \<Rightarrow> request \<Rightarrow> opd \<Rightarrow> response result \<times> opd" where
  "opd_exchange c req w =
    (let (lb, r) = call c (loopback_send c handle error_display) loopback_receive
           (loopback_describe (opd_link w)) req (opd_link w)
     in (r, w\<lparr>opd_link := lb\<rparr>))"

definition opd_call :: "codec \<Rightarrow> request \<Rightarrow> opd \<Rightarrow> response result \<times> opd" where
  "opd_call c req w =
    (let (r, w) = opd_exchange c req w in
     (and_then r (\<lambda>resp. case resp of
        Resp_Error code msg \<Rightarrow> Inl (WriteRejected ''<device>'' ''<capability>''
          ([Txt ''device answered '', Txt (protocol_code_str code), Txt '': ''] @ msg))
      | other \<Rightarrow> Inr other), w))"

definition handshake_and_discover :: "codec \<Rightarrow> opd \<Rightarrow> device list result \<times> opd" where
  "handshake_and_discover c w =
    (let (lb, r) = handshake c (loopback_send c handle error_display) loopback_receive
           (loopback_describe (opd_link w)) (opd_link w);
         w = w\<lparr>opd_link := lb\<rparr>
     in case r of Inl e \<Rightarrow> (Inl e, w)
        | Inr dd \<Rightarrow>
          (case to_device dd OPD_ID 0 of Inl e \<Rightarrow> (Inl e, w)
           | Inr d \<Rightarrow> (Inr [d], w\<lparr>opd_descriptor := Some dd, opd_devices := [d]\<rparr>)))"

definition opd_protocol_error :: "protocol_error_code \<Rightarrow> message \<Rightarrow> ohm_error" where
  "opd_protocol_error code msg = WriteRejected ''<device>'' ''<capability>''
     ([Txt (reason_code (error_reason code)), Txt '': ''] @ msg)"

definition opd_info :: adapter_info where
  "opd_info = (adapter_info_new OPD_ID OPD_NAME ''opd'')
     \<lparr>ai_supports_hotplug := True,
      ai_capabilities := \<lparr>ac_can_write = True, ac_can_control_cooling = True,
        ac_write_requires_admin = False, ac_hands_back_control_on_shutdown = True,
        ac_poll_interval_ms = None, ac_discovery_interval_ms = None\<rparr>\<rparr>"

definition opd_probe :: "codec \<Rightarrow> opd \<Rightarrow> adapter_status \<times> opd" where
  "opd_probe c w =
    (case handshake_and_discover c w of
       (Inr devices, w) \<Rightarrow> (status_available OPD_ID (length devices) (opd_clock w), w)
     | (Inl err, w) \<Rightarrow> (status_unavailable OPD_ID NotPresent
         (Txt ''no ODP device answered the handshake: '' # error_display err) (opd_clock w), w))"

text \<open>One reading per declared capability: the device's own, or one that says it does not report it.\<close>

definition declared_reading :: "reading list \<Rightarrow> capability \<Rightarrow> reading" where
  "declared_reading readings cap =
    (case List.find (\<lambda>r. rd_capability r = cap_id cap) readings of Some r \<Rightarrow> r
     | None \<Rightarrow> reading_unavailable (cap_id cap) Unsupported
         (Some ''the device does not report this capability''))"

definition opd_read_state :: "codec \<Rightarrow> device \<Rightarrow> opd \<Rightarrow> device_state result \<times> opd" where
  "opd_read_state c d w =
    (let (r, w) = opd_call c (GetState None) w in
     (and_then r (\<lambda>resp. case resp of
        Resp_State readings \<Rightarrow> Inr (fold (\<lambda>cap. set_reading (declared_reading readings cap))
          (dev_capabilities d) (new_state (dev_id d) (opd_clock w)))
      | other \<Rightarrow> Inl (ProtocolError [Txt ''unexpected answer to GET_STATE: '',
          Txt (response_opcode other)])), w))"

definition opd_write :: "codec \<Rightarrow> device \<Rightarrow> capability \<Rightarrow> val \<Rightarrow> opd \<Rightarrow> write_outcome result \<times> opd" where
  "opd_write c d cap v w =
    (if \<not> cap_writable cap then (Inl (CapabilityNotWritable (dev_id d) (cap_id cap)), w)
     else case validate_capability cap v of Inl e \<Rightarrow> (Inl e, w)
     | Inr _ \<Rightarrow>
       (case as_f64 v of
          None \<Rightarrow> (Inl (InvalidValue (dev_id d) (cap_id cap)
            [Txt ''expected a number, got `'', Txt (val_to_string v), Txt ''`'']), w)
        | Some requested \<Rightarrow>
          (case opd_exchange c (SetState (cap_id cap) (Number (clamp_capability cap requested))) w of
             (Inl e, w) \<Rightarrow> (Inl (WriteRejected (dev_id d) (cap_id cap) (error_display e)), w)
           | (Inr resp, w) \<Rightarrow>
             (case resp of
                Resp_StateSet _ applied info \<Rightarrow>
                  (Inr \<lparr>wo_status = Write_Applied, wo_applied = Some applied, wo_detail = info\<rparr>, w)
              | Resp_Error code msg \<Rightarrow> (Inl (opd_protocol_error code msg), w)
              | other \<Rightarrow> (Inl (ProtocolError [Txt ''unexpected answer to SET_STATE: '',
                  Txt (response_opcode other)]), w)))))"

definition opd_shutdown :: "opd \<Rightarrow> unit result \<times> opd" where
  "opd_shutdown w = (Inr (), w)"

definition opd_adapter :: "codec \<Rightarrow> opd adapter" where
  "opd_adapter c = \<lparr>ad_info = opd_info, ad_probe = opd_probe c,
     ad_discover = handshake_and_discover c, ad_read_all = read_serially (opd_read_state c),
     ad_write = opd_write c, ad_shutdown = opd_shutdown,
     ad_write_access = no_opinion, ad_taken_controls = takes_nothing, ad_adopt = adopts_nothing\<rparr>"

subsection \<open>One exchange\<close>

text \<open>What the adapter needs of the codec, JSON in the code. An encoded message decodes to one of its kind with
  the same names. A fractional number may come back rounded, by at most \<open>e\<close> of its size (serde_json
  promises the last digit only as an option); a whole one up to a million comes back as it is. Nothing is
  asked about numbers that are not finite or larger (JSON has no infinity, \<open>null\<close> is written for it), of
  the readings, whose content the link never depends on, and of rendered text. Encoding may fail, and may
  produce too much for a frame.\<close>

definition reads_back :: "rat \<Rightarrow> f64 \<Rightarrow> f64 \<Rightarrow> bool" where
  "reads_back e x' x \<longleftrightarrow> (\<exists>q q'. x = Fin q \<and> x' = Fin q' \<and> \<bar>q' - q\<bar> \<le> e * max 1 \<bar>q\<bar> \<and> (q \<in> \<int> \<longrightarrow> q' = q))"

definition plain_number :: "f64 \<Rightarrow> bool" where
  "plain_number x \<longleftrightarrow> (\<exists>q. x = Fin q \<and> \<bar>q\<bar> \<le> 1000000)"

definition plain_val :: "val \<Rightarrow> bool" where
  "plain_val v \<longleftrightarrow> (case v of Number x \<Rightarrow> plain_number x | _ \<Rightarrow> True)"

definition like_val :: "rat \<Rightarrow> val \<Rightarrow> val \<Rightarrow> bool" where
  "like_val e v' v \<longleftrightarrow> (case v of Number x \<Rightarrow> \<exists>x'. v' = Number x' \<and> reads_back e x' x | _ \<Rightarrow> v' = v)"

definition plain_descriptor :: "capability_descriptor \<Rightarrow> bool" where
  "plain_descriptor d \<longleftrightarrow> pred_option plain_number (cds_min d) \<and> pred_option plain_number (cds_max d)
     \<and> pred_option plain_number (cds_step d)"

definition like_descriptor :: "rat \<Rightarrow> capability_descriptor \<Rightarrow> capability_descriptor \<Rightarrow> bool" where
  "like_descriptor e d' d \<longleftrightarrow> (\<exists>lo hi st. d' = d\<lparr>cds_min := lo, cds_max := hi, cds_step := st\<rparr>
     \<and> rel_option (reads_back e) lo (cds_min d) \<and> rel_option (reads_back e) hi (cds_max d)
     \<and> rel_option (reads_back e) st (cds_step d))"

fun plain_request :: "request \<Rightarrow> bool" where
  "plain_request (SetState _ v) = plain_val v" | "plain_request _ = True"

fun like_request :: "rat \<Rightarrow> request \<Rightarrow> request \<Rightarrow> bool" where
  "like_request e req' (SetState i v) = (\<exists>v'. req' = SetState i v' \<and> like_val e v' v)"
| "like_request e req' req = (req' = req)"

fun plain_response :: "response \<Rightarrow> bool" where
  "plain_response (Resp_DeviceInfo dd) = list_all plain_descriptor (dd_capabilities dd)"
| "plain_response (Resp_StateSet _ v _) = plain_val v"
| "plain_response (Resp_Error _ _) = True"
| "plain_response _ = False"

fun like_response :: "rat \<Rightarrow> response \<Rightarrow> response \<Rightarrow> bool" where
  "like_response e resp' (Resp_DeviceInfo dd) = (\<exists>ds. resp' = Resp_DeviceInfo (dd\<lparr>dd_capabilities := ds\<rparr>)
     \<and> list_all2 (like_descriptor e) ds (dd_capabilities dd))"
| "like_response e resp' (Resp_StateSet i v _) = (\<exists>v' info. resp' = Resp_StateSet i v' info \<and> like_val e v' v)"
| "like_response e resp' (Resp_Error code _) = (\<exists>msg. resp' = Resp_Error code msg)"
| "like_response e resp' _ = True"

definition codec_within :: "rat \<Rightarrow> codec \<Rightarrow> bool" where
  "codec_within e c \<longleftrightarrow> 0 \<le> e
     \<and> (\<forall>req j. json_of_request c req = Inr j \<and> plain_request req \<longrightarrow>
          (\<exists>req'. request_of_json c j = Inr req' \<and> like_request e req' req))
     \<and> (\<forall>resp j. json_of_response c resp = Inr j \<and> plain_response resp \<longrightarrow>
          (\<exists>resp'. response_of_json c j = Inr resp' \<and> like_response e resp' resp))"

text \<open>A whole number survives, and so does what the controller says of itself.\<close>

lemma reads_back_whole: "reads_back e x (Fin q) \<Longrightarrow> q \<in> \<int> \<Longrightarrow> x = Fin q"
  by (auto simp: reads_back_def)

lemma openfan_capabilities_travel:
  "list_all plain_descriptor openfan_capabilities"
  "list_all2 (like_descriptor e) ds openfan_capabilities \<Longrightarrow> ds = openfan_capabilities"
proof -
  show "list_all plain_descriptor openfan_capabilities"
    by (simp add: openfan_capabilities_def plain_descriptor_def plain_number_def descriptor_describe_def
        descriptor_actuator_def descriptor_sensor_def)
  have w: "rel_option (reads_back e) x (Some (Fin 0)) \<Longrightarrow> x = Some (Fin 0)"
    "rel_option (reads_back e) x (Some (Fin 100)) \<Longrightarrow> x = Some (Fin 100)" for x
    using reads_back_whole [of e _ 0] reads_back_whole [of e _ 100] by (auto simp: option_rel_Some2)
  have one: "d \<in> set openfan_capabilities \<Longrightarrow> like_descriptor e d' d \<Longrightarrow> d' = d" for d' d
    using w by (auto simp: like_descriptor_def openfan_capabilities_def descriptor_describe_def
        descriptor_actuator_def descriptor_sensor_def)
  assume "list_all2 (like_descriptor e) ds openfan_capabilities"
  then show "ds = openfan_capabilities"
    using one by (auto simp: list_all2_conv_all_nth intro!: nth_equalityI)
qed

text \<open>The device has either not seen the request or handled what the codec made of it, once; an answer that
  arrives is what the codec made of the device's own; and the link is idle again.\<close>

lemma loopback_exchange:
  assumes idle: "loopback_idle lb" and c: "codec_within e c" and pr: "plain_request req"
    and k: "call c (loopback_send c hnd se) loopback_receive desc req lb = (lb', r)"
  shows "loopback_idle lb' \<and> (lb_device lb' = lb_device lb \<and> \<not> is_ok r
    \<or> (\<exists>req' d' resp'. like_request e req' req \<and> hnd req' (lb_device lb) = (d', resp') \<and> lb_device lb' = d' \<and>
       (\<forall>resp. r = Inr resp \<and> plain_response resp' \<longrightarrow> like_response e resp resp')))"
proof (cases "encode_request c req")
  case (Inl e)
  with k idle show ?thesis by (auto simp: call_def)
next
  case (Inr f)
  then obtain j where j: "json_of_request c req = Inr j" and e: "encode j = Inr f"
    by (auto simp: encode_request_def result_simps)
  then obtain req' where f: "f = frame_bytes j" "length j \<le> MAX_PAYLOAD"
    and d: "request_of_json c j = Inr req'" and l: "like_request e req' req"
    using c pr by (auto simp: codec_within_def encode_ok) blast
  have i: "dc_buffer (lb_decoder lb) = []" "lb_pending lb = []"
    using idle by (auto simp: loopback_idle_def)
  have p: "push (lb_decoder lb) (frame_bytes p) = (lb_decoder lb, [p])" if "length p \<le> MAX_PAYLOAD" for p
    using push_frame [OF i(1) that] .
  obtain d' resp where h: "hnd req' (lb_device lb) = (d', resp)" by fastforce
  note s = call_def Inr loopback_send_def f(1) p [OF f(2)] d h
  show ?thesis
  proof (cases "encode_response c resp")
    case (Inl e)
    with k i l h show ?thesis by (auto simp: s loopback_idle_def)
  next
    case (Inr g)
    then obtain q where q: "json_of_response c resp = Inr q" "encode q = Inr g"
      by (auto simp: encode_response_def result_simps)
    from q(2) have "g = frame_bytes q" "length q \<le> MAX_PAYLOAD" by (auto simp: encode_ok)
    then have "loopback_idle lb' \<and> lb_device lb' = d' \<and> r = response_of_json c q"
      using k i Inr by (auto simp: s loopback_receive_def p loopback_idle_def)
    moreover have "plain_response resp \<Longrightarrow> \<exists>resp'. response_of_json c q = Inr resp' \<and> like_response e resp' resp"
      using c q(1) by (simp add: codec_within_def)
    ultimately show ?thesis using l h by (metis sum.inject(2))
  qed
qed

text \<open>What one request does to the controller's settings and duty.\<close>

lemma handle_effect:
  assumes "fan_ok d" and "handle req d = (d', resp)"
  shows "dd_device_type (of_descriptor d') = dd_device_type (of_descriptor d)
    \<and> of_fallback_duty d' = of_fallback_duty d
    \<and> (of_duty d' = of_duty d
        \<or> (\<exists>v x. req = SetState FAN_SPEED_PERCENT v \<and> as_f64 v = Some x \<and> of_duty d' = x))"
proof -
  have frame: "dd_device_type (of_descriptor d') = dd_device_type (of_descriptor d)
      \<and> of_fallback_duty d' = of_fallback_duty d \<and> (of_duty d' = of_duty d \<or> (\<exists>cap v. req = SetState cap v))"
    using assms(2)
    by (cases req) (auto simp: handle_def Let_def set_state_def apply_duty_def update_firmware_def
        conclude_chunk_def absorb_chunk_def split: if_splits option.splits sum.splits)
  show ?thesis
  proof (cases "of_duty d' = of_duty d")
    case False
    then obtain cap v where r: "req = SetState cap v" using frame by auto
    have cap: "cap = FAN_SPEED_PERCENT"
    proof (rule ccontr)
      assume "cap \<noteq> FAN_SPEED_PERCENT"
      from other_capabilities_refused [OF this, of v d] False assms(2) r show False by simp
    qed
    have b: "\<not> of_bootloader d" using False assms(2) r by (auto simp: handle_def Let_def)
    from set_duty_exact [OF assms(1) b assms(2) [unfolded r cap]] False frame r cap show ?thesis
      by (auto split: option.splits if_splits)
  qed (use frame in simp)
qed

text \<open>The floor as far as the firmware and the codec allow: it starts at 40 % and falls back to 70 % whatever the
  policy says, and a duty may have been rounded on its way.\<close>

definition about_floor :: "rat \<Rightarrow> safety_policy \<Rightarrow> f64 \<Rightarrow> bool" where
  "about_floor e p x \<longleftrightarrow> (\<exists>q f. x = Fin q \<and> fmin (duty_floor p Fan) (Fin 40) = Fin f \<and> f - 100 * e \<le> q)"

definition opd_ok :: "rat \<Rightarrow> safety_policy \<Rightarrow> opd \<Rightarrow> bool" where
  "opd_ok e p w \<longleftrightarrow> sane p \<and> loopback_idle (opd_link w) \<and> fan_ok (opd_device w)
     \<and> dd_device_type (of_descriptor (opd_device w)) = Fan
     \<and> about_floor e p (opd_duty w) \<and> about_floor e p (of_fallback_duty (opd_device w))"

lemma floor_number:
  assumes "sane p" obtains f where "duty_floor p Fan = Fin f" "0 \<le> f" "fmin (duty_floor p Fan) (Fin 40) = Fin (min f 40)"
  using assms by (rule duty_floor_range [of p Fan]) (auto simp: fmin_def min_def)

lemma about_floor_back:
  assumes "sane p" "0 \<le> e" "duty_floor p Fan \<le> x" "x \<le> Fin 100" "reads_back e x' x"
  shows "about_floor e p x'"
proof -
  obtain f where f: "duty_floor p Fan = Fin f" "0 \<le> f" "fmin (duty_floor p Fan) (Fin 40) = Fin (min f 40)"
    using assms(1) by (rule floor_number)
  obtain q q' where q: "x = Fin q" "x' = Fin q'" "\<bar>q' - q\<bar> \<le> e * max 1 \<bar>q\<bar>" using assms(5) by (auto simp: reads_back_def)
  have b: "f \<le> q" "q \<le> 100" using assms(3,4) f(1) q(1) by simp_all
  then have "e * max 1 \<bar>q\<bar> \<le> e * 100" using assms(2) f(2) by (intro mult_left_mono) auto
  then have "min f 40 - 100 * e \<le> q'" using q(3) b(1) by linarith
  then show ?thesis using f(3) q(2) by (auto simp: about_floor_def)
qed

definition opd_known :: "device \<Rightarrow> bool" where
  "opd_known d \<longleftrightarrow> dev_type d = Fan \<and> dev_capabilities d = map capability_of_descriptor openfan_capabilities"

lemma opd_device_link [simp]: "opd_device (w\<lparr>opd_link := lb\<rparr>) = lb_device lb"
  by (simp add: opd_device_def)

lemma opd_ok_link:
  assumes "codec_within e c" "opd_ok e p w" "plain_request req"
    and "call c (loopback_send c handle se) loopback_receive desc req (opd_link w) = (lb, r)"
    and "\<And>v x x'. req = SetState FAN_SPEED_PERCENT v \<Longrightarrow> as_f64 v = Some x \<Longrightarrow> v = Number x \<and> duty_floor p Fan \<le> x \<and> x \<le> Fin 100"
    and "\<And>v. req = SetState FAN_SPEED_PERCENT v \<Longrightarrow> as_f64 v \<noteq> None"
  shows "opd_ok e p (w\<lparr>opd_link := lb\<rparr>)"
proof -
  have idle: "loopback_idle (opd_link w)" and e: "0 \<le> e" and s: "sane p"
    using assms(1,2) by (simp_all add: opd_ok_def codec_within_def)
  from loopback_exchange [OF idle assms(1,3,4)] have l: "loopback_idle lb" by blast
  from loopback_exchange [OF idle assms(1,3,4)] consider "lb_device lb = opd_device w"
    | req' resp where "like_request e req' req" "handle req' (opd_device w) = (lb_device lb, resp)"
    by (auto simp: opd_device_def)
  then show ?thesis
  proof cases
    case 1 then show ?thesis using assms(2) l by (simp add: opd_ok_def opd_duty_def)
  next
    case (2 req' resp)
    have "fan_ok (lb_device lb)" using handle_ok [OF _ 2(2)] assms(2) by (simp add: opd_ok_def)
    moreover have "about_floor e p (of_duty (lb_device lb))"
    proof (cases "of_duty (lb_device lb) = opd_duty w")
      case False
      then obtain v' x' where v: "req' = SetState FAN_SPEED_PERCENT v'" "as_f64 v' = Some x'" "of_duty (lb_device lb) = x'"
        using handle_effect [OF _ 2(2)] assms(2) by (auto simp: opd_ok_def opd_duty_def)
      then obtain v where r: "req = SetState FAN_SPEED_PERCENT v" "like_val e v' v" using 2(1) by (cases req) auto
      then obtain x where "as_f64 v = Some x" using assms(6) by blast
      with assms(5) r have x: "v = Number x" "duty_floor p Fan \<le> x" "x \<le> Fin 100" by blast+
      with r(2) v(2) have "reads_back e x' x" by (auto simp: like_val_def)
      from about_floor_back [OF s e x(2,3) this] v(3) show ?thesis by simp
    qed (use assms(2) in \<open>simp add: opd_ok_def\<close>)
    ultimately show ?thesis using handle_effect [OF _ 2(2)] assms(2) l by (auto simp: opd_ok_def opd_duty_def)
  qed
qed

lemma opd_ok_exchange:
  assumes "codec_within e c" "opd_ok e p w" "plain_request req"
    and "\<And>v. req = SetState FAN_SPEED_PERCENT v \<Longrightarrow> \<exists>x. v = Number x \<and> duty_floor p Fan \<le> x \<and> x \<le> Fin 100"
  shows "opd_ok e p (snd (opd_exchange c req w))"
proof -
  obtain lb r where k: "call c (loopback_send c handle error_display) loopback_receive
      (loopback_describe (opd_link w)) req (opd_link w) = (lb, r)" by fastforce
  from opd_ok_link [OF assms(1-3) k] assms(4) show ?thesis by (fastforce simp: opd_exchange_def k)
qed

lemma opd_ok_cache [simp]:
  "opd_ok e p (w\<lparr>opd_descriptor := x, opd_devices := ds\<rparr>) = opd_ok e p w"
  by (simp add: opd_ok_def opd_device_def opd_duty_def)

lemma handshake_result_ok:
  "handshake_result resp = Inr dd \<longleftrightarrow> resp = Resp_DeviceInfo dd \<and> firmware_compatible (dd_firmware dd)"
  by (cases resp) (auto simp: handshake_result_def)

lemma handshake_keeps:
  assumes "codec_within e c" "opd_ok e p w" and "handshake_and_discover c w = (r, w')"
  shows "opd_ok e p w' \<and> (\<forall>ds. r = Inr ds \<longrightarrow> (\<forall>d \<in> set ds. opd_known d \<and> dev_adapter d = OPD_ID))"
proof -
  obtain lb q where k: "call c (loopback_send c handle error_display) loopback_receive
      (loopback_describe (opd_link w)) GetDeviceInfo (opd_link w) = (lb, q)" by fastforce
  have ok: "opd_ok e p (w\<lparr>opd_link := lb\<rparr>)" by (rule opd_ok_link [OF assms(1,2) _ k]) simp_all
  have f: "fan_ok (opd_device w)" "dd_device_type (of_descriptor (opd_device w)) = Fan"
    using assms(2) by (simp_all add: opd_ok_def)
  have "dd_device_type dd = Fan \<and> dd_capabilities dd = openfan_capabilities"
    if "and_then q handshake_result = Inr dd" for dd
  proof -
    have q: "q = Inr (Resp_DeviceInfo dd)"
      using that by (auto simp: result_simps handshake_result_ok)
    obtain d' resp where h: "handle GetDeviceInfo (opd_device w) = (d', resp)"
      and a: "plain_response resp \<longrightarrow> like_response e (Resp_DeviceInfo dd) resp"
      using loopback_exchange [OF _ assms(1) _ k] assms(2) q by (auto simp: opd_ok_def opd_device_def)
    from h f(1) consider "resp = Resp_DeviceInfo (of_descriptor (opd_device w))" | code msg where "resp = Resp_Error code msg"
      by (auto simp: handle_def Let_def split: if_splits)
    then show ?thesis
      by cases (use a f openfan_capabilities_travel in \<open>auto simp: fan_ok_def\<close>)
  qed
  then show ?thesis
    using assms(3) ok to_device_shape
    by (auto simp: handshake_and_discover_def handshake_def k Let_def opd_known_def split: sum.splits)
qed

lemma opd_speed_capability:
  assumes "opd_known d" "dev_capability d (cap_id cap) = Some cap" "cap_writable cap"
  shows "cap = capability_of_descriptor (hd openfan_capabilities)"
proof -
  have "cap \<in> set (map capability_of_descriptor openfan_capabilities)"
    using assms(1,2) by (auto simp: opd_known_def dev_capability_def find_Some_iff)
  moreover have "list_all (\<lambda>c. \<not> cap_writable c) (map capability_of_descriptor (tl openfan_capabilities))"
    by (simp add: openfan_capabilities_def descriptor_sensor_def capability_of_descriptor_def descriptor_describe_def)
  moreover have "openfan_capabilities = hd openfan_capabilities # tl openfan_capabilities"
    by (simp add: openfan_capabilities_def)
  then have "set (map capability_of_descriptor openfan_capabilities)
      = insert (capability_of_descriptor (hd openfan_capabilities)) (set (map capability_of_descriptor (tl openfan_capabilities)))"
    by (metis list.simps(9) list.simps(15))
  ultimately show ?thesis using assms(3) by (auto simp: list_all_iff)
qed

lemma opd_speed:
  "cap = capability_of_descriptor (hd openfan_capabilities) \<Longrightarrow> cap_id cap = FAN_SPEED_PERCENT \<and> is_duty_control cap
     \<and> cap_values cap = [] \<and> ranged cap \<and> stepless cap \<and> cap_min cap = Some (Fin 0) \<and> cap_max cap = Some (Fin 100)"
  by (simp add: openfan_capabilities_def capability_of_descriptor_def descriptor_describe_def descriptor_actuator_def
      is_duty_control_def is_duty_unit_def ranged_def stepless_def)

text \<open>What the runtime may write to a device of this adapter is a percentage, and goes out as it was asked for.\<close>

lemma opd_request:
  assumes "opd_known d" "dev_capability d (cap_id cap) = Some cap" "cap_writable cap"
    and "validate_capability cap v = Inr ()" "as_f64 v = Some x"
  shows "cap_id cap = FAN_SPEED_PERCENT" "clamp_capability cap x = x" "Fin 0 \<le> x \<and> x \<le> Fin 100" "plain_number x"
proof -
  note s = opd_speed [OF opd_speed_capability [OF assms(1-3)]]
  have v: "cap_values cap = []" "ranged cap" "stepless cap" using s by simp_all
  show "cap_id cap = FAN_SPEED_PERCENT" using s by simp
  show "clamp_capability cap x = x" using validate_then_clamp [OF v assms(4)] assms(5) by auto
  show "Fin 0 \<le> x \<and> x \<le> Fin 100"
    using s assms(4,5) validate_capability_numeric [OF v(1)] by (auto simp: not_less)
  then show "plain_number x" by (cases x) (auto simp: plain_number_def)
qed

lemma opd_write_keeps:
  assumes c: "codec_within e c" and w: "opd_ok e p w" and d: "opd_known d" and f: "floored p d cap u"
  shows "opd_ok e p (snd (opd_write c d cap u w))"
proof (cases "\<exists>x. cap_writable cap \<and> validate_capability cap u = Inr () \<and> as_f64 u = Some x")
  case False
  then show ?thesis using w by (auto simp: opd_write_def split: option.split sum.split)
next
  case True
  then obtain x where x: "cap_writable cap" "validate_capability cap u = Inr ()" "as_f64 u = Some x" by blast
  have l: "dev_capability d (cap_id cap) = Some cap" using f by (simp add: floored_def)
  note q = opd_request [OF d l x] and s = opd_speed [OF opd_speed_capability [OF d l x(1)]]
  have "duty_floor p Fan \<le> x" using f d x(3) s by (auto simp: floored_def opd_known_def)
  then have "opd_ok e p (snd (opd_exchange c (SetState (cap_id cap) (Number (clamp_capability cap x))) w))"
    using q by (intro opd_ok_exchange [OF c w]) (auto simp: plain_val_def)
  with x show ?thesis
    by (auto simp: opd_write_def split: sum.split response.split prod.split)
qed

lemma opd_read_keeps:
  assumes "codec_within e c" "opd_ok e p w"
  shows "opd_ok e p (snd (read_serially (opd_read_state c) ds w))"
  using assms(2)
proof (induction ds arbitrary: w)
  case (Cons d ds)
  have "opd_ok e p (snd (opd_read_state c d w))"
    using opd_ok_exchange [OF assms(1) Cons.prems, of "GetState None"]
    by (simp add: opd_read_state_def opd_call_def split_def Let_def)
  with Cons.IH show ?case by (simp add: split_def Let_def)
qed simp

text \<open>The adapter keeps the contract of sound hardware.\<close>

interpretation opd_bench: sound_hardware "[opd_adapter c]" p "\<lambda>w. codec_within e c \<and> opd_ok e p w" opd_known
  for c p e
proof unfold_locales
  fix a d cap u and w :: opd and ds assume a: "a \<in> set [opd_adapter c]" and w: "codec_within e c \<and> opd_ok e p w"
  have h: "opd_ok e p (snd (handshake_and_discover c w))"
    using handshake_keeps [of e c p w] w by (metis prod.collapse)
  show "codec_within e c \<and> opd_ok e p (snd (ad_probe a w))"
    using a w h by (auto simp: opd_adapter_def opd_probe_def split: prod.split sum.split)
  show "codec_within e c \<and> opd_ok e p (snd (ad_discover a w))" using a w h by (simp add: opd_adapter_def)
  show "opd_known d" if "fst (ad_discover a w) = Inr ds" "d \<in> set ds"
    using handshake_keeps [OF _ _ surjective_pairing, of e c p w] that a w by (auto simp: opd_adapter_def)
  show "codec_within e c \<and> opd_ok e p (snd (ad_read_all a ds w))"
    using a w opd_read_keeps by (simp add: opd_adapter_def)
  show "codec_within e c \<and> opd_ok e p (snd (ad_write a d cap u w))" if "opd_known d" "floored p d cap u"
    using a w that opd_write_keeps by (simp add: opd_adapter_def)
  show "codec_within e c \<and> opd_ok e p (snd (ad_shutdown a w))" using a w by (simp add: opd_adapter_def opd_shutdown_def)
  show "codec_within e c \<and> opd_ok e p (snd (ad_adopt a taken w))" for taken
    using a w by (simp add: opd_adapter_def adopts_nothing_def)
qed

subsection \<open>The floor, end to end\<close>

text \<open>What happens beside the runtime: the controller's own time, and the host's clock.\<close>

inductive opd_time :: "opd \<Rightarrow> opd \<Rightarrow> bool" where
  device: "opd_time w (opd_tick dt w)"
| host: "opd_time w (w\<lparr>opd_clock := t\<rparr>)"

lemma opd_ok_time: "opd_time w w' \<Longrightarrow> opd_ok e p w \<Longrightarrow> opd_ok e p w'"
proof (induction rule: opd_time.induct)
  case (device w dt)
  have "dd_device_type (of_descriptor (tick dt d)) = dd_device_type (of_descriptor d)" for d
    by (simp add: tick_def Let_def notice_silence_def advance_clock_def)
  with device show ?case
    using tick_ok [of "opd_device w" dt]
    by (auto simp: opd_ok_def opd_tick_def opd_device_def opd_duty_def tick_clock loopback_idle_def)
next
  case (host w t)
  then show ?case by (simp add: opd_ok_def opd_device_def opd_duty_def)
qed

lemma opd_plugged_in:
  assumes "sane p" "0 \<le> e" shows "opd_ok e p (opd_with_device (open_fan_new n) t)"
proof -
  obtain f where f: "fmin (duty_floor p Fan) (Fin 40) = Fin (min f 40)" using assms(1) by (rule floor_number)
  have "about_floor e p (Fin q)" if "40 \<le> q" for q
  proof -
    have "min f 40 - 100 * e \<le> q" using assms(2) that by linarith
    then show ?thesis using f by (auto simp: about_floor_def)
  qed
  then show ?thesis
    using assms(1) open_fan_new_ok [of n] loopback_new_idle [of "open_fan_new n"]
    by (simp add: opd_ok_def opd_with_device_def opd_device_def opd_duty_def)
      (simp add: loopback_new_def open_fan_new_def Let_def openfan_descriptor_def device_descriptor_new_def
        DEFAULT_FALLBACK_DUTY_def)
qed

text \<open>C4. From the settings file to the fan's pulse width: a runtime with the protocol adapter alone, started from
  settings without a NaN and in operation for as long as its safety policy stays, never leaves the
  controller's fans below the floor the policy sets for fans, as far as that floor is at most the 40 % the
  firmware itself starts with (its own fallback is 70 %). The JSON codec may refuse a message; one it encodes
  comes back with every whole number as it was and every fraction rounded by at most \<open>e\<close> of its size. Whatever is written, by whom, at whatever time,
  while the controller falls back and recovers on its own, and whatever the codec refuses to encode, the
  duty on the device is at least that floor, less what the codec's rounding of a fraction can take from a
  percentage (100 times \<open>e\<close>), and at most 100, and no answer is left in the link to be taken for a later
  one.\<close>
theorem fans_never_below_floor:
  assumes "codec_within e c" and "no_nan (st_safety s)"
    and "operated opd_time (runtime_new s [opd_adapter c] k (opd_with_device (open_fan_new n) t)) rt"
  shows "(\<exists>q f. opd_duty (rt_world rt) = Fin q \<and> fmin (duty_floor (st_safety (rt_settings rt)) Fan) (Fin 40) = Fin f
      \<and> f - 100 * e \<le> q \<and> q \<le> 100)
    \<and> loopback_idle (opd_link (rt_world rt))"
proof -
  let ?p = "sanitise (st_safety s)"
  have "0 \<le> e" using assms(1) by (simp add: codec_within_def)
  then have "opd_bench.controlled c ?p e (runtime_new s [opd_adapter c] k (opd_with_device (open_fan_new n) t))"
    using assms opd_plugged_in [OF sanitise_sane [OF assms(2)]] by (intro opd_bench.boot_controlled) simp_all
  with assms(3) have "opd_bench.controlled c ?p e rt"
    by (rule opd_bench.operated_controlled) (use opd_ok_time in blast)
  then have o: "st_safety (rt_settings rt) = ?p" "opd_ok e ?p (rt_world rt)" by (auto simp: under_control_def)
  then have "opd_duty (rt_world rt) \<le> Fin 100" by (simp add: opd_ok_def fan_ok_def opd_duty_def)
  with o show ?thesis by (auto simp: opd_ok_def about_floor_def)
qed

text \<open>C37. A write the protocol adapter reports as applied is in effect: over an idle link to a controller whose
  duties are percentages, for a capability of a device as it discovers it, the capability was the speed, the value was a number from 0 to 100, the duty on the device is that number
  and the one reported is that duty, each up to the codec's rounding, and exactly where the number is whole.\<close>
theorem acknowledged_write_is_in_effect:
  assumes "codec_within e c" "loopback_idle (opd_link w)" "fan_ok (opd_device w)"
    and "opd_known d" "dev_capability d (cap_id cap) = Some cap" and "opd_write c d cap v w = (Inr out, w')"
  shows "cap_id cap = FAN_SPEED_PERCENT \<and> validate_capability cap v = Inr () \<and> wo_status out = Write_Applied
    \<and> (\<exists>x z. as_f64 v = Some x \<and> Fin 0 \<le> x \<and> x \<le> Fin 100 \<and> reads_back e (opd_duty w') x
         \<and> wo_applied out = Some (Number z) \<and> reads_back e z (opd_duty w'))"
proof -
  obtain x where x: "cap_writable cap" "validate_capability cap v = Inr ()" "as_f64 v = Some x"
    using assms(6) by (auto simp: opd_write_def split: if_splits sum.splits option.splits)
  note q = opd_request [OF assms(4,5) x]
  let ?req = "SetState FAN_SPEED_PERCENT (Number x)"
  obtain lb r where k: "call c (loopback_send c handle error_display) loopback_receive
      (loopback_describe (opd_link w)) ?req (opd_link w) = (lb, r)" by fastforce
  obtain i applied info where r: "r = Inr (Resp_StateSet i applied info)"
    and out: "out = \<lparr>wo_status = Write_Applied, wo_applied = Some applied, wo_detail = info\<rparr>"
    and w': "w' = w\<lparr>opd_link := lb\<rparr>"
    using assms(6) x k q(1,2)
    by (auto simp: opd_write_def opd_exchange_def split: if_splits sum.splits response.splits)
  have "plain_request ?req" using q(4) by (simp add: plain_val_def)
  from loopback_exchange [OF assms(2,1) this k] r obtain v' resp
    where l: "like_val e v' (Number x)" and h: "handle (SetState FAN_SPEED_PERCENT v') (opd_device w) = (lb_device lb, resp)"
      and a: "plain_response resp \<longrightarrow> like_response e (Resp_StateSet i applied info) resp"
    by (auto simp: opd_device_def)
  obtain x' where x': "v' = Number x'" "reads_back e x' x" using l by (auto simp: like_val_def)
  have "resp = Resp_StateSet FAN_SPEED_PERCENT (Number x') None \<and> of_duty (lb_device lb) = x' \<and> is_duty x'"
  proof (cases "of_bootloader (opd_device w) \<or> \<not> is_duty x'")
    case True
    then have "response_is_error resp"
      using h set_duty_exact [OF assms(3) _ h] x'(1) by (cases "of_bootloader (opd_device w)") (auto simp: handle_def Let_def)
    then show ?thesis using a by (cases resp) auto
  next
    case False
    then show ?thesis using set_duty_exact [OF assms(3) _ h] x'(1) by simp
  qed
  moreover from this have "plain_number x'" by (cases x') (auto simp: plain_number_def)
  ultimately show ?thesis using a q x x'(2) out w' by (auto simp: opd_duty_def like_val_def plain_val_def)
qed

subsection \<open>A concrete bench\<close>

text \<open>A codec for the messages of one write; it refuses every other.\<close>

definition demo_requests :: "(request \<times> byte list) list" where
  "demo_requests = [(GetDeviceInfo, [1]), (SetState FAN_SPEED_PERCENT (Number (Fin 25)), [2])]"

definition demo_responses :: "(response \<times> byte list) list" where
  "demo_responses = [(Resp_DeviceInfo (openfan_descriptor 4), [1]),
     (Resp_StateSet FAN_SPEED_PERCENT (Number (Fin 25)) None, [2])]"

definition table_encode :: "('m \<times> byte list) list \<Rightarrow> 'm \<Rightarrow> byte list result" where
  "table_encode t m = ok_or (SerdeError []) (map_of t m)"

definition table_decode :: "('m \<times> byte list) list \<Rightarrow> byte list \<Rightarrow> 'm result" where
  "table_decode t j = ok_or (SerdeError []) (map_of (map prod.swap t) j)"

definition opd_codec :: codec where
  "opd_codec = \<lparr>json_of_request = table_encode demo_requests, request_of_json = table_decode demo_requests,
     json_of_response = table_encode demo_responses, response_of_json = table_decode demo_responses\<rparr>"

lemma table_roundtrip:
  "distinct (map snd t) \<Longrightarrow> table_encode t m = Inr j \<Longrightarrow> table_decode t j = Inr m"
proof -
  assume d: "distinct (map snd t)" and e: "table_encode t m = Inr j"
  then have "(m, j) \<in> set t" by (auto simp: table_encode_def ok_or_def split: option.splits dest: map_of_SomeD)
  then have "map_of (map prod.swap t) j = Some m"
    using d by (intro map_of_is_SomeI) (auto simp: comp_def image_iff intro!: bexI [of _ "(m, j)"])
  then show ?thesis by (simp add: table_decode_def ok_or_def)
qed

lemma like_refl:
  "plain_number x \<Longrightarrow> reads_back 0 x x" "plain_val v \<Longrightarrow> like_val 0 v v"
  "plain_descriptor d \<Longrightarrow> like_descriptor 0 d d"
proof -
  show n: "plain_number x \<Longrightarrow> reads_back 0 x x" for x by (auto simp: plain_number_def reads_back_def)
  show "plain_val v \<Longrightarrow> like_val 0 v v" using n by (cases v) (simp_all add: plain_val_def like_val_def)
  have o: "pred_option plain_number y \<Longrightarrow> rel_option (reads_back 0) y y" for y using n by (cases y) simp_all
  then show "plain_descriptor d \<Longrightarrow> like_descriptor 0 d d"
    unfolding plain_descriptor_def like_descriptor_def
    by - (rule exI [of _ "cds_min d"], rule exI [of _ "cds_max d"], rule exI [of _ "cds_step d"], simp)
qed

lemma exact_codec_within:
  assumes "\<And>req j. json_of_request c req = Inr j \<Longrightarrow> request_of_json c j = Inr req"
    and "\<And>resp j. json_of_response c resp = Inr j \<Longrightarrow> response_of_json c j = Inr resp"
  shows "codec_within 0 c"
proof -
  have "plain_request req \<Longrightarrow> like_request 0 req req" for req
    by (cases req) (simp_all add: like_refl)
  moreover have "plain_response resp \<Longrightarrow> like_response 0 resp resp" for resp
    by (cases resp) (auto simp: like_refl list_all_iff intro!: exI [of _ "dd_capabilities x" for x] list.rel_refl_strong)
  ultimately show ?thesis using assms unfolding codec_within_def by blast
qed

lemma opd_codec_within: "codec_within 0 opd_codec"
  using table_roundtrip [of demo_requests] table_roundtrip [of demo_responses]
  by (intro exact_codec_within) (simp_all add: opd_codec_def demo_requests_def demo_responses_def)

lemma default_floor: "no_nan (st_safety default_settings)" "duty_floor (sanitise (st_safety default_settings)) Fan = Fin 25"
proof -
  have s: "sane (st_safety default_settings)" using default_policy_sane by (simp add: default_settings_def)
  then show "no_nan (st_safety default_settings)" by (rule sane_no_nan)
  show "duty_floor (sanitise (st_safety default_settings)) Fan = Fin 25"
    using s by (simp add: sanitise_id) (simp add: default_settings_def default_policy_def duty_floor_def)
qed

definition opd_runtime :: "opd runtime" where
  "opd_runtime = runtime_new default_settings [opd_adapter opd_codec] 0 (opd_with_device (open_fan_new 4) 0)"

theorem fans_never_below_floor_witness:
  "\<exists>q. opd_duty (rt_world (fst (write_with_origin True (runtime_start opd_runtime)
     ''fan.openhardwareos_of4_sim_0001.0'' FAN_SPEED_PERCENT (Number (Fin 5)) Manual))) = Fin q \<and> 25 \<le> q"
proof -
  let ?rt = "fst (write_with_origin True (runtime_start opd_runtime)
     ''fan.openhardwareos_of4_sim_0001.0'' FAN_SPEED_PERCENT (Number (Fin 5)) Manual)"
  have o: "operated opd_time opd_runtime ?rt"
    by (intro operated.wrote operated.started operated.idle)
  have s: "sane (sanitise (st_safety default_settings))" using default_floor(1) by (rule sanitise_sane)
  have p: "opd_bench.controlled opd_codec (sanitise (st_safety default_settings)) 0 ?rt"
    by (rule opd_bench.operated_controlled [OF o], unfold opd_runtime_def, rule opd_bench.boot_controlled)
      (use default_floor opd_codec_within opd_plugged_in [OF s] opd_ok_time in auto)
  from fans_never_below_floor [OF opd_codec_within default_floor(1) o [unfolded opd_runtime_def]] p
  show ?thesis by (auto simp: default_floor(2) under_control_def opd_runtime_def fmin_def)
qed

definition opd_demo_device :: device where
  "opd_demo_device = demo_fan\<lparr>dev_type := Fan, dev_capabilities := map capability_of_descriptor openfan_capabilities\<rparr>"

theorem acknowledged_write_is_in_effect_witness:
  "opd_duty (snd (opd_write opd_codec opd_demo_device (capability_of_descriptor (hd openfan_capabilities))
     (Number (Fin 25)) (opd_new 0))) = Fin 25"
proof -
  let ?cap = "capability_of_descriptor (hd openfan_capabilities)" and ?w = "opd_new 0"
  let ?req = "SetState FAN_SPEED_PERCENT (Number (Fin 25))"
  let ?resp = "Resp_StateSet FAN_SPEED_PERCENT (Number (Fin 25)) None"
  have cap: "cap_id ?cap = FAN_SPEED_PERCENT" "cap_writable ?cap"
    "validate_capability ?cap (Number (Fin 25)) = Inr ()" "clamp_capability ?cap (Fin 25) = Fin 25"
    by (simp_all add: openfan_capabilities_def capability_of_descriptor_def descriptor_describe_def
        descriptor_actuator_def validate_capability_def clamp_capability_def opt_fmin_def opt_fmax_def
        fmin_def fmax_def Let_def)
  have w: "opd_link ?w = loopback_new (open_fan_new 4)" "opd_device ?w = open_fan_new 4"
    by (simp_all add: opd_new_def opd_with_device_def opd_device_def loopback_new_def)
  obtain d' resp where h: "handle ?req (open_fan_new 4) = (d', resp)" by fastforce
  have r: "resp = ?resp"
    using set_duty_exact [OF open_fan_new_ok _ h] by (simp add: open_fan_new_def Let_def)
  have t: "request_travels opd_codec ?req" "response_travels opd_codec ?resp"
    by (auto simp: request_travels_def response_travels_def opd_codec_def table_encode_def table_decode_def
        demo_requests_def demo_responses_def ok_or_def MAX_PAYLOAD_def)
  obtain w' out where k: "opd_write opd_codec opd_demo_device ?cap (Number (Fin 25)) ?w = (Inr out, w')"
    using loopback_call [OF loopback_new_idle t(1) _ t(2), of "handle" "open_fan_new 4" d'] h r cap w
    by (simp add: opd_write_def opd_exchange_def loopback_new_def)
  have d: "opd_known opd_demo_device" "dev_capability opd_demo_device (cap_id ?cap) = Some ?cap"
    by (simp_all add: opd_demo_device_def opd_known_def dev_capability_def openfan_capabilities_def)
  obtain x where "as_f64 (Number (Fin 25)) = Some x" "reads_back 0 (opd_duty w') x"
    using acknowledged_write_is_in_effect [OF opd_codec_within _ _ d k] w open_fan_new_ok [of 4]
      loopback_new_idle [of "open_fan_new 4"] by auto
  then have "opd_duty w' = Fin 25" by (auto simp: reads_back_def)
  then show ?thesis by (simp add: k)
qed

end
