(* ===== verification/Spec2Isabelle.thy ===== *)
theory Spec2Isabelle
  imports Service_System Service_Faults System_Faults Suggestions Lhm_Faults Opd_Adapter Release State_Store Evaluator
begin

text \<open>
  OpenHardwareOS: verification of the control core.

  The program reads temperatures from a PC's sensors and drives its fans. A rule maps a sensor
  value through a curve to a duty; the automation engine evaluates the rules every tick; the
  runtime writes the result through a safety gate to the adapter that owns the device; and a
  device that speaks the Open Device Protocol is reached over a framed byte link. What the engine
  no longer drives it owes the fail-safe duty, across errors and restarts. The model follows the
  crates.

  \<^bold>\<open>Theories and sources\<close>

  \<^item> \<open>Prelude\<close>: fixed-width integers with saturation and wrap-around, \<open>Result\<close> as a sum, keyed lists.
  \<^item> \<open>F64\<close>: binary64 as NaN, two infinities and rationals, each operation rounded to nearest even.
    The two zeros are one value, which no comparison of the code can tell apart.
  \<^item> \<open>Rust_Std\<close>: what the code uses of Rust's library (ASCII text, \<open>trim\<close>, number rendering) and
    the error type of \<open>crates/ohm-core/src/error.rs\<close>. A formatted message is kept as its pieces.
  \<^item> \<open>Interfaces\<close>: the contracts between components, as locales: \<open>keyed_collection\<close> (interpreted on
    the readings of a device state), \<open>range_limiter\<close> (on \<open>f64::clamp\<close>, on a capability's clamp and
    on a rule's output limits), \<open>frame_link\<close> (on the protocol's decoder, used by the transports),
    \<open>owed_register\<close> (on the handover book and on the engine's sweep of what it owes).
  \<^item> \<open>Ids\<close>: \<open>crates/ohm-core/src/ids.rs\<close>. \<open>Device_Model\<close>: \<open>crates/ohm-device-model\<close> (units, values,
    capabilities, readings, devices).
  \<^item> \<open>Curve\<close>, \<open>Rule\<close>, \<open>Evaluator\<close>, \<open>Handover\<close>, \<open>Recovery\<close>: the files of the same names in
    \<open>crates/ohm-automation/src\<close> (\<open>Recovery\<close> with \<open>store.rs\<close>). \<open>evaluate\<close> is the source's function;
    its state is the record \<open>rule_state\<close>, its result the next state with the decision, and \<open>None\<close>
    a panic.
  \<^item> \<open>Safety\<close>, \<open>Config\<close>, \<open>Device_Table\<close>, \<open>State_Store\<close>, \<open>Release\<close>: \<open>safety.rs\<close> (the policy and the gate
    \<open>check_duty\<close>), \<open>config.rs\<close>, \<open>device_table.rs\<close> with \<open>registry.rs\<close>, \<open>store.rs\<close> and \<open>release.rs\<close> of
    \<open>crates/ohm-runtime/src\<close>.
  \<^item> \<open>Adapter_Api\<close>: \<open>crates/ohm-adapter-api/src/lib.rs\<close> and \<open>ohm-runtime/src/discovery.rs\<close>. An adapter is
    a record of functions over a world \<open>'w\<close>, the hardware; nothing is assumed of it.
  \<^item> \<open>Runtime\<close>: \<open>ohm-runtime/src/runtime.rs\<close> as a record with the world inside: the write path, polling,
    the emergency supervisor, discovery, settings, start and exit. \<open>Runtime_Correct\<close> and
    \<open>Runtime_Safety\<close> hold its properties. \<open>Runtime_World\<close> has the locale \<open>sound_hardware\<close>: what a set
    of adapters must keep so that a property of the hardware survives every operation.
  \<^item> \<open>Engine\<close>: \<open>ohm-automation/src/engine.rs\<close>: ticks, rule edits, handovers, load and persistence, over
    the runtime's record. Its properties are in \<open>Engine_Correct\<close> (a tick), \<open>Engine_Rules\<close> (the rule
    list), \<open>Engine_Handover\<close> (what is owed), \<open>Engine_Control\<close> (confirmed outputs); \<open>Engine_Demo\<close> holds a
    concrete engine and what it shows. \<open>Suggestions\<close>: \<open>examples.rs\<close> and the engine's first rule.
  \<^item> \<open>Framing\<close>, \<open>Protocol\<close>, \<open>OpenFan\<close>, \<open>Transport\<close>: \<open>framing.rs\<close>, \<open>messages.rs\<close> with \<open>descriptor.rs\<close>,
    \<open>mock.rs\<close> and \<open>transport.rs\<close> of \<open>crates/ohm-protocol/src\<close>. \<open>handle\<close> is the simulated
    controller's whole request handler, \<open>push\<close> the incremental decoder, \<open>call\<close> one exchange.
  \<^item> \<open>Opd_Adapter\<close>: \<open>adapters/open-protocol/src/lib.rs\<close>, the adapter over that link, what it needs of
    the JSON codec (\<open>codec_within\<close>), and the interpretation of \<open>sound_hardware\<close> on it.
  \<^item> \<open>Hwmon\<close>: \<open>adapters/system/src/hwmon.rs\<close>, the kernel's fan channels over a record of files and
    directories. \<open>Os_Sensors\<close>: \<open>devices.rs\<close> and the sensor half of \<open>lib.rs\<close> there. \<open>System_Adapter\<close>: the
    adapter itself; its state is a record with the file system inside, \<open>taken\<close> is the sorted list
    \<open>sy_taken\<close>. Its properties are in \<open>System_Safety\<close>, a board to evaluate them on in
    \<open>System_Bench\<close>, the runtime over it in \<open>System_Runtime\<close>, and what it gets wrong in \<open>System_Faults\<close>.
    \<open>System_Runtime\<close> interprets \<open>sound_hardware\<close> twice: on this adapter alone, and on a session in which any
    other adapters run beside it while every file may change by itself (\<open>session_change\<close>).
  \<^item> \<open>Lhm_Tree\<close>, \<open>Lhm_Web\<close>, \<open>Lhm_Mapping\<close>, \<open>Lhm_Adapter\<close>: \<open>lhm.rs\<close>, \<open>web.rs\<close>, \<open>mapping.rs\<close> and \<open>lib.rs\<close> of
    \<open>adapters/libre-hardware-monitor/src\<close>: the tree of nodes with its display values, the client of the
    web server, the mapping of a tree to devices and fan channels, and the adapter. The client's record
    holds the HTTP agent, a function over the server's state \<open>'s\<close>, and the JSON parser.
    \<open>Lhm_Correct\<close> has the facts on a mapped tree, \<open>Lhm_Stable\<close> that the order of the hardware does not
    matter, \<open>Lhm_Control\<close> the requests a runtime over this adapter makes (the third interpretation of
    \<open>sound_hardware\<close>, on an agent that logs them), \<open>Lhm_Demo\<close> a concrete tree, \<open>Lhm_Faults\<close> the defects.
  \<^item> \<open>Service\<close>: \<open>ohm-runtime/src/service.rs\<close>, the state file that names the one process driving the
    channels. A claim is a sequence of single calls on the file (\<open>claim_step\<close>), a heartbeat a check and a
    renaming; \<open>acquire\<close> and \<open>heartbeat\<close> are the sequences nobody interrupts. \<open>Service_Run\<close>: the background
    service of \<open>apps/cli/src/main.rs\<close>, from the claim to the end of its loop. \<open>Service_Correct\<close> lets any
    number of processes interleave their single calls (\<open>file_call\<close>, \<open>leased\<close>); \<open>Service_System\<close> follows two
    processes and their fan channels; \<open>Service_Faults\<close> shows what the file does not guarantee.

  \<^bold>\<open>What is shown\<close>

  \<^item> Safety gate: an emergency overrides everything, no duty below a device's floor passes, a pump
    is never stopped, ramping never overshoots, sanitising repairs every setting.
  \<^item> Curves: construction keeps the points and orders them; evaluation stays a percentage, rises
    with a rising curve and hits the points exactly, all under rounding.
  \<^item> Rules and evaluation: no panic on validated rules, every written value within the hardware's
    range, the hysteresis and deadband guarantees, the gate's decision, the failure policy, and
    that a silent sensor ends in the failure policy however often the rule is evaluated.
  \<^item> Runtime: only vetted values reach an adapter; every attempt leaves one audit record; an
    emergency reaches every cooling channel; the exit path accounts for every channel; a dry run
    touches nothing; the settings, the table and the adapters keep their invariant in every
    reachable runtime. (An emergency pass does nothing while automation is switched off.)
  \<^item> Engine: at most one rule writes an output in a tick and at most one enabled rule holds it; a
    tick returns; whatever stops driving a channel is owed the fail-safe duty, is settled only by
    evidence, is retried with growing pauses a bounded number of times and survives a restart; a
    channel claimed by someone else is not touched.
  \<^item> Protocol: messages survive framing and any chunking, damaged frames are dropped, buffering is
    bounded; the loopback is transparent, the stream loses nothing, the handshake refuses newer
    firmware; the controller's duty is always a percentage, it falls back on its own when the
    host is silent, and a firmware image takes effect only with its checksum.
  \<^item> Handover book: the open items are a multiset of debts, each operation changes it as a plain
    specification says, and a channel is owed once as long as what is restored was not on the book.
  \<^item> End to end: through runtime, gate, adapter, framing and device, the fans of the simulated
    controller are never below the policy's floor (up to the 40 % the firmware starts with and the codec's
    rounding of a fraction), and a write reported as applied is in effect.
  \<^item> Fan channels of the operating system: only channels listed in the settings are ever touched,
    so a runtime over this adapter changes nothing but their files; an accepted duty is in force
    as the nearest byte, with the replaced mode remembered where an ownership file was found; a successful
    shutdown, and with it the runtime's exit, puts every held channel whose ownership file the last scan
    found back under exactly that mode; what a process publishes as held the next one adopts, or the
    caller is told.
  \<^item> LibreHardwareMonitor: a value is set only on a control whose number and origin match its own
    channel's in the tree just fetched; which channel an id names does not depend on the order in
    which the hardware is listed; a write is reported as applied only when the channel read back
    the value.
  \<^item> One writer: while a process that holds the state file lives and beats in time, no other claim
    succeeds, however the calls of the processes interleave, as long as reading works, no claimant is held
    up between reading and judging until what it read is stale, and none was under way when this began. A
    service that lost the file stands down without touching it; what a process held when it died is
    put back by the one that takes over. Without those conditions two claims can succeed:
    \<open>two_successors\<close>, \<open>claimed_while_empty\<close>, \<open>evicted_on_read_error\<close>, \<open>judged_too_late\<close>.
  \<^item> Defects of the code are stated as theorems, such as \<open>late_answer_shifts\<close>,
    \<open>resized_upload_checks_tail_only\<close>, \<open>supervisor_skips_other_types\<close>, \<open>failed_delete_forgets_channel\<close>,
    \<open>unreadable_mode_dropped\<close>, \<open>undo_forgets\<close>.

  \<^bold>\<open>Bounds and termination\<close>

  Every definition is total. The decoder's loop terminates because each round removes at least
  the two bytes of a magic (\<open>drain\<close>, measure: buffered bytes); nothing uses fuel. A curve is
  \<open>tame\<close> when its points are doubles, inputs at most \<open>2 ^ 1000\<close> in size and outputs percentages:
  beyond that a difference may overflow. Integer counters saturate or wrap as in a release build.

  \<^bold>\<open>Outside the model\<close>

  serde (JSON, YAML) is a parameter of the transports and of the stored files, of which only what
  the code does with a parsed or failed result is modelled (for the sensor tree, the whole
  conversion of the parsed value); the HTTP agent and LibreHardwareMonitor behind it are another;
  the operating system's streams are a parameter of the byte stream, what the crates sysinfo and
  rustix report an argument of the operating system adapter, and the file system of the fan
  channels one record that only their own operations and the steps of the environment change (a
  file's error is a value, so an unreadable or read-only file is a case of the model, a partial
  write is not); the clock is an argument or a part of the world. Async tasks are one sequence of
  operations, each of which runs to its end: between two of them the hardware may take an arbitrary step,
  within one it does not. In the code this is a choice of schedule. The engine locks its fields one by
  one, so another task's \<open>save_rule\<close> or \<open>delete_rule\<close> may run while \<open>run_rule\<close> waits for its write, before it
  stores the rule's memory (\<open>deleted_while_writing\<close> is one thing that goes wrong then); the runtime's
  \<open>write_gate\<close> covers the adapter's write and not the gate check before it. The properties of the engine
  and the runtime hold for the schedules in which operations do not overlap. Only the state file, which
  several processes share, is modelled call by call. The event bus and the audit log are
  the lists of what was published and recorded; their capacity and files are left out, as is
  tracing output. The other vendor adapters (NVML, WMI), the mock machine and the applications
  (but for the background service) are I/O or simulation and are not modelled; signals and
  printing are left out of the service.
\<close>

end
